(* ===== verification/Prelude.thy ===== *)
theory Prelude
  imports Main "HOL-Library.Char_ord" "HOL-Library.List_Lexorder" "HOL-Library.Product_Lexorder"
begin

text \<open>
  What every component of the model shares: the exceptions the code raises, Python's string
  helpers, instants, database identifiers, tables as lists of rows with SQL-like access, and the
  two layers of effects the repository code has: a unit of work (a transaction that is rolled back
  when it raises) and a service call (several units of work in a row, each already committed when
  a later one raises). It also holds the two generic contracts the components are checked against:
  life cycles (a transition matrix with terminal states, and the audit histories it admits), and
  component views (a store that is one field of a larger state).
\<close>

named_theorems keeps_intro \<open>rules that show an operation keeps an invariant\<close>
named_theorems tx_simps \<open>what the outcome of a composed unit of work says of its parts\<close>

section \<open>Exceptions, identifiers, instants\<close>

text \<open>
  One constructor per exception class the modelled code raises; the arguments are the data later
  code inspects, never the message text. \<open>IntegrityError\<close> carries the violated constraint's name,
  \<open>ProgrammingError\<close> is the database's trigger raising.
\<close>

datatype exn =
    ValueError
  | KeyError
  | LookupError
  | IntegrityError string
  | ProgrammingError
  | QuotaExceededError string string string
  | NoEligibleWorkerError
  | IdempotencyConflictError
  | JobIdempotencyConflictError
  | IllegalInstanceTransitionError string string
  | ChallengeNotAttachedError
  | SubmissionProcessingError
  | FlagRejectedError
  | FlagUnavailableError
  | ProjectionUnsupportedEventError
  | ProjectionMalformedEventError
  | OperationalError
  | MultipleResultsFound
  | NotImplementedError
  | DataError
  | CompetitionWindowError "string list"
  | AnswerSpecError
  | InvalidCredentialsError
  | AuthenticationError
  | AuthorizationError
  | OidcAuthError
  | ScopeError
  | AssertionError

text \<open>
  An identifier as the code receives it: the text either denotes a uuid (two spellings of one uuid
  are the same \<open>Uid\<close>) or it does not parse, which \<open>uuid.UUID\<close> reports by raising.
\<close>

datatype ident = Uid nat | Malformed string

fun as_uuid :: "ident \<Rightarrow> nat option" where
  "as_uuid (Uid n) = Some n"
| "as_uuid (Malformed _) = None"

text \<open>Instants are timezone-aware datetimes, in microseconds since the epoch.\<close>

type_synonym instant = int

definition seconds :: "int \<Rightarrow> int" where
  "seconds n = n * 1000000"

lemma seconds_mono [simp]: "seconds a \<le> seconds b \<longleftrightarrow> a \<le> b"
  by (simp add: seconds_def)

section \<open>Python strings\<close>

text \<open>
  Strings are character lists over the code points below 256; \<open>py_isspace\<close> is the whitespace
  that \<open>str.strip\<close> removes in that range.
\<close>

definition py_isspace :: "char \<Rightarrow> bool" where
  "py_isspace c \<longleftrightarrow>
     (of_char c :: nat) \<in> {9, 10, 11, 12, 13, 28, 29, 30, 31, 32, 133, 160}"

definition py_lstrip :: "string \<Rightarrow> string" where
  "py_lstrip s = dropWhile py_isspace s"

definition py_strip :: "string \<Rightarrow> string" where
  "py_strip s = rev (dropWhile py_isspace (rev (py_lstrip s)))"

text \<open>\<open>_require_nonempty\<close> accepts exactly the strings with a character that is not whitespace.\<close>

definition nonempty :: "string \<Rightarrow> bool" where
  "nonempty s \<longleftrightarrow> py_strip s \<noteq> []"

lemma dropWhile_rev_Nil: "dropWhile P (rev xs) = [] \<longleftrightarrow> dropWhile P xs = []"
  by (simp add: dropWhile_eq_Nil_conv)

lemma nonempty_iff: "nonempty s \<longleftrightarrow> (\<exists>c \<in> set s. \<not> py_isspace c)"
proof -
  have "py_strip s = [] \<longleftrightarrow> dropWhile py_isspace (dropWhile py_isspace s) = []"
    unfolding py_strip_def py_lstrip_def using dropWhile_rev_Nil by fastforce
  also have "\<dots> \<longleftrightarrow> (\<forall>c \<in> set s. py_isspace c)"
    by (simp add: dropWhile_eq_Nil_conv dropWhile_idem)
  finally show ?thesis by (auto simp: nonempty_def)
qed

text \<open>The check on an optional field: absent, or not blank.\<close>

definition opt_nonempty :: "string option \<Rightarrow> bool" where
  "opt_nonempty x = (case x of None \<Rightarrow> True | Some s \<Rightarrow> nonempty s)"

lemma opt_nonempty_iff: "opt_nonempty x \<longleftrightarrow> (\<forall>s. x = Some s \<longrightarrow> nonempty s)"
  by (cases x) (simp_all add: opt_nonempty_def)

text \<open>The text of a well-formed uuid is never blank.\<close>

fun ident_nonempty :: "ident \<Rightarrow> bool" where
  "ident_nonempty (Uid _) = True"
| "ident_nonempty (Malformed s) = nonempty s"

lemma set_py_strip: "set (py_strip s) \<subseteq> set s"
  unfolding py_strip_def py_lstrip_def
  by (metis set_dropWhileD set_rev subsetI)

lemma hd_dropWhile_not: "dropWhile P xs \<noteq> [] \<Longrightarrow> \<not> P (hd (dropWhile P xs))"
  by (rule hd_dropWhile)

lemma py_strip_last: "py_strip s \<noteq> [] \<Longrightarrow> \<not> py_isspace (last (py_strip s))"
  by (simp add: py_strip_def hd_dropWhile last_rev)

text \<open>Decimal rendering of a Python int, as an f-string interpolates it.\<close>

fun digits10 :: "nat \<Rightarrow> string" where
  "digits10 n = (if n < 10 then [char_of (48 + n)] else digits10 (n div 10) @ [char_of (48 + n mod 10)])"

declare digits10.simps [simp del]

definition py_str_int :: "int \<Rightarrow> string" where
  "py_str_int i = (if i < 0 then ''-'' @ digits10 (nat (- i)) else digits10 (nat i))"

fun undigits10 :: "nat \<Rightarrow> string \<Rightarrow> nat" where
  "undigits10 acc [] = acc"
| "undigits10 acc (c # cs) = undigits10 (acc * 10 + (of_char c - 48)) cs"

lemma undigits10_append: "undigits10 acc (xs @ ys) = undigits10 (undigits10 acc xs) ys"
  by (induction xs arbitrary: acc) auto

lemma of_char_digit: "d < 10 \<Longrightarrow> (of_char (char_of (48 + d :: nat)) :: nat) = 48 + d"
  by (simp add: of_char_of)

lemma undigits10_digits10: "undigits10 0 (digits10 n) = n"
proof (induction n rule: digits10.induct)
  case (1 n)
  show ?case
  proof (cases "n < 10")
    case True
    then show ?thesis by (simp add: digits10.simps [of n] of_char_digit)
  next
    case False
    then show ?thesis
      using 1 by (simp add: digits10.simps [of n] undigits10_append of_char_digit)
  qed
qed

lemma digits10_inj: "digits10 m = digits10 n \<longleftrightarrow> m = n"
  by (metis undigits10_digits10)

lemma digits10_chars: "c \<in> set (digits10 n) \<Longrightarrow> 48 \<le> (of_char c :: nat) \<and> of_char c < (58 :: nat)"
proof (induction n rule: digits10.induct)
  case (1 n)
  then show ?case
    by (cases "n < 10") (auto simp: digits10.simps [of n] of_char_digit)
qed

section \<open>Tables\<close>

text \<open>
  A table is the list of its rows in insertion order; its primary or unique key is a function of
  the row. \<open>SELECT ... WHERE key = k\<close> is \<open>find_row\<close>, an \<open>UPDATE\<close> of one row by key is
  \<open>put_row\<close>, and \<open>ORDER BY ... LIMIT n\<close> is \<open>order_limit\<close>, where rows that agree on the sort
  key keep their insertion order (SQL leaves that order open).
\<close>

definition find_row :: "('r \<Rightarrow> 'k) \<Rightarrow> 'k \<Rightarrow> 'r list \<Rightarrow> 'r option" where
  "find_row key k rows = List.find (\<lambda>r. key r = k) rows"

definition put_row :: "('r \<Rightarrow> 'k) \<Rightarrow> 'r \<Rightarrow> 'r list \<Rightarrow> 'r list" where
  "put_row key new rows = map (\<lambda>r. if key r = key new then new else r) rows"

definition order_limit :: "('r \<Rightarrow> 'k::linorder) \<Rightarrow> nat \<Rightarrow> 'r list \<Rightarrow> 'r list" where
  "order_limit key n rows = take n (sort_key key rows)"

definition first_by :: "('r \<Rightarrow> 'k::linorder) \<Rightarrow> 'r list \<Rightarrow> 'r option" where
  "first_by key rows = (case order_limit key 1 rows of [] \<Rightarrow> None | r # _ \<Rightarrow> Some r)"

lemma find_row_Nil [simp]: "find_row key k [] = None"
  by (simp add: find_row_def)

lemma find_row_Cons: "find_row key k (r # rs) = (if key r = k then Some r else find_row key k rs)"
  by (simp add: find_row_def)

lemma find_row_append:
  "find_row key k (xs @ ys) = (case find_row key k xs of None \<Rightarrow> find_row key k ys | Some r \<Rightarrow> Some r)"
  by (induction xs) (auto simp: find_row_Cons)

lemma find_row_SomeD: "find_row key k rows = Some r \<Longrightarrow> r \<in> set rows \<and> key r = k"
  by (induction rows) (auto simp: find_row_Cons split: if_splits)

lemma find_row_None_iff: "find_row key k rows = None \<longleftrightarrow> (\<forall>r \<in> set rows. key r \<noteq> k)"
  by (induction rows) (auto simp: find_row_Cons)

lemma find_row_None_key: "find_row key k rows = None \<longleftrightarrow> k \<notin> key ` set rows"
  by (simp add: find_row_None_iff image_iff) metis

lemma not_in_keys: "k \<notin> key ` S \<Longrightarrow> \<forall>r \<in> S. key r \<noteq> k"
  by blast

lemma find_row_eq_Some_iff:
  assumes "distinct (map key rows)"
  shows "find_row key k rows = Some r \<longleftrightarrow> r \<in> set rows \<and> key r = k"
  using assms by (induction rows) (auto simp: find_row_Cons)

lemma map_key_put_row [simp]: "map key (put_row key new rows) = map key rows"
  by (induction rows) (auto simp: put_row_def)

lemma length_put_row [simp]: "length (put_row key new rows) = length rows"
  by (simp add: put_row_def)

lemma set_put_rowD: "r \<in> set (put_row key new rows) \<Longrightarrow> r = new \<or> (r \<in> set rows \<and> key r \<noteq> key new)"
  by (auto simp: put_row_def split: if_splits)

lemma find_row_put_row:
  "find_row key k (put_row key new rows) =
     (if k = key new then (if key new \<in> key ` set rows then Some new else None)
      else find_row key k rows)"
  by (induction rows) (auto simp: put_row_def find_row_Cons)

lemma put_row_same:
  "distinct (map key rows) \<Longrightarrow> r \<in> set rows \<Longrightarrow> put_row key r rows = rows"
  unfolding put_row_def by (rule map_idI) (auto simp: distinct_map dest: inj_onD)

lemma unique_row: "distinct (map key rows) \<Longrightarrow> r \<in> set rows \<Longrightarrow> r' \<in> set rows \<Longrightarrow> key r = key r' \<Longrightarrow> r = r'"
  by (simp add: distinct_map inj_on_def)

lemma map_put_row_same:
  assumes "distinct (map k rows)" and "old \<in> set rows" and "k old = k new" and "f new = f old"
  shows "map f (put_row k new rows) = map f rows"
proof -
  have "x = old" if "x \<in> set rows" "k x = k new" for x
    using assms that by (metis distinct_map inj_onD)
  then show ?thesis using assms(4) by (auto simp: put_row_def)
qed

lemma first_by_None [simp]: "first_by key rows = None \<longleftrightarrow> rows = []"
proof -
  have "take 1 (sort_key key rows) = [] \<longleftrightarrow> rows = []"
    by (metis One_nat_def length_0_conv length_sort nat.distinct(1) take_eq_Nil)
  then show ?thesis by (auto simp: first_by_def order_limit_def split: list.splits)
qed

lemma first_by_SomeD:
  assumes "first_by key rows = Some r"
  shows "r \<in> set rows \<and> (\<forall>r' \<in> set rows. key r \<le> key r')"
proof -
  obtain rs where eq: "sort_key key rows = r # rs"
    using assms by (cases "sort_key key rows") (auto simp: first_by_def order_limit_def)
  have "sorted (map key (r # rs))" using eq sorted_sort_key [of key rows] by simp
  moreover have "set rows = set (r # rs)" using eq by (metis set_sort)
  ultimately show ?thesis by auto
qed

lemma set_order_limit: "set (order_limit key n rows) \<subseteq> set rows"
  using set_take_subset [of n "sort_key key rows"] by (simp add: order_limit_def)

lemma distinct_order_limit: "distinct rows \<Longrightarrow> distinct (order_limit key n rows)"
  by (simp add: order_limit_def)

section \<open>Units of work and service calls\<close>

text \<open>
  The body of a \<open>with database.session_scope()\<close> block reads and writes one state and may raise;
  an exception leaves no state behind, because the block's transaction is rolled back. A service
  call strings such blocks together, so an exception there keeps what earlier blocks committed.
\<close>

type_synonym ('s, 'a) tx = "'s \<Rightarrow> exn + 'a \<times> 's"
type_synonym ('s, 'a) svc = "'s \<Rightarrow> (exn + 'a) \<times> 's"

definition tx_ret :: "'a \<Rightarrow> ('s, 'a) tx" where
  "tx_ret x = (\<lambda>s. Inr (x, s))"

definition tx_raise :: "exn \<Rightarrow> ('s, 'a) tx" where
  "tx_raise e = (\<lambda>_. Inl e)"

definition tx_bind :: "('s, 'a) tx \<Rightarrow> ('a \<Rightarrow> ('s, 'b) tx) \<Rightarrow> ('s, 'b) tx" where
  "tx_bind m f = (\<lambda>s. case m s of Inl e \<Rightarrow> Inl e | Inr (x, s') \<Rightarrow> f x s')"

definition tx_guard :: "bool \<Rightarrow> exn \<Rightarrow> ('s, unit) tx" where
  "tx_guard b e = (if b then tx_ret () else tx_raise e)"

definition tx_some :: "exn \<Rightarrow> 'a option \<Rightarrow> ('s, 'a) tx" where
  "tx_some e x = (case x of None \<Rightarrow> tx_raise e | Some v \<Rightarrow> tx_ret v)"

definition tx_get :: "('s \<Rightarrow> 'a) \<Rightarrow> ('s, 'a) tx" where
  "tx_get f = (\<lambda>s. Inr (f s, s))"

definition tx_modify :: "('s \<Rightarrow> 's) \<Rightarrow> ('s, unit) tx" where
  "tx_modify f = (\<lambda>s. Inr ((), f s))"

text \<open>\<open>with session.begin_nested()\<close> inside a \<open>try\<close>: the handler runs on the state before the block.\<close>

definition savepoint :: "('s, 'a) tx \<Rightarrow> (exn \<Rightarrow> ('s, 'a) tx) \<Rightarrow> ('s, 'a) tx" where
  "savepoint m h = (\<lambda>s. case m s of Inl e \<Rightarrow> h e s | Inr r \<Rightarrow> Inr r)"

fun tx_iter :: "('x \<Rightarrow> ('s, unit) tx) \<Rightarrow> 'x list \<Rightarrow> ('s, unit) tx" where
  "tx_iter f [] = tx_ret ()"
| "tx_iter f (x # xs) = tx_bind (f x) (\<lambda>_. tx_iter f xs)"

definition session_scope :: "('s, 'a) tx \<Rightarrow> ('s, 'a) svc" where
  "session_scope m = (\<lambda>s. case m s of Inl e \<Rightarrow> (Inl e, s) | Inr (x, s') \<Rightarrow> (Inr x, s'))"

definition svc_ret :: "'a \<Rightarrow> ('s, 'a) svc" where
  "svc_ret x = (\<lambda>s. (Inr x, s))"

definition svc_raise :: "exn \<Rightarrow> ('s, 'a) svc" where
  "svc_raise e = (\<lambda>s. (Inl e, s))"

definition svc_bind :: "('s, 'a) svc \<Rightarrow> ('a \<Rightarrow> ('s, 'b) svc) \<Rightarrow> ('s, 'b) svc" where
  "svc_bind m f = (\<lambda>s. case m s of (Inl e, s') \<Rightarrow> (Inl e, s') | (Inr x, s') \<Rightarrow> f x s')"

definition svc_catch :: "('s, 'a) svc \<Rightarrow> (exn \<Rightarrow> ('s, 'a) svc) \<Rightarrow> ('s, 'a) svc" where
  "svc_catch m h = (\<lambda>s. case m s of (Inl e, s') \<Rightarrow> h e s' | (Inr x, s') \<Rightarrow> (Inr x, s'))"

lemmas tx_defs = tx_ret_def tx_raise_def tx_bind_def tx_guard_def tx_some_def tx_get_def
  tx_modify_def savepoint_def

lemmas svc_defs = session_scope_def svc_ret_def svc_raise_def svc_bind_def svc_catch_def

lemma tx_ret_iff [tx_simps]: "tx_ret x s = Inr r \<longleftrightarrow> r = (x, s)"
  by (auto simp: tx_ret_def)

lemma tx_raise_iff [tx_simps]: "tx_raise e s = Inr r \<longleftrightarrow> False"
  by (simp add: tx_raise_def)

lemma tx_bind_iff [tx_simps]:
  "tx_bind m f s = Inr r \<longleftrightarrow> (\<exists>x s'. m s = Inr (x, s') \<and> f x s' = Inr r)"
  by (auto simp: tx_bind_def split: sum.splits prod.splits)

lemma tx_bind_ret: "tx_bind (tx_ret x) f = f x"
  by (rule ext) (simp add: tx_bind_def tx_ret_def)

lemma tx_some_cases: "tx_some e (Some v) = tx_ret v" "tx_some e None = tx_raise e"
  by (simp_all add: tx_some_def)

lemma tx_bind_step: "m s = Inr (x, s') \<Longrightarrow> tx_bind m f s = f x s'"
  by (simp add: tx_bind_def)

lemma tx_bind_fail: "m s = Inl e \<Longrightarrow> tx_bind m f s = Inl e"
  by (simp add: tx_bind_def)

lemma tx_bind_get: "tx_bind (tx_get g) f s = f (g s) s"
  by (simp add: tx_bind_def tx_get_def)

lemma tx_bindE:
  assumes "tx_bind m f s = Inr r"
  obtains x s' where "m s = Inr (x, s')" and "f x s' = Inr r"
  using assms by (auto simp: tx_bind_iff)

lemma tx_guard_iff [tx_simps]: "tx_guard b e s = Inr r \<longleftrightarrow> b \<and> r = ((), s)"
  by (auto simp: tx_guard_def tx_ret_def tx_raise_def)

lemma tx_some_iff [tx_simps]: "tx_some e x s = Inr r \<longleftrightarrow> (\<exists>v. x = Some v \<and> r = (v, s))"
  by (auto simp: tx_some_def tx_ret_def tx_raise_def split: option.splits)

lemma tx_get_iff [tx_simps]: "tx_get f s = Inr r \<longleftrightarrow> r = (f s, s)"
  by (auto simp: tx_get_def)

lemma tx_modify_iff [tx_simps]: "tx_modify f s = Inr r \<longleftrightarrow> r = ((), f s)"
  by (auto simp: tx_modify_def)

lemma tx_bind_raises:
  "tx_bind m f s = Inl e \<longleftrightarrow> m s = Inl e \<or> (\<exists>x s'. m s = Inr (x, s') \<and> f x s' = Inl e)"
  by (auto simp: tx_bind_def split: sum.splits prod.splits)

lemma tx_some_raises: "tx_some e x s = Inl e' \<longleftrightarrow> x = None \<and> e' = e"
  by (auto simp: tx_some_def tx_ret_def tx_raise_def split: option.splits)

lemma tx_guard_raises: "tx_guard b e s = Inl e' \<longleftrightarrow> \<not> b \<and> e' = e"
  by (auto simp: tx_guard_def tx_ret_def tx_raise_def)

lemma tx_never_raises [simp]:
  "tx_ret x s \<noteq> Inl e" "tx_get f s \<noteq> Inl e" "tx_modify g s \<noteq> Inl e"
  by (simp_all add: tx_ret_def tx_get_def tx_modify_def)

lemmas tx_raises = tx_bind_raises tx_some_raises tx_guard_raises

text \<open>A unit of work is atomic: when it raises, the state is the one it started from.\<close>

lemma session_scope_raises: "fst (session_scope m s) = Inl e \<Longrightarrow> snd (session_scope m s) = s"
  by (auto simp: session_scope_def split: sum.splits prod.splits)

lemma session_scope_eq:
  "session_scope m s = (Inr x, s') \<longleftrightarrow> m s = Inr (x, s')"
  "session_scope m s = (Inl e, s') \<longleftrightarrow> m s = Inl e \<and> s' = s"
  by (auto simp: session_scope_def split: sum.splits prod.splits)

subsection \<open>Keeping an invariant\<close>

definition tx_keeps :: "('s \<Rightarrow> bool) \<Rightarrow> ('s, 'a) tx \<Rightarrow> bool" where
  "tx_keeps P m \<longleftrightarrow> (\<forall>s x s'. P s \<longrightarrow> m s = Inr (x, s') \<longrightarrow> P s')"

definition svc_keeps :: "('s \<Rightarrow> bool) \<Rightarrow> ('s, 'a) svc \<Rightarrow> bool" where
  "svc_keeps P m \<longleftrightarrow> (\<forall>s. P s \<longrightarrow> P (snd (m s)))"

lemma tx_keepsI: "(\<And>s x s'. P s \<Longrightarrow> m s = Inr (x, s') \<Longrightarrow> P s') \<Longrightarrow> tx_keeps P m"
  by (simp add: tx_keeps_def)

lemma tx_keepsD: "tx_keeps P m \<Longrightarrow> P s \<Longrightarrow> m s = Inr (x, s') \<Longrightarrow> P s'"
  by (simp add: tx_keeps_def)

lemma svc_keepsD: "svc_keeps P m \<Longrightarrow> P s \<Longrightarrow> P (snd (m s))"
  by (simp add: svc_keeps_def)

lemma tx_keeps_pure [keeps_intro]:
  "tx_keeps P (tx_ret x)" "tx_keeps P (tx_raise e)" "tx_keeps P (tx_guard b e)"
  "tx_keeps P (tx_some e v)" "tx_keeps P (tx_get f)"
  by (auto simp: tx_keeps_def tx_simps)

lemma tx_keeps_bind [keeps_intro]:
  assumes "tx_keeps P m" and "\<And>x. tx_keeps P (f x)"
  shows "tx_keeps P (tx_bind m f)"
proof (rule tx_keepsI)
  fix s r t
  assume "P s" and "tx_bind m f s = Inr (r, t)"
  then obtain x s' where "m s = Inr (x, s')" and "f x s' = Inr (r, t)"
    by (auto simp: tx_bind_iff)
  with \<open>P s\<close> assms show "P t" by (blast dest: tx_keepsD)
qed

lemma tx_keeps_iter [keeps_intro]:
  "(\<And>x. x \<in> set xs \<Longrightarrow> tx_keeps P (f x)) \<Longrightarrow> tx_keeps P (tx_iter f xs)"
proof (induction xs)
  case Nil
  show ?case by (simp add: tx_keeps_pure)
next
  case (Cons x xs)
  then show ?case by (simp add: tx_keeps_bind)
qed

lemma tx_keeps_savepoint [keeps_intro]:
  assumes "tx_keeps P m" and "\<And>e. tx_keeps P (h e)"
  shows "tx_keeps P (savepoint m h)"
proof (rule tx_keepsI)
  fix s r t
  assume P: "P s" and run: "savepoint m h s = Inr (r, t)"
  show "P t"
  proof (cases "m s")
    case (Inl e)
    with run have "h e s = Inr (r, t)" by (simp add: savepoint_def)
    then show ?thesis by (rule tx_keepsD [OF assms(2) P])
  next
    case (Inr p)
    with run have "m s = Inr (r, t)" by (simp add: savepoint_def)
    then show ?thesis by (rule tx_keepsD [OF assms(1) P])
  qed
qed

lemma svc_keeps_scope [keeps_intro]: "tx_keeps P m \<Longrightarrow> svc_keeps P (session_scope m)"
  by (auto simp: svc_keeps_def tx_keeps_def session_scope_def split: sum.splits prod.splits)

lemma svc_keeps_pure [keeps_intro]: "svc_keeps P (svc_ret x)" "svc_keeps P (svc_raise e)"
  by (auto simp: svc_keeps_def svc_ret_def svc_raise_def)

lemma svc_keeps_bind [keeps_intro]:
  assumes "svc_keeps P m" and "\<And>x. svc_keeps P (f x)"
  shows "svc_keeps P (svc_bind m f)"
  unfolding svc_keeps_def
proof (intro allI impI)
  fix s assume "P s"
  with assms(1) have "P (snd (m s))" by (simp add: svc_keeps_def)
  with assms(2) show "P (snd (svc_bind m f s))"
    by (auto simp: svc_keeps_def svc_bind_def split: sum.splits prod.splits)
qed

lemma svc_keeps_catch [keeps_intro]:
  assumes "svc_keeps P m" and "\<And>e. svc_keeps P (h e)"
  shows "svc_keeps P (svc_catch m h)"
  unfolding svc_keeps_def
proof (intro allI impI)
  fix s assume "P s"
  with assms(1) have "P (snd (m s))" by (simp add: svc_keeps_def)
  with assms(2) show "P (snd (svc_catch m h s))"
    by (auto simp: svc_keeps_def svc_catch_def split: sum.splits prod.splits)
qed

section \<open>Component views\<close>

text \<open>
  A store that is one field of a larger state: \<open>get\<close> and \<open>put\<close> obey the lens laws, and an
  operation of the store runs on the larger state by reading and writing that field only.
\<close>

definition tx_on :: "('w \<Rightarrow> 's) \<Rightarrow> ('s \<Rightarrow> 'w \<Rightarrow> 'w) \<Rightarrow> ('s, 'a) tx \<Rightarrow> ('w, 'a) tx" where
  "tx_on get put m =
     (\<lambda>w. case m (get w) of Inl e \<Rightarrow> Inl e | Inr (x, s) \<Rightarrow> Inr (x, put s w))"

definition svc_on :: "('w \<Rightarrow> 's) \<Rightarrow> ('s \<Rightarrow> 'w \<Rightarrow> 'w) \<Rightarrow> ('s, 'a) svc \<Rightarrow> ('w, 'a) svc" where
  "svc_on get put m = (\<lambda>w. let (r, s) = m (get w) in (r, put s w))"

locale component_view =
  fixes get :: "'w \<Rightarrow> 's"
    and put :: "'s \<Rightarrow> 'w \<Rightarrow> 'w"
  assumes get_put: "get (put s w) = s"
    and put_get: "put (get w) w = w"
    and put_put: "put s (put s' w) = put s w"
begin

lemma svc_on_result: "fst (svc_on get put m w) = fst (m (get w))"
  by (simp add: svc_on_def split: prod.splits)

lemma svc_on_state: "get (snd (svc_on get put m w)) = snd (m (get w))"
  by (simp add: svc_on_def get_put split: prod.splits)

lemma svc_on_same: "snd (m (get w)) = get w \<Longrightarrow> snd (svc_on get put m w) = w"
  by (cases "m (get w)") (simp add: svc_on_def put_get)

lemma svc_keeps_on: "svc_keeps P m \<Longrightarrow> svc_keeps (\<lambda>w. P (get w)) (svc_on get put m)"
  by (simp add: svc_keeps_def svc_on_state)

lemma svc_keeps_frame:
  "(\<And>s w. Q (put s w) \<longleftrightarrow> Q w) \<Longrightarrow> svc_keeps Q (svc_on get put m)"
  by (simp add: svc_keeps_def svc_on_def split: prod.splits)

end

section \<open>Life cycles and their audit histories\<close>

text \<open>
  Jobs, instances and the other guarded rows share one contract: a transition relation on states,
  some of them terminal, and an append-only history with one entry per state change. \<open>audited\<close>
  says a history is a path of the relation from creation to the present state.
\<close>

fun audited :: "('st \<Rightarrow> 'st \<Rightarrow> bool) \<Rightarrow> 'st \<Rightarrow> ('st option \<times> 'st) list \<Rightarrow> 'st \<Rightarrow> bool" where
  "audited legal s0 [] s = False"
| "audited legal s0 [(f, t)] s = (f = None \<and> t = s0 \<and> s = s0)"
| "audited legal s0 ((f, t) # e # es) s =
     (f = Some (snd e) \<and> legal (snd e) t \<and> s = t \<and> audited legal s0 (e # es) (snd e))"

text \<open>Histories are kept newest entry first.\<close>

locale lifecycle =
  fixes legal :: "'st \<Rightarrow> 'st \<Rightarrow> bool"
    and final :: "'st \<Rightarrow> bool"
    and start :: "'st"
  assumes final_stuck: "final s \<Longrightarrow> \<not> legal s t"
    and start_live: "\<not> final start"
begin

lemma audited_nonempty: "audited legal start h s \<Longrightarrow> h \<noteq> []"
  by (cases h) auto

lemma audited_head: "audited legal start h s \<Longrightarrow> snd (hd h) = s"
  by (cases "(legal, start, h, s)" rule: audited.cases) auto

lemma audited_extend:
  assumes "audited legal start h s" and "legal s t"
  shows "audited legal start ((Some s, t) # h) t"
  using assms audited_head [OF assms(1)] by (cases h) auto

lemma audited_past_live:
  "audited legal start h s \<Longrightarrow> e \<in> set (tl h) \<Longrightarrow> \<not> final (snd e)"
proof (induction h arbitrary: s)
  case Nil
  then show ?case by simp
next
  case (Cons a h)
  show ?case
  proof (cases h)
    case Nil
    with Cons.prems show ?thesis by simp
  next
    case (Cons b es)
    obtain f t where a: "a = (f, t)" by (cases a)
    have hist: "audited legal start h (snd b)" and leg: "legal (snd b) t"
      using Cons.prems(1) by (auto simp: a Cons)
    from leg have "\<not> final (snd b)" using final_stuck by blast
    with Cons.IH [OF hist] Cons.prems(2) show ?thesis by (auto simp: Cons)
  qed
qed

end

section \<open>Idempotent intake\<close>

text \<open>
  Several services share one contract: a request names a key, the first request under a key is
  recorded, and a later one under the same key gets the recorded outcome back (or is refused as a
  different request) without a further write. \<open>stored\<close> reads the record of a key; the boolean of a
  result says whether this call recorded it.
\<close>

fun run_requests :: "('req \<Rightarrow> ('s, 'a) svc) \<Rightarrow> 'req list \<Rightarrow> 's \<Rightarrow> 's" where
  "run_requests submit [] s = s"
| "run_requests submit (r # rs) s = run_requests submit rs (snd (submit r s))"

locale idempotent_intake =
  fixes submit :: "'req \<Rightarrow> ('s, 'rec \<times> bool) svc"
    and key :: "'req \<Rightarrow> 'k"
    and stored :: "'s \<Rightarrow> 'k \<Rightarrow> 'rec option"
    and inv :: "'s \<Rightarrow> bool"
    and admissible :: "'req \<Rightarrow> bool"
  assumes created: "inv s \<Longrightarrow> admissible r \<Longrightarrow> submit r s = (Inr (x, True), s')
      \<Longrightarrow> inv s' \<and> stored s (key r) = None \<and> stored s' (key r) = Some x
        \<and> (\<forall>k. k \<noteq> key r \<longrightarrow> stored s' k = stored s k)"
    and replayed: "inv s \<Longrightarrow> admissible r \<Longrightarrow> submit r s = (Inr (x, False), s')
      \<Longrightarrow> s' = s \<and> stored s (key r) = Some x"
    and refused: "inv s \<Longrightarrow> admissible r \<Longrightarrow> submit r s = (Inl e, s') \<Longrightarrow> s' = s"
begin

lemma submit_inv: "inv s \<Longrightarrow> admissible r \<Longrightarrow> submit r s = (out, s') \<Longrightarrow> inv s'"
proof (cases out)
  case (Inr p)
  assume "inv s" "admissible r" "submit r s = (out, s')"
  then show ?thesis
    using created [of s r "fst p" s'] replayed [of s r "fst p" s'] Inr by (cases p; cases "snd p") auto
next
  case (Inl e)
  assume "inv s" "admissible r" "submit r s = (out, s')"
  then show ?thesis using refused [of s r e s'] Inl by simp
qed

lemma stored_stays:
  assumes "inv s" and "admissible r" and "submit r s = (out, s')" and "stored s k = Some x"
  shows "stored s' k = Some x"
proof (cases out)
  case (Inl e)
  with refused assms show ?thesis by blast
next
  case (Inr p)
  then obtain y b where out: "out = Inr (y, b)" by (cases p) auto
  show ?thesis
  proof (cases b)
    case True
    then have "stored s (key r) = None" and "\<forall>k. k \<noteq> key r \<longrightarrow> stored s' k = stored s k"
      using created [OF assms(1,2)] assms(3) out by auto
    with assms(4) show ?thesis by (metis option.distinct(1))
  next
    case False
    then show ?thesis using replayed [OF assms(1,2)] assms(3,4) out by auto
  qed
qed

text \<open>Whatever requests follow, a recorded key keeps its record, and is never recorded again.\<close>

lemma requests_inv: "inv s \<Longrightarrow> \<forall>r \<in> set rs. admissible r \<Longrightarrow> inv (run_requests submit rs s)"
proof (induction rs arbitrary: s)
  case Nil
  then show ?case by simp
next
  case (Cons r rs)
  then show ?case using submit_inv [of s r] by (cases "submit r s") auto
qed

lemma stored_forever:
  "inv s \<Longrightarrow> \<forall>r \<in> set rs. admissible r \<Longrightarrow> stored s k = Some x \<Longrightarrow> stored (run_requests submit rs s) k = Some x"
proof (induction rs arbitrary: s)
  case Nil
  then show ?case by simp
next
  case (Cons r rs)
  then show ?case
    using submit_inv [of s r] stored_stays [of s r] by (cases "submit r s") auto
qed

lemma never_recreated:
  assumes "inv s" and "admissible r" and "stored s (key r) = Some x"
    and "submit r s = (Inr (y, b), s')"
  shows "\<not> b \<and> y = x \<and> s' = s"
  using created [OF assms(1,2)] replayed [OF assms(1,2)] assms(3,4) by (cases b) auto

end

end
