(* ===== verification/Work_Models.thy ===== *)
theory Work_Models
  imports Py_Json
begin

text \<open>
  The job value types of \<open>domain/work/models.py\<close>: job types, statuses and error classes as
  datatypes (with the strings that name them), the legal-transition matrix, and the \<open>Job\<close>
  aggregate with the checks of its \<open>__post_init__\<close>.
\<close>

section \<open>Enumerations\<close>

datatype job_type =
    BuildChallenge | ValidateChallenge | LaunchInstance | StopInstance | RestartInstance
  | ResetInstance | RunHealthCheck | RunIntendedSolver | CollectLogs | ExpireInstance
  | DeleteRuntimeResources | RunAgentEvaluation

fun job_type_name :: "job_type \<Rightarrow> string" where
  "job_type_name BuildChallenge = ''build_challenge''"
| "job_type_name ValidateChallenge = ''validate_challenge''"
| "job_type_name LaunchInstance = ''launch_instance''"
| "job_type_name StopInstance = ''stop_instance''"
| "job_type_name RestartInstance = ''restart_instance''"
| "job_type_name ResetInstance = ''reset_instance''"
| "job_type_name RunHealthCheck = ''run_health_check''"
| "job_type_name RunIntendedSolver = ''run_intended_solver''"
| "job_type_name CollectLogs = ''collect_logs''"
| "job_type_name ExpireInstance = ''expire_instance''"
| "job_type_name DeleteRuntimeResources = ''delete_runtime_resources''"
| "job_type_name RunAgentEvaluation = ''run_agent_evaluation''"

datatype job_status = Queued | Claimed | Running | Succeeded | Failed | Cancelled | DeadLetter

datatype job_error =
    Transient | Timeout | Infrastructure | Validation | Internal | LeaseExpired | ErrCancelled

fun job_error_name :: "job_error \<Rightarrow> string" where
  "job_error_name Transient = ''transient''"
| "job_error_name Timeout = ''timeout''"
| "job_error_name Infrastructure = ''infrastructure''"
| "job_error_name Validation = ''validation''"
| "job_error_name Internal = ''internal''"
| "job_error_name LeaseExpired = ''lease_expired''"
| "job_error_name ErrCancelled = ''cancelled''"

text \<open>Membership in \<open>VALID_JOB_ERROR_CLASSES\<close> is that the string names a constructor.\<close>

definition valid_job_error_classes :: "job_error list" where
  "valid_job_error_classes =
     [Transient, Timeout, Infrastructure, Validation, Internal, LeaseExpired, ErrCancelled]"

definition parse_job_error :: "string \<Rightarrow> job_error option" where
  "parse_job_error s = List.find (\<lambda>e. job_error_name e = s) valid_job_error_classes"

lemma parse_job_error_name: "parse_job_error (job_error_name e) = Some e"
  by (cases e) (simp_all add: parse_job_error_def valid_job_error_classes_def)

section \<open>The state machine\<close>

fun legal_job_transitions :: "job_status \<Rightarrow> job_status list" where
  "legal_job_transitions Queued = [Claimed, Cancelled]"
| "legal_job_transitions Claimed = [Running, Queued, Cancelled, DeadLetter]"
| "legal_job_transitions Running = [Succeeded, Failed, Queued, Cancelled, DeadLetter]"
| "legal_job_transitions Succeeded = []"
| "legal_job_transitions Failed = []"
| "legal_job_transitions Cancelled = []"
| "legal_job_transitions DeadLetter = [Queued]"

definition legal_job_transition :: "job_status \<Rightarrow> job_status \<Rightarrow> bool" where
  "legal_job_transition a b \<longleftrightarrow> b \<in> set (legal_job_transitions a)"

fun terminal_job_status :: "job_status \<Rightarrow> bool" where
  "terminal_job_status Succeeded = True"
| "terminal_job_status Failed = True"
| "terminal_job_status Cancelled = True"
| "terminal_job_status DeadLetter = True"
| "terminal_job_status _ = False"

text \<open>The statuses with no exit at all; \<open>dead_letter\<close> has the operator requeue.\<close>

definition frozen_job_status :: "job_status \<Rightarrow> bool" where
  "frozen_job_status s \<longleftrightarrow> terminal_job_status s \<and> s \<noteq> DeadLetter"

interpretation job_lc: lifecycle legal_job_transition frozen_job_status Queued
proof
  fix s t
  assume "frozen_job_status s"
  then show "\<not> legal_job_transition s t"
    by (cases s) (auto simp: frozen_job_status_def legal_job_transition_def)
qed (simp add: frozen_job_status_def)

section \<open>The Job aggregate\<close>

record job =
  j_id :: ident
  j_type :: job_type
  j_idempotency_key :: string
  j_available_at :: instant
  j_status :: job_status
  j_priority :: int
  j_payload :: "(string \<times> json) list"
  j_required_capabilities :: "string list"
  j_attempt_count :: int
  j_max_attempts :: int
  j_backoff_base_seconds :: int
  j_claimed_by :: "string option"
  j_heartbeat_at :: "instant option"
  j_lease_expires_at :: "instant option"
  j_cancel_requested_at :: "instant option"
  j_started_at :: "instant option"
  j_finished_at :: "instant option"
  j_error_class :: "job_error option"
  j_error_detail :: "string option"
  j_result_json :: "((string \<times> json) list) option"
  j_result_ref :: "string option"
  j_log_ref :: "string option"
  j_competition_id :: "string option"
  j_definition_slug :: "string option"
  j_version_no :: "int option"

text \<open>\<open>Job.__post_init__\<close> in its order; every failing check raises \<open>ValueError\<close>.\<close>

definition job_post_init :: "job \<Rightarrow> exn + unit" where
  "job_post_init j =
     (if \<not> ident_nonempty (j_id j) then Inl ValueError
      else if \<not> nonempty (j_idempotency_key j) then Inl ValueError
      else if j_priority j < 0 then Inl ValueError
      else if \<exists>c \<in> set (j_required_capabilities j). \<not> nonempty c then Inl ValueError
      else if j_max_attempts j < 1 then Inl ValueError
      else if j_attempt_count j < 0 \<or> j_attempt_count j > j_max_attempts j then Inl ValueError
      else if j_backoff_base_seconds j < 1 then Inl ValueError
      else if (case j_competition_id j of None \<Rightarrow> False | Some c \<Rightarrow> \<not> nonempty c) then Inl ValueError
      else if (j_definition_slug j = None) \<noteq> (j_version_no j = None) then Inl ValueError
      else if (case j_definition_slug j of None \<Rightarrow> False | Some d \<Rightarrow> \<not> nonempty d) then Inl ValueError
      else if (case j_version_no j of None \<Rightarrow> False | Some v \<Rightarrow> v < 1) then Inl ValueError
      else Inr ())"

lemma job_post_init_ok:
  assumes "job_post_init j = Inr ()"
  shows "0 \<le> j_attempt_count j" "j_attempt_count j \<le> j_max_attempts j" "1 \<le> j_max_attempts j"
    "1 \<le> j_backoff_base_seconds j" "0 \<le> j_priority j" "nonempty (j_idempotency_key j)"
    "(j_definition_slug j = None) = (j_version_no j = None)"
  using assms by (auto simp: job_post_init_def split: if_splits)

record job_transition =
  jt_job :: nat
  jt_from :: "job_status option"
  jt_to :: job_status
  jt_attempt :: int
  jt_occurred_at :: instant
  jt_worker :: "string option"
  jt_error_class :: "job_error option"
  jt_error_detail :: "string option"

end
