(* ===== verification/Catalog.thy ===== *)
theory Catalog
  imports Prelude
begin

text \<open>
  The parent rows every other table refers to (competitions, teams, challenge versions, users,
  workers) and the resolvers of \<open>infrastructure/database/_resolve.py\<close>. Surrogate uuids are
  assigned by the database and stand one-to-one for the business keys, so the model's rows carry
  the business key itself: a resolver returns the key it was given when the parent row exists and
  raises \<open>LookupError\<close> when it does not. No modelled operation writes these tables.
\<close>

record catalog =
  cat_competitions :: "string list"
  cat_teams :: "(string \<times> string) list"
  cat_versions :: "(string \<times> int) list"
  cat_users :: "string list"
  cat_workers :: "string list"

definition competition_uuid :: "catalog \<Rightarrow> string \<Rightarrow> ('s, string) tx" where
  "competition_uuid cat slug =
     (if slug \<in> set (cat_competitions cat) then tx_ret slug else tx_raise LookupError)"

definition team_uuid :: "catalog \<Rightarrow> string \<Rightarrow> string \<Rightarrow> ('s, string) tx" where
  "team_uuid cat c name =
     (if (c, name) \<in> set (cat_teams cat) then tx_ret name else tx_raise LookupError)"

definition version_uuid :: "catalog \<Rightarrow> string \<Rightarrow> int \<Rightarrow> ('s, string \<times> int) tx" where
  "version_uuid cat slug no =
     (if (slug, no) \<in> set (cat_versions cat) then tx_ret (slug, no) else tx_raise LookupError)"

definition lower_ascii :: "char \<Rightarrow> char" where
  "lower_ascii c = (let n = (of_char c :: nat) in if 65 \<le> n \<and> n \<le> 90 then char_of (n + 32) else c)"

text \<open>Emails are matched without regard to case; the row's own spelling is what is read back.\<close>

definition user_uuid :: "catalog \<Rightarrow> string \<Rightarrow> ('s, string) tx" where
  "user_uuid cat email =
     tx_some LookupError
       (List.find (\<lambda>u. map lower_ascii u = map lower_ascii email) (cat_users cat))"

definition user_uuid_optional :: "catalog \<Rightarrow> string option \<Rightarrow> ('s, string option) tx" where
  "user_uuid_optional cat email =
     (case email of None \<Rightarrow> tx_ret None
      | Some e \<Rightarrow> tx_bind (user_uuid cat e) (\<lambda>u. tx_ret (Some u)))"

definition competition_uuid_optional :: "catalog \<Rightarrow> string option \<Rightarrow> ('s, string option) tx" where
  "competition_uuid_optional cat slug =
     (case slug of None \<Rightarrow> tx_ret None
      | Some c \<Rightarrow> tx_bind (competition_uuid cat c) (\<lambda>u. tx_ret (Some u)))"

definition version_uuid_optional ::
    "catalog \<Rightarrow> string option \<Rightarrow> int option \<Rightarrow> ('s, (string \<times> int) option) tx" where
  "version_uuid_optional cat slug no =
     (case (slug, no) of
        (None, None) \<Rightarrow> tx_ret None
      | (Some d, Some v) \<Rightarrow> tx_bind (version_uuid cat d v) (\<lambda>u. tx_ret (Some u))
      | _ \<Rightarrow> tx_raise LookupError)"

definition worker_uuid :: "catalog \<Rightarrow> string \<Rightarrow> ('s, string) tx" where
  "worker_uuid cat name =
     (if name \<in> set (cat_workers cat) then tx_ret name else tx_raise LookupError)"

definition worker_uuid_optional :: "catalog \<Rightarrow> string option \<Rightarrow> ('s, string option) tx" where
  "worker_uuid_optional cat name =
     (case name of None \<Rightarrow> tx_ret None
      | Some n \<Rightarrow> tx_bind (worker_uuid cat n) (\<lambda>u. tx_ret (Some u)))"

text \<open>
  What a resolver that returns says, and that none of them touches the state: the facts every
  repository's proofs use.
\<close>

lemma resolve_iff [tx_simps]:
  "competition_uuid cat c s = Inr r \<longleftrightarrow> c \<in> set (cat_competitions cat) \<and> r = (c, s)"
  "team_uuid cat c t s = Inr r \<longleftrightarrow> (c, t) \<in> set (cat_teams cat) \<and> r = (t, s)"
  "version_uuid cat d v s = Inr rv \<longleftrightarrow> (d, v) \<in> set (cat_versions cat) \<and> rv = ((d, v), s)"
  "worker_uuid cat w s = Inr r \<longleftrightarrow> w \<in> set (cat_workers cat) \<and> r = (w, s)"
  by (auto simp: competition_uuid_def team_uuid_def version_uuid_def worker_uuid_def tx_simps)

lemma resolve_optional_iff [tx_simps]:
  "competition_uuid_optional cat c s = Inr r \<longleftrightarrow>
     (\<forall>x. c = Some x \<longrightarrow> x \<in> set (cat_competitions cat)) \<and> r = (c, s)"
  "worker_uuid_optional cat w s = Inr r \<longleftrightarrow>
     (\<forall>x. w = Some x \<longrightarrow> x \<in> set (cat_workers cat)) \<and> r = (w, s)"
  by (auto simp: competition_uuid_optional_def worker_uuid_optional_def tx_simps
      split: option.splits)

lemma resolve_raises:
  "competition_uuid cat c s = Inl e \<longleftrightarrow> c \<notin> set (cat_competitions cat) \<and> e = LookupError"
  "team_uuid cat c t s = Inl e \<longleftrightarrow> (c, t) \<notin> set (cat_teams cat) \<and> e = LookupError"
  "version_uuid cat d v s = Inl e \<longleftrightarrow> (d, v) \<notin> set (cat_versions cat) \<and> e = LookupError"
  "worker_uuid cat w s = Inl e \<longleftrightarrow> w \<notin> set (cat_workers cat) \<and> e = LookupError"
  by (auto simp: competition_uuid_def team_uuid_def version_uuid_def worker_uuid_def
      tx_ret_def tx_raise_def)

lemma resolve_keeps [keeps_intro]:
  "tx_keeps P (competition_uuid cat c)" "tx_keeps P (team_uuid cat c t)"
  "tx_keeps P (version_uuid cat d v)" "tx_keeps P (worker_uuid cat w)"
  "tx_keeps P (user_uuid cat u)"
  by (auto simp: tx_keeps_def tx_simps user_uuid_def)

lemma resolve_optional_keeps [keeps_intro]:
  "tx_keeps P (competition_uuid_optional cat co)" "tx_keeps P (worker_uuid_optional cat wo)"
  "tx_keeps P (version_uuid_optional cat so no)" "tx_keeps P (user_uuid_optional cat uo)"
  by (auto simp: competition_uuid_optional_def worker_uuid_optional_def version_uuid_optional_def
      user_uuid_optional_def split: option.splits intro!: keeps_intro)

end
