(* ===== verification/Job_Queue.thy ===== *)
theory Job_Queue
  imports Work_Models Catalog
begin

text \<open>
  The durable job queue of \<open>infrastructure/database/job_queue_repository.py\<close> over the tables and
  the trigger of migration 0006. A \<open>job_row\<close> is a row of \<open>jobs\<close>, the history is the append-only
  \<open>job_transitions\<close>; every method of \<open>SqlAlchemyJobQueue\<close> is a unit of work on that state. The
  transition guard and the CHECK constraints run at every flush, so what they reject is an
  exception of the model, and the theorems show when it cannot occur.
\<close>

section \<open>Rows, guard and constraints\<close>

record job_row =
  r_id :: nat
  r_type :: job_type
  r_status :: job_status
  r_priority :: int
  r_payload :: "(string \<times> json) list"
  r_key :: string
  r_caps :: "string list"
  r_attempts :: int
  r_max :: int
  r_backoff :: int
  r_available :: instant
  r_claimed_by :: "string option"
  r_token :: "nat option"
  r_lease :: "instant option"
  r_heartbeat :: "instant option"
  r_cancel :: "instant option"
  r_started :: "instant option"
  r_finished :: "instant option"
  r_err :: "job_error option"
  r_err_detail :: "string option"
  r_result_json :: "((string \<times> json) list) option"
  r_result_ref :: "string option"
  r_log_ref :: "string option"
  r_comp :: "string option"
  r_version :: "(string \<times> int) option"
  r_created :: instant

record jobdb =
  jd_jobs :: "job_row list"
  jd_hist :: "job_transition list"

definition empty_jobdb :: jobdb where
  "empty_jobdb = \<lparr>jd_jobs = [], jd_hist = []\<rparr>"

text \<open>The plpgsql function \<open>job_transition_guard\<close>: True where it returns \<open>NEW\<close>, False where it raises.\<close>

definition job_transition_guard :: "job_row \<Rightarrow> job_row \<Rightarrow> bool" where
  "job_transition_guard old new =
     (if r_id old \<noteq> r_id new \<or> r_type old \<noteq> r_type new \<or> r_payload old \<noteq> r_payload new
         \<or> r_key old \<noteq> r_key new \<or> r_created old \<noteq> r_created new then False
      else if r_status new = r_status old then
        r_status old \<notin> {Cancelled, DeadLetter, Failed, Succeeded}
      else
        (r_status old = Queued \<and> r_status new \<in> {Claimed, Cancelled})
        \<or> (r_status old = Claimed \<and> r_status new \<in> {Running, Queued, Cancelled, DeadLetter})
        \<or> (r_status old = Running \<and>
             r_status new \<in> {Succeeded, Failed, Queued, Cancelled, DeadLetter})
        \<or> (r_status old = DeadLetter \<and> r_status new = Queued))"

definition leased_status :: "job_status \<Rightarrow> bool" where
  "leased_status s \<longleftrightarrow> s \<in> {Claimed, Running}"

text \<open>The CHECK constraints of \<open>jobs\<close>: the first violated one, if any.\<close>

definition job_check :: "job_row \<Rightarrow> string option" where
  "job_check r =
     (if \<not> nonempty (r_key r) then Some ''ck_jobs_idempotency_key_non_empty''
      else if r_priority r < 0 then Some ''ck_jobs_priority_non_negative''
      else if r_max r < 1 then Some ''ck_jobs_max_attempts_positive''
      else if r_attempts r < 0 \<or> r_attempts r > r_max r then Some ''ck_jobs_attempts_bounded''
      else if r_backoff r < 1 then Some ''ck_jobs_backoff_positive''
      else if leased_status (r_status r) \<noteq>
        (r_claimed_by r \<noteq> None \<and> r_token r \<noteq> None \<and> r_lease r \<noteq> None)
      then Some ''ck_jobs_lease_state''
      else if r_status r = Running \<and> r_started r = None then Some ''ck_jobs_running_started''
      else if terminal_job_status (r_status r) \<noteq> (r_finished r \<noteq> None)
      then Some ''ck_jobs_terminal_finished''
      else if r_status r \<in> {DeadLetter, Failed} \<and> r_err r = None
      then Some ''ck_jobs_failure_classified''
      else None)"

section \<open>Mapping rows to the domain\<close>

definition capabilities_to_orm :: "string list \<Rightarrow> string list" where
  "capabilities_to_orm caps = sorted_list_of_set (set caps)"

text \<open>\<open>job_to_orm\<close>: only a fresh queued job maps onto a row.\<close>

definition job_to_orm ::
    "job \<Rightarrow> string option \<Rightarrow> (string \<times> int) option \<Rightarrow> instant \<Rightarrow> exn + job_row" where
  "job_to_orm j c v created =
     (if j_status j \<noteq> Queued then Inl ValueError
      else if j_claimed_by j \<noteq> None \<or> j_heartbeat_at j \<noteq> None \<or> j_lease_expires_at j \<noteq> None
        \<or> j_cancel_requested_at j \<noteq> None \<or> j_started_at j \<noteq> None \<or> j_finished_at j \<noteq> None
        \<or> j_error_class j \<noteq> None \<or> j_error_detail j \<noteq> None \<or> j_result_json j \<noteq> None
        \<or> j_result_ref j \<noteq> None \<or> j_log_ref j \<noteq> None then Inl ValueError
      else if j_attempt_count j \<noteq> 0 then Inl ValueError
      else (case as_uuid (j_id j) of
          None \<Rightarrow> Inl ValueError
        | Some k \<Rightarrow> Inr \<lparr>r_id = k, r_type = j_type j, r_status = Queued, r_priority = j_priority j,
            r_payload = j_payload j, r_key = j_idempotency_key j,
            r_caps = capabilities_to_orm (j_required_capabilities j), r_attempts = 0,
            r_max = j_max_attempts j, r_backoff = j_backoff_base_seconds j,
            r_available = j_available_at j, r_claimed_by = None, r_token = None, r_lease = None,
            r_heartbeat = None, r_cancel = None, r_started = None, r_finished = None,
            r_err = None, r_err_detail = None, r_result_json = None, r_result_ref = None,
            r_log_ref = None, r_comp = c, r_version = v, r_created = created\<rparr>))"

definition row_job :: "job_row \<Rightarrow> job" where
  "row_job r = \<lparr>j_id = Uid (r_id r), j_type = r_type r, j_idempotency_key = r_key r,
     j_available_at = r_available r, j_status = r_status r, j_priority = r_priority r,
     j_payload = r_payload r, j_required_capabilities = r_caps r,
     j_attempt_count = r_attempts r, j_max_attempts = r_max r,
     j_backoff_base_seconds = r_backoff r, j_claimed_by = r_claimed_by r,
     j_heartbeat_at = r_heartbeat r, j_lease_expires_at = r_lease r,
     j_cancel_requested_at = r_cancel r, j_started_at = r_started r,
     j_finished_at = r_finished r, j_error_class = r_err r, j_error_detail = r_err_detail r,
     j_result_json = r_result_json r, j_result_ref = r_result_ref r, j_log_ref = r_log_ref r,
     j_competition_id = r_comp r, j_definition_slug = map_option fst (r_version r),
     j_version_no = map_option snd (r_version r)\<rparr>"

text \<open>\<open>_to_domain\<close> and \<open>job_from_orm\<close>: the constructor's checks run again on what was read.\<close>

definition to_domain :: "job_row \<Rightarrow> (jobdb, job) tx" where
  "to_domain r = (case job_post_init (row_job r) of
      Inl e \<Rightarrow> tx_raise e | Inr _ \<Rightarrow> tx_ret (row_job r))"

fun to_domain_many :: "job_row list \<Rightarrow> (jobdb, job list) tx" where
  "to_domain_many [] = tx_ret []"
| "to_domain_many (r # rs) =
     tx_bind (to_domain r) (\<lambda>j. tx_bind (to_domain_many rs) (\<lambda>js. tx_ret (j # js)))"

section \<open>Helpers\<close>

text \<open>
  Flushing a changed row: no statement is issued when nothing changed; otherwise the BEFORE UPDATE
  trigger and then the CHECK constraints decide.
\<close>

definition flush_row :: "job_row \<Rightarrow> (jobdb, unit) tx" where
  "flush_row new = (\<lambda>db. case find_row r_id (r_id new) (jd_jobs db) of
      None \<Rightarrow> Inr ((), db)
    | Some old \<Rightarrow>
        if old = new then Inr ((), db)
        else if \<not> job_transition_guard old new then Inl ProgrammingError
        else (case job_check new of
            Some ck \<Rightarrow> Inl (IntegrityError ck)
          | None \<Rightarrow> Inr ((), db\<lparr>jd_jobs := put_row r_id new (jd_jobs db)\<rparr>)))"

definition record_transition ::
    "job_row \<Rightarrow> job_status option \<Rightarrow> job_status \<Rightarrow> instant \<Rightarrow> string option \<Rightarrow> job_error option
       \<Rightarrow> string option \<Rightarrow> (jobdb, unit) tx" where
  "record_transition r from to now worker err detail =
     tx_bind (tx_guard (0 \<le> r_attempts r \<and> opt_nonempty worker) ValueError) (\<lambda>_.
     tx_modify (\<lambda>db. db\<lparr>jd_hist := jd_hist db @
       [\<lparr>jt_job = r_id r, jt_from = from, jt_to = to, jt_attempt = r_attempts r,
         jt_occurred_at = now, jt_worker = worker, jt_error_class = err,
         jt_error_detail = detail\<rparr>]\<rparr>))"

definition fenced_row :: "ident \<Rightarrow> ident \<Rightarrow> (jobdb, job_row) tx" where
  "fenced_row job_id lease_token =
     tx_bind (tx_some LookupError (as_uuid job_id)) (\<lambda>k.
     tx_bind (tx_some LookupError (as_uuid lease_token)) (\<lambda>t.
     tx_bind (tx_get (\<lambda>db. List.find (\<lambda>r. r_id r = k \<and> r_token r = Some t) (jd_jobs db)))
       (tx_some LookupError)))"

definition locked_row :: "ident \<Rightarrow> (jobdb, job_row) tx" where
  "locked_row job_id =
     tx_bind (tx_some LookupError (as_uuid job_id)) (\<lambda>k.
     tx_bind (tx_get (\<lambda>db. find_row r_id k (jd_jobs db))) (tx_some LookupError))"

definition clear_lease :: "job_row \<Rightarrow> job_row" where
  "clear_lease r = r\<lparr>r_claimed_by := None, r_token := None, r_lease := None, r_heartbeat := None\<rparr>"

definition max_backoff_seconds :: int where
  "max_backoff_seconds = 3600"

definition backoff_seconds :: "job_row \<Rightarrow> int" where
  "backoff_seconds r =
     min (r_backoff r * 2 ^ nat (max (r_attempts r - 1) 0)) max_backoff_seconds"

definition requeue_or_dead_letter ::
    "job_row \<Rightarrow> instant \<Rightarrow> job_error \<Rightarrow> string option \<Rightarrow> (jobdb, unit) tx" where
  "requeue_or_dead_letter row now ec detail =
     (let failed = row\<lparr>r_err := Some ec, r_err_detail := detail\<rparr> in
      if r_cancel row \<noteq> None then
        let new = clear_lease (failed\<lparr>r_status := Cancelled, r_finished := Some now\<rparr>) in
        tx_bind (record_transition new (Some (r_status row)) Cancelled now (r_claimed_by row)
          (Some ec) detail) (\<lambda>_. flush_row new)
      else if r_attempts row \<ge> r_max row then
        let new = (clear_lease (failed\<lparr>r_status := DeadLetter, r_finished := Some now\<rparr>))
          \<lparr>r_started := None\<rparr> in
        tx_bind (record_transition new (Some (r_status row)) DeadLetter now (r_claimed_by row)
          (Some ec) detail) (\<lambda>_. flush_row new)
      else
        let new = (clear_lease (failed\<lparr>r_status := Queued,
          r_available := now + seconds (backoff_seconds row)\<rparr>))\<lparr>r_started := None\<rparr> in
        tx_bind (record_transition new (Some (r_status row)) Queued now (r_claimed_by row)
          (Some ec) detail) (\<lambda>_. flush_row new))"

section \<open>The queue's methods\<close>

definition insert_row :: "job_row \<Rightarrow> (jobdb, unit) tx" where
  "insert_row r = (\<lambda>db. case job_check r of
      Some ck \<Rightarrow> Inl (IntegrityError ck)
    | None \<Rightarrow>
        if r_id r \<in> r_id ` set (jd_jobs db) then Inl (IntegrityError ''pk_jobs'')
        else if r_key r \<in> r_key ` set (jd_jobs db)
        then Inl (IntegrityError ''uq_jobs_idempotency_key'')
        else Inr ((), db\<lparr>jd_jobs := jd_jobs db @ [r]\<rparr>))"

definition enqueue :: "catalog \<Rightarrow> instant \<Rightarrow> job \<Rightarrow> instant option \<Rightarrow> (jobdb, job) tx" where
  "enqueue cat created j now =
     tx_bind (competition_uuid_optional cat (j_competition_id j)) (\<lambda>c.
     tx_bind (version_uuid_optional cat (j_definition_slug j) (j_version_no j)) (\<lambda>v.
     case job_to_orm j c v created of
       Inl e \<Rightarrow> tx_raise e
     | Inr row \<Rightarrow>
         tx_bind (insert_row row) (\<lambda>_.
         tx_bind (record_transition row None Queued
           (case now of Some t \<Rightarrow> t | None \<Rightarrow> j_available_at j) None None None) (\<lambda>_.
         to_domain row))))"

definition get_job :: "ident \<Rightarrow> (jobdb, job option) tx" where
  "get_job job_id = (case as_uuid job_id of
      None \<Rightarrow> tx_ret None
    | Some k \<Rightarrow> tx_bind (tx_get (\<lambda>db. find_row r_id k (jd_jobs db))) (\<lambda>r. case r of
          None \<Rightarrow> tx_ret None
        | Some row \<Rightarrow> tx_bind (to_domain row) (\<lambda>j. tx_ret (Some j))))"

definition get_by_idempotency_key :: "string \<Rightarrow> (jobdb, job option) tx" where
  "get_by_idempotency_key key =
     tx_bind (tx_get (\<lambda>db. find_row r_key key (jd_jobs db))) (\<lambda>r. case r of
         None \<Rightarrow> tx_ret None
       | Some row \<Rightarrow> tx_bind (to_domain row) (\<lambda>j. tx_ret (Some j)))"

text \<open>
  What a claim may pick. \<open>skip\<close> is the set of rows other open transactions have locked, which
  \<open>FOR UPDATE SKIP LOCKED\<close> passes over.
\<close>

definition claimable :: "string list \<Rightarrow> instant \<Rightarrow> nat list \<Rightarrow> job_row \<Rightarrow> bool" where
  "claimable capabilities now skip r \<longleftrightarrow>
     r_status r = Queued \<and> r_available r \<le> now \<and> set (r_caps r) \<subseteq> set capabilities
     \<and> r_cancel r = None \<and> r_id r \<notin> set skip"

definition claim_key :: "job_row \<Rightarrow> int \<times> instant \<times> instant" where
  "claim_key r = (r_priority r, r_available r, r_created r)"

record job_lease =
  jl_job :: job
  jl_token :: nat
  jl_expires :: instant

definition claim ::
    "nat list \<Rightarrow> nat \<Rightarrow> string \<Rightarrow> string list \<Rightarrow> int \<Rightarrow> instant \<Rightarrow> (jobdb, job_lease option) tx" where
  "claim skip token worker_id capabilities lease_seconds now =
     tx_bind (tx_get (\<lambda>db. first_by claim_key (filter (claimable capabilities now skip) (jd_jobs db))))
       (\<lambda>r. case r of
          None \<Rightarrow> tx_ret None
        | Some row \<Rightarrow>
            let expires = now + seconds lease_seconds;
                new = row\<lparr>r_status := Claimed, r_claimed_by := Some worker_id,
                  r_token := Some token, r_lease := Some expires, r_heartbeat := Some now,
                  r_attempts := r_attempts row + 1\<rparr>
            in tx_bind (record_transition new (Some Queued) Claimed now (Some worker_id) None None)
                 (\<lambda>_. tx_bind (flush_row new) (\<lambda>_. tx_bind (to_domain new) (\<lambda>j.
                   tx_ret (Some \<lparr>jl_job = j, jl_token = token, jl_expires = expires\<rparr>)))))"

definition start_job :: "ident \<Rightarrow> ident \<Rightarrow> instant \<Rightarrow> (jobdb, unit) tx" where
  "start_job job_id lease_token now =
     tx_bind (fenced_row job_id lease_token) (\<lambda>row.
     tx_bind (tx_guard (r_status row = Claimed) LookupError) (\<lambda>_.
     let new = row\<lparr>r_status := Running, r_started := Some now\<rparr> in
     tx_bind (record_transition new (Some Claimed) Running now (r_claimed_by row) None None)
       (\<lambda>_. flush_row new)))"

definition heartbeat :: "ident \<Rightarrow> ident \<Rightarrow> int \<Rightarrow> instant \<Rightarrow> (jobdb, bool) tx" where
  "heartbeat job_id lease_token lease_seconds now =
     tx_bind (fenced_row job_id lease_token) (\<lambda>row.
     let new = row\<lparr>r_lease := Some (now + seconds lease_seconds), r_heartbeat := Some now\<rparr> in
     tx_bind (flush_row new) (\<lambda>_. tx_ret (r_cancel row \<noteq> None)))"

definition complete_job ::
    "ident \<Rightarrow> ident \<Rightarrow> ((string \<times> json) list) option \<Rightarrow> string option \<Rightarrow> string option
       \<Rightarrow> instant \<Rightarrow> (jobdb, unit) tx" where
  "complete_job job_id lease_token result_json result_ref log_ref now =
     tx_bind (fenced_row job_id lease_token) (\<lambda>row.
     tx_bind (tx_guard (r_status row = Running) LookupError) (\<lambda>_.
     let new = clear_lease (row\<lparr>r_status := Succeeded, r_finished := Some now,
           r_result_json := result_json, r_result_ref := result_ref, r_log_ref := log_ref\<rparr>) in
     tx_bind (record_transition new (Some Running) Succeeded now (r_claimed_by row) None None)
       (\<lambda>_. flush_row new)))"

definition fail_job ::
    "ident \<Rightarrow> ident \<Rightarrow> string \<Rightarrow> string option \<Rightarrow> bool \<Rightarrow> instant \<Rightarrow> (jobdb, job) tx" where
  "fail_job job_id lease_token error_class detail retryable now =
     tx_bind (tx_some ValueError (parse_job_error error_class)) (\<lambda>ec.
     tx_bind (fenced_row job_id lease_token) (\<lambda>row.
     if ec = ErrCancelled then
       tx_bind (tx_guard (r_status row \<in> {Claimed, Running}) LookupError) (\<lambda>_.
       let new = clear_lease (row\<lparr>r_status := Cancelled, r_finished := Some now,
             r_err := Some ec, r_err_detail := detail\<rparr>) in
       tx_bind (record_transition new (Some (r_status row)) Cancelled now (r_claimed_by row)
         (Some ec) detail) (\<lambda>_. tx_bind (flush_row new) (\<lambda>_. to_domain new)))
     else
       tx_bind (tx_guard (r_status row = Running) LookupError) (\<lambda>_.
       tx_bind
         (if \<not> retryable then
            let new = clear_lease (row\<lparr>r_status := Failed, r_finished := Some now,
                  r_err := Some ec, r_err_detail := detail\<rparr>) in
            tx_bind (record_transition new (Some Running) Failed now (r_claimed_by row)
              (Some ec) detail) (\<lambda>_. flush_row new)
          else requeue_or_dead_letter row now ec detail)
         (\<lambda>_. tx_bind (locked_row job_id) to_domain))))"

definition request_cancel :: "ident \<Rightarrow> instant \<Rightarrow> (jobdb, job) tx" where
  "request_cancel job_id now =
     tx_bind (locked_row job_id) (\<lambda>row.
     if r_status row = Queued then
       let new = row\<lparr>r_status := Cancelled, r_cancel := Some now, r_finished := Some now\<rparr> in
       tx_bind (record_transition new (Some Queued) Cancelled now None None None)
         (\<lambda>_. tx_bind (flush_row new) (\<lambda>_. to_domain new))
     else if r_status row \<in> {Claimed, Running} then
       let new = row\<lparr>r_cancel := Some now\<rparr> in
       tx_bind (flush_row new) (\<lambda>_. to_domain new)
     else tx_raise LookupError)"

definition reapable :: "instant \<Rightarrow> nat list \<Rightarrow> job_row \<Rightarrow> bool" where
  "reapable now skip r \<longleftrightarrow>
     r_status r \<in> {Claimed, Running} \<and> (case r_lease r of None \<Rightarrow> False | Some t \<Rightarrow> t < now)
     \<and> r_id r \<notin> set skip"

definition lease_key :: "job_row \<Rightarrow> instant" where
  "lease_key r = (case r_lease r of Some t \<Rightarrow> t | None \<Rightarrow> 0)"

definition reread :: "job_row list \<Rightarrow> jobdb \<Rightarrow> job_row list" where
  "reread rows db = List.map_filter (\<lambda>r. find_row r_id (r_id r) (jd_jobs db)) rows"

definition reap_expired :: "nat list \<Rightarrow> instant \<Rightarrow> nat \<Rightarrow> (jobdb, job list) tx" where
  "reap_expired skip now limit =
     tx_bind (tx_get (\<lambda>db. order_limit lease_key limit (filter (reapable now skip) (jd_jobs db))))
       (\<lambda>rows.
     tx_bind (tx_iter (\<lambda>row. requeue_or_dead_letter row now LeaseExpired None) rows) (\<lambda>_.
     tx_bind (tx_get (reread rows)) to_domain_many))"

definition finished_key :: "job_row \<Rightarrow> instant" where
  "finished_key r = (case r_finished r of Some t \<Rightarrow> t | None \<Rightarrow> 0)"

definition list_dead_letter :: "(jobdb, job list) tx" where
  "list_dead_letter =
     tx_bind (tx_get (\<lambda>db. sort_key finished_key
       (filter (\<lambda>r. r_status r = DeadLetter) (jd_jobs db)))) to_domain_many"

definition retry_dead_letter :: "ident \<Rightarrow> instant \<Rightarrow> (jobdb, job) tx" where
  "retry_dead_letter job_id now =
     tx_bind (locked_row job_id) (\<lambda>row.
     tx_bind (tx_guard (r_status row = DeadLetter) LookupError) (\<lambda>_.
     let new = row\<lparr>r_status := Queued, r_attempts := 0, r_available := now, r_finished := None,
           r_err := None, r_err_detail := None, r_cancel := None\<rparr> in
     tx_bind (record_transition new (Some DeadLetter) Queued now None None None)
       (\<lambda>_. tx_bind (flush_row new) (\<lambda>_. to_domain new))))"

definition list_transitions :: "ident \<Rightarrow> jobdb \<Rightarrow> job_transition list" where
  "list_transitions job_id db = (case as_uuid job_id of
      None \<Rightarrow> []
    | Some k \<Rightarrow> sort_key jt_occurred_at (filter (\<lambda>t. jt_job t = k) (jd_hist db)))"

end
