(* ===== verification/Job_Queue_Inv.thy ===== *)
theory Job_Queue_Inv
  imports Job_Queue
begin

text \<open>
  The job queue's invariant and its preservation: every stored row satisfies the CHECK
  constraints, reads back as a valid \<open>Job\<close>, carries a lease exactly while claimed or running, is
  within its attempt budget, and its rows in \<open>job_transitions\<close> are a legal path from the enqueue
  to its present status. Each method keeps it, and no method trips the guard or a constraint
  (beyond the two unique keys an enqueue can hit).
\<close>

section \<open>The guard is the domain's matrix\<close>

definition immutable_cols :: "job_row \<Rightarrow> nat \<times> job_type \<times> (string \<times> json) list \<times> string \<times> instant" where
  "immutable_cols r = (r_id r, r_type r, r_payload r, r_key r, r_created r)"

lemma guard_iff:
  "job_transition_guard old new \<longleftrightarrow>
     immutable_cols old = immutable_cols new \<and>
     (if r_status new = r_status old then \<not> terminal_job_status (r_status old)
      else legal_job_transition (r_status old) (r_status new))"
proof (cases "immutable_cols old = immutable_cols new")
  case True
  then have cols: "\<not> (r_id old \<noteq> r_id new \<or> r_type old \<noteq> r_type new \<or> r_payload old \<noteq> r_payload new
      \<or> r_key old \<noteq> r_key new \<or> r_created old \<noteq> r_created new)"
    by (auto simp: immutable_cols_def)
  show ?thesis
    unfolding job_transition_guard_def if_not_P [OF cols]
    by (cases "r_status old"; cases "r_status new")
      (simp_all add: True legal_job_transition_def)
next
  case False
  then have "r_id old \<noteq> r_id new \<or> r_type old \<noteq> r_type new \<or> r_payload old \<noteq> r_payload new
      \<or> r_key old \<noteq> r_key new \<or> r_created old \<noteq> r_created new"
    by (auto simp: immutable_cols_def)
  with False show ?thesis by (simp add: job_transition_guard_def)
qed

section \<open>The invariant\<close>

definition lease_free :: "job_row \<Rightarrow> bool" where
  "lease_free r \<longleftrightarrow> r_claimed_by r = None \<and> r_token r = None \<and> r_lease r = None"

definition job_row_ok :: "job_row \<Rightarrow> bool" where
  "job_row_ok r \<longleftrightarrow>
     job_check r = None \<and> job_post_init (row_job r) = Inr ()
     \<and> (\<forall>w. r_claimed_by r = Some w \<longrightarrow> nonempty w)
     \<and> (leased_status (r_status r) \<or> lease_free r)
     \<and> (r_status r = Queued \<longrightarrow> r_attempts r < r_max r \<and> r_cancel r = None)"

definition job_history :: "jobdb \<Rightarrow> nat \<Rightarrow> (job_status option \<times> job_status) list" where
  "job_history db k = rev (map (\<lambda>t. (jt_from t, jt_to t)) (filter (\<lambda>t. jt_job t = k) (jd_hist db)))"

definition jobdb_ok :: "jobdb \<Rightarrow> bool" where
  "jobdb_ok db \<longleftrightarrow>
     distinct (map r_id (jd_jobs db)) \<and> distinct (map r_key (jd_jobs db))
     \<and> (\<forall>r \<in> set (jd_jobs db). job_row_ok r
          \<and> audited legal_job_transition Queued (job_history db (r_id r)) (r_status r))
     \<and> (\<forall>t \<in> set (jd_hist db). jt_job t \<in> r_id ` set (jd_jobs db))"

lemma jobdb_okD:
  assumes "jobdb_ok db"
  shows "distinct (map r_id (jd_jobs db))" "distinct (map r_key (jd_jobs db))"
    "r \<in> set (jd_jobs db) \<Longrightarrow> job_row_ok r"
    "r \<in> set (jd_jobs db) \<Longrightarrow>
       audited legal_job_transition Queued (job_history db (r_id r)) (r_status r)"
    "t \<in> set (jd_hist db) \<Longrightarrow> jt_job t \<in> r_id ` set (jd_jobs db)"
  using assms by (auto simp: jobdb_ok_def)

lemma job_row_ok_facts:
  assumes "job_row_ok r"
  shows "0 \<le> r_attempts r" "r_attempts r \<le> r_max r" "1 \<le> r_max r" "1 \<le> r_backoff r"
    "leased_status (r_status r) \<longleftrightarrow> r_token r \<noteq> None"
    "leased_status (r_status r) \<Longrightarrow> \<exists>w t l. r_claimed_by r = Some w \<and> nonempty w
        \<and> r_token r = Some t \<and> r_lease r = Some l"
    "terminal_job_status (r_status r) \<longleftrightarrow> r_finished r \<noteq> None"
    "r_status r = Queued \<Longrightarrow> r_cancel r = None \<and> r_attempts r < r_max r"
  using assms by (auto simp: job_row_ok_def job_check_def lease_free_def split: if_splits)

lemma job_row_ok_init: "job_row_ok r \<Longrightarrow> job_post_init (row_job r) = Inr ()"
  by (simp add: job_row_ok_def)

lemma to_domain_ok: "job_row_ok r \<Longrightarrow> to_domain r db = Inr (row_job r, db)"
  by (simp add: to_domain_def job_row_ok_init tx_ret_def)

lemma to_domain_iff [tx_simps]:
  "to_domain r db = Inr x \<longleftrightarrow> job_post_init (row_job r) = Inr () \<and> x = (row_job r, db)"
  by (auto simp: to_domain_def tx_ret_def tx_raise_def split: sum.splits)

lemma to_domain_many_state: "to_domain_many rs db = Inr (js, db') \<Longrightarrow> db' = db \<and> js = map row_job rs"
  by (induction rs arbitrary: js) (auto simp: tx_simps)

lemma to_domain_many_ok:
  "(\<And>r. r \<in> set rs \<Longrightarrow> job_row_ok r) \<Longrightarrow> to_domain_many rs db = Inr (map row_job rs, db)"
  by (induction rs) (auto simp: tx_bind_def to_domain_ok tx_ret_def)

section \<open>Row access\<close>

lemma fenced_row_iff:
  assumes "distinct (map r_id (jd_jobs db))"
  shows "fenced_row i l db = Inr (row, db') \<longleftrightarrow>
     db' = db \<and> row \<in> set (jd_jobs db) \<and> as_uuid i = Some (r_id row)
       \<and> (\<exists>t. as_uuid l = Some t \<and> r_token row = Some t)"
proof -
  have find: "List.find (\<lambda>r. r_id r = k \<and> r_token r = Some t) rows = Some row \<longleftrightarrow>
      row \<in> set rows \<and> r_id row = k \<and> r_token row = Some t"
    if "distinct (map r_id rows)" for rows k t
    using that by (induction rows) auto
  show ?thesis
    using find [OF assms] by (auto simp: fenced_row_def tx_simps)
qed

lemma locked_row_iff:
  assumes "distinct (map r_id (jd_jobs db))"
  shows "locked_row i db = Inr (row, db') \<longleftrightarrow>
     db' = db \<and> row \<in> set (jd_jobs db) \<and> as_uuid i = Some (r_id row)"
  using find_row_eq_Some_iff [OF assms] by (auto simp: locked_row_def tx_simps)

lemma fenced_row_raises: "fenced_row i l db = Inl e \<Longrightarrow> e = LookupError"
  by (auto simp: fenced_row_def tx_raises)

lemma locked_row_raises: "locked_row i db = Inl e \<Longrightarrow> e = LookupError"
  by (auto simp: locked_row_def tx_raises)

section \<open>One row changes\<close>

text \<open>
  Every method that changes a row either moves it along the matrix, recording the move, or changes
  fields of a live row without a move. The two lemmas below are the whole preservation argument;
  each method only has to show that its new row is well formed.
\<close>

definition set_job :: "job_row \<Rightarrow> jobdb \<Rightarrow> jobdb" where
  "set_job new db = db\<lparr>jd_jobs := put_row r_id new (jd_jobs db)\<rparr>"

definition add_hist :: "job_transition \<Rightarrow> jobdb \<Rightarrow> jobdb" where
  "add_hist t db = db\<lparr>jd_hist := jd_hist db @ [t]\<rparr>"

lemma jd_jobs_add_hist [simp]: "jd_jobs (add_hist t db) = jd_jobs db"
  by (simp add: add_hist_def)

lemma jd_set_job [simp]:
  "jd_jobs (set_job r db) = put_row r_id r (jd_jobs db)" "jd_hist (set_job r db) = jd_hist db"
  by (simp_all add: set_job_def)

lemma job_history_add_hist:
  "job_history (add_hist t db) k =
     (if jt_job t = k then (jt_from t, jt_to t) # job_history db k else job_history db k)"
  by (simp add: job_history_def add_hist_def)

lemma job_history_set_job [simp]: "job_history (set_job r db) k = job_history db k"
  by (simp add: job_history_def)

lemma record_transition_iff:
  "record_transition r f to now w e d db = Inr (u, db') \<longleftrightarrow>
     0 \<le> r_attempts r \<and> (\<forall>x. w = Some x \<longrightarrow> nonempty x)
     \<and> db' = add_hist \<lparr>jt_job = r_id r, jt_from = f, jt_to = to, jt_attempt = r_attempts r,
         jt_occurred_at = now, jt_worker = w, jt_error_class = e, jt_error_detail = d\<rparr> db"
  by (auto simp: record_transition_def tx_simps add_hist_def opt_nonempty_iff)

lemma record_transition_raises:
  "record_transition r f to now w e d db = Inl ex \<Longrightarrow>
     ex = ValueError \<and> \<not> (0 \<le> r_attempts r \<and> (\<forall>x. w = Some x \<longrightarrow> nonempty x))"
  by (auto simp: record_transition_def tx_raises opt_nonempty_iff)

lemma flush_row_ok:
  assumes "distinct (map r_id (jd_jobs db))" and "old \<in> set (jd_jobs db)"
    and "r_id new = r_id old" and "old = new \<or> job_transition_guard old new"
    and "job_check new = None"
  shows "flush_row new db = Inr ((), set_job new db)"
proof -
  have "find_row r_id (r_id new) (jd_jobs db) = Some old"
    using assms(1-3) by (simp add: find_row_eq_Some_iff)
  moreover have "set_job old db = db"
    using assms(1,2) by (simp add: set_job_def put_row_same)
  ultimately show ?thesis
    using assms(4,5) by (auto simp: flush_row_def set_job_def)
qed

lemma map_put_row_same_col:
  assumes "distinct (map r_id rows)" and "old \<in> set rows" and "r_id new = r_id old" and "f new = f old"
  shows "map f (put_row r_id new rows) = map f rows"
  using map_put_row_same [of r_id rows old new f] assms by simp

lemma touch_ok:
  assumes ok: "jobdb_ok db" and old: "old \<in> set (jd_jobs db)"
    and cols: "immutable_cols new = immutable_cols old" and st: "r_status new = r_status old"
    and row: "job_row_ok new"
  shows "jobdb_ok (set_job new db)"
proof -
  have idk: "r_id new = r_id old" "r_key new = r_key old"
    using cols by (auto simp: immutable_cols_def)
  have keys: "map r_key (put_row r_id new (jd_jobs db)) = map r_key (jd_jobs db)"
    by (rule map_put_row_same_col [OF jobdb_okD(1) [OF ok] old idk])
  have ids: "r_id ` set (put_row r_id new (jd_jobs db)) = r_id ` set (jd_jobs db)"
    by (metis list.set_map map_key_put_row)
  show ?thesis
    unfolding jobdb_ok_def
    using jobdb_okD [OF ok] keys ids old row st idk by (auto dest!: set_put_rowD)
qed

lemma move_ok:
  assumes ok: "jobdb_ok db" and old: "old \<in> set (jd_jobs db)"
    and cols: "immutable_cols new = immutable_cols old"
    and legal: "legal_job_transition (r_status old) (r_status new)"
    and row: "job_row_ok new"
    and t: "jt_job t = r_id new" "jt_from t = Some (r_status old)" "jt_to t = r_status new"
  shows "jobdb_ok (set_job new (add_hist t db))"
proof -
  let ?db = "set_job new (add_hist t db)"
  have idk: "r_id new = r_id old" "r_key new = r_key old"
    using cols by (auto simp: immutable_cols_def)
  have keys: "map r_key (put_row r_id new (jd_jobs db)) = map r_key (jd_jobs db)"
    by (rule map_put_row_same_col [OF jobdb_okD(1) [OF ok] old idk])
  have ids: "r_id ` set (put_row r_id new (jd_jobs db)) = r_id ` set (jd_jobs db)"
    by (metis list.set_map map_key_put_row)
  have "job_row_ok r \<and> audited legal_job_transition Queued (job_history ?db (r_id r)) (r_status r)"
    if "r \<in> set (jd_jobs ?db)" for r
  proof (cases "r = new")
    case True
    have "audited legal_job_transition Queued (job_history db (r_id new)) (r_status old)"
      using jobdb_okD(4) [OF ok old] idk by simp
    from job_lc.audited_extend [OF this legal] show ?thesis
      using True row t by (simp add: job_history_add_hist)
  next
    case False
    then have r: "r \<in> set (jd_jobs db)" "r_id r \<noteq> r_id new"
      using that by (auto dest: set_put_rowD)
    then show ?thesis
      using jobdb_okD(3,4) [OF ok r(1)] t(1) by (simp add: job_history_add_hist)
  qed
  moreover have "\<forall>t' \<in> set (jd_hist ?db). jt_job t' \<in> r_id ` set (jd_jobs ?db)"
    using jobdb_okD(5) [OF ok] ids old t(1) idk by (auto simp: add_hist_def)
  ultimately show ?thesis
    unfolding jobdb_ok_def using jobdb_okD(1,2) [OF ok] keys by simp
qed

text \<open>A recorded move, as the methods run it: it returns, and the invariant holds afterwards.\<close>

lemma move_runs:
  assumes ok: "jobdb_ok db" and old: "old \<in> set (jd_jobs db)"
    and cols: "immutable_cols new = immutable_cols old"
    and legal: "legal_job_transition (r_status old) (r_status new)"
    and row: "job_row_ok new"
    and worker: "\<And>x. w = Some x \<Longrightarrow> nonempty x"
    and fr: "f = Some (r_status old)" and to: "to = r_status new"
  shows "\<exists>t. tx_bind (record_transition new f to now w e d) (\<lambda>_. flush_row new) db
      = Inr ((), set_job new (add_hist t db)) \<and> jobdb_ok (set_job new (add_hist t db))"
proof -
  let ?t = "\<lparr>jt_job = r_id new, jt_from = f, jt_to = to, jt_attempt = r_attempts new,
      jt_occurred_at = now, jt_worker = w, jt_error_class = e, jt_error_detail = d\<rparr>"
  have rec: "record_transition new f to now w e d db = Inr ((), add_hist ?t db)"
    using job_row_ok_facts(1) [OF row] worker by (auto simp: record_transition_iff)
  have ne: "r_status new \<noteq> r_status old"
    using legal by (cases "r_status old") (auto simp: legal_job_transition_def)
  have fl: "flush_row new (add_hist ?t db) = Inr ((), set_job new (add_hist ?t db))"
  proof (rule flush_row_ok [where old = old])
    show "old = new \<or> job_transition_guard old new"
      using cols legal ne by (simp add: guard_iff)
  qed (use ok old cols row in \<open>auto simp: jobdb_ok_def immutable_cols_def job_row_ok_def\<close>)
  have "jobdb_ok (set_job new (add_hist ?t db))"
    by (rule move_ok [OF ok old cols legal row]) (use fr to in simp_all)
  then show ?thesis using rec fl by (auto simp: tx_bind_def)
qed

lemma touch_runs:
  assumes ok: "jobdb_ok db" and old: "old \<in> set (jd_jobs db)"
    and cols: "immutable_cols new = immutable_cols old" and st: "r_status new = r_status old"
    and live: "\<not> terminal_job_status (r_status old)" and row: "job_row_ok new"
  shows "flush_row new db = Inr ((), set_job new db) \<and> jobdb_ok (set_job new db)"
proof
  show "flush_row new db = Inr ((), set_job new db)"
    by (rule flush_row_ok [where old = old])
      (use ok old cols st live row in \<open>auto simp: jobdb_ok_def immutable_cols_def job_row_ok_def guard_iff\<close>)
  show "jobdb_ok (set_job new db)" by (rule touch_ok [OF ok old cols st row])
qed

end
