(* ===== verification/Job_Queue_Safe.thy ===== *)
theory Job_Queue_Safe
  imports Job_Queue_Inv
begin

text \<open>
  Every method of the job queue, run on a state that satisfies the invariant: it either raises one
  of the exceptions its code raises on purpose and changes nothing, or returns with the invariant
  kept. In particular the transition guard and the CHECK constraints never fire.
\<close>

section \<open>The rows the methods write are well formed\<close>

lemma job_post_init_row:
  "job_post_init (row_job r) = Inr () \<longleftrightarrow>
     nonempty (r_key r) \<and> 0 \<le> r_priority r \<and> (\<forall>c \<in> set (r_caps r). nonempty c) \<and> 1 \<le> r_max r
     \<and> 0 \<le> r_attempts r \<and> r_attempts r \<le> r_max r \<and> 1 \<le> r_backoff r
     \<and> (\<forall>c. r_comp r = Some c \<longrightarrow> nonempty c)
     \<and> (\<forall>d v. r_version r = Some (d, v) \<longrightarrow> nonempty d \<and> 1 \<le> v)"
  by (cases "r_version r") (auto simp: job_post_init_def row_job_def split: option.splits if_splits)

lemma job_check_None_iff:
  "job_check r = None \<longleftrightarrow>
     nonempty (r_key r) \<and> 0 \<le> r_priority r \<and> 1 \<le> r_max r \<and> 0 \<le> r_attempts r
     \<and> r_attempts r \<le> r_max r \<and> 1 \<le> r_backoff r
     \<and> leased_status (r_status r) = (r_claimed_by r \<noteq> None \<and> r_token r \<noteq> None \<and> r_lease r \<noteq> None)
     \<and> (r_status r = Running \<longrightarrow> r_started r \<noteq> None)
     \<and> terminal_job_status (r_status r) = (r_finished r \<noteq> None)
     \<and> (r_status r \<in> {DeadLetter, Failed} \<longrightarrow> r_err r \<noteq> None)"
  unfolding job_check_def by (simp add: not_less)

lemma job_row_ok_iff:
  "job_row_ok r \<longleftrightarrow>
     nonempty (r_key r) \<and> 0 \<le> r_priority r \<and> (\<forall>c \<in> set (r_caps r). nonempty c) \<and> 1 \<le> r_max r
     \<and> 0 \<le> r_attempts r \<and> r_attempts r \<le> r_max r \<and> 1 \<le> r_backoff r
     \<and> (\<forall>c. r_comp r = Some c \<longrightarrow> nonempty c)
     \<and> (\<forall>d v. r_version r = Some (d, v) \<longrightarrow> nonempty d \<and> 1 \<le> v)
     \<and> (if leased_status (r_status r)
        then (\<exists>w. r_claimed_by r = Some w \<and> nonempty w) \<and> r_token r \<noteq> None \<and> r_lease r \<noteq> None
        else r_claimed_by r = None \<and> r_token r = None \<and> r_lease r = None)
     \<and> (r_status r = Running \<longrightarrow> r_started r \<noteq> None)
     \<and> terminal_job_status (r_status r) = (r_finished r \<noteq> None)
     \<and> (r_status r \<in> {DeadLetter, Failed} \<longrightarrow> r_err r \<noteq> None)
     \<and> (r_status r = Queued \<longrightarrow> r_attempts r < r_max r \<and> r_cancel r = None)"
  unfolding job_row_ok_def job_check_None_iff job_post_init_row lease_free_def by auto

lemmas row_ok_simps = job_row_ok_iff clear_lease_def leased_status_def immutable_cols_def
  legal_job_transition_def

section \<open>Safety\<close>

definition job_safe :: "(jobdb, 'a) tx \<Rightarrow> bool" where
  "job_safe m \<longleftrightarrow> (\<forall>db. jobdb_ok db \<longrightarrow>
     (case m db of Inl e \<Rightarrow> e = LookupError \<or> e = ValueError | Inr (_, db') \<Rightarrow> jobdb_ok db'))"

lemma job_safeI:
  assumes "\<And>db e. jobdb_ok db \<Longrightarrow> m db = Inl e \<Longrightarrow> e = LookupError \<or> e = ValueError"
    and "\<And>db x db'. jobdb_ok db \<Longrightarrow> m db = Inr (x, db') \<Longrightarrow> jobdb_ok db'"
  shows "job_safe m"
  using assms by (auto simp: job_safe_def split: sum.splits prod.splits)

lemma job_safe_raises: "job_safe m \<Longrightarrow> jobdb_ok db \<Longrightarrow> m db = Inl e \<Longrightarrow> e = LookupError \<or> e = ValueError"
  by (force simp: job_safe_def)

lemma job_safe_keeps: "job_safe m \<Longrightarrow> tx_keeps jobdb_ok m"
  by (force simp: job_safe_def tx_keeps_def)

lemma job_safe_pure: "job_safe (tx_ret x)" "job_safe (tx_raise LookupError)"
  "job_safe (tx_raise ValueError)" "job_safe (tx_get f)"
  by (simp_all add: job_safe_def tx_ret_def tx_raise_def tx_get_def)

text \<open>
  The methods share one shape: pick a row, check its status, write a well-formed row. \<open>safe_on\<close> is
  the statement for one starting state.
\<close>

definition safe_on :: "jobdb \<Rightarrow> (jobdb, 'a) tx \<Rightarrow> bool" where
  "safe_on db m \<longleftrightarrow>
     (case m db of Inl e \<Rightarrow> e = LookupError \<or> e = ValueError | Inr (_, db') \<Rightarrow> jobdb_ok db')"

lemma job_safe_safe_on: "(\<And>db. jobdb_ok db \<Longrightarrow> safe_on db m) \<Longrightarrow> job_safe m"
  by (simp add: job_safe_def safe_on_def)

lemma safe_on_read:
  assumes "\<And>r db'. m db = Inr (r, db') \<Longrightarrow> db' = db \<and> safe_on db (f r)"
    and "\<And>e. m db = Inl e \<Longrightarrow> e = LookupError \<or> e = ValueError"
  shows "safe_on db (tx_bind m f)"
  using assms by (auto simp: safe_on_def tx_bind_def split: sum.splits prod.splits)

lemma safe_on_guard: "(b \<Longrightarrow> safe_on db (f ())) \<Longrightarrow> safe_on db (tx_bind (tx_guard b LookupError) f)"
  by (cases b) (simp_all add: safe_on_def tx_defs)

lemma safe_on_fenced:
  assumes "jobdb_ok db"
    and "\<And>row. row \<in> set (jd_jobs db) \<Longrightarrow> job_row_ok row \<Longrightarrow> r_token row \<noteq> None \<Longrightarrow> safe_on db (f row)"
  shows "safe_on db (tx_bind (fenced_row i l) f)"
proof (rule safe_on_read)
  fix r db'
  assume run: "fenced_row i l db = Inr (r, db')"
  have "db' = db \<and> r \<in> set (jd_jobs db) \<and> r_token r \<noteq> None"
    using run by (auto simp: fenced_row_iff [OF jobdb_okD(1) [OF assms(1)]])
  then show "db' = db \<and> safe_on db (f r)"
    using assms(2) jobdb_okD(3) [OF assms(1)] by blast
qed (auto dest: fenced_row_raises)

lemma safe_on_locked:
  assumes "jobdb_ok db"
    and "\<And>row. row \<in> set (jd_jobs db) \<Longrightarrow> job_row_ok row \<Longrightarrow> safe_on db (f row)"
  shows "safe_on db (tx_bind (locked_row i) f)"
proof (rule safe_on_read)
  fix r db'
  assume run: "locked_row i db = Inr (r, db')"
  have "db' = db \<and> r \<in> set (jd_jobs db)"
    using run by (auto simp: locked_row_iff [OF jobdb_okD(1) [OF assms(1)]])
  then show "db' = db \<and> safe_on db (f r)"
    using assms(2) jobdb_okD(3) [OF assms(1)] by blast
qed (auto dest: locked_row_raises)

lemma safe_on_move:
  assumes "jobdb_ok db" and "old \<in> set (jd_jobs db)"
    and "immutable_cols new = immutable_cols old"
    and "legal_job_transition (r_status old) (r_status new)"
    and "job_row_ok new" and "\<And>x. w = Some x \<Longrightarrow> nonempty x"
    and "f = Some (r_status old)" and "tgt = r_status new"
  shows "safe_on db (tx_bind (record_transition new f tgt now w e d) (\<lambda>_. flush_row new))"
  using move_runs [where w = w and now = now and e = e and d = d, OF assms] by (auto simp: safe_on_def)

lemma tx_bind_assoc: "tx_bind (tx_bind m f) g = tx_bind m (\<lambda>x. tx_bind (f x) g)"
  by (rule ext) (simp add: tx_bind_def split: sum.splits prod.splits)

lemma safe_on_move_then:
  assumes "jobdb_ok db" and "old \<in> set (jd_jobs db)"
    and "immutable_cols new = immutable_cols old"
    and "legal_job_transition (r_status old) (r_status new)"
    and "job_row_ok new" and "\<And>x. w = Some x \<Longrightarrow> nonempty x"
    and "f = Some (r_status old)" and "tgt = r_status new"
    and "\<And>db'. jobdb_ok db' \<Longrightarrow> new \<in> set (jd_jobs db') \<Longrightarrow> safe_on db' g"
  shows "safe_on db (tx_bind (record_transition new f tgt now w e d) (\<lambda>_. tx_bind (flush_row new) (\<lambda>_. g)))"
proof -
  obtain t where run: "tx_bind (record_transition new f tgt now w e d) (\<lambda>_. flush_row new) db
      = Inr ((), set_job new (add_hist t db))" and ok: "jobdb_ok (set_job new (add_hist t db))"
    using move_runs [where w = w and now = now and e = e and d = d, OF assms(1-8)] by auto
  have "r_id new \<in> r_id ` set (jd_jobs db)"
    using assms(2,3) by (auto simp: immutable_cols_def)
  then have "new \<in> set (jd_jobs (set_job new (add_hist t db)))"
    by (force simp: put_row_def image_iff)
  from assms(9) [OF ok this]
  have "safe_on db (tx_bind (tx_bind (record_transition new f tgt now w e d) (\<lambda>_. flush_row new)) (\<lambda>_. g))"
    using run by (simp add: safe_on_def tx_bind_def)
  then show ?thesis by (simp add: tx_bind_assoc)
qed

lemma safe_on_domain:
  "jobdb_ok db \<Longrightarrow> new \<in> set (jd_jobs db) \<Longrightarrow> safe_on db (to_domain new)"
  using jobdb_okD(3) by (simp add: safe_on_def to_domain_ok)

lemma leased_iff: "job_row_ok row \<Longrightarrow> r_token row \<noteq> None \<longleftrightarrow> r_status row = Claimed \<or> r_status row = Running"
  using job_row_ok_facts(5) [of row] by (auto simp: leased_status_def)

lemma backoff_bounds:
  assumes "job_row_ok row"
  shows "1 \<le> backoff_seconds row" "backoff_seconds row \<le> 3600"
proof -
  have "1 * 1 \<le> r_backoff row * 2 ^ nat (max (r_attempts row - 1) 0)"
    by (rule mult_mono) (use job_row_ok_facts(4) [OF assms] in auto)
  then show "1 \<le> backoff_seconds row" by (simp add: backoff_seconds_def max_backoff_seconds_def)
  show "backoff_seconds row \<le> 3600" by (simp add: backoff_seconds_def max_backoff_seconds_def)
qed

lemma requeue_safe_on:
  assumes ok: "jobdb_ok db" and row: "row \<in> set (jd_jobs db)" and st: "r_status row \<in> {Claimed, Running}"
  shows "safe_on db (requeue_or_dead_letter row now ec d)"
proof -
  have rok: "job_row_ok row" using jobdb_okD(3) [OF ok row] .
  have w: "\<And>x. r_claimed_by row = Some x \<Longrightarrow> nonempty x"
    using rok by (auto simp: job_row_ok_def)
  consider "r_cancel row \<noteq> None" | "r_cancel row = None" "r_attempts row \<ge> r_max row"
    | "r_cancel row = None" "r_attempts row < r_max row" by linarith
  then show ?thesis
  proof cases
    case 1
    show ?thesis
      unfolding requeue_or_dead_letter_def Let_def if_P [OF 1]
      by (rule safe_on_move [OF ok row]) (use rok st w in \<open>auto simp: row_ok_simps\<close>)
  next
    case 2
    show ?thesis
      unfolding requeue_or_dead_letter_def Let_def if_P [OF 2(2)] if_not_P [OF iffD2 [OF not_not, OF 2(1)]]
      by (rule safe_on_move [OF ok row]) (use rok st w 2 in \<open>auto simp: row_ok_simps\<close>)
  next
    case 3
    show ?thesis
      unfolding requeue_or_dead_letter_def Let_def if_not_P [OF iffD2 [OF not_le, OF 3(2)]]
        if_not_P [OF iffD2 [OF not_not, OF 3(1)]]
      by (rule safe_on_move [OF ok row]) (use rok st w 3 in \<open>auto simp: row_ok_simps\<close>)
  qed
qed

text \<open>The worker a row names is a checked name.\<close>

lemma claimed_by_nonempty: "job_row_ok row \<Longrightarrow> r_claimed_by row = Some x \<Longrightarrow> nonempty x"
  by (simp add: job_row_ok_def)

lemma start_job_safe: "job_safe (start_job i l now)"
proof (rule job_safe_safe_on)
  fix db assume ok: "jobdb_ok db"
  show "safe_on db (start_job i l now)"
    unfolding start_job_def Let_def
  proof (intro safe_on_fenced [OF ok] safe_on_guard)
    fix row assume row: "row \<in> set (jd_jobs db)" "job_row_ok row" and st: "r_status row = Claimed"
    show "safe_on db (tx_bind (record_transition (row\<lparr>r_status := Running, r_started := Some now\<rparr>)
        (Some Claimed) Running now (r_claimed_by row) None None)
        (\<lambda>_. flush_row (row\<lparr>r_status := Running, r_started := Some now\<rparr>)))"
      by (rule safe_on_move [OF ok row(1)])
        (use row st in \<open>auto simp: row_ok_simps dest: claimed_by_nonempty\<close>)
  qed
qed

lemma complete_job_safe: "job_safe (complete_job i l rj rr lr now)"
proof (rule job_safe_safe_on)
  fix db assume ok: "jobdb_ok db"
  show "safe_on db (complete_job i l rj rr lr now)"
    unfolding complete_job_def Let_def
  proof (intro safe_on_fenced [OF ok] safe_on_guard)
    fix row assume row: "row \<in> set (jd_jobs db)" "job_row_ok row" and st: "r_status row = Running"
    let ?new = "clear_lease (row\<lparr>r_status := Succeeded, r_finished := Some now,
        r_result_json := rj, r_result_ref := rr, r_log_ref := lr\<rparr>)"
    show "safe_on db (tx_bind (record_transition ?new (Some Running) Succeeded now (r_claimed_by row)
        None None) (\<lambda>_. flush_row ?new))"
      by (rule safe_on_move [OF ok row(1)])
        (use row st in \<open>auto simp: row_ok_simps dest: claimed_by_nonempty\<close>)
  qed
qed

lemma heartbeat_safe: "job_safe (heartbeat i l ls now)"
proof (rule job_safe_safe_on)
  fix db assume ok: "jobdb_ok db"
  show "safe_on db (heartbeat i l ls now)"
    unfolding heartbeat_def Let_def
  proof (rule safe_on_fenced [OF ok])
    fix row
    assume row: "row \<in> set (jd_jobs db)" and rok: "job_row_ok row" and "r_token row \<noteq> None"
    then have st: "r_status row = Claimed \<or> r_status row = Running" using leased_iff by blast
    let ?new = "row\<lparr>r_lease := Some (now + seconds ls), r_heartbeat := Some now\<rparr>"
    have "flush_row ?new db = Inr ((), set_job ?new db) \<and> jobdb_ok (set_job ?new db)"
      by (rule touch_runs [OF ok row]) (use rok st in \<open>auto simp: row_ok_simps\<close>)
    then show "safe_on db (tx_bind (flush_row ?new) (\<lambda>_. tx_ret (r_cancel row \<noteq> None)))"
      by (simp add: safe_on_def tx_bind_def tx_ret_def)
  qed
qed

lemma safe_on_bind_domain:
  assumes "\<And>db'. jobdb_ok db' \<Longrightarrow> safe_on db' g" and "safe_on db m"
  shows "safe_on db (tx_bind m (\<lambda>_. g))"
proof (cases "m db")
  case (Inl e)
  with assms(2) show ?thesis by (simp add: safe_on_def tx_bind_def)
next
  case (Inr p)
  then obtain x db' where run: "m db = Inr (x, db')" by (cases p) auto
  with assms(2) have "jobdb_ok db'" by (simp add: safe_on_def)
  from assms(1) [OF this] show ?thesis by (simp add: safe_on_def run tx_bind_def)
qed

lemma fail_job_safe: "job_safe (fail_job i l ec d rt now)"
proof (rule job_safe_safe_on)
  fix db assume ok: "jobdb_ok db"
  show "safe_on db (fail_job i l ec d rt now)"
    unfolding fail_job_def
  proof (rule safe_on_read)
    fix e' db' assume "tx_some ValueError (parse_job_error ec) db = Inr (e', db')"
    then have "db' = db" by (simp add: tx_simps)
    moreover have "safe_on db (tx_bind (fenced_row i l) (\<lambda>row.
       if e' = ErrCancelled then
         tx_bind (tx_guard (r_status row \<in> {Claimed, Running}) LookupError) (\<lambda>_.
         let new = clear_lease (row\<lparr>r_status := Cancelled, r_finished := Some now,
               r_err := Some e', r_err_detail := d\<rparr>) in
         tx_bind (record_transition new (Some (r_status row)) Cancelled now (r_claimed_by row)
           (Some e') d) (\<lambda>_. tx_bind (flush_row new) (\<lambda>_. to_domain new)))
       else
         tx_bind (tx_guard (r_status row = Running) LookupError) (\<lambda>_.
         tx_bind
           (if \<not> rt then
              let new = clear_lease (row\<lparr>r_status := Failed, r_finished := Some now,
                    r_err := Some e', r_err_detail := d\<rparr>) in
              tx_bind (record_transition new (Some Running) Failed now (r_claimed_by row)
                (Some e') d) (\<lambda>_. flush_row new)
            else requeue_or_dead_letter row now e' d)
           (\<lambda>_. tx_bind (locked_row i) to_domain))))" (is "safe_on db (tx_bind _ ?f)")
    proof (rule safe_on_fenced [OF ok])
      fix row assume row: "row \<in> set (jd_jobs db)" "job_row_ok row"
      let ?canc = "clear_lease (row\<lparr>r_status := Cancelled, r_finished := Some now,
               r_err := Some e', r_err_detail := d\<rparr>)"
      let ?fail = "clear_lease (row\<lparr>r_status := Failed, r_finished := Some now,
               r_err := Some e', r_err_detail := d\<rparr>)"
      have A: "safe_on db (tx_bind (record_transition ?canc (Some (r_status row)) Cancelled now
          (r_claimed_by row) (Some e') d) (\<lambda>_. tx_bind (flush_row ?canc) (\<lambda>_. to_domain ?canc)))"
        if "r_status row \<in> {Claimed, Running}"
        by (rule safe_on_move_then [OF ok row(1)])
          (use row that in \<open>auto simp: row_ok_simps dest: claimed_by_nonempty intro: safe_on_domain\<close>)
      have B: "safe_on db (tx_bind (record_transition ?fail (Some Running) Failed now
          (r_claimed_by row) (Some e') d) (\<lambda>_. flush_row ?fail))" if "r_status row = Running"
        by (rule safe_on_move [OF ok row(1)])
          (use row that in \<open>auto simp: row_ok_simps dest: claimed_by_nonempty\<close>)
      have C: "safe_on db' (tx_bind (locked_row i) to_domain)" if "jobdb_ok db'" for db'
        by (rule safe_on_locked [OF that]) (rule safe_on_domain [OF that])
      have D: "safe_on db (requeue_or_dead_letter row now e' d)" if "r_status row = Running"
        by (rule requeue_safe_on [OF ok row(1)]) (simp add: that)
      show "safe_on db (?f row)"
      proof (cases "e' = ErrCancelled")
        case True
        show ?thesis
          unfolding Let_def if_P [OF True] by (rule safe_on_guard) (rule A)
      next
        case False
        show ?thesis
          unfolding Let_def if_not_P [OF False]
        proof (intro safe_on_guard safe_on_bind_domain C)
          assume "r_status row = Running"
          then show "safe_on db (if \<not> rt then tx_bind (record_transition ?fail (Some Running) Failed now
              (r_claimed_by row) (Some e') d) (\<lambda>_. flush_row ?fail)
            else requeue_or_dead_letter row now e' d)"
            using B D by (cases rt) simp_all
        qed
      qed
    qed
    ultimately show "db' = db \<and> safe_on db (tx_bind (fenced_row i l) ?f)" by simp
  qed (simp add: tx_raises)
qed

lemma request_cancel_safe: "job_safe (request_cancel i now)"
proof (rule job_safe_safe_on)
  fix db assume ok: "jobdb_ok db"
  show "safe_on db (request_cancel i now)"
    unfolding request_cancel_def Let_def
  proof (rule safe_on_locked [OF ok])
    fix row assume row: "row \<in> set (jd_jobs db)" "job_row_ok row"
    let ?canc = "row\<lparr>r_status := Cancelled, r_cancel := Some now, r_finished := Some now\<rparr>"
    let ?stamp = "row\<lparr>r_cancel := Some now\<rparr>"
    have A: "safe_on db (tx_bind (record_transition ?canc (Some Queued) Cancelled now None None None)
        (\<lambda>_. tx_bind (flush_row ?canc) (\<lambda>_. to_domain ?canc)))" if "r_status row = Queued"
      by (rule safe_on_move_then [OF ok row(1)])
        (use row that in \<open>auto simp: row_ok_simps intro: safe_on_domain\<close>)
    have B: "safe_on db (tx_bind (flush_row ?stamp) (\<lambda>_. to_domain ?stamp))"
      if st: "r_status row \<in> {Claimed, Running}"
    proof -
      have rok: "job_row_ok ?stamp" using row st by (auto simp: row_ok_simps)
      have "flush_row ?stamp db = Inr ((), set_job ?stamp db) \<and> jobdb_ok (set_job ?stamp db)"
        by (rule touch_runs [OF ok row(1)]) (use rok st in \<open>auto simp: immutable_cols_def\<close>)
      then show ?thesis using rok by (simp add: safe_on_def tx_bind_def to_domain_ok)
    qed
    show "safe_on db (if r_status row = Queued then tx_bind (record_transition ?canc (Some Queued)
        Cancelled now None None None) (\<lambda>_. tx_bind (flush_row ?canc) (\<lambda>_. to_domain ?canc))
      else if r_status row \<in> {Claimed, Running} then tx_bind (flush_row ?stamp) (\<lambda>_. to_domain ?stamp)
      else tx_raise LookupError)"
      using A B by (simp add: safe_on_def tx_raise_def)
  qed
qed

lemma retry_dead_letter_safe: "job_safe (retry_dead_letter i now)"
proof (rule job_safe_safe_on)
  fix db assume ok: "jobdb_ok db"
  show "safe_on db (retry_dead_letter i now)"
    unfolding retry_dead_letter_def Let_def
  proof (intro safe_on_locked [OF ok] safe_on_guard)
    fix row assume row: "row \<in> set (jd_jobs db)" "job_row_ok row" and st: "r_status row = DeadLetter"
    let ?new = "row\<lparr>r_status := Queued, r_attempts := 0, r_available := now, r_finished := None,
           r_err := None, r_err_detail := None, r_cancel := None\<rparr>"
    show "safe_on db (tx_bind (record_transition ?new (Some DeadLetter) Queued now None None None)
        (\<lambda>_. tx_bind (flush_row ?new) (\<lambda>_. to_domain ?new)))"
      by (rule safe_on_move_then [OF ok row(1)])
        (use row st in \<open>auto simp: row_ok_simps intro: safe_on_domain\<close>)
  qed
qed

end
