(* ===== verification/Job_Queue_Steps.thy ===== *)
theory Job_Queue_Steps
  imports Job_Queue_Safe
begin

text \<open>
  The rows a claim and a requeue write, and the safety of claiming and reaping. A reap takes the
  expired rows of one pick in turn; its loop is shown to requeue exactly those rows and to keep
  every other one.
\<close>

section \<open>Claiming, enqueueing and reaping keep the invariant\<close>

lemma claimable_in: "first_by claim_key (filter (claimable caps now skip) rows) = Some r \<Longrightarrow>
    r \<in> set rows \<and> claimable caps now skip r"
  by (auto dest: first_by_SomeD)

definition claimed_row :: "nat \<Rightarrow> string \<Rightarrow> int \<Rightarrow> instant \<Rightarrow> job_row \<Rightarrow> job_row" where
  "claimed_row token w ls now row = row\<lparr>r_status := Claimed, r_claimed_by := Some w,
     r_token := Some token, r_lease := Some (now + seconds ls), r_heartbeat := Some now,
     r_attempts := r_attempts row + 1\<rparr>"

lemma claim_unfold:
  "claim skip token w caps ls now =
     tx_bind (tx_get (\<lambda>db. first_by claim_key (filter (claimable caps now skip) (jd_jobs db))))
       (\<lambda>r. case r of None \<Rightarrow> tx_ret None
        | Some row \<Rightarrow>
            tx_bind (record_transition (claimed_row token w ls now row) (Some Queued) Claimed now
              (Some w) None None)
              (\<lambda>_. tx_bind (flush_row (claimed_row token w ls now row))
                (\<lambda>_. tx_bind (to_domain (claimed_row token w ls now row)) (\<lambda>j.
                   tx_ret (Some \<lparr>jl_job = j, jl_token = token, jl_expires = now + seconds ls\<rparr>)))))"
  unfolding claim_def claimed_row_def Let_def by (rule refl)

lemma claimed_row_ok:
  assumes "job_row_ok row" and "r_status row = Queued" and "nonempty w"
  shows "job_row_ok (claimed_row token w ls now row)"
  using assms by (auto simp: row_ok_simps claimed_row_def)

lemma safe_on_domain_ret:
  "jobdb_ok db \<Longrightarrow> new \<in> set (jd_jobs db) \<Longrightarrow> safe_on db (tx_bind (to_domain new) (\<lambda>j. tx_ret (f j)))"
  using jobdb_okD(3) by (simp add: safe_on_def to_domain_ok tx_bind_def tx_ret_def)

lemma claim_safe: "job_safe (claim skip token w caps ls now)"
proof (rule job_safe_safe_on)
  fix db assume ok: "jobdb_ok db"
  show "safe_on db (claim skip token w caps ls now)"
    unfolding claim_unfold
  proof (rule safe_on_read)
    fix r db'
    assume "tx_get (\<lambda>db. first_by claim_key (filter (claimable caps now skip) (jd_jobs db))) db = Inr (r, db')"
    then have db': "db' = db" and pick: "r = first_by claim_key (filter (claimable caps now skip) (jd_jobs db))"
      by (auto simp: tx_simps)
    have "safe_on db (case r of None \<Rightarrow> tx_ret None
        | Some row \<Rightarrow>
            tx_bind (record_transition (claimed_row token w ls now row) (Some Queued) Claimed now
              (Some w) None None)
              (\<lambda>_. tx_bind (flush_row (claimed_row token w ls now row))
                (\<lambda>_. tx_bind (to_domain (claimed_row token w ls now row)) (\<lambda>j.
                   tx_ret (Some \<lparr>jl_job = j, jl_token = token, jl_expires = now + seconds ls\<rparr>)))))"
    proof (cases r)
      case None
      then show ?thesis using ok by (simp add: safe_on_def tx_ret_def)
    next
      case (Some row)
      with pick have row: "row \<in> set (jd_jobs db)" and cl: "claimable caps now skip row"
        using claimable_in by metis+
      have rok: "job_row_ok row" by (rule jobdb_okD(3) [OF ok row])
      show ?thesis
      proof (cases "nonempty w")
        case True
        show ?thesis
          unfolding Some option.case
          by (rule safe_on_move_then [OF ok row])
            (use rok cl True claimed_row_ok [OF rok _ True] in
              \<open>auto simp: claimable_def claimed_row_def immutable_cols_def legal_job_transition_def
                 intro!: safe_on_domain_ret\<close>)
      next
        case False
        then have "record_transition (claimed_row token w ls now row) (Some Queued) Claimed now
            (Some w) None None db = Inl ValueError"
          by (simp add: record_transition_def tx_defs opt_nonempty_def)
        then show ?thesis unfolding Some option.case by (simp add: safe_on_def tx_bind_def)
      qed
    qed
    with db' show "db' = db \<and> safe_on db (case r of None \<Rightarrow> tx_ret None
        | Some row \<Rightarrow>
            tx_bind (record_transition (claimed_row token w ls now row) (Some Queued) Claimed now
              (Some w) None None)
              (\<lambda>_. tx_bind (flush_row (claimed_row token w ls now row))
                (\<lambda>_. tx_bind (to_domain (claimed_row token w ls now row)) (\<lambda>j.
                   tx_ret (Some \<lparr>jl_job = j, jl_token = token, jl_expires = now + seconds ls\<rparr>)))))"
      by simp
  qed simp
qed

text \<open>The row a requeue writes, in one definition for its three cases.\<close>

definition requeued_row :: "instant \<Rightarrow> job_error \<Rightarrow> string option \<Rightarrow> job_row \<Rightarrow> job_row" where
  "requeued_row now ec d row =
     (let failed = row\<lparr>r_err := Some ec, r_err_detail := d\<rparr> in
      if r_cancel row \<noteq> None then clear_lease (failed\<lparr>r_status := Cancelled, r_finished := Some now\<rparr>)
      else if r_attempts row \<ge> r_max row then
        (clear_lease (failed\<lparr>r_status := DeadLetter, r_finished := Some now\<rparr>))\<lparr>r_started := None\<rparr>
      else (clear_lease (failed\<lparr>r_status := Queued,
          r_available := now + seconds (backoff_seconds row)\<rparr>))\<lparr>r_started := None\<rparr>)"

lemma requeue_unfold:
  "requeue_or_dead_letter row now ec d =
     tx_bind (record_transition (requeued_row now ec d row) (Some (r_status row))
        (r_status (requeued_row now ec d row)) now (r_claimed_by row) (Some ec) d)
       (\<lambda>_. flush_row (requeued_row now ec d row))"
  by (simp add: requeue_or_dead_letter_def requeued_row_def Let_def clear_lease_def)

lemma requeued_row_id [simp]: "r_id (requeued_row now ec d row) = r_id row"
  by (simp add: requeued_row_def clear_lease_def Let_def)

lemma requeued_row_cols: "immutable_cols (requeued_row now ec d row) = immutable_cols row"
  by (simp add: requeued_row_def clear_lease_def immutable_cols_def Let_def)

lemma requeued_row_status:
  "r_status (requeued_row now ec d row) =
     (if r_cancel row \<noteq> None then Cancelled else if r_attempts row \<ge> r_max row then DeadLetter else Queued)"
  by (simp add: requeued_row_def clear_lease_def Let_def)

lemma requeued_row_lease [simp]: "lease_free (requeued_row now ec d row)"
  by (simp add: requeued_row_def clear_lease_def lease_free_def Let_def)

lemma requeued_row_ok:
  assumes "job_row_ok row" and "r_status row \<in> {Claimed, Running}"
  shows "job_row_ok (requeued_row now ec d row)"
  using assms unfolding requeued_row_def Let_def
  by (cases "r_cancel row \<noteq> None"; cases "r_attempts row \<ge> r_max row") (auto simp: row_ok_simps)

lemma requeue_runs:
  assumes ok: "jobdb_ok db" and row: "row \<in> set (jd_jobs db)" and st: "r_status row \<in> {Claimed, Running}"
  shows "\<exists>t. requeue_or_dead_letter row now ec d db
      = Inr ((), set_job (requeued_row now ec d row) (add_hist t db))
    \<and> jobdb_ok (set_job (requeued_row now ec d row) (add_hist t db))"
  unfolding requeue_unfold
proof (rule move_runs [OF ok row requeued_row_cols])
  have rok: "job_row_ok row" by (rule jobdb_okD(3) [OF ok row])
  show "job_row_ok (requeued_row now ec d row)" by (rule requeued_row_ok [OF rok st])
  show "legal_job_transition (r_status row) (r_status (requeued_row now ec d row))"
    using st by (auto simp: requeued_row_status legal_job_transition_def)
  show "nonempty x" if "r_claimed_by row = Some x" for x
    by (rule claimed_by_nonempty [OF rok that])
qed simp_all

lemma find_row_set_job:
  "find_row r_id k (jd_jobs (set_job new db)) =
     (if k = r_id new then (if r_id new \<in> r_id ` set (jd_jobs db) then Some new else None)
      else find_row r_id k (jd_jobs db))"
  by (simp add: find_row_put_row)

lemma set_job_other: "r \<in> set (jd_jobs db) \<Longrightarrow> r_id r \<noteq> r_id new \<Longrightarrow> r \<in> set (jd_jobs (set_job new db))"
  by (force simp: put_row_def image_iff)

text \<open>Reaping the rows of a list in turn: each is requeued, all other rows are kept.\<close>

definition requeue_all :: "instant \<Rightarrow> nat list \<Rightarrow> job_row \<Rightarrow> job_row" where
  "requeue_all now ids r = (if r_id r \<in> set ids then requeued_row now LeaseExpired None r else r)"

lemma reap_loop_runs:
  assumes "jobdb_ok db" and "set rows \<subseteq> set (jd_jobs db)" and "distinct (map r_id rows)"
    and "\<And>r. r \<in> set rows \<Longrightarrow> r_status r \<in> {Claimed, Running}"
  shows "\<exists>db'. tx_iter (\<lambda>row. requeue_or_dead_letter row now LeaseExpired None) rows db = Inr ((), db')
      \<and> jobdb_ok db' \<and> jd_jobs db' = map (requeue_all now (map r_id rows)) (jd_jobs db)"
  using assms
proof (induction rows arbitrary: db)
  case Nil
  have "map (requeue_all now (map r_id [])) (jd_jobs db) = jd_jobs db"
    by (rule map_idI) (simp add: requeue_all_def)
  with Nil show ?case by (auto simp: tx_ret_def)
next
  case (Cons row rows)
  let ?new = "requeued_row now LeaseExpired None row"
  have row: "row \<in> set (jd_jobs db)" and st: "r_status row \<in> {Claimed, Running}"
    using Cons.prems(2) Cons.prems(4) [of row] by auto
  obtain t where run: "requeue_or_dead_letter row now LeaseExpired None db
      = Inr ((), set_job ?new (add_hist t db))" and ok: "jobdb_ok (set_job ?new (add_hist t db))"
    using requeue_runs [OF Cons.prems(1) row st] by blast
  let ?db1 = "set_job ?new (add_hist t db)"
  have sub: "set rows \<subseteq> set (jd_jobs ?db1)"
  proof
    fix r assume r: "r \<in> set rows"
    then have "r \<in> set (jd_jobs (add_hist t db))" using Cons.prems(2) by auto
    moreover have "r_id r \<in> set (map r_id rows)" using r by simp
    then have "r_id r \<noteq> r_id ?new" using Cons.prems(3) by auto
    ultimately show "r \<in> set (jd_jobs ?db1)" by (rule set_job_other)
  qed
  have dis: "distinct (map r_id rows)" using Cons.prems(3) by simp
  have stat: "\<And>r. r \<in> set rows \<Longrightarrow> r_status r \<in> {Claimed, Running}"
    using Cons.prems(4) by simp
  obtain db' where loop: "tx_iter (\<lambda>row. requeue_or_dead_letter row now LeaseExpired None) rows ?db1
      = Inr ((), db')" and ok': "jobdb_ok db'"
    and jobs: "jd_jobs db' = map (requeue_all now (map r_id rows)) (jd_jobs ?db1)"
    using Cons.IH [OF ok sub dis stat] by blast
  have "map (requeue_all now (map r_id rows)) (jd_jobs ?db1)
      = map (requeue_all now (map r_id (row # rows))) (jd_jobs db)"
  proof -
    have "requeue_all now (map r_id rows) (if r_id r = r_id row then ?new else r)
        = requeue_all now (map r_id (row # rows)) r" if r: "r \<in> set (jd_jobs db)" for r
    proof (cases "r_id r = r_id row")
      case True
      have "r = row"
        using inj_onD [of r_id "set (jd_jobs db)" r row] jobdb_okD(1) [OF Cons.prems(1)] r row True
        by (simp add: distinct_map)
      then show ?thesis using Cons.prems(3) by (simp add: requeue_all_def)
    next
      case False
      then show ?thesis by (simp add: requeue_all_def)
    qed
    then show ?thesis by (simp add: put_row_def)
  qed
  with run loop ok' jobs show ?case by (simp add: tx_bind_def)
qed

text \<open>\<open>FOR UPDATE SKIP LOCKED ... LIMIT\<close>: the rows one reap takes.\<close>

definition reap_pick :: "nat list \<Rightarrow> instant \<Rightarrow> nat \<Rightarrow> jobdb \<Rightarrow> job_row list" where
  "reap_pick skip now limit db = order_limit lease_key limit (filter (reapable now skip) (jd_jobs db))"

lemma reap_pick_set: "r \<in> set (reap_pick skip now limit db) \<Longrightarrow> r \<in> set (jd_jobs db) \<and> reapable now skip r"
  using set_order_limit [of lease_key limit "filter (reapable now skip) (jd_jobs db)"]
  by (auto simp: reap_pick_def)

lemma distinct_map_take: "distinct (map f xs) \<Longrightarrow> distinct (map f (take n xs))"
  by (metis distinct_take take_map)

lemma reap_pick_distinct:
  assumes "jobdb_ok db"
  shows "distinct (map r_id (reap_pick skip now limit db))"
proof -
  let ?xs = "filter (reapable now skip) (jd_jobs db)"
  have d: "distinct (map r_id ?xs)"
    using jobdb_okD(1) [OF assms] by (simp add: distinct_map_filter)
  have "mset (map r_id (sort_key lease_key ?xs)) = mset (map r_id ?xs)" by simp
  then have "distinct (map r_id (sort_key lease_key ?xs))"
    using d by (metis mset_eq_imp_distinct_iff)
  then show ?thesis unfolding reap_pick_def order_limit_def by (rule distinct_map_take)
qed

lemma reap_runs:
  assumes ok: "jobdb_ok db"
  shows "\<exists>js db'. reap_expired skip now limit db = Inr (js, db') \<and> jobdb_ok db'
      \<and> jd_jobs db' = map (requeue_all now (map r_id (reap_pick skip now limit db))) (jd_jobs db)
      \<and> js = map row_job (reread (reap_pick skip now limit db) db')"
proof -
  let ?rows = "reap_pick skip now limit db"
  have sub: "set ?rows \<subseteq> set (jd_jobs db)" using reap_pick_set by blast
  have st: "r_status r \<in> {Claimed, Running}" if "r \<in> set ?rows" for r
    using reap_pick_set [OF that] by (simp add: reapable_def)
  obtain db' where loop: "tx_iter (\<lambda>row. requeue_or_dead_letter row now LeaseExpired None) ?rows db
      = Inr ((), db')" and ok': "jobdb_ok db'"
    and jobs: "jd_jobs db' = map (requeue_all now (map r_id ?rows)) (jd_jobs db)"
    using reap_loop_runs [OF ok sub reap_pick_distinct [OF ok] st] by blast
  have "job_row_ok r" if "r \<in> set (reread ?rows db')" for r
  proof -
    have "\<exists>x :: job_row. find_row r_id (r_id x) (jd_jobs db') = Some r"
      using that by (auto simp: reread_def map_filter_def split: option.splits)
    then show ?thesis using jobdb_okD(3) [OF ok'] find_row_SomeD by metis
  qed
  then have "to_domain_many (reread ?rows db') db' = Inr (map row_job (reread ?rows db'), db')"
    by (rule to_domain_many_ok)
  then have "reap_expired skip now limit db = Inr (map row_job (reread ?rows db'), db')"
    using loop by (simp add: reap_expired_def tx_bind_def tx_get_def reap_pick_def)
  with ok' jobs show ?thesis by blast
qed

lemma reap_safe: "job_safe (reap_expired skip now limit)"
proof (rule job_safe_safe_on)
  fix db assume "jobdb_ok db"
  then show "safe_on db (reap_expired skip now limit)"
    using reap_runs [of db skip now limit] by (auto simp: safe_on_def)
qed

end
