(* ===== verification/Job_Effects.thy ===== *)
theory Job_Effects
  imports Job_Queue_Steps
begin

text \<open>
  What a job-queue method that returns has done: which row it chose and the row it wrote, with the
  others untouched (\<open>writes\<close>). The protocol and the functional properties of the queue are read
  off these lemmas.
\<close>

section \<open>Enqueue\<close>

lemma job_to_orm_ok:
  assumes orm: "job_to_orm j c v created = Inr row" and ini: "job_post_init j = Inr ()"
    and c: "c = j_competition_id j"
    and v: "v = (case (j_definition_slug j, j_version_no j) of (Some d, Some n) \<Rightarrow> Some (d, n) | _ \<Rightarrow> None)"
  shows "job_row_ok row" "r_status row = Queued" "r_token row = None" "as_uuid (j_id j) = Some (r_id row)"
    "r_key row = j_idempotency_key j" "r_attempts row = 0" "r_available row = j_available_at j"
proof -
  obtain k where row: "row = \<lparr>r_id = k, r_type = j_type j, r_status = Queued, r_priority = j_priority j,
            r_payload = j_payload j, r_key = j_idempotency_key j,
            r_caps = capabilities_to_orm (j_required_capabilities j), r_attempts = 0,
            r_max = j_max_attempts j, r_backoff = j_backoff_base_seconds j,
            r_available = j_available_at j, r_claimed_by = None, r_token = None, r_lease = None,
            r_heartbeat = None, r_cancel = None, r_started = None, r_finished = None,
            r_err = None, r_err_detail = None, r_result_json = None, r_result_ref = None,
            r_log_ref = None, r_comp = c, r_version = v, r_created = created\<rparr>"
    and k: "as_uuid (j_id j) = Some k"
    using orm unfolding job_to_orm_def by (auto split: if_splits option.splits)
  show "r_status row = Queued" "r_token row = None" "as_uuid (j_id j) = Some (r_id row)"
    "r_key row = j_idempotency_key j" "r_attempts row = 0" "r_available row = j_available_at j"
    using k by (simp_all add: row)
  have caps: "\<forall>c \<in> set (j_required_capabilities j). nonempty c"
    and comp: "\<forall>c. j_competition_id j = Some c \<longrightarrow> nonempty c"
    and slug: "\<forall>d. j_definition_slug j = Some d \<longrightarrow> nonempty d"
    and no: "\<forall>n. j_version_no j = Some n \<longrightarrow> 1 \<le> n"
    using ini by (simp_all add: job_post_init_def not_less split: if_splits option.splits)
  have vv: "\<forall>d n. v = Some (d, n) \<longrightarrow> nonempty d \<and> 1 \<le> n"
    using slug no by (simp add: v split: option.splits)
  show "job_row_ok row"
    unfolding job_row_ok_iff
    using job_post_init_ok [OF ini] caps comp vv
    by (simp add: row c leased_status_def capabilities_to_orm_def)
qed

lemma version_optional_iff:
  "version_uuid_optional cat so no s = Inr r \<longleftrightarrow>
     ((so = None) = (no = None)) \<and> (\<forall>d n. so = Some d \<longrightarrow> no = Some n \<longrightarrow> (d, n) \<in> set (cat_versions cat))
     \<and> r = ((case (so, no) of (Some d, Some n) \<Rightarrow> Some (d, n) | _ \<Rightarrow> None), s)"
  by (auto simp: version_uuid_optional_def tx_simps split: option.splits)

text \<open>What a returning enqueue did, with the row it stored.\<close>

lemma enqueue_effect:
  assumes run: "enqueue cat created j now db = Inr (j', db')" and ini: "job_post_init j = Inr ()"
  shows "\<exists>row t. job_row_ok row \<and> r_status row = Queued \<and> r_token row = None
      \<and> as_uuid (j_id j) = Some (r_id row) \<and> r_key row = j_idempotency_key j
      \<and> r_id row \<notin> r_id ` set (jd_jobs db) \<and> r_key row \<notin> r_key ` set (jd_jobs db)
      \<and> r_attempts row = 0 \<and> j' = row_job row
      \<and> jt_job t = r_id row \<and> jt_from t = None \<and> jt_to t = Queued
      \<and> db' = \<lparr>jd_jobs = jd_jobs db @ [row], jd_hist = jd_hist db @ [t]\<rparr>"
proof -
  let ?c = "j_competition_id j"
  let ?v = "case (j_definition_slug j, j_version_no j) of (Some d, Some n) \<Rightarrow> Some (d, n) | _ \<Rightarrow> None"
  let ?t = "case now of Some t \<Rightarrow> t | None \<Rightarrow> j_available_at j"
  have rest: "(case job_to_orm j ?c ?v created of
       Inl e \<Rightarrow> tx_raise e
     | Inr row \<Rightarrow>
         tx_bind (insert_row row) (\<lambda>_.
         tx_bind (record_transition row None Queued ?t None None None) (\<lambda>_. to_domain row))) db
      = Inr (j', db')"
    using run unfolding enqueue_def
    by (simp add: tx_bind_iff resolve_optional_iff version_optional_iff)
  then obtain row where orm: "job_to_orm j ?c ?v created = Inr row"
    and body: "tx_bind (insert_row row) (\<lambda>_.
         tx_bind (record_transition row None Queued ?t None None None) (\<lambda>_. to_domain row)) db
      = Inr (j', db')"
    by (cases "job_to_orm j ?c ?v created") (auto simp: tx_raise_def)
  note facts = job_to_orm_ok [OF orm ini refl refl]
  obtain db1 where ins: "insert_row row db = Inr ((), db1)"
    and fin: "tx_bind (record_transition row None Queued ?t None None None) (\<lambda>_. to_domain row) db1
        = Inr (j', db')"
    using body by (auto simp: tx_bind_iff)
  have db1: "r_id row \<notin> r_id ` set (jd_jobs db)" "r_key row \<notin> r_key ` set (jd_jobs db)"
    "db1 = db\<lparr>jd_jobs := jd_jobs db @ [row]\<rparr>"
    using ins by (auto simp: insert_row_def split: option.splits if_splits)
  from fin obtain t where "db' = add_hist t db1" and "j' = row_job row"
    and t: "jt_job t = r_id row" "jt_from t = None" "jt_to t = Queued"
    by (auto simp: tx_bind_iff record_transition_iff to_domain_iff)
  with db1 have "db' = \<lparr>jd_jobs = jd_jobs db @ [row], jd_hist = jd_hist db @ [t]\<rparr>"
    by (cases db) (simp add: add_hist_def)
  with facts db1(1,2) t \<open>j' = row_job row\<close> show ?thesis by blast
qed

lemma optional_raises:
  "competition_uuid_optional cat co s = Inl e \<Longrightarrow> e = LookupError"
  "version_uuid_optional cat so no s = Inl e \<Longrightarrow> e = LookupError"
  by (auto simp: competition_uuid_optional_def version_uuid_optional_def tx_bind_raises resolve_raises
      tx_raise_def split: option.splits)

lemma enqueue_raises:
  assumes run: "enqueue cat created j now db = Inl e" and ini: "job_post_init j = Inr ()"
  shows "e \<in> {LookupError, ValueError, IntegrityError ''pk_jobs'', IntegrityError ''uq_jobs_idempotency_key''}"
proof -
  let ?c = "j_competition_id j"
  let ?v = "case (j_definition_slug j, j_version_no j) of (Some d, Some n) \<Rightarrow> Some (d, n) | _ \<Rightarrow> None"
  let ?t = "case now of Some t \<Rightarrow> t | None \<Rightarrow> j_available_at j"
  consider "e = LookupError" | "(case job_to_orm j ?c ?v created of
       Inl e \<Rightarrow> tx_raise e
     | Inr row \<Rightarrow>
         tx_bind (insert_row row) (\<lambda>_.
         tx_bind (record_transition row None Queued ?t None None None) (\<lambda>_. to_domain row))) db = Inl e"
    using run unfolding enqueue_def
    by (auto simp: tx_bind_raises resolve_optional_iff version_optional_iff dest: optional_raises)
  then show ?thesis
  proof cases
    case 1
    then show ?thesis by simp
  next
    case 2
    show ?thesis
    proof (cases "job_to_orm j ?c ?v created")
      case (Inl e')
      then have "e' = ValueError" by (auto simp: job_to_orm_def split: if_splits option.splits)
      with 2 Inl show ?thesis by (simp add: tx_raise_def)
    next
      case (Inr row)
      have rok: "job_row_ok row" by (rule job_to_orm_ok(1) [OF Inr ini refl refl])
      have ck: "job_check row = None" using rok by (simp add: job_row_ok_def)
      have rec: "record_transition row None Queued ?t None None None db1 \<noteq> Inl e" for db1
        using job_row_ok_facts(1) [OF rok] by (auto dest: record_transition_raises)
      have "insert_row row db = Inl e"
        using 2 unfolding Inr sum.case
        by (auto simp: tx_bind_raises rec to_domain_ok [OF rok])
      then show ?thesis using ck by (auto simp: insert_row_def split: if_splits)
    qed
  qed
qed

lemma enqueue_ok:
  assumes ok: "jobdb_ok db" and run: "enqueue cat created j now db = Inr (j', db')"
    and ini: "job_post_init j = Inr ()"
  shows "jobdb_ok db'"
proof -
  from enqueue_effect [OF run ini] obtain row t where row: "job_row_ok row" "r_status row = Queued"
    and fresh: "r_id row \<notin> r_id ` set (jd_jobs db)" "r_key row \<notin> r_key ` set (jd_jobs db)"
    and t: "jt_job t = r_id row" "jt_from t = None" "jt_to t = Queued"
    and db': "db' = \<lparr>jd_jobs = jd_jobs db @ [row], jd_hist = jd_hist db @ [t]\<rparr>"
    by blast
  have none: "job_history db (r_id row) = []"
  proof -
    have "\<forall>t \<in> set (jd_hist db). jt_job t \<noteq> r_id row"
      using jobdb_okD(5) [OF ok] fresh(1) by metis
    then show ?thesis by (simp add: job_history_def filter_empty_conv)
  qed
  have hist: "job_history db' k = (if k = r_id row then [(None, Queued)] else job_history db k)" for k
    using none t by (simp add: db' job_history_def)
  have "job_row_ok r \<and> audited legal_job_transition Queued (job_history db' (r_id r)) (r_status r)"
    if "r \<in> set (jd_jobs db')" for r
  proof (cases "r = row")
    case True
    then show ?thesis using row by (simp add: hist)
  next
    case False
    then have "r \<in> set (jd_jobs db)" using that by (simp add: db')
    moreover from this have "r_id r \<noteq> r_id row" using not_in_keys [OF fresh(1)] by blast
    ultimately show ?thesis using jobdb_okD(3,4) [OF ok] by (simp add: hist)
  qed
  moreover have "jt_job t' \<in> r_id ` set (jd_jobs db')" if "t' \<in> set (jd_hist db')" for t'
    using that jobdb_okD(5) [OF ok] t(1) by (auto simp: db')
  moreover have "distinct (map r_id (jd_jobs db'))" "distinct (map r_key (jd_jobs db'))"
    using jobdb_okD(1,2) [OF ok] fresh by (auto simp: db')
  ultimately show ?thesis unfolding jobdb_ok_def by blast
qed

section \<open>One row written\<close>

definition writes :: "jobdb \<Rightarrow> job_row \<Rightarrow> job_row \<Rightarrow> jobdb \<Rightarrow> bool" where
  "writes db old new db' \<longleftrightarrow> old \<in> set (jd_jobs db) \<and> r_id new = r_id old
     \<and> jd_jobs db' = put_row r_id new (jd_jobs db)"

lemma writes_in: "writes db old new db' \<Longrightarrow> new \<in> set (jd_jobs db')"
  by (force simp: writes_def put_row_def image_iff)

lemma flush_writes:
  assumes ok: "jobdb_ok db" and row: "row \<in> set (jd_jobs db)" and "r_id new = r_id row"
    and run: "flush_row new (add_hist t db) = Inr (u, db') \<or> flush_row new db = Inr (u, db')"
  shows "writes db row new db'"
proof -
  have find: "find_row r_id (r_id new) (jd_jobs db) = Some row"
    using assms(1-3) by (simp add: find_row_eq_Some_iff jobdb_okD(1))
  have "put_row r_id row (jd_jobs db) = jd_jobs db"
    by (rule put_row_same [OF jobdb_okD(1) [OF ok] row])
  then have "jd_jobs db' = put_row r_id new (jd_jobs db)"
    using run find by (auto simp: flush_row_def add_hist_def split: if_splits option.splits)
  then show ?thesis using row assms(3) by (simp add: writes_def)
qed

lemma start_effect:
  assumes ok: "jobdb_ok db" and run: "start_job i l now db = Inr (u, db')"
  shows "\<exists>row t. writes db row (row\<lparr>r_status := Running, r_started := Some now\<rparr>) db'
      \<and> as_uuid i = Some (r_id row) \<and> as_uuid l = Some t \<and> r_token row = Some t \<and> r_status row = Claimed"
proof -
  from run obtain row t where row: "row \<in> set (jd_jobs db)" "as_uuid i = Some (r_id row)"
    "as_uuid l = Some t" "r_token row = Some t" "r_status row = Claimed"
    and fl: "\<exists>h u. flush_row (row\<lparr>r_status := Running, r_started := Some now\<rparr>) (add_hist h db) = Inr (u, db')"
    unfolding start_job_def Let_def
    by (auto simp: tx_simps fenced_row_iff [OF jobdb_okD(1) [OF ok]] record_transition_iff)
  from fl have "writes db row (row\<lparr>r_status := Running, r_started := Some now\<rparr>) db'"
    using flush_writes [OF ok row(1)] by force
  with row show ?thesis by blast
qed

lemma heartbeat_effect:
  assumes ok: "jobdb_ok db" and run: "heartbeat i l ls now db = Inr (b, db')"
  shows "\<exists>row t. writes db row (row\<lparr>r_lease := Some (now + seconds ls), r_heartbeat := Some now\<rparr>) db'
      \<and> as_uuid i = Some (r_id row) \<and> as_uuid l = Some t \<and> r_token row = Some t
      \<and> (b \<longleftrightarrow> r_cancel row \<noteq> None)"
proof -
  from run obtain row t where row: "row \<in> set (jd_jobs db)" "as_uuid i = Some (r_id row)"
    "as_uuid l = Some t" "r_token row = Some t" "b \<longleftrightarrow> r_cancel row \<noteq> None"
    and fl: "\<exists>u. flush_row (row\<lparr>r_lease := Some (now + seconds ls), r_heartbeat := Some now\<rparr>) db = Inr (u, db')"
    unfolding heartbeat_def Let_def
    by (auto simp: tx_simps fenced_row_iff [OF jobdb_okD(1) [OF ok]])
  from fl have "writes db row (row\<lparr>r_lease := Some (now + seconds ls), r_heartbeat := Some now\<rparr>) db'"
    using flush_writes [OF ok row(1)] by force
  with row show ?thesis by blast
qed

lemma complete_effect:
  assumes ok: "jobdb_ok db" and run: "complete_job i l rj rr lr now db = Inr (u, db')"
  shows "\<exists>row t. writes db row (clear_lease (row\<lparr>r_status := Succeeded, r_finished := Some now,
           r_result_json := rj, r_result_ref := rr, r_log_ref := lr\<rparr>)) db'
      \<and> as_uuid i = Some (r_id row) \<and> as_uuid l = Some t \<and> r_token row = Some t \<and> r_status row = Running"
proof -
  from run obtain row t where row: "row \<in> set (jd_jobs db)" "as_uuid i = Some (r_id row)"
    "as_uuid l = Some t" "r_token row = Some t" "r_status row = Running"
    and fl: "\<exists>h u. flush_row (clear_lease (row\<lparr>r_status := Succeeded, r_finished := Some now,
           r_result_json := rj, r_result_ref := rr, r_log_ref := lr\<rparr>)) (add_hist h db) = Inr (u, db')"
    unfolding complete_job_def Let_def
    by (auto simp: tx_simps fenced_row_iff [OF jobdb_okD(1) [OF ok]] record_transition_iff)
  from fl have "writes db row (clear_lease (row\<lparr>r_status := Succeeded, r_finished := Some now,
           r_result_json := rj, r_result_ref := rr, r_log_ref := lr\<rparr>)) db'"
    using flush_writes [OF ok row(1)] by (force simp: clear_lease_def)
  with row show ?thesis by blast
qed

lemma requeue_effect:
  assumes ok: "jobdb_ok db" and row: "row \<in> set (jd_jobs db)"
    and run: "requeue_or_dead_letter row now ec d db = Inr (u, db')"
  shows "writes db row (requeued_row now ec d row) db'"
proof -
  have "\<exists>h u. flush_row (requeued_row now ec d row) (add_hist h db) = Inr (u, db')"
    using run unfolding requeue_unfold by (auto simp: tx_bind_iff record_transition_iff)
  then show ?thesis using flush_writes [OF ok row requeued_row_id] by blast
qed

definition failed_row :: "instant \<Rightarrow> job_error \<Rightarrow> string option \<Rightarrow> bool \<Rightarrow> job_row \<Rightarrow> job_row" where
  "failed_row now ec d retryable row =
     (if ec = ErrCancelled then clear_lease (row\<lparr>r_status := Cancelled, r_finished := Some now,
         r_err := Some ec, r_err_detail := d\<rparr>)
      else if \<not> retryable then clear_lease (row\<lparr>r_status := Failed, r_finished := Some now,
         r_err := Some ec, r_err_detail := d\<rparr>)
      else requeued_row now ec d row)"

lemma failed_row_id [simp]: "r_id (failed_row now ec d rt row) = r_id row"
  by (simp add: failed_row_def clear_lease_def)

lemma failed_row_lease [simp]: "lease_free (failed_row now ec d rt row)"
  by (auto simp: failed_row_def clear_lease_def lease_free_def requeued_row_def Let_def)

lemma fail_effect:
  assumes ok: "jobdb_ok db" and run: "fail_job i l err d rt now db = Inr (j, db')"
  shows "\<exists>row t ec. parse_job_error err = Some ec \<and> writes db row (failed_row now ec d rt row) db'
      \<and> as_uuid i = Some (r_id row) \<and> as_uuid l = Some t \<and> r_token row = Some t
      \<and> (if ec = ErrCancelled then r_status row \<in> {Claimed, Running} else r_status row = Running)
      \<and> j = row_job (failed_row now ec d rt row)"
proof -
  note fenced = fenced_row_iff [OF jobdb_okD(1) [OF ok]]
  from run obtain ec row t where ec: "parse_job_error err = Some ec"
    and row: "row \<in> set (jd_jobs db)" "as_uuid i = Some (r_id row)" "as_uuid l = Some t"
      "r_token row = Some t"
    and rest: "(if ec = ErrCancelled then
         tx_bind (tx_guard (r_status row \<in> {Claimed, Running}) LookupError) (\<lambda>_.
         let new = clear_lease (row\<lparr>r_status := Cancelled, r_finished := Some now,
               r_err := Some ec, r_err_detail := d\<rparr>) in
         tx_bind (record_transition new (Some (r_status row)) Cancelled now (r_claimed_by row)
           (Some ec) d) (\<lambda>_. tx_bind (flush_row new) (\<lambda>_. to_domain new)))
       else
         tx_bind (tx_guard (r_status row = Running) LookupError) (\<lambda>_.
         tx_bind
           (if \<not> rt then
              let new = clear_lease (row\<lparr>r_status := Failed, r_finished := Some now,
                    r_err := Some ec, r_err_detail := d\<rparr>) in
              tx_bind (record_transition new (Some Running) Failed now (r_claimed_by row)
                (Some ec) d) (\<lambda>_. flush_row new)
            else requeue_or_dead_letter row now ec d)
           (\<lambda>_. tx_bind (locked_row i) to_domain))) db = Inr (j, db')"
    unfolding fail_job_def
    by (elim tx_bindE, simp only: tx_some_iff prod.inject, clarify, simp only: fenced, clarify) blast
  let ?new = "failed_row now ec d rt row"
  show ?thesis
  proof (cases "ec = ErrCancelled")
    case True
    have "r_status row \<in> {Claimed, Running}" and "j = row_job ?new"
      and "\<exists>h u. flush_row ?new (add_hist h db) = Inr (u, db')"
      using rest unfolding if_P [OF True] Let_def
      by (auto simp: tx_simps record_transition_iff failed_row_def True)
    moreover from this(3) have "writes db row ?new db'"
      using flush_writes [OF ok row(1) failed_row_id] by blast
    ultimately show ?thesis using ec row True by auto
  next
    case False
    obtain u db1 where st: "r_status row = Running"
      and mid: "(if \<not> rt then
              let new = clear_lease (row\<lparr>r_status := Failed, r_finished := Some now,
                    r_err := Some ec, r_err_detail := d\<rparr>) in
              tx_bind (record_transition new (Some Running) Failed now (r_claimed_by row)
                (Some ec) d) (\<lambda>_. flush_row new)
            else requeue_or_dead_letter row now ec d) db = Inr (u, db1)"
      and fin: "tx_bind (locked_row i) to_domain db1 = Inr (j, db')"
      using rest unfolding if_not_P [OF False] by (auto simp: tx_bind_iff tx_guard_iff)
    have w: "writes db row ?new db1"
    proof (cases rt)
      case True
      with mid have "requeue_or_dead_letter row now ec d db = Inr (u, db1)" by simp
      from requeue_effect [OF ok row(1) this] show ?thesis
        using False True by (simp add: failed_row_def)
    next
      case rt: False
      have "\<exists>h u. flush_row ?new (add_hist h db) = Inr (u, db1)"
        using mid rt False by (auto simp: failed_row_def Let_def tx_simps record_transition_iff)
      then show ?thesis using flush_writes [OF ok row(1) failed_row_id] by blast
    qed
    have d1: "distinct (map r_id (jd_jobs db1))"
      using w jobdb_okD(1) [OF ok] by (simp add: writes_def)
    obtain row' where row': "row' \<in> set (jd_jobs db1)" "as_uuid i = Some (r_id row')"
      and "j = row_job row'" and "db' = db1"
      using fin by (auto simp: tx_bind_iff locked_row_iff [OF d1] to_domain_iff)
    have "row' = ?new"
      using inj_onD [of r_id "set (jd_jobs db1)" row' ?new] d1 row' writes_in [OF w] row(2)
      by (simp add: distinct_map)
    with \<open>j = row_job row'\<close> \<open>db' = db1\<close> w ec row st False show ?thesis by auto
  qed
qed

definition cancelled_row :: "instant \<Rightarrow> job_row \<Rightarrow> job_row" where
  "cancelled_row now row =
     (if r_status row = Queued then
        row\<lparr>r_status := Cancelled, r_cancel := Some now, r_finished := Some now\<rparr>
      else row\<lparr>r_cancel := Some now\<rparr>)"

lemma cancelled_row_id [simp]: "r_id (cancelled_row now row) = r_id row"
  by (simp add: cancelled_row_def)

lemma cancel_effect:
  assumes ok: "jobdb_ok db" and run: "request_cancel i now db = Inr (j, db')"
  shows "\<exists>row. writes db row (cancelled_row now row) db' \<and> as_uuid i = Some (r_id row)
      \<and> r_status row \<in> {Queued, Claimed, Running} \<and> j = row_job (cancelled_row now row)"
proof -
  note locked = locked_row_iff [OF jobdb_okD(1) [OF ok]]
  from run obtain row where row: "row \<in> set (jd_jobs db)" "as_uuid i = Some (r_id row)"
    and rest: "(if r_status row = Queued then
       let new = row\<lparr>r_status := Cancelled, r_cancel := Some now, r_finished := Some now\<rparr> in
       tx_bind (record_transition new (Some Queued) Cancelled now None None None)
         (\<lambda>_. tx_bind (flush_row new) (\<lambda>_. to_domain new))
     else if r_status row \<in> {Claimed, Running} then
       let new = row\<lparr>r_cancel := Some now\<rparr> in
       tx_bind (flush_row new) (\<lambda>_. to_domain new)
     else tx_raise LookupError) db = Inr (j, db')"
    unfolding request_cancel_def
    by (elim tx_bindE) (simp only: locked prod.inject, blast)
  have "r_status row \<in> {Queued, Claimed, Running}" and "j = row_job (cancelled_row now row)"
    and "(\<exists>h u. flush_row (cancelled_row now row) (add_hist h db) = Inr (u, db'))
      \<or> (\<exists>u. flush_row (cancelled_row now row) db = Inr (u, db'))"
    using rest by (auto simp: Let_def tx_simps record_transition_iff cancelled_row_def split: if_splits)
  moreover from this(3) have "writes db row (cancelled_row now row) db'"
    using flush_writes [OF ok row(1) cancelled_row_id] by blast
  ultimately show ?thesis using row by blast
qed

definition retried_row :: "instant \<Rightarrow> job_row \<Rightarrow> job_row" where
  "retried_row now row = row\<lparr>r_status := Queued, r_attempts := 0, r_available := now,
     r_finished := None, r_err := None, r_err_detail := None, r_cancel := None\<rparr>"

lemma retry_effect:
  assumes ok: "jobdb_ok db" and run: "retry_dead_letter i now db = Inr (j, db')"
  shows "\<exists>row. writes db row (retried_row now row) db' \<and> as_uuid i = Some (r_id row)
      \<and> r_status row = DeadLetter \<and> j = row_job (retried_row now row)"
proof -
  from run obtain row where row: "row \<in> set (jd_jobs db)" "as_uuid i = Some (r_id row)"
    "r_status row = DeadLetter" "j = row_job (retried_row now row)"
    and fl: "\<exists>h u. flush_row (retried_row now row) (add_hist h db) = Inr (u, db')"
    unfolding retry_dead_letter_def Let_def retried_row_def [symmetric]
    by (auto simp: tx_simps locked_row_iff [OF jobdb_okD(1) [OF ok]] record_transition_iff)
  have "r_id (retried_row now row) = r_id row" by (simp add: retried_row_def)
  with fl have "writes db row (retried_row now row) db'"
    using flush_writes [OF ok row(1)] by blast
  with row show ?thesis by blast
qed

lemma claim_effect:
  assumes ok: "jobdb_ok db" and run: "claim skip token w caps ls now db = Inr (r, db')"
  shows "(r = None \<and> db' = db \<and> filter (claimable caps now skip) (jd_jobs db) = [])
    \<or> (\<exists>row. first_by claim_key (filter (claimable caps now skip) (jd_jobs db)) = Some row
        \<and> nonempty w \<and> writes db row (claimed_row token w ls now row) db'
        \<and> r = Some \<lparr>jl_job = row_job (claimed_row token w ls now row), jl_token = token,
                     jl_expires = now + seconds ls\<rparr>)"
proof (cases "first_by claim_key (filter (claimable caps now skip) (jd_jobs db))")
  case None
  then have "r = None" "db' = db"
    using run None unfolding claim_unfold by (auto simp: tx_bind_def tx_get_def tx_ret_def)
  with None show ?thesis by (simp del: filter_empty_conv)
next
  case (Some row)
  then have row: "row \<in> set (jd_jobs db)" by (blast dest: claimable_in)
  have "nonempty w" and "r = Some \<lparr>jl_job = row_job (claimed_row token w ls now row), jl_token = token,
                     jl_expires = now + seconds ls\<rparr>"
    and fl: "\<exists>h u. flush_row (claimed_row token w ls now row) (add_hist h db) = Inr (u, db')"
    using run Some unfolding claim_unfold
    by (auto simp: tx_simps record_transition_iff)
  moreover have "r_id (claimed_row token w ls now row) = r_id row" by (simp add: claimed_row_def)
  with fl have "writes db row (claimed_row token w ls now row) db'"
    using flush_writes [OF ok row] by blast
  ultimately show ?thesis using Some by blast
qed

lemma reap_effect:
  assumes ok: "jobdb_ok db" and run: "reap_expired skip now limit db = Inr (js, db')"
  shows "jd_jobs db' = map (requeue_all now (map r_id (reap_pick skip now limit db))) (jd_jobs db)"
  using reap_runs [OF ok, of skip now limit] run by auto

end
