(* ===== verification/Job_Protocol.thy ===== *)
theory Job_Protocol
  imports Job_Effects
begin

text \<open>
  The job queue as a transition system. A \<open>job_call\<close> is one call of a queue method by any client
  (the control plane, a worker, the lease reaper, an operator), and \<open>job_reachable\<close> holds of the
  states committed calls lead to. The abstract protocol \<open>lease_step\<close> keeps of a job only its
  status and its lease token; every call refines it, and what a stale worker can do and what
  becomes of a finished job are proved on the protocol.
\<close>

section \<open>Calls and reachable states\<close>

datatype job_call =
    CallEnqueue instant job "instant option"
  | CallClaim "nat list" nat string "string list" int instant
  | CallStart ident ident instant
  | CallHeartbeat ident ident int instant
  | CallComplete ident ident "((string \<times> json) list) option" "string option" "string option" instant
  | CallFail ident ident string "string option" bool instant
  | CallCancel ident instant
  | CallReap "nat list" instant nat
  | CallRetry ident instant

definition tx_void :: "('s, 'a) tx \<Rightarrow> ('s, unit) tx" where
  "tx_void m = tx_bind m (\<lambda>_. tx_ret ())"

fun run_call :: "catalog \<Rightarrow> job_call \<Rightarrow> (jobdb, unit) tx" where
  "run_call cat (CallEnqueue created j now) = tx_void (enqueue cat created j now)"
| "run_call cat (CallClaim skip token w caps ls now) = tx_void (claim skip token w caps ls now)"
| "run_call cat (CallStart i l now) = start_job i l now"
| "run_call cat (CallHeartbeat i l ls now) = tx_void (heartbeat i l ls now)"
| "run_call cat (CallComplete i l rj rr lr now) = complete_job i l rj rr lr now"
| "run_call cat (CallFail i l err d rt now) = tx_void (fail_job i l err d rt now)"
| "run_call cat (CallCancel i now) = tx_void (request_cancel i now)"
| "run_call cat (CallReap skip now limit) = tx_void (reap_expired skip now limit)"
| "run_call cat (CallRetry i now) = tx_void (retry_dead_letter i now)"

text \<open>A job can only be passed as a value that its constructor accepted.\<close>

fun valid_call :: "job_call \<Rightarrow> bool" where
  "valid_call (CallEnqueue _ j _) = (job_post_init j = Inr ())"
| "valid_call _ = True"

fun call_token :: "job_call \<Rightarrow> nat option" where
  "call_token (CallClaim _ token _ _ _ _) = Some token"
| "call_token _ = None"

text \<open>A call that raises is rolled back; the next call starts from the state before it.\<close>

definition commit_call :: "catalog \<Rightarrow> job_call \<Rightarrow> jobdb \<Rightarrow> jobdb" where
  "commit_call cat c db = (case run_call cat c db of Inl _ \<Rightarrow> db | Inr (_, db') \<Rightarrow> db')"

definition run_calls :: "catalog \<Rightarrow> job_call list \<Rightarrow> jobdb \<Rightarrow> jobdb" where
  "run_calls cat cs db = fold (commit_call cat) cs db"

inductive job_reachable :: "catalog \<Rightarrow> jobdb \<Rightarrow> bool" for cat where
  init: "job_reachable cat empty_jobdb"
| call: "job_reachable cat db \<Longrightarrow> valid_call c \<Longrightarrow> run_call cat c db = Inr ((), db') \<Longrightarrow> job_reachable cat db'"

lemma tx_void_iff: "tx_void m s = Inr (u, s') \<longleftrightarrow> (\<exists>x. m s = Inr (x, s'))"
  by (auto simp: tx_void_def tx_simps)

lemma tx_void_raises: "tx_void m s = Inl e \<longleftrightarrow> m s = Inl e"
  by (auto simp: tx_void_def tx_raises)

lemma job_safe_void: "job_safe m \<Longrightarrow> job_safe (tx_void m)"
  by (rule job_safeI) (auto simp: tx_void_iff tx_void_raises dest: job_safe_raises
      job_safe_keeps tx_keepsD)

lemma run_call_safe: "\<nexists>created j now. c = CallEnqueue created j now \<Longrightarrow> job_safe (run_call cat c)"
  by (cases c) (auto intro: job_safe_void claim_safe start_job_safe heartbeat_safe complete_job_safe
      fail_job_safe request_cancel_safe reap_safe retry_dead_letter_safe)

lemma run_call_ok:
  assumes ok: "jobdb_ok db" and v: "valid_call c" and run: "run_call cat c db = Inr (u, db')"
  shows "jobdb_ok db'"
proof (cases "\<exists>created j now. c = CallEnqueue created j now")
  case True
  then obtain created j now where c: "c = CallEnqueue created j now" by blast
  then obtain j' where "enqueue cat created j now db = Inr (j', db')"
    using run by (auto simp: tx_void_iff)
  from enqueue_ok [OF ok this] show ?thesis using v by (simp add: c)
next
  case False
  from tx_keepsD [OF job_safe_keeps [OF run_call_safe [OF False]] ok run] show ?thesis .
qed

lemma run_call_raises:
  assumes ok: "jobdb_ok db" and v: "valid_call c" and run: "run_call cat c db = Inl e"
  shows "e \<in> {LookupError, ValueError}
    \<or> (\<exists>created j now. c = CallEnqueue created j now
        \<and> e \<in> {IntegrityError ''pk_jobs'', IntegrityError ''uq_jobs_idempotency_key''})"
proof (cases "\<exists>created j now. c = CallEnqueue created j now")
  case True
  then obtain created j now where c: "c = CallEnqueue created j now" by blast
  then have "enqueue cat created j now db = Inl e" using run by (simp add: tx_void_raises)
  from enqueue_raises [OF this] show ?thesis using v c by auto
next
  case False
  from job_safe_raises [OF run_call_safe [OF False] ok run] show ?thesis by auto
qed

lemma empty_jobdb_ok: "jobdb_ok empty_jobdb"
  by (simp add: jobdb_ok_def empty_jobdb_def)

lemma reachable_ok: "job_reachable cat db \<Longrightarrow> jobdb_ok db"
  by (induction rule: job_reachable.induct) (auto intro: empty_jobdb_ok run_call_ok)

lemma commit_call_ok: "jobdb_ok db \<Longrightarrow> valid_call c \<Longrightarrow> jobdb_ok (commit_call cat c db)"
  by (auto simp: commit_call_def split: sum.splits dest: run_call_ok)

lemma run_calls_ok: "jobdb_ok db \<Longrightarrow> list_all valid_call cs \<Longrightarrow> jobdb_ok (run_calls cat cs db)"
  by (induction cs arbitrary: db) (auto simp: run_calls_def commit_call_ok)

section \<open>The lease protocol\<close>

type_synonym leases = "nat \<rightharpoonup> job_status \<times> nat option"

definition lease_view :: "jobdb \<Rightarrow> leases" where
  "lease_view db k = map_option (\<lambda>r. (r_status r, r_token r)) (find_row r_id k (jd_jobs db))"

inductive lease_step :: "nat option \<Rightarrow> leases \<Rightarrow> leases \<Rightarrow> bool" for fresh where
  enqueue: "m k = None \<Longrightarrow> lease_step fresh m (m(k \<mapsto> (Queued, None)))"
| claim: "m k = Some (Queued, None) \<Longrightarrow> fresh = Some t \<Longrightarrow> lease_step fresh m (m(k \<mapsto> (Claimed, Some t)))"
| start: "m k = Some (Claimed, Some t) \<Longrightarrow> lease_step fresh m (m(k \<mapsto> (Running, Some t)))"
| release: "m k = Some (s, Some t) \<Longrightarrow> legal_job_transition s s' \<Longrightarrow> \<not> leased_status s'
    \<Longrightarrow> lease_step fresh m (m(k \<mapsto> (s', None)))"
| withdraw: "m k = Some (Queued, None) \<Longrightarrow> lease_step fresh m (m(k \<mapsto> (Cancelled, None)))"
| retry: "m k = Some (DeadLetter, None) \<Longrightarrow> lease_step fresh m (m(k \<mapsto> (Queued, None)))"
| stay: "lease_step fresh m m"

inductive_cases lease_stepE: "lease_step fresh m m'"

lemma lease_step_token:
  assumes "lease_step fresh m m'" and "fresh \<noteq> Some t" and "\<forall>k s. m k \<noteq> Some (s, Some t)"
  shows "\<forall>k s. m' k \<noteq> Some (s, Some t)"
  using assms by (cases rule: lease_step.cases) auto

lemma lease_step_frozen:
  assumes "lease_step fresh m m'" and "m k = Some (s, x)" and "frozen_job_status s"
  shows "m' k = m k"
  using assms job_lc.final_stuck
  by (cases rule: lease_step.cases) (auto simp: frozen_job_status_def split: if_splits)

text \<open>A token and the key it was handed out with stay together: no second job gets it.\<close>

lemma lease_step_dom: "lease_step fresh m m' \<Longrightarrow> dom m \<subseteq> dom m'"
  by (cases rule: lease_step.cases) auto

lemma steps_token:
  "(lease_step fresh)\<^sup>*\<^sup>* m m' \<Longrightarrow> fresh \<noteq> Some t \<Longrightarrow> \<forall>k s. m k \<noteq> Some (s, Some t)
     \<Longrightarrow> \<forall>k s. m' k \<noteq> Some (s, Some t)"
  by (induction rule: rtranclp_induct) (auto dest: lease_step_token)

lemma steps_frozen:
  "(lease_step fresh)\<^sup>*\<^sup>* m m' \<Longrightarrow> m k = Some (s, x) \<Longrightarrow> frozen_job_status s \<Longrightarrow> m' k = m k"
  by (induction rule: rtranclp_induct) (auto dest: lease_step_frozen)

section \<open>Every call refines the protocol\<close>

lemma lease_view_row:
  "jobdb_ok db \<Longrightarrow> r \<in> set (jd_jobs db) \<Longrightarrow> lease_view db (r_id r) = Some (r_status r, r_token r)"
  using find_row_eq_Some_iff [OF jobdb_okD(1), of db "r_id r" r] by (simp add: lease_view_def)

lemma lease_view_writes:
  assumes "writes db old new db'"
  shows "lease_view db' = (lease_view db)(r_id old \<mapsto> (r_status new, r_token new))"
  using assms by (auto simp: lease_view_def writes_def find_row_put_row fun_eq_iff)

lemma lease_view_append:
  assumes "r_id row \<notin> r_id ` set (jd_jobs db)"
  shows "lease_view \<lparr>jd_jobs = jd_jobs db @ [row], jd_hist = h\<rparr>
      = (lease_view db)(r_id row \<mapsto> (r_status row, r_token row))"
proof
  fix k
  have "find_row r_id (r_id row) (jd_jobs db) = None"
    unfolding find_row_None_iff by (rule not_in_keys [OF assms])
  then show "lease_view \<lparr>jd_jobs = jd_jobs db @ [row], jd_hist = h\<rparr> k
      = ((lease_view db)(r_id row \<mapsto> (r_status row, r_token row))) k"
    by (auto simp: lease_view_def find_row_append find_row_Cons split: option.splits)
qed

text \<open>A leased row that gives up its lease makes a \<open>release\<close> step.\<close>

lemma release_refines:
  assumes ok: "jobdb_ok db" and w: "writes db row new db'"
    and st: "leased_status (r_status row)" and free: "r_token new = None"
    and leg: "legal_job_transition (r_status row) (r_status new)" and nl: "\<not> leased_status (r_status new)"
  shows "lease_step fresh (lease_view db) (lease_view db')"
proof -
  have row: "row \<in> set (jd_jobs db)" using w by (simp add: writes_def)
  obtain t where "r_token row = Some t"
    using job_row_ok_facts(5) [OF jobdb_okD(3) [OF ok row]] st by auto
  then have "lease_view db (r_id row) = Some (r_status row, Some t)"
    using lease_view_row [OF ok row] by simp
  from lease_step.release [where m = "lease_view db" and k = "r_id row", OF this leg nl] show ?thesis
    by (simp add: lease_view_writes [OF w] free)
qed

lemma queued_token:
  assumes "jobdb_ok db" and "row \<in> set (jd_jobs db)" and "\<not> leased_status (r_status row)"
  shows "lease_view db (r_id row) = Some (r_status row, None)"
  using lease_view_row [OF assms(1,2)] job_row_ok_facts(5) [OF jobdb_okD(3) [OF assms(1,2)]] assms(3)
  by simp

lemma reap_refines_all:
  assumes "\<And>k. k \<in> set ids \<Longrightarrow> \<exists>s t. m k = Some (s, Some t) \<and> legal_job_transition s (f k) \<and> \<not> leased_status (f k)"
    and "distinct ids"
  shows "(lease_step fresh)\<^sup>*\<^sup>* m (\<lambda>k. if k \<in> set ids then Some (f k, None) else m k)"
  using assms
proof (induction ids arbitrary: m)
  case Nil
  then show ?case by simp
next
  case (Cons a ids)
  obtain s t where "m a = Some (s, Some t)" "legal_job_transition s (f a)" "\<not> leased_status (f a)"
    using Cons.prems(1) by force
  from lease_step.release [where m = m and k = a, OF this] have step: "lease_step fresh m (m(a \<mapsto> (f a, None)))" .
  have "(lease_step fresh)\<^sup>*\<^sup>* (m(a \<mapsto> (f a, None)))
      (\<lambda>k. if k \<in> set ids then Some (f k, None) else (m(a \<mapsto> (f a, None))) k)"
    using Cons.prems by (intro Cons.IH) auto
  also have "(\<lambda>k. if k \<in> set ids then Some (f k, None) else (m(a \<mapsto> (f a, None))) k)
      = (\<lambda>k. if k \<in> set (a # ids) then Some (f k, None) else m k)"
    by auto
  finally show ?case using step by (meson converse_rtranclp_into_rtranclp)
qed

lemma reap_refines:
  assumes ok: "jobdb_ok db" and run: "reap_expired skip now limit db = Inr (js, db')"
  shows "(lease_step fresh)\<^sup>*\<^sup>* (lease_view db) (lease_view db')"
proof -
  let ?ids = "map r_id (reap_pick skip now limit db)"
  define f where "f k = (case find_row r_id k (jd_jobs db) of Some r \<Rightarrow>
      r_status (requeued_row now LeaseExpired None r) | None \<Rightarrow> Queued)" for k
  note eff = reap_effect [OF ok run]
  have find: "find_row r_id k (map (requeue_all now ?ids) rows)
      = map_option (requeue_all now ?ids) (find_row r_id k rows)" for k rows
    by (induction rows) (auto simp: find_row_Cons requeue_all_def)
  have view: "lease_view db' k = (if k \<in> set ?ids then Some (f k, None) else lease_view db k)" for k
  proof (cases "k \<in> set ?ids")
    case True
    then obtain r where r: "r \<in> set (reap_pick skip now limit db)" "r_id r = k" by auto
    then have "find_row r_id k (jd_jobs db) = Some r"
      using reap_pick_set [OF r(1)] by (simp add: find_row_eq_Some_iff jobdb_okD(1) [OF ok])
    moreover have "r_token (requeued_row now LeaseExpired None r) = None"
      using requeued_row_lease by (simp add: lease_free_def)
    ultimately show ?thesis
      using True r(2) by (simp add: lease_view_def eff find f_def requeue_all_def del: set_map)
  next
    case False
    then show ?thesis
      by (cases "find_row r_id k (jd_jobs db)")
        (auto simp: lease_view_def eff find requeue_all_def simp del: set_map dest: find_row_SomeD)
  qed
  have "(lease_step fresh)\<^sup>*\<^sup>* (lease_view db)
      (\<lambda>k. if k \<in> set ?ids then Some (f k, None) else lease_view db k)"
  proof (rule reap_refines_all)
    show "distinct ?ids" by (rule reap_pick_distinct [OF ok])
    fix k assume "k \<in> set ?ids"
    then obtain r where r: "r \<in> set (reap_pick skip now limit db)" "r_id r = k" by auto
    then have row: "r \<in> set (jd_jobs db)" and st: "r_status r \<in> {Claimed, Running}"
      using reap_pick_set [OF r(1)] by (auto simp: reapable_def)
    have "find_row r_id k (jd_jobs db) = Some r"
      using row r(2) by (simp add: find_row_eq_Some_iff jobdb_okD(1) [OF ok])
    then have f: "f k = r_status (requeued_row now LeaseExpired None r)" by (simp add: f_def)
    obtain t where "r_token r = Some t"
      using job_row_ok_facts(5) [OF jobdb_okD(3) [OF ok row]] st by (auto simp: leased_status_def)
    then have "lease_view db k = Some (r_status r, Some t)"
      using lease_view_row [OF ok row] r(2) by simp
    then show "\<exists>s t. lease_view db k = Some (s, Some t) \<and> legal_job_transition s (f k)
        \<and> \<not> leased_status (f k)"
      using st by (auto simp: f requeued_row_status legal_job_transition_def leased_status_def)
  qed
  also have "(\<lambda>k. if k \<in> set ?ids then Some (f k, None) else lease_view db k) = lease_view db'"
    by (rule ext) (simp only: view)
  finally show ?thesis .
qed

lemma fail_refines:
  assumes ok: "jobdb_ok db" and run: "fail_job i l err d rt now db = Inr (j, db')"
  shows "lease_step fresh (lease_view db) (lease_view db')"
proof -
  from fail_effect [OF ok run] obtain row ec where w: "writes db row (failed_row now ec d rt row) db'"
    and st: "if ec = ErrCancelled then r_status row \<in> {Claimed, Running} else r_status row = Running"
    by blast
  show ?thesis
  proof (rule release_refines [OF ok w])
    show "r_token (failed_row now ec d rt row) = None"
      using failed_row_lease by (simp add: lease_free_def)
    show "leased_status (r_status row)" using st by (auto simp: leased_status_def split: if_splits)
    show "legal_job_transition (r_status row) (r_status (failed_row now ec d rt row))"
      "\<not> leased_status (r_status (failed_row now ec d rt row))"
      using st by (auto simp: failed_row_def requeued_row_status clear_lease_def
          legal_job_transition_def leased_status_def split: if_splits)
  qed
qed

lemma call_refines:
  assumes ok: "jobdb_ok db" and v: "valid_call c" and run: "run_call cat c db = Inr (u, db')"
  shows "(lease_step (call_token c))\<^sup>*\<^sup>* (lease_view db) (lease_view db')"
proof (cases c)
  case (CallEnqueue created j now)
  then obtain j' where "enqueue cat created j now db = Inr (j', db')" and "job_post_init j = Inr ()"
    using run v by (auto simp: tx_void_iff)
  from enqueue_effect [OF this] obtain row t where row: "r_id row \<notin> r_id ` set (jd_jobs db)"
    "r_status row = Queued" "r_token row = None"
    and db': "db' = \<lparr>jd_jobs = jd_jobs db @ [row], jd_hist = jd_hist db @ [t]\<rparr>" by blast
  have "lease_view db (r_id row) = None"
    using not_in_keys [OF row(1)] by (simp add: lease_view_def find_row_None_iff)
  from lease_step.enqueue [where m = "lease_view db" and k = "r_id row", OF this]
  show ?thesis by (auto simp: db' lease_view_append [OF row(1)] row(2,3))
next
  case (CallClaim skip token w caps ls now)
  then obtain r where "claim skip token w caps ls now db = Inr (r, db')"
    using run by (auto simp: tx_void_iff)
  from claim_effect [OF ok this] consider "db' = db"
    | row where "first_by claim_key (filter (claimable caps now skip) (jd_jobs db)) = Some row"
        "writes db row (claimed_row token w ls now row) db'" by blast
  then show ?thesis
  proof cases
    case 1
    then show ?thesis by simp
  next
    case (2 row)
    from claimable_in [OF 2(1)] have row: "row \<in> set (jd_jobs db)" "r_status row = Queued"
      by (simp_all add: claimable_def)
    have "lease_view db (r_id row) = Some (Queued, None)"
      using queued_token [OF ok row(1)] row(2) by (simp add: leased_status_def)
    from lease_step.claim [where m = "lease_view db" and k = "r_id row", OF this refl]
    show ?thesis by (auto simp: lease_view_writes [OF 2(2)] claimed_row_def CallClaim)
  qed
next
  case (CallStart i l now)
  then have "start_job i l now db = Inr (u, db')" using run by simp
  from start_effect [OF ok this] obtain row t
    where w: "writes db row (row\<lparr>r_status := Running, r_started := Some now\<rparr>) db'"
      and row: "r_token row = Some t" "r_status row = Claimed" by blast
  have "lease_view db (r_id row) = Some (Claimed, Some t)"
    using lease_view_row [OF ok, of row] w row by (simp add: writes_def)
  from lease_step.start [where m = "lease_view db" and k = "r_id row", OF this]
  show ?thesis by (auto simp: lease_view_writes [OF w] row)
next
  case (CallHeartbeat i l ls now)
  then obtain b where "heartbeat i l ls now db = Inr (b, db')" using run by (auto simp: tx_void_iff)
  from heartbeat_effect [OF ok this] obtain row
    where w: "writes db row (row\<lparr>r_lease := Some (now + seconds ls), r_heartbeat := Some now\<rparr>) db'"
    by blast
  have "lease_view db (r_id row) = Some (r_status row, r_token row)"
    using lease_view_row [OF ok, of row] w by (simp add: writes_def)
  then have "lease_view db' = lease_view db" by (auto simp: lease_view_writes [OF w])
  then show ?thesis by simp
next
  case (CallComplete i l rj rr lr now)
  then have "complete_job i l rj rr lr now db = Inr (u, db')" using run by simp
  from complete_effect [OF ok this] obtain row
    where w: "writes db row (clear_lease (row\<lparr>r_status := Succeeded, r_finished := Some now,
           r_result_json := rj, r_result_ref := rr, r_log_ref := lr\<rparr>)) db'" and st: "r_status row = Running"
    by blast
  have "lease_step (call_token c) (lease_view db) (lease_view db')"
    by (rule release_refines [OF ok w])
      (simp_all add: st clear_lease_def leased_status_def legal_job_transition_def)
  then show ?thesis by blast
next
  case (CallFail i l err d rt now)
  then obtain j where "fail_job i l err d rt now db = Inr (j, db')" using run by (auto simp: tx_void_iff)
  from fail_refines [OF ok this] show ?thesis by blast
next
  case (CallCancel i now)
  then obtain j where "request_cancel i now db = Inr (j, db')" using run by (auto simp: tx_void_iff)
  from cancel_effect [OF ok this] obtain row where w: "writes db row (cancelled_row now row) db'" by blast
  have row: "row \<in> set (jd_jobs db)" using w by (simp add: writes_def)
  show ?thesis
  proof (cases "r_status row = Queued")
    case True
    then have q: "lease_view db (r_id row) = Some (Queued, None)"
      using queued_token [OF ok row] by (simp add: leased_status_def)
    then have "r_token row = None" using lease_view_row [OF ok row] by simp
    then show ?thesis
      using lease_step.withdraw [where m = "lease_view db" and k = "r_id row", OF q] True
      by (auto simp: lease_view_writes [OF w] cancelled_row_def)
  next
    case False
    then have "lease_view db' = lease_view db"
      using lease_view_row [OF ok row] by (auto simp: lease_view_writes [OF w] cancelled_row_def)
    then show ?thesis by simp
  qed
next
  case (CallReap skip now limit)
  then obtain js where "reap_expired skip now limit db = Inr (js, db')" using run by (auto simp: tx_void_iff)
  from reap_refines [OF ok this] show ?thesis .
next
  case (CallRetry i now)
  then obtain j where "retry_dead_letter i now db = Inr (j, db')" using run by (auto simp: tx_void_iff)
  from retry_effect [OF ok this] obtain row where w: "writes db row (retried_row now row) db'"
    and st: "r_status row = DeadLetter" by blast
  have row: "row \<in> set (jd_jobs db)" using w by (simp add: writes_def)
  have dl: "lease_view db (r_id row) = Some (DeadLetter, None)"
    using queued_token [OF ok row] st by (simp add: leased_status_def)
  then have "r_token row = None" using lease_view_row [OF ok row] by simp
  then show ?thesis
    using lease_step.retry [where m = "lease_view db" and k = "r_id row", OF dl]
    by (auto simp: lease_view_writes [OF w] retried_row_def)
qed

text \<open>Histories of calls, each with its own fresh token.\<close>

lemma commit_token:
  assumes "jobdb_ok db" and "valid_call c" and "call_token c \<noteq> Some t"
    and "\<forall>k s. lease_view db k \<noteq> Some (s, Some t)"
  shows "\<forall>k s. lease_view (commit_call cat c db) k \<noteq> Some (s, Some t)"
  using steps_token [OF call_refines [OF assms(1,2)] assms(3,4)] assms(4)
  by (auto simp: commit_call_def split: sum.splits)

lemma commit_frozen:
  assumes "jobdb_ok db" and "valid_call c" and "lease_view db k = Some (s, x)" and "frozen_job_status s"
  shows "lease_view (commit_call cat c db) k = lease_view db k"
  using steps_frozen [OF call_refines [OF assms(1,2)] assms(3,4)]
  by (auto simp: commit_call_def split: sum.splits)

lemma calls_token:
  "jobdb_ok db \<Longrightarrow> list_all valid_call cs \<Longrightarrow> \<forall>c \<in> set cs. call_token c \<noteq> Some t
    \<Longrightarrow> \<forall>k s. lease_view db k \<noteq> Some (s, Some t)
    \<Longrightarrow> \<forall>k s. lease_view (run_calls cat cs db) k \<noteq> Some (s, Some t)"
proof (induction cs arbitrary: db)
  case Nil
  then show ?case by (simp add: run_calls_def)
next
  case (Cons c cs)
  have "\<forall>k s. lease_view (run_calls cat cs (commit_call cat c db)) k \<noteq> Some (s, Some t)"
    by (rule Cons.IH) (use Cons.prems commit_call_ok commit_token in \<open>simp_all\<close>)
  then show ?case by (simp add: run_calls_def)
qed

lemma calls_frozen:
  "jobdb_ok db \<Longrightarrow> list_all valid_call cs \<Longrightarrow> lease_view db k = Some (s, x) \<Longrightarrow> frozen_job_status s
    \<Longrightarrow> lease_view (run_calls cat cs db) k = Some (s, x)"
proof (induction cs arbitrary: db)
  case Nil
  then show ?case by (simp add: run_calls_def)
next
  case (Cons c cs)
  have "lease_view (run_calls cat cs (commit_call cat c db)) k = Some (s, x)"
    by (rule Cons.IH) (use Cons.prems commit_call_ok commit_frozen in \<open>simp_all\<close>)
  then show ?case by (simp add: run_calls_def)
qed

end
