(* ===== verification/Job_Theorems.thy ===== *)
theory Job_Theorems
  imports Job_Protocol
begin

text \<open>
  The properties of the job queue, each with a run of the queue at which its hypotheses hold. The
  sample run enqueues one job and lets a worker claim it.
\<close>

section \<open>A sample run\<close>

definition sample_catalog :: catalog where
  "sample_catalog = \<lparr>cat_competitions = [''ctf''], cat_teams = [(''ctf'', ''red'')],
     cat_versions = [(''web'', 1)], cat_users = [''a@x''], cat_workers = [''w1'']\<rparr>"

definition sample_job :: job where
  "sample_job = \<lparr>j_id = Uid 1, j_type = LaunchInstance, j_idempotency_key = ''k'',
     j_available_at = 0, j_status = Queued, j_priority = 100, j_payload = [],
     j_required_capabilities = [''docker''], j_attempt_count = 0, j_max_attempts = 3,
     j_backoff_base_seconds = 10, j_claimed_by = None, j_heartbeat_at = None,
     j_lease_expires_at = None, j_cancel_requested_at = None, j_started_at = None,
     j_finished_at = None, j_error_class = None, j_error_detail = None, j_result_json = None,
     j_result_ref = None, j_log_ref = None, j_competition_id = Some ''ctf'',
     j_definition_slug = Some ''web'', j_version_no = Some 1\<rparr>"

definition enqueued_db :: jobdb where
  "enqueued_db = run_calls sample_catalog [CallEnqueue 0 sample_job None] empty_jobdb"

definition claimed_db :: jobdb where
  "claimed_db = run_calls sample_catalog [CallEnqueue 0 sample_job None,
     CallClaim [] 7 ''w1'' [''docker''] 60 5] empty_jobdb"

definition running_db :: jobdb where
  "running_db = run_calls sample_catalog [CallEnqueue 0 sample_job None,
     CallClaim [] 7 ''w1'' [''docker''] 60 5, CallStart (Uid 1) (Uid 7) 6] empty_jobdb"

definition finished_db :: jobdb where
  "finished_db = run_calls sample_catalog [CallEnqueue 0 sample_job None,
     CallClaim [] 7 ''w1'' [''docker''] 60 5, CallStart (Uid 1) (Uid 7) 6,
     CallComplete (Uid 1) (Uid 7) None None None 8] empty_jobdb"

lemma commit_reachable:
  "job_reachable cat db \<Longrightarrow> valid_call c \<Longrightarrow> job_reachable cat (commit_call cat c db)"
  by (auto simp: commit_call_def split: sum.splits intro: job_reachable.call)

lemma run_calls_reachable:
  "job_reachable cat db \<Longrightarrow> list_all valid_call cs \<Longrightarrow> job_reachable cat (run_calls cat cs db)"
  by (induction cs arbitrary: db) (auto simp: run_calls_def commit_reachable)

lemma sample_valid: "valid_call (CallEnqueue 0 sample_job None)"
  by code_simp

lemma sample_reachable:
  "job_reachable sample_catalog enqueued_db" "job_reachable sample_catalog claimed_db"
  "job_reachable sample_catalog running_db" "job_reachable sample_catalog finished_db"
  unfolding enqueued_db_def claimed_db_def running_db_def finished_db_def
  by (rule run_calls_reachable, rule job_reachable.init, use sample_valid in simp)+

lemma sample_rows:
  "map (\<lambda>r. (r_id r, r_status r, r_token r, r_attempts r)) (jd_jobs enqueued_db) = [(1, Queued, None, 0)]"
  "map (\<lambda>r. (r_id r, r_status r, r_token r, r_attempts r)) (jd_jobs claimed_db) = [(1, Claimed, Some 7, 1)]"
  "map (\<lambda>r. (r_id r, r_status r, r_token r, r_attempts r)) (jd_jobs running_db) = [(1, Running, Some 7, 1)]"
  "map (\<lambda>r. (r_id r, r_status r, r_token r, r_attempts r)) (jd_jobs finished_db) = [(1, Succeeded, None, 1)]"
  by code_simp+

section \<open>Reachable states\<close>

text \<open>
  C1. Every state the queue's calls can reach satisfies the invariant: ids and idempotency keys are
  unique, every row satisfies the CHECK constraints and reads back as a valid \<open>Job\<close>, a lease is
  present exactly while claimed or running, a queued row has budget left and no cancel request, and
  the recorded transitions of every job are a legal path from its enqueue to its present status.
\<close>

theorem job_reachable_invariant: "job_reachable cat db \<Longrightarrow> jobdb_ok db"
  by (rule reachable_ok)

theorem job_reachable_invariant_witness: "jobdb_ok running_db \<and> jd_jobs running_db \<noteq> []"
  using job_reachable_invariant [OF sample_reachable(3)] sample_rows(3) by auto

text \<open>
  The plpgsql trigger and the domain's matrix agree: an update of a row passes
  \<open>job_transition_guard\<close> iff the immutable columns are unchanged and the status change is in
  \<open>LEGAL_JOB_TRANSITIONS\<close>, or the status is unchanged and not terminal.
\<close>

theorem job_guard_is_domain_matrix:
  "job_transition_guard old new \<longleftrightarrow>
     immutable_cols old = immutable_cols new \<and>
     (if r_status new = r_status old then \<not> terminal_job_status (r_status old)
      else legal_job_transition (r_status old) (r_status new))"
  by (rule guard_iff)


lemma duplicate_enqueue:
  "run_call sample_catalog (CallEnqueue 9 (sample_job\<lparr>j_id := Uid 2\<rparr>) None) enqueued_db
     = Inl (IntegrityError ''uq_jobs_idempotency_key'')"
  by code_simp


section \<open>Leases fence stale workers\<close>

text \<open>
  C5. Every call of the queue is a run of the abstract lease protocol: tokens appear only by a
  claim of a queued job, disappear when the lease is given up along the matrix, and are never
  handed on.
\<close>

theorem job_calls_refine_lease_protocol:
  assumes "job_reachable cat db" and "valid_call c" and "run_call cat c db = Inr (u, db')"
  shows "(lease_step (call_token c))\<^sup>*\<^sup>* (lease_view db) (lease_view db')"
  by (rule call_refines [OF reachable_ok [OF assms(1)] assms(2,3)])

lemma sample_start: "\<exists>db'. run_call sample_catalog (CallStart (Uid 1) (Uid 7) 6) claimed_db = Inr ((), db')
    \<and> map (\<lambda>r. (r_status r, r_token r)) (jd_jobs db') = [(Running, Some 7)]"
proof -
  have "(case run_call sample_catalog (CallStart (Uid 1) (Uid 7) 6) claimed_db of Inl _ \<Rightarrow> False
      | Inr (_, db') \<Rightarrow> map (\<lambda>r. (r_status r, r_token r)) (jd_jobs db') = [(Running, Some 7)])"
    by code_simp
  then show ?thesis by (auto split: sum.splits)
qed

theorem job_calls_refine_lease_protocol_witness:
  "\<exists>db'. run_call sample_catalog (CallStart (Uid 1) (Uid 7) 6) claimed_db = Inr ((), db')
     \<and> (lease_step None)\<^sup>*\<^sup>* (lease_view claimed_db) (lease_view db')"
proof -
  from sample_start obtain db'
    where run: "run_call sample_catalog (CallStart (Uid 1) (Uid 7) 6) claimed_db = Inr ((), db')" by blast
  have v: "valid_call (CallStart (Uid 1) (Uid 7) 6)" by simp
  from job_calls_refine_lease_protocol [OF sample_reachable(2) v run] run show ?thesis by auto
qed

text \<open>
  A worker whose token no row carries any more (its lease was reaped, completed or cancelled) can
  do nothing, however the queue moves on.
\<close>

lemma fenced_out:
  assumes "\<forall>k s. lease_view db k \<noteq> Some (s, Some t)" and ok: "jobdb_ok db"
  shows "fenced_row i (Uid t) db = Inl LookupError"
proof (cases "fenced_row i (Uid t) db")
  case (Inl e)
  then show ?thesis using fenced_row_raises by blast
next
  case (Inr p)
  then obtain row db' where "fenced_row i (Uid t) db = Inr (row, db')" by (cases p) auto
  then have row: "row \<in> set (jd_jobs db)" "r_token row = Some t"
    by (auto simp: fenced_row_iff [OF jobdb_okD(1) [OF ok]])
  from lease_view_row [OF ok row(1)] row(2) assms(1) show ?thesis by simp
qed

lemma no_token_view:
  assumes "\<forall>r \<in> set (jd_jobs db). r_token r \<noteq> Some t"
  shows "\<forall>k s. lease_view db k \<noteq> Some (s, Some t)"
  using assms by (auto simp: lease_view_def dest: find_row_SomeD)

text \<open>
  C2. A stale worker is fenced out for good: once no row carries the token \<open>t\<close>, then after any
  further calls that do not draw \<open>t\<close> again, start, heartbeat, complete and fail with \<open>t\<close> raise
  \<open>LookupError\<close>, whatever job they name.
\<close>

theorem stale_lease_is_fenced_forever:
  assumes "job_reachable cat db" and "\<forall>r \<in> set (jd_jobs db). r_token r \<noteq> Some t"
    and "list_all valid_call cs" and "\<forall>c \<in> set cs. call_token c \<noteq> Some t"
  shows "start_job i (Uid t) now (run_calls cat cs db) = Inl LookupError
    \<and> heartbeat i (Uid t) ls now (run_calls cat cs db) = Inl LookupError
    \<and> complete_job i (Uid t) rj rr lr now (run_calls cat cs db) = Inl LookupError
    \<and> fail_job i (Uid t) (job_error_name ec) d rt now (run_calls cat cs db) = Inl LookupError"
proof -
  have "fenced_row i (Uid t) (run_calls cat cs db) = Inl LookupError"
    by (rule fenced_out [OF calls_token [OF reachable_ok [OF assms(1)] assms(3,4)
          no_token_view [OF assms(2)]] run_calls_ok [OF reachable_ok [OF assms(1)] assms(3)]])
  then show ?thesis
    by (simp add: start_job_def heartbeat_def complete_job_def fail_job_def tx_bind_def
        parse_job_error_name tx_some_def tx_ret_def)
qed

lemma finished_tokens: "\<forall>r \<in> set (jd_jobs finished_db). r_token r \<noteq> Some 7"
proof -
  have "list_all (\<lambda>r. r_token r = None) (jd_jobs finished_db)" by code_simp
  then show ?thesis by (auto simp: list_all_iff)
qed

theorem stale_lease_is_fenced_forever_witness:
  "start_job (Uid 1) (Uid 7) 9 (run_calls sample_catalog [CallReap [] 20 5] finished_db) = Inl LookupError"
  using stale_lease_is_fenced_forever [OF sample_reachable(4) finished_tokens, of "[CallReap [] 20 5]"]
  by simp

text \<open>
  A finished job stays finished: whatever calls follow, a succeeded, failed or cancelled job
  keeps its status and holds no lease.
\<close>

theorem finished_jobs_stay_finished:
  assumes "job_reachable cat db" and "r \<in> set (jd_jobs db)" and "r_status r \<in> {Succeeded, Failed, Cancelled}"
    and "list_all valid_call cs"
  shows "\<exists>r' \<in> set (jd_jobs (run_calls cat cs db)).
      r_id r' = r_id r \<and> r_status r' = r_status r \<and> r_token r' = None"
proof -
  have fz: "frozen_job_status (r_status r)" using assms(3) by (auto simp: frozen_job_status_def)
  have nl: "\<not> leased_status (r_status r)" using assms(3) by (auto simp: leased_status_def)
  note ok = reachable_ok [OF assms(1)]
  have "lease_view (run_calls cat cs db) (r_id r) = Some (r_status r, None)"
    by (rule calls_frozen [OF ok assms(4) queued_token [OF ok assms(2) nl] fz])
  then obtain r' where "find_row r_id (r_id r) (jd_jobs (run_calls cat cs db)) = Some r'"
    and "r_status r' = r_status r" "r_token r' = None"
    by (auto simp: lease_view_def)
  then show ?thesis by (auto dest: find_row_SomeD)
qed

theorem finished_jobs_stay_finished_witness:
  "\<exists>r \<in> set (jd_jobs (run_calls sample_catalog [CallRetry (Uid 1) 10] finished_db)). r_status r = Succeeded"
proof -
  obtain r where r: "jd_jobs finished_db = [r]" and st: "r_status r = Succeeded"
    using sample_rows(4) by (cases "jd_jobs finished_db") auto
  have "r \<in> set (jd_jobs finished_db)" "r_status r \<in> {Succeeded, Failed, Cancelled}"
    using r st by simp_all
  from finished_jobs_stay_finished [OF sample_reachable(4) this, of "[CallRetry (Uid 1) 10]"] st
  show ?thesis by auto
qed

section \<open>Claims\<close>

text \<open>What makes a job eligible, and the order in which eligible jobs are served, stated on their own.\<close>

definition eligible :: "string list \<Rightarrow> instant \<Rightarrow> nat list \<Rightarrow> job_row \<Rightarrow> bool" where
  "eligible caps now locked r \<longleftrightarrow> r_status r = Queued \<and> r_cancel r = None \<and> r_available r \<le> now
     \<and> (\<forall>c \<in> set (r_caps r). c \<in> set caps) \<and> r_id r \<notin> set locked"

definition served_before :: "job_row \<Rightarrow> job_row \<Rightarrow> bool" where
  "served_before r r' \<longleftrightarrow> r_priority r < r_priority r'
     \<or> r_priority r = r_priority r' \<and> (r_available r < r_available r'
       \<or> r_available r = r_available r' \<and> r_created r \<le> r_created r')"

lemma claimable_eligible: "claimable caps now locked r = eligible caps now locked r"
  by (auto simp: claimable_def eligible_def)

lemma claim_key_served: "claim_key r \<le> claim_key r' \<longleftrightarrow> served_before r r'"
  by (auto simp: claim_key_def served_before_def less_eq_prod_def)

text \<open>
  C4. What a claim hands out: nothing exactly when no queued, due, uncancelled job's capabilities
  fit the worker and is not locked by a rival; otherwise a job least in (priority, available_at,
  created_at) among those, now claimed by this worker with this token, its lease running for the
  requested time and one attempt more on its count.
\<close>

theorem claim_picks_the_first_eligible:
  assumes "job_reachable cat db" and "claim skip token w caps ls now db = Inr (res, db')"
  shows "(res = None \<longleftrightarrow> (\<forall>r \<in> set (jd_jobs db). \<not> eligible caps now skip r)) \<and> (res = None \<longrightarrow> db' = db)
    \<and> (\<forall>l. res = Some l \<longrightarrow> (\<exists>row \<in> set (jd_jobs db). eligible caps now skip row
        \<and> (\<forall>r \<in> set (jd_jobs db). eligible caps now skip r \<longrightarrow> served_before row r)
        \<and> (\<exists>new \<in> set (jd_jobs db'). r_id new = r_id row \<and> r_status new = Claimed
            \<and> r_claimed_by new = Some w \<and> r_token new = Some token
            \<and> r_lease new = Some (now + seconds ls) \<and> r_attempts new = r_attempts row + 1
            \<and> jl_job l = row_job new \<and> jl_token l = token)))"
proof (cases res)
  case None
  with claim_effect [OF reachable_ok [OF assms(1)] assms(2)] show ?thesis
    by (auto simp: filter_empty_conv claimable_eligible)
next
  case (Some l)
  with claim_effect [OF reachable_ok [OF assms(1)] assms(2)] obtain row
    where pick: "first_by claim_key (filter (claimable caps now skip) (jd_jobs db)) = Some row"
      and w: "writes db row (claimed_row token w ls now row) db'"
      and l: "l = \<lparr>jl_job = row_job (claimed_row token w ls now row), jl_token = token,
                     jl_expires = now + seconds ls\<rparr>" by auto
  have "claimed_row token w ls now row \<in> set (jd_jobs db')" by (rule writes_in [OF w])
  then have "\<exists>new \<in> set (jd_jobs db'). r_id new = r_id row \<and> r_status new = Claimed
            \<and> r_claimed_by new = Some w \<and> r_token new = Some token
            \<and> r_lease new = Some (now + seconds ls) \<and> r_attempts new = r_attempts row + 1
            \<and> jl_job l = row_job new \<and> jl_token l = token"
    by (rule rev_bexI) (simp add: claimed_row_def l)
  with first_by_SomeD [OF pick] show ?thesis by (auto simp: Some claimable_eligible claim_key_served)
qed

lemma sample_claim: "\<exists>l db'. claim [] 7 ''w1'' [''docker''] 60 5 enqueued_db = Inr (Some l, db') \<and> jl_token l = 7"
proof -
  have "(case claim [] 7 ''w1'' [''docker''] 60 5 enqueued_db of Inr (Some l, _) \<Rightarrow> jl_token l = 7 | _ \<Rightarrow> False)"
    by code_simp
  then show ?thesis by (auto split: sum.splits option.splits)
qed

theorem claim_picks_the_first_eligible_witness:
  "\<exists>r \<in> set (jd_jobs enqueued_db). eligible [''docker''] 5 [] r"
  using sample_claim claim_picks_the_first_eligible [OF sample_reachable(1)] by blast

text \<open>Workers polling one after the other, each in its own transaction.\<close>

fun claim_each ::
    "(nat list \<times> nat \<times> string \<times> string list \<times> int \<times> instant) list \<Rightarrow> (jobdb, job_lease list) tx" where
  "claim_each [] = tx_ret []"
| "claim_each ((skip, t, w, caps, ls, now) # qs) =
     tx_bind (claim skip t w caps ls now) (\<lambda>r. tx_bind (claim_each qs) (\<lambda>rest.
       tx_ret (case r of None \<Rightarrow> rest | Some l \<Rightarrow> l # rest)))"

definition queued_ids :: "jobdb \<Rightarrow> ident set" where
  "queued_ids db = (\<lambda>r. Uid (r_id r)) ` {r \<in> set (jd_jobs db). r_status r = Queued}"

lemma claim_takes_from_queue:
  assumes ok: "jobdb_ok db" and run: "claim skip t w caps ls now db = Inr (r, db1)"
  shows "queued_ids db1 = queued_ids db - (case r of None \<Rightarrow> {} | Some l \<Rightarrow> {j_id (jl_job l)})
    \<and> (\<forall>l. r = Some l \<longrightarrow> j_id (jl_job l) \<in> queued_ids db)"
proof (cases r)
  case None
  with claim_effect [OF ok run] show ?thesis by auto
next
  case (Some l)
  with claim_effect [OF ok run] obtain row
    where pick: "first_by claim_key (filter (claimable caps now skip) (jd_jobs db)) = Some row"
      and wr: "writes db row (claimed_row t w ls now row) db1"
      and l: "jl_job l = row_job (claimed_row t w ls now row)" by auto
  note row = claimable_in [OF pick]
  have id: "j_id (jl_job l) = Uid (r_id row)" by (simp add: l row_job_def claimed_row_def)
  have jobs: "jd_jobs db1 = map (\<lambda>x. if r_id x = r_id row then claimed_row t w ls now row else x) (jd_jobs db)"
    using wr by (simp add: writes_def put_row_def)
  have "queued_ids db1 = queued_ids db - {Uid (r_id row)}"
    unfolding queued_ids_def jobs by (auto simp: claimed_row_def image_iff)
  moreover have "Uid (r_id row) \<in> queued_ids db"
    using row by (auto simp: queued_ids_def claimable_def)
  ultimately show ?thesis by (simp add: Some id)
qed

text \<open>
  C3. No job is handed out twice: when any number of workers claim one after the other, the jobs
  they receive are pairwise different and were all queued before.
\<close>

theorem claims_are_exclusive:
  assumes "job_reachable cat db" and "claim_each qs db = Inr (leases, db')"
  shows "distinct (map (\<lambda>l. j_id (jl_job l)) leases)
    \<and> (\<lambda>l. j_id (jl_job l)) ` set leases \<subseteq> queued_ids db"
proof -
  have "jobdb_ok db" by (rule reachable_ok [OF assms(1)])
  then show ?thesis using assms(2)
  proof (induction qs arbitrary: db leases)
    case Nil
    then show ?case by (simp add: tx_simps)
  next
    case (Cons q qs)
    obtain skip t w caps ls now where q: "q = (skip, t, w, caps, ls, now)" by (cases q)
    from Cons.prems(2) obtain r db1 rest where run: "claim skip t w caps ls now db = Inr (r, db1)"
      and more: "claim_each qs db1 = Inr (rest, db')"
      and ls: "leases = (case r of None \<Rightarrow> rest | Some l \<Rightarrow> l # rest)"
      by (auto simp: q tx_simps)
    have ok1: "jobdb_ok db1"
      by (rule tx_keepsD [OF job_safe_keeps [OF claim_safe] Cons.prems(1) run])
    from Cons.IH [OF ok1 more] claim_takes_from_queue [OF Cons.prems(1) run]
    show ?case by (auto simp: ls split: option.splits)
  qed
qed

definition two_jobs_db :: jobdb where
  "two_jobs_db = run_calls sample_catalog [CallEnqueue 0 sample_job None,
     CallEnqueue 1 (sample_job\<lparr>j_id := Uid 2, j_idempotency_key := ''k2''\<rparr>) None] empty_jobdb"

lemma two_jobs_reachable: "job_reachable sample_catalog two_jobs_db"
proof -
  have "valid_call (CallEnqueue 1 (sample_job\<lparr>j_id := Uid 2, j_idempotency_key := ''k2''\<rparr>) None)"
    by code_simp
  then show ?thesis
    unfolding two_jobs_db_def
    using sample_valid by (intro run_calls_reachable job_reachable.init) simp
qed

lemma two_claims:
  "case claim_each [([9], 7, ''w1'', [''docker''], 60, 5), ([], 8, ''w1'', [''docker''], 60, 5)] two_jobs_db
     of Inr (leases, _) \<Rightarrow> length leases = 2 | Inl _ \<Rightarrow> False"
  by code_simp

theorem claims_are_exclusive_witness:
  "\<exists>a b db'. claim_each [([9], 7, ''w1'', [''docker''], 60, 5), ([], 8, ''w1'', [''docker''], 60, 5)]
      two_jobs_db = Inr ([a, b], db') \<and> j_id (jl_job a) \<noteq> j_id (jl_job b)"
proof -
  obtain leases db' where run: "claim_each [([9], 7, ''w1'', [''docker''], 60, 5),
      ([], 8, ''w1'', [''docker''], 60, 5)] two_jobs_db = Inr (leases, db')" and len: "length leases = 2"
    using two_claims by (auto split: sum.splits)
  then obtain a b where "leases = [a, b]" by (auto simp: length_Suc_conv numeral_2_eq_2)
  with run claims_are_exclusive [OF two_jobs_reachable run] show ?thesis by auto
qed

section \<open>Retries and reaping\<close>

text \<open>
  C7. The retry budget: a retryable failure of a running job gives its lease up and then cancels it
  if a cancel was requested, dead-letters it if its attempts are used up, and otherwise requeues it
  after base * 2^(attempts - 1) seconds, never less than one second nor more than an hour, with
  attempts still below the maximum.
\<close>

theorem retryable_failure_outcome:
  assumes "job_reachable cat db" and "ec \<noteq> ErrCancelled"
    and "fail_job i l (job_error_name ec) d True now db = Inr (j, db')"
  shows "\<exists>row \<in> set (jd_jobs db). \<exists>new \<in> set (jd_jobs db'). as_uuid i = Some (r_id row)
    \<and> r_status row = Running \<and> r_id new = r_id row \<and> lease_free new \<and> r_err new = Some ec
    \<and> r_attempts new = r_attempts row
    \<and> (if r_cancel row \<noteq> None then r_status new = Cancelled
       else if r_attempts row = r_max row then r_status new = DeadLetter
       else r_status new = Queued \<and> r_attempts new < r_max new
         \<and> (\<exists>delay. r_available new = now + seconds delay \<and> 1 \<le> delay \<and> delay \<le> 3600
              \<and> delay = min (r_backoff row * 2 ^ nat (max (r_attempts row - 1) 0)) 3600))"
proof -
  note ok = reachable_ok [OF assms(1)]
  from fail_effect [OF ok assms(3)] obtain row
    where w: "writes db row (failed_row now ec d True row) db'" and i: "as_uuid i = Some (r_id row)"
      and st: "r_status row = Running"
    using assms(2) by (auto simp: parse_job_error_name)
  have row: "row \<in> set (jd_jobs db)" using w by (simp add: writes_def)
  note rok = jobdb_okD(3) [OF ok row]
  have new: "requeued_row now ec d row \<in> set (jd_jobs db')"
    using writes_in [OF w] assms(2) by (simp add: failed_row_def)
  show ?thesis
  proof (rule bexI [OF _ row], rule bexI [OF _ new])
    have "r_attempts row \<le> r_max row" by (rule job_row_ok_facts(2) [OF rok])
    moreover have "min (r_backoff row * 2 ^ nat (max (r_attempts row - 1) 0)) 3600 = backoff_seconds row"
      by (simp add: backoff_seconds_def max_backoff_seconds_def)
    ultimately show "as_uuid i = Some (r_id row)
    \<and> r_status row = Running \<and> r_id (requeued_row now ec d row) = r_id row
    \<and> lease_free (requeued_row now ec d row) \<and> r_err (requeued_row now ec d row) = Some ec
    \<and> r_attempts (requeued_row now ec d row) = r_attempts row
    \<and> (if r_cancel row \<noteq> None then r_status (requeued_row now ec d row) = Cancelled
       else if r_attempts row = r_max row then r_status (requeued_row now ec d row) = DeadLetter
       else r_status (requeued_row now ec d row) = Queued
         \<and> r_attempts (requeued_row now ec d row) < r_max (requeued_row now ec d row)
         \<and> (\<exists>delay. r_available (requeued_row now ec d row) = now + seconds delay \<and> 1 \<le> delay \<and> delay \<le> 3600
              \<and> delay = min (r_backoff row * 2 ^ nat (max (r_attempts row - 1) 0)) 3600))"
      using i st backoff_bounds [OF rok]
      by (simp add: requeued_row_def clear_lease_def lease_free_def Let_def)
  qed
qed

lemma sample_failure:
  "case fail_job (Uid 1) (Uid 7) (job_error_name Transient) None True 20 running_db of Inl _ \<Rightarrow> False | Inr _ \<Rightarrow> True"
  by code_simp

theorem retryable_failure_outcome_witness:
  "\<exists>j db' new. fail_job (Uid 1) (Uid 7) (job_error_name Transient) None True 20 running_db = Inr (j, db')
     \<and> new \<in> set (jd_jobs db') \<and> lease_free new \<and> r_err new = Some Transient"
proof -
  obtain j db' where run: "fail_job (Uid 1) (Uid 7) (job_error_name Transient) None True 20 running_db
      = Inr (j, db')"
    using sample_failure by (auto split: sum.splits)
  from retryable_failure_outcome [OF sample_reachable(3) _ run] run show ?thesis by blast
qed

text \<open>
  C8. The reaper returns on every reachable state, and one pass whose limit covers the expired
  leases leaves none behind: every job whose lease had expired has given it up (requeued with
  budget left, dead-lettered without, cancelled when that was asked), and every other row is
  untouched.
\<close>

definition expired :: "instant \<Rightarrow> job_row \<Rightarrow> bool" where
  "expired now r \<longleftrightarrow> reapable now [] r"

theorem reaper_clears_expired_leases:
  assumes "job_reachable cat db" and "length (filter (expired now) (jd_jobs db)) \<le> limit"
  shows "\<exists>js db'. reap_expired [] now limit db = Inr (js, db')
    \<and> (\<forall>r \<in> set (jd_jobs db'). \<not> expired now r)
    \<and> (\<forall>r \<in> set (jd_jobs db). \<not> expired now r \<longrightarrow> r \<in> set (jd_jobs db'))
    \<and> (\<forall>r \<in> set (jd_jobs db). expired now r \<longrightarrow> (\<exists>new \<in> set (jd_jobs db'). r_id new = r_id r
         \<and> lease_free new \<and> r_status new = (if r_cancel r \<noteq> None then Cancelled
             else if r_attempts r \<ge> r_max r then DeadLetter else Queued)))"
proof -
  note ok = reachable_ok [OF assms(1)]
  obtain js db' where run: "reap_expired [] now limit db = Inr (js, db')"
    and jobs: "jd_jobs db' = map (requeue_all now (map r_id (reap_pick [] now limit db))) (jd_jobs db)"
    using reap_runs [OF ok] by blast
  have pick: "set (reap_pick [] now limit db) = {r \<in> set (jd_jobs db). expired now r}"
    using assms(2) by (auto simp: reap_pick_def order_limit_def expired_def [abs_def])
  have mem: "r_id r \<in> set (map r_id (reap_pick [] now limit db)) \<longleftrightarrow> expired now r"
    if r: "r \<in> set (jd_jobs db)" for r
    using r inj_onD [of r_id "set (jd_jobs db)"] jobdb_okD(1) [OF ok]
    by (auto simp: pick distinct_map)
  have img: "requeue_all now (map r_id (reap_pick [] now limit db)) r
      = (if expired now r then requeued_row now LeaseExpired None r else r)" if "r \<in> set (jd_jobs db)" for r
    using mem [OF that] by (simp add: requeue_all_def)
  have none: "\<not> expired now (requeued_row now LeaseExpired None r)" for r
    by (auto simp: expired_def reapable_def requeued_row_status)
  have A: "\<forall>r \<in> set (jd_jobs db'). \<not> expired now r" using img none by (auto simp: jobs)
  have B: "\<forall>r \<in> set (jd_jobs db). \<not> expired now r \<longrightarrow> r \<in> set (jd_jobs db')"
    unfolding jobs using img by (force simp: image_iff)
  have C: "\<forall>r \<in> set (jd_jobs db). expired now r \<longrightarrow> (\<exists>new \<in> set (jd_jobs db'). r_id new = r_id r
         \<and> lease_free new \<and> r_status new = (if r_cancel r \<noteq> None then Cancelled
             else if r_attempts r \<ge> r_max r then DeadLetter else Queued))"
  proof (intro ballI impI)
    fix r assume r: "r \<in> set (jd_jobs db)" and ex: "expired now r"
    then have "requeued_row now LeaseExpired None r \<in> set (jd_jobs db')"
      unfolding jobs using img [OF r] by (force simp: image_iff)
    then show "\<exists>new \<in> set (jd_jobs db'). r_id new = r_id r
         \<and> lease_free new \<and> r_status new = (if r_cancel r \<noteq> None then Cancelled
             else if r_attempts r \<ge> r_max r then DeadLetter else Queued)"
      by (rule rev_bexI) (simp add: requeued_row_status)
  qed
  from run A B C show ?thesis by blast
qed

lemma sample_expired: "map (expired 100000000) (jd_jobs claimed_db) = [True]"
  by code_simp

theorem reaper_clears_expired_leases_witness:
  "\<exists>js db'. reap_expired [] 100000000 1 claimed_db = Inr (js, db')
     \<and> (\<exists>new \<in> set (jd_jobs db'). lease_free new)"
proof -
  obtain r where r: "jd_jobs claimed_db = [r]" and ex: "expired 100000000 r"
    using sample_expired by (cases "jd_jobs claimed_db") auto
  then have "length (filter (expired 100000000) (jd_jobs claimed_db)) \<le> 1" by simp
  from reaper_clears_expired_leases [OF sample_reachable(2) this] r ex show ?thesis by fastforce
qed

end
