(* ===== verification/Scheduling_Models.thy ===== *)
theory Scheduling_Models
  imports Catalog
begin

text \<open>
  The value types of \<open>domain/scheduling/models.py\<close>: quota scopes and dimensions as ordered
  datatypes, reservation items, ceilings, demands and reservations with the checks of their
  constructors, and the pure capability match. The order on scopes and dimensions is the order of
  the strings that name them, so that \<open>sorted_items\<close> sorts as the code does.
\<close>

section \<open>Scopes and dimensions\<close>

datatype quota_scope = ScChallenge | ScCompetition | ScPlatform | ScTeam | ScWorker

fun scope_name :: "quota_scope \<Rightarrow> string" where
  "scope_name ScChallenge = ''challenge''"
| "scope_name ScCompetition = ''competition''"
| "scope_name ScPlatform = ''platform''"
| "scope_name ScTeam = ''team''"
| "scope_name ScWorker = ''worker''"

datatype dimension =
    ActiveInstances | BuildConcurrency | CpuMillis | ExposedPorts | MaxRuntimeSeconds
  | MemoryMb | StorageMb

fun dimension_name :: "dimension \<Rightarrow> string" where
  "dimension_name ActiveInstances = ''active_instances''"
| "dimension_name BuildConcurrency = ''build_concurrency''"
| "dimension_name CpuMillis = ''cpu_millis''"
| "dimension_name ExposedPorts = ''exposed_ports''"
| "dimension_name MaxRuntimeSeconds = ''max_runtime_seconds''"
| "dimension_name MemoryMb = ''memory_mb''"
| "dimension_name StorageMb = ''storage_mb''"

fun scope_rank :: "quota_scope \<Rightarrow> nat" where
  "scope_rank ScChallenge = 0"
| "scope_rank ScCompetition = 1"
| "scope_rank ScPlatform = 2"
| "scope_rank ScTeam = 3"
| "scope_rank ScWorker = 4"

fun dimension_rank :: "dimension \<Rightarrow> nat" where
  "dimension_rank ActiveInstances = 0"
| "dimension_rank BuildConcurrency = 1"
| "dimension_rank CpuMillis = 2"
| "dimension_rank ExposedPorts = 3"
| "dimension_rank MaxRuntimeSeconds = 4"
| "dimension_rank MemoryMb = 5"
| "dimension_rank StorageMb = 6"

lemma scope_rank_inj: "scope_rank a = scope_rank b \<Longrightarrow> a = b"
  by (cases a; cases b) simp_all

lemma dimension_rank_inj: "dimension_rank a = dimension_rank b \<Longrightarrow> a = b"
  by (cases a; cases b) simp_all

instantiation quota_scope :: linorder
begin

definition less_eq_quota_scope :: "quota_scope \<Rightarrow> quota_scope \<Rightarrow> bool" where
  "a \<le> b \<longleftrightarrow> scope_rank a \<le> scope_rank b"

definition less_quota_scope :: "quota_scope \<Rightarrow> quota_scope \<Rightarrow> bool" where
  "a < b \<longleftrightarrow> scope_rank a < scope_rank b"

instance
  by standard (auto simp: less_eq_quota_scope_def less_quota_scope_def dest: scope_rank_inj)

end

instantiation dimension :: linorder
begin

definition less_eq_dimension :: "dimension \<Rightarrow> dimension \<Rightarrow> bool" where
  "a \<le> b \<longleftrightarrow> dimension_rank a \<le> dimension_rank b"

definition less_dimension :: "dimension \<Rightarrow> dimension \<Rightarrow> bool" where
  "a < b \<longleftrightarrow> dimension_rank a < dimension_rank b"

instance
  by standard (auto simp: less_eq_dimension_def less_dimension_def dest: dimension_rank_inj)

end

text \<open>The rank order is the order of the names, as Python compares them.\<close>

lemma scope_order: "a \<le> b \<longleftrightarrow> scope_name a \<le> scope_name b"
  by (cases a; cases b) (simp_all add: less_eq_quota_scope_def less_char_def)

lemma dimension_order: "a \<le> b \<longleftrightarrow> dimension_name a \<le> dimension_name b"
  by (cases a; cases b) (simp_all add: less_eq_dimension_def less_char_def)

lemma scope_le_worker: "s \<le> ScWorker"
  by (cases s) (simp_all add: less_eq_quota_scope_def)

fun ceiling_dimension :: "dimension \<Rightarrow> bool" where
  "ceiling_dimension MaxRuntimeSeconds = True"
| "ceiling_dimension _ = False"

definition pooled_dimension :: "dimension \<Rightarrow> bool" where
  "pooled_dimension d \<longleftrightarrow> \<not> ceiling_dimension d"

type_synonym quota_key = "quota_scope \<times> string \<times> dimension"

section \<open>Items, ceilings, demands, reservations\<close>

record resource_quota =
  q_scope :: quota_scope
  q_key :: string
  q_dim :: dimension
  q_limit :: int
  q_reserved :: int

definition quota_key :: "resource_quota \<Rightarrow> quota_key" where
  "quota_key q = (q_scope q, q_key q, q_dim q)"

definition resource_quota_post_init :: "resource_quota \<Rightarrow> exn + unit" where
  "resource_quota_post_init q =
     (if \<not> nonempty (q_key q) then Inl ValueError
      else if q_limit q < 0 then Inl ValueError
      else if q_reserved q < 0 then Inl ValueError
      else if ceiling_dimension (q_dim q) \<and> q_reserved q \<noteq> 0 then Inl ValueError
      else Inr ())"

definition quota_available :: "resource_quota \<Rightarrow> int" where
  "quota_available q = max (q_limit q - q_reserved q) 0"

record reservation_item =
  ri_scope :: quota_scope
  ri_key :: string
  ri_dim :: dimension
  ri_amount :: int

definition ri_quota :: "reservation_item \<Rightarrow> quota_key" where
  "ri_quota i = (ri_scope i, ri_key i, ri_dim i)"

definition reservation_item_post_init :: "reservation_item \<Rightarrow> exn + unit" where
  "reservation_item_post_init i =
     (if \<not> nonempty (ri_key i) then Inl ValueError
      else if \<not> pooled_dimension (ri_dim i) then Inl ValueError
      else if ri_amount i \<le> 0 then Inl ValueError
      else Inr ())"

record ceiling_requirement =
  cr_scope :: quota_scope
  cr_key :: string
  cr_dim :: dimension
  cr_required :: int

definition cr_quota :: "ceiling_requirement \<Rightarrow> quota_key" where
  "cr_quota c = (cr_scope c, cr_key c, cr_dim c)"

definition ceiling_requirement_post_init :: "ceiling_requirement \<Rightarrow> exn + unit" where
  "ceiling_requirement_post_init c =
     (if \<not> nonempty (cr_key c) then Inl ValueError
      else if \<not> ceiling_dimension (cr_dim c) then Inl ValueError
      else if cr_required c < 0 then Inl ValueError
      else Inr ())"

fun all_valid :: "('a \<Rightarrow> exn + unit) \<Rightarrow> 'a list \<Rightarrow> bool" where
  "all_valid chk [] = True"
| "all_valid chk (x # xs) = (chk x = Inr () \<and> all_valid chk xs)"

lemma all_valid_iff: "all_valid chk xs \<longleftrightarrow> (\<forall>x \<in> set xs. chk x = Inr ())"
  by (induction xs) auto

record resource_demand =
  dm_id :: ident
  dm_worker :: string
  dm_expires :: instant
  dm_items :: "reservation_item list"
  dm_ceilings :: "ceiling_requirement list"
  dm_comp :: "string option"
  dm_team :: "string option"
  dm_chal :: "string option"

definition resource_demand_post_init :: "resource_demand \<Rightarrow> exn + unit" where
  "resource_demand_post_init d =
     (if \<not> ident_nonempty (dm_id d) then Inl ValueError
      else if \<not> nonempty (dm_worker d) then Inl ValueError
      else if dm_items d = [] \<and> dm_ceilings d = [] then Inl ValueError
      else if \<not> distinct (map ri_quota (dm_items d)) then Inl ValueError
      else if \<not> opt_nonempty (dm_comp d) then Inl ValueError
      else if \<not> opt_nonempty (dm_team d) then Inl ValueError
      else if \<not> opt_nonempty (dm_chal d) then Inl ValueError
      else Inr ())"

definition sorted_items :: "resource_demand \<Rightarrow> reservation_item list" where
  "sorted_items d = sort_key ri_quota (dm_items d)"

datatype reservation_state = Held | Released

record reservation =
  rv_id :: ident
  rv_worker :: string
  rv_expires :: instant
  rv_state :: reservation_state
  rv_created :: "instant option"
  rv_released :: "instant option"
  rv_comp :: "string option"
  rv_team :: "string option"
  rv_chal :: "string option"
  rv_items :: "reservation_item list"

definition reservation_post_init :: "reservation \<Rightarrow> exn + unit" where
  "reservation_post_init r =
     (if \<not> ident_nonempty (rv_id r) then Inl ValueError
      else if \<not> nonempty (rv_worker r) then Inl ValueError
      else if (rv_state r = Released) \<noteq> (rv_released r \<noteq> None) then Inl ValueError
      else Inr ())"

section \<open>Worker requirements\<close>

record worker_requirements =
  wr_arch :: string
  wr_caps :: "string list"
  wr_runtime :: "string option"

definition worker_requirements_post_init :: "worker_requirements \<Rightarrow> exn + unit" where
  "worker_requirements_post_init r =
     (if \<not> nonempty (wr_arch r) then Inl ValueError
      else if \<exists>c \<in> set (wr_caps r). \<not> nonempty c then Inl ValueError
      else if \<not> opt_nonempty (wr_runtime r) then Inl ValueError
      else Inr ())"

record worker_candidate =
  wc_name :: string
  wc_capacity :: int
  wc_reserved :: int
  wc_cached :: bool

definition worker_candidate_post_init :: "worker_candidate \<Rightarrow> exn + unit" where
  "worker_candidate_post_init c =
     (if \<not> nonempty (wc_name c) then Inl ValueError
      else if wc_capacity c < 0 then Inl ValueError
      else if wc_reserved c < 0 then Inl ValueError
      else Inr ())"

definition candidate_free :: "worker_candidate \<Rightarrow> int" where
  "candidate_free c = max (wc_capacity c - wc_reserved c) 0"

definition isolation_capability :: "string \<Rightarrow> exn + string" where
  "isolation_capability level =
     (if nonempty level then Inr (''isolation:'' @ level) else Inl ValueError)"

text \<open>What \<open>requirements_from_family\<close> reads of a family.\<close>

record family_metadata =
  fm_isolation :: string
  fm_archs :: "string list"

definition requirements_from_family ::
    "family_metadata \<Rightarrow> string \<Rightarrow> string list \<Rightarrow> string option \<Rightarrow> exn + worker_requirements" where
  "requirements_from_family family arch extra runtime =
     (if arch \<notin> set (fm_archs family) then Inl ValueError
      else case isolation_capability (fm_isolation family) of
          Inl e \<Rightarrow> Inl e
        | Inr tok \<Rightarrow>
            let r = \<lparr>wr_arch = arch, wr_caps = ''launch_instance'' # tok # extra, wr_runtime = runtime\<rparr>
            in case worker_requirements_post_init r of Inl e \<Rightarrow> Inl e | Inr _ \<Rightarrow> Inr r)"

definition worker_matches ::
    "string list \<Rightarrow> string list \<Rightarrow> string \<Rightarrow> worker_requirements \<Rightarrow> bool" where
  "worker_matches archs caps runtime r =
     (if wr_arch r \<notin> set archs then False
      else if \<not> set (wr_caps r) \<subseteq> set caps then False
      else if wr_runtime r \<noteq> None \<and> wr_runtime r \<noteq> Some runtime then False
      else True)"

end
