(* ===== verification/Quota_Ledger.thy ===== *)
theory Quota_Ledger
  imports Scheduling_Models
begin

text \<open>
  The quota policy and the reservation ledger of \<open>infrastructure/database/quota_repository.py\<close>
  over the tables and triggers of migration 0009: counters (\<open>resource_quotas\<close>), reservation
  headers and their append-only items. Each method is a unit of work; the triggers and CHECKs run
  when a counter is written.
\<close>

section \<open>Rows\<close>

record hold_header =
  h_id :: nat
  h_worker :: string
  h_comp :: "string option"
  h_team :: "string option"
  h_chal :: "string option"
  h_state :: reservation_state
  h_expires :: instant
  h_released :: "instant option"
  h_created :: instant

record item_row =
  ir_hold :: nat
  ir_item :: reservation_item

record quotadb =
  qd_quotas :: "resource_quota list"
  qd_headers :: "hold_header list"
  qd_items :: "item_row list"

definition empty_quotadb :: quotadb where
  "empty_quotadb = \<lparr>qd_quotas = [], qd_headers = [], qd_items = []\<rparr>"

definition header_reservation :: "hold_header \<Rightarrow> reservation_item list \<Rightarrow> reservation" where
  "header_reservation h items = \<lparr>rv_id = Uid (h_id h), rv_worker = h_worker h, rv_expires = h_expires h,
     rv_state = h_state h, rv_created = Some (h_created h), rv_released = h_released h,
     rv_comp = h_comp h, rv_team = h_team h, rv_chal = h_chal h, rv_items = items\<rparr>"

text \<open>\<open>quota_reservation_from_orm\<close>: the constructor's checks run on what was read.\<close>

definition reservation_from_orm :: "hold_header \<Rightarrow> reservation_item list \<Rightarrow> (quotadb, reservation) tx" where
  "reservation_from_orm h items = (case reservation_post_init (header_reservation h items) of
      Inl e \<Rightarrow> tx_raise e | Inr _ \<Rightarrow> tx_ret (header_reservation h items))"

text \<open>Plpgsql \<open>resource_quotas_within_limit\<close>: no update may raise a counter above its limit.\<close>

definition quota_within_limit_guard :: "resource_quota \<Rightarrow> resource_quota \<Rightarrow> bool" where
  "quota_within_limit_guard old new \<longleftrightarrow>
     \<not> (q_reserved new > q_limit new \<and> q_reserved new > q_reserved old)"

definition quota_check :: "resource_quota \<Rightarrow> string option" where
  "quota_check q =
     (if q_limit q < 0 then Some ''ck_resource_quotas_limit_non_negative''
      else if q_reserved q < 0 then Some ''ck_resource_quotas_reserved_non_negative''
      else if ceiling_dimension (q_dim q) \<and> q_reserved q \<noteq> 0
      then Some ''ck_resource_quotas_ceiling_no_reserve''
      else None)"

definition find_quota :: "quota_key \<Rightarrow> quotadb \<Rightarrow> resource_quota option" where
  "find_quota k db = find_row quota_key k (qd_quotas db)"

definition find_hold :: "nat \<Rightarrow> quotadb \<Rightarrow> hold_header option" where
  "find_hold k db = find_row h_id k (qd_headers db)"

definition write_quota :: "resource_quota \<Rightarrow> (quotadb, unit) tx" where
  "write_quota new = (\<lambda>db. case find_quota (quota_key new) db of
      None \<Rightarrow> Inr ((), db)
    | Some old \<Rightarrow>
        if old = new then Inr ((), db)
        else if \<not> quota_within_limit_guard old new then Inl ProgrammingError
        else (case quota_check new of
            Some ck \<Rightarrow> Inl (IntegrityError ck)
          | None \<Rightarrow> Inr ((), db\<lparr>qd_quotas := put_row quota_key new (qd_quotas db)\<rparr>)))"

definition write_header :: "hold_header \<Rightarrow> (quotadb, unit) tx" where
  "write_header h =
     (if (h_state h = Released) \<noteq> (h_released h \<noteq> None)
      then tx_raise (IntegrityError ''ck_quota_reservations_released_state_consistent'')
      else tx_modify (\<lambda>db. db\<lparr>qd_headers := put_row h_id h (qd_headers db)\<rparr>))"

definition insert_header :: "hold_header \<Rightarrow> (quotadb, unit) tx" where
  "insert_header h = (\<lambda>db.
     if \<not> nonempty (h_worker h) then Inl (IntegrityError ''ck_quota_reservations_worker_key_non_empty'')
     else if h_id h \<in> h_id ` set (qd_headers db) then Inl (IntegrityError ''pk_quota_reservations'')
     else Inr ((), db\<lparr>qd_headers := qd_headers db @ [h]\<rparr>))"

definition insert_item :: "item_row \<Rightarrow> (quotadb, unit) tx" where
  "insert_item r = (\<lambda>db.
     if ri_amount (ir_item r) \<le> 0 then Inl (IntegrityError ''ck_quota_reservation_items_amount_positive'')
     else if \<exists>r' \<in> set (qd_items db). ir_hold r' = ir_hold r \<and> ri_quota (ir_item r') = ri_quota (ir_item r)
     then Inl (IntegrityError ''uq_quota_reservation_items_reservation'')
     else if ir_hold r \<notin> h_id ` set (qd_headers db)
     then Inl (IntegrityError ''fk_quota_reservation_items_reservation_id_quota_reservations'')
     else if ri_quota (ir_item r) \<notin> quota_key ` set (qd_quotas db)
     then Inl (IntegrityError ''fk_quota_reservation_items_scope_resource_quotas'')
     else Inr ((), db\<lparr>qd_items := qd_items db @ [r]\<rparr>))"

section \<open>Policy\<close>

text \<open>\<open>INSERT ... ON CONFLICT DO NOTHING\<close>: an existing row is left as it is.\<close>

definition upsert_limit :: "resource_quota \<Rightarrow> (quotadb, unit) tx" where
  "upsert_limit q = (\<lambda>db.
     case quota_check q of
       Some ck \<Rightarrow> Inl (IntegrityError ck)
     | None \<Rightarrow>
         if quota_key q \<in> quota_key ` set (qd_quotas db) then Inr ((), db)
         else Inr ((), db\<lparr>qd_quotas := qd_quotas db @ [q]\<rparr>))"

definition get_quota :: "quota_key \<Rightarrow> (quotadb, resource_quota option) tx" where
  "get_quota k = tx_bind (tx_get (find_quota k)) (\<lambda>r. case r of
      None \<Rightarrow> tx_ret None
    | Some q \<Rightarrow> (case resource_quota_post_init q of Inl e \<Rightarrow> tx_raise e | Inr _ \<Rightarrow> tx_ret (Some q)))"

definition list_quotas_for_scope :: "quota_scope \<Rightarrow> string \<Rightarrow> quotadb \<Rightarrow> resource_quota list" where
  "list_quotas_for_scope s k db =
     sort_key q_dim (filter (\<lambda>q. q_scope q = s \<and> q_key q = k) (qd_quotas db))"

section \<open>Ledger\<close>

definition items_for :: "nat \<Rightarrow> quotadb \<Rightarrow> reservation_item list" where
  "items_for k db = sort_key ri_quota (map ir_item (filter (\<lambda>r. ir_hold r = k) (qd_items db)))"

definition quota_exceeded :: "quota_key \<Rightarrow> exn" where
  "quota_exceeded k = (case k of (s, key, d) \<Rightarrow> QuotaExceededError (scope_name s) key (dimension_name d))"

fun check_ceilings :: "ceiling_requirement list \<Rightarrow> (quotadb, unit) tx" where
  "check_ceilings [] = tx_ret ()"
| "check_ceilings (c # cs) =
     tx_bind (tx_get (find_quota (cr_quota c))) (\<lambda>q.
     tx_bind (tx_some LookupError q) (\<lambda>quota.
     tx_bind (tx_guard (cr_required c \<le> q_limit quota) (quota_exceeded (cr_quota c))) (\<lambda>_.
     check_ceilings cs)))"

fun hold_items :: "reservation_item list \<Rightarrow> nat \<Rightarrow> bool \<Rightarrow> (quotadb, unit) tx" where
  "hold_items [] k insert_items = tx_ret ()"
| "hold_items (i # rest) k insert_items =
     tx_bind (tx_get (find_quota (ri_quota i))) (\<lambda>q.
     tx_bind (tx_some LookupError q) (\<lambda>quota.
     tx_bind (tx_guard (q_reserved quota + ri_amount i \<le> q_limit quota) (quota_exceeded (ri_quota i))) (\<lambda>_.
     tx_bind (write_quota (quota\<lparr>q_reserved := q_reserved quota + ri_amount i\<rparr>)) (\<lambda>_.
     tx_bind (if insert_items then insert_item \<lparr>ir_hold = k, ir_item = i\<rparr> else tx_ret ()) (\<lambda>_.
     hold_items rest k insert_items)))))"

definition reserve :: "instant \<Rightarrow> resource_demand \<Rightarrow> (quotadb, reservation) tx" where
  "reserve created d =
     tx_bind (tx_some ValueError (as_uuid (dm_id d))) (\<lambda>k.
     let header = \<lparr>h_id = k, h_worker = dm_worker d, h_comp = dm_comp d, h_team = dm_team d,
           h_chal = dm_chal d, h_state = Held, h_expires = dm_expires d, h_released = None,
           h_created = created\<rparr> in
     tx_bind (insert_header header) (\<lambda>_.
     tx_bind (check_ceilings (dm_ceilings d)) (\<lambda>_.
     tx_bind (hold_items (sorted_items d) k True) (\<lambda>_.
     reservation_from_orm header (dm_items d)))))"

definition locked_header :: "nat \<Rightarrow> (quotadb, hold_header option) tx" where
  "locked_header k = tx_get (find_hold k)"

definition reactivate :: "ident \<Rightarrow> instant \<Rightarrow> (quotadb, reservation) tx" where
  "reactivate reservation_id new_expires =
     tx_bind (tx_some ValueError (as_uuid reservation_id)) (\<lambda>k.
     tx_bind (locked_header k) (\<lambda>row.
     tx_bind (tx_some LookupError row) (\<lambda>header.
     tx_bind (tx_get (items_for k)) (\<lambda>items.
     if h_state header = Held then reservation_from_orm header items
     else
       let new = header\<lparr>h_state := Held, h_released := None, h_expires := new_expires\<rparr> in
       tx_bind (write_header new) (\<lambda>_.
       tx_bind (hold_items items k False) (\<lambda>_.
       reservation_from_orm new items))))))"

definition renew :: "ident \<Rightarrow> instant \<Rightarrow> (quotadb, unit) tx" where
  "renew reservation_id new_expires =
     tx_bind (tx_some LookupError (as_uuid reservation_id)) (\<lambda>k.
     tx_bind (locked_header k) (\<lambda>row.
     case row of
       None \<Rightarrow> tx_raise LookupError
     | Some header \<Rightarrow>
         if h_state header \<noteq> Held then tx_raise LookupError
         else write_header (header\<lparr>h_expires := new_expires\<rparr>)))"

fun release_items :: "reservation_item list \<Rightarrow> (quotadb, unit) tx" where
  "release_items [] = tx_ret ()"
| "release_items (i # rest) =
     tx_bind (tx_get (find_quota (ri_quota i))) (\<lambda>q.
     tx_bind (case q of
         None \<Rightarrow> tx_ret ()
       | Some quota \<Rightarrow> write_quota (quota\<lparr>q_reserved := max (q_reserved quota - ri_amount i) 0\<rparr>)) (\<lambda>_.
     release_items rest))"

definition release :: "ident \<Rightarrow> instant \<Rightarrow> (quotadb, bool) tx" where
  "release reservation_id now = (case as_uuid reservation_id of
      None \<Rightarrow> tx_ret False
    | Some k \<Rightarrow>
        tx_bind (locked_header k) (\<lambda>row. case row of
          None \<Rightarrow> tx_ret False
        | Some header \<Rightarrow>
            if h_state header \<noteq> Held then tx_ret False
            else
              tx_bind (tx_get (items_for k)) (\<lambda>items.
              tx_bind (release_items items) (\<lambda>_.
              tx_bind (write_header (header\<lparr>h_state := Released, h_released := Some now\<rparr>)) (\<lambda>_.
              tx_ret True)))))"

definition get_hold :: "ident \<Rightarrow> (quotadb, reservation option) tx" where
  "get_hold reservation_id = (case as_uuid reservation_id of
      None \<Rightarrow> tx_ret None
    | Some k \<Rightarrow>
        tx_bind (tx_get (find_hold k)) (\<lambda>row. case row of
          None \<Rightarrow> tx_ret None
        | Some header \<Rightarrow>
            tx_bind (tx_get (items_for k)) (\<lambda>items.
            tx_bind (reservation_from_orm header items) (\<lambda>r. tx_ret (Some r)))))"

fun reservations_from_orm :: "hold_header list \<Rightarrow> (quotadb, reservation list) tx" where
  "reservations_from_orm [] = tx_ret []"
| "reservations_from_orm (h # hs) =
     tx_bind (reservation_from_orm h []) (\<lambda>r. tx_bind (reservations_from_orm hs) (\<lambda>rs. tx_ret (r # rs)))"

definition list_expired :: "instant \<Rightarrow> nat \<Rightarrow> (quotadb, reservation list) tx" where
  "list_expired now limit =
     tx_bind (tx_get (\<lambda>db. order_limit h_expires limit
       (filter (\<lambda>h. h_state h = Held \<and> h_expires h < now) (qd_headers db)))) reservations_from_orm"

text \<open>The sum of the held items per counter, as the grouped query computes it.\<close>

definition held_items :: "quotadb \<Rightarrow> item_row list" where
  "held_items db = filter (\<lambda>r. \<exists>h \<in> set (qd_headers db). h_id h = ir_hold r \<and> h_state h = Held) (qd_items db)"

definition amount_at :: "quota_key \<Rightarrow> reservation_item list \<Rightarrow> int" where
  "amount_at k items = sum_list (map ri_amount (filter (\<lambda>i. ri_quota i = k) items))"

definition held_sum :: "quotadb \<Rightarrow> quota_key \<Rightarrow> int" where
  "held_sum db k = amount_at k (map ir_item (held_items db))"

definition expected_reserved :: "quotadb \<Rightarrow> resource_quota \<Rightarrow> int" where
  "expected_reserved db q = (if ceiling_dimension (q_dim q) then 0 else held_sum db (quota_key q))"

fun reconcile_rows :: "quotadb \<Rightarrow> resource_quota list \<Rightarrow> (quotadb, int) tx" where
  "reconcile_rows snap [] = tx_ret 0"
| "reconcile_rows snap (q # qs) =
     (if q_reserved q \<noteq> expected_reserved snap q then
        tx_bind (write_quota (q\<lparr>q_reserved := expected_reserved snap q\<rparr>)) (\<lambda>_.
        tx_bind (reconcile_rows snap qs) (\<lambda>n. tx_ret (n + 1)))
      else reconcile_rows snap qs)"

definition reconcile_counters :: "(quotadb, int) tx" where
  "reconcile_counters =
     tx_bind (tx_get (\<lambda>db. (db, sort_key quota_key (qd_quotas db)))) (\<lambda>(snap, rows).
       reconcile_rows snap rows)"

end
