(* ===== verification/Quota_Inv.thy ===== *)
theory Quota_Inv
  imports Quota_Ledger "HOL-Library.Multiset"
begin

text \<open>
  The ledger's invariant and what each of its methods does to the counters. The counters are exact:
  a counter is the sum of the amounts of the items of held reservations, and it is within its limit.
  The loops that take and give back capacity are computed in closed form (\<open>shift_quotas\<close>), so that
  admission, all-or-nothing and exactness are read off one equation each.
\<close>

section \<open>Sums of amounts\<close>

lemma amount_at_Nil [simp]: "amount_at k [] = 0"
  by (simp add: amount_at_def)

lemma amount_at_Cons: "amount_at k (i # is) = (if ri_quota i = k then ri_amount i else 0) + amount_at k is"
  by (simp add: amount_at_def)

lemma amount_at_append: "amount_at k (xs @ ys) = amount_at k xs + amount_at k ys"
  by (simp add: amount_at_def)

lemma amount_at_mset:
  "amount_at k xs = sum_mset (image_mset ri_amount (filter_mset (\<lambda>i. ri_quota i = k) (mset xs)))"
  by (induction xs) (auto simp: amount_at_Cons)

lemma amount_at_sort [simp]: "amount_at k (sort_key f xs) = amount_at k xs"
  by (simp add: amount_at_mset)

lemma amount_at_nonneg: "(\<And>i. i \<in> set xs \<Longrightarrow> 0 \<le> ri_amount i) \<Longrightarrow> 0 \<le> amount_at k xs"
  by (induction xs) (auto simp: amount_at_Cons)

lemma amount_at_absent: "k \<notin> ri_quota ` set xs \<Longrightarrow> amount_at k xs = 0"
  by (induction xs) (auto simp: amount_at_Cons)

lemma amount_at_distinct:
  "distinct (map ri_quota xs) \<Longrightarrow> i \<in> set xs \<Longrightarrow> amount_at (ri_quota i) xs = ri_amount i"
  by (induction xs) (auto simp: amount_at_Cons amount_at_absent)

definition items_of :: "nat \<Rightarrow> item_row list \<Rightarrow> reservation_item list" where
  "items_of k rows = map ir_item (filter (\<lambda>r. ir_hold r = k) rows)"

lemma items_for_eq: "items_for k db = sort_key ri_quota (items_of k (qd_items db))"
  by (simp add: items_for_def items_of_def)

lemma amount_split:
  assumes "\<not> P k0"
  shows "amount_at k (map ir_item (filter (\<lambda>r. P (ir_hold r) \<or> ir_hold r = k0) rows))
    = amount_at k (map ir_item (filter (\<lambda>r. P (ir_hold r)) rows)) + amount_at k (items_of k0 rows)"
  using assms by (induction rows) (auto simp: amount_at_Cons items_of_def)

section \<open>Which reservations are held\<close>

definition is_held :: "quotadb \<Rightarrow> nat \<Rightarrow> bool" where
  "is_held db k \<longleftrightarrow> (\<exists>h \<in> set (qd_headers db). h_id h = k \<and> h_state h = Held)"

lemma held_sum_eq: "held_sum db k = amount_at k (map ir_item (filter (\<lambda>r. is_held db (ir_hold r)) (qd_items db)))"
  by (simp add: held_sum_def held_items_def is_held_def)

lemma held_sum_frame:
  "qd_headers db' = qd_headers db \<Longrightarrow> qd_items db' = qd_items db \<Longrightarrow> held_sum db' k = held_sum db k"
  by (simp add: held_sum_eq is_held_def)

section \<open>The invariant\<close>

definition ledger_shape :: "quotadb \<Rightarrow> bool" where
  "ledger_shape db \<longleftrightarrow>
     distinct (map quota_key (qd_quotas db)) \<and> distinct (map h_id (qd_headers db))
     \<and> distinct (map (\<lambda>r. (ir_hold r, ri_quota (ir_item r))) (qd_items db))
     \<and> (\<forall>q \<in> set (qd_quotas db). resource_quota_post_init q = Inr ())
     \<and> (\<forall>h \<in> set (qd_headers db). nonempty (h_worker h) \<and> (h_state h = Released) = (h_released h \<noteq> None))
     \<and> (\<forall>r \<in> set (qd_items db). reservation_item_post_init (ir_item r) = Inr ()
          \<and> ir_hold r \<in> h_id ` set (qd_headers db) \<and> ri_quota (ir_item r) \<in> quota_key ` set (qd_quotas db))"

definition counters_off :: "(quota_key \<Rightarrow> int) \<Rightarrow> quotadb \<Rightarrow> bool" where
  "counters_off adj db \<longleftrightarrow>
     (\<forall>q \<in> set (qd_quotas db). q_reserved q = held_sum db (quota_key q) + adj (quota_key q))"

definition within_limits :: "quotadb \<Rightarrow> bool" where
  "within_limits db \<longleftrightarrow> (\<forall>q \<in> set (qd_quotas db). q_reserved q \<le> q_limit q)"

definition quotadb_ok :: "quotadb \<Rightarrow> bool" where
  "quotadb_ok db \<longleftrightarrow> ledger_shape db \<and> counters_off (\<lambda>_. 0) db \<and> within_limits db"

lemma ledger_shapeD:
  assumes "ledger_shape db"
  shows "distinct (map quota_key (qd_quotas db))" "distinct (map h_id (qd_headers db))"
    "distinct (map (\<lambda>r. (ir_hold r, ri_quota (ir_item r))) (qd_items db))"
    "q \<in> set (qd_quotas db) \<Longrightarrow> resource_quota_post_init q = Inr ()"
    "h \<in> set (qd_headers db) \<Longrightarrow> nonempty (h_worker h) \<and> (h_state h = Released) = (h_released h \<noteq> None)"
    "r \<in> set (qd_items db) \<Longrightarrow> reservation_item_post_init (ir_item r) = Inr ()"
    "r \<in> set (qd_items db) \<Longrightarrow> ir_hold r \<in> h_id ` set (qd_headers db)"
    "r \<in> set (qd_items db) \<Longrightarrow> ri_quota (ir_item r) \<in> quota_key ` set (qd_quotas db)"
  using assms by (auto simp: ledger_shape_def)

lemma quotadb_okD:
  assumes "quotadb_ok db"
  shows "ledger_shape db" "counters_off (\<lambda>_. 0) db" "within_limits db"
  using assms by (simp_all add: quotadb_ok_def)

lemma item_ok_facts:
  assumes "reservation_item_post_init i = Inr ()"
  shows "0 < ri_amount i" "\<not> ceiling_dimension (ri_dim i)" "nonempty (ri_key i)"
  using assms by (auto simp: reservation_item_post_init_def pooled_dimension_def split: if_splits)

lemma empty_quotadb_ok: "quotadb_ok empty_quotadb"
  by (simp add: quotadb_ok_def ledger_shape_def counters_off_def within_limits_def empty_quotadb_def)

lemma find_quota_Some:
  "distinct (map quota_key (qd_quotas db)) \<Longrightarrow>
     find_quota k db = Some q \<longleftrightarrow> q \<in> set (qd_quotas db) \<and> quota_key q = k"
  by (simp add: find_quota_def find_row_eq_Some_iff)

lemma find_hold_Some:
  "distinct (map h_id (qd_headers db)) \<Longrightarrow>
     find_hold k db = Some h \<longleftrightarrow> h \<in> set (qd_headers db) \<and> h_id h = k"
  by (simp add: find_hold_def find_row_eq_Some_iff)

text \<open>A ceiling's counter stays zero because no item counts against it.\<close>

lemma item_not_ceiling:
  assumes "ledger_shape db" and "r \<in> set (qd_items db)" and "ri_quota (ir_item r) = (s, k, d)"
  shows "\<not> ceiling_dimension d"
  using item_ok_facts(2) [OF ledger_shapeD(6) [OF assms(1,2)]] assms(3) by (simp add: ri_quota_def)

lemma held_sum_ceiling:
  assumes "ledger_shape db" and "ceiling_dimension d"
  shows "held_sum db (s, k, d) = 0"
  unfolding held_sum_eq
proof (rule amount_at_absent, rule notI)
  assume "(s, k, d) \<in> ri_quota ` set (map ir_item (filter (\<lambda>r. is_held db (ir_hold r)) (qd_items db)))"
  then obtain r where "r \<in> set (qd_items db)" "ri_quota (ir_item r) = (s, k, d)" by auto
  then show False using item_not_ceiling [OF assms(1)] assms(2) by blast
qed

lemma expected_reserved_eq: "ledger_shape db \<Longrightarrow> expected_reserved db q = held_sum db (quota_key q)"
  using held_sum_ceiling by (simp add: expected_reserved_def quota_key_def)

section \<open>Shifting counters\<close>

definition bump :: "(quota_key \<Rightarrow> int) \<Rightarrow> resource_quota \<Rightarrow> resource_quota" where
  "bump f q = q\<lparr>q_reserved := q_reserved q + f (quota_key q)\<rparr>"

definition shift_quotas :: "(quota_key \<Rightarrow> int) \<Rightarrow> quotadb \<Rightarrow> quotadb" where
  "shift_quotas f db = db\<lparr>qd_quotas := map (bump f) (qd_quotas db)\<rparr>"

lemma bump_fields [simp]:
  "quota_key (bump f q) = quota_key q" "q_scope (bump f q) = q_scope q" "q_key (bump f q) = q_key q"
  "q_dim (bump f q) = q_dim q" "q_limit (bump f q) = q_limit q"
  "q_reserved (bump f q) = q_reserved q + f (quota_key q)"
  by (simp_all add: bump_def quota_key_def)

lemma shift_fields [simp]:
  "qd_quotas (shift_quotas f db) = map (bump f) (qd_quotas db)"
  "qd_headers (shift_quotas f db) = qd_headers db" "qd_items (shift_quotas f db) = qd_items db"
  by (simp_all add: shift_quotas_def)

lemma bump_bump: "bump f (bump g q) = bump (\<lambda>k. g k + f k) q"
  by (simp add: bump_def quota_key_def)

lemma shift_shift: "shift_quotas f (shift_quotas g db) = shift_quotas (\<lambda>k. g k + f k) db"
  by (simp add: shift_quotas_def bump_bump comp_def)

lemma shift_zero: "(\<And>q. q \<in> set (qd_quotas db) \<Longrightarrow> f (quota_key q) = 0) \<Longrightarrow> shift_quotas f db = db"
  by (cases db) (auto simp: shift_quotas_def bump_def intro: map_idI)

lemma shift_cong:
  "(\<And>q. q \<in> set (qd_quotas db) \<Longrightarrow> f (quota_key q) = g (quota_key q)) \<Longrightarrow> shift_quotas f db = shift_quotas g db"
  by (auto simp: shift_quotas_def bump_def)

lemma shift_items: "shift_quotas f (db\<lparr>qd_items := x\<rparr>) = (shift_quotas f db)\<lparr>qd_items := x\<rparr>"
  by (simp add: shift_quotas_def)

lemma shift_same_items [simp]: "(shift_quotas f db)\<lparr>qd_items := qd_items db\<rparr> = shift_quotas f db"
  by (simp add: shift_quotas_def)

lemma shift_headers: "shift_quotas f (db\<lparr>qd_headers := x\<rparr>) = (shift_quotas f db)\<lparr>qd_headers := x\<rparr>"
  by (simp add: shift_quotas_def)

lemma held_sum_shift [simp]: "held_sum (shift_quotas f db) k = held_sum db k"
  by (rule held_sum_frame) simp_all

lemma find_quota_shift: "find_quota k (shift_quotas f db) = map_option (bump f) (find_quota k db)"
proof -
  have "find_row quota_key k (map (bump f) rows) = map_option (bump f) (find_row quota_key k rows)" for rows
    by (induction rows) (auto simp: find_row_Cons)
  then show ?thesis by (simp add: find_quota_def)
qed

lemma counters_off_shift:
  "counters_off adj (shift_quotas f db) \<longleftrightarrow> counters_off (\<lambda>k. adj k - f k) db"
  by (auto simp: counters_off_def)

lemma write_quota_shift:
  assumes d: "distinct (map quota_key (qd_quotas db))" and q: "q \<in> set (qd_quotas db)"
    and g: "\<not> (v > q_limit q \<and> v > q_reserved q)" and c: "quota_check (q\<lparr>q_reserved := v\<rparr>) = None"
  shows "write_quota (q\<lparr>q_reserved := v\<rparr>) db
    = Inr ((), shift_quotas (\<lambda>k. if k = quota_key q then v - q_reserved q else 0) db)"
proof -
  let ?new = "q\<lparr>q_reserved := v\<rparr>" and ?f = "\<lambda>k. if k = quota_key q then v - q_reserved q else 0"
  have key: "quota_key ?new = quota_key q" by (simp add: quota_key_def)
  have find: "find_quota (quota_key ?new) db = Some q" using d q by (simp add: find_quota_Some key)
  have "put_row quota_key ?new (qd_quotas db) = map (bump ?f) (qd_quotas db)"
    unfolding put_row_def
  proof (rule map_cong [OF refl])
    fix x assume x: "x \<in> set (qd_quotas db)"
    show "(if quota_key x = quota_key ?new then ?new else x) = bump ?f x"
    proof (cases "quota_key x = quota_key q")
      case True
      then have "x = q" using d q x by (auto simp: distinct_map dest: inj_onD)
      then show ?thesis by (simp add: key bump_def)
    next
      case False
      then show ?thesis by (simp add: key bump_def)
    qed
  qed
  moreover have "shift_quotas ?f db = db" if "q = ?new"
  proof (rule shift_zero)
    have "v = q_reserved q" using that by (metis resource_quota.select_convs(5) resource_quota.update_convs(5) resource_quota.surjective)
    then show "?f (quota_key x) = 0" for x by simp
  qed
  ultimately show ?thesis
    using find g c by (auto simp: write_quota_def quota_within_limit_guard_def shift_quotas_def)
qed

section \<open>Taking capacity\<close>

definition admits :: "quotadb \<Rightarrow> reservation_item \<Rightarrow> bool" where
  "admits db i = (case find_quota (ri_quota i) db of
      None \<Rightarrow> False | Some q \<Rightarrow> q_reserved q + ri_amount i \<le> q_limit q)"

definition refusal :: "quotadb \<Rightarrow> reservation_item \<Rightarrow> exn" where
  "refusal db i = (case find_quota (ri_quota i) db of
      None \<Rightarrow> LookupError | Some q \<Rightarrow> quota_exceeded (ri_quota i))"

definition hold_rows :: "nat \<Rightarrow> reservation_item list \<Rightarrow> item_row list" where
  "hold_rows k items = map (\<lambda>i. \<lparr>ir_hold = k, ir_item = i\<rparr>) items"

text \<open>What the loop needs of the state it runs on.\<close>

definition hold_ready :: "quotadb \<Rightarrow> nat \<Rightarrow> bool \<Rightarrow> reservation_item list \<Rightarrow> bool" where
  "hold_ready db k ins items \<longleftrightarrow>
     distinct (map quota_key (qd_quotas db)) \<and> (\<forall>q \<in> set (qd_quotas db). resource_quota_post_init q = Inr ())
     \<and> distinct (map ri_quota items) \<and> (\<forall>i \<in> set items. reservation_item_post_init i = Inr ())
     \<and> (ins \<longrightarrow> k \<in> h_id ` set (qd_headers db)
          \<and> (\<forall>i \<in> set items. \<forall>r \<in> set (qd_items db). ir_hold r = k \<longrightarrow> ri_quota (ir_item r) \<noteq> ri_quota i))"

definition taken :: "nat \<Rightarrow> bool \<Rightarrow> reservation_item list \<Rightarrow> quotadb \<Rightarrow> quotadb" where
  "taken k ins items db = (shift_quotas (\<lambda>x. amount_at x items) db)
     \<lparr>qd_items := qd_items db @ (if ins then hold_rows k items else [])\<rparr>"

lemma quota_post_init_iff:
  "resource_quota_post_init q = Inr () \<longleftrightarrow> nonempty (q_key q) \<and> 0 \<le> q_limit q \<and> 0 \<le> q_reserved q
     \<and> (ceiling_dimension (q_dim q) \<longrightarrow> q_reserved q = 0)"
  by (auto simp: resource_quota_post_init_def)

lemma quota_check_iff:
  "quota_check q = None \<longleftrightarrow> 0 \<le> q_limit q \<and> 0 \<le> q_reserved q
     \<and> (ceiling_dimension (q_dim q) \<longrightarrow> q_reserved q = 0)"
  by (auto simp: quota_check_def)

lemma hold_one:
  assumes ready: "hold_ready db k ins (i # rest)" and adm: "admits db i"
  shows "hold_items (i # rest) k ins db = hold_items rest k ins (taken k ins [i] db)"
    and "hold_ready (taken k ins [i] db) k ins rest"
    and "\<And>j. j \<in> set rest \<Longrightarrow> admits (taken k ins [i] db) j = admits db j
        \<and> refusal (taken k ins [i] db) j = refusal db j"
proof -
  have d: "distinct (map quota_key (qd_quotas db))" and iok: "reservation_item_post_init i = Inr ()"
    and other: "ri_quota i \<notin> ri_quota ` set rest"
    using ready by (auto simp: hold_ready_def)
  obtain q where q: "q \<in> set (qd_quotas db)" "quota_key q = ri_quota i"
    and fit: "q_reserved q + ri_amount i \<le> q_limit q"
    using adm find_quota_Some [OF d] by (auto simp: admits_def split: option.splits)
  have find: "find_quota (ri_quota i) db = Some q" using q find_quota_Some [OF d] by simp
  have qok: "resource_quota_post_init q = Inr ()" using ready q by (auto simp: hold_ready_def)
  have nc: "\<not> ceiling_dimension (q_dim q)"
    using item_ok_facts(2) [OF iok] q(2) by (simp add: quota_key_def ri_quota_def)
  let ?f = "\<lambda>x. if x = quota_key q then ri_amount i else 0"
  have eq_f: "(\<lambda>x. amount_at x [i]) = ?f" using q(2) by (auto simp: amount_at_Cons)
  have wr: "write_quota (q\<lparr>q_reserved := q_reserved q + ri_amount i\<rparr>) db = Inr ((), shift_quotas ?f db)"
    using write_quota_shift [OF d q(1), of "q_reserved q + ri_amount i"] fit qok nc item_ok_facts(1) [OF iok]
    by (simp add: quota_check_iff quota_post_init_iff)
  have ins_ok: "insert_item \<lparr>ir_hold = k, ir_item = i\<rparr> (shift_quotas ?f db)
      = Inr ((), (shift_quotas ?f db)\<lparr>qd_items := qd_items db @ hold_rows k [i]\<rparr>)" if ins
  proof -
    have "\<not> (\<exists>r' \<in> set (qd_items db). ir_hold r' = k \<and> ri_quota (ir_item r') = ri_quota i)"
      using ready that by (auto simp: hold_ready_def)
    moreover have "k \<in> h_id ` set (qd_headers db)" using ready that by (simp add: hold_ready_def)
    moreover have "ri_quota i \<in> quota_key ` set (map (bump ?f) (qd_quotas db))"
      using q by (force simp: image_image)
    ultimately show ?thesis
      using item_ok_facts(1) [OF iok] by (auto simp: insert_item_def hold_rows_def)
  qed
  have tk: "taken k ins [i] db
      = (shift_quotas ?f db)\<lparr>qd_items := qd_items db @ (if ins then hold_rows k [i] else [])\<rparr>"
    by (simp only: taken_def eq_f)
  show "hold_items (i # rest) k ins db = hold_items rest k ins (taken k ins [i] db)"
    unfolding tk using fit find wr ins_ok
    by (cases ins) (simp_all add: tx_bind_def tx_get_def tx_some_def tx_guard_def tx_ret_def)
  show "hold_ready (taken k ins [i] db) k ins rest"
    using ready fit qok nc item_ok_facts(1) [OF iok] other
    by (auto simp: hold_ready_def tk hold_rows_def comp_def quota_post_init_iff)
      (auto simp: quota_key_def)
  fix j assume "j \<in> set rest"
  then have ne: "ri_quota j \<noteq> ri_quota i" using not_in_keys [OF other] by blast
  have fj: "find_quota (ri_quota j) (taken k ins [i] db) = map_option (bump ?f) (find_quota (ri_quota j) db)"
    using find_quota_shift [of "ri_quota j" ?f db] by (simp add: tk find_quota_def)
  have "bump ?f x = x" if "find_quota (ri_quota j) db = Some x" for x
    using that ne q(2) by (auto simp: find_quota_Some [OF d] bump_def)
  then show "admits (taken k ins [i] db) j = admits db j \<and> refusal (taken k ins [i] db) j = refusal db j"
    unfolding admits_def refusal_def fj by (auto split: option.splits)
qed

lemma taken_taken: "taken k ins rest (taken k ins [i] db) = taken k ins (i # rest) db"
proof -
  have "(\<lambda>x. amount_at x [i] + amount_at x rest) = (\<lambda>x. amount_at x (i # rest))"
    by (simp add: amount_at_Cons fun_eq_iff)
  then show ?thesis
    by (cases ins) (simp_all add: taken_def shift_items shift_shift hold_rows_def)
qed

text \<open>
  The whole loop: the first item that does not fit decides the error; when all fit, every counter
  has grown by exactly the amounts asked of it.
\<close>

lemma hold_items_eq:
  "hold_ready db k ins items \<Longrightarrow> hold_items items k ins db =
     (case List.find (\<lambda>i. \<not> admits db i) items of
        Some i \<Rightarrow> Inl (refusal db i)
      | None \<Rightarrow> Inr ((), taken k ins items db))"
proof (induction items arbitrary: db)
  case Nil
  have "shift_quotas (\<lambda>x. amount_at x []) db = db" by (rule shift_zero) simp
  then have "taken k ins [] db = db" by (simp add: taken_def hold_rows_def)
  then show ?case by (simp add: tx_ret_def)
next
  case (Cons i rest)
  show ?case
  proof (cases "admits db i")
    case True
    note one = hold_one [OF Cons.prems True]
    have "List.find (\<lambda>i. \<not> admits (taken k ins [i'] db) i) rest = List.find (\<lambda>i. \<not> admits db i) rest"
      if "i' = i" for i'
      using one(3) that by (intro find_cong) auto
    then show ?thesis
      using Cons.IH [OF one(2)] one(1,3) True
      by (auto simp: taken_taken split: option.splits dest!: find_Some_iff [THEN iffD1])
  next
    case False
    have "hold_items (i # rest) k ins db = Inl (refusal db i)"
      using False by (auto simp: admits_def refusal_def tx_bind_def tx_get_def tx_some_def tx_guard_def
          tx_raise_def tx_ret_def split: option.splits)
    with False show ?thesis by simp
  qed
qed

end
