(* ===== verification/Quota_Methods.thy ===== *)
theory Quota_Methods
  imports Quota_Inv
begin

text \<open>
  The ledger's methods one by one: each is computed in closed form on a well-formed ledger and
  shown to keep the invariant, and none of them trips a trigger or a constraint other than the
  reservation's primary key.
\<close>

section \<open>Giving capacity back\<close>

lemma release_items_eq:
  "distinct (map quota_key (qd_quotas db)) \<Longrightarrow> \<forall>q \<in> set (qd_quotas db). resource_quota_post_init q = Inr ()
   \<Longrightarrow> \<forall>i \<in> set items. reservation_item_post_init i = Inr ()
   \<Longrightarrow> \<forall>q \<in> set (qd_quotas db). amount_at (quota_key q) items \<le> q_reserved q
   \<Longrightarrow> release_items items db = Inr ((), shift_quotas (\<lambda>k. - amount_at k items) db)"
proof (induction items arbitrary: db)
  case Nil
  have "shift_quotas (\<lambda>k. - amount_at k []) db = db" by (rule shift_zero) simp
  then show ?case by (simp add: tx_ret_def)
next
  case (Cons i rest)
  have iok: "reservation_item_post_init i = Inr ()" and rok: "\<forall>i \<in> set rest. reservation_item_post_init i = Inr ()"
    using Cons.prems(3) by auto
  have rest0: "0 \<le> amount_at k rest" for k
    by (rule amount_at_nonneg) (use rok item_ok_facts(1) in force)
  show ?case
  proof (cases "find_quota (ri_quota i) db")
    case None
    have none: "quota_key q \<noteq> ri_quota i" if "q \<in> set (qd_quotas db)" for q
      using None that by (simp add: find_quota_def find_row_None_iff)
    have le: "\<forall>q \<in> set (qd_quotas db). amount_at (quota_key q) rest \<le> q_reserved q"
    proof
      fix q assume q: "q \<in> set (qd_quotas db)"
      then have "quota_key q \<noteq> ri_quota i" by (rule none)
      moreover from Cons.prems(4) q have "amount_at (quota_key q) (i # rest) \<le> q_reserved q" by blast
      ultimately show "amount_at (quota_key q) rest \<le> q_reserved q" by (simp add: amount_at_Cons)
    qed
    have "shift_quotas (\<lambda>k. - amount_at k rest) db = shift_quotas (\<lambda>k. - amount_at k (i # rest)) db"
    proof (rule shift_cong)
      fix q assume "q \<in> set (qd_quotas db)"
      then have "quota_key q \<noteq> ri_quota i" by (rule none)
      then show "- amount_at (quota_key q) rest = - amount_at (quota_key q) (i # rest)"
        by (simp add: amount_at_Cons)
    qed
    with Cons.IH [OF Cons.prems(1,2) rok le] None show ?thesis
      by (simp add: tx_bind_def tx_get_def tx_ret_def)
  next
    case (Some q)
    then have q: "q \<in> set (qd_quotas db)" "quota_key q = ri_quota i"
      using find_quota_Some [OF Cons.prems(1)] by auto
    let ?f = "\<lambda>k. if k = quota_key q then - ri_amount i else 0"
    have big: "ri_amount i + amount_at (quota_key q) rest \<le> q_reserved q"
      using Cons.prems(4) q by (auto simp: amount_at_Cons)
    have a: "0 < ri_amount i" by (rule item_ok_facts(1) [OF iok])
    have mx: "max (q_reserved q - ri_amount i) 0 = q_reserved q - ri_amount i"
      using big rest0 [of "quota_key q"] by simp
    have nc: "\<not> ceiling_dimension (q_dim q)"
      using item_ok_facts(2) [OF iok] q(2) by (simp add: quota_key_def ri_quota_def)
    have qok: "resource_quota_post_init q = Inr ()" using Cons.prems(2) q by blast
    have wr: "write_quota (q\<lparr>q_reserved := q_reserved q - ri_amount i\<rparr>) db = Inr ((), shift_quotas ?f db)"
      using write_quota_shift [OF Cons.prems(1) q(1), of "q_reserved q - ri_amount i"] a nc qok big
        rest0 [of "quota_key q"]
      by (simp add: quota_check_iff quota_post_init_iff)
    have p1: "distinct (map quota_key (qd_quotas (shift_quotas ?f db)))"
      using Cons.prems(1) by (simp add: comp_def)
    have p2: "\<forall>x \<in> set (qd_quotas (shift_quotas ?f db)). resource_quota_post_init x = Inr ()"
    proof -
      have "resource_quota_post_init (bump ?f x) = Inr ()" if x: "x \<in> set (qd_quotas db)" for x
      proof (cases "quota_key x = quota_key q")
        case True
        then have "x = q" using Cons.prems(1) x q(1) by (auto simp: distinct_map dest: inj_onD)
        then show ?thesis using qok nc big rest0 [of "quota_key q"] a by (simp add: quota_post_init_iff)
      next
        case False
        then show ?thesis using Cons.prems(2) x by (simp add: quota_post_init_iff)
      qed
      then show ?thesis by simp
    qed
    have p4: "\<forall>x \<in> set (qd_quotas (shift_quotas ?f db)). amount_at (quota_key x) rest \<le> q_reserved x"
    proof -
      have "amount_at (quota_key x) rest \<le> q_reserved (bump ?f x)" if x: "x \<in> set (qd_quotas db)" for x
      proof -
        have "amount_at (quota_key x) (i # rest) \<le> q_reserved x" using Cons.prems(4) x by blast
        then show ?thesis by (cases "quota_key x = ri_quota i") (simp_all add: amount_at_Cons q(2))
      qed
      then show ?thesis by simp
    qed
    have "(\<lambda>k. ?f k + - amount_at k rest) = (\<lambda>k. - amount_at k (i # rest))"
      using q(2) by (auto simp: amount_at_Cons fun_eq_iff)
    then have "release_items rest (shift_quotas ?f db) = Inr ((), shift_quotas (\<lambda>k. - amount_at k (i # rest)) db)"
      using Cons.IH [OF p1 p2 rok p4] by (simp add: shift_shift)
    then show ?thesis using Some wr mx by (simp add: tx_bind_def tx_get_def)
  qed
qed

section \<open>Headers and held sums\<close>

definition add_header :: "hold_header \<Rightarrow> quotadb \<Rightarrow> quotadb" where
  "add_header h db = db\<lparr>qd_headers := qd_headers db @ [h]\<rparr>"

definition set_header :: "hold_header \<Rightarrow> quotadb \<Rightarrow> quotadb" where
  "set_header h db = db\<lparr>qd_headers := put_row h_id h (qd_headers db)\<rparr>"

lemma header_fields [simp]:
  "qd_quotas (add_header h db) = qd_quotas db" "qd_items (add_header h db) = qd_items db"
  "qd_quotas (set_header h db) = qd_quotas db" "qd_items (set_header h db) = qd_items db"
  "qd_headers (add_header h db) = qd_headers db @ [h]"
  "qd_headers (set_header h db) = put_row h_id h (qd_headers db)"
  by (simp_all add: add_header_def set_header_def)

lemma find_quota_headers [simp]:
  "find_quota k (add_header h db) = find_quota k db" "find_quota k (set_header h db) = find_quota k db"
  by (simp_all add: find_quota_def)

lemma is_held_add: "is_held (add_header h db) k \<longleftrightarrow> is_held db k \<or> (h_id h = k \<and> h_state h = Held)"
  by (auto simp: is_held_def)

lemma is_held_set:
  assumes "distinct (map h_id (qd_headers db))" and "old \<in> set (qd_headers db)" and "h_id h = h_id old"
  shows "is_held (set_header h db) k \<longleftrightarrow> (if k = h_id h then h_state h = Held else is_held db k)"
proof -
  have "set (put_row h_id h (qd_headers db)) = insert h {x \<in> set (qd_headers db). h_id x \<noteq> h_id h}"
    using assms(2,3) by (force simp: put_row_def)
  then show ?thesis by (auto simp: is_held_def)
qed

lemma held_iff:
  assumes "distinct (map h_id (qd_headers db))" and "h \<in> set (qd_headers db)"
  shows "is_held db (h_id h) \<longleftrightarrow> h_state h = Held"
  using assms inj_onD [of h_id "set (qd_headers db)"] by (auto simp: is_held_def distinct_map)

text \<open>Holding a reservation adds its items to the held sums, releasing it takes them away.\<close>

lemma held_sum_gain:
  assumes "\<not> is_held db k0" and "\<And>k. is_held db' k \<longleftrightarrow> is_held db k \<or> k = k0" and "qd_items db' = qd_items db"
  shows "held_sum db' x = held_sum db x + amount_at x (items_of k0 (qd_items db))"
  unfolding held_sum_eq using amount_split [where P = "is_held db" and ?k0.0 = k0, OF assms(1)] assms(2,3) by simp

lemma held_sum_taken:
  "held_sum (taken k True items db) x = held_sum db x + (if is_held db k then amount_at x items else 0)"
proof -
  have "filter (\<lambda>r. is_held db (ir_hold r)) (hold_rows k items) = (if is_held db k then hold_rows k items else [])"
    by (simp add: hold_rows_def filter_map comp_def)
  moreover have "map ir_item (hold_rows k items) = items" by (simp add: hold_rows_def comp_def)
  moreover have "is_held (taken k True items db) j = is_held db j" for j
    by (simp add: is_held_def taken_def)
  ultimately show ?thesis
    by (simp add: held_sum_eq amount_at_append) (simp add: taken_def amount_at_append)
qed

section \<open>Reserving\<close>

definition ceiling_ok :: "quotadb \<Rightarrow> ceiling_requirement \<Rightarrow> bool" where
  "ceiling_ok db c = (case find_quota (cr_quota c) db of
      None \<Rightarrow> False | Some q \<Rightarrow> cr_required c \<le> q_limit q)"

definition ceiling_refusal :: "quotadb \<Rightarrow> ceiling_requirement \<Rightarrow> exn" where
  "ceiling_refusal db c = (case find_quota (cr_quota c) db of
      None \<Rightarrow> LookupError | Some q \<Rightarrow> quota_exceeded (cr_quota c))"

lemma check_ceilings_eq:
  "check_ceilings cs db = (case List.find (\<lambda>c. \<not> ceiling_ok db c) cs of
      Some c \<Rightarrow> Inl (ceiling_refusal db c) | None \<Rightarrow> Inr ((), db))"
  by (induction cs) (auto simp: ceiling_ok_def ceiling_refusal_def tx_bind_def tx_get_def tx_some_def
      tx_guard_def tx_ret_def tx_raise_def split: option.splits)

definition demand_ok :: "resource_demand \<Rightarrow> bool" where
  "demand_ok d \<longleftrightarrow> resource_demand_post_init d = Inr ()
     \<and> all_valid reservation_item_post_init (dm_items d)
     \<and> all_valid ceiling_requirement_post_init (dm_ceilings d)"

definition demand_header :: "nat \<Rightarrow> instant \<Rightarrow> resource_demand \<Rightarrow> hold_header" where
  "demand_header k created d = \<lparr>h_id = k, h_worker = dm_worker d, h_comp = dm_comp d, h_team = dm_team d,
     h_chal = dm_chal d, h_state = Held, h_expires = dm_expires d, h_released = None, h_created = created\<rparr>"

lemma demand_header_fields [simp]:
  "h_id (demand_header k c d) = k" "h_state (demand_header k c d) = Held"
  "h_worker (demand_header k c d) = dm_worker d" "h_released (demand_header k c d) = None"
  by (simp_all add: demand_header_def)

lemma demand_okD:
  assumes "demand_ok d"
  shows "distinct (map ri_quota (dm_items d))" "i \<in> set (dm_items d) \<Longrightarrow> reservation_item_post_init i = Inr ()"
    "nonempty (dm_worker d)"
  using assms by (auto simp: demand_ok_def all_valid_iff resource_demand_post_init_def split: if_splits)

lemma sorted_items_facts:
  "set (sorted_items d) = set (dm_items d)" "amount_at k (sorted_items d) = amount_at k (dm_items d)"
  "distinct (map ri_quota (dm_items d)) \<Longrightarrow> distinct (map ri_quota (sorted_items d))"
proof -
  show "set (sorted_items d) = set (dm_items d)" by (simp add: sorted_items_def)
  show "amount_at k (sorted_items d) = amount_at k (dm_items d)" by (simp add: sorted_items_def)
  assume d: "distinct (map ri_quota (dm_items d))"
  have "mset (map ri_quota (sorted_items d)) = mset (map ri_quota (dm_items d))"
    by (simp add: sorted_items_def)
  with d show "distinct (map ri_quota (sorted_items d))" by (metis mset_eq_imp_distinct_iff)
qed

lemma reserve_ready:
  assumes shape: "ledger_shape db" and d: "demand_ok d" and fresh: "k \<notin> h_id ` set (qd_headers db)"
  shows "hold_ready (add_header (demand_header k created d) db) k True (sorted_items d)"
proof -
  have "ir_hold r \<noteq> k" if "r \<in> set (qd_items db)" for r
    using ledger_shapeD(7) [OF shape that] fresh by auto
  then show ?thesis
    using ledger_shapeD(1,4) [OF shape] demand_okD [OF d] sorted_items_facts [where d = d]
    by (auto simp: hold_ready_def)
qed

lemma admits_header [simp]:
  "admits (add_header h db) i = admits db i" "refusal (add_header h db) i = refusal db i"
  "admits (set_header h db) i = admits db i" "refusal (set_header h db) i = refusal db i"
  "ceiling_ok (add_header h db) c = ceiling_ok db c" "ceiling_refusal (add_header h db) c = ceiling_refusal db c"
  by (simp_all add: admits_def refusal_def ceiling_ok_def ceiling_refusal_def)

lemma reserve_eq:
  assumes shape: "ledger_shape db" and d: "demand_ok d" and id: "dm_id d = Uid k"
  shows "reserve created d db =
    (if k \<in> h_id ` set (qd_headers db) then Inl (IntegrityError ''pk_quota_reservations'')
     else case List.find (\<lambda>c. \<not> ceiling_ok db c) (dm_ceilings d) of
         Some c \<Rightarrow> Inl (ceiling_refusal db c)
       | None \<Rightarrow> (case List.find (\<lambda>i. \<not> admits db i) (sorted_items d) of
             Some i \<Rightarrow> Inl (refusal db i)
           | None \<Rightarrow> Inr (header_reservation (demand_header k created d) (dm_items d),
               taken k True (sorted_items d) (add_header (demand_header k created d) db))))"
proof (cases "k \<in> h_id ` set (qd_headers db)")
  case True
  then have "insert_header (demand_header k created d) db = Inl (IntegrityError ''pk_quota_reservations'')"
    using demand_okD(3) [OF d] by (simp add: insert_header_def)
  with True show ?thesis
    unfolding reserve_def id as_uuid.simps tx_some_cases tx_bind_ret Let_def demand_header_def [symmetric]
    by (simp add: tx_bind_fail)
next
  case False
  let ?h = "demand_header k created d"
  have ins: "insert_header ?h db = Inr ((), add_header ?h db)"
    using demand_okD(3) [OF d] False by (simp add: insert_header_def add_header_def)
  have rv: "reservation_from_orm ?h (dm_items d) x = Inr (header_reservation ?h (dm_items d), x)" for x
    using demand_okD(3) [OF d]
    by (simp add: reservation_from_orm_def header_reservation_def reservation_post_init_def tx_ret_def)
  have step: "reserve created d db = tx_bind (check_ceilings (dm_ceilings d)) (\<lambda>_.
     tx_bind (hold_items (sorted_items d) k True) (\<lambda>_. reservation_from_orm ?h (dm_items d))) (add_header ?h db)"
    unfolding reserve_def id as_uuid.simps tx_some_cases tx_bind_ret Let_def demand_header_def [symmetric]
    by (simp only: tx_bind_def [of "insert_header h" for h] ins sum.case prod.case)
  note loop = hold_items_eq [OF reserve_ready [OF shape d False, of created]]
  show ?thesis
    unfolding step
    by (cases "List.find (\<lambda>c. \<not> ceiling_ok db c) (dm_ceilings d)";
        cases "List.find (\<lambda>i. \<not> admits db i) (sorted_items d)")
      (simp_all add: False tx_bind_def check_ceilings_eq loop rv)
qed

lemma within_taken:
  assumes "within_limits db" and d: "distinct (map quota_key (qd_quotas db))"
    and items: "distinct (map ri_quota items)" and adm: "\<forall>i \<in> set items. admits db i"
  shows "within_limits (taken k ins items db)"
proof -
  have "q_reserved q + amount_at (quota_key q) items \<le> q_limit q" if q: "q \<in> set (qd_quotas db)" for q
  proof (cases "quota_key q \<in> ri_quota ` set items")
    case True
    then obtain i where i: "i \<in> set items" "quota_key q = ri_quota i" by auto
    have "find_quota (ri_quota i) db = Some q" using q i(2) by (simp add: find_quota_Some [OF d])
    then show ?thesis using adm i amount_at_distinct [OF items i(1)] by (auto simp: admits_def)
  next
    case False
    then show ?thesis using assms(1) q by (simp add: amount_at_absent within_limits_def)
  qed
  then show ?thesis by (simp add: within_limits_def taken_def)
qed

lemma taken_quotas_ok:
  assumes qs: "\<forall>q \<in> set (qd_quotas db). resource_quota_post_init q = Inr ()"
    and items: "\<forall>i \<in> set items. reservation_item_post_init i = Inr ()"
  shows "\<forall>q \<in> set (qd_quotas (taken k ins items db)). resource_quota_post_init q = Inr ()"
proof -
  have "resource_quota_post_init (bump (\<lambda>x. amount_at x items) q) = Inr ()" if q: "q \<in> set (qd_quotas db)" for q
  proof -
    have "0 \<le> amount_at (quota_key q) items"
      by (rule amount_at_nonneg) (use items item_ok_facts(1) in force)
    moreover have "amount_at (quota_key q) items = 0" if c: "ceiling_dimension (q_dim q)"
    proof (rule amount_at_absent, rule notI)
      assume "quota_key q \<in> ri_quota ` set items"
      then obtain i where "i \<in> set items" "quota_key q = ri_quota i" by auto
      then show False using items item_ok_facts(2) [of i] c by (auto simp: quota_key_def ri_quota_def)
    qed
    ultimately show ?thesis using qs q by (auto simp: quota_post_init_iff)
  qed
  then show ?thesis by (simp add: taken_def)
qed

lemma reserve_ok:
  assumes ok: "quotadb_ok db" and d: "demand_ok d" and fresh: "k \<notin> h_id ` set (qd_headers db)"
    and adm: "\<forall>i \<in> set (sorted_items d). admits db i"
  shows "quotadb_ok (taken k True (sorted_items d) (add_header (demand_header k created d) db))"
proof -
  let ?h = "demand_header k created d" and ?s = "sorted_items d"
  let ?db1 = "add_header ?h db" and ?db2 = "taken k True ?s (add_header ?h db)"
  note shape = quotadb_okD(1) [OF ok]
  note items = demand_okD [OF d] sorted_items_facts [where d = d]
  have old: "ir_hold r \<noteq> k" if "r \<in> set (qd_items db)" for r
    using ledger_shapeD(7) [OF shape that] fresh by auto
  have sum1: "held_sum ?db1 x = held_sum db x" for x
  proof -
    have "is_held ?db1 (ir_hold r) = is_held db (ir_hold r)" if "r \<in> set (qd_items db)" for r
      using old [OF that] by (simp add: is_held_add)
    then show ?thesis by (simp add: held_sum_eq cong: filter_cong)
  qed
  have "is_held ?db1 k" by (simp add: is_held_add)
  then have sum2: "held_sum ?db2 x = held_sum db x + amount_at x ?s" for x
    by (simp add: held_sum_taken sum1)
  have keyed: "ri_quota i \<in> quota_key ` set (qd_quotas db)" if "i \<in> set ?s" for i
  proof -
    have "admits db i" using adm that by blast
    then obtain q where "find_quota (ri_quota i) db = Some q"
      by (auto simp: admits_def split: option.splits)
    then have "q \<in> set (qd_quotas db)" "ri_quota i = quota_key q"
      by (simp_all add: find_quota_Some [OF ledger_shapeD(1) [OF shape]])
    then show ?thesis by (rule rev_image_eqI)
  qed
  have "distinct (map (\<lambda>r. (ir_hold r, ri_quota (ir_item r))) (hold_rows k ?s))"
    using items(6) [OF items(1)] by (simp add: hold_rows_def comp_def distinct_map inj_on_def)
  moreover have "(\<lambda>r. (ir_hold r, ri_quota (ir_item r))) ` set (qd_items db)
      \<inter> (\<lambda>r. (ir_hold r, ri_quota (ir_item r))) ` set (hold_rows k ?s) = {}"
    using old by (auto simp: hold_rows_def)
  ultimately have dist: "distinct (map (\<lambda>r. (ir_hold r, ri_quota (ir_item r))) (qd_items ?db2))"
    using ledger_shapeD(3) [OF shape] by (simp add: taken_def)
  have "ledger_shape ?db2"
    unfolding ledger_shape_def
  proof (intro conjI)
    show "distinct (map quota_key (qd_quotas ?db2))"
      using ledger_shapeD(1) [OF shape] by (simp add: taken_def comp_def)
    show "distinct (map h_id (qd_headers ?db2))"
      using ledger_shapeD(2) [OF shape] fresh by (simp add: taken_def)
    show "distinct (map (\<lambda>r. (ir_hold r, ri_quota (ir_item r))) (qd_items ?db2))" by (rule dist)
    show "\<forall>q \<in> set (qd_quotas ?db2). resource_quota_post_init q = Inr ()"
      by (rule taken_quotas_ok) (use ledger_shapeD(4) [OF shape] items in auto)
    show "\<forall>h \<in> set (qd_headers ?db2). nonempty (h_worker h) \<and> (h_state h = Released) = (h_released h \<noteq> None)"
      using ledger_shapeD(5) [OF shape] items(3) by (auto simp: taken_def)
    show "\<forall>r \<in> set (qd_items ?db2). reservation_item_post_init (ir_item r) = Inr ()
          \<and> ir_hold r \<in> h_id ` set (qd_headers ?db2) \<and> ri_quota (ir_item r) \<in> quota_key ` set (qd_quotas ?db2)"
      using ledger_shapeD(6-8) [OF shape] items keyed by (auto simp: taken_def hold_rows_def image_image)
  qed
  moreover have "counters_off (\<lambda>_. 0) ?db2"
    using quotadb_okD(2) [OF ok] by (auto simp: counters_off_def sum2) (auto simp: taken_def)
  moreover have "within_limits ?db2"
    by (rule within_taken) (use quotadb_okD(3) [OF ok] ledger_shapeD(1) [OF shape] items adm in
        \<open>auto simp: within_limits_def\<close>)
  ultimately show ?thesis by (simp add: quotadb_ok_def)
qed

end
