(* ===== verification/Quota_Release.thy ===== *)
theory Quota_Release
  imports Quota_Methods
begin

text \<open>
  Releasing, reactivating, renewing, seeding and reconciling: closed forms and preservation of the
  ledger's invariant. A release gives back exactly what the reservation's items hold, a
  reactivation takes it again, and a reconciliation makes every counter exact.
\<close>

section \<open>A reservation's items\<close>

lemma items_of_facts:
  assumes "ledger_shape db"
  shows "distinct (map ri_quota (items_of k (qd_items db)))"
    "i \<in> set (items_of k (qd_items db)) \<Longrightarrow> reservation_item_post_init i = Inr ()"
proof -
  have "distinct (map (\<lambda>r. (ir_hold r, ri_quota (ir_item r))) (filter (\<lambda>r. ir_hold r = k) (qd_items db)))"
    using ledger_shapeD(3) [OF assms] by (simp add: distinct_map_filter)
  then show "distinct (map ri_quota (items_of k (qd_items db)))"
    unfolding items_of_def by (auto simp: distinct_map inj_on_def)
  show "i \<in> set (items_of k (qd_items db)) \<Longrightarrow> reservation_item_post_init i = Inr ()"
    using ledger_shapeD(6) [OF assms] by (auto simp: items_of_def)
qed

lemma items_for_facts:
  assumes "ledger_shape db"
  shows "distinct (map ri_quota (items_for k db))"
    "i \<in> set (items_for k db) \<Longrightarrow> reservation_item_post_init i = Inr ()"
    "amount_at x (items_for k db) = amount_at x (items_of k (qd_items db))"
proof -
  have "mset (map ri_quota (items_for k db)) = mset (map ri_quota (items_of k (qd_items db)))"
    by (simp add: items_for_eq)
  then show "distinct (map ri_quota (items_for k db))"
    using items_of_facts(1) [OF assms] by (metis mset_eq_imp_distinct_iff)
  show "i \<in> set (items_for k db) \<Longrightarrow> reservation_item_post_init i = Inr ()"
    using items_of_facts(2) [OF assms] by (simp add: items_for_eq)
  show "amount_at x (items_for k db) = amount_at x (items_of k (qd_items db))"
    by (simp add: items_for_eq)
qed

lemma items_amount_nonneg: "ledger_shape db \<Longrightarrow> 0 \<le> amount_at x (items_of k (qd_items db))"
  by (rule amount_at_nonneg) (use items_of_facts(2) item_ok_facts(1) in force)

lemma items_amount_ceiling:
  assumes "ledger_shape db" and "ceiling_dimension (q_dim q)"
  shows "amount_at (quota_key q) (items_of k (qd_items db)) = 0"
proof (rule amount_at_absent, rule notI)
  assume "quota_key q \<in> ri_quota ` set (items_of k (qd_items db))"
  then obtain i where i: "i \<in> set (items_of k (qd_items db))" and "quota_key q = ri_quota i" by blast
  then have "q_dim q = ri_dim i" by (simp add: quota_key_def ri_quota_def)
  then show False using item_ok_facts(2) [OF items_of_facts(2) [OF assms(1) i]] assms(2) by simp
qed

lemma held_part:
  assumes "ledger_shape db" and "is_held db k"
  shows "amount_at x (items_of k (qd_items db)) \<le> held_sum db x"
proof -
  let ?rest = "\<lambda>j. is_held db j \<and> j \<noteq> k"
  have "held_sum db x = amount_at x (map ir_item (filter (\<lambda>r. ?rest (ir_hold r) \<or> ir_hold r = k) (qd_items db)))"
    unfolding held_sum_eq using assms(2) by (intro arg_cong [where f = "amount_at x"]) (auto intro!: arg_cong [where f = "map ir_item"] filter_cong)
  also have "\<dots> = amount_at x (map ir_item (filter (\<lambda>r. ?rest (ir_hold r)) (qd_items db)))
      + amount_at x (items_of k (qd_items db))"
    by (rule amount_split [where P = ?rest]) simp
  finally have "held_sum db x = amount_at x (map ir_item (filter (\<lambda>r. ?rest (ir_hold r)) (qd_items db)))
      + amount_at x (items_of k (qd_items db))" .
  moreover have "0 \<le> amount_at x (map ir_item (filter (\<lambda>r. ?rest (ir_hold r)) (qd_items db)))"
    by (rule amount_at_nonneg) (use ledger_shapeD(6) [OF assms(1)] item_ok_facts(1) in force)
  ultimately show ?thesis by simp
qed

text \<open>Changing a header's state leaves the ledger well formed.\<close>

lemma shape_set_header:
  assumes shape: "ledger_shape db" and old: "old \<in> set (qd_headers db)" and "h_id h = h_id old"
    and ok: "nonempty (h_worker h) \<and> (h_state h = Released) = (h_released h \<noteq> None)"
  shows "ledger_shape (set_header h db)"
proof -
  have ids: "h_id ` set (put_row h_id h (qd_headers db)) = h_id ` set (qd_headers db)"
    by (metis list.set_map map_key_put_row)
  have "\<forall>x \<in> set (put_row h_id h (qd_headers db)). nonempty (h_worker x) \<and> (h_state x = Released) = (h_released x \<noteq> None)"
    using ledger_shapeD(5) [OF shape] ok by (blast dest!: set_put_rowD)
  then show ?thesis
    using shape ids by (simp add: ledger_shape_def)
qed

lemma shape_shift:
  assumes shape: "ledger_shape db"
    and "\<And>q. q \<in> set (qd_quotas db) \<Longrightarrow> resource_quota_post_init (bump f q) = Inr ()"
  shows "ledger_shape (shift_quotas f db)"
proof -
  have "quota_key ` set (map (bump f) (qd_quotas db)) = quota_key ` set (qd_quotas db)"
    by (simp add: image_image)
  then show ?thesis
    using shape assms(2) by (simp add: ledger_shape_def comp_def)
qed

section \<open>Release\<close>

definition released_db :: "hold_header \<Rightarrow> instant \<Rightarrow> quotadb \<Rightarrow> quotadb" where
  "released_db h now db =
     set_header (h\<lparr>h_state := Released, h_released := Some now\<rparr>)
       (shift_quotas (\<lambda>x. - amount_at x (items_of (h_id h) (qd_items db))) db)"

lemma reserved_covers:
  assumes ok: "quotadb_ok db" and held: "is_held db k" and q: "q \<in> set (qd_quotas db)"
  shows "amount_at (quota_key q) (items_of k (qd_items db)) \<le> q_reserved q"
proof -
  have "q_reserved q = held_sum db (quota_key q)"
    using quotadb_okD(2) [OF ok] q by (simp add: counters_off_def)
  then show ?thesis using held_part [OF quotadb_okD(1) [OF ok] held] by simp
qed

lemma release_eq:
  assumes ok: "quotadb_ok db"
  shows "release i now db = (case as_uuid i of
      None \<Rightarrow> Inr (False, db)
    | Some k \<Rightarrow> (case find_hold k db of
        None \<Rightarrow> Inr (False, db)
      | Some h \<Rightarrow> if h_state h = Held then Inr (True, released_db h now db) else Inr (False, db)))"
proof (cases "as_uuid i")
  case None
  then show ?thesis by (simp add: release_def tx_ret_def)
next
  case (Some k)
  note shape = quotadb_okD(1) [OF ok]
  show ?thesis
  proof (cases "find_hold k db")
    case None
    then show ?thesis by (simp add: release_def Some locked_header_def tx_bind_get tx_ret_def)
  next
    case hold: (Some h)
    show ?thesis
    proof (cases "h_state h = Held")
      case True
      have h: "h \<in> set (qd_headers db)" "h_id h = k"
        using hold find_hold_Some [OF ledger_shapeD(2) [OF shape]] by auto
      have held: "is_held db k" using h True by (auto simp: is_held_def)
      have "release_items (items_for k db) db
          = Inr ((), shift_quotas (\<lambda>x. - amount_at x (items_for k db)) db)"
        by (rule release_items_eq)
          (use ledger_shapeD(1,4) [OF shape] items_for_facts [OF shape] reserved_covers [OF ok held] in auto)
      then have run: "release_items (items_for k db) db
          = Inr ((), shift_quotas (\<lambda>x. - amount_at x (items_of (h_id h) (qd_items db))) db)"
        by (simp add: items_for_facts(3) [OF shape] h(2))
      show ?thesis
        by (simp add: release_def Some locked_header_def hold True tx_bind_get tx_bind_def
            tx_get_def run write_header_def tx_modify_def tx_ret_def released_db_def set_header_def)
    next
      case False
      then show ?thesis by (simp add: release_def Some locked_header_def hold tx_bind_get tx_ret_def)
    qed
  qed
qed

lemma released_facts:
  assumes ok: "quotadb_ok db" and h: "h \<in> set (qd_headers db)" "h_state h = Held"
  shows "quotadb_ok (released_db h now db)"
    and "is_held (released_db h now db) j \<longleftrightarrow> is_held db j \<and> j \<noteq> h_id h"
proof -
  note shape = quotadb_okD(1) [OF ok]
  let ?f = "\<lambda>x. - amount_at x (items_of (h_id h) (qd_items db))"
  let ?new = "h\<lparr>h_state := Released, h_released := Some now\<rparr>"
  let ?db1 = "shift_quotas ?f db" and ?db2 = "released_db h now db"
  have held: "is_held db (h_id h)" using h by (auto simp: is_held_def)
  have shape1: "ledger_shape ?db1"
  proof (rule shape_shift [OF shape])
    fix q assume q: "q \<in> set (qd_quotas db)"
    show "resource_quota_post_init (bump ?f q) = Inr ()"
      using ledger_shapeD(4) [OF shape q] reserved_covers [OF ok held q] items_amount_ceiling [OF shape, of q]
      by (auto simp: quota_post_init_iff)
  qed
  have shape2: "ledger_shape ?db2"
    unfolding released_db_def
    by (rule shape_set_header [OF shape1, of h]) (use h ledger_shapeD(5) [OF shape h(1)] in auto)
  have held1: "is_held ?db1 j = is_held db j" for j by (simp add: is_held_def)
  show held2: "is_held ?db2 j \<longleftrightarrow> is_held db j \<and> j \<noteq> h_id h" for j
    unfolding released_db_def
    by (subst is_held_set [where old = h]) (use h ledger_shapeD(2) [OF shape] held1 in auto)
  have items2: "qd_items ?db2 = qd_items db" by (simp add: released_db_def)
  have sums: "held_sum db x = held_sum ?db2 x + amount_at x (items_of (h_id h) (qd_items db))" for x
  proof -
    have n: "\<not> is_held ?db2 (h_id h)" using held2 [of "h_id h"] by simp
    have e: "is_held db j \<longleftrightarrow> is_held ?db2 j \<or> j = h_id h" for j using held2 [of j] held by blast
    show ?thesis
      using held_sum_gain [where db = ?db2 and db' = db and ?k0.0 = "h_id h" and x = x, OF n e items2 [symmetric]]
      by (simp only: items2)
  qed
  have quotas2: "qd_quotas ?db2 = map (bump ?f) (qd_quotas db)" by (simp add: released_db_def)
  have "counters_off (\<lambda>_. 0) ?db2"
    using quotadb_okD(2) [OF ok] sums by (simp add: counters_off_def quotas2)
  moreover have "within_limits ?db2"
  proof -
    have "q_reserved (bump ?f q) \<le> q_limit (bump ?f q)" if q: "q \<in> set (qd_quotas db)" for q
    proof -
      have "q_reserved q \<le> q_limit q" using quotadb_okD(3) [OF ok] q by (simp add: within_limits_def)
      then show ?thesis
        using items_amount_nonneg [OF shape, of "quota_key q" "h_id h"] by simp
    qed
    then show ?thesis by (simp add: within_limits_def quotas2)
  qed
  ultimately show "quotadb_ok ?db2" using shape2 by (simp add: quotadb_ok_def)
qed

section \<open>Reactivation\<close>

definition reheld_header :: "hold_header \<Rightarrow> instant \<Rightarrow> hold_header" where
  "reheld_header h t = h\<lparr>h_state := Held, h_released := None, h_expires := t\<rparr>"

definition reheld_db :: "hold_header \<Rightarrow> instant \<Rightarrow> quotadb \<Rightarrow> quotadb" where
  "reheld_db h t db = taken (h_id h) False (items_for (h_id h) db) (set_header (reheld_header h t) db)"

lemma header_read:
  "nonempty (h_worker h) \<Longrightarrow> (h_state h = Released) = (h_released h \<noteq> None) \<Longrightarrow>
     reservation_from_orm h items db = Inr (header_reservation h items, db)"
  by (simp add: reservation_from_orm_def header_reservation_def reservation_post_init_def tx_ret_def)

lemma reactivate_eq:
  assumes ok: "quotadb_ok db"
  shows "reactivate i t db = (case as_uuid i of
      None \<Rightarrow> Inl ValueError
    | Some k \<Rightarrow> (case find_hold k db of
        None \<Rightarrow> Inl LookupError
      | Some h \<Rightarrow>
          if h_state h = Held then Inr (header_reservation h (items_for k db), db)
          else (case List.find (\<lambda>x. \<not> admits db x) (items_for k db) of
              Some x \<Rightarrow> Inl (refusal db x)
            | None \<Rightarrow> Inr (header_reservation (reheld_header h t) (items_for k db), reheld_db h t db))))"
proof (cases "as_uuid i")
  case None
  then show ?thesis by (simp add: reactivate_def tx_some_cases tx_bind_def tx_raise_def)
next
  case (Some k)
  note shape = quotadb_okD(1) [OF ok]
  show ?thesis
  proof (cases "find_hold k db")
    case None
    then show ?thesis
      by (simp add: reactivate_def Some tx_some_cases tx_bind_ret locked_header_def tx_bind_get)
        (simp add: tx_bind_def tx_raise_def)
  next
    case hold: (Some h)
    have h: "h \<in> set (qd_headers db)" "h_id h = k"
      using hold find_hold_Some [OF ledger_shapeD(2) [OF shape]] by auto
    have wk: "nonempty (h_worker h)" "(h_state h = Released) = (h_released h \<noteq> None)"
      using ledger_shapeD(5) [OF shape h(1)] by auto
    show ?thesis
    proof (cases "h_state h = Held")
      case True
      then show ?thesis
        using header_read [OF wk]
        by (simp add: reactivate_def Some tx_some_cases tx_bind_ret locked_header_def tx_bind_get hold)
    next
      case False
      let ?new = "reheld_header h t" and ?db1 = "set_header (reheld_header h t) db"
      have ready: "hold_ready ?db1 k False (items_for k db)"
        using ledger_shapeD(1,4) [OF shape] items_for_facts [OF shape] by (auto simp: hold_ready_def)
      have wr: "write_header ?new db = Inr ((), ?db1)"
        by (simp add: write_header_def reheld_header_def tx_modify_def set_header_def)
      have rd: "reservation_from_orm ?new (items_for k db) x = Inr (header_reservation ?new (items_for k db), x)" for x
        by (rule header_read) (use wk in \<open>simp_all add: reheld_header_def\<close>)
      have step: "reactivate i t db = tx_bind (write_header ?new) (\<lambda>_.
          tx_bind (hold_items (items_for k db) k False) (\<lambda>_. reservation_from_orm ?new (items_for k db))) db"
        using False
        by (simp add: reactivate_def Some tx_some_cases tx_bind_ret locked_header_def tx_bind_get hold
            reheld_header_def [symmetric] Let_def)
      show ?thesis
        unfolding step using False hold_items_eq [OF ready]
        by (simp add: Some hold tx_bind_def wr rd reheld_db_def h(2) split: option.splits)
    qed
  qed
qed

lemma reheld_facts:
  assumes ok: "quotadb_ok db" and h: "h \<in> set (qd_headers db)" "h_state h = Released"
    and adm: "\<forall>i \<in> set (items_for (h_id h) db). admits db i"
  shows "quotadb_ok (reheld_db h t db)"
    and "is_held (reheld_db h t db) j \<longleftrightarrow> is_held db j \<or> j = h_id h"
proof -
  note shape = quotadb_okD(1) [OF ok]
  let ?new = "reheld_header h t" and ?its = "items_for (h_id h) db"
  let ?db1 = "set_header (reheld_header h t) db" and ?db2 = "reheld_db h t db"
  have nh: "\<not> is_held db (h_id h)"
    using held_iff [OF ledger_shapeD(2) [OF shape] h(1)] h(2) by simp
  have shape1: "ledger_shape ?db1"
    by (rule shape_set_header [OF shape h(1)])
      (use ledger_shapeD(5) [OF shape h(1)] in \<open>simp_all add: reheld_header_def\<close>)
  have held1: "is_held ?db1 j \<longleftrightarrow> is_held db j \<or> j = h_id h" for j
    by (subst is_held_set [where old = h]) (use h ledger_shapeD(2) [OF shape] in \<open>auto simp: reheld_header_def\<close>)
  have sh2: "?db2 = shift_quotas (\<lambda>x. amount_at x ?its) ?db1"
    using shift_same_items [where f = "\<lambda>x. amount_at x ?its" and db = ?db1]
    by (simp add: reheld_db_def taken_def)
  show "is_held ?db2 j \<longleftrightarrow> is_held db j \<or> j = h_id h" for j
    using held1 [of j] by (simp add: sh2 is_held_def)
  have shape2: "ledger_shape ?db2"
    unfolding sh2
  proof (rule shape_shift [OF shape1])
    fix q assume q: "q \<in> set (qd_quotas ?db1)"
    then show "resource_quota_post_init (bump (\<lambda>x. amount_at x ?its) q) = Inr ()"
      using ledger_shapeD(4) [OF shape, of q] items_amount_nonneg [OF shape] items_amount_ceiling [OF shape, of q]
      by (auto simp: quota_post_init_iff items_for_facts(3) [OF shape] add_nonneg_nonneg)
  qed
  have sum: "held_sum ?db2 x = held_sum db x + amount_at x ?its" for x
    using held_sum_gain [where db = db and db' = ?db1 and ?k0.0 = "h_id h" and x = x] nh held1
    by (simp add: sh2 items_for_facts(3) [OF shape])
  have "counters_off (\<lambda>_. 0) ?db2"
    using quotadb_okD(2) [OF ok] by (simp add: counters_off_def sum) (simp add: sh2)
  moreover have "within_limits ?db2"
    unfolding reheld_db_def
    by (rule within_taken)
      (use quotadb_okD(3) [OF ok] ledger_shapeD(1) [OF shape] items_for_facts [OF shape] adm in
        \<open>auto simp: within_limits_def\<close>)
  ultimately show "quotadb_ok ?db2" using shape2 by (simp add: quotadb_ok_def)
qed

end
