(* ===== verification/Quota_Reconcile.thy ===== *)
theory Quota_Reconcile
  imports Quota_Release
begin

text \<open>
  Renewing, seeding a limit, and the self-healing sweep. The sweep is computed on any well-formed
  ledger, whatever its counters say: it makes every counter the sum of the held items and returns
  the number of counters it had to change.
\<close>

section \<open>Renew and seed\<close>

lemma renew_eq:
  assumes "ledger_shape db"
  shows "renew i t db = (case as_uuid i of
      None \<Rightarrow> Inl LookupError
    | Some k \<Rightarrow> (case find_hold k db of
        None \<Rightarrow> Inl LookupError
      | Some h \<Rightarrow> if h_state h = Held then Inr ((), set_header (h\<lparr>h_expires := t\<rparr>) db) else Inl LookupError))"
proof (cases "as_uuid i")
  case None
  then show ?thesis by (simp add: renew_def tx_some_cases tx_bind_def tx_raise_def)
next
  case (Some k)
  show ?thesis
  proof (cases "find_hold k db")
    case None
    then show ?thesis
      by (simp add: renew_def Some tx_some_cases tx_bind_ret locked_header_def tx_bind_get tx_raise_def)
  next
    case hold: (Some h)
    then have "(h_state h = Released) = (h_released h \<noteq> None)"
      using ledger_shapeD(2,5) [OF assms] by (auto simp: find_hold_Some)
    then show ?thesis
      by (cases "h_state h") (simp_all add: renew_def Some tx_some_cases tx_bind_ret locked_header_def
          tx_bind_get hold tx_raise_def write_header_def tx_modify_def set_header_def)
  qed
qed

lemma renewed_facts:
  assumes ok: "quotadb_ok db" and h: "h \<in> set (qd_headers db)"
  shows "quotadb_ok (set_header (h\<lparr>h_expires := t\<rparr>) db)"
    and "is_held (set_header (h\<lparr>h_expires := t\<rparr>) db) j = is_held db j"
proof -
  note shape = quotadb_okD(1) [OF ok]
  let ?db = "set_header (h\<lparr>h_expires := t\<rparr>) db"
  show held: "is_held ?db j = is_held db j" for j
    by (subst is_held_set [where old = h])
      (use h ledger_shapeD(2) [OF shape] held_iff [OF ledger_shapeD(2) [OF shape] h] in auto)
  have "ledger_shape ?db"
    by (rule shape_set_header [OF shape h]) (use ledger_shapeD(5) [OF shape h] in auto)
  moreover have "held_sum ?db x = held_sum db x" for x
    unfolding held_sum_eq held by simp
  ultimately show "quotadb_ok ?db"
    using quotadb_okD [OF ok] by (simp add: quotadb_ok_def counters_off_def within_limits_def)
qed

lemma upsert_ok:
  assumes ok: "quotadb_ok db" and q: "resource_quota_post_init q = Inr ()" and z: "q_reserved q = 0"
    and run: "upsert_limit q db = Inr (u, db')"
  shows "quotadb_ok db'" and "is_held db' j = is_held db j"
    and "find_quota (quota_key q) db' = Some (case find_quota (quota_key q) db of None \<Rightarrow> q | Some old \<Rightarrow> old)"
    and "k \<noteq> quota_key q \<Longrightarrow> find_quota k db' = find_quota k db"
    and "qd_headers db' = qd_headers db" "qd_items db' = qd_items db"
proof -
  note shape = quotadb_okD(1) [OF ok]
  have db': "db' = (if quota_key q \<in> quota_key ` set (qd_quotas db) then db
      else db\<lparr>qd_quotas := qd_quotas db @ [q]\<rparr>)"
    using run by (auto simp: upsert_limit_def split: option.splits if_splits)
  show hd: "qd_headers db' = qd_headers db" "qd_items db' = qd_items db" by (simp_all add: db')
  show "is_held db' j = is_held db j" by (simp add: is_held_def hd)
  show "find_quota (quota_key q) db' = Some (case find_quota (quota_key q) db of None \<Rightarrow> q | Some old \<Rightarrow> old)"
    using find_row_None_iff [of quota_key "quota_key q" "qd_quotas db"]
    by (auto simp: db' find_quota_def find_row_append find_row_Cons image_iff split: option.splits)
  show "k \<noteq> quota_key q \<Longrightarrow> find_quota k db' = find_quota k db"
    by (simp add: db' find_quota_def find_row_append find_row_Cons split: option.splits)
  show "quotadb_ok db'"
  proof (cases "quota_key q \<in> quota_key ` set (qd_quotas db)")
    case True
    then show ?thesis using ok by (simp add: db')
  next
    case False
    let ?db = "db\<lparr>qd_quotas := qd_quotas db @ [q]\<rparr>"
    have none: "held_sum db (quota_key q) = 0"
      unfolding held_sum_eq
    proof (rule amount_at_absent, rule notI)
      assume "quota_key q \<in> ri_quota ` set (map ir_item (filter (\<lambda>r. is_held db (ir_hold r)) (qd_items db)))"
      then obtain r where "r \<in> set (qd_items db)" "quota_key q = ri_quota (ir_item r)" by auto
      with ledger_shapeD(8) [OF shape this(1)] False show False by simp
    qed
    have "ledger_shape ?db"
      using shape q False unfolding ledger_shape_def by auto
    moreover have "held_sum ?db x = held_sum db x" for x by (rule held_sum_frame) simp_all
    moreover have "0 \<le> q_limit q" using q by (simp add: quota_post_init_iff)
    ultimately show ?thesis
      using quotadb_okD(2,3) [OF ok] none z False
      by (auto simp: db' quotadb_ok_def counters_off_def within_limits_def)
  qed
qed

lemma upsert_runs:
  "resource_quota_post_init q = Inr () \<Longrightarrow> \<exists>db'. upsert_limit q db = Inr ((), db')"
  by (auto simp: upsert_limit_def quota_post_init_iff quota_check_def)

section \<open>The reconciliation sweep\<close>

definition drift :: "quotadb \<Rightarrow> quota_key \<Rightarrow> int" where
  "drift db k = (case find_quota k db of None \<Rightarrow> 0 | Some q \<Rightarrow> held_sum db k - q_reserved q)"

lemma drift_row:
  "distinct (map quota_key (qd_quotas db)) \<Longrightarrow> q \<in> set (qd_quotas db) \<Longrightarrow>
     drift db (quota_key q) = held_sum db (quota_key q) - q_reserved q"
  using find_quota_Some [of db "quota_key q" q] by (simp add: drift_def)

text \<open>Sums are never negative, so a healed counter satisfies the CHECKs.\<close>

lemma held_sum_nonneg: "ledger_shape db \<Longrightarrow> 0 \<le> held_sum db k"
  unfolding held_sum_eq
  by (rule amount_at_nonneg) (use ledger_shapeD(6) item_ok_facts(1) in force)

definition healable :: "quotadb \<Rightarrow> bool" where
  "healable db \<longleftrightarrow> ledger_shape db \<and> (\<forall>q \<in> set (qd_quotas db). held_sum db (quota_key q) \<le> q_limit q)"

lemma reconcile_rows_eq:
  assumes heal: "healable snap"
  shows "distinct (map quota_key rows) \<Longrightarrow> set rows \<subseteq> set (qd_quotas snap)
    \<Longrightarrow> distinct (map quota_key (qd_quotas db)) \<Longrightarrow> set rows \<subseteq> set (qd_quotas db)
    \<Longrightarrow> reconcile_rows snap rows db =
      Inr (int (length (filter (\<lambda>q. q_reserved q \<noteq> held_sum snap (quota_key q)) rows)),
        shift_quotas (\<lambda>k. if k \<in> quota_key ` set rows then drift snap k else 0) db)"
proof (induction rows arbitrary: db)
  case Nil
  have "shift_quotas (\<lambda>k. if k \<in> quota_key ` set [] then drift snap k else 0) db = db"
    by (rule shift_zero) simp
  then show ?case by (simp add: tx_ret_def)
next
  case (Cons q rows)
  have shape: "ledger_shape snap" using heal by (simp add: healable_def)
  have q: "q \<in> set (qd_quotas snap)" "q \<in> set (qd_quotas db)" using Cons.prems by auto
  let ?v = "held_sum snap (quota_key q)" and ?f = "\<lambda>k. if k = quota_key q then drift snap k else 0"
  let ?g = "\<lambda>k. if k \<in> quota_key ` set rows then drift snap k else 0"
  have exp: "expected_reserved snap q = ?v" by (rule expected_reserved_eq [OF shape])
  have dr: "drift snap (quota_key q) = ?v - q_reserved q"
    by (rule drift_row [OF ledger_shapeD(1) [OF shape] q(1)])
  have fresh: "quota_key q \<notin> quota_key ` set rows" using Cons.prems(1) by auto
  have sum: "(\<lambda>k. ?f k + ?g k) = (\<lambda>k. if k \<in> quota_key ` set (q # rows) then drift snap k else 0)"
    using fresh by (auto simp: fun_eq_iff)
  have d1: "distinct (map quota_key (qd_quotas (shift_quotas ?f db)))" using Cons.prems(3) by (simp add: comp_def)
  have sub: "set rows \<subseteq> set (qd_quotas (shift_quotas ?f db))"
  proof
    fix x assume x: "x \<in> set rows"
    then have "quota_key x \<noteq> quota_key q" using not_in_keys [OF fresh] by blast
    then have "bump ?f x = x" by (simp add: bump_def)
    moreover have "x \<in> set (qd_quotas db)" using Cons.prems(4) x by auto
    ultimately show "x \<in> set (qd_quotas (shift_quotas ?f db))" by force
  qed
  have IH: "reconcile_rows snap rows (shift_quotas ?f db)
      = Inr (int (length (filter (\<lambda>q. q_reserved q \<noteq> held_sum snap (quota_key q)) rows)),
          shift_quotas (\<lambda>k. if k \<in> quota_key ` set (q # rows) then drift snap k else 0) db)"
    using Cons.IH [OF _ _ d1 sub] Cons.prems(1,2) by (simp add: shift_shift flip: sum)
  show ?case
  proof (cases "q_reserved q = ?v")
    case True
    have "shift_quotas ?f db = db" by (rule shift_zero) (use dr True in simp)
    then show ?thesis using IH True exp by simp
  next
    case False
    have fq: "?f = (\<lambda>k. if k = quota_key q then ?v - q_reserved q else 0)" using dr by auto
    have qok: "resource_quota_post_init q = Inr ()" by (rule ledger_shapeD(4) [OF shape q(1)])
    have "ceiling_dimension (q_dim q) \<Longrightarrow> ?v = 0"
      using held_sum_ceiling [OF shape] by (simp add: quota_key_def)
    then have "quota_check (q\<lparr>q_reserved := ?v\<rparr>) = None"
      using held_sum_nonneg [OF shape] qok by (simp add: quota_check_iff quota_post_init_iff)
    moreover have "\<not> (?v > q_limit q \<and> ?v > q_reserved q)" using heal q(1) by (auto simp: healable_def not_less)
    ultimately have "write_quota (q\<lparr>q_reserved := ?v\<rparr>) db = Inr ((), shift_quotas ?f db)"
      using write_quota_shift [OF Cons.prems(3) q(2)] fq by simp
    then show ?thesis using IH False exp by (simp add: tx_bind_def tx_ret_def)
  qed
qed

lemma reconcile_eq:
  assumes heal: "healable db"
  shows "reconcile_counters db =
      Inr (int (length (filter (\<lambda>q. q_reserved q \<noteq> held_sum db (quota_key q)) (qd_quotas db))),
        shift_quotas (drift db) db)"
proof -
  let ?rows = "sort_key quota_key (qd_quotas db)"
  have shape: "ledger_shape db" using heal by (simp add: healable_def)
  have "mset (map quota_key ?rows) = mset (map quota_key (qd_quotas db))" by simp
  then have d: "distinct (map quota_key ?rows)"
    using ledger_shapeD(1) [OF shape] by (metis mset_eq_imp_distinct_iff)
  have "size (filter_mset (\<lambda>q. q_reserved q \<noteq> held_sum db (quota_key q)) (mset ?rows))
      = size (filter_mset (\<lambda>q. q_reserved q \<noteq> held_sum db (quota_key q)) (mset (qd_quotas db)))" by simp
  then have len: "length (filter (\<lambda>q. q_reserved q \<noteq> held_sum db (quota_key q)) ?rows)
      = length (filter (\<lambda>q. q_reserved q \<noteq> held_sum db (quota_key q)) (qd_quotas db))"
    by (metis mset_filter size_mset)
  have "shift_quotas (\<lambda>k. if k \<in> quota_key ` set ?rows then drift db k else 0) db = shift_quotas (drift db) db"
    by (rule shift_cong) simp
  with reconcile_rows_eq [OF heal d _ ledger_shapeD(1) [OF shape]] len show ?thesis
    by (simp add: reconcile_counters_def tx_bind_get)
qed

lemma reconciled_ok:
  assumes heal: "healable db"
  shows "quotadb_ok (shift_quotas (drift db) db)"
proof -
  have shape: "ledger_shape db" using heal by (simp add: healable_def)
  note row = drift_row [OF ledger_shapeD(1) [OF shape]]
  have "ledger_shape (shift_quotas (drift db) db)"
  proof (rule shape_shift [OF shape])
    fix q assume q: "q \<in> set (qd_quotas db)"
    have "ceiling_dimension (q_dim q) \<Longrightarrow> held_sum db (quota_key q) = 0"
      using held_sum_ceiling [OF shape] by (simp add: quota_key_def)
    then show "resource_quota_post_init (bump (drift db) q) = Inr ()"
      using ledger_shapeD(4) [OF shape q] held_sum_nonneg [OF shape] row [OF q]
      by (simp add: quota_post_init_iff)
  qed
  moreover have "counters_off (\<lambda>_. 0) (shift_quotas (drift db) db)"
    by (simp add: counters_off_def row)
  moreover have "within_limits (shift_quotas (drift db) db)"
    using heal by (simp add: within_limits_def healable_def row)
  ultimately show ?thesis by (simp add: quotadb_ok_def)
qed

lemma ok_healable: "quotadb_ok db \<Longrightarrow> healable db"
  by (auto simp: quotadb_ok_def healable_def counters_off_def within_limits_def)

lemma reconcile_noop: "quotadb_ok db \<Longrightarrow> reconcile_counters db = Inr (0, db)"
proof -
  assume ok: "quotadb_ok db"
  have "shift_quotas (drift db) db = db"
    by (rule shift_zero)
      (use quotadb_okD(2) [OF ok] drift_row [OF ledger_shapeD(1) [OF quotadb_okD(1) [OF ok]]] in
        \<open>simp add: counters_off_def\<close>)
  moreover have "filter (\<lambda>q. q_reserved q \<noteq> held_sum db (quota_key q)) (qd_quotas db) = []"
    using quotadb_okD(2) [OF ok] by (simp add: counters_off_def filter_empty_conv)
  ultimately show ?thesis by (simp add: reconcile_eq [OF ok_healable [OF ok]])
qed

end
