(* ===== verification/Scheduling_Service.thy ===== *)
theory Scheduling_Service
  imports Quota_Reconcile
begin

text \<open>
  The scheduler's read side (\<open>infrastructure/database/scheduler_repository.py\<close>) and the placement
  service (\<open>application/scheduling/service.py\<close>). The worker and image-cache tables are read only
  here and come as a \<open>fleet\<close>; the quota ledger is the state. \<open>select_and_reserve\<close> runs its
  candidate loop over separate units of work, as the service does.
\<close>

section \<open>Candidate workers\<close>

record worker_row =
  w_name :: string
  w_trust :: string
  w_quarantined :: "instant option"
  w_drain :: "instant option"
  w_heartbeat :: "instant option"
  w_archs :: "string list"
  w_caps :: "string list"
  w_runtime :: string
  w_capacity :: int

record fleet =
  fl_workers :: "worker_row list"
  fl_cache :: "(string \<times> string) list"

definition worker_slot :: "string \<Rightarrow> quota_key" where
  "worker_slot name = (ScWorker, name, ActiveInstances)"

definition effective_limit :: "quotadb \<Rightarrow> worker_row \<Rightarrow> int" where
  "effective_limit db w = (case find_quota (worker_slot (w_name w)) db of
      None \<Rightarrow> w_capacity w | Some q \<Rightarrow> q_limit q)"

definition slot_reserved :: "quotadb \<Rightarrow> worker_row \<Rightarrow> int" where
  "slot_reserved db w = (case find_quota (worker_slot (w_name w)) db of
      None \<Rightarrow> 0 | Some q \<Rightarrow> q_reserved q)"

definition image_cached :: "fleet \<Rightarrow> string option \<Rightarrow> worker_row \<Rightarrow> bool" where
  "image_cached fl img w = (case img of None \<Rightarrow> False | Some i \<Rightarrow> (w_name w, i) \<in> set (fl_cache fl))"

definition dispatchable :: "worker_requirements \<Rightarrow> instant \<Rightarrow> int \<Rightarrow> quotadb \<Rightarrow> worker_row \<Rightarrow> bool" where
  "dispatchable req now max_age db w \<longleftrightarrow>
     w_trust w = ''trusted'' \<and> w_quarantined w = None \<and> w_drain w = None
     \<and> (case w_heartbeat w of None \<Rightarrow> False | Some t \<Rightarrow> now - seconds max_age \<le> t)
     \<and> set [wr_arch req] \<subseteq> set (w_archs w) \<and> set (wr_caps req) \<subseteq> set (w_caps w)
     \<and> 0 < effective_limit db w - slot_reserved db w
     \<and> (case wr_runtime req of None \<Rightarrow> True | Some r \<Rightarrow> w_runtime w = r)"

definition heartbeat_key :: "worker_row \<Rightarrow> instant" where
  "heartbeat_key w = (case w_heartbeat w of None \<Rightarrow> 0 | Some t \<Rightarrow> t)"

text \<open>Image-cache hits first, then most free capacity, then the oldest heartbeat.\<close>

definition placement_key :: "fleet \<Rightarrow> string option \<Rightarrow> quotadb \<Rightarrow> worker_row \<Rightarrow> bool \<times> int \<times> instant" where
  "placement_key fl img db w =
     (\<not> image_cached fl img w, - (effective_limit db w - slot_reserved db w), heartbeat_key w)"

definition to_candidate :: "fleet \<Rightarrow> string option \<Rightarrow> quotadb \<Rightarrow> worker_row \<Rightarrow> worker_candidate" where
  "to_candidate fl img db w = \<lparr>wc_name = w_name w, wc_capacity = effective_limit db w,
     wc_reserved = slot_reserved db w, wc_cached = image_cached fl img w\<rparr>"

definition candidate_workers ::
    "fleet \<Rightarrow> worker_requirements \<Rightarrow> instant \<Rightarrow> int \<Rightarrow> string option \<Rightarrow> nat
       \<Rightarrow> (quotadb, worker_candidate list) tx" where
  "candidate_workers fl req now max_age img limit =
     tx_bind (tx_get (\<lambda>db. map (to_candidate fl img db)
       (order_limit (placement_key fl img db) limit
         (filter (dispatchable req now max_age db) (fl_workers fl))))) (\<lambda>cs.
     tx_bind (tx_guard (all_valid worker_candidate_post_init cs) ValueError) (\<lambda>_. tx_ret cs))"

definition free_capacity :: "fleet \<Rightarrow> string \<Rightarrow> (quotadb, int) tx" where
  "free_capacity fl name =
     tx_bind (tx_some LookupError (find_row w_name name (fl_workers fl))) (\<lambda>w.
     tx_bind (tx_get (find_quota (worker_slot name))) (\<lambda>row. case row of
         None \<Rightarrow> tx_ret (w_capacity w)
       | Some q \<Rightarrow> tx_ret (max (q_limit q - q_reserved q) 0)))"

section \<open>The placement service\<close>

definition capacity_quota :: "string \<Rightarrow> int \<Rightarrow> resource_quota" where
  "capacity_quota name capacity = \<lparr>q_scope = ScWorker, q_key = name, q_dim = ActiveInstances,
     q_limit = capacity, q_reserved = 0\<rparr>"

definition seed_capacity :: "string \<Rightarrow> int \<Rightarrow> (quotadb, unit) tx" where
  "seed_capacity name capacity = (case resource_quota_post_init (capacity_quota name capacity) of
      Inl e \<Rightarrow> tx_raise e | Inr _ \<Rightarrow> upsert_limit (capacity_quota name capacity))"

definition ensure_worker_capacity_quota :: "string \<Rightarrow> int \<Rightarrow> (quotadb, unit) svc" where
  "ensure_worker_capacity_quota name capacity = session_scope (seed_capacity name capacity)"

record placement =
  pl_req :: worker_requirements
  pl_id :: ident
  pl_items :: "reservation_item list"
  pl_expires :: instant
  pl_now :: instant
  pl_units :: int
  pl_ceilings :: "ceiling_requirement list"
  pl_comp :: "string option"
  pl_team :: "string option"
  pl_chal :: "string option"
  pl_image :: "string option"
  pl_max_age :: int
  pl_limit :: nat

definition list_candidates :: "fleet \<Rightarrow> placement \<Rightarrow> (quotadb, worker_candidate list) svc" where
  "list_candidates fl p =
     session_scope (candidate_workers fl (pl_req p) (pl_now p) (pl_max_age p) (pl_image p) (pl_limit p))"

definition get_reservation :: "ident \<Rightarrow> (quotadb, reservation option) svc" where
  "get_reservation i = session_scope (get_hold i)"

definition svc_reactivate :: "ident \<Rightarrow> instant \<Rightarrow> (quotadb, reservation) svc" where
  "svc_reactivate i expires = session_scope (reactivate i expires)"

definition svc_renew :: "ident \<Rightarrow> instant \<Rightarrow> (quotadb, unit) svc" where
  "svc_renew i expires = session_scope (renew i expires)"

definition svc_release :: "ident \<Rightarrow> instant \<Rightarrow> (quotadb, bool) svc" where
  "svc_release i now = session_scope (release i now)"

definition svc_reconcile_counters :: "(quotadb, int) svc" where
  "svc_reconcile_counters = session_scope reconcile_counters"

definition worker_item :: "placement \<Rightarrow> worker_candidate \<Rightarrow> reservation_item" where
  "worker_item p c = \<lparr>ri_scope = ScWorker, ri_key = wc_name c, ri_dim = ActiveInstances,
     ri_amount = pl_units p\<rparr>"

definition placement_demand :: "placement \<Rightarrow> worker_candidate \<Rightarrow> resource_demand" where
  "placement_demand p c = \<lparr>dm_id = pl_id p, dm_worker = wc_name c, dm_expires = pl_expires p,
     dm_items = pl_items p @ [worker_item p c], dm_ceilings = pl_ceilings p, dm_comp = pl_comp p,
     dm_team = pl_team p, dm_chal = pl_chal p\<rparr>"

definition place_on :: "instant \<Rightarrow> placement \<Rightarrow> worker_candidate \<Rightarrow> (quotadb, reservation) tx" where
  "place_on created p c =
     tx_bind (seed_capacity (wc_name c) (wc_capacity c)) (\<lambda>_. reserve created (placement_demand p c))"

fun try_candidates ::
    "instant \<Rightarrow> placement \<Rightarrow> worker_candidate list \<Rightarrow> (quotadb, reservation \<times> string) svc" where
  "try_candidates created p [] = svc_raise NoEligibleWorkerError"
| "try_candidates created p (c # cs) =
     (case reservation_item_post_init (worker_item p c) of
        Inl e \<Rightarrow> svc_raise e
      | Inr _ \<Rightarrow> (case resource_demand_post_init (placement_demand p c) of
          Inl e \<Rightarrow> svc_raise e
        | Inr _ \<Rightarrow>
            svc_catch
              (svc_bind (session_scope (place_on created p c)) (\<lambda>r. svc_ret (r, wc_name c)))
              (\<lambda>e. case e of
                 QuotaExceededError s k d \<Rightarrow>
                   if s = scope_name ScWorker then try_candidates created p cs else svc_raise e
               | IntegrityError constraint \<Rightarrow>
                   if constraint \<noteq> ''pk_quota_reservations'' then svc_raise e
                   else svc_bind (get_reservation (pl_id p)) (\<lambda>collapsed. case collapsed of
                       None \<Rightarrow> svc_raise e
                     | Some r \<Rightarrow> svc_ret (r, rv_worker r))
               | _ \<Rightarrow> svc_raise e)))"

definition select_and_reserve ::
    "fleet \<Rightarrow> instant \<Rightarrow> placement \<Rightarrow> (quotadb, reservation \<times> string) svc" where
  "select_and_reserve fl created p =
     svc_bind (get_reservation (pl_id p)) (\<lambda>existing. case existing of
       Some r \<Rightarrow>
         if rv_state r = Held then svc_ret (r, rv_worker r)
         else svc_bind (svc_reactivate (pl_id p) (pl_expires p)) (\<lambda>x. svc_ret (x, rv_worker x))
     | None \<Rightarrow>
         svc_bind (list_candidates fl p) (\<lambda>candidates.
           if candidates = [] then svc_raise NoEligibleWorkerError
           else try_candidates created p candidates))"

fun release_each :: "reservation list \<Rightarrow> instant \<Rightarrow> (quotadb, ident list) svc" where
  "release_each [] now = svc_ret []"
| "release_each (r # rs) now =
     svc_bind (svc_release (rv_id r) now) (\<lambda>done.
     svc_bind (release_each rs now) (\<lambda>rest.
       svc_ret (if done then rv_id r # rest else rest)))"

definition release_expired :: "instant \<Rightarrow> nat \<Rightarrow> (quotadb, ident list) svc" where
  "release_expired now limit =
     svc_bind (session_scope (list_expired now limit)) (\<lambda>expired. release_each expired now)"

end
