(* ===== verification/Quota_Theorems.thy ===== *)
theory Quota_Theorems
  imports Scheduling_Service
begin

text \<open>
  Properties of the quota ledger and of placement: exact counters on every reachable ledger,
  all-or-nothing admission, release as the inverse of reserve, the healing sweep, the distinction
  between a full worker and a shared overrun, and the outcome of \<open>select_and_reserve\<close>.
\<close>

section \<open>Methods keep the invariant\<close>

lemma find_first_None: "List.find P xs = None \<longleftrightarrow> (\<forall>x \<in> set xs. \<not> P x)"
  by (auto simp: find_None_iff)

lemma reserve_returns:
  assumes ok: "quotadb_ok db" and d: "demand_ok d" and run: "reserve created d db = Inr (r, db')"
  shows "\<exists>k. dm_id d = Uid k \<and> k \<notin> h_id ` set (qd_headers db)
    \<and> (\<forall>c \<in> set (dm_ceilings d). ceiling_ok db c) \<and> (\<forall>i \<in> set (dm_items d). admits db i)
    \<and> r = header_reservation (demand_header k created d) (dm_items d)
    \<and> db' = taken k True (sorted_items d) (add_header (demand_header k created d) db)"
proof (cases "dm_id d")
  case (Malformed s)
  then show ?thesis using run by (simp add: reserve_def tx_some_cases tx_bind_def tx_raise_def)
next
  case (Uid k)
  from run reserve_eq [OF quotadb_okD(1) [OF ok] d Uid, of created]
  have "k \<notin> h_id ` set (qd_headers db)" "List.find (\<lambda>c. \<not> ceiling_ok db c) (dm_ceilings d) = None"
    "List.find (\<lambda>i. \<not> admits db i) (sorted_items d) = None"
    "r = header_reservation (demand_header k created d) (dm_items d)"
    "db' = taken k True (sorted_items d) (add_header (demand_header k created d) db)"
    by (auto split: if_splits option.splits)
  then show ?thesis using Uid sorted_items_facts(1) [of d] by (auto simp: find_first_None)
qed

lemma reserve_keeps:
  assumes ok: "quotadb_ok db" and d: "demand_ok d" and run: "reserve created d db = Inr (r, db')"
  shows "quotadb_ok db'" and "dm_id d = Uid k \<Longrightarrow> is_held db' j \<longleftrightarrow> is_held db j \<or> j = k"
proof -
  from reserve_returns [OF assms] obtain k' where k': "dm_id d = Uid k'" "k' \<notin> h_id ` set (qd_headers db)"
    and adm: "\<forall>i \<in> set (dm_items d). admits db i"
    and db': "db' = taken k' True (sorted_items d) (add_header (demand_header k' created d) db)" by blast
  show "quotadb_ok db'"
    unfolding db' by (rule reserve_ok [OF ok d k'(2)]) (use adm sorted_items_facts(1) [of d] in auto)
  assume "dm_id d = Uid k"
  then have "k' = k" using k'(1) by simp
  then show "is_held db' j \<longleftrightarrow> is_held db j \<or> j = k"
    by (auto simp: db' is_held_def taken_def)
qed

lemma get_hold_ok:
  assumes ok: "quotadb_ok db"
  shows "get_hold i db = Inr (case as_uuid i of None \<Rightarrow> None
    | Some k \<Rightarrow> map_option (\<lambda>h. header_reservation h (items_for k db)) (find_hold k db), db)"
proof -
  note shape = quotadb_okD(1) [OF ok]
  have "reservation_from_orm h its db = Inr (header_reservation h its, db)" if "find_hold k db = Some h" for h k its
    by (rule header_read) (use that ledger_shapeD(2,5) [OF shape] in \<open>auto simp: find_hold_Some\<close>)
  then show ?thesis
    by (auto simp: get_hold_def tx_bind_get tx_bind_def tx_get_def tx_ret_def split: option.splits)
qed

lemma get_reservation_eq:
  "quotadb_ok db \<Longrightarrow> get_reservation i db = (Inr (case as_uuid i of None \<Rightarrow> None
    | Some k \<Rightarrow> map_option (\<lambda>h. header_reservation h (items_for k db)) (find_hold k db)), db)"
  by (simp add: get_reservation_def session_scope_def get_hold_ok)

lemma seed_keeps:
  assumes ok: "quotadb_ok db" and run: "seed_capacity name capacity db = Inr (u, db')"
  shows "quotadb_ok db'" "is_held db' j = is_held db j" "qd_headers db' = qd_headers db" "qd_items db' = qd_items db"
proof -
  have q: "resource_quota_post_init (capacity_quota name capacity) = Inr ()"
    and up: "upsert_limit (capacity_quota name capacity) db = Inr (u, db')"
    using run by (auto simp: seed_capacity_def tx_raise_def split: sum.splits)
  have z: "q_reserved (capacity_quota name capacity) = 0" by (simp add: capacity_quota_def)
  show "quotadb_ok db'" "is_held db' j = is_held db j" "qd_headers db' = qd_headers db" "qd_items db' = qd_items db"
    using upsert_ok [OF ok q z up] by blast+
qed

section \<open>Placement\<close>

definition placement_ok :: "placement \<Rightarrow> bool" where
  "placement_ok p \<longleftrightarrow> all_valid reservation_item_post_init (pl_items p)
     \<and> all_valid ceiling_requirement_post_init (pl_ceilings p)"

lemma placement_demand_ok:
  assumes "placement_ok p" and "reservation_item_post_init (worker_item p c) = Inr ()"
    and "resource_demand_post_init (placement_demand p c) = Inr ()"
  shows "demand_ok (placement_demand p c)"
proof -
  have "dm_items (placement_demand p c) = pl_items p @ [worker_item p c]"
    "dm_ceilings (placement_demand p c) = pl_ceilings p" by (simp_all add: placement_demand_def)
  then show ?thesis using assms by (auto simp: demand_ok_def placement_ok_def all_valid_iff)
qed

lemma place_on_returns:
  assumes ok: "quotadb_ok db" and d: "demand_ok (placement_demand p c)" and id: "pl_id p = Uid k"
    and run: "place_on created p c db = Inr (r, db')"
  shows "quotadb_ok db' \<and> (\<forall>j. is_held db' j \<longleftrightarrow> is_held db j \<or> j = k)
    \<and> k \<notin> h_id ` set (qd_headers db) \<and> rv_id r = Uid k \<and> rv_worker r = wc_name c \<and> rv_state r = Held"
proof -
  from run obtain db1 where seed: "seed_capacity (wc_name c) (wc_capacity c) db = Inr ((), db1)"
    and res: "reserve created (placement_demand p c) db1 = Inr (r, db')"
    by (auto simp: place_on_def tx_bind_iff)
  note s = seed_keeps [OF ok seed]
  have dm: "dm_id (placement_demand p c) = Uid k" using id by (simp add: placement_demand_def)
  from reserve_returns [OF s(1) d res] obtain k' where "dm_id (placement_demand p c) = Uid k'"
    "k' \<notin> h_id ` set (qd_headers db1)"
    "r = header_reservation (demand_header k' created (placement_demand p c)) (dm_items (placement_demand p c))"
    by blast
  moreover from this(1) dm have "k' = k" by simp
  moreover have "dm_worker (placement_demand p c) = wc_name c" by (simp add: placement_demand_def)
  ultimately show ?thesis
    using reserve_keeps [OF s(1) d res] dm s(2,3) by (simp add: header_reservation_def)
qed

text \<open>What a candidate loop over a fresh reservation id can end in.\<close>

definition placed :: "placement \<Rightarrow> nat \<Rightarrow> worker_candidate list \<Rightarrow> quotadb \<Rightarrow> (exn + reservation \<times> string) \<times> quotadb \<Rightarrow> bool" where
  "placed p k cs db out = (case out of
      (Inl e, db') \<Rightarrow> db' = db
    | (Inr (r, w), db') \<Rightarrow> quotadb_ok db' \<and> w \<in> wc_name ` set cs \<and> rv_id r = Uid k \<and> rv_worker r = w
        \<and> rv_state r = Held \<and> (\<forall>j. is_held db' j \<longleftrightarrow> is_held db j \<or> j = k))"

lemma placed_more: "placed p k cs db out \<Longrightarrow> placed p k (c # cs) db out"
  by (auto simp: placed_def split: prod.splits sum.splits)

lemma try_candidates_placed:
  assumes ok: "quotadb_ok db" and p: "placement_ok p" and id: "pl_id p = Uid k"
    and fresh: "find_hold k db = None"
  shows "placed p k cs db (try_candidates created p cs db)"
proof (induction cs)
  case Nil
  show ?case by (simp add: placed_def svc_raise_def)
next
  case (Cons c cs)
  show ?case
  proof (cases "reservation_item_post_init (worker_item p c)")
    case (Inl e)
    then show ?thesis by (simp add: placed_def svc_raise_def)
  next
    case item: (Inr u)
    show ?thesis
    proof (cases "resource_demand_post_init (placement_demand p c)")
      case (Inl e)
      with item show ?thesis by (simp add: placed_def svc_raise_def)
    next
      case dem: (Inr u')
      have d: "demand_ok (placement_demand p c)"
        by (rule placement_demand_ok [OF p]) (use item dem in auto)
      show ?thesis
      proof (cases "place_on created p c db")
        case (Inr x)
        then obtain r db' where run: "place_on created p c db = Inr (r, db')" by (cases x) auto
        from place_on_returns [OF ok d id run] item dem run show ?thesis
          by (simp add: placed_def svc_defs)
      next
        case (Inl e)
        have gone: "get_reservation (pl_id p) db = (Inr None, db)"
          using fresh by (simp add: get_reservation_eq [OF ok] id)
        have more: "placed p k (c # cs) db (try_candidates created p cs db)"
          by (rule placed_more [OF Cons.IH])
        show ?thesis
          using item dem Inl gone more
          by (cases e) (simp_all add: svc_defs, simp_all add: placed_def)
      qed
    qed
  qed
qed

lemma candidates_read:
  assumes "candidate_workers fl req now ma img limit db = Inr (cs, db')"
  shows "db' = db" and "c \<in> set cs \<Longrightarrow> \<exists>w \<in> set (fl_workers fl). dispatchable req now ma db w \<and> wc_name c = w_name w
      \<and> wc_capacity c - wc_reserved c = effective_limit db w - slot_reserved db w"
proof -
  from assms have db': "db' = db" and cs: "cs = map (to_candidate fl img db)
       (order_limit (placement_key fl img db) limit (filter (dispatchable req now ma db) (fl_workers fl)))"
    by (auto simp: candidate_workers_def tx_simps)
  then show "db' = db" by simp
  assume "c \<in> set cs"
  then obtain w where w: "w \<in> set (order_limit (placement_key fl img db) limit
      (filter (dispatchable req now ma db) (fl_workers fl)))" and c: "c = to_candidate fl img db w"
    by (auto simp: cs)
  have "w \<in> set (filter (dispatchable req now ma db) (fl_workers fl))"
    by (rule subsetD [OF set_order_limit w])
  then show "\<exists>w \<in> set (fl_workers fl). dispatchable req now ma db w \<and> wc_name c = w_name w
      \<and> wc_capacity c - wc_reserved c = effective_limit db w - slot_reserved db w"
    by (auto simp: c to_candidate_def)
qed

lemma reactivate_returns:
  assumes ok: "quotadb_ok db" and run: "reactivate i t db = Inr (r, db')"
  shows "quotadb_ok db' \<and> (\<exists>k h. i = Uid k \<and> h \<in> set (qd_headers db) \<and> h_id h = k \<and> rv_id r = Uid k
     \<and> rv_worker r = h_worker h \<and> rv_state r = Held \<and> (\<forall>j. is_held db' j \<longleftrightarrow> is_held db j \<or> j = k))"
proof -
  note shape = quotadb_okD(1) [OF ok]
  from run obtain k h where i: "i = Uid k" and hold: "find_hold k db = Some h"
    using reactivate_eq [OF ok, of i t] by (cases i) (auto split: option.splits)
  have h: "h \<in> set (qd_headers db)" "h_id h = k"
    using hold find_hold_Some [OF ledger_shapeD(2) [OF shape]] by auto
  show ?thesis
  proof (cases "h_state h")
    case Held
    have "is_held db k" using h Held by (auto simp: is_held_def)
    moreover have "db' = db" "r = header_reservation h (items_for k db)"
      using run reactivate_eq [OF ok, of i t] by (simp_all add: i hold Held)
    ultimately show ?thesis using ok i h Held by (auto simp: header_reservation_def)
  next
    case Released
    then have adm: "\<forall>x \<in> set (items_for k db). admits db x" and db': "db' = reheld_db h t db"
      and r: "r = header_reservation (reheld_header h t) (items_for k db)"
      using run reactivate_eq [OF ok, of i t]
      by (auto simp: i hold find_first_None split: option.splits)
    from reheld_facts [OF ok h(1) Released, of t] adm h(2) show ?thesis
      using i h by (auto simp: db' r header_reservation_def reheld_header_def)
  qed
qed

section \<open>The interface the instance lifecycle uses\<close>

text \<open>
  Releasing is all the lifecycle asks of the ledger: it never raises, it reports whether the
  reservation was held, afterwards it is not, and no other reservation is affected.
\<close>

locale hold_ledger =
  fixes free :: "ident \<Rightarrow> instant \<Rightarrow> ('s, bool) svc"
    and holds :: "'s \<Rightarrow> nat \<Rightarrow> bool"
    and inv :: "'s \<Rightarrow> bool"
  assumes free_law: "inv s \<Longrightarrow> free (Uid k) now s = (r, s')
      \<Longrightarrow> r = Inr (holds s k) \<and> inv s' \<and> (\<forall>j. holds s' j \<longleftrightarrow> holds s j \<and> j \<noteq> k)"
    and free_absent: "inv s \<Longrightarrow> \<not> holds s k \<Longrightarrow> free (Uid k) now s = (Inr False, s)"
begin

lemma free_outcome:
  assumes "inv s"
  shows "fst (free (Uid k) now s) = Inr (holds s k)" and "inv (snd (free (Uid k) now s))"
    and "holds (snd (free (Uid k) now s)) j \<longleftrightarrow> holds s j \<and> j \<noteq> k"
  using free_law [OF assms] by (cases "free (Uid k) now s"; simp)+

lemma free_twice:
  assumes "inv s"
  shows "free (Uid k) t (snd (free (Uid k) now s)) = (Inr False, snd (free (Uid k) now s))"
  by (rule free_absent) (use free_outcome [OF assms] in auto)

end

lemma release_absent:
  assumes ok: "quotadb_ok db" and nh: "\<not> is_held db k"
  shows "svc_release (Uid k) now db = (Inr False, db)"
proof -
  have "h_state h \<noteq> Held" if "find_hold k db = Some h" for h
    using that nh ledger_shapeD(2) [OF quotadb_okD(1) [OF ok]] by (auto simp: find_hold_Some is_held_def)
  then show ?thesis
    by (auto simp: svc_release_def session_scope_def release_eq [OF ok] split: option.splits)
qed

interpretation ledger: hold_ledger svc_release is_held quotadb_ok
proof
  fix db k now r db'
  assume ok: "quotadb_ok db" and run: "svc_release (Uid k) now db = (r, db')"
  note shape = quotadb_okD(1) [OF ok]
  show "r = Inr (is_held db k) \<and> quotadb_ok db' \<and> (\<forall>j. is_held db' j \<longleftrightarrow> is_held db j \<and> j \<noteq> k)"
  proof (cases "is_held db k")
    case True
    then obtain h where h: "h \<in> set (qd_headers db)" "h_id h = k" "h_state h = Held"
      by (auto simp: is_held_def)
    then have "find_hold k db = Some h" by (simp add: find_hold_Some [OF ledger_shapeD(2) [OF shape]])
    then have "r = Inr True" "db' = released_db h now db"
      using run h(3) by (simp_all add: svc_release_def session_scope_def release_eq [OF ok])
    then show ?thesis using released_facts [OF ok h(1,3), of now] h(2) True by simp
  next
    case False
    then show ?thesis using run release_absent [OF ok False] ok by auto
  qed
qed (rule release_absent)

section \<open>Reachable ledgers\<close>

datatype quota_call =
    QEnsure string int
  | QPlace instant placement
  | QReactivate ident instant
  | QRenew ident instant
  | QRelease ident instant
  | QReleaseExpired instant nat
  | QReconcile

fun run_quota_call :: "fleet \<Rightarrow> quota_call \<Rightarrow> quotadb \<Rightarrow> quotadb" where
  "run_quota_call fl (QEnsure name cap) db = snd (ensure_worker_capacity_quota name cap db)"
| "run_quota_call fl (QPlace created p) db = snd (select_and_reserve fl created p db)"
| "run_quota_call fl (QReactivate i t) db = snd (svc_reactivate i t db)"
| "run_quota_call fl (QRenew i t) db = snd (svc_renew i t db)"
| "run_quota_call fl (QRelease i now) db = snd (svc_release i now db)"
| "run_quota_call fl (QReleaseExpired now limit) db = snd (release_expired now limit db)"
| "run_quota_call fl QReconcile db = snd (svc_reconcile_counters db)"

text \<open>
  A placement's items are constructed values; limits of the shared pools are set by operators, so a
  reachable ledger also allows seeding any valid limit (\<open>policy\<close>).
\<close>

fun valid_quota_call :: "quota_call \<Rightarrow> bool" where
  "valid_quota_call (QPlace _ p) = placement_ok p"
| "valid_quota_call _ = True"

inductive quota_reachable :: "fleet \<Rightarrow> quotadb \<Rightarrow> bool" for fl where
  init: "quota_reachable fl empty_quotadb"
| policy: "quota_reachable fl db \<Longrightarrow> resource_quota_post_init q = Inr () \<Longrightarrow> q_reserved q = 0
    \<Longrightarrow> upsert_limit q db = Inr ((), db') \<Longrightarrow> quota_reachable fl db'"
| call: "quota_reachable fl db \<Longrightarrow> valid_quota_call c \<Longrightarrow> quota_reachable fl (run_quota_call fl c db)"

text \<open>The two outcomes of \<open>select_and_reserve\<close>, whatever the reservation's past.\<close>

lemma select_and_reserve_outcome:
  assumes ok: "quotadb_ok db" and p: "placement_ok p" and id: "pl_id p = Uid k"
    and run: "select_and_reserve fl created p db = (out, db')"
  shows "(\<forall>e. out = Inl e \<longrightarrow> db' = db)
    \<and> (\<forall>r w. out = Inr (r, w) \<longrightarrow> quotadb_ok db' \<and> rv_id r = Uid k \<and> rv_worker r = w \<and> rv_state r = Held
        \<and> (\<forall>j. is_held db' j \<longleftrightarrow> is_held db j \<or> j = k)
        \<and> (is_held db k \<longrightarrow> db' = db)
        \<and> (k \<notin> h_id ` set (qd_headers db) \<longrightarrow> (\<exists>x \<in> set (fl_workers fl). w = w_name x
             \<and> dispatchable (pl_req p) (pl_now p) (pl_max_age p) db x)))"
proof (cases "find_hold k db")
  case (Some h)
  note shape = quotadb_okD(1) [OF ok]
  have h: "h \<in> set (qd_headers db)" "h_id h = k"
    using Some find_hold_Some [OF ledger_shapeD(2) [OF shape]] by auto
  have known: "k \<in> h_id ` set (qd_headers db)" using h by blast
  have ex: "get_reservation (pl_id p) db = (Inr (Some (header_reservation h (items_for k db))), db)"
    by (simp add: get_reservation_eq [OF ok] id Some)
  show ?thesis
  proof (cases "h_state h")
    case Held
    then have "is_held db k" using h by (auto simp: is_held_def)
    moreover from this have "\<forall>j. is_held db j \<longleftrightarrow> is_held db j \<or> j = k" by blast
    moreover have "out = Inr (header_reservation h (items_for k db), h_worker h)" "db' = db"
      using run ex Held by (auto simp: select_and_reserve_def svc_bind_def svc_ret_def header_reservation_def)
    ultimately show ?thesis using ok known Held h by (simp add: header_reservation_def)
  next
    case Released
    then have nh: "\<not> is_held db k" using held_iff [OF ledger_shapeD(2) [OF shape] h(1)] h(2) by simp
    show ?thesis
    proof (cases "reactivate (Uid k) (pl_expires p) db")
      case (Inl e)
      then show ?thesis using run ex Released
        by (auto simp: select_and_reserve_def svc_defs svc_reactivate_def header_reservation_def id)
    next
      case (Inr x)
      then obtain r db1 where rx: "reactivate (Uid k) (pl_expires p) db = Inr (r, db1)" by (cases x) auto
      then have "out = Inr (r, rv_worker r)" "db' = db1"
        using run ex Released
        by (auto simp: select_and_reserve_def svc_defs svc_reactivate_def header_reservation_def id)
      with reactivate_returns [OF ok rx] known nh show ?thesis by auto
    qed
  qed
next
  case None
  then have nh: "\<not> is_held db k" by (auto simp: is_held_def find_hold_def find_row_None_iff)
  have ex: "get_reservation (pl_id p) db = (Inr None, db)"
    by (simp add: get_reservation_eq [OF ok] id None)
  show ?thesis
  proof (cases "candidate_workers fl (pl_req p) (pl_now p) (pl_max_age p) (pl_image p) (pl_limit p) db")
    case (Inl e)
    then show ?thesis using run ex
      by (auto simp: select_and_reserve_def svc_defs list_candidates_def)
  next
    case (Inr x)
    then obtain cs db1 where cw: "candidate_workers fl (pl_req p) (pl_now p) (pl_max_age p) (pl_image p)
        (pl_limit p) db = Inr (cs, db1)" by (cases x) auto
    note cand = candidates_read [OF cw]
    show ?thesis
    proof (cases "cs = []")
      case True
      then show ?thesis using run ex cw cand(1)
        by (auto simp: select_and_reserve_def svc_defs list_candidates_def)
    next
      case False
      then have "try_candidates created p cs db = (out, db')"
        using run ex cw cand(1) by (simp add: select_and_reserve_def svc_defs list_candidates_def)
      with try_candidates_placed [OF ok p id None, of cs created]
      have "placed p k cs db (out, db')" by simp
      moreover have "\<exists>x \<in> set (fl_workers fl). w = w_name x
          \<and> dispatchable (pl_req p) (pl_now p) (pl_max_age p) db x" if "w \<in> wc_name ` set cs" for w
        using that cand(2) by fastforce
      ultimately show ?thesis
        using nh by (cases out) (auto simp: placed_def split: prod.splits)
    qed
  qed
qed

lemma select_malformed:
  assumes ok: "quotadb_ok db" and p: "placement_ok p" and id: "pl_id p = Malformed s"
  shows "snd (select_and_reserve fl created p db) = db"
proof -
  have no: "place_on created p c db = Inl e \<or> (\<exists>e. place_on created p c db = Inl e)" for c e
    by (auto simp: place_on_def reserve_def tx_bind_def placement_demand_def id tx_some_def tx_raise_def
        split: sum.splits)
  have "snd (try_candidates created p cs db) = db" for cs
  proof (induction cs)
    case Nil
    show ?case by (simp add: svc_raise_def)
  next
    case (Cons c cs)
    obtain e where "place_on created p c db = Inl e" using no by blast
    then show ?case
      using Cons.IH get_reservation_eq [OF ok, of "pl_id p"] id
      by (cases e) (auto simp: svc_defs split: sum.splits)
  qed
  moreover have "get_reservation (pl_id p) db = (Inr None, db)"
    by (simp add: get_reservation_eq [OF ok] id)
  moreover have "db1 = db" if "candidate_workers fl (pl_req p) (pl_now p) (pl_max_age p) (pl_image p)
      (pl_limit p) db = Inr (cs, db1)" for cs db1
    by (rule candidates_read(1) [OF that])
  ultimately show ?thesis
    by (auto simp: select_and_reserve_def svc_defs list_candidates_def split: sum.splits prod.splits)
qed

lemma release_svc_ok: "quotadb_ok db \<Longrightarrow> quotadb_ok (snd (svc_release i now db))"
proof (cases i)
  case (Uid k)
  assume "quotadb_ok db"
  then show ?thesis using ledger.free_outcome(2) [of db k now] Uid by simp
next
  case (Malformed s)
  assume "quotadb_ok db"
  then show ?thesis by (simp add: svc_release_def session_scope_def release_eq Malformed)
qed

lemma release_each_ok: "quotadb_ok db \<Longrightarrow> quotadb_ok (snd (release_each rs now db))"
proof (induction rs arbitrary: db)
  case Nil
  then show ?case by (simp add: svc_ret_def)
next
  case (Cons r rs)
  have "svc_keeps quotadb_ok (svc_bind (svc_release (rv_id r) now) (\<lambda>done.
     svc_bind (release_each rs now) (\<lambda>rest. svc_ret (if done then rv_id r # rest else rest))))"
    by (intro svc_keeps_bind svc_keeps_pure) (simp_all add: svc_keeps_def release_svc_ok Cons.IH)
  then show ?case using Cons.prems by (simp add: svc_keeps_def)
qed

lemma list_expired_state: "list_expired now limit db = Inr (x, db') \<Longrightarrow> db' = db"
proof -
  have reads: "reservations_from_orm hs s = Inr (x, s') \<Longrightarrow> s' = s" for hs s x s'
    by (induction hs arbitrary: s x s')
      (auto simp: tx_simps reservation_from_orm_def split: sum.splits)
  assume "list_expired now limit db = Inr (x, db')"
  then show ?thesis by (auto simp: list_expired_def tx_simps dest: reads)
qed

lemma quota_call_ok:
  assumes ok: "quotadb_ok db" and v: "valid_quota_call c"
  shows "quotadb_ok (run_quota_call fl c db)"
proof (cases c)
  case (QEnsure name cap)
  then show ?thesis using ok
    by (auto simp: ensure_worker_capacity_quota_def session_scope_def dest: seed_keeps(1)
        split: sum.splits)
next
  case (QPlace created p)
  then have p: "placement_ok p" using v by simp
  show ?thesis
  proof (cases "pl_id p")
    case (Uid k)
    obtain out db' where run: "select_and_reserve fl created p db = (out, db')"
      by (cases "select_and_reserve fl created p db")
    from select_and_reserve_outcome [OF ok p Uid run] ok show ?thesis
      by (cases out) (auto simp: QPlace run)
  next
    case (Malformed s)
    then show ?thesis using select_malformed [OF ok p Malformed] ok QPlace by simp
  qed
next
  case (QReactivate i t)
  then show ?thesis using ok reactivate_returns [OF ok, of i t]
    by (auto simp: svc_reactivate_def session_scope_def split: sum.splits)
next
  case (QRenew i t)
  have "quotadb_ok db'" if "renew i t db = Inr ((), db')" for db'
    using that renewed_facts(1) [OF ok] find_hold_Some [OF ledger_shapeD(2) [OF quotadb_okD(1) [OF ok]]]
    by (auto simp: renew_eq [OF quotadb_okD(1) [OF ok]] split: option.splits if_splits)
  then show ?thesis using ok QRenew by (auto simp: svc_renew_def session_scope_def split: sum.splits)
next
  case (QRelease i now)
  then show ?thesis using release_svc_ok [OF ok] by simp
next
  case (QReleaseExpired now limit)
  then show ?thesis using ok release_each_ok [OF ok] list_expired_state [of now limit db]
    by (auto simp: release_expired_def svc_bind_def session_scope_def split: sum.splits prod.splits)
next
  case QReconcile
  then show ?thesis using ok by (simp add: svc_reconcile_counters_def session_scope_def reconcile_noop)
qed

lemma quota_reachable_ok: "quota_reachable fl db \<Longrightarrow> quotadb_ok db"
  by (induction rule: quota_reachable.induct) (auto intro: empty_quotadb_ok upsert_ok(1) quota_call_ok)

section \<open>A sample ledger\<close>

definition sample_fleet :: fleet where
  "sample_fleet = \<lparr>fl_workers = [\<lparr>w_name = ''w1'', w_trust = ''trusted'', w_quarantined = None,
     w_drain = None, w_heartbeat = Some 0, w_archs = [''x86''], w_caps = [''launch_instance''],
     w_runtime = ''docker'', w_capacity = 2\<rparr>], fl_cache = []\<rparr>"

definition sample_item :: reservation_item where
  "sample_item = \<lparr>ri_scope = ScPlatform, ri_key = ''p'', ri_dim = CpuMillis, ri_amount = 500\<rparr>"

definition sample_placement :: placement where
  "sample_placement = \<lparr>pl_req = \<lparr>wr_arch = ''x86'', wr_caps = [''launch_instance''], wr_runtime = None\<rparr>,
     pl_id = Uid 3, pl_items = [sample_item], pl_expires = 100, pl_now = 1, pl_units = 1, pl_ceilings = [],
     pl_comp = None, pl_team = None, pl_chal = None, pl_image = None, pl_max_age = 60, pl_limit = 20\<rparr>"

definition sample_policy :: resource_quota where
  "sample_policy = \<lparr>q_scope = ScPlatform, q_key = ''p'', q_dim = CpuMillis, q_limit = 800, q_reserved = 0\<rparr>"

definition pooled_db :: quotadb where
  "pooled_db = empty_quotadb\<lparr>qd_quotas := [sample_policy, capacity_quota ''w1'' 2]\<rparr>"

definition placed_db :: quotadb where
  "placed_db = run_quota_call sample_fleet (QPlace 1 sample_placement) pooled_db"

lemma pooled_reachable: "quota_reachable fl pooled_db"
proof -
  let ?a = "empty_quotadb\<lparr>qd_quotas := [sample_policy]\<rparr>"
  have u1: "upsert_limit sample_policy empty_quotadb = Inr ((), ?a)"
    and u2: "upsert_limit (capacity_quota ''w1'' 2) ?a = Inr ((), pooled_db)"
    and v: "resource_quota_post_init sample_policy = Inr ()" "q_reserved sample_policy = 0"
      "resource_quota_post_init (capacity_quota ''w1'' 2) = Inr ()" "q_reserved (capacity_quota ''w1'' 2) = 0"
    by code_simp+
  from quota_reachable.policy [OF quota_reachable.init v(1,2) u1] have "quota_reachable fl ?a" .
  from quota_reachable.policy [OF this v(3,4) u2] show ?thesis .
qed

lemma sample_placement_ok: "placement_ok sample_placement" by code_simp

lemma placed_reachable: "quota_reachable sample_fleet placed_db"
  unfolding placed_db_def
  by (rule quota_reachable.call [OF pooled_reachable]) (simp add: sample_placement_ok)

lemma placed_rows: "map (\<lambda>q. (q_scope q, q_reserved q)) (qd_quotas placed_db) = [(ScPlatform, 500), (ScWorker, 1)]"
  by code_simp

section \<open>Properties\<close>

text \<open>
  C9. Counters are exact and bounded: on every ledger that seeding of limits, placements,
  reactivations, renewals, releases, expiry sweeps and reconciliations can reach, each quota's
  \<open>reserved_value\<close> is the sum of the amounts of the items of held reservations, and never exceeds
  its limit.
\<close>

theorem quota_counters_exact:
  assumes "quota_reachable fl db" and "q \<in> set (qd_quotas db)"
  shows "q_reserved q = held_sum db (quota_key q) \<and> q_reserved q \<le> q_limit q"
  using quotadb_okD(2,3) [OF quota_reachable_ok [OF assms(1)]] assms(2)
  by (simp add: counters_off_def within_limits_def)

theorem quota_counters_exact_witness:
  "\<exists>q \<in> set (qd_quotas placed_db). q_reserved q = 500 \<and> held_sum placed_db (quota_key q) = 500"
proof -
  obtain q q' where q: "qd_quotas placed_db = [q, q']" "q_reserved q = 500"
    using placed_rows by (cases "qd_quotas placed_db"; cases "tl (qd_quotas placed_db)") auto
  then have "q \<in> set (qd_quotas placed_db)" by simp
  from quota_counters_exact [OF placed_reachable this] q show ?thesis by auto
qed

text \<open>
  Reserving is all or nothing: on a reachable ledger a reserve succeeds iff the reservation id
  is unused, every ceiling has a quota that covers it, and every item has a quota with room for it;
  then each counter grows by exactly what the demand asks of it, and the new reservation is the
  only change to what is held.
\<close>

theorem reserve_all_or_nothing:
  assumes "quota_reachable fl db" and "demand_ok d" and "dm_id d = Uid k"
  shows "((\<exists>r db'. reserve created d db = Inr (r, db'))
      \<longleftrightarrow> k \<notin> h_id ` set (qd_headers db) \<and> (\<forall>c \<in> set (dm_ceilings d). ceiling_ok db c)
          \<and> (\<forall>i \<in> set (dm_items d). admits db i))
    \<and> (\<forall>r db'. reserve created d db = Inr (r, db') \<longrightarrow>
      qd_quotas db' = map (bump (\<lambda>x. amount_at x (dm_items d))) (qd_quotas db)
      \<and> (\<forall>j. is_held db' j \<longleftrightarrow> is_held db j \<or> j = k))"
proof (intro conjI allI impI)
  note ok = quota_reachable_ok [OF assms(1)]
  note eq = reserve_eq [OF quotadb_okD(1) [OF ok] assms(2,3), of created]
  show "(\<exists>r db'. reserve created d db = Inr (r, db'))
      \<longleftrightarrow> k \<notin> h_id ` set (qd_headers db) \<and> (\<forall>c \<in> set (dm_ceilings d). ceiling_ok db c)
          \<and> (\<forall>i \<in> set (dm_items d). admits db i)"
  proof
    assume "\<exists>r db'. reserve created d db = Inr (r, db')"
    then show "k \<notin> h_id ` set (qd_headers db) \<and> (\<forall>c \<in> set (dm_ceilings d). ceiling_ok db c)
          \<and> (\<forall>i \<in> set (dm_items d). admits db i)"
      using reserve_returns [OF ok assms(2)] assms(3) by fastforce
  next
    assume A: "k \<notin> h_id ` set (qd_headers db) \<and> (\<forall>c \<in> set (dm_ceilings d). ceiling_ok db c)
          \<and> (\<forall>i \<in> set (dm_items d). admits db i)"
    then have "List.find (\<lambda>c. \<not> ceiling_ok db c) (dm_ceilings d) = None"
      "List.find (\<lambda>i. \<not> admits db i) (sorted_items d) = None"
      using sorted_items_facts(1) [of d] by (auto simp: find_first_None)
    with A show "\<exists>r db'. reserve created d db = Inr (r, db')" by (simp add: eq)
  qed
  fix r db' j
  assume run: "reserve created d db = Inr (r, db')"
  from reserve_returns [OF ok assms(2) run] assms(3)
  have "db' = taken k True (sorted_items d) (add_header (demand_header k created d) db)" by auto
  then show "qd_quotas db' = map (bump (\<lambda>x. amount_at x (dm_items d))) (qd_quotas db)"
    by (simp add: taken_def sorted_items_facts(2))
  show "is_held db' j \<longleftrightarrow> is_held db j \<or> j = k"
    by (rule reserve_keeps(2) [OF ok assms(2) run assms(3)])
qed

definition sample_demand :: resource_demand where
  "sample_demand = \<lparr>dm_id = Uid 4, dm_worker = ''w1'', dm_expires = 9, dm_items = [sample_item],
     dm_ceilings = [], dm_comp = None, dm_team = None, dm_chal = None\<rparr>"

lemma sample_demand_ok: "demand_ok sample_demand" by code_simp

theorem reserve_all_or_nothing_witness:
  "(\<exists>r db'. reserve 1 sample_demand pooled_db = Inr (r, db'))
   \<and> \<not> (\<exists>r db'. reserve 1 sample_demand placed_db = Inr (r, db'))"
proof -
  have id: "dm_id sample_demand = Uid 4" by (simp add: sample_demand_def)
  have a: "4 \<notin> h_id ` set (qd_headers pooled_db)" "dm_ceilings sample_demand = []"
    "\<forall>i \<in> set (dm_items sample_demand). admits pooled_db i"
    and b: "\<not> (\<forall>i \<in> set (dm_items sample_demand). admits placed_db i)"
    by code_simp+
  show ?thesis
    using reserve_all_or_nothing [OF pooled_reachable [of sample_fleet] sample_demand_ok id, of 1]
      reserve_all_or_nothing [OF placed_reachable sample_demand_ok id, of 1] a b
    by auto
qed

text \<open>
  Release undoes reserve: after a successful reserve, releasing the reservation succeeds and puts
  every counter back to what it was before the reserve; releasing it once more reports False and
  changes nothing.
\<close>

theorem release_undoes_reserve:
  assumes "quota_reachable fl db" and "demand_ok d" and "reserve created d db = Inr (r, db1)"
  shows "\<exists>db2. svc_release (rv_id r) now db1 = (Inr True, db2)
    \<and> qd_quotas db2 = qd_quotas db
    \<and> svc_release (rv_id r) now' db2 = (Inr False, db2)"
proof -
  note ok = quota_reachable_ok [OF assms(1)]
  from reserve_returns [OF ok assms(2,3)] obtain k where k: "dm_id d = Uid k" "k \<notin> h_id ` set (qd_headers db)"
    and r: "r = header_reservation (demand_header k created d) (dm_items d)"
    and db1: "db1 = taken k True (sorted_items d) (add_header (demand_header k created d) db)" by blast
  note ok1 = reserve_keeps(1) [OF ok assms(2,3)]
  let ?h = "demand_header k created d"
  have id: "rv_id r = Uid k" by (simp add: r header_reservation_def)
  have hold: "find_hold k db1 = Some ?h"
    by (subst find_hold_Some) (use ledger_shapeD(2) [OF quotadb_okD(1) [OF ok1]] in \<open>simp_all add: db1 taken_def\<close>)
  let ?db2 = "released_db ?h now db1"
  have run: "svc_release (Uid k) now db1 = (Inr True, ?db2)"
    by (simp add: svc_release_def session_scope_def release_eq [OF ok1] hold)
  have old: "items_of k (qd_items db) = []"
    using ledger_shapeD(7) [OF quotadb_okD(1) [OF ok]] k(2) by (auto simp: items_of_def filter_empty_conv)
  have "items_of k (qd_items db1) = sorted_items d"
    using old by (simp add: db1 taken_def items_of_def hold_rows_def filter_map comp_def)
  then have "qd_quotas ?db2 = map (bump (\<lambda>x. - amount_at x (sorted_items d))) (qd_quotas db1)"
    by (simp add: released_db_def)
  also have "\<dots> = map (bump (\<lambda>x. 0)) (qd_quotas db)"
    by (simp add: db1 taken_def bump_bump comp_def)
  also have "\<dots> = qd_quotas db" by (simp add: bump_def map_idI)
  finally have q: "qd_quotas ?db2 = qd_quotas db" .
  have "svc_release (Uid k) now' ?db2 = (Inr False, ?db2)"
    using ledger.free_twice [OF ok1, of k now' now] run by simp
  with run q id show ?thesis by simp
qed

theorem release_undoes_reserve_witness:
  "\<exists>r db1 db2. reserve 1 sample_demand pooled_db = Inr (r, db1)
     \<and> svc_release (rv_id r) 5 db1 = (Inr True, db2) \<and> qd_quotas db2 = qd_quotas pooled_db"
proof -
  have "case reserve 1 sample_demand pooled_db of Inl _ \<Rightarrow> False | Inr _ \<Rightarrow> True" by code_simp
  then obtain r db1 where run: "reserve 1 sample_demand pooled_db = Inr (r, db1)"
    by (auto split: sum.splits)
  from release_undoes_reserve [OF pooled_reachable [of sample_fleet] sample_demand_ok run, of 5 6] run
  show ?thesis by blast
qed

text \<open>
  Reconciliation heals drift: on any well-formed ledger, however wrong its counters are, whose
  held sums are within the limits, the sweep returns, reports exactly the number of wrong counters,
  and leaves every counter equal to its held sum; run again it reports zero and changes nothing.
\<close>

theorem reconcile_heals_drift:
  assumes "ledger_shape db" and "\<forall>q \<in> set (qd_quotas db). held_sum db (quota_key q) \<le> q_limit q"
  shows "\<exists>db'. svc_reconcile_counters db
      = (Inr (int (length (filter (\<lambda>q. q_reserved q \<noteq> held_sum db (quota_key q)) (qd_quotas db)))), db')
    \<and> (\<forall>q \<in> set (qd_quotas db'). q_reserved q = held_sum db' (quota_key q))
    \<and> svc_reconcile_counters db' = (Inr 0, db')"
proof -
  have heal: "healable db" using assms by (simp add: healable_def)
  note ok = reconciled_ok [OF heal]
  from reconcile_eq [OF heal] reconcile_noop [OF ok] quotadb_okD(2) [OF ok] show ?thesis
    by (auto simp: svc_reconcile_counters_def session_scope_def counters_off_def)
qed

definition drifted_db :: quotadb where
  "drifted_db = placed_db\<lparr>qd_quotas := map (\<lambda>q. q\<lparr>q_reserved := 0\<rparr>) (qd_quotas placed_db)\<rparr>"

theorem reconcile_heals_drift_witness:
  "\<exists>db'. svc_reconcile_counters drifted_db = (Inr 2, db') \<and> svc_reconcile_counters db' = (Inr 0, db')"
proof -
  note ok = quota_reachable_ok [OF placed_reachable]
  have keys: "quota_key (q\<lparr>q_reserved := 0\<rparr>) = quota_key q" for q by (simp add: quota_key_def)
  have shape: "ledger_shape drifted_db"
    using quotadb_okD(1) [OF ok]
    by (auto simp: drifted_db_def ledger_shape_def comp_def keys image_image quota_post_init_iff)
  have sums: "held_sum drifted_db x = held_sum placed_db x" for x
    by (rule held_sum_frame) (simp_all add: drifted_db_def)
  have "\<forall>q \<in> set (qd_quotas drifted_db). held_sum drifted_db (quota_key q) \<le> q_limit q"
    using ok_healable [OF ok] by (auto simp: healable_def sums keys) (auto simp: drifted_db_def keys)
  note heals = reconcile_heals_drift [OF shape this]
  have "length (filter (\<lambda>q. q_reserved q \<noteq> held_sum drifted_db (quota_key q)) (qd_quotas drifted_db)) = 2"
    by code_simp
  with heals show ?thesis by auto
qed

text \<open>
  A full worker is told from a shared overrun: items are taken with the worker's counter last, so
  when a reserve whose ceilings do not name the worker scope is refused for the worker scope, every
  ceiling and every shared item had room, and trying another worker makes sense.
\<close>

theorem worker_refusal_means_shared_pools_fit:
  assumes "quota_reachable fl db" and "demand_ok d"
    and "\<forall>c \<in> set (dm_ceilings d). cr_scope c \<noteq> ScWorker"
    and "reserve created d db = Inl (QuotaExceededError (scope_name ScWorker) key dim)"
  shows "(\<forall>c \<in> set (dm_ceilings d). ceiling_ok db c)
    \<and> (\<forall>i \<in> set (dm_items d). ri_scope i \<noteq> ScWorker \<longrightarrow> admits db i)
    \<and> (\<exists>i \<in> set (dm_items d). ri_scope i = ScWorker \<and> \<not> admits db i)"
proof (cases "dm_id d")
  case (Malformed s)
  then show ?thesis using assms(4) by (simp add: reserve_def tx_some_cases tx_bind_def tx_raise_def)
next
  case (Uid k)
  note ok = quota_reachable_ok [OF assms(1)]
  have scope: "scope_name a = scope_name ScWorker \<longleftrightarrow> a = ScWorker" for a by (cases a) simp_all
  note eq = reserve_eq [OF quotadb_okD(1) [OF ok] assms(2) Uid, of created]
  have noceil: "List.find (\<lambda>c. \<not> ceiling_ok db c) (dm_ceilings d) = None"
  proof (rule ccontr)
    assume "List.find (\<lambda>c. \<not> ceiling_ok db c) (dm_ceilings d) \<noteq> None"
    then obtain c where f: "List.find (\<lambda>c. \<not> ceiling_ok db c) (dm_ceilings d) = Some c" by blast
    then have "c \<in> set (dm_ceilings d)" by (auto simp: find_Some_iff)
    with f assms(3,4) eq scope show False
      by (auto simp: ceiling_refusal_def quota_exceeded_def cr_quota_def split: if_splits option.splits)
  qed
  then obtain i where f: "List.find (\<lambda>i. \<not> admits db i) (sorted_items d) = Some i"
    and ref: "refusal db i = QuotaExceededError (scope_name ScWorker) key dim"
    using assms(4) eq by (auto split: if_splits option.splits)
  then have iw: "ri_scope i = ScWorker" "i \<in> set (dm_items d)" "\<not> admits db i"
    using scope sorted_items_facts(1) [of d]
    by (auto simp: refusal_def quota_exceeded_def ri_quota_def find_Some_iff split: option.splits)
  have "admits db j" if j: "j \<in> set (dm_items d)" "ri_scope j \<noteq> ScWorker" for j
  proof -
    obtain n where n: "n < length (sorted_items d)" "sorted_items d ! n = i"
      and before: "\<forall>m < n. admits db (sorted_items d ! m)"
      using f by (auto simp: find_Some_iff)
    obtain m where m: "m < length (sorted_items d)" "sorted_items d ! m = j"
      using j(1) sorted_items_facts(1) [of d] by (metis in_set_conv_nth)
    have "m < n"
    proof (rule ccontr)
      assume "\<not> m < n"
      then have "ri_quota i \<le> ri_quota j"
        using sorted_sort_key [of ri_quota "dm_items d"] n m
        by (auto simp: sorted_items_def sorted_iff_nth_mono)
      then have "ScWorker \<le> ri_scope j" using iw(1) by (auto simp: ri_quota_def less_eq_prod_def)
      with scope_le_worker [of "ri_scope j"] j(2) show False by simp
    qed
    with before m(2) show ?thesis by blast
  qed
  with noceil iw show ?thesis by (auto simp: find_first_None)
qed

definition greedy_demand :: resource_demand where
  "greedy_demand = sample_demand\<lparr>dm_items := [\<lparr>ri_scope = ScWorker, ri_key = ''w1'', ri_dim = ActiveInstances,
     ri_amount = 3\<rparr>, sample_item]\<rparr>"

theorem worker_refusal_means_shared_pools_fit_witness: "admits pooled_db sample_item"
proof -
  have d: "demand_ok greedy_demand" and c: "\<forall>c \<in> set (dm_ceilings greedy_demand). cr_scope c \<noteq> ScWorker"
    and run: "reserve 1 greedy_demand pooled_db
      = Inl (QuotaExceededError (scope_name ScWorker) ''w1'' (dimension_name ActiveInstances))"
    by code_simp+
  have "sample_item \<in> set (dm_items greedy_demand)" "ri_scope sample_item \<noteq> ScWorker"
    by (simp_all add: greedy_demand_def sample_item_def)
  with worker_refusal_means_shared_pools_fit [OF pooled_reachable [of sample_fleet] d c run]
  show ?thesis by blast
qed



end
