(* ===== verification/Instance_Models.thy ===== *)
theory Instance_Models
  imports Work_Models
begin

text \<open>
  The value types of \<open>domain/instances/models.py\<close>: the fourteen lifecycle states and their legal
  moves, desired states, the \<open>Instance\<close> aggregate and the facts workers report about it, each with
  the checks of its constructor. The transition matrix is interpreted as a life cycle whose only
  final state is \<open>archived\<close>.
\<close>

section \<open>Enumerations\<close>

datatype instance_state =
    IRequested | IQueued | IBuilding | IReady | IStarting | IHealthy | IActive | IDegraded
  | IStopping | IStopped | IExpired | IFailed | IQuarantined | IArchived

fun instance_state_name :: "instance_state \<Rightarrow> string" where
  "instance_state_name IRequested = ''requested''"
| "instance_state_name IQueued = ''queued''"
| "instance_state_name IBuilding = ''building''"
| "instance_state_name IReady = ''ready''"
| "instance_state_name IStarting = ''starting''"
| "instance_state_name IHealthy = ''healthy''"
| "instance_state_name IActive = ''active''"
| "instance_state_name IDegraded = ''degraded''"
| "instance_state_name IStopping = ''stopping''"
| "instance_state_name IStopped = ''stopped''"
| "instance_state_name IExpired = ''expired''"
| "instance_state_name IFailed = ''failed''"
| "instance_state_name IQuarantined = ''quarantined''"
| "instance_state_name IArchived = ''archived''"

datatype desired_state = DesActive | DesStopped | DesDeleted

datatype resource_kind = ResContainer | ResImage | ResNetwork | ResVolume

datatype resource_state = ResActive | ResReleasing | ResReleased

text \<open>What a worker may report: a lifecycle state, or one of two coarse tokens.\<close>

datatype observed_state = ObsState instance_state | ObsAbsent | ObsGone

datatype event_actor = BySystem | ByOperator | ByWorker

text \<open>Resource kinds are ordered as the strings that name them.\<close>

fun resource_kind_rank :: "resource_kind \<Rightarrow> nat" where
  "resource_kind_rank ResContainer = 0"
| "resource_kind_rank ResImage = 1"
| "resource_kind_rank ResNetwork = 2"
| "resource_kind_rank ResVolume = 3"

instantiation resource_kind :: linorder
begin

definition less_eq_resource_kind :: "resource_kind \<Rightarrow> resource_kind \<Rightarrow> bool" where
  "a \<le> b \<longleftrightarrow> resource_kind_rank a \<le> resource_kind_rank b"

definition less_resource_kind :: "resource_kind \<Rightarrow> resource_kind \<Rightarrow> bool" where
  "a < b \<longleftrightarrow> resource_kind_rank a < resource_kind_rank b"

instance
proof
  fix a b :: resource_kind
  show "a \<le> b \<Longrightarrow> b \<le> a \<Longrightarrow> a = b"
    by (cases a; cases b) (simp_all add: less_eq_resource_kind_def)
qed (auto simp: less_eq_resource_kind_def less_resource_kind_def)

end

section \<open>The state machine\<close>

fun legal_instance_transitions :: "instance_state \<Rightarrow> instance_state list" where
  "legal_instance_transitions IRequested = [IQueued, IFailed, IQuarantined, IStopping]"
| "legal_instance_transitions IQueued = [IBuilding, IStarting, IFailed, IQuarantined, IStopping]"
| "legal_instance_transitions IBuilding = [IReady, IFailed, IQuarantined, IStopping]"
| "legal_instance_transitions IReady = [IStarting, IFailed, IQuarantined, IStopping]"
| "legal_instance_transitions IStarting = [IHealthy, IFailed, IQuarantined, IStopping]"
| "legal_instance_transitions IHealthy = [IActive, IDegraded, IStopping, IExpired, IQuarantined, IFailed]"
| "legal_instance_transitions IActive = [IDegraded, IStopping, IExpired, IQuarantined, IFailed]"
| "legal_instance_transitions IDegraded = [IHealthy, IActive, IStopping, IExpired, IQuarantined, IFailed]"
| "legal_instance_transitions IStopping = [IStopped, IFailed, IQuarantined]"
| "legal_instance_transitions IStopped = [IStarting, IArchived, IQuarantined]"
| "legal_instance_transitions IExpired = [IStopping, IArchived]"
| "legal_instance_transitions IFailed = [IStarting, IArchived, IQuarantined]"
| "legal_instance_transitions IQuarantined = [IStopping, IArchived]"
| "legal_instance_transitions IArchived = []"

definition terminal_instance_state :: "instance_state \<Rightarrow> bool" where
  "terminal_instance_state s \<longleftrightarrow> s = IArchived"

definition is_legal_instance_transition :: "instance_state \<Rightarrow> instance_state \<Rightarrow> bool" where
  "is_legal_instance_transition s t =
     (if s = t then \<not> terminal_instance_state s else t \<in> set (legal_instance_transitions s))"

definition instance_move :: "instance_state \<Rightarrow> instance_state \<Rightarrow> bool" where
  "instance_move s t \<longleftrightarrow> t \<in> set (legal_instance_transitions s)"

lemma no_self_move: "\<not> instance_move s s"
  by (cases s) (simp_all add: instance_move_def)

lemma legal_iff_move: "s \<noteq> t \<Longrightarrow> is_legal_instance_transition s t \<longleftrightarrow> instance_move s t"
  by (simp add: is_legal_instance_transition_def instance_move_def)

interpretation instance_lc: lifecycle instance_move terminal_instance_state IRequested
  by unfold_locales (auto simp: instance_move_def terminal_instance_state_def)

fun observed_is_absent :: "observed_state \<Rightarrow> bool" where
  "observed_is_absent ObsAbsent = True"
| "observed_is_absent ObsGone = True"
| "observed_is_absent (ObsState _) = False"

section \<open>Aggregates\<close>

record inst =
  in_id :: ident
  in_comp :: string
  in_team :: string
  in_defn :: string
  in_ver :: int
  in_state :: instance_state
  in_desired :: desired_state
  in_worker :: "string option"
  in_gen :: int
  in_image :: "string option"
  in_expires :: "instant option"
  in_seed :: "string option"
  in_created :: "instant option"
  in_updated :: "instant option"

definition instance_post_init :: "inst \<Rightarrow> exn + unit" where
  "instance_post_init i =
     (if \<not> ident_nonempty (in_id i) then Inl ValueError
      else if \<not> nonempty (in_comp i) then Inl ValueError
      else if \<not> nonempty (in_team i) then Inl ValueError
      else if \<not> nonempty (in_defn i) then Inl ValueError
      else if in_ver i < 1 then Inl ValueError
      else if in_gen i < 1 then Inl ValueError
      else if \<not> opt_nonempty (in_worker i) then Inl ValueError
      else if \<not> opt_nonempty (in_image i) then Inl ValueError
      else if \<not> opt_nonempty (in_seed i) then Inl ValueError
      else Inr ())"

definition inst_terminal :: "inst \<Rightarrow> bool" where
  "inst_terminal i \<longleftrightarrow> terminal_instance_state (in_state i)"

definition can_transition_to :: "inst \<Rightarrow> instance_state \<Rightarrow> bool" where
  "can_transition_to i t \<longleftrightarrow> is_legal_instance_transition (in_state i) t"

record endpoint =
  ep_inst :: ident
  ep_name :: string
  ep_host :: string
  ep_port :: int
  ep_protocol :: string
  ep_url :: string
  ep_internal :: bool

definition endpoint_post_init :: "endpoint \<Rightarrow> exn + unit" where
  "endpoint_post_init e =
     (if \<not> ident_nonempty (ep_inst e) then Inl ValueError
      else if \<not> nonempty (ep_name e) then Inl ValueError
      else if \<not> nonempty (ep_host e) then Inl ValueError
      else if \<not> nonempty (ep_protocol e) then Inl ValueError
      else if \<not> nonempty (ep_url e) then Inl ValueError
      else if \<not> (1 \<le> ep_port e \<and> ep_port e \<le> 65535) then Inl ValueError
      else Inr ())"

record runtime_resource =
  rr_inst :: ident
  rr_kind :: resource_kind
  rr_ref :: string
  rr_worker :: string
  rr_gen :: int
  rr_state :: resource_state

definition runtime_resource_post_init :: "runtime_resource \<Rightarrow> exn + unit" where
  "runtime_resource_post_init r =
     (if \<not> ident_nonempty (rr_inst r) then Inl ValueError
      else if \<not> nonempty (rr_ref r) then Inl ValueError
      else if \<not> nonempty (rr_worker r) then Inl ValueError
      else if rr_gen r < 1 then Inl ValueError
      else Inr ())"

record instance_credential =
  cd_inst :: ident
  cd_name :: string
  cd_secret_ref :: string
  cd_scopes :: "string list"
  cd_expires :: "instant option"

definition instance_credential_post_init :: "instance_credential \<Rightarrow> exn + unit" where
  "instance_credential_post_init c =
     (if \<not> ident_nonempty (cd_inst c) then Inl ValueError
      else if \<not> nonempty (cd_name c) then Inl ValueError
      else if \<not> nonempty (cd_secret_ref c) then Inl ValueError
      else if \<exists>s \<in> set (cd_scopes c). \<not> nonempty s then Inl ValueError
      else Inr ())"

record health_observation =
  ho_inst :: ident
  ho_state :: observed_state
  ho_healthy :: bool
  ho_worker :: string
  ho_gen :: int
  ho_at :: instant
  ho_detail :: "(string \<times> json) list"
  ho_id :: "nat option"

definition health_observation_post_init :: "health_observation \<Rightarrow> exn + unit" where
  "health_observation_post_init ob =
     (if \<not> ident_nonempty (ho_inst ob) then Inl ValueError
      else if \<not> nonempty (ho_worker ob) then Inl ValueError
      else if ho_gen ob < 1 then Inl ValueError
      else Inr ())"

definition observed_absent :: "health_observation \<Rightarrow> bool" where
  "observed_absent ob \<longleftrightarrow> observed_is_absent (ho_state ob)"

record instance_event =
  ev_inst :: nat
  ev_from :: "instance_state option"
  ev_to :: instance_state
  ev_reason :: string
  ev_actor :: event_actor
  ev_gen :: int
  ev_at :: instant

definition instance_event_post_init :: "instance_event \<Rightarrow> exn + unit" where
  "instance_event_post_init e =
     (if \<not> nonempty (ev_reason e) then Inl ValueError
      else if ev_gen e < 1 then Inl ValueError
      else Inr ())"

end
