(* ===== verification/Instance_Store.thy ===== *)
theory Instance_Store
  imports Instance_Models Catalog
begin

text \<open>
  The durable instance store of \<open>infrastructure/database/instance_repository.py\<close> over the tables
  and the trigger of migration 0010: instances, endpoints, runtime resources, credentials and the
  append-only observations and events. Each method of \<open>SqlAlchemyInstanceRepository\<close> is a unit of
  work; the transition guard, the CHECKs and the keys run where a row is flushed.
\<close>

section \<open>Rows, guard and constraints\<close>

record inst_row =
  i_id :: nat
  i_comp :: string
  i_team :: string
  i_version :: "string \<times> int"
  i_state :: instance_state
  i_desired :: desired_state
  i_worker :: "string option"
  i_gen :: int
  i_image :: "string option"
  i_expires :: "instant option"
  i_seed :: "string option"
  i_created :: instant
  i_updated :: instant

record endpoint_row =
  er_inst :: nat
  er_name :: string
  er_host :: string
  er_port :: int
  er_protocol :: string
  er_url :: string
  er_internal :: bool
  er_created :: instant

record resource_row =
  rs_inst :: nat
  rs_kind :: resource_kind
  rs_ref :: string
  rs_worker :: string
  rs_gen :: int
  rs_state :: resource_state
  rs_created :: instant
  rs_updated :: instant

record credential_row =
  cr_inst :: nat
  cr_name :: string
  cr_secret :: string
  cr_scopes :: "string list"
  cr_expires :: "instant option"

record observation_row =
  or_id :: nat
  or_inst :: nat
  or_state :: observed_state
  or_healthy :: bool
  or_worker :: string
  or_gen :: int
  or_at :: instant
  or_detail :: "(string \<times> json) list"
  or_created :: instant

record instdb =
  nd_rows :: "inst_row list"
  nd_endpoints :: "endpoint_row list"
  nd_resources :: "resource_row list"
  nd_credentials :: "credential_row list"
  nd_observations :: "observation_row list"
  nd_events :: "instance_event list"

definition empty_instdb :: instdb where
  "empty_instdb = \<lparr>nd_rows = [], nd_endpoints = [], nd_resources = [], nd_credentials = [],
     nd_observations = [], nd_events = []\<rparr>"

text \<open>Plpgsql \<open>instance_transition_guard\<close>: True where it returns \<open>NEW\<close>, False where it raises.\<close>

definition instance_transition_guard :: "inst_row \<Rightarrow> inst_row \<Rightarrow> bool" where
  "instance_transition_guard old new =
     (if i_id old \<noteq> i_id new \<or> i_comp old \<noteq> i_comp new \<or> i_team old \<noteq> i_team new
         \<or> i_version old \<noteq> i_version new \<or> i_created old \<noteq> i_created new then False
      else if i_state old = IArchived then False
      else if i_state new = i_state old then True
      else
        (i_state old = IRequested \<and> i_state new \<in> {IQueued, IFailed, IQuarantined, IStopping})
        \<or> (i_state old = IQueued \<and>
             i_state new \<in> {IBuilding, IStarting, IFailed, IQuarantined, IStopping})
        \<or> (i_state old = IBuilding \<and> i_state new \<in> {IReady, IFailed, IQuarantined, IStopping})
        \<or> (i_state old = IReady \<and> i_state new \<in> {IStarting, IFailed, IQuarantined, IStopping})
        \<or> (i_state old = IStarting \<and> i_state new \<in> {IHealthy, IFailed, IQuarantined, IStopping})
        \<or> (i_state old = IHealthy \<and>
             i_state new \<in> {IActive, IDegraded, IStopping, IExpired, IQuarantined, IFailed})
        \<or> (i_state old = IActive \<and>
             i_state new \<in> {IDegraded, IStopping, IExpired, IQuarantined, IFailed})
        \<or> (i_state old = IDegraded \<and>
             i_state new \<in> {IHealthy, IActive, IStopping, IExpired, IQuarantined, IFailed})
        \<or> (i_state old = IStopping \<and> i_state new \<in> {IStopped, IFailed, IQuarantined})
        \<or> (i_state old = IStopped \<and> i_state new \<in> {IStarting, IArchived, IQuarantined})
        \<or> (i_state old = IExpired \<and> i_state new \<in> {IStopping, IArchived})
        \<or> (i_state old = IFailed \<and> i_state new \<in> {IStarting, IArchived, IQuarantined})
        \<or> (i_state old = IQuarantined \<and> i_state new \<in> {IStopping, IArchived}))"

definition endpoint_check :: "endpoint_row \<Rightarrow> string option" where
  "endpoint_check e =
     (if \<not> (1 \<le> er_port e \<and> er_port e \<le> 65535) then Some ''ck_instance_endpoints_port_valid''
      else if \<not> nonempty (er_host e) then Some ''ck_instance_endpoints_host_non_empty''
      else if \<not> nonempty (er_protocol e) then Some ''ck_instance_endpoints_protocol_non_empty''
      else if \<not> nonempty (er_url e) then Some ''ck_instance_endpoints_url_non_empty''
      else None)"

section \<open>Mapping rows to the domain\<close>

definition row_inst :: "inst_row \<Rightarrow> inst" where
  "row_inst r = \<lparr>in_id = Uid (i_id r), in_comp = i_comp r, in_team = i_team r,
     in_defn = fst (i_version r), in_ver = snd (i_version r), in_state = i_state r,
     in_desired = i_desired r, in_worker = i_worker r, in_gen = i_gen r, in_image = i_image r,
     in_expires = i_expires r, in_seed = i_seed r, in_created = Some (i_created r),
     in_updated = Some (i_updated r)\<rparr>"

text \<open>\<open>_to_domain\<close> and \<open>instance_from_orm\<close>: the constructor's checks run on what was read.\<close>

definition inst_to_domain :: "inst_row \<Rightarrow> (instdb, inst) tx" where
  "inst_to_domain r = (case instance_post_init (row_inst r) of
      Inl e \<Rightarrow> tx_raise e | Inr _ \<Rightarrow> tx_ret (row_inst r))"

fun insts_to_domain :: "inst_row list \<Rightarrow> (instdb, inst list) tx" where
  "insts_to_domain [] = tx_ret []"
| "insts_to_domain (r # rs) =
     tx_bind (inst_to_domain r) (\<lambda>i. tx_bind (insts_to_domain rs) (\<lambda>is. tx_ret (i # is)))"

definition instance_to_orm ::
    "inst \<Rightarrow> string \<Rightarrow> string \<Rightarrow> string \<times> int \<Rightarrow> string option \<Rightarrow> instant \<Rightarrow> exn + inst_row" where
  "instance_to_orm i c t v w created = (case as_uuid (in_id i) of
      None \<Rightarrow> Inl ValueError
    | Some k \<Rightarrow> Inr \<lparr>i_id = k, i_comp = c, i_team = t, i_version = v, i_state = in_state i,
        i_desired = in_desired i, i_worker = w, i_gen = in_gen i, i_image = in_image i,
        i_expires = in_expires i, i_seed = in_seed i, i_created = created, i_updated = created\<rparr>)"

section \<open>The instance row\<close>

definition locked_inst :: "ident \<Rightarrow> (instdb, inst_row) tx" where
  "locked_inst instance_id =
     tx_bind (tx_some LookupError (as_uuid instance_id)) (\<lambda>k.
     tx_bind (tx_get (\<lambda>db. find_row i_id k (nd_rows db))) (tx_some LookupError))"

text \<open>Flushing a changed row: the BEFORE UPDATE trigger, then the CHECK; nothing when unchanged.\<close>

definition flush_inst :: "inst_row \<Rightarrow> (instdb, unit) tx" where
  "flush_inst new = (\<lambda>db. case find_row i_id (i_id new) (nd_rows db) of
      None \<Rightarrow> Inr ((), db)
    | Some old \<Rightarrow>
        if old = new then Inr ((), db)
        else if \<not> instance_transition_guard old new then Inl ProgrammingError
        else if i_gen new < 1 then Inl (IntegrityError ''ck_instances_generation_positive'')
        else Inr ((), db\<lparr>nd_rows := put_row i_id new (nd_rows db)\<rparr>))"

definition append_event ::
    "inst_row \<Rightarrow> instance_state option \<Rightarrow> instance_state \<Rightarrow> string \<Rightarrow> event_actor \<Rightarrow> instant
       \<Rightarrow> (instdb, unit) tx" where
  "append_event r from to reason actor now =
     (let ev = \<lparr>ev_inst = i_id r, ev_from = from, ev_to = to, ev_reason = reason, ev_actor = actor,
            ev_gen = i_gen r, ev_at = now\<rparr> in
      case instance_event_post_init ev of
        Inl e \<Rightarrow> tx_raise e
      | Inr _ \<Rightarrow> tx_modify (\<lambda>db. db\<lparr>nd_events := nd_events db @ [ev]\<rparr>))"

definition insert_inst :: "inst_row \<Rightarrow> (instdb, unit) tx" where
  "insert_inst r = (\<lambda>db.
     if i_gen r < 1 then Inl (IntegrityError ''ck_instances_generation_positive'')
     else if i_id r \<in> i_id ` set (nd_rows db) then Inl (IntegrityError ''pk_instances'')
     else Inr ((), db\<lparr>nd_rows := nd_rows db @ [r]\<rparr>))"

definition add_instance :: "catalog \<Rightarrow> instant \<Rightarrow> inst \<Rightarrow> instant \<Rightarrow> (instdb, inst) tx" where
  "add_instance cat created i now =
     tx_bind (competition_uuid cat (in_comp i)) (\<lambda>c.
     tx_bind (team_uuid cat c (in_team i)) (\<lambda>t.
     tx_bind (version_uuid cat (in_defn i) (in_ver i)) (\<lambda>v.
     tx_bind (worker_uuid_optional cat (in_worker i)) (\<lambda>w.
     case instance_to_orm i c t v w created of
       Inl e \<Rightarrow> tx_raise e
     | Inr row \<Rightarrow>
         tx_bind (insert_inst row) (\<lambda>_.
         tx_bind (append_event row None (in_state i) ''created'' BySystem now) (\<lambda>_.
         inst_to_domain row))))))"

definition get_instance :: "ident \<Rightarrow> (instdb, inst option) tx" where
  "get_instance instance_id = (case as_uuid instance_id of
      None \<Rightarrow> tx_ret None
    | Some k \<Rightarrow> tx_bind (tx_get (\<lambda>db. find_row i_id k (nd_rows db))) (\<lambda>r. case r of
          None \<Rightarrow> tx_ret None
        | Some row \<Rightarrow> tx_bind (inst_to_domain row) (\<lambda>i. tx_ret (Some i))))"

definition get_for_submission ::
    "catalog \<Rightarrow> string \<Rightarrow> string \<Rightarrow> string \<Rightarrow> int \<Rightarrow> (instdb, inst option) tx" where
  "get_for_submission cat cslug team defn no =
     tx_bind (competition_uuid cat cslug) (\<lambda>c.
     tx_bind (team_uuid cat c team) (\<lambda>t.
     tx_bind (version_uuid cat defn no) (\<lambda>v.
     tx_bind (tx_get (\<lambda>db. List.find
         (\<lambda>r. i_comp r = c \<and> i_team r = t \<and> i_version r = v) (nd_rows db))) (\<lambda>r. case r of
       None \<Rightarrow> tx_ret None
     | Some row \<Rightarrow> tx_bind (inst_to_domain row) (\<lambda>i. tx_ret (Some i))))))"

definition list_reconcilable :: "nat \<Rightarrow> (instdb, inst list) tx" where
  "list_reconcilable limit =
     tx_bind (tx_get (\<lambda>db. order_limit i_created limit
       (filter (\<lambda>r. i_state r \<noteq> IArchived) (nd_rows db)))) insts_to_domain"

definition list_all_instances :: "(instdb, inst list) tx" where
  "list_all_instances =
     tx_bind (tx_get (\<lambda>db. sort_key (\<lambda>r. (i_created r, i_id r)) (nd_rows db))) insts_to_domain"

definition list_for_competition :: "catalog \<Rightarrow> string \<Rightarrow> (instdb, inst list) tx" where
  "list_for_competition cat cslug =
     tx_bind (competition_uuid cat cslug) (\<lambda>c.
     tx_bind (tx_get (\<lambda>db. sort_key (\<lambda>r. (i_created r, i_id r))
       (filter (\<lambda>r. i_comp r = c) (nd_rows db)))) insts_to_domain)"

definition transition_instance ::
    "ident \<Rightarrow> instance_state \<Rightarrow> string \<Rightarrow> event_actor \<Rightarrow> instant \<Rightarrow> (instdb, inst) tx" where
  "transition_instance instance_id to_state reason actor now =
     tx_bind (locked_inst instance_id) (\<lambda>row.
     if i_state row = to_state then inst_to_domain row
     else
       let new = row\<lparr>i_state := to_state, i_updated := now\<rparr> in
       tx_bind (flush_inst new) (\<lambda>_.
       tx_bind (append_event new (Some (i_state row)) to_state reason actor now) (\<lambda>_.
       inst_to_domain new)))"

definition set_desired_state :: "ident \<Rightarrow> desired_state \<Rightarrow> instant \<Rightarrow> (instdb, inst) tx" where
  "set_desired_state instance_id desired now =
     tx_bind (locked_inst instance_id) (\<lambda>row.
     let new = row\<lparr>i_desired := desired, i_updated := now\<rparr> in
     tx_bind (flush_inst new) (\<lambda>_. inst_to_domain new))"

definition set_assignment :: "catalog \<Rightarrow> ident \<Rightarrow> string option \<Rightarrow> instant \<Rightarrow> (instdb, inst) tx" where
  "set_assignment cat instance_id worker now =
     tx_bind (locked_inst instance_id) (\<lambda>row.
     tx_bind (worker_uuid_optional cat worker) (\<lambda>w.
     let new = row\<lparr>i_worker := w, i_updated := now\<rparr> in
     tx_bind (flush_inst new) (\<lambda>_. inst_to_domain new)))"

definition bump_generation :: "ident \<Rightarrow> instant \<Rightarrow> (instdb, inst) tx" where
  "bump_generation instance_id now =
     tx_bind (locked_inst instance_id) (\<lambda>row.
     let new = row\<lparr>i_gen := i_gen row + 1, i_updated := now\<rparr> in
     tx_bind (flush_inst new) (\<lambda>_. inst_to_domain new))"

definition fence_stale_worker :: "ident \<Rightarrow> string \<Rightarrow> int \<Rightarrow> instant \<Rightarrow> (instdb, inst option) tx" where
  "fence_stale_worker instance_id expected_worker expected_gen now =
     tx_bind (locked_inst instance_id) (\<lambda>row.
     if i_worker row \<noteq> Some expected_worker \<or> i_gen row \<noteq> expected_gen then tx_ret None
     else
       let new = row\<lparr>i_worker := None, i_gen := i_gen row + 1, i_updated := now\<rparr> in
       tx_bind (flush_inst new) (\<lambda>_. tx_bind (inst_to_domain new) (\<lambda>i. tx_ret (Some i))))"

definition fence_missing_container :: "ident \<Rightarrow> int \<Rightarrow> instant \<Rightarrow> (instdb, inst option) tx" where
  "fence_missing_container instance_id expected_gen now =
     tx_bind (locked_inst instance_id) (\<lambda>row.
     if i_gen row \<noteq> expected_gen then tx_ret None
     else
       let new = row\<lparr>i_gen := i_gen row + 1, i_updated := now\<rparr> in
       tx_bind (flush_inst new) (\<lambda>_. tx_bind (inst_to_domain new) (\<lambda>i. tx_ret (Some i))))"

text \<open>A \<open>None\<close> argument of \<open>set_runtime_facts\<close> leaves the column as it is.\<close>

definition or_else :: "'a option \<Rightarrow> 'a option \<Rightarrow> 'a option" where
  "or_else x old = (case x of None \<Rightarrow> old | Some v \<Rightarrow> Some v)"

definition set_runtime_facts ::
    "ident \<Rightarrow> instant \<Rightarrow> string option \<Rightarrow> string option \<Rightarrow> instant option \<Rightarrow> (instdb, inst) tx" where
  "set_runtime_facts instance_id now img seed expires =
     tx_bind (locked_inst instance_id) (\<lambda>row.
     let new = row\<lparr>i_image := or_else img (i_image row), i_seed := or_else seed (i_seed row),
           i_expires := or_else expires (i_expires row), i_updated := now\<rparr> in
     tx_bind (flush_inst new) (\<lambda>_. inst_to_domain new))"

section \<open>Endpoints\<close>

definition endpoint_key :: "endpoint_row \<Rightarrow> nat \<times> string" where
  "endpoint_key e = (er_inst e, er_name e)"

definition row_endpoint :: "endpoint_row \<Rightarrow> endpoint" where
  "row_endpoint e = \<lparr>ep_inst = Uid (er_inst e), ep_name = er_name e, ep_host = er_host e,
     ep_port = er_port e, ep_protocol = er_protocol e, ep_url = er_url e, ep_internal = er_internal e\<rparr>"

fun endpoints_from_orm :: "endpoint_row list \<Rightarrow> (instdb, endpoint list) tx" where
  "endpoints_from_orm [] = tx_ret []"
| "endpoints_from_orm (r # rs) = (case endpoint_post_init (row_endpoint r) of
      Inl e \<Rightarrow> tx_raise e
    | Inr _ \<Rightarrow> tx_bind (endpoints_from_orm rs) (\<lambda>es. tx_ret (row_endpoint r # es)))"

definition endpoint_to_orm :: "nat \<Rightarrow> endpoint \<Rightarrow> instant \<Rightarrow> endpoint_row" where
  "endpoint_to_orm k e created = \<lparr>er_inst = k, er_name = ep_name e, er_host = ep_host e,
     er_port = ep_port e, er_protocol = ep_protocol e, er_url = ep_url e, er_internal = ep_internal e,
     er_created = created\<rparr>"

definition find_endpoint :: "ident \<Rightarrow> string \<Rightarrow> (instdb, endpoint_row option) tx" where
  "find_endpoint instance_id name =
     tx_bind (tx_some ValueError (as_uuid instance_id)) (\<lambda>k.
     tx_get (\<lambda>db. find_row endpoint_key (k, name) (nd_endpoints db)))"

definition write_endpoint :: "bool \<Rightarrow> endpoint_row \<Rightarrow> (instdb, unit) tx" where
  "write_endpoint fresh e = (\<lambda>db. case endpoint_check e of
      Some ck \<Rightarrow> Inl (IntegrityError ck)
    | None \<Rightarrow>
        if er_inst e \<notin> i_id ` set (nd_rows db)
        then Inl (IntegrityError ''fk_instance_endpoints_instance_id_instances'')
        else Inr ((), db\<lparr>nd_endpoints := (if fresh then nd_endpoints db @ [e]
               else put_row endpoint_key e (nd_endpoints db))\<rparr>))"

definition record_endpoint :: "instant \<Rightarrow> endpoint \<Rightarrow> (instdb, unit) tx" where
  "record_endpoint created e =
     tx_bind (find_endpoint (ep_inst e) (ep_name e)) (\<lambda>existing.
     tx_bind (tx_some ValueError (as_uuid (ep_inst e))) (\<lambda>k.
     case existing of
       None \<Rightarrow> write_endpoint True (endpoint_to_orm k e created)
     | Some old \<Rightarrow> write_endpoint False (endpoint_to_orm k e (er_created old))))"

definition delete_endpoint :: "ident \<Rightarrow> string \<Rightarrow> (instdb, bool) tx" where
  "delete_endpoint instance_id name =
     tx_bind (find_endpoint instance_id name) (\<lambda>r. case r of
       None \<Rightarrow> tx_ret False
     | Some row \<Rightarrow>
         tx_bind (tx_modify (\<lambda>db. db\<lparr>nd_endpoints :=
           filter (\<lambda>e. endpoint_key e \<noteq> endpoint_key row) (nd_endpoints db)\<rparr>)) (\<lambda>_. tx_ret True))"

definition list_endpoints :: "ident \<Rightarrow> (instdb, endpoint list) tx" where
  "list_endpoints instance_id =
     tx_bind (tx_some ValueError (as_uuid instance_id)) (\<lambda>k.
     tx_bind (tx_get (\<lambda>db. sort_key er_name (filter (\<lambda>e. er_inst e = k) (nd_endpoints db))))
       endpoints_from_orm)"

definition inst_archived :: "instdb \<Rightarrow> nat \<Rightarrow> bool" where
  "inst_archived db k \<longleftrightarrow> (\<exists>r \<in> set (nd_rows db). i_id r = k \<and> i_state r = IArchived)"

definition list_orphan_endpoints :: "nat \<Rightarrow> (instdb, endpoint list) tx" where
  "list_orphan_endpoints limit =
     tx_bind (tx_get (\<lambda>db. order_limit er_created limit
       (filter (\<lambda>e. inst_archived db (er_inst e)) (nd_endpoints db)))) endpoints_from_orm"

section \<open>Runtime resources\<close>

definition resource_key :: "resource_row \<Rightarrow> nat \<times> resource_kind \<times> string" where
  "resource_key r = (rs_inst r, rs_kind r, rs_ref r)"

definition row_resource :: "resource_row \<Rightarrow> runtime_resource" where
  "row_resource r = \<lparr>rr_inst = Uid (rs_inst r), rr_kind = rs_kind r, rr_ref = rs_ref r,
     rr_worker = rs_worker r, rr_gen = rs_gen r, rr_state = rs_state r\<rparr>"

fun resources_from_orm :: "resource_row list \<Rightarrow> (instdb, runtime_resource list) tx" where
  "resources_from_orm [] = tx_ret []"
| "resources_from_orm (r # rs) = (case runtime_resource_post_init (row_resource r) of
      Inl e \<Rightarrow> tx_raise e
    | Inr _ \<Rightarrow> tx_bind (resources_from_orm rs) (\<lambda>xs. tx_ret (row_resource r # xs)))"

definition find_resource :: "ident \<Rightarrow> resource_kind \<Rightarrow> string \<Rightarrow> (instdb, resource_row option) tx" where
  "find_resource instance_id kind ref =
     tx_bind (tx_some ValueError (as_uuid instance_id)) (\<lambda>k.
     tx_get (\<lambda>db. find_row resource_key (k, kind, ref) (nd_resources db)))"

definition write_resource :: "bool \<Rightarrow> resource_row \<Rightarrow> (instdb, unit) tx" where
  "write_resource fresh r = (\<lambda>db.
     if rs_gen r < 1 then Inl (IntegrityError ''ck_runtime_resources_generation_positive'')
     else if rs_inst r \<notin> i_id ` set (nd_rows db)
     then Inl (IntegrityError ''fk_runtime_resources_instance_id_instances'')
     else Inr ((), db\<lparr>nd_resources := (if fresh then nd_resources db @ [r]
            else put_row resource_key r (nd_resources db))\<rparr>))"

definition record_runtime_resource :: "catalog \<Rightarrow> instant \<Rightarrow> runtime_resource \<Rightarrow> (instdb, unit) tx" where
  "record_runtime_resource cat created res =
     tx_bind (worker_uuid cat (rr_worker res)) (\<lambda>w.
     tx_bind (find_resource (rr_inst res) (rr_kind res) (rr_ref res)) (\<lambda>existing.
     tx_bind (tx_some ValueError (as_uuid (rr_inst res))) (\<lambda>k.
     case existing of
       None \<Rightarrow> write_resource True \<lparr>rs_inst = k, rs_kind = rr_kind res, rs_ref = rr_ref res,
         rs_worker = w, rs_gen = rr_gen res, rs_state = rr_state res, rs_created = created,
         rs_updated = created\<rparr>
     | Some old \<Rightarrow> write_resource False
         (old\<lparr>rs_worker := w, rs_gen := rr_gen res, rs_state := rr_state res\<rparr>))))"

definition set_resource_state ::
    "ident \<Rightarrow> resource_kind \<Rightarrow> string \<Rightarrow> resource_state \<Rightarrow> instant \<Rightarrow> (instdb, bool) tx" where
  "set_resource_state instance_id kind ref state now =
     tx_bind (find_resource instance_id kind ref) (\<lambda>r. case r of
       None \<Rightarrow> tx_ret False
     | Some row \<Rightarrow>
         tx_bind (write_resource False (row\<lparr>rs_state := state, rs_updated := now\<rparr>)) (\<lambda>_. tx_ret True))"

definition list_runtime_resources :: "ident \<Rightarrow> (instdb, runtime_resource list) tx" where
  "list_runtime_resources instance_id =
     tx_bind (tx_some ValueError (as_uuid instance_id)) (\<lambda>k.
     tx_bind (tx_get (\<lambda>db. sort_key (\<lambda>r. (rs_kind r, rs_ref r))
       (filter (\<lambda>r. rs_inst r = k) (nd_resources db)))) resources_from_orm)"

definition list_leaked_resources :: "nat \<Rightarrow> (instdb, runtime_resource list) tx" where
  "list_leaked_resources limit =
     tx_bind (tx_get (\<lambda>db. order_limit rs_created limit
       (filter (\<lambda>r. rs_state r = ResActive \<and> inst_archived db (rs_inst r)) (nd_resources db))))
       resources_from_orm"

section \<open>Credentials, observations, events\<close>

definition credential_key :: "credential_row \<Rightarrow> nat \<times> string" where
  "credential_key c = (cr_inst c, cr_name c)"

definition row_credential :: "credential_row \<Rightarrow> instance_credential" where
  "row_credential c = \<lparr>cd_inst = Uid (cr_inst c), cd_name = cr_name c, cd_secret_ref = cr_secret c,
     cd_scopes = cr_scopes c, cd_expires = cr_expires c\<rparr>"

definition credential_to_orm :: "nat \<Rightarrow> instance_credential \<Rightarrow> credential_row" where
  "credential_to_orm k c = \<lparr>cr_inst = k, cr_name = cd_name c, cr_secret = cd_secret_ref c,
     cr_scopes = cd_scopes c, cr_expires = cd_expires c\<rparr>"

definition record_credential :: "instance_credential \<Rightarrow> (instdb, unit) tx" where
  "record_credential c =
     tx_bind (tx_some ValueError (as_uuid (cd_inst c))) (\<lambda>k. (\<lambda>db.
       if \<not> nonempty (cd_secret_ref c)
       then Inl (IntegrityError ''ck_instance_credentials_secret_ref_non_empty'')
       else if k \<notin> i_id ` set (nd_rows db)
       then Inl (IntegrityError ''fk_instance_credentials_instance_id_instances'')
       else Inr ((), db\<lparr>nd_credentials :=
         (case find_row credential_key (k, cd_name c) (nd_credentials db) of
            None \<Rightarrow> nd_credentials db @ [credential_to_orm k c]
          | Some old \<Rightarrow> put_row credential_key (credential_to_orm k c) (nd_credentials db))\<rparr>)))"

fun credentials_from_orm :: "credential_row list \<Rightarrow> (instdb, instance_credential list) tx" where
  "credentials_from_orm [] = tx_ret []"
| "credentials_from_orm (r # rs) = (case instance_credential_post_init (row_credential r) of
      Inl e \<Rightarrow> tx_raise e
    | Inr _ \<Rightarrow> tx_bind (credentials_from_orm rs) (\<lambda>xs. tx_ret (row_credential r # xs)))"

definition list_credentials :: "ident \<Rightarrow> (instdb, instance_credential list) tx" where
  "list_credentials instance_id =
     tx_bind (tx_some ValueError (as_uuid instance_id)) (\<lambda>k.
     tx_bind (tx_get (\<lambda>db. sort_key cr_name (filter (\<lambda>c. cr_inst c = k) (nd_credentials db))))
       credentials_from_orm)"

definition row_observation :: "observation_row \<Rightarrow> health_observation" where
  "row_observation r = \<lparr>ho_inst = Uid (or_inst r), ho_state = or_state r, ho_healthy = or_healthy r,
     ho_worker = or_worker r, ho_gen = or_gen r, ho_at = or_at r, ho_detail = or_detail r,
     ho_id = Some (or_id r)\<rparr>"

definition observation_from_orm :: "observation_row \<Rightarrow> (instdb, health_observation) tx" where
  "observation_from_orm r = (case health_observation_post_init (row_observation r) of
      Inl e \<Rightarrow> tx_raise e | Inr _ \<Rightarrow> tx_ret (row_observation r))"

text \<open>The row's surrogate id and the database clock are arguments.\<close>

definition append_observation ::
    "catalog \<Rightarrow> nat \<Rightarrow> instant \<Rightarrow> health_observation \<Rightarrow> (instdb, health_observation) tx" where
  "append_observation cat oid created ob =
     tx_bind (worker_uuid cat (ho_worker ob)) (\<lambda>w.
     tx_bind (tx_some ValueError (as_uuid (ho_inst ob))) (\<lambda>k.
     let row = \<lparr>or_id = oid, or_inst = k, or_state = ho_state ob, or_healthy = ho_healthy ob,
           or_worker = w, or_gen = ho_gen ob, or_at = ho_at ob, or_detail = ho_detail ob,
           or_created = created\<rparr> in
     tx_bind (\<lambda>db.
       if ho_gen ob < 1 then Inl (IntegrityError ''ck_health_observations_generation_positive'')
       else if k \<notin> i_id ` set (nd_rows db)
       then Inl (IntegrityError ''fk_health_observations_instance_id_instances'')
       else Inr ((), db\<lparr>nd_observations := nd_observations db @ [row]\<rparr>)) (\<lambda>_.
     observation_from_orm row)))"

definition latest_observation :: "ident \<Rightarrow> (instdb, health_observation option) tx" where
  "latest_observation instance_id = (case as_uuid instance_id of
      None \<Rightarrow> tx_ret None
    | Some k \<Rightarrow> tx_bind (tx_get (\<lambda>db. first_by (\<lambda>r. (- or_at r, - or_created r))
          (filter (\<lambda>r. or_inst r = k) (nd_observations db)))) (\<lambda>r. case r of
          None \<Rightarrow> tx_ret None
        | Some row \<Rightarrow> tx_bind (observation_from_orm row) (\<lambda>ob. tx_ret (Some ob))))"

definition list_events :: "ident \<Rightarrow> instdb \<Rightarrow> instance_event list" where
  "list_events instance_id db = (case as_uuid instance_id of
      None \<Rightarrow> []
    | Some k \<Rightarrow> sort_key ev_at (filter (\<lambda>e. ev_inst e = k) (nd_events db)))"

end
