(* ===== verification/Evolution.thy ===== *)
theory Evolution
  imports Prelude
begin

text \<open>
  What a sequence of operations may do to a store: every operation keeps the store's invariant and
  only lets it grow along a preorder (rows are not forgotten, counters do not go back, frozen rows
  stay as they are). \<open>evolution\<close> is that contract for one store; the composition rules for units of
  work and service calls are proved once in it.
\<close>

definition tx_grows :: "('s \<Rightarrow> bool) \<Rightarrow> ('s \<Rightarrow> 's \<Rightarrow> bool) \<Rightarrow> ('s, 'a) tx \<Rightarrow> bool" where
  "tx_grows P R m \<longleftrightarrow> (\<forall>s x s'. P s \<longrightarrow> m s = Inr (x, s') \<longrightarrow> P s' \<and> R s s')"

definition svc_grows :: "('s \<Rightarrow> bool) \<Rightarrow> ('s \<Rightarrow> 's \<Rightarrow> bool) \<Rightarrow> ('s, 'a) svc \<Rightarrow> bool" where
  "svc_grows P R m \<longleftrightarrow> (\<forall>s. P s \<longrightarrow> P (snd (m s)) \<and> R s (snd (m s)))"

lemma tx_growsI:
  "(\<And>s x s'. P s \<Longrightarrow> m s = Inr (x, s') \<Longrightarrow> P s' \<and> R s s') \<Longrightarrow> tx_grows P R m"
  by (simp add: tx_grows_def)

lemma tx_growsD: "tx_grows P R m \<Longrightarrow> P s \<Longrightarrow> m s = Inr (x, s') \<Longrightarrow> P s' \<and> R s s'"
  by (simp add: tx_grows_def)

lemma svc_growsI: "(\<And>s. P s \<Longrightarrow> P (snd (m s)) \<and> R s (snd (m s))) \<Longrightarrow> svc_grows P R m"
  by (simp add: svc_grows_def)

lemma svc_growsD: "svc_grows P R m \<Longrightarrow> P s \<Longrightarrow> P (snd (m s)) \<and> R s (snd (m s))"
  by (simp add: svc_grows_def)

text \<open>
  The same with a precondition on the state and a postcondition on result and state, for calls whose
  later blocks rely on what earlier ones established.
\<close>

definition svc_run ::
    "('s \<Rightarrow> bool) \<Rightarrow> ('s \<Rightarrow> 's \<Rightarrow> bool) \<Rightarrow> ('s \<Rightarrow> bool) \<Rightarrow> ('s, 'a) svc \<Rightarrow> ('a \<Rightarrow> 's \<Rightarrow> bool) \<Rightarrow> bool" where
  "svc_run P R pre m post \<longleftrightarrow> (\<forall>s. P s \<longrightarrow> pre s \<longrightarrow>
     P (snd (m s)) \<and> R s (snd (m s)) \<and> (\<forall>x. fst (m s) = Inr x \<longrightarrow> post x (snd (m s))))"

lemma svc_runI:
  "(\<And>s. P s \<Longrightarrow> pre s \<Longrightarrow> P (snd (m s)) \<and> R s (snd (m s))
      \<and> (\<forall>x. fst (m s) = Inr x \<longrightarrow> post x (snd (m s)))) \<Longrightarrow> svc_run P R pre m post"
  by (simp add: svc_run_def)

lemma svc_runD:
  assumes "svc_run P R pre m post" and "P s" and "pre s"
  shows "P (snd (m s))" and "R s (snd (m s))" and "fst (m s) = Inr x \<Longrightarrow> post x (snd (m s))"
  using assms by (auto simp: svc_run_def)

lemma svc_run_weaken:
  "svc_run P R pre m post \<Longrightarrow> (\<And>s. pre' s \<Longrightarrow> pre s) \<Longrightarrow> (\<And>x s. post x s \<Longrightarrow> post' x s)
    \<Longrightarrow> svc_run P R pre' m post'"
  by (auto simp: svc_run_def)

lemma svc_run_frame:
  assumes "svc_run P R pre m post" and "\<And>s t. Q s \<Longrightarrow> P s \<Longrightarrow> P t \<Longrightarrow> R s t \<Longrightarrow> Q t"
  shows "svc_run P R (\<lambda>s. pre s \<and> Q s) m (\<lambda>x s. post x s \<and> Q s)"
  using assms by (auto simp: svc_run_def)

locale evolution =
  fixes inv :: "'s \<Rightarrow> bool"
    and grows :: "'s \<Rightarrow> 's \<Rightarrow> bool"
  assumes grows_refl: "inv s \<Longrightarrow> grows s s"
    and grows_trans: "inv s \<Longrightarrow> inv t \<Longrightarrow> grows s t \<Longrightarrow> grows t u \<Longrightarrow> grows s u"
begin

lemma tx_pure: "(\<And>s x s'. m s = Inr (x, s') \<Longrightarrow> s' = s) \<Longrightarrow> tx_grows inv grows m"
  by (rule tx_growsI) (metis grows_refl)

lemma tx_bind_grows:
  assumes "tx_grows inv grows m" and "\<And>x. tx_grows inv grows (f x)"
  shows "tx_grows inv grows (tx_bind m f)"
proof (rule tx_growsI)
  fix s r u
  assume "inv s" and run: "tx_bind m f s = Inr (r, u)"
  from run obtain x t where m: "m s = Inr (x, t)" and f: "f x t = Inr (r, u)" by (rule tx_bindE)
  from tx_growsD [OF assms(1) \<open>inv s\<close> m] have t: "inv t" "grows s t" by auto
  from tx_growsD [OF assms(2) t(1) f] have u: "inv u" "grows t u" by auto
  show "inv u \<and> grows s u" using u grows_trans [OF \<open>inv s\<close> t(1) t(2) u(2)] by blast
qed

lemma scope_grows: "tx_grows inv grows m \<Longrightarrow> svc_grows inv grows (session_scope m)"
  by (rule svc_growsI)
    (auto simp: session_scope_def grows_refl dest: tx_growsD split: sum.splits prod.splits)

lemma svc_pure: "(\<And>s. snd (m s) = s) \<Longrightarrow> svc_grows inv grows m"
  by (rule svc_growsI) (simp add: grows_refl)

lemma svc_bind_grows:
  assumes "svc_grows inv grows m" and "\<And>x. svc_grows inv grows (f x)"
  shows "svc_grows inv grows (svc_bind m f)"
proof (rule svc_growsI)
  fix s assume s: "inv s"
  obtain out t where m: "m s = (out, t)" by (cases "m s")
  have t: "inv t" "grows s t" using svc_growsD [OF assms(1) s] m by auto
  show "inv (snd (svc_bind m f s)) \<and> grows s (snd (svc_bind m f s))"
  proof (cases out)
    case (Inl e)
    then show ?thesis using m t by (simp add: svc_bind_def)
  next
    case (Inr x)
    have "inv (snd (f x t))" "grows t (snd (f x t))" using svc_growsD [OF assms(2) t(1)] by auto
    then show ?thesis using m Inr grows_trans [OF s t(1) t(2)] by (simp add: svc_bind_def)
  qed
qed

lemma svc_catch_grows:
  assumes "svc_grows inv grows m" and "\<And>e. svc_grows inv grows (h e)"
  shows "svc_grows inv grows (svc_catch m h)"
proof (rule svc_growsI)
  fix s assume s: "inv s"
  obtain out t where m: "m s = (out, t)" by (cases "m s")
  have t: "inv t" "grows s t" using svc_growsD [OF assms(1) s] m by auto
  show "inv (snd (svc_catch m h s)) \<and> grows s (snd (svc_catch m h s))"
  proof (cases out)
    case (Inr x)
    then show ?thesis using m t by (simp add: svc_catch_def)
  next
    case (Inl e)
    have "inv (snd (h e t))" "grows t (snd (h e t))" using svc_growsD [OF assms(2) t(1)] by auto
    then show ?thesis using m Inl grows_trans [OF s t(1) t(2)] by (simp add: svc_catch_def)
  qed
qed

lemma run_ret: "(\<And>s. inv s \<Longrightarrow> pre s \<Longrightarrow> post x s) \<Longrightarrow> svc_run inv grows pre (svc_ret x) post"
  by (rule svc_runI) (simp add: svc_ret_def grows_refl)

lemma run_raise: "svc_run inv grows pre (svc_raise e) post"
  by (rule svc_runI) (simp add: svc_raise_def grows_refl)

lemma run_bind:
  assumes "svc_run inv grows pre m mid" and "\<And>x. svc_run inv grows (mid x) (f x) post"
  shows "svc_run inv grows pre (svc_bind m f) post"
proof (rule svc_runI)
  fix s assume s: "inv s" "pre s"
  obtain out t where m: "m s = (out, t)" by (cases "m s")
  have t: "inv t" "grows s t" using svc_runD(1,2) [OF assms(1) s] m by auto
  show "inv (snd (svc_bind m f s)) \<and> grows s (snd (svc_bind m f s))
      \<and> (\<forall>x. fst (svc_bind m f s) = Inr x \<longrightarrow> post x (snd (svc_bind m f s)))"
  proof (cases out)
    case (Inl e)
    then show ?thesis using m t by (simp add: svc_bind_def)
  next
    case (Inr x)
    have "mid x t" using svc_runD(3) [OF assms(1) s, of x] m Inr by simp
    note f = svc_runD [OF assms(2) t(1) this]
    show ?thesis using f grows_trans [OF s(1) t(1) t(2) f(2)] m Inr by (simp add: svc_bind_def)
  qed
qed

lemma run_catch:
  assumes "svc_run inv grows pre m post" and "\<And>e. svc_run inv grows (\<lambda>_. True) (h e) post"
  shows "svc_run inv grows pre (svc_catch m h) post"
proof (rule svc_runI)
  fix s assume s: "inv s" "pre s"
  obtain out t where m: "m s = (out, t)" by (cases "m s")
  have t: "inv t" "grows s t" using svc_runD(1,2) [OF assms(1) s] m by auto
  show "inv (snd (svc_catch m h s)) \<and> grows s (snd (svc_catch m h s))
      \<and> (\<forall>x. fst (svc_catch m h s) = Inr x \<longrightarrow> post x (snd (svc_catch m h s)))"
  proof (cases out)
    case (Inr x)
    then show ?thesis using m t svc_runD(3) [OF assms(1) s, of x] by (simp add: svc_catch_def)
  next
    case (Inl e)
    note h = svc_runD [OF assms(2) t(1) TrueI]
    show ?thesis using h grows_trans [OF s(1) t(1) t(2) h(2)] m Inl by (simp add: svc_catch_def)
  qed
qed

lemma svc_case_option_grows:
  "svc_grows inv grows a \<Longrightarrow> (\<And>v. svc_grows inv grows (f v))
    \<Longrightarrow> svc_grows inv grows (case x of None \<Rightarrow> a | Some v \<Rightarrow> f v)"
  by (cases x) simp_all

lemma svc_if_grows:
  "svc_grows inv grows a \<Longrightarrow> svc_grows inv grows b \<Longrightarrow> svc_grows inv grows (if c then a else b)"
  by simp

lemma svc_ret_grows: "svc_grows inv grows (svc_ret x)" "svc_grows inv grows (svc_raise e)"
  by (rule svc_pure, simp add: svc_ret_def svc_raise_def)+

lemma tx_ret_grows: "tx_grows inv grows (tx_ret x)" "tx_grows inv grows (tx_raise e)"
    "tx_grows inv grows (tx_get g)" "tx_grows inv grows (tx_some e v)" "tx_grows inv grows (tx_guard b e)"
  by (rule tx_pure, auto simp: tx_simps)+

end

end
