(* ===== verification/Instance_Inv.thy ===== *)
theory Instance_Inv
  imports Instance_Store Evolution
begin

text \<open>
  The invariant of the instance store and what each of its operations does to it: identifiers are
  unique, every row passes the domain checks, every fact refers to an existing instance, and each
  instance's event stream is a legal path from \<open>requested\<close> to its present state. The store also only
  grows: rows are never removed, their identity never changes, generations never go back, an archived
  row is never written again, and the two append-only streams are only extended.
\<close>

section \<open>The invariant\<close>

definition event_path :: "instdb \<Rightarrow> nat \<Rightarrow> (instance_state option \<times> instance_state) list" where
  "event_path db k = rev (map (\<lambda>e. (ev_from e, ev_to e)) (filter (\<lambda>e. ev_inst e = k) (nd_events db)))"

definition inst_ids :: "instdb \<Rightarrow> nat set" where
  "inst_ids db = i_id ` set (nd_rows db)"

definition rows_ok :: "instdb \<Rightarrow> bool" where
  "rows_ok db \<longleftrightarrow> distinct (map i_id (nd_rows db))
     \<and> (\<forall>r \<in> set (nd_rows db). instance_post_init (row_inst r) = Inr ()
          \<and> audited instance_move IRequested (event_path db (i_id r)) (i_state r))"

definition facts_ok :: "instdb \<Rightarrow> bool" where
  "facts_ok db \<longleftrightarrow>
     distinct (map endpoint_key (nd_endpoints db)) \<and> distinct (map resource_key (nd_resources db))
     \<and> distinct (map credential_key (nd_credentials db))
     \<and> (\<forall>e \<in> set (nd_endpoints db). er_inst e \<in> inst_ids db \<and> endpoint_post_init (row_endpoint e) = Inr ())
     \<and> (\<forall>r \<in> set (nd_resources db). rs_inst r \<in> inst_ids db
          \<and> runtime_resource_post_init (row_resource r) = Inr ())
     \<and> (\<forall>c \<in> set (nd_credentials db). cr_inst c \<in> inst_ids db
          \<and> instance_credential_post_init (row_credential c) = Inr ())
     \<and> (\<forall>ob \<in> set (nd_observations db). or_inst ob \<in> inst_ids db
          \<and> health_observation_post_init (row_observation ob) = Inr ())
     \<and> (\<forall>e \<in> set (nd_events db). ev_inst e \<in> inst_ids db \<and> instance_event_post_init e = Inr ())"

definition instdb_ok :: "instdb \<Rightarrow> bool" where
  "instdb_ok db \<longleftrightarrow> rows_ok db \<and> facts_ok db"

lemma instdb_okD:
  assumes "instdb_ok db"
  shows "rows_ok db" "facts_ok db" "distinct (map i_id (nd_rows db))"
    "r \<in> set (nd_rows db) \<Longrightarrow> instance_post_init (row_inst r) = Inr ()"
    "r \<in> set (nd_rows db) \<Longrightarrow> audited instance_move IRequested (event_path db (i_id r)) (i_state r)"
  using assms by (auto simp: instdb_ok_def rows_ok_def)

lemma empty_instdb_ok: "instdb_ok empty_instdb"
  by (simp add: instdb_ok_def rows_ok_def facts_ok_def empty_instdb_def)

text \<open>How a row may change, and how a store may grow.\<close>

definition row_grows :: "inst_row \<Rightarrow> inst_row \<Rightarrow> bool" where
  "row_grows r r' \<longleftrightarrow> i_id r' = i_id r \<and> i_comp r' = i_comp r \<and> i_team r' = i_team r
     \<and> i_version r' = i_version r \<and> i_created r' = i_created r \<and> i_gen r \<le> i_gen r'
     \<and> (i_state r = IArchived \<longrightarrow> r' = r)"

definition inst_grows :: "instdb \<Rightarrow> instdb \<Rightarrow> bool" where
  "inst_grows db db' \<longleftrightarrow>
     (\<forall>r \<in> set (nd_rows db). \<exists>r' \<in> set (nd_rows db'). row_grows r r')
     \<and> (\<exists>es. nd_events db' = nd_events db @ es) \<and> (\<exists>os. nd_observations db' = nd_observations db @ os)"

lemma inst_growsD:
  assumes "inst_grows db db'"
  shows "r \<in> set (nd_rows db) \<Longrightarrow> \<exists>r' \<in> set (nd_rows db'). row_grows r r'"
    "\<exists>es. nd_events db' = nd_events db @ es" "\<exists>os. nd_observations db' = nd_observations db @ os"
  using assms by (simp_all add: inst_grows_def)

lemma inst_growsI:
  "(\<And>r. r \<in> set (nd_rows db) \<Longrightarrow> \<exists>r' \<in> set (nd_rows db'). row_grows r r')
    \<Longrightarrow> nd_events db' = nd_events db @ es \<Longrightarrow> nd_observations db' = nd_observations db @ os
    \<Longrightarrow> inst_grows db db'"
  by (simp add: inst_grows_def)

lemma row_grows_refl [simp]: "row_grows r r"
  by (simp add: row_grows_def)

lemma row_grows_trans: "row_grows a b \<Longrightarrow> row_grows b c \<Longrightarrow> row_grows a c"
  by (auto simp: row_grows_def)

lemma inst_grows_refl: "inst_grows db db"
proof (rule inst_growsI [where es = "[]" and os = "[]"])
  fix r assume "r \<in> set (nd_rows db)"
  then show "\<exists>r' \<in> set (nd_rows db). row_grows r r'" by (rule_tac bexI) (rule row_grows_refl)
qed simp_all

lemma inst_grows_trans:
  assumes "inst_grows a b" and "inst_grows b c"
  shows "inst_grows a c"
proof -
  obtain es os where ab: "nd_events b = nd_events a @ es" "nd_observations b = nd_observations a @ os"
    using inst_growsD(2,3) [OF assms(1)] by metis
  obtain es' os' where bc: "nd_events c = nd_events b @ es'" "nd_observations c = nd_observations b @ os'"
    using inst_growsD(2,3) [OF assms(2)] by metis
  show ?thesis
  proof (rule inst_growsI [where es = "es @ es'" and os = "os @ os'"])
    fix r assume "r \<in> set (nd_rows a)"
    then obtain m where m: "m \<in> set (nd_rows b)" "row_grows r m" using inst_growsD(1) [OF assms(1)] by metis
    obtain r' where "r' \<in> set (nd_rows c)" "row_grows m r'" using inst_growsD(1) [OF assms(2) m(1)] by metis
    with row_grows_trans [OF m(2)] show "\<exists>r' \<in> set (nd_rows c). row_grows r r'" by metis
  qed (simp_all add: ab bc)
qed

interpretation inst_ev: evolution instdb_ok inst_grows
  by unfold_locales (auto intro: inst_grows_refl inst_grows_trans)

text \<open>What growth says of one instance.\<close>

lemma inst_grows_row:
  assumes "inst_grows db db'" and "r \<in> set (nd_rows db)"
  obtains r' where "r' \<in> set (nd_rows db')" and "row_grows r r'"
  using inst_growsD(1) [OF assms] by metis

section \<open>Reading\<close>

lemma inst_to_domain_eq:
  "inst_to_domain r db = (case instance_post_init (row_inst r) of Inl e \<Rightarrow> Inl e | Inr _ \<Rightarrow> Inr (row_inst r, db))"
  by (simp add: inst_to_domain_def tx_raise_def tx_ret_def split: sum.splits)

lemma insts_to_domain_ok:
  "\<forall>r \<in> set rs. instance_post_init (row_inst r) = Inr () \<Longrightarrow> insts_to_domain rs db = Inr (map row_inst rs, db)"
  by (induction rs) (simp_all add: inst_to_domain_eq tx_bind_def tx_ret_def)

lemma endpoints_from_orm_ok:
  "\<forall>r \<in> set rs. endpoint_post_init (row_endpoint r) = Inr () \<Longrightarrow> endpoints_from_orm rs db = Inr (map row_endpoint rs, db)"
  by (induction rs) (simp_all add: tx_bind_def tx_ret_def)

lemma resources_from_orm_ok:
  "\<forall>r \<in> set rs. runtime_resource_post_init (row_resource r) = Inr () \<Longrightarrow> resources_from_orm rs db = Inr (map row_resource rs, db)"
  by (induction rs) (simp_all add: tx_bind_def tx_ret_def)

definition find_inst :: "ident \<Rightarrow> instdb \<Rightarrow> inst_row option" where
  "find_inst i db = (case as_uuid i of None \<Rightarrow> None | Some k \<Rightarrow> find_row i_id k (nd_rows db))"

lemma find_inst_Some:
  "instdb_ok db \<Longrightarrow> find_inst i db = Some r \<longleftrightarrow> r \<in> set (nd_rows db) \<and> as_uuid i = Some (i_id r)"
  by (auto simp: find_inst_def find_row_eq_Some_iff [OF instdb_okD(3)] split: option.splits)

lemma locked_inst_eq:
  "locked_inst i db = (case find_inst i db of None \<Rightarrow> Inl LookupError | Some r \<Rightarrow> Inr (r, db))"
  by (auto simp: locked_inst_def find_inst_def tx_defs split: option.splits)

lemma get_instance_eq:
  assumes "instdb_ok db"
  shows "get_instance i db = Inr (map_option row_inst (find_inst i db), db)"
proof (cases "find_inst i db")
  case None
  then show ?thesis
    by (auto simp: get_instance_def find_inst_def tx_defs split: option.splits)
next
  case (Some r)
  then have "instance_post_init (row_inst r) = Inr ()"
    using find_inst_Some [OF assms] instdb_okD(4) [OF assms] by blast
  with Some show ?thesis
    by (auto simp: get_instance_def find_inst_def tx_defs inst_to_domain_eq split: option.splits)
qed

lemma list_reconcilable_eq:
  assumes "instdb_ok db"
  shows "list_reconcilable limit db = Inr (map row_inst (order_limit i_created limit
       (filter (\<lambda>r. i_state r \<noteq> IArchived) (nd_rows db))), db)"
proof -
  have "\<forall>r \<in> set (order_limit i_created limit (filter (\<lambda>r. i_state r \<noteq> IArchived) (nd_rows db))).
      instance_post_init (row_inst r) = Inr ()"
    using set_order_limit [of i_created limit "filter (\<lambda>r. i_state r \<noteq> IArchived) (nd_rows db)"]
      instdb_okD(4) [OF assms] by auto
  then show ?thesis by (simp add: list_reconcilable_def tx_bind_get insts_to_domain_ok)
qed

definition endpoints_of :: "nat \<Rightarrow> instdb \<Rightarrow> endpoint list" where
  "endpoints_of k db = map row_endpoint (sort_key er_name (filter (\<lambda>e. er_inst e = k) (nd_endpoints db)))"

definition resources_of :: "nat \<Rightarrow> instdb \<Rightarrow> runtime_resource list" where
  "resources_of k db = map row_resource
     (sort_key (\<lambda>r. (rs_kind r, rs_ref r)) (filter (\<lambda>r. rs_inst r = k) (nd_resources db)))"

lemma list_endpoints_eq:
  "instdb_ok db \<Longrightarrow> list_endpoints (Uid k) db = Inr (endpoints_of k db, db)"
  by (simp add: list_endpoints_def tx_bind_def tx_some_def tx_ret_def tx_get_def endpoints_of_def
      endpoints_from_orm_ok instdb_ok_def facts_ok_def)

lemma list_resources_eq:
  "instdb_ok db \<Longrightarrow> list_runtime_resources (Uid k) db = Inr (resources_of k db, db)"
  by (simp add: list_runtime_resources_def tx_bind_def tx_some_def tx_ret_def tx_get_def resources_of_def
      resources_from_orm_ok instdb_ok_def facts_ok_def)

definition latest_of :: "nat \<Rightarrow> instdb \<Rightarrow> health_observation option" where
  "latest_of k db = map_option row_observation
     (first_by (\<lambda>r. (- or_at r, - or_created r)) (filter (\<lambda>r. or_inst r = k) (nd_observations db)))"

lemma latest_observation_eq:
  assumes "instdb_ok db"
  shows "latest_observation (Uid k) db = Inr (latest_of k db, db)"
proof -
  have "health_observation_post_init (row_observation r) = Inr ()"
    if "first_by (\<lambda>r. (- or_at r, - or_created r)) (filter (\<lambda>r. or_inst r = k) (nd_observations db)) = Some r" for r
    using first_by_SomeD [OF that] assms by (auto simp: instdb_ok_def facts_ok_def)
  then show ?thesis
    by (auto simp: latest_observation_def latest_of_def tx_defs observation_from_orm_def split: option.splits)
qed

end
