(* ===== verification/Instance_Steps.thy ===== *)
theory Instance_Steps
  imports Instance_Inv
begin

text \<open>
  What each write of the instance store does, as one expression on a well-formed store: a field
  update, a guarded transition with its event, a creation, and the records of facts. From these
  every operation is shown to keep the invariant and to let the store grow only.
\<close>

section \<open>Replacing one row\<close>

definition with_row :: "inst_row \<Rightarrow> instdb \<Rightarrow> instdb" where
  "with_row new db = db\<lparr>nd_rows := put_row i_id new (nd_rows db)\<rparr>"

definition same_identity :: "inst_row \<Rightarrow> inst_row \<Rightarrow> bool" where
  "same_identity r r' \<longleftrightarrow> i_id r' = i_id r \<and> i_comp r' = i_comp r \<and> i_team r' = i_team r
     \<and> i_version r' = i_version r \<and> i_created r' = i_created r"

lemma inst_guard_iff:
  "instance_transition_guard old new \<longleftrightarrow>
     same_identity old new \<and> i_state old \<noteq> IArchived
     \<and> (i_state new = i_state old \<or> instance_move (i_state old) (i_state new))"
  by (cases "i_state old"; cases "i_state new")
    (simp_all add: instance_transition_guard_def same_identity_def instance_move_def eq_commute
      [of "i_id old"] eq_commute [of "i_comp old"] eq_commute [of "i_team old"]
      eq_commute [of "i_version old"] eq_commute [of "i_created old"])

lemma with_row_simps [simp]:
  "nd_endpoints (with_row new db) = nd_endpoints db" "nd_resources (with_row new db) = nd_resources db"
  "nd_credentials (with_row new db) = nd_credentials db"
  "nd_observations (with_row new db) = nd_observations db" "nd_events (with_row new db) = nd_events db"
  "event_path (with_row new db) k = event_path db k"
  "map i_id (nd_rows (with_row new db)) = map i_id (nd_rows db)"
  by (simp_all add: with_row_def event_path_def)

lemma inst_ids_with_row [simp]: "inst_ids (with_row new db) = inst_ids db"
proof -
  have "set (map i_id (nd_rows (with_row new db))) = set (map i_id (nd_rows db))"
    by (simp only: with_row_simps)
  then show ?thesis by (simp only: inst_ids_def set_map)
qed

lemma rows_with_row:
  assumes "instdb_ok db" and "r \<in> set (nd_rows db)" and "i_id new = i_id r"
  shows "set (nd_rows (with_row new db)) = insert new (set (nd_rows db) - {r})"
proof -
  have inj: "x = r" if "x \<in> set (nd_rows db)" "i_id x = i_id r" for x
    using instdb_okD(3) [OF assms(1)] that assms(2) by (auto simp: distinct_map dest: inj_onD)
  show ?thesis
    using assms(2,3) inj by (auto simp: with_row_def put_row_def image_iff intro!: exI)
qed

lemma with_row_self:
  "instdb_ok db \<Longrightarrow> r \<in> set (nd_rows db) \<Longrightarrow> with_row r db = db"
  by (simp add: with_row_def put_row_same instdb_okD(3))

lemma find_inst_with_row:
  assumes "instdb_ok db" and "r \<in> set (nd_rows db)" and "i_id new = i_id r"
  shows "find_inst i (with_row new db) = (if as_uuid i = Some (i_id r) then Some new else find_inst i db)"
  using assms(2,3) by (auto simp: find_inst_def with_row_def find_row_put_row split: option.splits)

lemma with_row_facts: "facts_ok (with_row new db) \<longleftrightarrow> facts_ok db"
  by (simp add: facts_ok_def)

lemma with_row_ok:
  assumes ok: "instdb_ok db" and r: "r \<in> set (nd_rows db)" and id: "i_id new = i_id r"
    and dom: "instance_post_init (row_inst new) = Inr ()" and st: "i_state new = i_state r"
  shows "instdb_ok (with_row new db)"
  using instdb_okD [OF ok] rows_with_row [OF ok r id] dom st id r
  by (simp add: instdb_ok_def rows_ok_def with_row_facts)

lemma with_row_grows:
  assumes ok: "instdb_ok db" and r: "r \<in> set (nd_rows db)" and g: "row_grows r new"
  shows "inst_grows db (with_row new db)"
proof (rule inst_growsI [where es = "[]" and os = "[]"])
  have id: "i_id new = i_id r" using g by (simp add: row_grows_def)
  fix x assume "x \<in> set (nd_rows db)"
  then show "\<exists>r' \<in> set (nd_rows (with_row new db)). row_grows x r'"
    unfolding rows_with_row [OF ok r id]
    by (cases "x = r") (simp add: g, rule bexI [of _ x], simp_all)
qed simp_all

section \<open>Field updates\<close>

lemma flush_inst_eq:
  assumes ok: "instdb_ok db" and r: "r \<in> set (nd_rows db)" and id: "i_id new = i_id r"
    and gen: "1 \<le> i_gen new"
  shows "flush_inst new db = (if new \<noteq> r \<and> \<not> instance_transition_guard r new then Inl ProgrammingError
      else Inr ((), with_row new db))"
proof -
  have "find_row i_id (i_id new) (nd_rows db) = Some r"
    using r id by (simp add: find_row_eq_Some_iff [OF instdb_okD(3) [OF ok]])
  then show ?thesis using gen with_row_self [OF ok r] by (auto simp: flush_inst_def with_row_def)
qed

definition field_update :: "inst_row \<Rightarrow> inst_row \<Rightarrow> instdb \<Rightarrow> exn + inst \<times> instdb" where
  "field_update r new db =
     (if new \<noteq> r \<and> i_state r = IArchived then Inl ProgrammingError
      else case instance_post_init (row_inst new) of Inl e \<Rightarrow> Inl e | Inr _ \<Rightarrow> Inr (row_inst new, with_row new db))"

lemma field_update_eq:
  assumes "instdb_ok db" and "r \<in> set (nd_rows db)" and "same_identity r new"
    and "1 \<le> i_gen new" and "i_state new = i_state r"
  shows "tx_bind (flush_inst new) (\<lambda>_. inst_to_domain new) db = field_update r new db"
  using flush_inst_eq [OF assms(1,2) _ assms(4)] assms(3,5)
  by (auto simp: tx_bind_def field_update_def inst_guard_iff same_identity_def inst_to_domain_eq)

lemma row_gen_pos: "instdb_ok db \<Longrightarrow> r \<in> set (nd_rows db) \<Longrightarrow> 1 \<le> i_gen r"
  using instdb_okD(4) [of db r] by (auto simp: instance_post_init_def row_inst_def split: if_splits)

lemma field_update_ok:
  assumes "instdb_ok db" and "r \<in> set (nd_rows db)" and "same_identity r new" and "i_gen r \<le> i_gen new"
    and "i_state new = i_state r" and "field_update r new db = Inr (x, db')"
  shows "instdb_ok db' \<and> inst_grows db db'"
proof -
  have new: "new = r \<or> i_state r \<noteq> IArchived" "instance_post_init (row_inst new) = Inr ()" "db' = with_row new db"
    using assms(6) by (auto simp: field_update_def split: if_splits sum.splits)
  have "row_grows r new" using assms(3,4) new(1) by (auto simp: row_grows_def same_identity_def)
  then show ?thesis
    using with_row_ok [OF assms(1,2) _ new(2) assms(5)] with_row_grows [OF assms(1,2)] assms(3)
    by (simp add: new(3) same_identity_def)
qed

text \<open>An operation that locks a row and writes fields of it.\<close>

definition updates_row :: "ident \<Rightarrow> (inst_row \<Rightarrow> inst_row) \<Rightarrow> instdb \<Rightarrow> exn + inst \<times> instdb" where
  "updates_row i f db = (case find_inst i db of None \<Rightarrow> Inl LookupError | Some r \<Rightarrow> field_update r (f r) db)"

definition field_fun :: "(inst_row \<Rightarrow> inst_row) \<Rightarrow> bool" where
  "field_fun f \<longleftrightarrow> (\<forall>r. same_identity r (f r) \<and> i_gen r \<le> i_gen (f r) \<and> i_state (f r) = i_state r)"

lemma updates_row_eq:
  assumes ok: "instdb_ok db" and f: "field_fun f"
  shows "tx_bind (locked_inst i) (\<lambda>r. tx_bind (flush_inst (f r)) (\<lambda>_. inst_to_domain (f r))) db
    = updates_row i f db"
proof (cases "find_inst i db")
  case None
  then show ?thesis by (simp add: tx_bind_def locked_inst_eq updates_row_def)
next
  case (Some r)
  then have r: "r \<in> set (nd_rows db)" using find_inst_Some [OF ok] by blast
  have "same_identity r (f r)" "i_gen r \<le> i_gen (f r)" "i_state (f r) = i_state r"
    using f by (auto simp: field_fun_def)
  with row_gen_pos [OF ok r] field_update_eq [OF ok r, of "f r"] Some show ?thesis
    by (simp add: tx_bind_step [where s' = db and x = r] locked_inst_eq updates_row_def)
qed

lemma updates_row_ok:
  assumes "instdb_ok db" and "field_fun f" and "updates_row i f db = Inr (x, db')"
  shows "instdb_ok db' \<and> inst_grows db db'"
proof -
  obtain r where r: "find_inst i db = Some r" and run: "field_update r (f r) db = Inr (x, db')"
    using assms(3) by (auto simp: updates_row_def split: option.splits)
  have "r \<in> set (nd_rows db)" using find_inst_Some [OF assms(1)] r by blast
  then show ?thesis using field_update_ok [OF assms(1) _ _ _ _ run] assms(2) by (auto simp: field_fun_def)
qed

lemma set_desired_state_eq:
  "instdb_ok db \<Longrightarrow> set_desired_state i d now db = updates_row i (\<lambda>r. r\<lparr>i_desired := d, i_updated := now\<rparr>) db"
  unfolding set_desired_state_def Let_def
  by (rule updates_row_eq) (simp_all add: field_fun_def same_identity_def)

lemma bump_generation_eq:
  "instdb_ok db \<Longrightarrow> bump_generation i now db = updates_row i (\<lambda>r. r\<lparr>i_gen := i_gen r + 1, i_updated := now\<rparr>) db"
  unfolding bump_generation_def Let_def
  by (rule updates_row_eq) (simp_all add: field_fun_def same_identity_def)

lemma set_runtime_facts_eq:
  "instdb_ok db \<Longrightarrow> set_runtime_facts i now img seed expires db = updates_row i (\<lambda>r. r\<lparr>i_image := or_else img (i_image r),
     i_seed := or_else seed (i_seed r), i_expires := or_else expires (i_expires r), i_updated := now\<rparr>) db"
  unfolding set_runtime_facts_def Let_def
  by (rule updates_row_eq) (simp_all add: field_fun_def same_identity_def)

lemma set_assignment_eq:
  assumes ok: "instdb_ok db"
  shows "set_assignment cat i w now db =
    (if find_inst i db = None then Inl LookupError
     else if \<forall>x. w = Some x \<longrightarrow> x \<in> set (cat_workers cat)
     then updates_row i (\<lambda>r. r\<lparr>i_worker := w, i_updated := now\<rparr>) db
     else Inl LookupError)"
proof (cases "\<forall>x. w = Some x \<longrightarrow> x \<in> set (cat_workers cat)")
  case True
  then have w: "worker_uuid_optional cat w s = Inr (w, s)" for s :: instdb by (simp add: resolve_optional_iff)
  have "set_assignment cat i w now db
    = tx_bind (locked_inst i) (\<lambda>r. tx_bind (flush_inst (r\<lparr>i_worker := w, i_updated := now\<rparr>))
        (\<lambda>_. inst_to_domain (r\<lparr>i_worker := w, i_updated := now\<rparr>))) db"
    by (simp add: set_assignment_def Let_def tx_bind_step [OF w] tx_bind_def locked_inst_eq w
        split: option.splits)
  also have "\<dots> = updates_row i (\<lambda>r. r\<lparr>i_worker := w, i_updated := now\<rparr>) db"
    by (rule updates_row_eq [OF ok]) (simp_all add: field_fun_def same_identity_def)
  finally show ?thesis using True by (simp add: updates_row_def)
next
  case False
  then have "worker_uuid_optional cat w s = Inl LookupError" for s :: instdb
    by (auto simp: worker_uuid_optional_def worker_uuid_def tx_defs split: option.splits)
  with False show ?thesis by (auto simp: set_assignment_def tx_bind_def locked_inst_eq split: option.splits)
qed

text \<open>The two fences: compare, then bump, under the row lock.\<close>

lemma fence_missing_eq:
  assumes ok: "instdb_ok db"
  shows "fence_missing_container i g now db = (case find_inst i db of None \<Rightarrow> Inl LookupError
    | Some r \<Rightarrow> if i_gen r \<noteq> g then Inr (None, db)
        else case field_update r (r\<lparr>i_gen := i_gen r + 1, i_updated := now\<rparr>) db of
          Inl e \<Rightarrow> Inl e | Inr (x, db') \<Rightarrow> Inr (Some x, db'))"
proof (cases "find_inst i db")
  case None
  then show ?thesis by (simp add: fence_missing_container_def tx_bind_def locked_inst_eq)
next
  case (Some r)
  let ?new = "r\<lparr>i_gen := i_gen r + 1, i_updated := now\<rparr>"
  have r: "r \<in> set (nd_rows db)" using find_inst_Some [OF ok] Some by blast
  have "tx_bind (flush_inst ?new) (\<lambda>_. inst_to_domain ?new) db = field_update r ?new db"
    by (rule field_update_eq [OF ok r]) (use row_gen_pos [OF ok r] in \<open>simp_all add: same_identity_def\<close>)
  then show ?thesis
    using Some by (auto simp: fence_missing_container_def Let_def tx_bind_def tx_ret_def locked_inst_eq
        split: sum.splits prod.splits)
qed

lemma fence_stale_eq:
  assumes ok: "instdb_ok db"
  shows "fence_stale_worker i w g now db = (case find_inst i db of None \<Rightarrow> Inl LookupError
    | Some r \<Rightarrow> if i_worker r \<noteq> Some w \<or> i_gen r \<noteq> g then Inr (None, db)
        else case field_update r (r\<lparr>i_worker := None, i_gen := i_gen r + 1, i_updated := now\<rparr>) db of
          Inl e \<Rightarrow> Inl e | Inr (x, db') \<Rightarrow> Inr (Some x, db'))"
proof (cases "find_inst i db")
  case None
  then show ?thesis by (simp add: fence_stale_worker_def tx_bind_def locked_inst_eq)
next
  case (Some r)
  let ?new = "r\<lparr>i_worker := None, i_gen := i_gen r + 1, i_updated := now\<rparr>"
  have r: "r \<in> set (nd_rows db)" using find_inst_Some [OF ok] Some by blast
  have "tx_bind (flush_inst ?new) (\<lambda>_. inst_to_domain ?new) db = field_update r ?new db"
    by (rule field_update_eq [OF ok r]) (use row_gen_pos [OF ok r] in \<open>simp_all add: same_identity_def\<close>)
  then show ?thesis
    using Some by (auto simp: fence_stale_worker_def Let_def tx_bind_def tx_ret_def locked_inst_eq
        split: sum.splits prod.splits)
qed

section \<open>Transitions\<close>

definition event_of :: "inst_row \<Rightarrow> instance_state option \<Rightarrow> string \<Rightarrow> event_actor \<Rightarrow> instant \<Rightarrow> instance_event" where
  "event_of r from reason actor now = \<lparr>ev_inst = i_id r, ev_from = from, ev_to = i_state r,
     ev_reason = reason, ev_actor = actor, ev_gen = i_gen r, ev_at = now\<rparr>"

definition moved :: "inst_row \<Rightarrow> instance_state \<Rightarrow> instant \<Rightarrow> inst_row" where
  "moved r t now = r\<lparr>i_state := t, i_updated := now\<rparr>"

definition log_event :: "instance_event \<Rightarrow> instdb \<Rightarrow> instdb" where
  "log_event e db = db\<lparr>nd_events := nd_events db @ [e]\<rparr>"

lemma append_event_eq:
  "i_state r = to \<Longrightarrow> 1 \<le> i_gen r \<Longrightarrow> append_event r from to reason actor now db =
     (if nonempty reason then Inr ((), log_event (event_of r from reason actor now) db) else Inl ValueError)"
  by (auto simp: append_event_def Let_def event_of_def instance_event_post_init_def tx_raise_def
      tx_modify_def log_event_def)

lemma row_inst_moved: "instance_post_init (row_inst (moved r t now)) = instance_post_init (row_inst r)"
  by (simp add: instance_post_init_def row_inst_def moved_def)

lemma transition_eq:
  assumes ok: "instdb_ok db"
  shows "transition_instance i t reason actor now db = (case find_inst i db of None \<Rightarrow> Inl LookupError
    | Some r \<Rightarrow>
        if i_state r = t then Inr (row_inst r, db)
        else if \<not> instance_move (i_state r) t then Inl ProgrammingError
        else if \<not> nonempty reason then Inl ValueError
        else Inr (row_inst (moved r t now),
          log_event (event_of (moved r t now) (Some (i_state r)) reason actor now) (with_row (moved r t now) db)))"
proof (cases "find_inst i db")
  case None
  then show ?thesis by (simp add: transition_instance_def tx_bind_def locked_inst_eq)
next
  case (Some r)
  let ?new = "moved r t now"
  have r: "r \<in> set (nd_rows db)" using find_inst_Some [OF ok] Some by blast
  note dom = instdb_okD(4) [OF ok r] and gen = row_gen_pos [OF ok r]
  show ?thesis
  proof (cases "i_state r = t")
    case True
    then show ?thesis using Some dom by (simp add: transition_instance_def tx_bind_def locked_inst_eq inst_to_domain_eq)
  next
    case False
    have g: "instance_transition_guard r ?new \<longleftrightarrow> instance_move (i_state r) t"
      using False by (cases "i_state r") (auto simp: inst_guard_iff moved_def same_identity_def instance_move_def)
    have fl: "flush_inst ?new db = (if \<not> instance_move (i_state r) t then Inl ProgrammingError
        else Inr ((), with_row ?new db))"
    proof -
      have "i_state ?new \<noteq> i_state r" using False by (simp add: moved_def)
      then have "?new \<noteq> r" by auto
      then show ?thesis using flush_inst_eq [OF ok r, of ?new] gen g by (simp add: moved_def)
    qed
    have ev: "append_event ?new (Some (i_state r)) t reason actor now s =
       (if nonempty reason then Inr ((), log_event (event_of ?new (Some (i_state r)) reason actor now) s)
        else Inl ValueError)" for s
      by (rule append_event_eq) (use gen in \<open>simp_all add: moved_def\<close>)
    have "transition_instance i t reason actor now db =
       tx_bind (flush_inst ?new) (\<lambda>_. tx_bind (append_event ?new (Some (i_state r)) t reason actor now)
         (\<lambda>_. inst_to_domain ?new)) db"
      using Some False
      by (simp add: transition_instance_def Let_def tx_bind_step [where s' = db and x = r] locked_inst_eq
          moved_def)
    also have "\<dots> = (if \<not> instance_move (i_state r) t then Inl ProgrammingError
        else if \<not> nonempty reason then Inl ValueError
        else Inr (row_inst ?new,
          log_event (event_of ?new (Some (i_state r)) reason actor now) (with_row ?new db)))"
      by (simp add: tx_bind_def fl ev inst_to_domain_eq row_inst_moved dom)
    finally show ?thesis using Some False by simp
  qed
qed

lemma log_event_simps [simp]:
  "nd_rows (log_event e db) = nd_rows db" "nd_endpoints (log_event e db) = nd_endpoints db"
  "nd_resources (log_event e db) = nd_resources db" "nd_credentials (log_event e db) = nd_credentials db"
  "nd_observations (log_event e db) = nd_observations db" "inst_ids (log_event e db) = inst_ids db"
  "nd_events (log_event e db) = nd_events db @ [e]"
  "find_inst i (log_event e db) = find_inst i db"
  by (simp_all add: log_event_def inst_ids_def find_inst_def split: option.splits)

lemma event_path_log [simp]:
  "event_path (log_event e db) k = (if ev_inst e = k then (ev_from e, ev_to e) # event_path db k else event_path db k)"
  by (simp add: event_path_def)

lemma transition_ok:
  assumes ok: "instdb_ok db" and r: "r \<in> set (nd_rows db)" and mv: "instance_move (i_state r) t"
    and reason: "nonempty reason"
  shows "instdb_ok (log_event (event_of (moved r t now) (Some (i_state r)) reason actor now) (with_row (moved r t now) db))
    \<and> inst_grows db (log_event (event_of (moved r t now) (Some (i_state r)) reason actor now) (with_row (moved r t now) db))"
    (is "instdb_ok ?db \<and> inst_grows db ?db")
proof
  let ?new = "moved r t now" and ?ev = "event_of (moved r t now) (Some (i_state r)) reason actor now"
  note id = rows_with_row [OF ok r, of ?new]
  have rows: "set (nd_rows ?db) = insert ?new (set (nd_rows db) - {r})" using id by (simp add: moved_def)
  have path: "event_path ?db (i_id x) = event_path db (i_id x)" if "x \<in> set (nd_rows db) - {r}" for x
    using instdb_okD(3) [OF ok] r that by (auto simp: event_of_def moved_def distinct_map dest: inj_onD)
  have new_path: "audited instance_move IRequested (event_path ?db (i_id ?new)) (i_state ?new)"
    using instance_lc.audited_extend [OF instdb_okD(5) [OF ok r] mv] by (simp add: event_of_def moved_def)
  have "rows_ok ?db"
    unfolding rows_ok_def rows
    using instdb_okD(3,4,5) [OF ok] new_path path r row_inst_moved [of r t now] by simp
  moreover have "facts_ok ?db"
  proof -
    have "facts_ok (with_row ?new db)" using ok by (simp add: with_row_facts instdb_ok_def)
    moreover have "ev_inst ?ev \<in> inst_ids db" using r by (simp add: event_of_def moved_def inst_ids_def)
    moreover have "instance_event_post_init ?ev = Inr ()"
      using reason row_gen_pos [OF ok r] by (simp add: instance_event_post_init_def event_of_def moved_def)
    ultimately show ?thesis by (auto simp: facts_ok_def)
  qed
  ultimately show "instdb_ok ?db" by (simp add: instdb_ok_def)
  have live: "i_state r \<noteq> IArchived" using mv by (auto simp: instance_move_def)
  have "inst_grows db (with_row ?new db)"
    by (rule with_row_grows [OF ok r]) (use live in \<open>simp add: row_grows_def moved_def\<close>)
  moreover have "inst_grows (with_row ?new db) ?db"
    by (rule inst_growsI [where es = "[?ev]" and os = "[]"]) (auto intro: rev_bexI row_grows_refl)
  ultimately show "inst_grows db ?db" by (rule inst_grows_trans)
qed

section \<open>Creation and recorded facts\<close>

text \<open>A resolver followed by the rest: go on with the key, or raise.\<close>

lemma resolve_bind:
  "tx_bind (competition_uuid cat c) f s = (if c \<in> set (cat_competitions cat) then f c s else Inl LookupError)"
  "tx_bind (team_uuid cat c t) f s = (if (c, t) \<in> set (cat_teams cat) then f t s else Inl LookupError)"
  "tx_bind (version_uuid cat d n) g s = (if (d, n) \<in> set (cat_versions cat) then g (d, n) s else Inl LookupError)"
  "tx_bind (worker_uuid cat w) f s = (if w \<in> set (cat_workers cat) then f w s else Inl LookupError)"
  "tx_bind (worker_uuid_optional cat wo) h s =
     (if \<forall>w. wo = Some w \<longrightarrow> w \<in> set (cat_workers cat) then h wo s else Inl LookupError)"
  by (auto simp: competition_uuid_def team_uuid_def version_uuid_def worker_uuid_def
      worker_uuid_optional_def tx_defs split: option.splits)

lemma add_instance_eq:
  assumes dom: "instance_post_init x = Inr ()"
  shows "add_instance cat created x now db =
    (if in_comp x \<notin> set (cat_competitions cat) \<or> (in_comp x, in_team x) \<notin> set (cat_teams cat)
        \<or> (in_defn x, in_ver x) \<notin> set (cat_versions cat)
        \<or> \<not> (\<forall>w. in_worker x = Some w \<longrightarrow> w \<in> set (cat_workers cat)) then Inl LookupError
     else case instance_to_orm x (in_comp x) (in_team x) (in_defn x, in_ver x) (in_worker x) created of
        Inl e \<Rightarrow> Inl e
      | Inr row \<Rightarrow>
          if i_id row \<in> inst_ids db then Inl (IntegrityError ''pk_instances'')
          else Inr (row_inst row, log_event (event_of row None ''created'' BySystem now)
            (db\<lparr>nd_rows := nd_rows db @ [row]\<rparr>)))"
proof -
  have gen: "1 \<le> in_gen x" using dom by (simp add: instance_post_init_def split: if_splits)
  have row: "i_gen row = in_gen x \<and> i_state row = in_state x \<and> instance_post_init (row_inst row) = Inr ()"
    if "instance_to_orm x (in_comp x) (in_team x) (in_defn x, in_ver x) (in_worker x) created = Inr row" for row
    using that dom
    by (auto simp: instance_to_orm_def instance_post_init_def row_inst_def split: option.splits if_splits)
  have tail: "tx_bind (insert_inst row) (\<lambda>_. tx_bind (append_event row None (in_state x) ''created'' BySystem now)
        (\<lambda>_. inst_to_domain row)) s = (if i_id row \<in> inst_ids s then Inl (IntegrityError ''pk_instances'')
          else Inr (row_inst row, log_event (event_of row None ''created'' BySystem now)
            (s\<lparr>nd_rows := nd_rows s @ [row]\<rparr>)))"
    if "instance_to_orm x (in_comp x) (in_team x) (in_defn x, in_ver x) (in_worker x) created = Inr row" for row s
  proof -
    have "nonempty ''created''" by code_simp
    then show ?thesis
      using row [OF that] gen
      by (simp add: tx_bind_def insert_inst_def append_event_eq inst_to_domain_eq inst_ids_def)
  qed
  show ?thesis
  proof (cases "instance_to_orm x (in_comp x) (in_team x) (in_defn x, in_ver x) (in_worker x) created")
    case (Inl e)
    then show ?thesis by (auto simp: add_instance_def resolve_bind tx_raise_def)
  next
    case (Inr row)
    then show ?thesis by (simp add: add_instance_def resolve_bind tail [OF Inr])
  qed
qed

lemma add_instance_ok:
  assumes ok: "instdb_ok db" and dom: "instance_post_init x = Inr ()" and st: "in_state x = IRequested"
    and run: "add_instance cat created x now db = Inr (y, db')"
  shows "instdb_ok db' \<and> inst_grows db db'"
proof -
  obtain row where orm: "instance_to_orm x (in_comp x) (in_team x) (in_defn x, in_ver x) (in_worker x) created = Inr row"
    and fresh: "i_id row \<notin> inst_ids db"
    and db': "db' = log_event (event_of row None ''created'' BySystem now) (db\<lparr>nd_rows := nd_rows db @ [row]\<rparr>)"
    using run by (auto simp: add_instance_eq [OF dom] split: if_splits sum.splits)
  have row: "i_state row = IRequested" "instance_post_init (row_inst row) = Inr ()"
    using orm dom st
    by (auto simp: instance_to_orm_def instance_post_init_def row_inst_def split: option.splits if_splits)
  have none: "event_path db (i_id row) = []"
    using ok fresh by (auto simp: event_path_def instdb_ok_def facts_ok_def filter_empty_conv)
  have path: "event_path db' k = (if k = i_id row then [(None, IRequested)] else event_path db k)" for k
    using none row(1) by (simp add: db' event_of_def) (simp add: event_path_def)
  have gen: "1 \<le> i_gen row" using row(2) by (simp add: instance_post_init_def row_inst_def split: if_splits)
  have rows: "nd_rows db' = nd_rows db @ [row]" by (simp add: db')
  have "audited instance_move IRequested (event_path db' (i_id r)) (i_state r)"
    if "r \<in> set (nd_rows db)" for r
  proof -
    have "i_id r \<noteq> i_id row" using not_in_keys [OF fresh [unfolded inst_ids_def]] that by blast
    then show ?thesis using instdb_okD(5) [OF ok that] by (simp add: path)
  qed
  moreover have "audited instance_move IRequested (event_path db' (i_id row)) (i_state row)"
    by (simp add: path row(1))
  ultimately have "rows_ok db'"
    unfolding rows_ok_def rows
    using instdb_okD(3,4) [OF ok] row(2) fresh by (auto simp: inst_ids_def)
  moreover have "facts_ok db'"
  proof -
    have ids: "inst_ids db' = insert (i_id row) (inst_ids db)" by (simp add: db' inst_ids_def)
    have "nonempty ''created''" by code_simp
    then have "instance_event_post_init (event_of row None ''created'' BySystem now) = Inr ()"
      using gen by (simp add: instance_event_post_init_def event_of_def)
    then show ?thesis
      using ok unfolding instdb_ok_def facts_ok_def ids by (auto simp: db' event_of_def)
  qed
  moreover have "inst_grows db db'"
    by (rule inst_growsI [where es = "[event_of row None ''created'' BySystem now]" and os = "[]"])
      (auto simp: db' intro: rev_bexI row_grows_refl)
  ultimately show ?thesis by (simp add: instdb_ok_def)
qed

text \<open>Writes to the tables of facts: the instance rows and the append-only streams stay.\<close>

lemma facts_grow:
  assumes "nd_rows db' = nd_rows db" and "nd_events db' = nd_events db"
    and "nd_observations db' = nd_observations db @ os"
  shows "inst_grows db db'"
  by (rule inst_growsI [where es = "[]" and os = os]) (use assms in \<open>auto intro: rev_bexI row_grows_refl\<close>)

lemma facts_rows_ok:
  assumes "nd_rows db' = nd_rows db" and "nd_events db' = nd_events db" and "rows_ok db"
  shows "rows_ok db'"
  using assms by (simp add: rows_ok_def event_path_def)

text \<open>Appending to or replacing in a keyed table of facts.\<close>

lemma distinct_snoc_key:
  "find_row key (key new) xs = None \<Longrightarrow> distinct (map key xs) \<Longrightarrow> distinct (map key (xs @ [new]))"
  by (auto simp: find_row_None_iff)

lemma record_endpoint_grows:
  assumes "endpoint_post_init e = Inr ()"
  shows "tx_grows instdb_ok inst_grows (record_endpoint created e)"
proof (rule tx_growsI)
  fix db x db'
  assume ok: "instdb_ok db" and run: "record_endpoint created e db = Inr (x, db')"
  obtain k where k: "ep_inst e = Uid k"
    using run by (cases "ep_inst e") (auto simp: record_endpoint_def find_endpoint_def tx_simps)
  define old where "old = find_row endpoint_key (k, ep_name e) (nd_endpoints db)"
  define row where "row = endpoint_to_orm k e (case old of None \<Rightarrow> created | Some o' \<Rightarrow> er_created o')"
  have row: "endpoint_key row = (k, ep_name e)" "er_inst row = k" "row_endpoint row = e"
    using k by (simp_all add: row_def endpoint_to_orm_def endpoint_key_def row_endpoint_def)
  have "record_endpoint created e db = write_endpoint (old = None) row db"
    by (simp add: record_endpoint_def find_endpoint_def k tx_bind_def tx_some_def tx_ret_def tx_get_def
        old_def [symmetric] row_def split: option.splits)
  then have w: "write_endpoint (old = None) row db = Inr (x, db')" using run by simp
  then have k_in: "k \<in> inst_ids db"
    by (auto simp: write_endpoint_def row(2) inst_ids_def split: option.splits if_splits)
  have db': "db' = db\<lparr>nd_endpoints := (if old = None then nd_endpoints db @ [row]
      else put_row endpoint_key row (nd_endpoints db))\<rparr>"
    using w by (auto simp: write_endpoint_def split: option.splits if_splits)
  have dist: "distinct (map endpoint_key (nd_endpoints db'))"
    using ok distinct_snoc_key [of endpoint_key row "nd_endpoints db"]
    by (auto simp: db' instdb_ok_def facts_ok_def old_def row(1) simp del: map_append)
  have all: "er_inst y \<in> inst_ids db \<and> endpoint_post_init (row_endpoint y) = Inr ()"
    if "y \<in> set (nd_endpoints db')" for y
    using that ok k_in assms row set_put_rowD [of y endpoint_key row "nd_endpoints db"]
    by (auto simp: db' instdb_ok_def facts_ok_def split: if_splits)
  have "facts_ok db'"
    using ok dist all unfolding facts_ok_def instdb_ok_def by (simp add: db' inst_ids_def)
  moreover have "rows_ok db'" by (rule facts_rows_ok [of db' db]) (use ok in \<open>simp_all add: db' instdb_ok_def\<close>)
  moreover have "inst_grows db db'" by (rule facts_grow [where os = "[]"]) (simp_all add: db')
  ultimately show "instdb_ok db' \<and> inst_grows db db'" by (simp add: instdb_ok_def)
qed

definition without_endpoint :: "nat \<Rightarrow> string \<Rightarrow> instdb \<Rightarrow> instdb" where
  "without_endpoint k name db =
     db\<lparr>nd_endpoints := filter (\<lambda>e. endpoint_key e \<noteq> (k, name)) (nd_endpoints db)\<rparr>"

lemma delete_endpoint_eq:
  "delete_endpoint (Uid k) name db =
     Inr ((k, name) \<in> endpoint_key ` set (nd_endpoints db), without_endpoint k name db)"
proof (cases "find_row endpoint_key (k, name) (nd_endpoints db)")
  case None
  then have "filter (\<lambda>e. endpoint_key e \<noteq> (k, name)) (nd_endpoints db) = nd_endpoints db"
    by (simp add: find_row_None_iff filter_id_conv)
  moreover have "(k, name) \<notin> endpoint_key ` set (nd_endpoints db)"
    using None by (auto simp: find_row_None_iff)
  ultimately show ?thesis
    using None by (simp add: delete_endpoint_def find_endpoint_def tx_defs without_endpoint_def)
next
  case (Some row)
  from find_row_SomeD [OF this] have row: "row \<in> set (nd_endpoints db)" "endpoint_key row = (k, name)" by auto
  have "(k, name) \<in> endpoint_key ` set (nd_endpoints db)" by (rule rev_image_eqI [OF row(1)]) (simp add: row(2))
  with Some row show ?thesis
    by (simp add: delete_endpoint_def find_endpoint_def tx_defs without_endpoint_def)
qed

lemma without_endpoint_ok:
  assumes "instdb_ok db"
  shows "instdb_ok (without_endpoint k name db) \<and> inst_grows db (without_endpoint k name db)"
proof -
  let ?db = "without_endpoint k name db"
  have "facts_ok ?db"
    using assms by (auto simp: instdb_ok_def facts_ok_def without_endpoint_def inst_ids_def distinct_map_filter)
  moreover have "rows_ok ?db"
    by (rule facts_rows_ok [of _ db]) (use assms in \<open>simp_all add: without_endpoint_def instdb_ok_def\<close>)
  moreover have "inst_grows db ?db" by (rule facts_grow [where os = "[]"]) (simp_all add: without_endpoint_def)
  ultimately show ?thesis by (simp add: instdb_ok_def)
qed

lemma delete_endpoint_grows: "tx_grows instdb_ok inst_grows (delete_endpoint i name)"
proof (rule tx_growsI)
  fix db x db'
  assume ok: "instdb_ok db" and run: "delete_endpoint i name db = Inr (x, db')"
  then obtain k where "i = Uid k" by (cases i) (auto simp: delete_endpoint_def find_endpoint_def tx_simps)
  then have "db' = without_endpoint k name db" using run by (simp add: delete_endpoint_eq)
  then show "instdb_ok db' \<and> inst_grows db db'" using without_endpoint_ok [OF ok] by simp
qed

definition put_resource :: "resource_row \<Rightarrow> instdb \<Rightarrow> instdb" where
  "put_resource r db = db\<lparr>nd_resources := (if resource_key r \<in> resource_key ` set (nd_resources db)
     then put_row resource_key r (nd_resources db) else nd_resources db @ [r])\<rparr>"

lemma put_resource_ok:
  assumes ok: "instdb_ok db" and r: "rs_inst r \<in> inst_ids db" "runtime_resource_post_init (row_resource r) = Inr ()"
  shows "instdb_ok (put_resource r db) \<and> inst_grows db (put_resource r db)"
proof -
  let ?db = "put_resource r db"
  have dist: "distinct (map resource_key (nd_resources ?db))"
    using ok by (auto simp: put_resource_def instdb_ok_def facts_ok_def)
  have all: "rs_inst y \<in> inst_ids db \<and> runtime_resource_post_init (row_resource y) = Inr ()"
    if "y \<in> set (nd_resources ?db)" for y
    using that ok r set_put_rowD [of y resource_key r "nd_resources db"]
    by (auto simp: put_resource_def instdb_ok_def facts_ok_def split: if_splits)
  have "facts_ok ?db"
    using ok dist all unfolding facts_ok_def instdb_ok_def by (simp add: put_resource_def inst_ids_def)
  moreover have "rows_ok ?db"
    by (rule facts_rows_ok [of _ db]) (use ok in \<open>simp_all add: put_resource_def instdb_ok_def\<close>)
  moreover have "inst_grows db ?db" by (rule facts_grow [where os = "[]"]) (simp_all add: put_resource_def)
  ultimately show ?thesis by (simp add: instdb_ok_def)
qed

lemma record_resource_grows:
  assumes "runtime_resource_post_init res = Inr ()"
  shows "tx_grows instdb_ok inst_grows (record_runtime_resource cat created res)"
proof (rule tx_growsI)
  fix db x db'
  assume ok: "instdb_ok db" and run: "record_runtime_resource cat created res db = Inr (x, db')"
  obtain k where k: "rr_inst res = Uid k"
    using run
    by (cases "rr_inst res") (auto simp: record_runtime_resource_def find_resource_def tx_simps)
  define old where "old = find_row resource_key (k, rr_kind res, rr_ref res) (nd_resources db)"
  define row where "row = (case old of
      None \<Rightarrow> \<lparr>rs_inst = k, rs_kind = rr_kind res, rs_ref = rr_ref res, rs_worker = rr_worker res,
        rs_gen = rr_gen res, rs_state = rr_state res, rs_created = created, rs_updated = created\<rparr>
    | Some o' \<Rightarrow> o'\<lparr>rs_worker := rr_worker res, rs_gen := rr_gen res, rs_state := rr_state res\<rparr>)"
  have old: "resource_key y = (k, rr_kind res, rr_ref res)" if "old = Some y" for y
    using that find_row_SomeD unfolding old_def by fastforce
  have row: "resource_key row = (k, rr_kind res, rr_ref res)" "rs_inst row = k" "row_resource row = res"
  proof -
    have "resource_key row = (k, rr_kind res, rr_ref res) \<and> rs_worker row = rr_worker res
        \<and> rs_gen row = rr_gen res \<and> rs_state row = rr_state res"
    proof (cases old)
      case None
      then show ?thesis by (simp add: row_def resource_key_def)
    next
      case (Some y)
      with old [OF Some] show ?thesis by (simp add: row_def resource_key_def)
    qed
    then show "resource_key row = (k, rr_kind res, rr_ref res)" "rs_inst row = k" "row_resource row = res"
      using k by (simp_all add: resource_key_def row_resource_def)
  qed
  have w: "write_resource (old = None) row db = Inr (x, db')"
  proof -
    have "record_runtime_resource cat created res db =
      (if rr_worker res \<in> set (cat_workers cat) then write_resource (old = None) row db else Inl LookupError)"
      unfolding record_runtime_resource_def resolve_bind
      by (cases old) (simp_all add: find_resource_def k tx_bind_def tx_some_def tx_ret_def tx_get_def
          old_def [symmetric] row_def)
    then show ?thesis using run by (simp split: if_splits)
  qed
  have "old = None \<longleftrightarrow> resource_key row \<notin> resource_key ` set (nd_resources db)"
    by (simp add: old_def find_row_None_key row(1))
  then have "db' = put_resource row db" "rs_inst row \<in> inst_ids db"
    using w by (auto simp: write_resource_def put_resource_def inst_ids_def split: if_splits)
  then show "instdb_ok db' \<and> inst_grows db db'" using put_resource_ok [OF ok] row assms by simp
qed

lemma set_resource_state_eq:
  assumes ok: "instdb_ok db"
  shows "set_resource_state (Uid k) kind ref st now db =
    (case find_row resource_key (k, kind, ref) (nd_resources db) of
       None \<Rightarrow> Inr (False, db)
     | Some row \<Rightarrow> Inr (True, put_resource (row\<lparr>rs_state := st, rs_updated := now\<rparr>) db))"
proof (cases "find_row resource_key (k, kind, ref) (nd_resources db)")
  case None
  then show ?thesis by (simp add: set_resource_state_def find_resource_def tx_defs)
next
  case (Some row)
  from find_row_SomeD [OF this] have row: "row \<in> set (nd_resources db)" "resource_key row = (k, kind, ref)" by auto
  then have "rs_inst row \<in> inst_ids db" "1 \<le> rs_gen row"
    using ok by (auto simp: instdb_ok_def facts_ok_def runtime_resource_post_init_def row_resource_def
        split: if_splits)
  moreover have "resource_key (row\<lparr>rs_state := st, rs_updated := now\<rparr>) = resource_key row"
    by (simp add: resource_key_def)
  ultimately show ?thesis
    using Some row
    by (auto simp: set_resource_state_def find_resource_def tx_defs write_resource_def inst_ids_def
        put_resource_def image_iff intro: bexI [of _ row])
qed

lemma set_resource_state_grows: "tx_grows instdb_ok inst_grows (set_resource_state i kind ref st now)"
proof (rule tx_growsI)
  fix db x db'
  assume ok: "instdb_ok db" and run: "set_resource_state i kind ref st now db = Inr (x, db')"
  then obtain k where k: "i = Uid k" by (cases i) (auto simp: set_resource_state_def find_resource_def tx_simps)
  show "instdb_ok db' \<and> inst_grows db db'"
  proof (cases "find_row resource_key (k, kind, ref) (nd_resources db)")
    case None
    then show ?thesis using run ok by (simp add: k set_resource_state_eq [OF ok] inst_grows_refl)
  next
    case (Some row)
    from find_row_SomeD [OF this] have row: "row \<in> set (nd_resources db)" by auto
    have "runtime_resource_post_init (row_resource (row\<lparr>rs_state := st, rs_updated := now\<rparr>))
        = runtime_resource_post_init (row_resource row)"
      by (simp add: runtime_resource_post_init_def row_resource_def)
    then have "instdb_ok (put_resource (row\<lparr>rs_state := st, rs_updated := now\<rparr>) db)
      \<and> inst_grows db (put_resource (row\<lparr>rs_state := st, rs_updated := now\<rparr>) db)"
      using ok row by (intro put_resource_ok) (auto simp: instdb_ok_def facts_ok_def)
    then show ?thesis using run Some by (simp add: k set_resource_state_eq [OF ok])
  qed
qed

lemma credential_writes_grow:
  assumes "instance_credential_post_init c = Inr ()"
  shows "tx_grows instdb_ok inst_grows (record_credential c)"
proof (rule tx_growsI)
  fix db x db'
  assume ok: "instdb_ok db" and run: "record_credential c db = Inr (x, db')"
  obtain k where k: "cd_inst c = Uid k"
    using run by (cases "cd_inst c") (auto simp: record_credential_def tx_simps)
  let ?row = "credential_to_orm k c"
  have row: "credential_key ?row = (k, cd_name c)" "cr_inst ?row = k" "row_credential ?row = c"
    using k by (simp_all add: credential_to_orm_def credential_key_def row_credential_def)
  define cs where "cs = (case find_row credential_key (k, cd_name c) (nd_credentials db) of
      None \<Rightarrow> nd_credentials db @ [?row] | Some old \<Rightarrow> put_row credential_key ?row (nd_credentials db))"
  have k_in: "k \<in> inst_ids db" and db': "db' = db\<lparr>nd_credentials := cs\<rparr>"
    using run by (auto simp: record_credential_def k tx_bind_def tx_some_def tx_ret_def inst_ids_def cs_def
        split: if_splits)
  have dist: "distinct (map credential_key cs)"
    using ok distinct_snoc_key [of credential_key ?row "nd_credentials db"] row(1)
    by (auto simp: cs_def instdb_ok_def facts_ok_def simp del: map_append split: option.splits)
  have all: "cr_inst y \<in> inst_ids db \<and> instance_credential_post_init (row_credential y) = Inr ()"
    if "y \<in> set cs" for y
    using that ok k_in assms row set_put_rowD [of y credential_key ?row "nd_credentials db"]
    by (auto simp: cs_def instdb_ok_def facts_ok_def split: option.splits)
  have "facts_ok db'"
    using ok dist all unfolding facts_ok_def instdb_ok_def by (simp add: db' inst_ids_def)
  moreover have "rows_ok db'" by (rule facts_rows_ok [of db' db]) (use ok in \<open>simp_all add: db' instdb_ok_def\<close>)
  moreover have "inst_grows db db'" by (rule facts_grow [where os = "[]"]) (simp_all add: db')
  ultimately show "instdb_ok db' \<and> inst_grows db db'" by (simp add: instdb_ok_def)
qed

lemma append_observation_grows:
  assumes "health_observation_post_init ob = Inr ()"
  shows "tx_grows instdb_ok inst_grows (append_observation cat oid created ob)"
proof (rule tx_growsI)
  fix db x db'
  assume ok: "instdb_ok db" and run: "append_observation cat oid created ob db = Inr (x, db')"
  obtain k where k: "ho_inst ob = Uid k"
    using run by (cases "ho_inst ob") (auto simp: append_observation_def tx_simps)
  define row where "row = \<lparr>or_id = oid, or_inst = k, or_state = ho_state ob, or_healthy = ho_healthy ob,
     or_worker = ho_worker ob, or_gen = ho_gen ob, or_at = ho_at ob, or_detail = ho_detail ob,
     or_created = created\<rparr>"
  have k_in: "k \<in> inst_ids db" and db': "db' = db\<lparr>nd_observations := nd_observations db @ [row]\<rparr>"
    using run unfolding append_observation_def resolve_bind
    by (auto simp: k tx_bind_def tx_some_def tx_ret_def Let_def inst_ids_def row_def
        observation_from_orm_def tx_raise_def split: if_splits sum.splits)
  have row: "or_inst row = k" "health_observation_post_init (row_observation row) = Inr ()"
    using assms by (simp_all add: row_def row_observation_def health_observation_post_init_def split: if_splits)
  have "facts_ok db'"
    using ok k_in row unfolding facts_ok_def instdb_ok_def by (simp add: db' inst_ids_def)
  moreover have "rows_ok db'" by (rule facts_rows_ok [of db' db]) (use ok in \<open>simp_all add: db' instdb_ok_def\<close>)
  moreover have "inst_grows db db'" by (rule facts_grow [where os = "[row]"]) (simp_all add: db')
  ultimately show "instdb_ok db' \<and> inst_grows db db'" by (simp add: instdb_ok_def)
qed

section \<open>Every operation only grows the store\<close>

lemma field_ops_grow:
  "tx_grows instdb_ok inst_grows (set_desired_state i d now)"
  "tx_grows instdb_ok inst_grows (bump_generation i now)"
  "tx_grows instdb_ok inst_grows (set_runtime_facts i now img seed expires)"
  "tx_grows instdb_ok inst_grows (set_assignment cat i w now)"
proof -
  note up = updates_row_ok
  show "tx_grows instdb_ok inst_grows (set_desired_state i d now)"
    by (rule tx_growsI, rule up [where f = "\<lambda>r. r\<lparr>i_desired := d, i_updated := now\<rparr>"])
      (simp_all add: set_desired_state_eq field_fun_def same_identity_def)
  show "tx_grows instdb_ok inst_grows (bump_generation i now)"
    by (rule tx_growsI, rule up [where f = "\<lambda>r. r\<lparr>i_gen := i_gen r + 1, i_updated := now\<rparr>"])
      (simp_all add: bump_generation_eq field_fun_def same_identity_def)
  show "tx_grows instdb_ok inst_grows (set_runtime_facts i now img seed expires)"
    by (rule tx_growsI, rule up [where f = "\<lambda>r. r\<lparr>i_image := or_else img (i_image r),
          i_seed := or_else seed (i_seed r), i_expires := or_else expires (i_expires r), i_updated := now\<rparr>"])
      (simp_all add: set_runtime_facts_eq field_fun_def same_identity_def)
  show "tx_grows instdb_ok inst_grows (set_assignment cat i w now)"
    by (rule tx_growsI, rule up [where f = "\<lambda>r. r\<lparr>i_worker := w, i_updated := now\<rparr>"])
      (simp_all add: set_assignment_eq field_fun_def same_identity_def split: if_splits)
qed

lemma fences_grow:
  "tx_grows instdb_ok inst_grows (fence_missing_container i g now)"
  "tx_grows instdb_ok inst_grows (fence_stale_worker i w g now)"
proof -
  note fin = find_inst_Some [THEN iffD1]
  show "tx_grows instdb_ok inst_grows (fence_missing_container i g now)"
  proof (rule tx_growsI)
    fix db x db'
    assume ok: "instdb_ok db" and run: "fence_missing_container i g now db = Inr (x, db')"
    obtain r where r: "find_inst i db = Some r"
      using run by (auto simp: fence_missing_eq [OF ok] split: option.splits)
    then have "db' = db \<or> (\<exists>y. field_update r (r\<lparr>i_gen := i_gen r + 1, i_updated := now\<rparr>) db = Inr (y, db'))"
      using run by (auto simp: fence_missing_eq [OF ok] split: if_splits sum.splits)
    then show "instdb_ok db' \<and> inst_grows db db'"
      using ok inst_grows_refl fin [OF ok r]
      by (elim disjE exE) (simp, rule field_update_ok, auto simp: same_identity_def)
  qed
  show "tx_grows instdb_ok inst_grows (fence_stale_worker i w g now)"
  proof (rule tx_growsI)
    fix db x db'
    assume ok: "instdb_ok db" and run: "fence_stale_worker i w g now db = Inr (x, db')"
    obtain r where r: "find_inst i db = Some r"
      using run by (auto simp: fence_stale_eq [OF ok] split: option.splits)
    then have "db' = db \<or> (\<exists>y. field_update r (r\<lparr>i_worker := None, i_gen := i_gen r + 1, i_updated := now\<rparr>) db
        = Inr (y, db'))"
      using run by (auto simp: fence_stale_eq [OF ok] split: if_splits sum.splits)
    then show "instdb_ok db' \<and> inst_grows db db'"
      using ok inst_grows_refl fin [OF ok r]
      by (elim disjE exE) (simp, rule field_update_ok, auto simp: same_identity_def)
  qed
qed

lemma transition_grows: "tx_grows instdb_ok inst_grows (transition_instance i t reason actor now)"
proof (rule tx_growsI)
  fix db x db'
  assume ok: "instdb_ok db" and run: "transition_instance i t reason actor now db = Inr (x, db')"
  obtain r where r: "find_inst i db = Some r"
    using run by (auto simp: transition_eq [OF ok] split: option.splits)
  have row: "r \<in> set (nd_rows db)" using find_inst_Some [OF ok] r by blast
  show "instdb_ok db' \<and> inst_grows db db'"
  proof (cases "i_state r = t")
    case True
    then show ?thesis using run r ok inst_grows_refl by (simp add: transition_eq [OF ok])
  next
    case False
    then have "instance_move (i_state r) t" "nonempty reason"
      "db' = log_event (event_of (moved r t now) (Some (i_state r)) reason actor now) (with_row (moved r t now) db)"
      using run r by (auto simp: transition_eq [OF ok] split: if_splits)
    then show ?thesis using transition_ok [OF ok row] by simp
  qed
qed

lemmas inst_ops_grow = field_ops_grow fences_grow transition_grows delete_endpoint_grows
  set_resource_state_grows record_endpoint_grows record_resource_grows credential_writes_grow
  append_observation_grows

end
