(* ===== verification/Build_Images.thy ===== *)
theory Build_Images
  imports Catalog
begin

text \<open>
  The registries of built images a launch reads:
  \<open>infrastructure/database/challenge_build_image_repository.py\<close> and
  \<open>challenge_build_stack_image_repository.py\<close>. Both are append-only, with an insert that does
  nothing when its unique key is taken; the readers are queries.
\<close>

record build_image =
  bi_id :: nat
  bi_version :: "string \<times> int"
  bi_ref :: string
  bi_digest :: string
  bi_bundle :: string
  bi_created :: instant

record stack_image =
  si_version :: "string \<times> int"
  si_service :: string
  si_ref :: string
  si_digest :: string
  si_bundle :: string
  si_depends :: "string list"
  si_expose :: "string list"
  si_primary :: bool

record imagedb =
  im_builds :: "build_image list"
  im_stacks :: "stack_image list"

definition empty_imagedb :: imagedb where
  "empty_imagedb = \<lparr>im_builds = [], im_stacks = []\<rparr>"

section \<open>Single images\<close>

definition build_key :: "build_image \<Rightarrow> (string \<times> int) \<times> string" where
  "build_key b = (bi_version b, bi_ref b)"

text \<open>The surrogate id is an argument; \<open>ON CONFLICT (version, image_ref) DO NOTHING\<close>.\<close>

definition add_build ::
    "catalog \<Rightarrow> nat \<Rightarrow> string \<Rightarrow> int \<Rightarrow> string \<Rightarrow> string \<Rightarrow> string \<Rightarrow> instant \<Rightarrow> (imagedb, unit) tx" where
  "add_build cat k slug no ref digest bundle now =
     tx_bind (version_uuid cat slug no) (\<lambda>v.
     tx_modify (\<lambda>db. if (v, ref) \<in> build_key ` set (im_builds db) then db
       else db\<lparr>im_builds := im_builds db @ [\<lparr>bi_id = k, bi_version = v, bi_ref = ref,
         bi_digest = digest, bi_bundle = bundle, bi_created = now\<rparr>]\<rparr>))"

definition latest_image_ref :: "string \<Rightarrow> int \<Rightarrow> imagedb \<Rightarrow> string option" where
  "latest_image_ref slug no db = map_option bi_ref
     (first_by (\<lambda>b. (- bi_created b, - int (bi_id b)))
       (filter (\<lambda>b. bi_version b = (slug, no)) (im_builds db)))"

definition digest_for_image :: "string \<Rightarrow> int \<Rightarrow> string \<Rightarrow> imagedb \<Rightarrow> string option" where
  "digest_for_image slug no ref db = map_option bi_digest (find_row build_key ((slug, no), ref) (im_builds db))"

section \<open>Stacks\<close>

definition stack_key :: "stack_image \<Rightarrow> (string \<times> int) \<times> string \<times> string" where
  "stack_key s = (si_version s, si_service s, si_ref s)"

definition add_service_image :: "catalog \<Rightarrow> stack_image \<Rightarrow> (imagedb, unit) tx" where
  "add_service_image cat s =
     tx_bind (version_uuid cat (fst (si_version s)) (snd (si_version s))) (\<lambda>_.
     tx_modify (\<lambda>db. if stack_key s \<in> stack_key ` set (im_stacks db) then db
       else db\<lparr>im_stacks := im_stacks db @ [s]\<rparr>))"

text \<open>\<open>scalar_one_or_none\<close> raises when the query has more than one row.\<close>

definition stack_for_primary_image ::
    "string \<Rightarrow> int \<Rightarrow> string \<Rightarrow> imagedb \<Rightarrow> exn + stack_image list" where
  "stack_for_primary_image slug no ref db =
     (case filter (\<lambda>s. si_version s = (slug, no) \<and> si_ref s = ref \<and> si_primary s) (im_stacks db) of
        [] \<Rightarrow> Inr []
      | [p] \<Rightarrow> Inr (sort_key si_service
            (filter (\<lambda>s. si_version s = (slug, no) \<and> si_bundle s = si_bundle p) (im_stacks db)))
      | _ \<Rightarrow> Inl MultipleResultsFound)"

section \<open>What the registry promises\<close>

lemma add_build_keeps_digest:
  assumes "digest_for_image slug no ref db = Some d" and "add_build cat k s n r dg b now db = Inr (u, db')"
  shows "digest_for_image slug no ref db' = Some d"
  using assms
  by (auto simp: add_build_def digest_for_image_def tx_simps find_row_append split: if_splits option.splits)

lemma add_build_digest:
  assumes "add_build cat k slug no ref digest b now db = Inr (u, db')"
  shows "digest_for_image slug no ref db' =
    Some (case digest_for_image slug no ref db of None \<Rightarrow> digest | Some d \<Rightarrow> d)"
proof (cases "find_row build_key ((slug, no), ref) (im_builds db)")
  case None
  then have "((slug, no), ref) \<notin> build_key ` set (im_builds db)" by (auto simp: find_row_None_iff)
  then have "im_builds db' = im_builds db @ [\<lparr>bi_id = k, bi_version = (slug, no), bi_ref = ref,
      bi_digest = digest, bi_bundle = b, bi_created = now\<rparr>]"
    using assms by (auto simp: add_build_def tx_simps)
  with None show ?thesis
    by (simp add: digest_for_image_def find_row_append find_row_Cons build_key_def)
next
  case (Some row)
  then have "digest_for_image slug no ref db = Some (bi_digest row)" by (simp add: digest_for_image_def)
  with add_build_keeps_digest [OF this assms] show ?thesis by simp
qed

lemma add_build_twice:
  assumes "add_build cat k slug no ref digest b now db = Inr (u, db')"
  shows "add_build cat k' slug no ref digest' b' now' db' = Inr ((), db')"
proof -
  have "digest_for_image slug no ref db' \<noteq> None" using add_build_digest [OF assms] by simp
  then have "((slug, no), ref) \<in> build_key ` set (im_builds db')"
    by (rule_tac ccontr) (simp add: digest_for_image_def find_row_None_key [symmetric])
  moreover have "(slug, no) \<in> set (cat_versions cat)" using assms by (auto simp: add_build_def tx_simps)
  ultimately show ?thesis by (simp add: add_build_def tx_bind_def version_uuid_def tx_ret_def tx_modify_def)
qed

lemma latest_image_newest:
  assumes "latest_image_ref slug no db = Some ref"
  shows "\<exists>b \<in> set (im_builds db). bi_version b = (slug, no) \<and> bi_ref b = ref
    \<and> (\<forall>c \<in> set (im_builds db). bi_version c = (slug, no) \<longrightarrow> bi_created c \<le> bi_created b)"
proof -
  obtain b where b: "first_by (\<lambda>b. (- bi_created b, - int (bi_id b)))
      (filter (\<lambda>b. bi_version b = (slug, no)) (im_builds db)) = Some b" "bi_ref b = ref"
    using assms by (auto simp: latest_image_ref_def)
  from first_by_SomeD [OF b(1)] b(2) show ?thesis by (intro bexI [of _ b]) (auto simp: less_eq_prod_def)
qed

section \<open>Pinning\<close>

text \<open>What a run of the build workers leaves: a recording that raises is rolled back.\<close>

type_synonym build_call = "nat \<times> string \<times> int \<times> string \<times> string \<times> string \<times> instant"

fun builds_after :: "catalog \<Rightarrow> build_call list \<Rightarrow> imagedb \<Rightarrow> imagedb" where
  "builds_after cat [] db = db"
| "builds_after cat ((k, slug, no, ref, digest, bundle, now) # bs) db =
     builds_after cat bs (snd (session_scope (add_build cat k slug no ref digest bundle now) db))"

lemma builds_keep_digest:
  "digest_for_image slug no ref db = Some d \<Longrightarrow> digest_for_image slug no ref (builds_after cat bs db) = Some d"
proof (induction bs arbitrary: db)
  case (Cons c bs)
  obtain k s n r dg b now where c: "c = (k, s, n, r, dg, b, now)" by (cases c) auto
  have "digest_for_image slug no ref (snd (session_scope (add_build cat k s n r dg b now) db)) = Some d"
    using Cons.prems add_build_keeps_digest [OF Cons.prems]
    by (auto simp: session_scope_def split: sum.splits prod.splits)
  from Cons.IH [OF this] show ?case by (simp add: c)
qed simp

text \<open>
  An image reference never changes its content: once a build of a challenge version is recorded
  under a reference, the digest read for that reference is the one recorded first, after any further
  recordings, the same reference with another digest included.
\<close>

theorem image_digest_is_pinned:
  assumes "add_build cat k slug no ref digest bundle now db = Inr (u, db')"
  shows "digest_for_image slug no ref (builds_after cat bs db')
    = Some (case digest_for_image slug no ref db of None \<Rightarrow> digest | Some d \<Rightarrow> d)"
  by (rule builds_keep_digest [OF add_build_digest [OF assms]])

theorem image_digest_is_pinned_witness:
  "\<exists>db. digest_for_image ''web'' 1 ''web:1'' (builds_after \<lparr>cat_competitions = [], cat_teams = [],
      cat_versions = [(''web'', 1)], cat_users = [], cat_workers = []\<rparr>
      [(2, ''web'', 1, ''web:1'', ''sha256:bb'', ''b'', 5)] db) = Some ''sha256:aa''"
proof -
  let ?cat = "\<lparr>cat_competitions = [], cat_teams = [], cat_versions = [(''web'', 1)], cat_users = [], cat_workers = []\<rparr>"
  have "case add_build ?cat 1 ''web'' 1 ''web:1'' ''sha256:aa'' ''b'' 4 empty_imagedb of Inr _ \<Rightarrow> True | Inl _ \<Rightarrow> False"
    by code_simp
  then obtain u db' where run: "add_build ?cat 1 ''web'' 1 ''web:1'' ''sha256:aa'' ''b'' 4 empty_imagedb = Inr (u, db')"
    by (auto split: sum.splits)
  have "digest_for_image ''web'' 1 ''web:1'' empty_imagedb = None" by code_simp
  with image_digest_is_pinned [OF run, of "[(2, ''web'', 1, ''web:1'', ''sha256:bb'', ''b'', 5)]"] show ?thesis by auto
qed

end
