(* ===== verification/Job_Service.thy ===== *)
theory Job_Service
  imports Job_Theorems
begin

text \<open>
  The control-plane facade \<open>application/jobs/service.py\<close>: each method opens units of work on the
  job queue. \<open>enqueue_idempotent\<close> collapses a reused idempotency key onto the stored job when the
  request identity (type, canonical payload hash, capability set) agrees, and refuses it otherwise;
  it is shown to be an idempotent intake, and a retried enqueue to be absorbed.
\<close>

section \<open>The service's methods\<close>

definition canonical_payload_hash :: "(string \<times> json) list \<Rightarrow> string" where
  "canonical_payload_hash payload = sha256_hex (json_dumps (JObj payload))"

definition same_request :: "job \<Rightarrow> job \<Rightarrow> bool" where
  "same_request existing incoming \<longleftrightarrow>
     j_type existing = j_type incoming
     \<and> canonical_payload_hash (j_payload existing) = canonical_payload_hash (j_payload incoming)
     \<and> sorted_list_of_set (set (j_required_capabilities existing))
        = sorted_list_of_set (set (j_required_capabilities incoming))"

definition enqueue_idempotent ::
    "catalog \<Rightarrow> instant \<Rightarrow> job \<Rightarrow> instant option \<Rightarrow> (jobdb, job \<times> bool) svc" where
  "enqueue_idempotent cat created j now =
     svc_catch
       (svc_bind (session_scope (enqueue cat created j now)) (\<lambda>persisted. svc_ret (persisted, True)))
       (\<lambda>e. case e of
          IntegrityError _ \<Rightarrow>
            svc_bind (session_scope (get_by_idempotency_key (j_idempotency_key j))) (\<lambda>existing.
              case existing of
                None \<Rightarrow> svc_raise e
              | Some x \<Rightarrow>
                  if \<not> same_request x j then svc_raise JobIdempotencyConflictError
                  else svc_ret (x, False))
        | _ \<Rightarrow> svc_raise e)"

definition service_get :: "ident \<Rightarrow> (jobdb, job option) svc" where
  "service_get job_id = session_scope (get_job job_id)"

definition service_get_by_key :: "string \<Rightarrow> (jobdb, job option) svc" where
  "service_get_by_key key = session_scope (get_by_idempotency_key key)"

definition service_cancel :: "ident \<Rightarrow> instant \<Rightarrow> (jobdb, job) svc" where
  "service_cancel job_id now = session_scope (request_cancel job_id now)"

definition service_reap_expired :: "nat list \<Rightarrow> instant \<Rightarrow> nat \<Rightarrow> (jobdb, job list) svc" where
  "service_reap_expired skip now limit = session_scope (reap_expired skip now limit)"

definition service_list_dead_letter :: "(jobdb, job list) svc" where
  "service_list_dead_letter = session_scope list_dead_letter"

definition service_retry_dead_letter :: "ident \<Rightarrow> instant \<Rightarrow> (jobdb, job) svc" where
  "service_retry_dead_letter job_id now = session_scope (retry_dead_letter job_id now)"

section \<open>Enqueue as one expression\<close>

definition job_version :: "job \<Rightarrow> (string \<times> int) option" where
  "job_version j = (case (j_definition_slug j, j_version_no j) of (Some d, Some n) \<Rightarrow> Some (d, n) | _ \<Rightarrow> None)"

definition refs_ok :: "catalog \<Rightarrow> job \<Rightarrow> bool" where
  "refs_ok cat j \<longleftrightarrow> (\<forall>c. j_competition_id j = Some c \<longrightarrow> c \<in> set (cat_competitions cat))
     \<and> (\<forall>v. job_version j = Some v \<longrightarrow> v \<in> set (cat_versions cat))"

definition audit_at :: "job \<Rightarrow> instant option \<Rightarrow> instant" where
  "audit_at j now = (case now of Some t \<Rightarrow> t | None \<Rightarrow> j_available_at j)"

definition enqueue_entry :: "job_row \<Rightarrow> instant \<Rightarrow> job_transition" where
  "enqueue_entry row t = \<lparr>jt_job = r_id row, jt_from = None, jt_to = Queued, jt_attempt = r_attempts row,
     jt_occurred_at = t, jt_worker = None, jt_error_class = None, jt_error_detail = None\<rparr>"

lemma optional_eq:
  "competition_uuid_optional cat c db =
     (if \<forall>x. c = Some x \<longrightarrow> x \<in> set (cat_competitions cat) then Inr (c, db) else Inl LookupError)"
  "(so = None) = (no = None) \<Longrightarrow> version_uuid_optional cat so no db =
     (if \<forall>v. (case (so, no) of (Some d, Some n) \<Rightarrow> Some (d, n) | _ \<Rightarrow> None) = Some v \<longrightarrow> v \<in> set (cat_versions cat)
      then Inr (case (so, no) of (Some d, Some n) \<Rightarrow> Some (d, n) | _ \<Rightarrow> None, db) else Inl LookupError)"
  by (auto simp: competition_uuid_optional_def version_uuid_optional_def competition_uuid_def
      version_uuid_def tx_defs split: option.splits)

lemma jobdb_update: "db\<lparr>jd_jobs := a, jd_hist := b\<rparr> = \<lparr>jd_jobs = a, jd_hist = b\<rparr>"
  by (cases db) simp

lemma enqueue_eq:
  assumes ini: "job_post_init j = Inr ()"
  shows "enqueue cat created j now db =
    (if \<not> refs_ok cat j then Inl LookupError
     else case job_to_orm j (j_competition_id j) (job_version j) created of
         Inl e \<Rightarrow> Inl e
       | Inr row \<Rightarrow>
           if r_id row \<in> r_id ` set (jd_jobs db) then Inl (IntegrityError ''pk_jobs'')
           else if r_key row \<in> r_key ` set (jd_jobs db) then Inl (IntegrityError ''uq_jobs_idempotency_key'')
           else Inr (row_job row, \<lparr>jd_jobs = jd_jobs db @ [row],
             jd_hist = jd_hist db @ [enqueue_entry row (audit_at j now)]\<rparr>))"
proof -
  let ?c = "j_competition_id j"
  have both: "(j_definition_slug j = None) = (j_version_no j = None)" by (rule job_post_init_ok(7) [OF ini])
  show ?thesis
  proof (cases "refs_ok cat j")
    case False
    then show ?thesis
      by (auto simp: enqueue_def tx_bind_def optional_eq(1) optional_eq(2) [OF both] refs_ok_def
          job_version_def)
  next
    case True
    have cv: "competition_uuid_optional cat ?c db = Inr (?c, db)"
      "version_uuid_optional cat (j_definition_slug j) (j_version_no j) db = Inr (job_version j, db)"
      using True by (simp_all add: optional_eq(1) optional_eq(2) [OF both] refs_ok_def job_version_def)
    show ?thesis
    proof (cases "job_to_orm j ?c (job_version j) created")
      case orm: (Inl e')
      with cv True show ?thesis by (simp add: enqueue_def tx_bind_def tx_raise_def)
    next
      case orm: (Inr row)
      have rok: "job_row_ok row"
        by (rule job_to_orm_ok(1) [OF orm ini refl]) (simp add: job_version_def)
      have ck: "job_check row = None" using rok by (simp add: job_row_ok_def)
      show ?thesis
        using True job_row_ok_facts(1) [OF rok]
        by (simp add: enqueue_def tx_bind_def cv orm insert_row_def ck record_transition_def
            tx_guard_def tx_ret_def tx_modify_def opt_nonempty_def to_domain_ok [OF rok]
            enqueue_entry_def audit_at_def jobdb_update)
    qed
  qed
qed

section \<open>The facade is an idempotent intake\<close>

definition job_stored :: "jobdb \<Rightarrow> string \<Rightarrow> job option" where
  "job_stored db k = map_option row_job (find_row r_key k (jd_jobs db))"

lemma get_by_key_ok:
  "jobdb_ok db \<Longrightarrow> get_by_idempotency_key k db = Inr (job_stored db k, db)"
  using jobdb_okD(3) [of db] find_row_SomeD [of r_key k "jd_jobs db"]
  by (auto simp: get_by_idempotency_key_def job_stored_def tx_bind_def tx_get_def tx_ret_def
      to_domain_ok split: option.splits)

lemma job_stored_None: "job_stored db k = None \<longleftrightarrow> k \<notin> r_key ` set (jd_jobs db)"
  by (auto simp: job_stored_def find_row_None_iff)

definition enqueue_outcome ::
    "catalog \<Rightarrow> instant \<Rightarrow> instant option \<Rightarrow> job \<Rightarrow> jobdb \<Rightarrow> (exn + job \<times> bool) \<times> jobdb" where
  "enqueue_outcome cat created now j db =
     (if \<not> refs_ok cat j then (Inl LookupError, db)
      else case job_to_orm j (j_competition_id j) (job_version j) created of
         Inl e \<Rightarrow> (Inl e, db)
       | Inr row \<Rightarrow>
           if r_id row \<in> r_id ` set (jd_jobs db) \<or> job_stored db (j_idempotency_key j) \<noteq> None
           then (case job_stored db (j_idempotency_key j) of
               None \<Rightarrow> (Inl (IntegrityError ''pk_jobs''), db)
             | Some x \<Rightarrow> if same_request x j then (Inr (x, False), db)
                         else (Inl JobIdempotencyConflictError, db))
           else (Inr (row_job row, True), \<lparr>jd_jobs = jd_jobs db @ [row],
             jd_hist = jd_hist db @ [enqueue_entry row (audit_at j now)]\<rparr>))"

lemma job_to_orm_raises: "job_to_orm j c v created = Inl e \<Longrightarrow> e = ValueError"
  by (auto simp: job_to_orm_def split: if_splits option.splits)

lemma enqueue_idempotent_eq:
  assumes ok: "jobdb_ok db" and ini: "job_post_init j = Inr ()"
  shows "enqueue_idempotent cat created j now db = enqueue_outcome cat created now j db"
proof (cases "refs_ok cat j")
  case False
  then show ?thesis
    by (simp add: enqueue_idempotent_def enqueue_outcome_def svc_defs enqueue_eq [OF ini])
next
  case True
  show ?thesis
  proof (cases "job_to_orm j (j_competition_id j) (job_version j) created")
    case (Inl e)
    with job_to_orm_raises [OF Inl] True show ?thesis
      by (simp add: enqueue_idempotent_def enqueue_outcome_def svc_defs enqueue_eq [OF ini])
  next
    case (Inr row)
    have key: "r_key row = j_idempotency_key j"
      by (rule job_to_orm_ok(5) [OF Inr ini refl]) (simp add: job_version_def)
    note keyed = job_stored_None [of db "j_idempotency_key j"]
    show ?thesis
    proof (cases "job_stored db (j_idempotency_key j)")
      case None
      then show ?thesis
        using True keyed
        by (auto simp: enqueue_idempotent_def enqueue_outcome_def svc_defs enqueue_eq [OF ini] Inr key
            get_by_key_ok [OF ok])
    next
      case (Some x)
      then show ?thesis
        using True keyed
        by (auto simp: enqueue_idempotent_def enqueue_outcome_def svc_defs enqueue_eq [OF ini] Inr key
            get_by_key_ok [OF ok])
    qed
  qed
qed

lemma job_stored_append:
  "job_stored \<lparr>jd_jobs = rows @ [row], jd_hist = h\<rparr> k =
     (case find_row r_key k rows of Some r \<Rightarrow> Some (row_job r)
      | None \<Rightarrow> if r_key row = k then Some (row_job row) else None)"
  by (simp add: job_stored_def find_row_append find_row_Cons split: option.splits)

lemma enqueue_idempotent_ok:
  assumes ok: "jobdb_ok db" and ini: "job_post_init j = Inr ()"
  shows "jobdb_ok (snd (enqueue_idempotent cat created j now db))"
proof -
  have key: "r_key row = j_idempotency_key j"
    if "job_to_orm j (j_competition_id j) (job_version j) created = Inr row" for row
    by (rule job_to_orm_ok(5) [OF that ini refl]) (simp add: job_version_def)
  have "jobdb_ok (snd (session_scope (enqueue cat created j now) db))"
    using enqueue_ok [OF ok _ ini] ok by (auto simp: session_scope_def split: sum.splits prod.splits)
  moreover have "snd (enqueue_idempotent cat created j now db) \<in> {db, snd (session_scope (enqueue cat created j now) db)}"
    unfolding enqueue_idempotent_eq [OF ok ini]
    by (auto simp: enqueue_outcome_def session_scope_def enqueue_eq [OF ini] job_stored_None key
        split: sum.splits option.splits dest: not_in_keys)
  ultimately show ?thesis using ok by auto
qed

text \<open>A request is a valid job with the clock readings of its call.\<close>

definition submit_job :: "catalog \<Rightarrow> instant \<times> job \<times> instant option \<Rightarrow> (jobdb, job \<times> bool) svc" where
  "submit_job cat r = (case r of (created, j, now) \<Rightarrow> enqueue_idempotent cat created j now)"

definition submit_key :: "instant \<times> job \<times> instant option \<Rightarrow> string" where
  "submit_key r = j_idempotency_key (fst (snd r))"

definition submit_valid :: "instant \<times> job \<times> instant option \<Rightarrow> bool" where
  "submit_valid r \<longleftrightarrow> job_post_init (fst (snd r)) = Inr ()"

interpretation job_intake: idempotent_intake "submit_job cat" submit_key job_stored jobdb_ok submit_valid
  for cat
proof
  fix db r x db'
  assume ok: "jobdb_ok db" and adm: "submit_valid r" and run: "submit_job cat r db = (Inr (x, True), db')"
  obtain created j now where r: "r = (created, j, now)" by (cases r)
  have ini: "job_post_init j = Inr ()" using adm by (simp add: submit_valid_def r)
  have out: "enqueue_outcome cat created now j db = (Inr (x, True), db')"
    using run enqueue_idempotent_eq [OF ok ini, of cat created now] by (simp add: submit_job_def r)
  then obtain row where orm: "job_to_orm j (j_competition_id j) (job_version j) created = Inr row"
    and none: "job_stored db (j_idempotency_key j) = None" and x: "x = row_job row"
    and db': "db' = \<lparr>jd_jobs = jd_jobs db @ [row], jd_hist = jd_hist db @ [enqueue_entry row (audit_at j now)]\<rparr>"
    by (auto simp: enqueue_outcome_def split: if_splits sum.splits option.splits)
  have key: "r_key row = j_idempotency_key j"
    by (rule job_to_orm_ok(5) [OF orm ini refl]) (simp add: job_version_def)
  have "jobdb_ok db'" using enqueue_idempotent_ok [OF ok ini, of cat created now] run
    by (simp add: submit_job_def r)
  then show "jobdb_ok db' \<and> job_stored db (submit_key r) = None \<and> job_stored db' (submit_key r) = Some x
      \<and> (\<forall>k. k \<noteq> submit_key r \<longrightarrow> job_stored db' k = job_stored db k)"
    using none key by (auto simp: submit_key_def r db' job_stored_append x)
      (auto simp: job_stored_def split: option.splits)
next
  fix db r x db'
  assume ok: "jobdb_ok db" and adm: "submit_valid r" and run: "submit_job cat r db = (Inr (x, False), db')"
  obtain created j now where r: "r = (created, j, now)" by (cases r)
  have ini: "job_post_init j = Inr ()" using adm by (simp add: submit_valid_def r)
  have "enqueue_outcome cat created now j db = (Inr (x, False), db')"
    using run enqueue_idempotent_eq [OF ok ini, of cat created now] by (simp add: submit_job_def r)
  then show "db' = db \<and> job_stored db (submit_key r) = Some x"
    by (auto simp: enqueue_outcome_def submit_key_def r split: if_splits sum.splits option.splits)
next
  fix db r e db'
  assume ok: "jobdb_ok db" and adm: "submit_valid r" and run: "submit_job cat r db = (Inl e, db')"
  obtain created j now where r: "r = (created, j, now)" by (cases r)
  have ini: "job_post_init j = Inr ()" using adm by (simp add: submit_valid_def r)
  have "enqueue_outcome cat created now j db = (Inl e, db')"
    using run enqueue_idempotent_eq [OF ok ini, of cat created now] by (simp add: submit_job_def r)
  then show "db' = db"
    by (auto simp: enqueue_outcome_def split: if_splits sum.splits option.splits)
qed

section \<open>Properties\<close>

text \<open>
  Enqueue is idempotent by key: whatever enqueue requests follow, the job stored under a key
  stays what it was, and a request under that key never creates another one: if it is accepted, it
  returns exactly the stored job and writes nothing.
\<close>

theorem enqueue_idempotent_by_key:
  assumes "job_reachable cat db" and "job_stored db k = Some x"
    and "\<forall>r \<in> set rs. submit_valid r" and "submit_valid (created, j, now)" and "j_idempotency_key j = k"
  shows "job_stored (run_requests (submit_job cat) rs db) k = Some x
    \<and> (\<forall>y b db'. enqueue_idempotent cat created j now (run_requests (submit_job cat) rs db) = (Inr (y, b), db')
         \<longrightarrow> \<not> b \<and> y = x \<and> db' = run_requests (submit_job cat) rs db)"
proof (intro conjI allI impI)
  note ok = reachable_ok [OF assms(1)]
  let ?db = "run_requests (submit_job cat) rs db"
  show st: "job_stored ?db k = Some x" by (rule job_intake.stored_forever [OF ok assms(3,2)])
  fix y b db'
  assume "enqueue_idempotent cat created j now ?db = (Inr (y, b), db')"
  then have run: "submit_job cat (created, j, now) ?db = (Inr (y, b), db')" by (simp add: submit_job_def)
  have key: "job_stored ?db (submit_key (created, j, now)) = Some x"
    using st assms(5) by (simp add: submit_key_def)
  note fin = job_intake.never_recreated [OF job_intake.requests_inv [OF ok assms(3)] assms(4) key run]
  show "\<not> b" "y = x" "db' = ?db" using fin by simp_all
qed

definition keyed_job :: job where
  "keyed_job = sample_job\<lparr>j_payload := [(''gen'', JInt 1), (''action'', JStr ''launch'')]\<rparr>"

lemma keyed_job_valid: "job_post_init keyed_job = Inr ()"
  by code_simp

lemma keyed_enqueue:
  "\<exists>x db'. enqueue_idempotent sample_catalog 0 keyed_job None empty_jobdb = (Inr (x, True), db')"
proof -
  have "case enqueue_idempotent sample_catalog 0 keyed_job None empty_jobdb of
      (Inr (_, b), _) \<Rightarrow> b | _ \<Rightarrow> False"
    by code_simp
  then show ?thesis by (auto split: sum.splits prod.splits)
qed

lemma sample_stored: "\<exists>x. job_stored enqueued_db ''k'' = Some x"
proof -
  have "job_stored enqueued_db ''k'' \<noteq> None" by code_simp
  then show ?thesis by blast
qed

theorem enqueue_idempotent_by_key_witness:
  "\<exists>x. job_stored (run_requests (submit_job sample_catalog) [(3, keyed_job, None)] enqueued_db) ''k'' = Some x"
proof -
  obtain x where x: "job_stored enqueued_db ''k'' = Some x" using sample_stored by blast
  have "\<forall>r \<in> set [(3, keyed_job, None)]. submit_valid r" "submit_valid (4, keyed_job, None)"
    "j_idempotency_key keyed_job = ''k''"
    using keyed_job_valid by (simp_all add: submit_valid_def keyed_job_def sample_job_def)
  from enqueue_idempotent_by_key [OF sample_reachable(1) x this] show ?thesis by blast
qed

text \<open>A retried request: a fresh job id, and the payload's dict built in any order.\<close>

definition retry_of :: "job \<Rightarrow> nat \<Rightarrow> (string \<times> json) list \<Rightarrow> job" where
  "retry_of j k payload = j\<lparr>j_id := Uid k, j_payload := payload\<rparr>"

lemma hash_order:
  assumes "mset p = mset q" and "distinct (map fst q)"
  shows "canonical_payload_hash p = canonical_payload_hash q"
  using json_dumps_order [OF assms(1) [symmetric] assms(2)]
  by (simp add: canonical_payload_hash_def)

lemma retry_post_init: "job_post_init j = Inr () \<Longrightarrow> job_post_init (retry_of j k p) = Inr ()"
  by (simp add: job_post_init_def retry_of_def split: if_splits)

lemma retry_to_orm:
  assumes "job_to_orm j c v created = Inr row"
  shows "\<exists>row'. job_to_orm (retry_of j k p) c v created' = Inr row'"
  using assms unfolding job_to_orm_def retry_of_def by (auto split: if_splits option.splits)

lemma stored_same_request:
  assumes orm: "job_to_orm j c v created = Inr row"
  shows "same_request (row_job row) j"
  using assms unfolding job_to_orm_def
  by (auto simp: same_request_def row_job_def capabilities_to_orm_def split: if_splits option.splits)

lemma same_request_retry:
  assumes "same_request x j" and "mset p = mset (j_payload j)" and "distinct (map fst (j_payload j))"
  shows "same_request x (retry_of j k p)"
  using assms hash_order [OF assms(2,3)] by (simp add: same_request_def retry_of_def)

text \<open>
  A retried enqueue collapses: after any accepted enqueue, sending the same request again (with
  a fresh job id, at any later time, its payload's keys in any order) returns the same job, reports
  it as not created, and writes nothing.
\<close>

theorem enqueue_retry_collapses:
  assumes "job_reachable cat db" and "job_post_init j = Inr ()"
    and "enqueue_idempotent cat created j now db = (Inr (x, b), db')"
    and "mset p = mset (j_payload j)" and "distinct (map fst (j_payload j))"
  shows "enqueue_idempotent cat created' (retry_of j k p) now' db' = (Inr (x, False), db')"
proof -
  note ok = reachable_ok [OF assms(1)] and ini = assms(2)
  let ?j = "retry_of j k p"
  have out: "enqueue_outcome cat created now j db = (Inr (x, b), db')"
    using assms(3) enqueue_idempotent_eq [OF ok ini, of cat created now] by simp
  have ok': "jobdb_ok db'"
    using enqueue_idempotent_ok [OF ok ini, of cat created now] assms(3) by simp
  have refs: "refs_ok cat j" using out by (auto simp: enqueue_outcome_def split: if_splits)
  then obtain row where orm: "job_to_orm j (j_competition_id j) (job_version j) created = Inr row"
    using out by (auto simp: enqueue_outcome_def split: sum.splits)
  have key: "r_key row = j_idempotency_key j"
    by (rule job_to_orm_ok(5) [OF orm ini refl]) (simp add: job_version_def)
  have st: "job_stored db' (j_idempotency_key j) = Some x \<and> same_request x j"
    using out refs orm stored_same_request [OF orm]
    by (auto simp: enqueue_outcome_def key job_stored_def find_row_append find_row_Cons
        split: if_splits option.splits)
  have same: "same_request x ?j" using same_request_retry [OF _ assms(4,5)] st by blast
  obtain row' where "job_to_orm ?j (j_competition_id j) (job_version j) created' = Inr row'"
    using retry_to_orm [OF orm] by blast
  moreover have "refs_ok cat ?j" "job_version ?j = job_version j" "j_competition_id ?j = j_competition_id j"
    "j_idempotency_key ?j = j_idempotency_key j"
    using refs by (simp_all add: refs_ok_def job_version_def retry_of_def)
  ultimately have "enqueue_outcome cat created' now' ?j db' = (Inr (x, False), db')"
    using st same by (simp add: enqueue_outcome_def)
  then show ?thesis using enqueue_idempotent_eq [OF ok' retry_post_init [OF ini]] by simp
qed

theorem enqueue_retry_collapses_witness:
  "\<exists>x db'. enqueue_idempotent sample_catalog 9
      (retry_of keyed_job 5 [(''action'', JStr ''launch''), (''gen'', JInt 1)]) None db' = (Inr (x, False), db')"
proof -
  obtain x db' where run: "enqueue_idempotent sample_catalog 0 keyed_job None empty_jobdb = (Inr (x, True), db')"
    using keyed_enqueue by blast
  have "mset [(''action'', JStr ''launch''), (''gen'', JInt 1)] = mset (j_payload keyed_job)"
    "distinct (map fst (j_payload keyed_job))"
    by (simp_all add: keyed_job_def)
  from enqueue_retry_collapses [OF job_reachable.init keyed_job_valid run this] show ?thesis by blast
qed

end
