(* ===== verification/Instance_Service.thy ===== *)
theory Instance_Service
  imports Instance_Steps Build_Images Job_Service Scheduling_Service
begin

text \<open>
  The lifecycle service \<open>application/instances/service.py\<close> and the corrective-action primitives of
  \<open>application/instances/corrective.py\<close>. A platform state holds the four stores the service works
  on; each call opens units of work on one of them at a time, as the code does. Draws of \<open>uuid4\<close> and
  the database clock are numbered, and the environment says what the n-th draw is.
\<close>

section \<open>The platform\<close>

record platform =
  p_jobs :: jobdb
  p_quota :: quotadb
  p_inst :: instdb
  p_images :: imagedb
  p_draws :: nat

definition empty_platform :: platform where
  "empty_platform = \<lparr>p_jobs = empty_jobdb, p_quota = empty_quotadb, p_inst = empty_instdb,
     p_images = empty_imagedb, p_draws = 0\<rparr>"

record world =
  wd_cat :: catalog
  wd_fleet :: fleet
  wd_uuid :: "nat \<Rightarrow> nat"
  wd_clock :: "nat \<Rightarrow> instant"

definition on_jobs :: "(jobdb, 'a) svc \<Rightarrow> (platform, 'a) svc" where
  "on_jobs = svc_on p_jobs (\<lambda>d p. p\<lparr>p_jobs := d\<rparr>)"

definition on_quota :: "(quotadb, 'a) svc \<Rightarrow> (platform, 'a) svc" where
  "on_quota = svc_on p_quota (\<lambda>d p. p\<lparr>p_quota := d\<rparr>)"

definition on_inst :: "(instdb, 'a) tx \<Rightarrow> (platform, 'a) svc" where
  "on_inst m = svc_on p_inst (\<lambda>d p. p\<lparr>p_inst := d\<rparr>) (session_scope m)"

definition on_images :: "(imagedb, 'a) tx \<Rightarrow> (platform, 'a) svc" where
  "on_images m = svc_on p_images (\<lambda>d p. p\<lparr>p_images := d\<rparr>) (session_scope m)"

definition draw :: "(platform, nat) svc" where
  "draw = (\<lambda>p. (Inr (p_draws p), p\<lparr>p_draws := p_draws p + 1\<rparr>))"

interpretation jobs_view: component_view p_jobs "\<lambda>d p. p\<lparr>p_jobs := d\<rparr>"
  by unfold_locales simp_all

interpretation quota_view: component_view p_quota "\<lambda>d p. p\<lparr>p_quota := d\<rparr>"
  by unfold_locales simp_all

interpretation inst_view: component_view p_inst "\<lambda>d p. p\<lparr>p_inst := d\<rparr>"
  by unfold_locales simp_all

interpretation images_view: component_view p_images "\<lambda>d p. p\<lparr>p_images := d\<rparr>"
  by unfold_locales simp_all

section \<open>Corrective jobs\<close>

datatype lifecycle_action = ActLaunch | ActStop | ActReset | ActExpire | ActDelete

fun action_name :: "lifecycle_action \<Rightarrow> string" where
  "action_name ActLaunch = ''launch''"
| "action_name ActStop = ''stop''"
| "action_name ActReset = ''reset''"
| "action_name ActExpire = ''expire''"
| "action_name ActDelete = ''delete''"

fun instance_action_job_types :: "lifecycle_action \<Rightarrow> job_type" where
  "instance_action_job_types ActLaunch = LaunchInstance"
| "instance_action_job_types ActStop = StopInstance"
| "instance_action_job_types ActReset = ResetInstance"
| "instance_action_job_types ActExpire = ExpireInstance"
| "instance_action_job_types ActDelete = DeleteRuntimeResources"

text \<open>\<open>str(uuid)\<close>: 32 hex digits in groups of 8, 4, 4, 4 and 12.\<close>

fun hex_digits :: "nat \<Rightarrow> string" where
  "hex_digits n = (if n < 16 then [hex_digit n] else hex_digits (n div 16) @ [hex_digit (n mod 16)])"

declare hex_digits.simps [simp del]

definition uuid_hex :: "nat \<Rightarrow> string" where
  "uuid_hex n = (let h = hex_digits n in replicate (32 - length h) (CHR ''0'') @ h)"

definition uuid_text :: "nat \<Rightarrow> string" where
  "uuid_text n = (let h = uuid_hex n in
     take 8 h @ ''-'' @ take 4 (drop 8 h) @ ''-'' @ take 4 (drop 12 h) @ ''-''
       @ take 4 (drop 16 h) @ ''-'' @ drop 20 h)"

fun ident_text :: "ident \<Rightarrow> string" where
  "ident_text (Uid n) = uuid_text n"
| "ident_text (Malformed s) = s"

definition corrective_idempotency_key :: "ident \<Rightarrow> int \<Rightarrow> lifecycle_action \<Rightarrow> string" where
  "corrective_idempotency_key i generation action =
     ''instance:'' @ ident_text i @ '':gen'' @ py_str_int generation @ '':'' @ action_name action"

definition build_corrective_job :: "nat \<Rightarrow> inst \<Rightarrow> int \<Rightarrow> lifecycle_action \<Rightarrow> instant \<Rightarrow> job" where
  "build_corrective_job uuid i generation action now =
     (let job_type = instance_action_job_types action in
      \<lparr>j_id = Uid uuid, j_type = job_type,
       j_idempotency_key = corrective_idempotency_key (in_id i) generation action,
       j_available_at = now, j_status = Queued, j_priority = 100,
       j_payload = [(''instance_id'', JStr (ident_text (in_id i))), (''generation'', JInt generation),
         (''action'', JStr (action_name action))],
       j_required_capabilities = [job_type_name job_type], j_attempt_count = 0, j_max_attempts = 3,
       j_backoff_base_seconds = 30, j_claimed_by = None, j_heartbeat_at = None,
       j_lease_expires_at = None, j_cancel_requested_at = None, j_started_at = None,
       j_finished_at = None, j_error_class = None, j_error_detail = None, j_result_json = None,
       j_result_ref = None, j_log_ref = None, j_competition_id = Some (in_comp i),
       j_definition_slug = Some (in_defn i), j_version_no = Some (in_ver i)\<rparr>)"

definition enqueue_corrective ::
    "world \<Rightarrow> inst \<Rightarrow> int \<Rightarrow> lifecycle_action \<Rightarrow> instant \<Rightarrow> (platform, job \<times> bool) svc" where
  "enqueue_corrective wd i generation action now =
     svc_bind draw (\<lambda>n.
       let j = build_corrective_job (wd_uuid wd n) i generation action now in
       case job_post_init j of
         Inl e \<Rightarrow> svc_raise e
       | Inr _ \<Rightarrow> on_jobs (enqueue_idempotent (wd_cat wd) (wd_clock wd n) j (Some now)))"

section \<open>Creation and placement\<close>

fun release_state :: "instance_state \<Rightarrow> bool" where
  "release_state IStopped = True"
| "release_state IExpired = True"
| "release_state IArchived = True"
| "release_state _ = False"

record launch_request =
  lr_id :: ident
  lr_comp :: string
  lr_team :: string
  lr_defn :: string
  lr_ver :: int
  lr_req :: worker_requirements
  lr_items :: "reservation_item list"
  lr_expires :: instant
  lr_now :: instant
  lr_image :: "string option"
  lr_seed :: "string option"
  lr_units :: int
  lr_ceilings :: "ceiling_requirement list"
  lr_comp_key :: "string option"
  lr_team_key :: "string option"
  lr_chal_key :: "string option"
  lr_sched_image :: "string option"

definition requested_instance :: "launch_request \<Rightarrow> string option \<Rightarrow> inst" where
  "requested_instance q img = \<lparr>in_id = lr_id q, in_comp = lr_comp q, in_team = lr_team q,
     in_defn = lr_defn q, in_ver = lr_ver q, in_state = IRequested, in_desired = DesActive,
     in_worker = None, in_gen = 1, in_image = img, in_expires = Some (lr_expires q),
     in_seed = lr_seed q, in_created = None, in_updated = None\<rparr>"

text \<open>The first block: create the row, or resume a matching one that is still \<open>requested\<close>.\<close>

definition admit_request :: "catalog \<Rightarrow> instant \<Rightarrow> launch_request \<Rightarrow> string option \<Rightarrow> (instdb, unit) tx" where
  "admit_request cat created q img =
     tx_bind (get_instance (lr_id q)) (\<lambda>existing. case existing of
       None \<Rightarrow> (case instance_post_init (requested_instance q img) of
           Inl e \<Rightarrow> tx_raise e
         | Inr _ \<Rightarrow> tx_bind (add_instance cat created (requested_instance q img) (lr_now q)) (\<lambda>_. tx_ret ()))
     | Some x \<Rightarrow>
         if (in_comp x, in_team x, in_defn x, in_ver x) \<noteq> (lr_comp q, lr_team q, lr_defn q, lr_ver q)
         then tx_raise IdempotencyConflictError
         else if in_state x \<noteq> IRequested then tx_raise IdempotencyConflictError
         else if img \<noteq> None \<and> in_image x = None
         then tx_bind (set_runtime_facts (lr_id q) (lr_now q) img None None) (\<lambda>_. tx_ret ())
         else tx_ret ())"

definition default_max_age :: int where
  "default_max_age = 60"

definition candidate_limit :: nat where
  "candidate_limit = 20"

definition launch_placement :: "launch_request \<Rightarrow> string option \<Rightarrow> placement" where
  "launch_placement q img = \<lparr>pl_req = lr_req q, pl_id = lr_id q, pl_items = lr_items q,
     pl_expires = lr_expires q, pl_now = lr_now q, pl_units = lr_units q, pl_ceilings = lr_ceilings q,
     pl_comp = lr_comp_key q, pl_team = lr_team_key q, pl_chal = lr_chal_key q, pl_image = img,
     pl_max_age = default_max_age, pl_limit = candidate_limit\<rparr>"

text \<open>The last block: record the placement and move to \<open>queued\<close>.\<close>

definition record_placement :: "catalog \<Rightarrow> ident \<Rightarrow> string \<Rightarrow> instant \<Rightarrow> (instdb, inst) tx" where
  "record_placement cat i worker now =
     tx_bind (set_assignment cat i (Some worker) now) (\<lambda>_.
       transition_instance i IQueued ''placed and enqueued for launch'' BySystem now)"

definition request_instance :: "world \<Rightarrow> launch_request \<Rightarrow> (platform, inst) svc" where
  "request_instance wd q =
     svc_bind (case lr_image q of
         Some img \<Rightarrow> svc_ret (Some img)
       | None \<Rightarrow> on_images (tx_get (latest_image_ref (lr_defn q) (lr_ver q)))) (\<lambda>img.
     svc_bind draw (\<lambda>n.
     svc_bind (on_inst (admit_request (wd_cat wd) (wd_clock wd n) q img)) (\<lambda>_.
     svc_bind draw (\<lambda>m.
     svc_bind (on_quota (select_and_reserve (wd_fleet wd) (wd_clock wd m)
         (launch_placement q (case lr_sched_image q of None \<Rightarrow> img | Some s \<Rightarrow> Some s)))) (\<lambda>(_, worker).
     svc_bind (on_inst (record_placement (wd_cat wd) (lr_id q) worker (lr_now q))) (\<lambda>placed.
     svc_bind (enqueue_corrective wd placed (in_gen placed) ActLaunch (lr_now q)) (\<lambda>_.
       svc_ret placed)))))))"

definition image_digest_for :: "string \<Rightarrow> int \<Rightarrow> string \<Rightarrow> (platform, string option) svc" where
  "image_digest_for slug no ref = on_images (tx_get (digest_for_image slug no ref))"

definition stack_for_instance_image :: "string \<Rightarrow> int \<Rightarrow> string \<Rightarrow> (platform, stack_image list) svc" where
  "stack_for_instance_image slug no ref = on_images (\<lambda>db. case stack_for_primary_image slug no ref db of
      Inl e \<Rightarrow> Inl e | Inr xs \<Rightarrow> Inr (xs, db))"

section \<open>Transitions\<close>

text \<open>The block of \<open>apply_transition\<close>; the boolean says the row was already in the target state.\<close>

definition guarded_transition ::
    "ident \<Rightarrow> instance_state \<Rightarrow> string \<Rightarrow> event_actor \<Rightarrow> instant \<Rightarrow> (instdb, inst \<times> bool) tx" where
  "guarded_transition i to reason actor now =
     tx_bind (get_instance i) (\<lambda>current. case current of
       None \<Rightarrow> tx_raise LookupError
     | Some x \<Rightarrow>
         if in_state x = to then tx_ret (x, True)
         else if \<not> is_legal_instance_transition (in_state x) to
         then tx_raise (IllegalInstanceTransitionError (instance_state_name (in_state x)) (instance_state_name to))
         else tx_bind (transition_instance i to reason actor now) (\<lambda>y. tx_ret (y, False)))"

definition apply_transition ::
    "ident \<Rightarrow> instance_state \<Rightarrow> string \<Rightarrow> event_actor \<Rightarrow> instant \<Rightarrow> (platform, inst) svc" where
  "apply_transition i to reason actor now =
     svc_bind (on_inst (guarded_transition i to reason actor now)) (\<lambda>(x, already).
       if already then svc_ret x
       else if release_state to
       then svc_bind (on_quota (svc_release i now)) (\<lambda>_. svc_ret x)
       else svc_ret x)"

section \<open>Desired-state intents\<close>

definition request_stop :: "world \<Rightarrow> ident \<Rightarrow> instant \<Rightarrow> (platform, inst) svc" where
  "request_stop wd i now =
     svc_bind (on_inst (set_desired_state i DesStopped now)) (\<lambda>x.
     svc_bind (enqueue_corrective wd x (in_gen x) ActStop now) (\<lambda>_. svc_ret x))"

definition reset_placement :: "ident \<Rightarrow> worker_requirements \<Rightarrow> reservation_item list \<Rightarrow> instant \<Rightarrow> instant \<Rightarrow> placement" where
  "reset_placement i req items expires now = \<lparr>pl_req = req, pl_id = i, pl_items = items,
     pl_expires = expires, pl_now = now, pl_units = 1, pl_ceilings = [], pl_comp = None,
     pl_team = None, pl_chal = None, pl_image = None, pl_max_age = default_max_age,
     pl_limit = candidate_limit\<rparr>"

definition reestablish_hold ::
    "world \<Rightarrow> instant \<Rightarrow> ident \<Rightarrow> instant \<Rightarrow> instant \<Rightarrow> worker_requirements option
       \<Rightarrow> reservation_item list \<Rightarrow> (quotadb, unit) svc" where
  "reestablish_hold wd created i expires now req items =
     svc_catch (svc_renew i expires) (\<lambda>e.
       if e \<noteq> LookupError then svc_raise e
       else svc_bind (get_reservation i) (\<lambda>r. case r of
           Some _ \<Rightarrow> svc_bind (svc_reactivate i expires) (\<lambda>_. svc_ret ())
         | None \<Rightarrow> (case req of
               Some w \<Rightarrow> svc_bind (select_and_reserve (wd_fleet wd) created
                 (reset_placement i w items expires now)) (\<lambda>_. svc_ret ())
             | None \<Rightarrow> svc_ret ())))"

definition request_reset ::
    "world \<Rightarrow> ident \<Rightarrow> instant \<Rightarrow> instant \<Rightarrow> worker_requirements option \<Rightarrow> reservation_item list
       \<Rightarrow> (platform, inst) svc" where
  "request_reset wd i expires now req items =
     svc_bind (on_inst (bump_generation i now)) (\<lambda>x.
     svc_bind draw (\<lambda>n.
     svc_bind (on_quota (reestablish_hold wd (wd_clock wd n) i expires now req items)) (\<lambda>_.
     svc_bind (enqueue_corrective wd x (in_gen x) ActLaunch now) (\<lambda>_. svc_ret x))))"

definition request_delete :: "ident \<Rightarrow> instant \<Rightarrow> (platform, inst) svc" where
  "request_delete i now = on_inst (
     tx_bind (get_instance i) (\<lambda>current. case current of
       None \<Rightarrow> tx_raise LookupError
     | Some x \<Rightarrow> if inst_terminal x then tx_ret x else set_desired_state i DesDeleted now))"

definition expire_block :: "ident \<Rightarrow> instant \<Rightarrow> (instdb, inst \<times> bool) tx" where
  "expire_block i now =
     tx_bind (get_instance i) (\<lambda>current. case current of
       None \<Rightarrow> tx_raise LookupError
     | Some x \<Rightarrow>
         if in_state x = IExpired then tx_ret (x, True)
         else if \<not> can_transition_to x IExpired then tx_raise ValueError
         else tx_bind (transition_instance i IExpired ''ttl expired'' BySystem now) (\<lambda>y. tx_ret (y, False)))"

definition expire :: "world \<Rightarrow> ident \<Rightarrow> instant \<Rightarrow> (platform, inst) svc" where
  "expire wd i now =
     svc_bind (on_inst (expire_block i now)) (\<lambda>(x, already).
       if already then svc_ret x
       else svc_bind (on_quota (svc_release i now)) (\<lambda>_.
         svc_bind (enqueue_corrective wd x (in_gen x) ActExpire now) (\<lambda>_. svc_ret x)))"

definition renew_lease :: "ident \<Rightarrow> instant \<Rightarrow> instant \<Rightarrow> (platform, inst) svc" where
  "renew_lease i expires now =
     svc_bind (on_quota (svc_renew i expires)) (\<lambda>_.
       on_inst (set_runtime_facts i now None None (Some expires)))"

section \<open>Reported facts and reads\<close>

definition svc_record_observation :: "world \<Rightarrow> health_observation \<Rightarrow> (platform, health_observation) svc" where
  "svc_record_observation wd ob =
     svc_bind draw (\<lambda>n. on_inst (append_observation (wd_cat wd) (wd_uuid wd n) (wd_clock wd n) ob))"

definition svc_record_endpoint :: "world \<Rightarrow> endpoint \<Rightarrow> (platform, unit) svc" where
  "svc_record_endpoint wd e = svc_bind draw (\<lambda>n. on_inst (record_endpoint (wd_clock wd n) e))"

definition svc_record_resource :: "world \<Rightarrow> runtime_resource \<Rightarrow> (platform, unit) svc" where
  "svc_record_resource wd r =
     svc_bind draw (\<lambda>n. on_inst (record_runtime_resource (wd_cat wd) (wd_clock wd n) r))"

definition svc_record_credential :: "instance_credential \<Rightarrow> (platform, unit) svc" where
  "svc_record_credential c = on_inst (record_credential c)"

definition svc_set_assignment :: "world \<Rightarrow> ident \<Rightarrow> string option \<Rightarrow> instant \<Rightarrow> (platform, inst) svc" where
  "svc_set_assignment wd i w now = on_inst (set_assignment (wd_cat wd) i w now)"

definition svc_get_instance :: "ident \<Rightarrow> (platform, inst option) svc" where
  "svc_get_instance i = on_inst (get_instance i)"

definition list_instances :: "world \<Rightarrow> string option \<Rightarrow> (platform, inst list) svc" where
  "list_instances wd c = on_inst (case c of
      Some slug \<Rightarrow> list_for_competition (wd_cat wd) slug | None \<Rightarrow> list_all_instances)"

definition get_operator_view ::
    "ident \<Rightarrow> (platform, (inst \<times> endpoint list \<times> health_observation option) option) svc" where
  "get_operator_view i = on_inst (
     tx_bind (get_instance i) (\<lambda>x. case x of
       None \<Rightarrow> tx_ret None
     | Some instance_row \<Rightarrow>
         tx_bind (list_endpoints i) (\<lambda>es.
         tx_bind (latest_observation i) (\<lambda>h.
           tx_ret (Some (instance_row, filter (\<lambda>e. \<not> ep_internal e) es, h))))))"

end
