(* ===== verification/Corrective_Keys.thy ===== *)
theory Corrective_Keys
  imports Instance_Service
begin

text \<open>
  The idempotency keys of corrective jobs identify the instance, the generation and the action: the
  text of a uuid and of an integer have no colon and are injective.
\<close>

definition unhex :: "char \<Rightarrow> nat" where
  "unhex c = (if of_char c < (58 :: nat) then of_char c - 48 else of_char c - 87)"

lemma unhex_digit: "d < 16 \<Longrightarrow> unhex (hex_digit d) = d"
  by (auto simp: unhex_def hex_digit_def of_char_of)

lemma hex_digit_char: "d < 16 \<Longrightarrow> hex_digit d \<noteq> CHR '':''"
  by (auto simp: hex_digit_def of_char_of dest!: arg_cong [where f = "of_char :: char \<Rightarrow> nat"])

definition unhexes :: "nat \<Rightarrow> string \<Rightarrow> nat" where
  "unhexes acc s = foldl (\<lambda>a c. 16 * a + unhex c) acc s"

lemma unhexes_append: "unhexes acc (s @ t) = unhexes (unhexes acc s) t"
  by (simp add: unhexes_def)

lemma unhexes_hex_digits: "unhexes 0 (hex_digits n) = n"
proof (induction n rule: hex_digits.induct)
  case (1 n)
  show ?case
  proof (cases "n < 16")
    case True
    then show ?thesis using unhex_digit [OF True] by (simp add: hex_digits.simps [of n] unhexes_def)
  next
    case False
    have "unhex (hex_digit (n mod 16)) = n mod 16" by (rule unhex_digit) simp
    then show ?thesis
      using 1 False by (simp add: hex_digits.simps [of n] unhexes_append unhexes_def [of _ "[_]"])
  qed
qed

lemma unhexes_zeros: "unhexes 0 (replicate k (CHR ''0'') @ s) = unhexes 0 s"
proof -
  have "unhexes 0 (replicate k (CHR ''0'')) = 0"
    by (induction k) (simp_all add: unhexes_def unhex_def)
  then show ?thesis by (simp add: unhexes_append)
qed

lemma uuid_hex_inj: "uuid_hex m = uuid_hex n \<longleftrightarrow> m = n"
  by (metis uuid_hex_def unhexes_zeros unhexes_hex_digits)

lemma uuid_hex_length: "32 \<le> length (uuid_hex n)"
  by (simp add: uuid_hex_def Let_def)

text \<open>The groups of a uuid can be read back off its text.\<close>

definition ungroup :: "string \<Rightarrow> string" where
  "ungroup t = take 8 t @ take 4 (drop 9 t) @ take 4 (drop 14 t) @ take 4 (drop 19 t) @ drop 24 t"

lemma groups_length:
  fixes h :: string
  assumes "32 \<le> length h"
  shows "length (take 8 h) = 8" "length (take 4 (drop 8 h)) = 4" "length (take 4 (drop 12 h)) = 4"
    "length (take 4 (drop 16 h)) = 4"
  using assms by auto

lemma regroup: "take k (drop n h) @ drop (k + n) h = drop n h"
  by (metis append_take_drop_id drop_drop)

lemma ungroup_uuid_text: "ungroup (uuid_text n) = uuid_hex n"
proof -
  let ?h = "uuid_hex n"
  note len = groups_length [OF uuid_hex_length [of n]]
  have "ungroup (uuid_text n) = take 8 ?h @ take 4 (drop 8 ?h) @ take 4 (drop 12 ?h) @ take 4 (drop 16 ?h) @ drop 20 ?h"
    using len by (simp add: ungroup_def uuid_text_def Let_def)
  also have "\<dots> = ?h"
    using regroup [of 4 16 ?h] regroup [of 4 12 ?h] regroup [of 4 8 ?h] by simp
  finally show ?thesis .
qed

lemma uuid_text_inj: "uuid_text m = uuid_text n \<longleftrightarrow> m = n"
  by (metis ungroup_uuid_text uuid_hex_inj)

lemma hex_digits_chars: "c \<in> set (hex_digits n) \<Longrightarrow> c \<noteq> CHR '':''"
proof (induction n rule: hex_digits.induct)
  case (1 n)
  then show ?case
    using hex_digit_char [of n] hex_digit_char [of "n mod 16"]
    by (cases "n < 16") (auto simp: hex_digits.simps [of n])
qed

lemma uuid_text_chars: "c \<in> set (uuid_text n) \<Longrightarrow> c \<noteq> CHR '':''"
proof -
  assume "c \<in> set (uuid_text n)"
  then have "c \<in> set (uuid_hex n) \<union> {CHR ''-''}"
    by (auto simp: uuid_text_def Let_def dest: in_set_takeD in_set_dropD)
  then show ?thesis using hex_digits_chars by (auto simp: uuid_hex_def Let_def)
qed

lemma py_str_int_chars: "c \<in> set (py_str_int g) \<Longrightarrow> c \<noteq> CHR '':''"
proof -
  assume "c \<in> set (py_str_int g)"
  then have "c = CHR ''-'' \<or> c \<in> set (digits10 (nat g)) \<or> c \<in> set (digits10 (nat (- g)))"
    by (auto simp: py_str_int_def split: if_splits)
  then show ?thesis by (auto dest: digits10_chars)
qed

lemma py_str_int_inj: "0 \<le> g \<Longrightarrow> 0 \<le> h \<Longrightarrow> py_str_int g = py_str_int h \<longleftrightarrow> g = h"
  by (auto simp: py_str_int_def digits10_inj)

lemma split_at_char:
  assumes "c \<notin> set xs" and "c \<notin> set ys" and "xs @ c # zs = ys @ c # ws"
  shows "xs = ys \<and> zs = ws"
  using assms
proof (induction xs arbitrary: ys)
  case Nil
  then show ?case by (cases ys) auto
next
  case (Cons x xs)
  then show ?case by (cases ys) auto
qed

lemma action_name_inj: "action_name a = action_name b \<longleftrightarrow> a = b"
  by (cases a; cases b) simp_all

lemma corrective_key_inj:
  assumes "0 \<le> g" and "0 \<le> g'"
  shows "corrective_idempotency_key (Uid k) g a = corrective_idempotency_key (Uid k') g' a' \<longleftrightarrow>
    k = k' \<and> g = g' \<and> a = a'"
proof
  assume eq: "corrective_idempotency_key (Uid k) g a = corrective_idempotency_key (Uid k') g' a'"
  have "uuid_text k @ CHR '':'' # (''gen'' @ py_str_int g @ '':'' @ action_name a)
      = uuid_text k' @ CHR '':'' # (''gen'' @ py_str_int g' @ '':'' @ action_name a')"
    using eq by (simp add: corrective_idempotency_key_def)
  from split_at_char [OF _ _ this]
  have u: "uuid_text k = uuid_text k'" and r: "py_str_int g @ CHR '':'' # action_name a = py_str_int g' @ CHR '':'' # action_name a'"
    using uuid_text_chars by auto
  from split_at_char [OF _ _ r] have "py_str_int g = py_str_int g' \<and> action_name a = action_name a'"
    using py_str_int_chars by auto
  then show "k = k' \<and> g = g' \<and> a = a'"
    using u uuid_text_inj py_str_int_inj [OF assms] action_name_inj by blast
qed simp

end
