(* ===== verification/Job_Identity.thy ===== *)
theory Job_Identity
  imports Job_Service
begin

text \<open>
  What a job is never changes: no call of the queue alters a stored job's id, type, payload, key,
  capability set or parents, and no call removes a job.
\<close>

definition job_ident :: "job_row \<Rightarrow> (nat \<times> job_type \<times> (string \<times> json) list \<times> string \<times> instant)
    \<times> string list \<times> string option \<times> (string \<times> int) option" where
  "job_ident r = (immutable_cols r, r_caps r, r_comp r, r_version r)"

lemma job_identD: "job_ident a = job_ident b \<Longrightarrow> r_id a = r_id b \<and> r_key a = r_key b"
  by (simp add: job_ident_def immutable_cols_def)

lemma updated_ident:
  "job_ident (claimed_row t w ls now row) = job_ident row"
  "job_ident (row\<lparr>r_status := st, r_started := sa\<rparr>) = job_ident row"
  "job_ident (row\<lparr>r_lease := le, r_heartbeat := h\<rparr>) = job_ident row"
  "job_ident (clear_lease (row\<lparr>r_status := st, r_finished := fi, r_result_json := rj, r_result_ref := rr, r_log_ref := lr\<rparr>)) = job_ident row"
  "job_ident (requeued_row now ec d row) = job_ident row"
  "job_ident (failed_row now ec d rt row) = job_ident row"
  "job_ident (cancelled_row now row) = job_ident row"
  "job_ident (retried_row now row) = job_ident row"
  by (simp_all add: job_ident_def immutable_cols_def claimed_row_def clear_lease_def requeued_row_def
      failed_row_def cancelled_row_def retried_row_def Let_def)

definition jobs_kept :: "jobdb \<Rightarrow> jobdb \<Rightarrow> bool" where
  "jobs_kept db db' \<longleftrightarrow> map job_ident (jd_jobs db') = map job_ident (jd_jobs db)"

lemma writes_kept:
  "jobdb_ok db \<Longrightarrow> writes db old new db' \<Longrightarrow> job_ident new = job_ident old \<Longrightarrow> jobs_kept db db'"
  unfolding jobs_kept_def writes_def by (auto intro: map_put_row_same_col [OF jobdb_okD(1)])

text \<open>The calls a worker or an operator makes on jobs that exist.\<close>

fun worker_call :: "job_call \<Rightarrow> bool" where
  "worker_call (CallEnqueue _ _ _) = False"
| "worker_call _ = True"

lemma run_call_kept:
  assumes ok: "jobdb_ok db" and w: "worker_call c" and run: "run_call cat c db = Inr (u, db')"
  shows "jobs_kept db db'"
proof (cases c)
  case (CallClaim skip token w caps ls now)
  then obtain r where "claim skip token w caps ls now db = Inr (r, db')" using run by (auto simp: tx_void_iff)
  from claim_effect [OF ok this] show ?thesis
    by (elim disjE exE conjE) (simp_all add: jobs_kept_def [of db db], rule writes_kept [OF ok], assumption,
      rule updated_ident)
next
  case (CallStart i l now)
  then have "start_job i l now db = Inr (u, db')" using run by simp
  from start_effect [OF ok this] show ?thesis using writes_kept [OF ok _ updated_ident(2)] by blast
next
  case (CallHeartbeat i l ls now)
  then obtain b where "heartbeat i l ls now db = Inr (b, db')" using run by (auto simp: tx_void_iff)
  from heartbeat_effect [OF ok this] show ?thesis using writes_kept [OF ok _ updated_ident(3)] by blast
next
  case (CallComplete i l rj rr lr now)
  then have "complete_job i l rj rr lr now db = Inr (u, db')" using run by simp
  from complete_effect [OF ok this] show ?thesis using writes_kept [OF ok _ updated_ident(4)] by blast
next
  case (CallFail i l err d rt now)
  then obtain j where "fail_job i l err d rt now db = Inr (j, db')" using run by (auto simp: tx_void_iff)
  from fail_effect [OF ok this] show ?thesis using writes_kept [OF ok _ updated_ident(6)] by blast
next
  case (CallCancel i now)
  then obtain j where "request_cancel i now db = Inr (j, db')" using run by (auto simp: tx_void_iff)
  from cancel_effect [OF ok this] show ?thesis using writes_kept [OF ok _ updated_ident(7)] by blast
next
  case (CallReap skip now limit)
  then obtain js where "reap_expired skip now limit db = Inr (js, db')" using run by (auto simp: tx_void_iff)
  from reap_effect [OF ok this] show ?thesis
    by (simp add: jobs_kept_def requeue_all_def updated_ident(5) comp_def)
next
  case (CallRetry i now)
  then obtain j where "retry_dead_letter i now db = Inr (j, db')" using run by (auto simp: tx_void_iff)
  from retry_effect [OF ok this] show ?thesis using writes_kept [OF ok _ updated_ident(8)] by blast
qed (use w in simp)

lemma jobs_kept_row:
  assumes "jobs_kept db db'" and "r' \<in> set (jd_jobs db')"
  obtains r where "r \<in> set (jd_jobs db)" and "job_ident r' = job_ident r"
proof -
  have "set (map job_ident (jd_jobs db')) = set (map job_ident (jd_jobs db))"
    using assms(1) by (simp only: jobs_kept_def)
  then have "job_ident r' \<in> job_ident ` set (jd_jobs db)" using assms(2) by auto
  then show ?thesis using that by blast
qed

end
