(* ===== verification/Instance_Platform.thy ===== *)
theory Instance_Platform
  imports Corrective_Keys Job_Identity Quota_Theorems
begin

text \<open>
  The invariant of the composed platform and the composition rules for calls on it: each store is
  well formed, every hold belongs to an instance that is not archived, every job under an
  \<open>instance:\<close> key is the corrective job of an existing instance at a generation it has reached, and
  job ids are drawn uuids. Along any call the instance store only grows and no job is lost.
\<close>

section \<open>The invariant\<close>

definition row_refs :: "catalog \<Rightarrow> inst_row \<Rightarrow> bool" where
  "row_refs cat r \<longleftrightarrow> i_comp r \<in> set (cat_competitions cat) \<and> i_version r \<in> set (cat_versions cat)"

definition is_corrective_key :: "string \<Rightarrow> bool" where
  "is_corrective_key k \<longleftrightarrow> take 9 k = ''instance:''"

definition corrective_payload :: "ident \<Rightarrow> int \<Rightarrow> lifecycle_action \<Rightarrow> (string \<times> json) list" where
  "corrective_payload i g a = [(''instance_id'', JStr (ident_text i)), (''generation'', JInt g),
     (''action'', JStr (action_name a))]"

definition corrective_row :: "instdb \<Rightarrow> job_row \<Rightarrow> bool" where
  "corrective_row db r \<longleftrightarrow> (\<exists>x \<in> set (nd_rows db). \<exists>g a. 1 \<le> g \<and> g \<le> i_gen x
     \<and> r_key r = corrective_idempotency_key (Uid (i_id x)) g a
     \<and> r_type r = instance_action_job_types a \<and> r_payload r = corrective_payload (Uid (i_id x)) g a
     \<and> r_caps r = [job_type_name (instance_action_job_types a)])"

definition holds_live :: "platform \<Rightarrow> bool" where
  "holds_live p \<longleftrightarrow> (\<forall>k. is_held (p_quota p) k
     \<longrightarrow> (\<exists>r \<in> set (nd_rows (p_inst p)). i_id r = k \<and> i_state r \<noteq> IArchived))"

definition jobs_owned :: "world \<Rightarrow> platform \<Rightarrow> bool" where
  "jobs_owned wd p \<longleftrightarrow> (\<forall>r \<in> set (jd_jobs (p_jobs p)). (\<exists>m < p_draws p. r_id r = wd_uuid wd m)
     \<and> (is_corrective_key (r_key r) \<longrightarrow> corrective_row (p_inst p) r))"

definition platform_ok :: "world \<Rightarrow> platform \<Rightarrow> bool" where
  "platform_ok wd p \<longleftrightarrow> jobdb_ok (p_jobs p) \<and> quotadb_ok (p_quota p) \<and> instdb_ok (p_inst p)
     \<and> (\<forall>r \<in> set (nd_rows (p_inst p)). row_refs (wd_cat wd) r) \<and> jobs_owned wd p \<and> holds_live p
     \<and> inj (wd_uuid wd)"

definition jobs_ext :: "jobdb \<Rightarrow> jobdb \<Rightarrow> bool" where
  "jobs_ext db db' \<longleftrightarrow> (\<exists>js. map job_ident (jd_jobs db') = map job_ident (jd_jobs db) @ js)"

definition platform_grows :: "platform \<Rightarrow> platform \<Rightarrow> bool" where
  "platform_grows p p' \<longleftrightarrow> inst_grows (p_inst p) (p_inst p') \<and> jobs_ext (p_jobs p) (p_jobs p')
     \<and> p_draws p \<le> p_draws p'"

lemma jobs_ext_refl [simp]: "jobs_ext db db"
  by (simp add: jobs_ext_def)

lemma jobs_ext_trans: "jobs_ext a b \<Longrightarrow> jobs_ext b c \<Longrightarrow> jobs_ext a c"
  by (auto simp: jobs_ext_def)

lemma kept_ext: "jobs_kept db db' \<Longrightarrow> jobs_ext db db'"
  by (simp add: jobs_kept_def jobs_ext_def)

lemma platform_grows_refl [simp]: "platform_grows p p"
  by (simp add: platform_grows_def inst_grows_refl)

lemma platform_grows_trans: "platform_grows a b \<Longrightarrow> platform_grows b c \<Longrightarrow> platform_grows a c"
  unfolding platform_grows_def by (meson inst_grows_trans jobs_ext_trans order_trans)

interpretation plat: evolution "platform_ok wd" platform_grows for wd
  by unfold_locales (auto intro: platform_grows_trans)

lemma platform_okD:
  assumes "platform_ok wd p"
  shows "jobdb_ok (p_jobs p)" "quotadb_ok (p_quota p)" "instdb_ok (p_inst p)" "jobs_owned wd p" "holds_live p"
    "inj (wd_uuid wd)" "r \<in> set (nd_rows (p_inst p)) \<Longrightarrow> row_refs (wd_cat wd) r"
  using assms by (auto simp: platform_ok_def)

lemma empty_platform_ok: "inj (wd_uuid wd) \<Longrightarrow> platform_ok wd empty_platform"
  by (simp add: platform_ok_def empty_platform_def empty_jobdb_ok empty_quotadb_ok empty_instdb_ok
      jobs_owned_def holds_live_def)
    (simp add: empty_jobdb_def empty_instdb_def empty_quotadb_def is_held_def)

section \<open>Lifting calls on one store\<close>

lemma on_inst_eq:
  "on_inst m p = (case m (p_inst p) of Inl e \<Rightarrow> (Inl e, p) | Inr (x, d) \<Rightarrow> (Inr x, p\<lparr>p_inst := d\<rparr>))"
  by (simp add: on_inst_def svc_on_def session_scope_def split: sum.splits prod.splits)

lemma on_quota_eq: "on_quota m p = (fst (m (p_quota p)), p\<lparr>p_quota := snd (m (p_quota p))\<rparr>)"
  by (simp add: on_quota_def svc_on_def split: prod.splits)

lemma on_jobs_eq: "on_jobs m p = (fst (m (p_jobs p)), p\<lparr>p_jobs := snd (m (p_jobs p))\<rparr>)"
  by (simp add: on_jobs_def svc_on_def split: prod.splits)

lemma same_field [simp]:
  "p\<lparr>p_inst := p_inst p\<rparr> = p" "p\<lparr>p_quota := p_quota p\<rparr> = p" "p\<lparr>p_jobs := p_jobs p\<rparr> = p"
  by simp_all

lemma corrective_row_grows:
  assumes c: "corrective_row a j" and g: "inst_grows a b"
  shows "corrective_row b j"
proof -
  obtain x ge act where x: "x \<in> set (nd_rows a)" "1 \<le> ge" "ge \<le> i_gen x"
    "r_key j = corrective_idempotency_key (Uid (i_id x)) ge act"
    "r_type j = instance_action_job_types act" "r_payload j = corrective_payload (Uid (i_id x)) ge act"
    "r_caps j = [job_type_name (instance_action_job_types act)]"
    using c unfolding corrective_row_def by blast
  obtain x' where "x' \<in> set (nd_rows b)" "row_grows x x'" by (rule inst_grows_row [OF g x(1)])
  then show ?thesis
    using x unfolding corrective_row_def
    by (intro bexI [of _ x'] exI [of _ ge] exI [of _ act]) (auto simp: row_grows_def)
qed

text \<open>Drawing a uuid.\<close>

lemma jobs_owned_draw: "jobs_owned wd p \<Longrightarrow> jobs_owned wd (p\<lparr>p_draws := Suc (p_draws p)\<rparr>)"
  by (auto simp: jobs_owned_def intro: less_SucI)

definition drawn :: "nat \<Rightarrow> platform \<Rightarrow> bool" where
  "drawn n p \<longleftrightarrow> n < p_draws p"

lemma run_draw: "svc_run (platform_ok wd) platform_grows (\<lambda>_. True) draw (\<lambda>n p. p_draws p = Suc n)"
  by (rule svc_runI)
    (auto simp: draw_def platform_ok_def platform_grows_def inst_grows_refl holds_live_def
      intro: jobs_owned_draw)

text \<open>The quota ledger: what a call may newly hold.\<close>

definition may_hold :: "(nat \<Rightarrow> bool) \<Rightarrow> (quotadb, 'a) svc \<Rightarrow> bool" where
  "may_hold K m \<longleftrightarrow> (\<forall>db. quotadb_ok db \<longrightarrow> quotadb_ok (snd (m db))
     \<and> (\<forall>k. is_held (snd (m db)) k \<longrightarrow> is_held db k \<or> K k))"

definition live_id :: "nat \<Rightarrow> platform \<Rightarrow> bool" where
  "live_id k p \<longleftrightarrow> (\<exists>r \<in> set (nd_rows (p_inst p)). i_id r = k \<and> i_state r \<noteq> IArchived)"

lemma run_quota:
  assumes "may_hold K m"
  shows "svc_run (platform_ok wd) platform_grows (\<lambda>p. \<forall>k. K k \<longrightarrow> live_id k p) (on_quota m)
    (\<lambda>x p. True)"
proof (rule svc_runI)
  fix p assume ok: "platform_ok wd p" and K: "\<forall>k. K k \<longrightarrow> live_id k p"
  let ?q = "snd (m (p_quota p))"
  have "quotadb_ok ?q" "\<forall>k. is_held ?q k \<longrightarrow> is_held (p_quota p) k \<or> K k"
    using assms platform_okD(2) [OF ok] by (auto simp: may_hold_def)
  moreover from this(2) have "holds_live (p\<lparr>p_quota := ?q\<rparr>)"
    using platform_okD(5) [OF ok] K by (auto simp: holds_live_def live_id_def)
  moreover have "jobs_owned wd (p\<lparr>p_quota := ?q\<rparr>)" using platform_okD(4) [OF ok] by (simp add: jobs_owned_def)
  ultimately show "platform_ok wd (snd (on_quota m p)) \<and> platform_grows p (snd (on_quota m p))
      \<and> (\<forall>x. fst (on_quota m p) = Inr x \<longrightarrow> True)"
    using ok by (simp add: on_quota_eq platform_ok_def platform_grows_def inst_grows_refl)
qed

lemma release_may_hold: "may_hold (\<lambda>_. False) (svc_release i now)"
proof (cases i)
  case (Uid k)
  then show ?thesis by (auto simp: may_hold_def ledger.free_outcome)
next
  case (Malformed s)
  then show ?thesis by (auto simp: may_hold_def svc_release_def session_scope_def release_eq)
qed

lemma renew_may_hold: "may_hold (\<lambda>_. False) (svc_renew i t)"
  unfolding may_hold_def
proof (intro allI impI conjI)
  fix db assume ok: "quotadb_ok db"
  note shape = quotadb_okD(1) [OF ok]
  have step: "quotadb_ok db' \<and> (\<forall>k. is_held db' k = is_held db k)" if "renew i t db = Inr ((), db')" for db'
    using that renewed_facts [OF ok] find_hold_Some [OF ledger_shapeD(2) [OF shape]]
    by (auto simp: renew_eq [OF shape] split: option.splits if_splits)
  show "quotadb_ok (snd (svc_renew i t db))"
    using ok step by (auto simp: svc_renew_def session_scope_def split: sum.splits)
  fix k assume "is_held (snd (svc_renew i t db)) k"
  then show "is_held db k \<or> False"
    using step by (auto simp: svc_renew_def session_scope_def split: sum.splits)
qed

lemma reactivate_may_hold: "may_hold (\<lambda>k. i = Uid k) (svc_reactivate i t)"
  unfolding may_hold_def
proof (intro allI impI conjI)
  fix db assume ok: "quotadb_ok db"
  have step: "quotadb_ok db' \<and> (\<forall>k. is_held db' k \<longrightarrow> is_held db k \<or> i = Uid k)"
    if "reactivate i t db = Inr (r, db')" for r db'
    using reactivate_returns [OF ok that] by auto
  show "quotadb_ok (snd (svc_reactivate i t db))"
    using ok step by (auto simp: svc_reactivate_def session_scope_def split: sum.splits)
  fix k assume "is_held (snd (svc_reactivate i t db)) k"
  then show "is_held db k \<or> i = Uid k"
    using step by (fastforce simp: svc_reactivate_def session_scope_def split: sum.splits)
qed

lemma select_may_hold:
  assumes p: "placement_ok pl"
  shows "may_hold (\<lambda>k. pl_id pl = Uid k) (select_and_reserve fl created pl)"
  unfolding may_hold_def
proof (intro allI impI)
  fix db assume ok: "quotadb_ok db"
  obtain out db' where run: "select_and_reserve fl created pl db = (out, db')"
    by (cases "select_and_reserve fl created pl db")
  show "quotadb_ok (snd (select_and_reserve fl created pl db))
      \<and> (\<forall>k. is_held (snd (select_and_reserve fl created pl db)) k \<longrightarrow> is_held db k \<or> pl_id pl = Uid k)"
  proof (cases "pl_id pl")
    case (Uid k)
    from select_and_reserve_outcome [OF ok p Uid run] ok Uid show ?thesis by (cases out) (auto simp: run)
  next
    case (Malformed s)
    then show ?thesis using select_malformed [OF ok p Malformed] ok by simp
  qed
qed

lemma release_each_holds: "quotadb_ok db \<Longrightarrow> is_held (snd (release_each rs now db)) k \<Longrightarrow> is_held db k"
proof (induction rs arbitrary: db)
  case Nil
  then show ?case by (simp add: svc_ret_def)
next
  case (Cons r rs)
  obtain o1 d1 where r1: "svc_release (rv_id r) now db = (o1, d1)" by (cases "svc_release (rv_id r) now db")
  have d1: "quotadb_ok d1" "is_held d1 k \<Longrightarrow> is_held db k"
    using release_may_hold [of "rv_id r" now] Cons.prems(1) r1 by (auto simp: may_hold_def dest!: spec [of _ db])
  obtain o2 d2 where r2: "release_each rs now d1 = (o2, d2)" by (cases "release_each rs now d1")
  show ?case
    using Cons.prems(2) Cons.IH [OF d1(1)] d1(2) r1 r2
    by (auto simp: svc_bind_def svc_ret_def split: sum.splits if_splits)
qed

lemma sweep_may_hold: "may_hold (\<lambda>_. False) (release_expired now limit)"
  unfolding may_hold_def
proof (intro allI impI conjI)
  fix db assume ok: "quotadb_ok db"
  show "quotadb_ok (snd (release_expired now limit db))"
    using ok release_each_ok [OF ok] list_expired_state [of now limit db]
    by (auto simp: release_expired_def svc_bind_def session_scope_def split: sum.splits prod.splits)
  fix k assume "is_held (snd (release_expired now limit db)) k"
  then show "is_held db k \<or> False"
    using release_each_holds [OF ok] list_expired_state [of now limit db]
    by (fastforce simp: release_expired_def svc_bind_def session_scope_def split: sum.splits prod.splits)
qed

end
