(* ===== verification/Instance_Calls.thy ===== *)
theory Instance_Calls
  imports Instance_Platform
begin

text \<open>
  Every call of the lifecycle service, of the workers on the job queue and of the scheduler keeps the
  platform invariant and lets the platform grow only. Writes that archive nothing are calm; a
  transition that frees capacity is shown to release the hold before the call ends.
\<close>

section \<open>Calm writes: nothing is archived, new rows have their parents\<close>

definition calm :: "catalog \<Rightarrow> instdb \<Rightarrow> instdb \<Rightarrow> bool" where
  "calm cat db db' \<longleftrightarrow> inst_grows db db' \<and> (\<forall>r' \<in> set (nd_rows db').
     (\<exists>r \<in> set (nd_rows db). row_grows r r' \<and> (i_state r' = IArchived \<longrightarrow> i_state r = IArchived))
     \<or> (row_refs cat r' \<and> i_state r' \<noteq> IArchived))"

lemma calm_same: "inst_grows db db' \<Longrightarrow> nd_rows db' = nd_rows db \<Longrightarrow> calm cat db db'"
  unfolding calm_def using row_grows_refl by metis

lemma row_refs_grow: "row_grows r r' \<Longrightarrow> row_refs cat r' = row_refs cat r"
  by (simp add: row_grows_def row_refs_def)

lemma calm_trans:
  assumes "calm cat a b" and "calm cat b c"
  shows "calm cat a c"
  unfolding calm_def
proof (intro conjI ballI)
  show "inst_grows a c" using assms inst_grows_trans unfolding calm_def by blast
  fix r'' assume "r'' \<in> set (nd_rows c)"
  then consider r' where "r' \<in> set (nd_rows b)" "row_grows r' r''" "i_state r'' = IArchived \<longrightarrow> i_state r' = IArchived"
    | "row_refs cat r''" "i_state r'' \<noteq> IArchived"
    using assms(2) unfolding calm_def by blast
  then show "(\<exists>r \<in> set (nd_rows a). row_grows r r'' \<and> (i_state r'' = IArchived \<longrightarrow> i_state r = IArchived))
      \<or> (row_refs cat r'' \<and> i_state r'' \<noteq> IArchived)"
  proof cases
    case (1 r')
    then consider r where "r \<in> set (nd_rows a)" "row_grows r r'" "i_state r' = IArchived \<longrightarrow> i_state r = IArchived"
      | "row_refs cat r'" "i_state r' \<noteq> IArchived"
      using assms(1) unfolding calm_def by blast
    then show ?thesis
    proof cases
      case (1 r)
      then show ?thesis using \<open>row_grows r' r''\<close> \<open>i_state r'' = IArchived \<longrightarrow> i_state r' = IArchived\<close>
          row_grows_trans by blast
    next
      case 2
      then show ?thesis using \<open>row_grows r' r''\<close> \<open>i_state r'' = IArchived \<longrightarrow> i_state r' = IArchived\<close>
        by (simp add: row_refs_grow)
    qed
  qed simp
qed

interpretation calm_ev: evolution instdb_ok "calm cat" for cat
  by unfold_locales (auto intro: calm_same inst_grows_refl calm_trans)

lemma calm_row:
  assumes ok: "instdb_ok db" and r: "r \<in> set (nd_rows db)" and g: "row_grows r new"
    and st: "i_state new = IArchived \<longrightarrow> i_state r = IArchived"
    and db': "inst_grows db db'" "nd_rows db' = nd_rows (with_row new db)"
  shows "calm cat db db'"
proof -
  have id: "i_id new = i_id r" using g by (simp add: row_grows_def)
  have "\<exists>x \<in> set (nd_rows db). row_grows x r' \<and> (i_state r' = IArchived \<longrightarrow> i_state x = IArchived)"
    if "r' \<in> set (nd_rows db')" for r'
  proof (cases "r' = new")
    case True
    then show ?thesis using r g st by blast
  next
    case False
    then have "r' \<in> set (nd_rows db)" using that db'(2) rows_with_row [OF ok r id] by auto
    then show ?thesis using row_grows_refl by blast
  qed
  then show ?thesis using db'(1) by (simp add: calm_def)
qed

lemma updates_row_calm:
  assumes ok: "instdb_ok db" and f: "field_fun f" and run: "updates_row i f db = Inr (x, db')"
  shows "instdb_ok db' \<and> calm cat db db'"
proof -
  obtain r where r: "find_inst i db = Some r" and up: "field_update r (f r) db = Inr (x, db')"
    using run by (auto simp: updates_row_def split: option.splits)
  have row: "r \<in> set (nd_rows db)" using find_inst_Some [OF ok] r by blast
  have db': "db' = with_row (f r) db" "f r = r \<or> i_state r \<noteq> IArchived"
    using up by (auto simp: field_update_def split: if_splits sum.splits)
  have g: "row_grows r (f r)" "i_state (f r) = i_state r"
    using f db'(2) by (auto simp: field_fun_def row_grows_def same_identity_def)
  have ev: "instdb_ok db' \<and> inst_grows db db'" by (rule updates_row_ok [OF ok f run])
  moreover have "calm cat db db'"
    by (rule calm_row [OF ok row g(1)]) (use ev g(2) db'(1) in simp_all)
  ultimately show ?thesis by blast
qed

lemma field_ops_calm:
  "tx_grows instdb_ok (calm cat') (set_desired_state i d now)"
  "tx_grows instdb_ok (calm cat') (bump_generation i now)"
  "tx_grows instdb_ok (calm cat') (set_runtime_facts i now img seed expires)"
  "tx_grows instdb_ok (calm cat') (set_assignment cat i w now)"
proof -
  note up = updates_row_calm
  show "tx_grows instdb_ok (calm cat') (set_desired_state i d now)"
    by (rule tx_growsI, rule up [where f = "\<lambda>r. r\<lparr>i_desired := d, i_updated := now\<rparr>"])
      (simp_all add: set_desired_state_eq field_fun_def same_identity_def)
  show "tx_grows instdb_ok (calm cat') (bump_generation i now)"
    by (rule tx_growsI, rule up [where f = "\<lambda>r. r\<lparr>i_gen := i_gen r + 1, i_updated := now\<rparr>"])
      (simp_all add: bump_generation_eq field_fun_def same_identity_def)
  show "tx_grows instdb_ok (calm cat') (set_runtime_facts i now img seed expires)"
    by (rule tx_growsI, rule up [where f = "\<lambda>r. r\<lparr>i_image := or_else img (i_image r),
          i_seed := or_else seed (i_seed r), i_expires := or_else expires (i_expires r), i_updated := now\<rparr>"])
      (simp_all add: set_runtime_facts_eq field_fun_def same_identity_def)
  show "tx_grows instdb_ok (calm cat') (set_assignment cat i w now)"
    by (rule tx_growsI, rule up [where f = "\<lambda>r. r\<lparr>i_worker := w, i_updated := now\<rparr>"])
      (simp_all add: set_assignment_eq field_fun_def same_identity_def split: if_splits)
qed

lemma field_update_calm:
  assumes ok: "instdb_ok db" and r: "find_inst i db = Some r" and f: "field_fun f"
    and up: "field_update r (f r) db = Inr (x, db')"
  shows "instdb_ok db' \<and> calm cat db db'"
  by (rule updates_row_calm [OF ok f, where i = i and x = x]) (simp add: updates_row_def r up)

lemma fences_calm:
  "tx_grows instdb_ok (calm cat) (fence_missing_container i g now)"
  "tx_grows instdb_ok (calm cat) (fence_stale_worker i w g now)"
proof -
  show "tx_grows instdb_ok (calm cat) (fence_missing_container i g now)"
  proof (rule tx_growsI)
    fix db x db'
    assume ok: "instdb_ok db" and run: "fence_missing_container i g now db = Inr (x, db')"
    obtain r where r: "find_inst i db = Some r"
      using run by (auto simp: fence_missing_eq [OF ok] split: option.splits)
    have "db' = db \<or> (\<exists>y. field_update r ((\<lambda>r. r\<lparr>i_gen := i_gen r + 1, i_updated := now\<rparr>) r) db = Inr (y, db'))"
      using run r by (auto simp: fence_missing_eq [OF ok] split: if_splits sum.splits)
    then show "instdb_ok db' \<and> calm cat db db'"
      using ok calm_ev.grows_refl [OF ok] field_update_calm [OF ok r, of "\<lambda>r. r\<lparr>i_gen := i_gen r + 1, i_updated := now\<rparr>"]
      by (auto simp: field_fun_def same_identity_def)
  qed
  show "tx_grows instdb_ok (calm cat) (fence_stale_worker i w g now)"
  proof (rule tx_growsI)
    fix db x db'
    assume ok: "instdb_ok db" and run: "fence_stale_worker i w g now db = Inr (x, db')"
    obtain r where r: "find_inst i db = Some r"
      using run by (auto simp: fence_stale_eq [OF ok] split: option.splits)
    have "db' = db \<or> (\<exists>y. field_update r ((\<lambda>r. r\<lparr>i_worker := None, i_gen := i_gen r + 1, i_updated := now\<rparr>) r) db = Inr (y, db'))"
      using run r by (auto simp: fence_stale_eq [OF ok] split: if_splits sum.splits)
    then show "instdb_ok db' \<and> calm cat db db'"
      using ok calm_ev.grows_refl [OF ok]
        field_update_calm [OF ok r, of "\<lambda>r. r\<lparr>i_worker := None, i_gen := i_gen r + 1, i_updated := now\<rparr>"]
      by (auto simp: field_fun_def same_identity_def)
  qed
qed

lemma transition_calm:
  assumes t: "t \<noteq> IArchived"
  shows "tx_grows instdb_ok (calm cat) (transition_instance i t reason actor now)"
proof (rule tx_growsI)
  fix db x db'
  assume ok: "instdb_ok db" and run: "transition_instance i t reason actor now db = Inr (x, db')"
  have g: "instdb_ok db' \<and> inst_grows db db'" using tx_growsD [OF transition_grows ok run] .
  obtain r where r: "find_inst i db = Some r"
    using run by (auto simp: transition_eq [OF ok] split: option.splits)
  have row: "r \<in> set (nd_rows db)" using find_inst_Some [OF ok] r by blast
  show "instdb_ok db' \<and> calm cat db db'"
  proof (cases "i_state r = t")
    case True
    then show ?thesis using run r ok calm_ev.grows_refl by (simp add: transition_eq [OF ok])
  next
    case False
    then have mv: "instance_move (i_state r) t" and db': "nd_rows db' = nd_rows (with_row (moved r t now) db)"
      using run r by (auto simp: transition_eq [OF ok] split: if_splits)
    have "i_state r \<noteq> IArchived" using mv by (auto simp: instance_move_def)
    then have "row_grows r (moved r t now)" by (simp add: row_grows_def moved_def)
    from calm_row [OF ok row this _ conjunct2 [OF g] db'] t show ?thesis using g by (simp add: moved_def)
  qed
qed

lemma add_calm:
  assumes "instance_post_init x = Inr ()" and "in_state x = IRequested"
  shows "tx_grows instdb_ok (calm cat) (add_instance cat created x now)"
proof (rule tx_growsI)
  fix db y db'
  assume ok: "instdb_ok db" and run: "add_instance cat created x now db = Inr (y, db')"
  have g: "instdb_ok db' \<and> inst_grows db db'" by (rule add_instance_ok [OF ok assms run])
  obtain row where orm: "instance_to_orm x (in_comp x) (in_team x) (in_defn x, in_ver x) (in_worker x) created = Inr row"
    and refs: "in_comp x \<in> set (cat_competitions cat)" "(in_defn x, in_ver x) \<in> set (cat_versions cat)"
    and db': "nd_rows db' = nd_rows db @ [row]"
    using run by (auto simp: add_instance_eq [OF assms(1)] split: if_splits sum.splits)
  have "row_refs cat row" "i_state row = IRequested"
    using orm refs assms(2) by (auto simp: instance_to_orm_def row_refs_def split: option.splits)
  moreover have "\<exists>r \<in> set (nd_rows db). row_grows r r' \<and> (i_state r' = IArchived \<longrightarrow> i_state r = IArchived)"
    if "r' \<in> set (nd_rows db)" for r'
    using that row_grows_refl by metis
  ultimately have "calm cat db db'" using g by (simp add: calm_def db')
  then show "instdb_ok db' \<and> calm cat db db'" using g by blast
qed

lemma facts_calm:
  "endpoint_post_init e = Inr () \<Longrightarrow> tx_grows instdb_ok (calm cat) (record_endpoint created e)"
  "runtime_resource_post_init res = Inr () \<Longrightarrow> tx_grows instdb_ok (calm cat) (record_runtime_resource cat' created res)"
  "instance_credential_post_init c = Inr () \<Longrightarrow> tx_grows instdb_ok (calm cat) (record_credential c)"
  "health_observation_post_init ob = Inr () \<Longrightarrow> tx_grows instdb_ok (calm cat) (append_observation cat' oid created ob)"
  "tx_grows instdb_ok (calm cat) (delete_endpoint i name)"
  "tx_grows instdb_ok (calm cat) (set_resource_state i kind ref st now)"
proof -
  have lift: "tx_grows instdb_ok (calm cat) m"
    if "tx_grows instdb_ok inst_grows m" and "\<And>db x db'. m db = Inr (x, db') \<Longrightarrow> nd_rows db' = nd_rows db"
    for m :: "(instdb, 'a) tx"
    using that unfolding tx_grows_def by (blast intro: calm_same)
  have w: "write_endpoint fresh e' db = Inr (x, db') \<Longrightarrow> nd_rows db' = nd_rows db"
    "write_resource fresh r db = Inr (x', db') \<Longrightarrow> nd_rows db' = nd_rows db" for fresh e' r db x x' db'
    by (auto simp: write_endpoint_def write_resource_def split: option.splits if_splits)
  show "endpoint_post_init e = Inr () \<Longrightarrow> tx_grows instdb_ok (calm cat) (record_endpoint created e)"
    by (rule lift [OF record_endpoint_grows])
      (auto simp: record_endpoint_def find_endpoint_def tx_simps split: option.splits dest: w)
  show "runtime_resource_post_init res = Inr () \<Longrightarrow> tx_grows instdb_ok (calm cat) (record_runtime_resource cat' created res)"
    by (rule lift [OF record_resource_grows])
      (auto simp: record_runtime_resource_def find_resource_def tx_simps split: option.splits dest: w)
  show "instance_credential_post_init c = Inr () \<Longrightarrow> tx_grows instdb_ok (calm cat) (record_credential c)"
    by (rule lift [OF credential_writes_grow]) (auto simp: record_credential_def tx_simps split: if_splits)
  show "health_observation_post_init ob = Inr () \<Longrightarrow> tx_grows instdb_ok (calm cat) (append_observation cat' oid created ob)"
    by (rule lift [OF append_observation_grows])
      (auto simp: append_observation_def Let_def tx_simps observation_from_orm_def split: if_splits sum.splits)
  show "tx_grows instdb_ok (calm cat) (delete_endpoint i name)"
    by (rule lift [OF delete_endpoint_grows])
      (auto simp: delete_endpoint_def find_endpoint_def tx_simps split: option.splits)
  show "tx_grows instdb_ok (calm cat) (set_resource_state i kind ref st now)"
    by (rule lift [OF set_resource_state_grows])
      (auto simp: set_resource_state_def find_resource_def tx_simps split: option.splits dest: w)
qed

section \<open>Calls on the instance store\<close>

lemma calm_platform:
  assumes ok: "platform_ok wd p" and db: "instdb_ok db" and c: "calm (wd_cat wd) (p_inst p) db"
  shows "platform_ok wd (p\<lparr>p_inst := db\<rparr>) \<and> platform_grows p (p\<lparr>p_inst := db\<rparr>)"
proof -
  let ?a = "p_inst p"
  have g: "inst_grows ?a db" using c by (simp add: calm_def)
  have refs: "row_refs (wd_cat wd) r'" if r': "r' \<in> set (nd_rows db)" for r'
  proof -
    consider r where "r \<in> set (nd_rows ?a)" "row_grows r r'" | "row_refs (wd_cat wd) r'"
      using c r' unfolding calm_def by blast
    then show ?thesis using platform_okD(7) [OF ok] row_refs_grow by cases blast+
  qed
  have jobs: "jobs_owned wd (p\<lparr>p_inst := db\<rparr>)"
    using platform_okD(4) [OF ok] corrective_row_grows [OF _ g] by (simp add: jobs_owned_def)
  have "holds_live (p\<lparr>p_inst := db\<rparr>)"
    unfolding holds_live_def
  proof (intro allI impI)
    fix k assume "is_held (p_quota (p\<lparr>p_inst := db\<rparr>)) k"
    then obtain r where r: "r \<in> set (nd_rows ?a)" "i_id r = k" "i_state r \<noteq> IArchived"
      using platform_okD(5) [OF ok] by (auto simp: holds_live_def)
    obtain r' where r': "r' \<in> set (nd_rows db)" "row_grows r r'" by (rule inst_grows_row [OF g r(1)])
    have "i_state r' \<noteq> IArchived"
    proof
      assume arch: "i_state r' = IArchived"
      then obtain q where q: "q \<in> set (nd_rows ?a)" "row_grows q r'" "i_state q = IArchived"
        using c r'(1) unfolding calm_def by blast
      then have "i_id q = i_id r" using r'(2) by (simp add: row_grows_def)
      then have "q = r"
        using instdb_okD(3) [OF platform_okD(3) [OF ok]] q(1) r(1) by (auto simp: distinct_map dest: inj_onD)
      then show False using q(3) r(3) by simp
    qed
    then show "\<exists>r \<in> set (nd_rows (p_inst (p\<lparr>p_inst := db\<rparr>))). i_id r = k \<and> i_state r \<noteq> IArchived"
      using r' r(2) by (auto simp: row_grows_def)
  qed
  then show ?thesis
    using platform_okD [OF ok] db refs jobs g by (simp add: platform_ok_def platform_grows_def)
qed

lemma run_inst:
  assumes "tx_grows instdb_ok (calm (wd_cat wd)) m"
    and "\<And>db x db'. instdb_ok db \<Longrightarrow> m db = Inr (x, db') \<Longrightarrow> Q x db'"
  shows "svc_run (platform_ok wd) platform_grows pre (on_inst m) (\<lambda>x p. Q x (p_inst p))"
proof (rule svc_runI)
  fix p assume ok: "platform_ok wd p"
  show "platform_ok wd (snd (on_inst m p)) \<and> platform_grows p (snd (on_inst m p))
      \<and> (\<forall>x. fst (on_inst m p) = Inr x \<longrightarrow> Q x (p_inst (snd (on_inst m p))))"
  proof (cases "m (p_inst p)")
    case (Inl e)
    then show ?thesis using ok by (simp add: on_inst_eq)
  next
    case (Inr r)
    then obtain x db where m: "m (p_inst p) = Inr (x, db)" by (cases r) auto
    note g = tx_growsD [OF assms(1) platform_okD(3) [OF ok] m]
    show ?thesis
      using calm_platform [OF ok conjunct1 [OF g] conjunct2 [OF g]] assms(2) [OF platform_okD(3) [OF ok] m]
      by (simp add: on_inst_eq m)
  qed
qed

lemma run_inst_any:
  "tx_grows instdb_ok (calm (wd_cat wd)) m
    \<Longrightarrow> svc_run (platform_ok wd) platform_grows pre (on_inst m) (\<lambda>_ _. True)"
  by (rule run_inst [where Q = "\<lambda>_ _. True"]) simp_all

lemma run_read:
  "(\<And>db x db'. m db = Inr (x, db') \<Longrightarrow> db' = db)
    \<Longrightarrow> svc_run (platform_ok wd) platform_grows pre (on_inst m) (\<lambda>_ _. True)"
  by (rule run_inst_any, rule calm_ev.tx_pure)

section \<open>Corrective enqueues\<close>

text \<open>A value the store returned: an instance with at least the generation the value shows.\<close>

definition known :: "inst \<Rightarrow> instdb \<Rightarrow> bool" where
  "known x db \<longleftrightarrow> (\<exists>r \<in> set (nd_rows db). in_id x = Uid (i_id r) \<and> in_comp x = i_comp r
     \<and> (in_defn x, in_ver x) = i_version r \<and> 1 \<le> in_gen x \<and> in_gen x \<le> i_gen r)"

lemma known_grows: "known x db \<Longrightarrow> inst_grows db db' \<Longrightarrow> known x db'"
proof -
  assume "known x db" and g: "inst_grows db db'"
  then obtain r where r: "r \<in> set (nd_rows db)" and eq: "in_id x = Uid (i_id r)" "in_comp x = i_comp r"
    "(in_defn x, in_ver x) = i_version r" "1 \<le> in_gen x" "in_gen x \<le> i_gen r"
    unfolding known_def by blast
  obtain r' where "r' \<in> set (nd_rows db')" "row_grows r r'" by (rule inst_grows_row [OF g r])
  then show "known x db'" using eq unfolding known_def by (intro bexI [of _ r']) (auto simp: row_grows_def)
qed

lemma known_row: "instdb_ok db \<Longrightarrow> r \<in> set (nd_rows db) \<Longrightarrow> known (row_inst r) db"
  using row_gen_pos unfolding known_def by (auto intro!: bexI [of _ r] simp: row_inst_def)

lemma corrective_post_init:
  assumes ok: "instdb_ok db" and x: "known x db"
  shows "job_post_init (build_corrective_job u x g a now) = Inr ()"
proof -
  obtain r where r: "r \<in> set (nd_rows db)" and eq: "in_comp x = i_comp r" "in_defn x = fst (i_version r)"
    "in_ver x = snd (i_version r)"
    using x unfolding known_def by (metis fst_conv snd_conv)
  have dom: "nonempty (in_comp x)" "nonempty (in_defn x)" "1 \<le> in_ver x"
    using instdb_okD(4) [OF ok r] by (auto simp: eq instance_post_init_def row_inst_def split: if_splits)
  have key: "nonempty (corrective_idempotency_key (in_id x) g a)"
    by (rule nonempty_iff [THEN iffD2], rule bexI [of _ "CHR ''i''"])
      (simp_all add: py_isspace_def corrective_idempotency_key_def)
  have cap: "nonempty (job_type_name (instance_action_job_types a))"
    by (cases a) (simp_all, code_simp+)
  show ?thesis using dom key cap by (simp add: job_post_init_def build_corrective_job_def Let_def)
qed

lemma is_corrective_key_key: "is_corrective_key (corrective_idempotency_key i g a)"
  by (simp add: is_corrective_key_def corrective_idempotency_key_def)

lemma same_corrective:
  assumes c: "corrective_row db r" and key: "r_key r = corrective_idempotency_key (Uid k) g a" and g: "1 \<le> g"
    and id: "in_id x = Uid k"
  shows "same_request (row_job r) (build_corrective_job u x g a now)"
proof -
  obtain y :: inst_row and g' a' where y: "1 \<le> g'" "r_key r = corrective_idempotency_key (Uid (i_id y)) g' a'"
    "r_type r = instance_action_job_types a'" "r_payload r = corrective_payload (Uid (i_id y)) g' a'"
    "r_caps r = [job_type_name (instance_action_job_types a')]"
    using c unfolding corrective_row_def by blast
  have "0 \<le> g" "0 \<le> g'" using g y(1) by simp_all
  then have "i_id y = k" "g' = g" "a' = a" using y(2) key corrective_key_inj by auto
  then show ?thesis
    using y id by (simp add: same_request_def row_job_def build_corrective_job_def Let_def corrective_payload_def)
qed

definition corrective_job_row :: "nat \<Rightarrow> inst \<Rightarrow> int \<Rightarrow> lifecycle_action \<Rightarrow> instant \<Rightarrow> instant \<Rightarrow> job_row" where
  "corrective_job_row u x g a now created =
     \<lparr>r_id = u, r_type = instance_action_job_types a, r_status = Queued, r_priority = 100,
      r_payload = corrective_payload (in_id x) g a, r_key = corrective_idempotency_key (in_id x) g a,
      r_caps = [job_type_name (instance_action_job_types a)], r_attempts = 0, r_max = 3, r_backoff = 30,
      r_available = now, r_claimed_by = None, r_token = None, r_lease = None, r_heartbeat = None,
      r_cancel = None, r_started = None, r_finished = None, r_err = None, r_err_detail = None,
      r_result_json = None, r_result_ref = None, r_log_ref = None, r_comp = Some (in_comp x),
      r_version = Some (in_defn x, in_ver x), r_created = created\<rparr>"

lemma corrective_to_orm:
  "job_to_orm (build_corrective_job u x g a now) (Some (in_comp x)) (Some (in_defn x, in_ver x)) created
    = Inr (corrective_job_row u x g a now created)"
  by (simp add: job_to_orm_def build_corrective_job_def Let_def corrective_job_row_def corrective_payload_def
      capabilities_to_orm_def)

definition with_job :: "job_row \<Rightarrow> instant \<Rightarrow> platform \<Rightarrow> platform" where
  "with_job row t p = p\<lparr>p_jobs := \<lparr>jd_jobs = jd_jobs (p_jobs p) @ [row],
     jd_hist = jd_hist (p_jobs p) @ [enqueue_entry row t]\<rparr>, p_draws := Suc (p_draws p)\<rparr>"

lemma enqueue_corrective_eq:
  assumes ok: "platform_ok wd p" and x: "known x (p_inst p)" and g: "1 \<le> g"
  shows "enqueue_corrective wd x g a now p =
    (case job_stored (p_jobs p) (corrective_idempotency_key (in_id x) g a) of
       Some j \<Rightarrow> (Inr (j, False), p\<lparr>p_draws := Suc (p_draws p)\<rparr>)
     | None \<Rightarrow> (let row = corrective_job_row (wd_uuid wd (p_draws p)) x g a now (wd_clock wd (p_draws p))
         in (Inr (row_job row, True), with_job row now p)))"
proof -
  let ?n = "p_draws p" and ?u = "wd_uuid wd (p_draws p)"
  let ?j = "build_corrective_job ?u x g a now"
  let ?row = "corrective_job_row ?u x g a now (wd_clock wd ?n)"
  note jok = platform_okD(1) [OF ok]
  have ini: "job_post_init ?j = Inr ()" by (rule corrective_post_init [OF platform_okD(3) [OF ok] x])
  obtain r where r: "r \<in> set (nd_rows (p_inst p))" "in_id x = Uid (i_id r)" "in_comp x = i_comp r"
    "(in_defn x, in_ver x) = i_version r"
    using x unfolding known_def by blast
  have jf: "j_competition_id ?j = Some (in_comp x)" "job_version ?j = Some (in_defn x, in_ver x)"
    "j_idempotency_key ?j = corrective_idempotency_key (in_id x) g a" "audit_at ?j (Some now) = now"
    by (simp_all add: build_corrective_job_def Let_def job_version_def audit_at_def)
  have refs: "refs_ok (wd_cat wd) ?j"
    using platform_okD(7) [OF ok r(1)] r(3,4) by (simp add: refs_ok_def jf row_refs_def)
  have fresh: "?u \<notin> r_id ` set (jd_jobs (p_jobs p))"
  proof
    assume "?u \<in> r_id ` set (jd_jobs (p_jobs p))"
    then obtain q where "q \<in> set (jd_jobs (p_jobs p))" "r_id q = ?u" by auto
    then obtain m where "m < ?n" "wd_uuid wd m = ?u" using platform_okD(4) [OF ok] by (auto simp: jobs_owned_def)
    then show False using platform_okD(6) [OF ok] by (auto dest: injD)
  qed
  have same: "same_request y ?j" if "job_stored (p_jobs p) (j_idempotency_key ?j) = Some y" for y
  proof -
    note stored = that
    obtain q :: job_row where q: "q \<in> set (jd_jobs (p_jobs p))" "r_key q = j_idempotency_key ?j" "y = row_job q"
      using stored find_row_SomeD [of r_key "j_idempotency_key ?j" "jd_jobs (p_jobs p)"]
      by (auto simp: job_stored_def)
    have "corrective_row (p_inst p) q"
      using platform_okD(4) [OF ok] q(1) is_corrective_key_key [of "in_id x" g a] q(2)
      by (simp add: jobs_owned_def jf)
    then show ?thesis using same_corrective [OF _ _ g r(2)] q(2,3) by (simp add: jf r(2))
  qed
  have rid: "r_id ?row = ?u" by (simp add: corrective_job_row_def)
  have out: "enqueue_idempotent (wd_cat wd) (wd_clock wd ?n) ?j (Some now) (p_jobs p) =
     (case job_stored (p_jobs p) (corrective_idempotency_key (in_id x) g a) of
        Some y \<Rightarrow> (Inr (y, False), p_jobs p)
      | None \<Rightarrow> (Inr (row_job ?row, True), \<lparr>jd_jobs = jd_jobs (p_jobs p) @ [?row],
             jd_hist = jd_hist (p_jobs p) @ [enqueue_entry ?row now]\<rparr>))"
    using refs fresh same
    by (auto simp: enqueue_idempotent_eq [OF jok ini] enqueue_outcome_def jf corrective_to_orm rid
        split: option.splits)
  show ?thesis
    by (simp add: enqueue_corrective_def svc_bind_def draw_def Let_def ini on_jobs_eq out with_job_def
        split: option.splits)
qed

lemma with_job_ok:
  assumes ok: "platform_ok wd p" and x: "known x (p_inst p)" and g: "1 \<le> g" "g \<le> in_gen x"
    and none: "job_stored (p_jobs p) (corrective_idempotency_key (in_id x) g a) = None"
  shows "platform_ok wd (with_job (corrective_job_row (wd_uuid wd (p_draws p)) x g a now c) now p)
    \<and> platform_grows p (with_job (corrective_job_row (wd_uuid wd (p_draws p)) x g a now c) now p)"
proof -
  let ?row = "corrective_job_row (wd_uuid wd (p_draws p)) x g a now c"
  let ?p = "with_job ?row now p"
  have "jobdb_ok (p_jobs ?p)"
  proof -
    let ?wd = "wd\<lparr>wd_clock := (\<lambda>_. c)\<rparr>"
    have ok': "platform_ok ?wd p" using ok by (simp add: platform_ok_def jobs_owned_def)
    have ini: "job_post_init (build_corrective_job (wd_uuid wd (p_draws p)) x g a now) = Inr ()"
      by (rule corrective_post_init [OF platform_okD(3) [OF ok] x])
    have "p_jobs ?p = p_jobs (snd (enqueue_corrective ?wd x g a now p))"
      by (simp add: enqueue_corrective_eq [OF ok' x g(1)] none Let_def)
    also have "\<dots> = snd (enqueue_idempotent (wd_cat wd) c (build_corrective_job (wd_uuid wd (p_draws p)) x g a now)
        (Some now) (p_jobs p))"
      by (simp add: enqueue_corrective_def svc_bind_def draw_def Let_def ini on_jobs_eq)
    finally show ?thesis using enqueue_idempotent_ok [OF platform_okD(1) [OF ok] ini] by simp
  qed
  moreover have "jobs_owned wd ?p"
  proof -
    obtain r where r: "r \<in> set (nd_rows (p_inst p))" "in_id x = Uid (i_id r)" "in_gen x \<le> i_gen r"
      using x unfolding known_def by blast
    have "corrective_row (p_inst p) ?row"
      unfolding corrective_row_def using r g
      by (intro bexI [of _ r] exI [of _ g] exI [of _ a]) (simp_all add: corrective_job_row_def)
    moreover have "r_id ?row = wd_uuid wd (p_draws p)" by (simp add: corrective_job_row_def)
    ultimately show ?thesis
      using platform_okD(4) [OF ok] by (auto simp: jobs_owned_def with_job_def intro: less_SucI)
  qed
  moreover have "holds_live ?p" using platform_okD(5) [OF ok] by (simp add: holds_live_def with_job_def)
  ultimately show ?thesis
    using platform_okD [OF ok]
    by (simp add: platform_ok_def platform_grows_def jobs_ext_def with_job_def inst_grows_refl)
qed

lemma run_enqueue:
  "svc_run (platform_ok wd) platform_grows (\<lambda>p. known x (p_inst p) \<and> 1 \<le> g \<and> g \<le> in_gen x)
     (enqueue_corrective wd x g a now)
     (\<lambda>_ p. job_stored (p_jobs p) (corrective_idempotency_key (in_id x) g a) \<noteq> None)"
proof (rule svc_runI)
  fix p assume ok: "platform_ok wd p" and pre: "known x (p_inst p) \<and> 1 \<le> g \<and> g \<le> in_gen x"
  note eq = enqueue_corrective_eq [OF ok conjunct1 [OF pre], of g a now]
  let ?m = "enqueue_corrective wd x g a now p"
  show "platform_ok wd (snd ?m) \<and> platform_grows p (snd ?m)
      \<and> (\<forall>y. fst ?m = Inr y \<longrightarrow> job_stored (p_jobs (snd ?m)) (corrective_idempotency_key (in_id x) g a) \<noteq> None)"
  proof (cases "job_stored (p_jobs p) (corrective_idempotency_key (in_id x) g a)")
    case None
    have "r_key (corrective_job_row u x g a now c) = corrective_idempotency_key (in_id x) g a" for u c
      by (simp add: corrective_job_row_def)
    then show ?thesis
      using with_job_ok [OF ok _ _ _ None] pre None
      by (simp add: eq Let_def with_job_def job_stored_def find_row_append find_row_Cons)
  next
    case (Some j)
    have "platform_ok wd (p\<lparr>p_draws := Suc (p_draws p)\<rparr>)"
      using ok jobs_owned_draw [of wd p] by (simp add: platform_ok_def holds_live_def)
    then show ?thesis using pre Some by (simp add: eq platform_grows_def inst_grows_refl)
  qed
qed

end
