(* ===== verification/Reconciler.thy ===== *)
theory Reconciler
  imports Instance_Service
begin

text \<open>
  The instance reconciler \<open>application/instances/reconciler.py\<close>: one pass compares each instance's
  desired state with the generation-gated latest observation and takes corrective actions, then
  sweeps leaked resources and orphaned endpoints. The observed world and worker liveness are the
  two protocols of the code, given as \<open>sources\<close>; the database-backed implementations are
  \<open>repository_sources\<close>. The free-text \<open>detail\<close> of an action is not modelled.
\<close>

section \<open>Sources\<close>

record sources =
  so_observe :: "ident \<Rightarrow> (platform, health_observation option) svc"
  so_dispatchable :: "string \<Rightarrow> instant \<Rightarrow> bool"
  so_adverse :: "string \<Rightarrow> instant \<Rightarrow> bool"

definition repository_dispatchable :: "fleet \<Rightarrow> int \<Rightarrow> string \<Rightarrow> instant \<Rightarrow> bool" where
  "repository_dispatchable fl max_age name now = (case find_row w_name name (fl_workers fl) of
      None \<Rightarrow> False
    | Some w \<Rightarrow>
        if w_trust w \<noteq> ''trusted'' then False
        else if w_quarantined w \<noteq> None \<or> w_drain w \<noteq> None then False
        else (case w_heartbeat w of None \<Rightarrow> False | Some t \<Rightarrow> now - t \<le> seconds max_age))"

definition repository_adverse :: "fleet \<Rightarrow> string \<Rightarrow> instant \<Rightarrow> bool" where
  "repository_adverse fl name now = (case find_row w_name name (fl_workers fl) of
      None \<Rightarrow> True
    | Some w \<Rightarrow>
        if w_trust w \<noteq> ''trusted'' then True
        else w_quarantined w \<noteq> None \<or> w_drain w \<noteq> None)"

definition repository_observe :: "ident \<Rightarrow> (platform, health_observation option) svc" where
  "repository_observe i = on_inst (latest_observation i)"

definition repository_sources :: "fleet \<Rightarrow> int \<Rightarrow> sources" where
  "repository_sources fl max_age = \<lparr>so_observe = repository_observe,
     so_dispatchable = repository_dispatchable fl max_age, so_adverse = repository_adverse fl\<rparr>"

section \<open>Actions and helpers\<close>

record reconcile_action =
  ra_inst :: ident
  ra_case :: string
  ra_action :: string
  ra_job_type :: "job_type option"
  ra_key :: "string option"
  ra_created :: "bool option"

definition plain_action :: "ident \<Rightarrow> string \<Rightarrow> string \<Rightarrow> reconcile_action" where
  "plain_action i c a = \<lparr>ra_inst = i, ra_case = c, ra_action = a, ra_job_type = None, ra_key = None,
     ra_created = None\<rparr>"

fun live_drainable :: "instance_state \<Rightarrow> bool" where
  "live_drainable IRequested = True"
| "live_drainable IQueued = True"
| "live_drainable IBuilding = True"
| "live_drainable IReady = True"
| "live_drainable IStarting = True"
| "live_drainable IHealthy = True"
| "live_drainable IActive = True"
| "live_drainable IDegraded = True"
| "live_drainable _ = False"

definition recovery_state :: "instance_state \<Rightarrow> bool" where
  "recovery_state s \<longleftrightarrow> live_drainable s \<or> s = IFailed \<or> s = IStopped"

fun archivable_state :: "instance_state \<Rightarrow> bool" where
  "archivable_state IStopped = True"
| "archivable_state IExpired = True"
| "archivable_state IFailed = True"
| "archivable_state IQuarantined = True"
| "archivable_state _ = False"

definition effective_observation :: "sources \<Rightarrow> inst \<Rightarrow> (platform, health_observation option) svc" where
  "effective_observation so x =
     svc_bind (so_observe so (in_id x)) (\<lambda>ob. svc_ret (case ob of
         None \<Rightarrow> None
       | Some h \<Rightarrow> if ho_gen h \<noteq> in_gen x then None else Some h))"

definition enqueue_action ::
    "world \<Rightarrow> inst \<Rightarrow> int \<Rightarrow> lifecycle_action \<Rightarrow> instant \<Rightarrow> string \<Rightarrow> (platform, reconcile_action) svc" where
  "enqueue_action wd x generation action now c =
     svc_bind (enqueue_corrective wd x generation action now) (\<lambda>(_, created).
       svc_ret \<lparr>ra_inst = in_id x, ra_case = c, ra_action = action_name action,
         ra_job_type = Some (instance_action_job_types action),
         ra_key = Some (corrective_idempotency_key (in_id x) generation action),
         ra_created = Some created\<rparr>)"

text \<open>The block of \<open>_drive_transition\<close>; the boolean says a move was made.\<close>

definition drive_block ::
    "ident \<Rightarrow> instance_state \<Rightarrow> string \<Rightarrow> instant \<Rightarrow> (instdb, (inst \<times> bool) option) tx" where
  "drive_block i to reason now =
     tx_bind (get_instance i) (\<lambda>current. case current of
       None \<Rightarrow> tx_ret None
     | Some x \<Rightarrow>
         if in_state x = to then tx_ret (Some (x, False))
         else tx_bind (transition_instance i to reason BySystem now) (\<lambda>y. tx_ret (Some (y, True))))"

definition drive_transition ::
    "ident \<Rightarrow> instance_state \<Rightarrow> string \<Rightarrow> instant \<Rightarrow> string
       \<Rightarrow> (platform, inst option \<times> reconcile_action list) svc" where
  "drive_transition i to reason now c =
     svc_bind (on_inst (drive_block i to reason now)) (\<lambda>r. case r of
       None \<Rightarrow> svc_ret (None, [])
     | Some (x, did_move) \<Rightarrow>
         if \<not> did_move then svc_ret (Some x, [])
         else if release_state to
         then svc_bind (on_quota (svc_release i now)) (\<lambda>_. svc_ret (Some x, [plain_action i c ''transition'']))
         else svc_ret (Some x, [plain_action i c ''transition'']))"

fun mark_each :: "ident \<Rightarrow> runtime_resource list \<Rightarrow> instant \<Rightarrow> string \<Rightarrow> (instdb, reconcile_action list) tx" where
  "mark_each i [] now c = tx_ret []"
| "mark_each i (r # rs) now c =
     (if rr_state r = ResActive
      then tx_bind (set_resource_state i (rr_kind r) (rr_ref r) ResReleasing now) (\<lambda>_.
           tx_bind (mark_each i rs now c) (\<lambda>out. tx_ret (plain_action i c ''mark_releasing'' # out)))
      else mark_each i rs now c)"

definition mark_releasing ::
    "ident \<Rightarrow> runtime_resource list \<Rightarrow> instant \<Rightarrow> string \<Rightarrow> (platform, reconcile_action list) svc" where
  "mark_releasing i rs now c = on_inst (mark_each i rs now c)"

fun delete_each :: "ident \<Rightarrow> endpoint list \<Rightarrow> string \<Rightarrow> (instdb, reconcile_action list) tx" where
  "delete_each i [] c = tx_ret []"
| "delete_each i (e # es) c =
     tx_bind (delete_endpoint i (ep_name e)) (\<lambda>deleted.
     tx_bind (delete_each i es c) (\<lambda>out.
       tx_ret (if deleted then plain_action i c ''delete_endpoint'' # out else out)))"

definition delete_endpoints ::
    "ident \<Rightarrow> endpoint list \<Rightarrow> instant \<Rightarrow> string \<Rightarrow> (platform, reconcile_action list) svc" where
  "delete_endpoints i es now c = on_inst (delete_each i es c)"

definition load_facts :: "ident \<Rightarrow> (platform, runtime_resource list \<times> endpoint list) svc" where
  "load_facts i = on_inst (
     tx_bind (list_runtime_resources i) (\<lambda>rs. tx_bind (list_endpoints i) (\<lambda>es. tx_ret (rs, es))))"

text \<open>\<open>updated or instance\<close>.\<close>

definition latest_of_update :: "inst option \<Rightarrow> inst \<Rightarrow> inst" where
  "latest_of_update updated x = (case updated of None \<Rightarrow> x | Some y \<Rightarrow> y)"

section \<open>Desired active\<close>

definition age_reached :: "inst \<Rightarrow> instant \<Rightarrow> int \<Rightarrow> bool" where
  "age_reached x now stuck_after = (case in_updated x of None \<Rightarrow> True | Some t \<Rightarrow> seconds stuck_after \<le> now - t)"

fun ladder :: "instance_state \<Rightarrow> instance_state option" where
  "ladder IBuilding = Some IReady"
| "ladder IReady = Some IStarting"
| "ladder IStarting = Some IHealthy"
| "ladder _ = None"

text \<open>Case (3): evacuate off an adverse or stale worker.\<close>

definition evacuate :: "world \<Rightarrow> inst \<Rightarrow> string \<Rightarrow> instant \<Rightarrow> (platform, reconcile_action list) svc" where
  "evacuate wd x w now =
     svc_bind (on_inst (fence_stale_worker (in_id x) w (in_gen x) now)) (\<lambda>fenced. case fenced of
       None \<Rightarrow> svc_ret []
     | Some y \<Rightarrow>
         svc_bind (on_quota (svc_release (in_id x) now)) (\<lambda>_.
         svc_bind (enqueue_action wd y (in_gen y) ActLaunch now ''3-stale-worker'') (\<lambda>a.
           svc_ret [plain_action (in_id x) ''3-stale-worker'' ''clear_assignment_bump_generation'', a])))"

text \<open>Case (8): clean up resources of older generations.\<close>

definition partial_reset :: "world \<Rightarrow> inst \<Rightarrow> instant \<Rightarrow> (platform, reconcile_action list) svc" where
  "partial_reset wd x now =
     svc_bind (load_facts (in_id x)) (\<lambda>(resources, _).
       let stale = filter (\<lambda>r. rr_state r = ResActive \<and> rr_gen r < in_gen x) resources in
       if stale = [] then svc_ret []
       else
         svc_bind (mark_releasing (in_id x) stale now ''8-partial-reset'') (\<lambda>acts.
         svc_bind (enqueue_action wd x (in_gen x) ActDelete now ''8-partial-reset'') (\<lambda>a.
           svc_ret (acts @ [a]))))"

text \<open>
  Cases (1) and (4): signal degradation, then reuse a launch in flight, or fence and relaunch. A
  launch of this generation that failed for good is left to the operators.
\<close>

definition relaunch ::
    "world \<Rightarrow> inst \<Rightarrow> reconcile_action list \<Rightarrow> instant \<Rightarrow> job option \<Rightarrow> (platform, reconcile_action list) svc" where
  "relaunch wd x acts now existing =
     (if (case existing of None \<Rightarrow> False | Some j \<Rightarrow> \<not> terminal_job_status (j_status j)) then
       svc_bind (enqueue_action wd x (in_gen x) ActLaunch now ''1-missing-container'') (\<lambda>a.
         svc_ret (acts @ [a]))
     else if (case existing of None \<Rightarrow> True | Some j \<Rightarrow> j_status j = Succeeded) then
       svc_bind (on_inst (fence_missing_container (in_id x) (in_gen x) now)) (\<lambda>fenced. case fenced of
         None \<Rightarrow> svc_ret acts
       | Some y \<Rightarrow>
           svc_bind (enqueue_action wd y (in_gen y) ActLaunch now ''1-missing-container'') (\<lambda>a.
             svc_ret (acts @ [plain_action (in_id x) ''1-missing-container'' ''bump_generation'', a])))
     else svc_ret acts)"

definition recover_missing :: "world \<Rightarrow> inst \<Rightarrow> instant \<Rightarrow> (platform, reconcile_action list) svc" where
  "recover_missing wd x0 now =
     svc_bind (if in_state x0 \<in> {IActive, IHealthy}
         then drive_transition (in_id x0) IDegraded ''observed absent while desired active'' now
           ''1-missing-container''
         else svc_ret (None, [])) (\<lambda>(updated, acts).
     let x = latest_of_update updated x0 in
     svc_bind (on_jobs (service_get_by_key (corrective_idempotency_key (in_id x) (in_gen x) ActLaunch)))
       (relaunch wd x acts now))"

text \<open>Case (6): advance one rung on a healthy observation; otherwise cases (1) and (4).\<close>

definition resume_active ::
    "world \<Rightarrow> inst \<Rightarrow> bool \<Rightarrow> bool \<Rightarrow> instant \<Rightarrow> int \<Rightarrow> (platform, reconcile_action list) svc" where
  "resume_active wd x absent healthy now stuck_after =
     (let recover = (if absent \<and> recovery_state (in_state x) then recover_missing wd x now else svc_ret []) in
      if healthy \<and> age_reached x now stuck_after then
        (case ladder (in_state x) of
           Some t \<Rightarrow> svc_bind (drive_transition (in_id x) t ''advance on healthy observation (stuck)'' now
               ''6-failed-ack'') (\<lambda>(_, acts). svc_ret acts)
         | None \<Rightarrow> recover)
      else recover)"

definition leave_worker :: "sources \<Rightarrow> string \<Rightarrow> bool \<Rightarrow> instant \<Rightarrow> bool" where
  "leave_worker so w healthy now \<longleftrightarrow>
     so_adverse so w now \<or> (\<not> so_dispatchable so w now \<and> \<not> healthy)"

definition reconcile_active ::
    "world \<Rightarrow> sources \<Rightarrow> inst \<Rightarrow> bool \<Rightarrow> bool \<Rightarrow> instant \<Rightarrow> int \<Rightarrow> (platform, reconcile_action list) svc" where
  "reconcile_active wd so x absent healthy now stuck_after =
     (let converge = svc_bind (partial_reset wd x now) (\<lambda>acts.
            svc_bind (resume_active wd x absent healthy now stuck_after) (\<lambda>more. svc_ret (acts @ more))) in
      case in_worker x of
        Some w \<Rightarrow> if leave_worker so w healthy now then evacuate wd x w now else converge
      | None \<Rightarrow> converge)"

section \<open>Desired stopped and deleted\<close>

fun desired_name :: "desired_state \<Rightarrow> string" where
  "desired_name DesActive = ''active''"
| "desired_name DesStopped = ''stopped''"
| "desired_name DesDeleted = ''deleted''"

definition drain_reason :: "inst \<Rightarrow> string" where
  "drain_reason x = ''desired '' @ desired_name (in_desired x) @ ''; draining''"

text \<open>\<open>_drain_to_stopped\<close>: a live state moves to \<open>stopping\<close>, a stopping one to \<open>stopped\<close>.\<close>

definition drain_to_stopped :: "inst \<Rightarrow> instant \<Rightarrow> string \<Rightarrow> (platform, inst \<times> reconcile_action list) svc" where
  "drain_to_stopped x0 now c =
     svc_bind (if live_drainable (in_state x0)
         then drive_transition (in_id x0) IStopping (drain_reason x0) now c
         else svc_ret (None, [])) (\<lambda>(updated, acts).
     let x = latest_of_update updated x0 in
     svc_bind (if in_state x = IStopping
         then drive_transition (in_id x) IStopped ''observed absent; stopped'' now c
         else svc_ret (None, [])) (\<lambda>(updated', acts').
       svc_ret (latest_of_update updated' x, acts @ acts')))"

text \<open>\<open>_cleanup_exposed\<close>: the endpoints go, unreleased resources get a delete job, active ones are marked.\<close>

definition cleanup_exposed :: "world \<Rightarrow> inst \<Rightarrow> instant \<Rightarrow> string \<Rightarrow> (platform, reconcile_action list) svc" where
  "cleanup_exposed wd x now c =
     svc_bind (load_facts (in_id x)) (\<lambda>(resources, endpoints).
     svc_bind (delete_endpoints (in_id x) endpoints now c) (\<lambda>dels.
     let active_resources = filter (\<lambda>r. rr_state r = ResActive) resources;
         unreleased = filter (\<lambda>r. rr_state r = ResActive \<or> rr_state r = ResReleasing) resources in
     svc_bind (if unreleased = [] then svc_ret []
         else svc_bind (enqueue_action wd x (in_gen x) ActDelete now c) (\<lambda>a. svc_ret [a])) (\<lambda>jobs.
     svc_bind (if active_resources = [] then svc_ret []
         else mark_releasing (in_id x) active_resources now c) (\<lambda>marks.
       svc_ret (dels @ jobs @ marks)))))"

definition reconcile_stopped ::
    "world \<Rightarrow> inst \<Rightarrow> bool \<Rightarrow> bool \<Rightarrow> instant \<Rightarrow> (platform, reconcile_action list) svc" where
  "reconcile_stopped wd x present absent now =
     svc_bind (if present
         then svc_bind (enqueue_action wd x (in_gen x) ActStop now ''2-unexpected'') (\<lambda>a. svc_ret [a])
         else svc_ret []) (\<lambda>stops.
     svc_bind (if absent then drain_to_stopped x now ''2-unexpected'' else svc_ret (x, [])) (\<lambda>(y, drains).
     svc_bind (if in_state y = IStopped then cleanup_exposed wd y now ''9-exposed'' else svc_ret []) (\<lambda>clean.
       svc_ret (stops @ drains @ clean))))"

text \<open>The end game: archive once nothing of the instance is left outside.\<close>

definition archive_if_clean :: "inst \<Rightarrow> instant \<Rightarrow> (platform, reconcile_action list) svc" where
  "archive_if_clean x now =
     (if \<not> archivable_state (in_state x) then svc_ret []
      else svc_bind (load_facts (in_id x)) (\<lambda>(resources, endpoints).
        if filter (\<lambda>r. rr_state r \<noteq> ResReleased) resources = [] \<and> endpoints = []
        then svc_bind (drive_transition (in_id x) IArchived ''deleted; fully cleaned up'' now ''9-exposed'')
          (\<lambda>(_, acts). svc_ret acts)
        else svc_ret []))"

definition reconcile_deleted ::
    "world \<Rightarrow> inst \<Rightarrow> bool \<Rightarrow> instant \<Rightarrow> (platform, reconcile_action list) svc" where
  "reconcile_deleted wd x present now =
     (if present then
        svc_bind (enqueue_action wd x (in_gen x) ActStop now ''2-unexpected'') (\<lambda>a.
        svc_bind (enqueue_action wd x (in_gen x) ActDelete now ''2-unexpected'') (\<lambda>b. svc_ret [a, b]))
      else
        svc_bind (cleanup_exposed wd x now ''9-exposed'') (\<lambda>clean.
        svc_bind (drain_to_stopped x now ''9-exposed'') (\<lambda>(y, drains).
        svc_bind (archive_if_clean y now) (\<lambda>arch. svc_ret (clean @ drains @ arch)))))"

section \<open>A pass\<close>

definition reconcile_instance ::
    "world \<Rightarrow> sources \<Rightarrow> inst \<Rightarrow> instant \<Rightarrow> int \<Rightarrow> (platform, reconcile_action list) svc" where
  "reconcile_instance wd so x now stuck_after =
     svc_bind (effective_observation so x) (\<lambda>ob.
       let absent = (case ob of None \<Rightarrow> True | Some h \<Rightarrow> observed_absent h);
           present = (case ob of None \<Rightarrow> False | Some h \<Rightarrow> \<not> observed_absent h);
           healthy = (case ob of None \<Rightarrow> False | Some h \<Rightarrow> \<not> observed_absent h \<and> ho_healthy h) in
       case in_desired x of
         DesActive \<Rightarrow> reconcile_active wd so x absent healthy now stuck_after
       | DesStopped \<Rightarrow> reconcile_stopped wd x present absent now
       | DesDeleted \<Rightarrow> reconcile_deleted wd x present now)"

text \<open>The loop of a pass: an instance whose step raises is reported and the next one is taken.\<close>

fun reconcile_each ::
    "world \<Rightarrow> sources \<Rightarrow> inst list \<Rightarrow> instant \<Rightarrow> int \<Rightarrow> (platform, reconcile_action list) svc" where
  "reconcile_each wd so [] now stuck_after = svc_ret []"
| "reconcile_each wd so (x # xs) now stuck_after =
     svc_bind (svc_catch (reconcile_instance wd so x now stuck_after)
         (\<lambda>_. svc_ret [plain_action (in_id x) ''error'' ''reconcile_error''])) (\<lambda>acts.
     svc_bind (reconcile_each wd so xs now stuck_after) (\<lambda>more. svc_ret (acts @ more)))"

text \<open>The leak sweep: case (5) with one delete job per instance, then case (10).\<close>

fun sweep_leaks ::
    "world \<Rightarrow> ident list \<Rightarrow> runtime_resource list \<Rightarrow> instant \<Rightarrow> (platform, reconcile_action list) svc" where
  "sweep_leaks wd seen [] now = svc_ret []"
| "sweep_leaks wd seen (r # rs) now =
     svc_bind (on_inst (get_instance (rr_inst r))) (\<lambda>found. case found of
       None \<Rightarrow> sweep_leaks wd seen rs now
     | Some x \<Rightarrow>
         svc_bind (if rr_inst r \<in> set seen then svc_ret []
             else svc_bind (enqueue_action wd x (in_gen x) ActDelete now ''5-leaked-resource'')
               (\<lambda>a. svc_ret [a])) (\<lambda>jobs.
         svc_bind (mark_releasing (rr_inst r) [r] now ''5-leaked-resource'') (\<lambda>marks.
         svc_bind (sweep_leaks wd (rr_inst r # seen) rs now) (\<lambda>more. svc_ret (jobs @ marks @ more)))))"

fun sweep_orphans :: "endpoint list \<Rightarrow> instant \<Rightarrow> (platform, reconcile_action list) svc" where
  "sweep_orphans [] now = svc_ret []"
| "sweep_orphans (e # es) now =
     svc_bind (delete_endpoints (ep_inst e) [e] now ''10-orphan-endpoint'') (\<lambda>dels.
     svc_bind (sweep_orphans es now) (\<lambda>more. svc_ret (dels @ more)))"

definition reconcile_leaks :: "world \<Rightarrow> instant \<Rightarrow> nat \<Rightarrow> (platform, reconcile_action list) svc" where
  "reconcile_leaks wd now limit =
     svc_bind (on_inst (tx_bind (list_leaked_resources limit) (\<lambda>rs.
         tx_bind (list_orphan_endpoints limit) (\<lambda>es. tx_ret (rs, es))))) (\<lambda>(leaked, orphans).
     svc_bind (sweep_leaks wd [] leaked now) (\<lambda>acts.
     svc_bind (sweep_orphans orphans now) (\<lambda>more. svc_ret (acts @ more))))"

definition reconcile_once ::
    "world \<Rightarrow> sources \<Rightarrow> instant \<Rightarrow> int \<Rightarrow> nat \<Rightarrow> (platform, reconcile_action list) svc" where
  "reconcile_once wd so now stuck_after limit =
     svc_bind (on_inst (list_reconcilable limit)) (\<lambda>xs.
     svc_bind (reconcile_each wd so xs now stuck_after) (\<lambda>acts.
     svc_bind (reconcile_leaks wd now limit) (\<lambda>more. svc_ret (acts @ more))))"

end
