(* ===== verification/Instance_Moves.thy ===== *)
theory Instance_Moves
  imports Instance_Calls Reconciler
begin

text \<open>
  A guarded move is two units of work: the transition, and for a state that frees capacity the
  release of the hold. Seen as one step, \<open>entered\<close>, it keeps the platform invariant for every
  target state, \<open>archived\<close> included; the service's \<open>apply_transition\<close> and \<open>expire\<close> and the
  reconciler's \<open>drive_transition\<close> all take that step and no other.
\<close>

section \<open>The step\<close>

definition transitioned ::
    "inst_row \<Rightarrow> instance_state \<Rightarrow> string \<Rightarrow> event_actor \<Rightarrow> instant \<Rightarrow> instdb \<Rightarrow> instdb" where
  "transitioned r t reason actor now db =
     log_event (event_of (moved r t now) (Some (i_state r)) reason actor now) (with_row (moved r t now) db)"

definition freed :: "inst_row \<Rightarrow> instance_state \<Rightarrow> instant \<Rightarrow> quotadb \<Rightarrow> quotadb" where
  "freed r t now db = (if release_state t then snd (svc_release (Uid (i_id r)) now db) else db)"

definition entered ::
    "inst_row \<Rightarrow> instance_state \<Rightarrow> string \<Rightarrow> event_actor \<Rightarrow> instant \<Rightarrow> platform \<Rightarrow> platform" where
  "entered r t reason actor now p =
     p\<lparr>p_inst := transitioned r t reason actor now (p_inst p), p_quota := freed r t now (p_quota p)\<rparr>"

lemma entered_simps [simp]:
  "p_jobs (entered r t reason actor now p) = p_jobs p"
  "p_images (entered r t reason actor now p) = p_images p"
  "p_draws (entered r t reason actor now p) = p_draws p"
  "p_inst (entered r t reason actor now p) = transitioned r t reason actor now (p_inst p)"
  "p_quota (entered r t reason actor now p) = freed r t now (p_quota p)"
  by (simp_all add: entered_def)

lemma freed_facts:
  assumes "quotadb_ok db"
  shows "quotadb_ok (freed r t now db)"
    and "is_held (freed r t now db) k \<longleftrightarrow> is_held db k \<and> (release_state t \<longrightarrow> k \<noteq> i_id r)"
  using ledger.free_outcome [OF assms, of "i_id r" now] assms by (auto simp: freed_def)

lemma transitioned_rows:
  assumes "instdb_ok db" and "r \<in> set (nd_rows db)"
  shows "set (nd_rows (transitioned r t reason actor now db)) = insert (moved r t now) (set (nd_rows db) - {r})"
  using rows_with_row [OF assms, of "moved r t now"] by (simp add: transitioned_def moved_def)

lemma same_row: "instdb_ok db \<Longrightarrow> x \<in> set (nd_rows db) \<Longrightarrow> y \<in> set (nd_rows db) \<Longrightarrow> i_id x = i_id y \<Longrightarrow> x = y"
  using instdb_okD(3) by (auto simp: distinct_map dest: inj_onD)

lemma entered_ok:
  assumes ok: "platform_ok wd p" and r: "r \<in> set (nd_rows (p_inst p))" and mv: "instance_move (i_state r) t"
    and reason: "nonempty reason"
  shows "platform_ok wd (entered r t reason actor now p) \<and> platform_grows p (entered r t reason actor now p)"
proof -
  let ?a = "p_inst p" and ?q = "entered r t reason actor now p"
  note iok = platform_okD(3) [OF ok] and rows = transitioned_rows [OF platform_okD(3) [OF ok] r, of t reason actor now]
  have step: "instdb_ok (p_inst ?q)" "inst_grows ?a (p_inst ?q)"
    using transition_ok [OF iok r mv reason, of now actor] by (simp_all add: transitioned_def)
  note quota = freed_facts [OF platform_okD(2) [OF ok], of r t now]
  have refs: "row_refs (wd_cat wd) x" if x: "x \<in> set (nd_rows (p_inst ?q))" for x
  proof (cases "x = moved r t now")
    case True
    then show ?thesis using platform_okD(7) [OF ok r] by (simp add: row_refs_def moved_def)
  next
    case False
    then show ?thesis using x rows platform_okD(7) [OF ok] by auto
  qed
  have corr: "corrective_row (p_inst ?q) j" if "corrective_row ?a j" for j
    using that step(2) by (rule corrective_row_grows)
  have jobs: "jobs_owned wd ?q" using platform_okD(4) [OF ok] corr by (simp add: jobs_owned_def)
  have "holds_live ?q"
    unfolding holds_live_def
  proof (intro allI impI)
    fix k assume "is_held (p_quota ?q) k"
    then have held: "is_held (p_quota p) k" "release_state t \<longrightarrow> k \<noteq> i_id r" by (simp_all add: quota(2))
    obtain x where x: "x \<in> set (nd_rows ?a)" "i_id x = k" "i_state x \<noteq> IArchived"
      using platform_okD(5) [OF ok] held(1) by (auto simp: holds_live_def)
    show "\<exists>x \<in> set (nd_rows (p_inst ?q)). i_id x = k \<and> i_state x \<noteq> IArchived"
    proof (cases "x = r")
      case True
      then have "t \<noteq> IArchived" using held(2) x(2) by (cases t) auto
      then show ?thesis using True x(2) rows by (intro bexI [of _ "moved r t now"]) (auto simp: moved_def)
    next
      case False
      then show ?thesis using x rows by (intro bexI [of _ x]) auto
    qed
  qed
  then show ?thesis
    using platform_okD [OF ok] step quota(1) refs jobs by (simp add: platform_ok_def platform_grows_def)
qed

text \<open>After the step: the row is in the target state, and a freeing state has no hold.\<close>

lemma find_inst_transitioned:
  assumes "instdb_ok db" and "r \<in> set (nd_rows db)"
  shows "find_inst i (transitioned r t reason actor now db)
    = (if as_uuid i = Some (i_id r) then Some (moved r t now) else find_inst i db)"
  using find_inst_with_row [OF assms, of "moved r t now"] by (simp add: transitioned_def moved_def)

lemma find_inst_Uid: "instdb_ok db \<Longrightarrow> find_inst i db = Some r \<Longrightarrow> i = Uid (i_id r) \<and> r \<in> set (nd_rows db)"
  by (cases i) (auto simp: find_inst_Some)

lemma moved_gen [simp]: "i_gen (moved r t now) = i_gen r" "i_state (moved r t now) = t" "i_id (moved r t now) = i_id r"
  by (simp_all add: moved_def)

section \<open>The blocks\<close>

lemma guarded_transition_eq:
  assumes ok: "instdb_ok db"
  shows "guarded_transition i t reason actor now db = (case find_inst i db of
      None \<Rightarrow> Inl LookupError
    | Some r \<Rightarrow>
        if i_state r = t then Inr ((row_inst r, True), db)
        else if \<not> instance_move (i_state r) t
        then Inl (IllegalInstanceTransitionError (instance_state_name (i_state r)) (instance_state_name t))
        else if \<not> nonempty reason then Inl ValueError
        else Inr ((row_inst (moved r t now), False), transitioned r t reason actor now db))"
  by (auto simp: guarded_transition_def tx_bind_def get_instance_eq [OF ok] transition_eq [OF ok] tx_raise_def
      tx_ret_def row_inst_def legal_iff_move transitioned_def split: option.splits)

lemma drive_block_eq:
  assumes ok: "instdb_ok db"
  shows "drive_block i t reason now db = (case find_inst i db of
      None \<Rightarrow> Inr (None, db)
    | Some r \<Rightarrow>
        if i_state r = t then Inr (Some (row_inst r, False), db)
        else if \<not> instance_move (i_state r) t then Inl ProgrammingError
        else if \<not> nonempty reason then Inl ValueError
        else Inr (Some (row_inst (moved r t now), True), transitioned r t reason BySystem now db))"
  by (auto simp: drive_block_def tx_bind_def get_instance_eq [OF ok] transition_eq [OF ok] tx_raise_def
      tx_ret_def row_inst_def transitioned_def split: option.splits)

lemma expire_block_eq:
  assumes ok: "instdb_ok db"
  shows "expire_block i now db = (case find_inst i db of
      None \<Rightarrow> Inl LookupError
    | Some r \<Rightarrow>
        if i_state r = IExpired then Inr ((row_inst r, True), db)
        else if \<not> instance_move (i_state r) IExpired then Inl ValueError
        else Inr ((row_inst (moved r IExpired now), False), transitioned r IExpired ''ttl expired'' BySystem now db))"
proof -
  have "nonempty ''ttl expired''" by code_simp
  then show ?thesis
    by (auto simp: expire_block_def tx_bind_def get_instance_eq [OF ok] transition_eq [OF ok] tx_raise_def
      tx_ret_def row_inst_def can_transition_to_def legal_iff_move transitioned_def split: option.splits)
qed

section \<open>The calls\<close>

lemma released_eq:
  assumes "quotadb_ok db"
  shows "svc_release (Uid k) now db = (Inr (is_held db k), snd (svc_release (Uid k) now db))"
  using ledger.free_outcome(1) [OF assms, of k now] by (metis prod.collapse)

lemma apply_transition_eq:
  assumes ok: "platform_ok wd p"
  shows "apply_transition i t reason actor now p = (case find_inst i (p_inst p) of
      None \<Rightarrow> (Inl LookupError, p)
    | Some r \<Rightarrow>
        if i_state r = t then (Inr (row_inst r), p)
        else if \<not> instance_move (i_state r) t
        then (Inl (IllegalInstanceTransitionError (instance_state_name (i_state r)) (instance_state_name t)), p)
        else if \<not> nonempty reason then (Inl ValueError, p)
        else (Inr (row_inst (moved r t now)), entered r t reason actor now p))"
proof (cases "find_inst i (p_inst p)")
  case None
  then show ?thesis
    by (simp add: apply_transition_def svc_bind_def on_inst_eq guarded_transition_eq [OF platform_okD(3) [OF ok]])
next
  case (Some r)
  have i: "i = Uid (i_id r)" using find_inst_Uid [OF platform_okD(3) [OF ok] Some] by simp
  note rel = released_eq [OF platform_okD(2) [OF ok], of "i_id r" now]
  have f: "fst (svc_release (Uid (i_id r)) now (p_quota p)) = Inr (is_held (p_quota p) (i_id r))"
    by (subst rel) simp
  show ?thesis
    using Some i f
    by (simp add: apply_transition_def svc_bind_def on_inst_eq on_quota_eq guarded_transition_eq [OF platform_okD(3) [OF ok]]
        svc_ret_def entered_def freed_def)
qed

lemma drive_transition_eq:
  assumes ok: "platform_ok wd p"
  shows "drive_transition i t reason now c p = (case find_inst i (p_inst p) of
      None \<Rightarrow> (Inr (None, []), p)
    | Some r \<Rightarrow>
        if i_state r = t then (Inr (Some (row_inst r), []), p)
        else if \<not> instance_move (i_state r) t then (Inl ProgrammingError, p)
        else if \<not> nonempty reason then (Inl ValueError, p)
        else (Inr (Some (row_inst (moved r t now)), [plain_action i c ''transition'']),
          entered r t reason BySystem now p))"
proof (cases "find_inst i (p_inst p)")
  case None
  then show ?thesis
    by (simp add: drive_transition_def svc_bind_def on_inst_eq drive_block_eq [OF platform_okD(3) [OF ok]] svc_ret_def)
next
  case (Some r)
  have i: "i = Uid (i_id r)" using find_inst_Uid [OF platform_okD(3) [OF ok] Some] by simp
  note rel = released_eq [OF platform_okD(2) [OF ok], of "i_id r" now]
  have f: "fst (svc_release (Uid (i_id r)) now (p_quota p)) = Inr (is_held (p_quota p) (i_id r))"
    by (subst rel) simp
  show ?thesis
    using Some i f
    by (simp add: drive_transition_def svc_bind_def on_inst_eq on_quota_eq drive_block_eq [OF platform_okD(3) [OF ok]]
        svc_ret_def entered_def freed_def)
qed

text \<open>What the mover returns is known and in the state asked for.\<close>

lemma run_apply:
  "svc_run (platform_ok wd) platform_grows (\<lambda>_. True) (apply_transition i t reason actor now)
     (\<lambda>x p. known x (p_inst p))"
proof (rule svc_runI)
  fix p assume ok: "platform_ok wd p"
  let ?m = "apply_transition i t reason actor now p"
  show "platform_ok wd (snd ?m) \<and> platform_grows p (snd ?m)
      \<and> (\<forall>x. fst ?m = Inr x \<longrightarrow> known x (p_inst (snd ?m)))"
  proof (cases "find_inst i (p_inst p)")
    case None
    then show ?thesis using ok by (simp add: apply_transition_eq [OF ok])
  next
    case (Some r)
    note r = find_inst_Uid [OF platform_okD(3) [OF ok] Some]
    show ?thesis
      using ok Some r entered_ok [OF ok, of r t reason actor now] known_row [OF platform_okD(3) [OF ok], of r]
        known_row [OF platform_okD(3), of wd "entered r t reason actor now p" "moved r t now"]
        transitioned_rows [OF platform_okD(3) [OF ok], of r t reason actor now]
      by (auto simp: apply_transition_eq [OF ok])
  qed
qed

lemma run_drive:
  "svc_run (platform_ok wd) platform_grows (\<lambda>_. True) (drive_transition i t reason now c)
     (\<lambda>r p. \<forall>y. fst r = Some y \<longrightarrow> known y (p_inst p) \<and> in_id y = i)"
proof (rule svc_runI)
  fix p assume ok: "platform_ok wd p"
  let ?m = "drive_transition i t reason now c p"
  show "platform_ok wd (snd ?m) \<and> platform_grows p (snd ?m)
      \<and> (\<forall>x. fst ?m = Inr x \<longrightarrow> (\<forall>y. fst x = Some y \<longrightarrow> known y (p_inst (snd ?m)) \<and> in_id y = i))"
  proof (cases "find_inst i (p_inst p)")
    case None
    then show ?thesis using ok by (simp add: drive_transition_eq [OF ok])
  next
    case (Some r)
    note r = find_inst_Uid [OF platform_okD(3) [OF ok] Some]
    show ?thesis
      using ok Some r entered_ok [OF ok, of r t reason BySystem now] known_row [OF platform_okD(3) [OF ok], of r]
        known_row [OF platform_okD(3), of wd "entered r t reason BySystem now p" "moved r t now"]
        transitioned_rows [OF platform_okD(3) [OF ok], of r t reason BySystem now]
      by (auto simp: drive_transition_eq [OF ok] row_inst_def)
  qed
qed

end
