(* ===== verification/Instance_Runs.thy ===== *)
theory Instance_Runs
  imports Instance_Moves
begin

text \<open>
  Composition of platform calls that act on one instance: \<open>steady wd x m\<close> says that \<open>m\<close>, run where
  the value \<open>x\<close> is known, keeps the platform invariant and lets the platform only grow. The service's
  calls and the reconciler's steps are built from the pieces below by these rules.
\<close>

section \<open>Steady calls\<close>

definition steady :: "world \<Rightarrow> inst \<Rightarrow> (platform, 'a) svc \<Rightarrow> bool" where
  "steady wd x m \<longleftrightarrow> svc_run (platform_ok wd) platform_grows (\<lambda>p. known x (p_inst p)) m (\<lambda>_ _. True)"

lemma steadyD:
  "steady wd x m \<Longrightarrow> platform_ok wd p \<Longrightarrow> known x (p_inst p)
    \<Longrightarrow> platform_ok wd (snd (m p)) \<and> platform_grows p (snd (m p))"
  by (simp add: steady_def svc_run_def)

abbreviation runs :: "world \<Rightarrow> (platform, 'a) svc \<Rightarrow> ('a \<Rightarrow> platform \<Rightarrow> bool) \<Rightarrow> bool" where
  "runs wd m post \<equiv> svc_run (platform_ok wd) platform_grows (\<lambda>_. True) m post"

lemma known_frame: "known x (p_inst p) \<Longrightarrow> platform_grows p q \<Longrightarrow> known x (p_inst q)"
  by (simp add: platform_grows_def known_grows)

lemma runs_steady: "runs wd m post \<Longrightarrow> steady wd x m"
  unfolding steady_def by (rule svc_run_weaken) simp_all

lemma runs_any: "runs wd m post \<Longrightarrow> runs wd m (\<lambda>_ _. True)"
  by (rule svc_run_weaken) simp_all

lemma steady_ret: "steady wd x (svc_ret r)"
  unfolding steady_def by (rule plat.run_ret) simp

lemma keep_known:
  assumes "svc_run (platform_ok wd) platform_grows (\<lambda>p. known x (p_inst p)) m mid"
  shows "svc_run (platform_ok wd) platform_grows (\<lambda>p. known x (p_inst p)) m (\<lambda>r p. mid r p \<and> known x (p_inst p))"
proof (rule svc_run_weaken)
  show "svc_run (platform_ok wd) platform_grows (\<lambda>p. known x (p_inst p) \<and> known x (p_inst p)) m
      (\<lambda>r p. mid r p \<and> known x (p_inst p))"
    by (rule svc_run_frame [OF assms]) (rule known_frame)
qed simp_all

lemma steady_bind:
  assumes "steady wd x m" and "\<And>r. steady wd x (f r)"
  shows "steady wd x (svc_bind m f)"
  unfolding steady_def
proof (rule plat.run_bind)
  show "svc_run (platform_ok wd) platform_grows (\<lambda>p. known x (p_inst p)) m (\<lambda>_ p. known x (p_inst p))"
    by (rule svc_run_weaken [OF keep_known [OF assms(1) [unfolded steady_def]]]) simp_all
  show "svc_run (platform_ok wd) platform_grows (\<lambda>p. known x (p_inst p)) (f r) (\<lambda>_ _. True)" for r
    using assms(2) by (simp add: steady_def)
qed

text \<open>Go on with the value an earlier call returned.\<close>

lemma steady_bind_known:
  assumes m: "svc_run (platform_ok wd) platform_grows (\<lambda>p. known x (p_inst p)) m (\<lambda>r p. \<forall>y. g r = Some y \<longrightarrow> known y (p_inst p))"
    and some: "\<And>r y. g r = Some y \<Longrightarrow> steady wd y (f r)" and none: "\<And>r. g r = None \<Longrightarrow> steady wd x (f r)"
  shows "steady wd x (svc_bind m f)"
  unfolding steady_def
proof (rule plat.run_bind)
  let ?mid = "\<lambda>r p. (\<forall>y. g r = Some y \<longrightarrow> known y (p_inst p)) \<and> known x (p_inst p)"
  show "svc_run (platform_ok wd) platform_grows (\<lambda>p. known x (p_inst p)) m ?mid"
    by (rule keep_known [OF m])
  show "svc_run (platform_ok wd) platform_grows (?mid r) (f r) (\<lambda>_ _. True)" for r
  proof (cases "g r")
    case None
    then show ?thesis by (intro svc_run_weaken [OF none [OF None, unfolded steady_def]]) simp_all
  next
    case (Some y)
    then show ?thesis by (intro svc_run_weaken [OF some [OF Some, unfolded steady_def]]) simp_all
  qed
qed

lemma runs_bind_known:
  assumes "runs wd m (\<lambda>r p. known (g r) (p_inst p))" and "\<And>r. steady wd (g r) (f r)"
  shows "runs wd (svc_bind m f) (\<lambda>_ _. True)"
  by (rule plat.run_bind [OF assms(1)]) (rule assms(2) [unfolded steady_def])

lemma runs_bind:
  assumes "runs wd m (\<lambda>_ _. True)" and "\<And>r. runs wd (f r) (\<lambda>_ _. True)"
  shows "runs wd (svc_bind m f) (\<lambda>_ _. True)"
  using assms by (rule plat.run_bind)

lemma runs_ret: "runs wd (svc_ret r) (\<lambda>_ _. True)"
  by (rule plat.run_ret) simp

lemma steady_catch: "steady wd x m \<Longrightarrow> (\<And>e. runs wd (h e) (\<lambda>_ _. True)) \<Longrightarrow> steady wd x (svc_catch m h)"
  unfolding steady_def by (rule plat.run_catch)

text \<open>Case analysis in the continuation.\<close>

lemma steady_split:
  "(\<And>a b. r = (a, b) \<Longrightarrow> steady wd x (f a b)) \<Longrightarrow> steady wd x (case r of (a, b) \<Rightarrow> f a b)"
  "(o' = None \<Longrightarrow> steady wd x n) \<Longrightarrow> (\<And>v. o' = Some v \<Longrightarrow> steady wd x (s v))
    \<Longrightarrow> steady wd x (case o' of None \<Rightarrow> n | Some v \<Rightarrow> s v)"
  "(c \<Longrightarrow> steady wd x a') \<Longrightarrow> (\<not> c \<Longrightarrow> steady wd x b') \<Longrightarrow> steady wd x (if c then a' else b')"
  by (simp_all split: prod.splits option.splits)

lemma runs_split:
  "(\<And>a b. r = (a, b) \<Longrightarrow> runs wd (f a b) post) \<Longrightarrow> runs wd (case r of (a, b) \<Rightarrow> f a b) post"
  "(o' = None \<Longrightarrow> runs wd n post) \<Longrightarrow> (\<And>v. o' = Some v \<Longrightarrow> runs wd (s v) post)
    \<Longrightarrow> runs wd (case o' of None \<Rightarrow> n | Some v \<Rightarrow> s v) post"
  "(c \<Longrightarrow> runs wd a' post) \<Longrightarrow> (\<not> c \<Longrightarrow> runs wd b' post) \<Longrightarrow> runs wd (if c then a' else b') post"
  by (simp_all split: prod.splits option.splits)

section \<open>The pieces\<close>

lemma runs_inst: "tx_grows instdb_ok (calm (wd_cat wd)) m \<Longrightarrow> runs wd (on_inst m) (\<lambda>_ _. True)"
  by (rule run_inst_any)

lemma runs_inst_read: "(\<And>db x db'. m db = Inr (x, db') \<Longrightarrow> db' = db) \<Longrightarrow> runs wd (on_inst m) (\<lambda>_ _. True)"
  by (rule run_read)

lemma runs_quota: "may_hold (\<lambda>_. False) m \<Longrightarrow> runs wd (on_quota m) (\<lambda>_ _. True)"
  using run_quota [of "\<lambda>_. False" m wd] by simp

lemmas runs_release = runs_quota [OF release_may_hold]
lemmas runs_renew = runs_quota [OF renew_may_hold]
lemmas runs_sweep = runs_quota [OF sweep_may_hold]

lemma known_gen: "known x db \<Longrightarrow> 1 \<le> in_gen x"
  by (auto simp: known_def)

lemma steady_enqueue: "steady wd x (enqueue_corrective wd x (in_gen x) a now)"
  unfolding steady_def by (rule svc_run_weaken [OF run_enqueue]) (auto dest: known_gen)

lemma steady_enqueue_action: "steady wd x (enqueue_action wd x (in_gen x) a now c)"
  unfolding enqueue_action_def by (intro steady_bind steady_enqueue steady_split steady_ret)

text \<open>Writes of the store that return the instance they wrote.\<close>

lemma field_update_known:
  assumes ok: "instdb_ok db" and r: "r \<in> set (nd_rows db)" and s: "same_identity r new" and g: "i_gen r \<le> i_gen new"
    and up: "field_update r new db = Inr (x, db')"
  shows "known x db' \<and> in_id x = Uid (i_id r) \<and> in_gen x = i_gen new"
proof -
  have x: "x = row_inst new" and db': "db' = with_row new db"
    using up by (auto simp: field_update_def split: if_splits sum.splits)
  have "new \<in> set (nd_rows db')" using rows_with_row [OF ok r, of new] s by (simp add: db' same_identity_def)
  then show ?thesis
    using row_gen_pos [OF ok r] g s unfolding known_def
    by (auto simp: x row_inst_def same_identity_def intro!: bexI [of _ new])
qed

lemma updates_row_known:
  assumes ok: "instdb_ok db" and f: "field_fun f" and run: "updates_row i f db = Inr (x, db')"
  shows "known x db' \<and> in_id x = i"
proof -
  obtain r where r: "find_inst i db = Some r" and up: "field_update r (f r) db = Inr (x, db')"
    using run by (auto simp: updates_row_def split: option.splits)
  from find_inst_Uid [OF ok r] field_update_known [OF ok _ _ _ up] f show ?thesis by (auto simp: field_fun_def)
qed

lemma field_ops_known:
  assumes ok: "instdb_ok db"
  shows "set_desired_state i d now db = Inr (x, db') \<Longrightarrow> known x db' \<and> in_id x = i"
    "bump_generation i now db = Inr (x, db') \<Longrightarrow> known x db' \<and> in_id x = i"
    "set_runtime_facts i now img seed expires db = Inr (x, db') \<Longrightarrow> known x db' \<and> in_id x = i"
    "set_assignment cat i w now db = Inr (x, db') \<Longrightarrow> known x db' \<and> in_id x = i"
proof -
  note up = updates_row_known [OF ok]
  show "set_desired_state i d now db = Inr (x, db') \<Longrightarrow> known x db' \<and> in_id x = i"
    by (rule up [where f = "\<lambda>r. r\<lparr>i_desired := d, i_updated := now\<rparr>"])
      (simp_all add: set_desired_state_eq [OF ok] field_fun_def same_identity_def)
  show "bump_generation i now db = Inr (x, db') \<Longrightarrow> known x db' \<and> in_id x = i"
    by (rule up [where f = "\<lambda>r. r\<lparr>i_gen := i_gen r + 1, i_updated := now\<rparr>"])
      (simp_all add: bump_generation_eq [OF ok] field_fun_def same_identity_def)
  show "set_runtime_facts i now img seed expires db = Inr (x, db') \<Longrightarrow> known x db' \<and> in_id x = i"
    by (rule up [where f = "\<lambda>r. r\<lparr>i_image := or_else img (i_image r),
          i_seed := or_else seed (i_seed r), i_expires := or_else expires (i_expires r), i_updated := now\<rparr>"])
      (simp_all add: set_runtime_facts_eq [OF ok] field_fun_def same_identity_def)
  show "set_assignment cat i w now db = Inr (x, db') \<Longrightarrow> known x db' \<and> in_id x = i"
    by (rule up [where f = "\<lambda>r. r\<lparr>i_worker := w, i_updated := now\<rparr>"])
      (simp_all add: set_assignment_eq [OF ok] field_fun_def same_identity_def split: if_splits)
qed

lemma run_field_op:
  assumes "tx_grows instdb_ok (calm (wd_cat wd)) m"
    and "\<And>db x db'. instdb_ok db \<Longrightarrow> m db = Inr (x, db') \<Longrightarrow> known x db' \<and> in_id x = i"
  shows "runs wd (on_inst m) (\<lambda>x p. known x (p_inst p) \<and> in_id x = i)"
  by (rule run_inst [OF assms(1), where Q = "\<lambda>x db. known x db \<and> in_id x = i"]) (rule assms(2))

lemma runs_field_ops:
  "runs wd (on_inst (set_desired_state i d now)) (\<lambda>x p. known x (p_inst p) \<and> in_id x = i)"
  "runs wd (on_inst (bump_generation i now)) (\<lambda>x p. known x (p_inst p) \<and> in_id x = i)"
  "runs wd (on_inst (set_runtime_facts i now img seed expires)) (\<lambda>x p. known x (p_inst p) \<and> in_id x = i)"
  "runs wd (on_inst (set_assignment cat i w now)) (\<lambda>x p. known x (p_inst p) \<and> in_id x = i)"
  by (rule run_field_op [OF field_ops_calm(1)], erule (1) field_ops_known)
    (rule run_field_op [OF field_ops_calm(2)], erule (1) field_ops_known,
     rule run_field_op [OF field_ops_calm(3)], erule (1) field_ops_known,
     rule run_field_op [OF field_ops_calm(4)], erule (1) field_ops_known)

lemma fences_known:
  assumes ok: "instdb_ok db"
  shows "fence_missing_container i g now db = Inr (Some x, db') \<Longrightarrow> known x db'"
    "fence_stale_worker i w g now db = Inr (Some x, db') \<Longrightarrow> known x db'"
proof -
  assume run: "fence_missing_container i g now db = Inr (Some x, db')"
  obtain r where r: "find_inst i db = Some r"
      and up: "field_update r (r\<lparr>i_gen := i_gen r + 1, i_updated := now\<rparr>) db = Inr (x, db')"
    using run by (auto simp: fence_missing_eq [OF ok] split: option.splits if_splits sum.splits)
  from find_inst_Uid [OF ok r] field_update_known [OF ok _ _ _ up] show "known x db'"
    by (simp add: same_identity_def)
next
  assume run: "fence_stale_worker i w g now db = Inr (Some x, db')"
  obtain r where r: "find_inst i db = Some r"
      and up: "field_update r (r\<lparr>i_worker := None, i_gen := i_gen r + 1, i_updated := now\<rparr>) db = Inr (x, db')"
    using run by (auto simp: fence_stale_eq [OF ok] split: option.splits if_splits sum.splits)
  from find_inst_Uid [OF ok r] field_update_known [OF ok _ _ _ up] show "known x db'"
    by (simp add: same_identity_def)
qed

lemma run_fence:
  assumes "tx_grows instdb_ok (calm (wd_cat wd)) m"
    and "\<And>db x db'. instdb_ok db \<Longrightarrow> m db = Inr (Some x, db') \<Longrightarrow> known x db'"
  shows "runs wd (on_inst m) (\<lambda>r p. \<forall>y. r = Some y \<longrightarrow> known y (p_inst p))"
  by (rule run_inst [OF assms(1), where Q = "\<lambda>r db. \<forall>y. r = Some y \<longrightarrow> known y db"]) (simp add: assms(2))

lemma runs_fences:
  "runs wd (on_inst (fence_missing_container i g now)) (\<lambda>r p. \<forall>y. r = Some y \<longrightarrow> known y (p_inst p))"
  "runs wd (on_inst (fence_stale_worker i w g now)) (\<lambda>r p. \<forall>y. r = Some y \<longrightarrow> known y (p_inst p))"
  by (rule run_fence [OF fences_calm(1)], erule (1) fences_known)
    (rule run_fence [OF fences_calm(2)], erule (1) fences_known)

lemma find_inst_known: "instdb_ok db \<Longrightarrow> find_inst i db = Some r \<Longrightarrow> known (row_inst r) db \<and> in_id (row_inst r) = i"
  using known_row find_inst_Uid by (fastforce simp: row_inst_def)

lemma runs_get:
  "runs wd (on_inst (get_instance i)) (\<lambda>r p. \<forall>y. r = Some y \<longrightarrow> known y (p_inst p))"
proof (rule run_inst [where Q = "\<lambda>r db. \<forall>y. r = Some y \<longrightarrow> known y db"])
  show "tx_grows instdb_ok (calm (wd_cat wd)) (get_instance i)"
    by (rule tx_growsI) (auto simp: get_instance_eq calm_ev.grows_refl)
  show "\<forall>y. x = Some y \<longrightarrow> known y db'" if "instdb_ok db" "get_instance i db = Inr (x, db')" for db x db'
    using that find_inst_known by (fastforce simp: get_instance_eq)
qed

end
