(* ===== verification/Lifecycle_Runs.thy ===== *)
theory Lifecycle_Runs
  imports Instance_Runs
begin

text \<open>
  Each call of the lifecycle service keeps the platform invariant and only lets the platform grow.
  A hold is taken only for an instance that is still \<open>requested\<close> (a launch) or has just accepted a
  generation bump (a reset), so it always has a live owner.
\<close>

section \<open>Holds are taken for live instances\<close>

definition live_row :: "ident \<Rightarrow> instdb \<Rightarrow> bool" where
  "live_row i db \<longleftrightarrow> (\<exists>r. find_inst i db = Some r \<and> i_state r \<noteq> IArchived)"

lemma live_rowD: "instdb_ok (p_inst p) \<Longrightarrow> live_row i (p_inst p) \<Longrightarrow> i = Uid k \<Longrightarrow> live_id k p"
  by (auto simp: live_row_def live_id_def find_inst_Some)

lemma run_quota_live:
  assumes "may_hold (\<lambda>k. i = Uid k) m"
  shows "svc_run (platform_ok wd) platform_grows (\<lambda>p. live_row i (p_inst p)) (on_quota m) (\<lambda>_ _. True)"
proof (rule svc_runI)
  fix p assume ok: "platform_ok wd p" and l: "live_row i (p_inst p)"
  show "platform_ok wd (snd (on_quota m p)) \<and> platform_grows p (snd (on_quota m p))
      \<and> (\<forall>x. fst (on_quota m p) = Inr x \<longrightarrow> True)"
    using run_quota [OF assms, of wd] ok live_rowD [OF platform_okD(3) [OF ok] l] by (auto simp: svc_run_def)
qed

lemma draw_keeps_store:
  "svc_run (platform_ok wd) platform_grows (\<lambda>p. Q (p_inst p)) draw (\<lambda>_ p. Q (p_inst p))"
  using run_draw [of wd] by (auto simp: svc_run_def draw_def)

text \<open>The ledger calls of a reset.\<close>

lemma may_hold_ret: "may_hold K (svc_ret x)" "may_hold K (svc_raise e)"
  by (auto simp: may_hold_def svc_ret_def svc_raise_def)

lemma may_hold_weaken: "may_hold K m \<Longrightarrow> (\<And>k. K k \<Longrightarrow> K' k) \<Longrightarrow> may_hold K' m"
  by (fastforce simp: may_hold_def)

lemma may_hold_bind:
  assumes m: "may_hold K m" and f: "\<And>x. may_hold K (f x)"
  shows "may_hold K (svc_bind m f)"
  unfolding may_hold_def
proof (intro allI impI)
  fix db assume ok: "quotadb_ok db"
  obtain out d where run: "m db = (out, d)" by (cases "m db")
  have d: "quotadb_ok d" "\<And>k. is_held d k \<Longrightarrow> is_held db k \<or> K k"
    using m ok run by (auto simp: may_hold_def dest!: spec [of _ db])
  show "quotadb_ok (snd (svc_bind m f db)) \<and> (\<forall>k. is_held (snd (svc_bind m f db)) k \<longrightarrow> is_held db k \<or> K k)"
  proof (cases out)
    case (Inl e)
    then show ?thesis using d run by (simp add: svc_bind_def)
  next
    case (Inr x)
    then show ?thesis using d f [of x] run by (auto simp: svc_bind_def may_hold_def)
  qed
qed

lemma may_hold_catch:
  assumes m: "may_hold K m" and h: "\<And>e. may_hold K (h e)"
  shows "may_hold K (svc_catch m h)"
  unfolding may_hold_def
proof (intro allI impI)
  fix db assume ok: "quotadb_ok db"
  obtain out d where run: "m db = (out, d)" by (cases "m db")
  have d: "quotadb_ok d" "\<And>k. is_held d k \<Longrightarrow> is_held db k \<or> K k"
    using m ok run by (auto simp: may_hold_def dest!: spec [of _ db])
  show "quotadb_ok (snd (svc_catch m h db)) \<and> (\<forall>k. is_held (snd (svc_catch m h db)) k \<longrightarrow> is_held db k \<or> K k)"
  proof (cases out)
    case (Inr x)
    then show ?thesis using d run by (simp add: svc_catch_def)
  next
    case (Inl e)
    then show ?thesis using d h [of e] run by (auto simp: svc_catch_def may_hold_def)
  qed
qed

lemma get_reservation_holds: "may_hold K (get_reservation i)"
  by (simp add: may_hold_def get_reservation_eq)

lemma reset_placement_ok: "all_valid reservation_item_post_init items \<Longrightarrow> placement_ok (reset_placement i w items expires now)"
  by (simp add: placement_ok_def reset_placement_def all_valid_iff)

lemma reestablish_may_hold:
  assumes "all_valid reservation_item_post_init items"
  shows "may_hold (\<lambda>k. i = Uid k) (reestablish_hold wd created i expires now req items)"
proof -
  have sel: "may_hold (\<lambda>k. i = Uid k)
      (select_and_reserve (wd_fleet wd) created (reset_placement i w items expires now))" for w
    using select_may_hold [OF reset_placement_ok [OF assms, of i w expires now], of "wd_fleet wd" created]
    by (simp add: reset_placement_def)
  have ren: "may_hold (\<lambda>k. i = Uid k) (svc_renew i expires)" by (rule may_hold_weaken [OF renew_may_hold]) simp
  have rest: "may_hold (\<lambda>k. i = Uid k) (svc_bind (get_reservation i) (\<lambda>r. case r of
       Some _ \<Rightarrow> svc_bind (svc_reactivate i expires) (\<lambda>_. svc_ret ())
     | None \<Rightarrow> (case req of
           Some w \<Rightarrow> svc_bind (select_and_reserve (wd_fleet wd) created (reset_placement i w items expires now))
             (\<lambda>_. svc_ret ())
         | None \<Rightarrow> svc_ret ())))"
    by (rule may_hold_bind [OF get_reservation_holds])
      (auto split: option.splits intro: may_hold_bind reactivate_may_hold may_hold_ret sel)
  show ?thesis
    unfolding reestablish_hold_def
    by (rule may_hold_catch [OF ren]) (use rest in \<open>simp add: may_hold_ret\<close>)
qed

section \<open>Launch\<close>

definition valid_launch :: "launch_request \<Rightarrow> bool" where
  "valid_launch q \<longleftrightarrow> all_valid reservation_item_post_init (lr_items q)
     \<and> all_valid ceiling_requirement_post_init (lr_ceilings q)"

lemma launch_placement_ok: "valid_launch q \<Longrightarrow> placement_ok (launch_placement q img)"
  by (simp add: valid_launch_def placement_ok_def launch_placement_def)

lemma row_inst_simps [simp]:
  "in_id (row_inst r) = Uid (i_id r)" "in_state (row_inst r) = i_state r" "in_gen (row_inst r) = i_gen r"
  "in_desired (row_inst r) = i_desired r" "in_worker (row_inst r) = i_worker r" "in_image (row_inst r) = i_image r"
  by (simp_all add: row_inst_def)

lemma admit_calm: "tx_grows instdb_ok (calm cat) (admit_request cat created q img)"
proof (rule tx_growsI)
  fix db x db' assume ok: "instdb_ok db" and run: "admit_request cat created q img db = Inr (x, db')"
  have add: "tx_grows instdb_ok (calm cat) (add_instance cat created (requested_instance q img) (lr_now q))"
    if "instance_post_init (requested_instance q img) = Inr ()"
    by (rule add_calm [OF that]) (simp add: requested_instance_def)
  have self: "instdb_ok db \<and> calm cat db db" using ok calm_ev.grows_refl by blast
  show "instdb_ok db' \<and> calm cat db db'"
  proof (cases "find_inst (lr_id q) db")
    case None
    then obtain y where y: "add_instance cat created (requested_instance q img) (lr_now q) db = Inr (y, db')"
        and ini: "instance_post_init (requested_instance q img) = Inr ()"
      using run by (auto simp: admit_request_def tx_bind_def get_instance_eq [OF ok] tx_raise_def tx_ret_def
          split: sum.splits)
    show ?thesis by (rule tx_growsD [OF add [OF ini] ok y])
  next
    case (Some r)
    then have "db' = db \<or> (\<exists>y. set_runtime_facts (lr_id q) (lr_now q) img None None db = Inr (y, db'))"
      using run by (auto simp: admit_request_def tx_bind_def get_instance_eq [OF ok] tx_raise_def tx_ret_def
          split: sum.splits if_splits)
    then show ?thesis using self tx_growsD [OF field_ops_calm(3) ok] by blast
  qed
qed

lemma admit_requested:
  assumes ok: "instdb_ok db" and run: "admit_request cat created q img db = Inr (x, db')"
  shows "\<exists>r. find_inst (lr_id q) db' = Some r \<and> i_state r = IRequested"
proof (cases "find_inst (lr_id q) db")
  case None
  let ?x = "requested_instance q img"
  from None obtain y where y: "add_instance cat created ?x (lr_now q) db = Inr (y, db')"
      and ini: "instance_post_init ?x = Inr ()"
    using run by (auto simp: admit_request_def tx_bind_def get_instance_eq [OF ok] tx_raise_def tx_ret_def
        split: sum.splits)
  obtain row where orm: "instance_to_orm ?x (in_comp ?x) (in_team ?x) (in_defn ?x, in_ver ?x) (in_worker ?x) created = Inr row"
    and rows: "nd_rows db' = nd_rows db @ [row]"
    using y by (auto simp: add_instance_eq [OF ini] split: if_splits sum.splits)
  have "lr_id q = Uid (i_id row)" "i_state row = IRequested"
    using orm by (auto simp: instance_to_orm_def requested_instance_def split: option.splits elim!: as_uuid.elims)
  then show ?thesis
    using None rows by (auto simp: find_inst_def find_row_append find_row_Cons split: option.splits)
next
  case (Some r)
  note r = find_inst_Uid [OF ok Some]
  consider "db' = db" "i_state r = IRequested"
    | y where "set_runtime_facts (lr_id q) (lr_now q) img None None db = Inr (y, db')" "i_state r = IRequested"
    using run Some by (auto simp: admit_request_def tx_bind_def get_instance_eq [OF ok] tx_raise_def tx_ret_def
        split: sum.splits if_splits)
  then show ?thesis
  proof cases
    case 1
    then show ?thesis using Some by simp
  next
    case (2 y)
    let ?new = "r\<lparr>i_image := or_else img (i_image r), i_seed := or_else None (i_seed r),
        i_expires := or_else None (i_expires r), i_updated := lr_now q\<rparr>"
    have "db' = with_row ?new db"
      using 2(1) Some by (auto simp: set_runtime_facts_eq [OF ok] updates_row_def field_update_def
          split: if_splits sum.splits)
    moreover have "find_inst (lr_id q) (with_row ?new db) = Some ?new"
      using find_inst_with_row [OF ok, of r ?new "lr_id q"] r by simp
    ultimately show ?thesis using 2(2) by simp
  qed
qed

lemma admit_live:
  "instdb_ok db \<Longrightarrow> admit_request cat created q img db = Inr (x, db') \<Longrightarrow> live_row (lr_id q) db'"
  using admit_requested unfolding live_row_def by fastforce

lemma record_placement_run:
  "runs wd (on_inst (record_placement cat i w now)) (\<lambda>x p. known x (p_inst p))"
proof (rule run_inst [where Q = known])
  show "tx_grows instdb_ok (calm (wd_cat wd)) (record_placement cat i w now)"
    unfolding record_placement_def
    by (rule calm_ev.tx_bind_grows [OF field_ops_calm(4)]) (rule transition_calm, simp)
next
  fix db x db' assume ok: "instdb_ok db" and run: "record_placement cat i w now db = Inr (x, db')"
  obtain y d where a: "set_assignment cat i (Some w) now db = Inr (y, d)"
    and t: "transition_instance i IQueued ''placed and enqueued for launch'' BySystem now d = Inr (x, db')"
    using run unfolding record_placement_def by (rule tx_bindE)
  have d: "instdb_ok d" using tx_growsD [OF field_ops_grow(4) ok a] by blast
  obtain r where r: "find_inst i d = Some r" using t by (auto simp: transition_eq [OF d] split: option.splits)
  note row = find_inst_Uid [OF d r]
  have "known (row_inst (moved r IQueued now)) (transitioned r IQueued reason actor now d)" for reason actor
    using transitioned_rows [OF d, of r IQueued reason actor now] row row_gen_pos [OF d, of r]
    unfolding known_def by (intro bexI [of _ "moved r IQueued now"]) (auto simp: row_inst_def)
  then show "known x db'"
    using t r row known_row [OF d, of r] by (auto simp: transition_eq [OF d] transitioned_def split: if_splits)
qed

lemma placement_run:
  assumes "valid_launch q"
  shows "svc_run (platform_ok wd) platform_grows (\<lambda>p. live_row (lr_id q) (p_inst p))
    (on_quota (select_and_reserve (wd_fleet wd) c (launch_placement q img))) (\<lambda>_ _. True)"
  by (rule run_quota_live)
    (use select_may_hold [OF launch_placement_ok [OF assms, of img], of "wd_fleet wd" c] in
      \<open>simp add: launch_placement_def\<close>)

lemma request_instance_run:
  assumes "valid_launch q"
  shows "runs wd (request_instance wd q) (\<lambda>_ _. True)"
proof -
  have tail: "runs wd (svc_bind (on_inst (record_placement (wd_cat wd) (lr_id q) w (lr_now q))) (\<lambda>placed.
      svc_bind (enqueue_corrective wd placed (in_gen placed) ActLaunch (lr_now q)) (\<lambda>_. svc_ret placed)))
      (\<lambda>_ _. True)" for w
    by (rule runs_bind_known [OF record_placement_run]) (intro steady_bind steady_enqueue steady_ret)
  note place = placement_run [OF assms, of wd]
  have img: "runs wd (case lr_image q of Some img \<Rightarrow> svc_ret (Some img)
      | None \<Rightarrow> on_images (tx_get (latest_image_ref (lr_defn q) (lr_ver q)))) (\<lambda>_ _. True)"
    by (rule svc_runI)
      (auto simp: svc_ret_def on_images_def svc_on_def session_scope_def tx_get_def split: option.splits)
  have admit: "runs wd (on_inst (admit_request (wd_cat wd) c q img)) (\<lambda>_ p. live_row (lr_id q) (p_inst p))" for c img
    by (rule run_inst [OF admit_calm]) (rule admit_live)
  show ?thesis
    unfolding request_instance_def
    by (rule plat.run_bind [OF img], rule plat.run_bind [OF svc_run_weaken [OF run_draw]], simp, simp,
        rule plat.run_bind [OF admit], rule plat.run_bind [OF draw_keeps_store], rule plat.run_bind [OF place],
        unfold split_def, rule tail)
qed

section \<open>Intents\<close>

lemma runs_known_any: "runs wd m (\<lambda>x p. known x (p_inst p) \<and> C x) \<Longrightarrow> runs wd m (\<lambda>x p. known x (p_inst p))"
  by (auto simp: svc_run_def)

lemma request_stop_run: "runs wd (request_stop wd i now) (\<lambda>_ _. True)"
  unfolding request_stop_def
  by (rule runs_bind_known [OF runs_known_any [OF runs_field_ops(1)]]) (intro steady_bind steady_enqueue steady_ret)

lemma bump_live:
  assumes ok: "instdb_ok db" and run: "bump_generation i now db = Inr (x, db')"
  shows "live_row i db'"
proof -
  obtain r where r: "find_inst i db = Some r"
      and up: "field_update r (r\<lparr>i_gen := i_gen r + 1, i_updated := now\<rparr>) db = Inr (x, db')"
    using run by (auto simp: bump_generation_eq [OF ok] updates_row_def split: option.splits)
  let ?new = "r\<lparr>i_gen := i_gen r + 1, i_updated := now\<rparr>"
  note row = find_inst_Uid [OF ok r]
  have "i_gen ?new \<noteq> i_gen r" by simp
  then have "?new \<noteq> r" by metis
  then have "i_state r \<noteq> IArchived" and db': "db' = with_row ?new db"
    using up by (auto simp: field_update_def split: if_splits sum.splits)
  moreover have "find_inst i (with_row ?new db) = Some ?new"
    using find_inst_with_row [OF ok, of r ?new i] row by simp
  ultimately show ?thesis by (simp add: live_row_def)
qed

lemma request_reset_run:
  assumes "all_valid reservation_item_post_init items"
  shows "runs wd (request_reset wd i expires now req items) (\<lambda>_ _. True)"
proof -
  let ?Q = "\<lambda>x p. known x (p_inst p) \<and> live_row i (p_inst p)"
  have bump: "runs wd (on_inst (bump_generation i now)) ?Q"
    by (rule run_inst [OF field_ops_calm(2), where Q = "\<lambda>x db. known x db \<and> live_row i db"])
      (use field_ops_known(2) bump_live in blast)
  have hold: "svc_run (platform_ok wd) platform_grows (?Q x)
      (on_quota (reestablish_hold wd c i expires now req items)) (\<lambda>_ p. known x (p_inst p))" for x c
  proof (rule svc_run_weaken)
    show "svc_run (platform_ok wd) platform_grows (\<lambda>p. live_row i (p_inst p) \<and> known x (p_inst p))
      (on_quota (reestablish_hold wd c i expires now req items)) (\<lambda>_ p. True \<and> known x (p_inst p))"
      by (rule svc_run_frame [OF run_quota_live [OF reestablish_may_hold [OF assms]]]) (rule known_frame)
  qed simp_all
  have draw: "svc_run (platform_ok wd) platform_grows (?Q x) draw (\<lambda>_. ?Q x)" for x
    using draw_keeps_store [of wd "\<lambda>db. known x db \<and> live_row i db"] by simp
  have tail: "svc_run (platform_ok wd) platform_grows (\<lambda>p. known x (p_inst p))
      (svc_bind (enqueue_corrective wd x (in_gen x) ActLaunch now) (\<lambda>_. svc_ret x)) (\<lambda>_ _. True)" for x
    using steady_bind [OF steady_enqueue steady_ret] by (simp add: steady_def)
  show ?thesis
    unfolding request_reset_def
    by (rule plat.run_bind [OF bump], rule plat.run_bind [OF draw], rule plat.run_bind [OF hold], rule tail)
qed

lemma request_delete_run: "runs wd (request_delete i now) (\<lambda>_ _. True)"
  unfolding request_delete_def
proof (rule runs_inst, rule tx_growsI)
  fix db x db'
  assume ok: "instdb_ok db" and run: "tx_bind (get_instance i) (\<lambda>current. case current of None \<Rightarrow> tx_raise LookupError
     | Some x \<Rightarrow> if inst_terminal x then tx_ret x else set_desired_state i DesDeleted now) db = Inr (x, db')"
  then have "db' = db \<or> set_desired_state i DesDeleted now db = Inr (x, db')"
    by (auto simp: tx_bind_def get_instance_eq [OF ok] tx_raise_def tx_ret_def split: option.splits if_splits)
  then show "instdb_ok db' \<and> calm (wd_cat wd) db db'"
    using ok calm_ev.grows_refl tx_growsD [OF field_ops_calm(1) ok] by blast
qed

lemma expire_eq:
  assumes ok: "platform_ok wd p"
  shows "expire wd i now p = (case find_inst i (p_inst p) of
      None \<Rightarrow> (Inl LookupError, p)
    | Some r \<Rightarrow>
        if i_state r = IExpired then (Inr (row_inst r), p)
        else if \<not> instance_move (i_state r) IExpired then (Inl ValueError, p)
        else svc_bind (enqueue_corrective wd (row_inst (moved r IExpired now)) (i_gen r) ActExpire now)
          (\<lambda>_. svc_ret (row_inst (moved r IExpired now))) (entered r IExpired ''ttl expired'' BySystem now p))"
proof (cases "find_inst i (p_inst p)")
  case None
  then show ?thesis
    by (simp add: expire_def svc_bind_def on_inst_eq expire_block_eq [OF platform_okD(3) [OF ok]])
next
  case (Some r)
  have i: "i = Uid (i_id r)" using find_inst_Uid [OF platform_okD(3) [OF ok] Some] by simp
  have f: "fst (svc_release (Uid (i_id r)) now (p_quota p)) = Inr (is_held (p_quota p) (i_id r))"
    by (subst released_eq [OF platform_okD(2) [OF ok]]) simp
  show ?thesis
    using Some i f
    by (simp add: expire_def svc_bind_def on_inst_eq on_quota_eq expire_block_eq [OF platform_okD(3) [OF ok]]
        svc_ret_def entered_def freed_def)
qed

lemma expire_run: "runs wd (expire wd i now) (\<lambda>_ _. True)"
proof (rule svc_runI)
  fix p assume ok: "platform_ok wd p"
  let ?m = "expire wd i now p"
  show "platform_ok wd (snd ?m) \<and> platform_grows p (snd ?m) \<and> (\<forall>x. fst ?m = Inr x \<longrightarrow> True)"
  proof (cases "\<exists>r. find_inst i (p_inst p) = Some r \<and> instance_move (i_state r) IExpired")
    case False
    then show ?thesis using ok by (auto simp: expire_eq [OF ok] split: option.splits)
  next
    case True
    then obtain r where r: "find_inst i (p_inst p) = Some r" "instance_move (i_state r) IExpired" by blast
    let ?y = "row_inst (moved r IExpired now)" and ?q = "entered r IExpired ''ttl expired'' BySystem now p"
    have ne: "i_state r \<noteq> IExpired" using r(2) no_self_move by metis
    note row = find_inst_Uid [OF platform_okD(3) [OF ok] r(1)]
    have q: "platform_ok wd ?q \<and> platform_grows p ?q" by (rule entered_ok [OF ok conjunct2 [OF row] r(2)]) code_simp
    have k: "known ?y (p_inst ?q)"
      using known_row [OF platform_okD(3) [OF conjunct1 [OF q]], of "moved r IExpired now"]
        transitioned_rows [OF platform_okD(3) [OF ok] conjunct2 [OF row]] by simp
    have st: "steady wd ?y (svc_bind (enqueue_corrective wd ?y (in_gen ?y) ActExpire now) (\<lambda>_. svc_ret ?y))"
      by (intro steady_bind steady_enqueue steady_ret)
    note rest = steadyD [OF st conjunct1 [OF q] k]
    have "?m = svc_bind (enqueue_corrective wd ?y (in_gen ?y) ActExpire now) (\<lambda>_. svc_ret ?y) ?q"
      using r ne by (simp add: expire_eq [OF ok])
    then show ?thesis using rest platform_grows_trans [OF conjunct2 [OF q]] by simp
  qed
qed

lemma renew_lease_run: "runs wd (renew_lease i expires now) (\<lambda>_ _. True)"
  unfolding renew_lease_def by (intro runs_bind runs_renew runs_inst field_ops_calm)

section \<open>Reported facts\<close>

lemma runs_draw: "runs wd draw (\<lambda>_ _. True)"
  by (rule svc_run_weaken [OF run_draw]) simp_all

lemma fact_runs:
  "health_observation_post_init ob = Inr () \<Longrightarrow> runs wd (svc_record_observation wd ob) (\<lambda>_ _. True)"
  "endpoint_post_init e = Inr () \<Longrightarrow> runs wd (svc_record_endpoint wd e) (\<lambda>_ _. True)"
  "runtime_resource_post_init r = Inr () \<Longrightarrow> runs wd (svc_record_resource wd r) (\<lambda>_ _. True)"
  "instance_credential_post_init c = Inr () \<Longrightarrow> runs wd (svc_record_credential c) (\<lambda>_ _. True)"
  "runs wd (svc_set_assignment wd i w now) (\<lambda>_ _. True)"
  unfolding svc_record_observation_def svc_record_endpoint_def svc_record_resource_def
    svc_record_credential_def svc_set_assignment_def
  by (intro runs_bind runs_draw runs_inst facts_calm field_ops_calm; assumption)+

end
