(* ===== verification/Reconciler_Runs.thy ===== *)
theory Reconciler_Runs
  imports Lifecycle_Runs
begin

text \<open>
  Every step of a reconciler pass keeps the platform invariant. The pass sees the outside through an
  observation source; what it relies on is one law, that looking does not write. The laws are
  discharged for the database-backed source, and the pass lemmas are proved once for any source.
\<close>

section \<open>The fact writers\<close>

lemma mark_each_calm: "tx_grows instdb_ok (calm cat) (mark_each i rs now c)"
  by (induction rs)
    (auto intro!: calm_ev.tx_bind_grows calm_ev.tx_ret_grows facts_calm(6))

lemma delete_each_calm: "tx_grows instdb_ok (calm cat) (delete_each i es c)"
  by (induction es) (auto intro!: calm_ev.tx_bind_grows calm_ev.tx_ret_grows facts_calm(5))

lemma runs_mark: "runs wd (mark_releasing i rs now c) (\<lambda>_ _. True)"
  unfolding mark_releasing_def by (rule runs_inst [OF mark_each_calm])

lemma runs_delete: "runs wd (delete_endpoints i es now c) (\<lambda>_ _. True)"
  unfolding delete_endpoints_def by (rule runs_inst [OF delete_each_calm])

lemma endpoints_read: "endpoints_from_orm rs db = Inr (x, db') \<Longrightarrow> db' = db"
  by (induction rs arbitrary: x) (auto simp: tx_simps split: sum.splits)

lemma resources_read: "resources_from_orm rs db = Inr (x, db') \<Longrightarrow> db' = db"
  by (induction rs arbitrary: x) (auto simp: tx_simps split: sum.splits)

lemma list_facts_read:
  "list_endpoints i db = Inr (es, db') \<Longrightarrow> db' = db"
  "list_runtime_resources i db = Inr (rs, db') \<Longrightarrow> db' = db"
  "list_orphan_endpoints n db = Inr (es, db') \<Longrightarrow> db' = db"
  "list_leaked_resources n db = Inr (rs, db') \<Longrightarrow> db' = db"
  by (auto simp: list_endpoints_def list_runtime_resources_def list_orphan_endpoints_def list_leaked_resources_def
      tx_simps dest: endpoints_read resources_read)

lemma runs_load: "runs wd (load_facts i) (\<lambda>_ _. True)"
  unfolding load_facts_def by (rule runs_inst_read) (auto simp: tx_simps dest: list_facts_read)

section \<open>The drift cases\<close>

lemma steady_evacuate: "steady wd x (evacuate wd x w now)"
  unfolding evacuate_def
  by (rule steady_bind_known [where g = "\<lambda>r. r"], rule svc_run_weaken [OF runs_fences(2)], simp, simp)
    (simp_all add: steady_ret, intro steady_bind runs_steady [OF runs_release] steady_enqueue_action steady_ret)

lemma steady_partial_reset: "steady wd x (partial_reset wd x now)"
  unfolding partial_reset_def Let_def
  by (intro steady_bind steady_split runs_steady [OF runs_load] runs_steady [OF runs_mark] steady_enqueue_action
      steady_ret)

lemma service_get_by_key_state: "snd (on_jobs (service_get_by_key k) p) = p"
proof -
  have "db' = db" if "get_by_idempotency_key k db = Inr (x, db')" for x db db'
    using that by (auto simp: get_by_idempotency_key_def to_domain_def tx_simps split: option.splits sum.splits)
  then have "snd (service_get_by_key k db) = db" for db
    by (auto simp: service_get_by_key_def session_scope_def split: sum.splits prod.splits)
  then show ?thesis by (simp add: on_jobs_eq)
qed

lemma runs_pure: "(\<And>p. snd (m p) = p) \<Longrightarrow> runs wd m (\<lambda>_ _. True)"
  by (rule svc_runI) simp

lemma steady_latest:
  assumes "svc_run (platform_ok wd) platform_grows (\<lambda>p. known x (p_inst p)) m
      (\<lambda>r p. \<forall>y. fst r = Some y \<longrightarrow> known y (p_inst p))"
    and "\<And>y r. steady wd y (f y r)"
  shows "steady wd x (svc_bind m (\<lambda>r. f (latest_of_update (fst r) x) (snd r)))"
  by (rule steady_bind_known [where g = fst, OF assms(1)]) (simp_all add: latest_of_update_def assms(2))

lemma maybe_drive:
  "svc_run (platform_ok wd) platform_grows (\<lambda>p. known x (p_inst p))
     (if b then drive_transition i t reason now c else svc_ret (None, []))
     (\<lambda>r p. \<forall>y. fst r = Some y \<longrightarrow> known y (p_inst p))"
proof (cases b)
  case True
  then show ?thesis using run_drive [of wd i t reason now c] by (auto simp: svc_run_def)
next
  case False
  then show ?thesis by (auto intro: plat.run_ret)
qed

lemma steady_relaunch: "steady wd x (relaunch wd x acts now existing)"
proof -
  have fence: "steady wd x (svc_bind (on_inst (fence_missing_container (in_id x) (in_gen x) now)) (\<lambda>fenced. case fenced of
         None \<Rightarrow> svc_ret acts
       | Some y \<Rightarrow>
           svc_bind (enqueue_action wd y (in_gen y) ActLaunch now c) (\<lambda>a. svc_ret (acts @ [b, a]))))" for b c
    by (rule steady_bind_known [where g = "\<lambda>r. r"], rule svc_run_weaken [OF runs_fences(1)], simp, simp)
      (simp_all add: steady_ret, intro steady_bind steady_enqueue_action steady_ret)
  show ?thesis
    unfolding relaunch_def by (intro steady_split(3) fence steady_bind steady_enqueue_action steady_ret)
qed

lemma steady_recover: "steady wd x (recover_missing wd x now)"
proof -
  have tail: "steady wd y (svc_bind (on_jobs (service_get_by_key k)) (relaunch wd y acts now))" for y k acts
    by (intro steady_bind runs_steady [OF runs_pure [OF service_get_by_key_state]] steady_relaunch)
  show ?thesis
    unfolding recover_missing_def split_def Let_def
    by (rule steady_latest [where f = "\<lambda>y acts. svc_bind (on_jobs (service_get_by_key
        (corrective_idempotency_key (in_id y) (in_gen y) ActLaunch))) (relaunch wd y acts now)", OF maybe_drive])
      (rule tail)
qed

lemma steady_resume: "steady wd x (resume_active wd x absent healthy now stuck_after)"
proof -
  have recover: "steady wd x (if absent \<and> recovery_state (in_state x) then recover_missing wd x now else svc_ret [])"
    by (intro steady_split steady_recover steady_ret)
  have advance: "steady wd x (svc_bind (drive_transition i t reason now c) (\<lambda>(_, acts). svc_ret acts))" for i t reason c
    by (intro steady_bind runs_steady [OF run_drive] steady_split steady_ret)
  show ?thesis unfolding resume_active_def Let_def by (intro steady_split recover advance)
qed

lemma steady_active: "steady wd x (reconcile_active wd so x absent healthy now stuck_after)"
  unfolding reconcile_active_def Let_def
  by (intro steady_split steady_evacuate steady_bind steady_partial_reset steady_resume steady_ret)

text \<open>After a drain: the value returned is known.\<close>

lemma run_drain:
  "svc_run (platform_ok wd) platform_grows (\<lambda>p. known x (p_inst p)) (drain_to_stopped x now c)
     (\<lambda>r p. known (fst r) (p_inst p))"
proof -
  have latest: "svc_run (platform_ok wd) platform_grows (\<lambda>p. known y (p_inst p))
      (if b then drive_transition i t reason now c else svc_ret (None, []))
      (\<lambda>r p. known (latest_of_update (fst r) y) (p_inst p))" for y b i t reason
    by (rule svc_run_weaken [OF keep_known [OF maybe_drive]]) (auto simp: latest_of_update_def split: option.splits)
  show ?thesis
    unfolding drain_to_stopped_def split_def Let_def
    by (rule plat.run_bind [OF latest], rule plat.run_bind [OF latest], rule plat.run_ret, simp)
qed

lemma steady_cleanup: "steady wd x (cleanup_exposed wd x now c)"
  unfolding cleanup_exposed_def Let_def
  by (intro steady_bind steady_split runs_steady [OF runs_load] runs_steady [OF runs_delete]
      runs_steady [OF runs_mark] steady_enqueue_action steady_ret)

lemma steady_after:
  assumes "svc_run (platform_ok wd) platform_grows (\<lambda>p. known x (p_inst p)) m (\<lambda>r p. known (fst r) (p_inst p))"
    and "\<And>r. steady wd (fst r) (f r)"
  shows "steady wd x (svc_bind m f)"
  unfolding steady_def by (rule plat.run_bind [OF assms(1)]) (rule assms(2) [unfolded steady_def])

lemma steady_stopped: "steady wd x (reconcile_stopped wd x present absent now)"
proof -
  have drain: "svc_run (platform_ok wd) platform_grows (\<lambda>p. known x (p_inst p))
      (if absent then drain_to_stopped x now c else svc_ret (x, [])) (\<lambda>r p. known (fst r) (p_inst p))" for c
    using run_drain [of wd x now c] by (auto intro: plat.run_ret)
  have stop: "steady wd x (if present
      then svc_bind (enqueue_action wd x (in_gen x) ActStop now ''2-unexpected'') (\<lambda>a. svc_ret [a]) else svc_ret [])"
    by (intro steady_split steady_bind steady_enqueue_action steady_ret)
  show ?thesis
    unfolding reconcile_stopped_def split_def
    by (rule steady_bind [OF stop], rule steady_after [OF drain])
      (intro steady_bind steady_split steady_cleanup steady_ret)
qed

lemma steady_archive: "steady wd x (archive_if_clean x now)"
  unfolding archive_if_clean_def
  by (intro steady_split steady_bind runs_steady [OF runs_load] runs_steady [OF run_drive] steady_ret)

lemma steady_deleted: "steady wd x (reconcile_deleted wd x present now)"
proof -
  have gone: "steady wd x (svc_bind (cleanup_exposed wd x now c) (\<lambda>clean. svc_bind (drain_to_stopped x now c') (\<lambda>r.
      svc_bind (archive_if_clean (fst r) now) (\<lambda>arch. svc_ret (clean @ snd r @ arch)))))" for c c'
    by (rule steady_bind [OF steady_cleanup], rule steady_after [OF run_drain])
      (intro steady_bind steady_archive steady_ret)
  show ?thesis
    unfolding reconcile_deleted_def split_def
    by (intro steady_split(3) steady_bind steady_enqueue_action steady_ret gone)
qed

section \<open>The pass, for any source that only looks\<close>

locale observation_source =
  fixes so :: sources
  assumes looks_only: "snd (so_observe so i p) = p"
begin

lemma steady_instance: "steady wd x (reconcile_instance wd so x now stuck_after)"
proof -
  have look: "steady wd x (effective_observation so x)"
    unfolding effective_observation_def
    by (intro steady_bind runs_steady [OF runs_pure] steady_ret looks_only)
  show ?thesis
    unfolding reconcile_instance_def Let_def
    by (rule steady_bind [OF look])
      (simp add: steady_active steady_stopped steady_deleted split: desired_state.splits)
qed

lemma each_run:
  "svc_run (platform_ok wd) platform_grows (\<lambda>p. \<forall>x \<in> set xs. known x (p_inst p))
     (reconcile_each wd so xs now stuck_after) (\<lambda>_ _. True)"
proof (induction xs)
  case Nil
  then show ?case by (simp add: plat.run_ret)
next
  case (Cons x xs)
  have step: "steady wd x (svc_catch (reconcile_instance wd so x now stuck_after)
      (\<lambda>_. svc_ret [plain_action (in_id x) ''error'' ''reconcile_error'']))"
    by (rule steady_catch [OF steady_instance runs_ret])
  have rest: "svc_run (platform_ok wd) platform_grows (\<lambda>p. \<forall>x \<in> set xs. known x (p_inst p))
      (svc_bind (reconcile_each wd so xs now stuck_after) (\<lambda>more. svc_ret (acts @ more))) (\<lambda>_ _. True)" for acts
    by (rule plat.run_bind [OF Cons.IH]) (simp add: plat.run_ret)
  have first: "svc_run (platform_ok wd) platform_grows (\<lambda>p. \<forall>x \<in> set (x # xs). known x (p_inst p))
      (svc_catch (reconcile_instance wd so x now stuck_after)
        (\<lambda>_. svc_ret [plain_action (in_id x) ''error'' ''reconcile_error'']))
      (\<lambda>_ p. \<forall>x \<in> set xs. known x (p_inst p))"
  proof (rule svc_run_weaken)
    let ?Q = "\<lambda>p. \<forall>x \<in> set xs. known x (p_inst p)"
    show "svc_run (platform_ok wd) platform_grows (\<lambda>p. known x (p_inst p) \<and> ?Q p)
      (svc_catch (reconcile_instance wd so x now stuck_after)
        (\<lambda>_. svc_ret [plain_action (in_id x) ''error'' ''reconcile_error'']))
      (\<lambda>_ p. True \<and> ?Q p)"
      by (rule svc_run_frame [OF step [unfolded steady_def]]) (blast intro: known_frame)
  qed simp_all
  show ?case by (simp only: reconcile_each.simps) (rule plat.run_bind [OF first rest])
qed

end

lemma runs_sweep_leaks: "runs wd (sweep_leaks wd seen rs now) (\<lambda>_ _. True)"
proof (induction rs arbitrary: seen)
  case Nil
  then show ?case by (simp add: runs_ret)
next
  case (Cons r rs)
  have rest: "steady wd x (svc_bind (if rr_inst r \<in> set seen then svc_ret []
             else svc_bind (enqueue_action wd x (in_gen x) ActDelete now ''5-leaked-resource'')
               (\<lambda>a. svc_ret [a])) (\<lambda>jobs.
         svc_bind (mark_releasing (rr_inst r) [r] now ''5-leaked-resource'') (\<lambda>marks.
         svc_bind (sweep_leaks wd (rr_inst r # seen) rs now) (\<lambda>more. svc_ret (jobs @ marks @ more)))))" for x
    by (intro steady_bind steady_split steady_enqueue_action steady_ret runs_steady [OF runs_mark]
        runs_steady [OF Cons.IH])
  show ?case
  proof (simp only: sweep_leaks.simps, rule plat.run_bind [OF runs_get])
    fix found
    show "svc_run (platform_ok wd) platform_grows (\<lambda>p. \<forall>y. found = Some y \<longrightarrow> known y (p_inst p))
        (case found of None \<Rightarrow> sweep_leaks wd seen rs now | Some x \<Rightarrow>
         svc_bind (if rr_inst r \<in> set seen then svc_ret []
             else svc_bind (enqueue_action wd x (in_gen x) ActDelete now ''5-leaked-resource'')
               (\<lambda>a. svc_ret [a])) (\<lambda>jobs.
         svc_bind (mark_releasing (rr_inst r) [r] now ''5-leaked-resource'') (\<lambda>marks.
         svc_bind (sweep_leaks wd (rr_inst r # seen) rs now) (\<lambda>more. svc_ret (jobs @ marks @ more)))))
        (\<lambda>_ _. True)"
      using Cons.IH [of seen] rest by (cases found) (auto simp: steady_def)
  qed
qed

lemma runs_sweep_orphans: "runs wd (sweep_orphans es now) (\<lambda>_ _. True)"
  by (induction es) (auto intro!: runs_ret runs_bind runs_delete)

lemma runs_leaks: "runs wd (reconcile_leaks wd now limit) (\<lambda>_ _. True)"
  unfolding reconcile_leaks_def
  by (intro runs_bind runs_inst_read runs_split runs_sweep_leaks runs_sweep_orphans runs_ret)
    (auto simp: tx_simps dest: list_facts_read)

lemma runs_list_reconcilable:
  "runs wd (on_inst (list_reconcilable limit)) (\<lambda>xs p. \<forall>x \<in> set xs. known x (p_inst p))"
proof (rule run_inst [where Q = "\<lambda>xs db. \<forall>x \<in> set xs. known x db"])
  show "tx_grows instdb_ok (calm (wd_cat wd)) (list_reconcilable limit)"
    by (rule tx_growsI) (auto simp: list_reconcilable_eq calm_ev.grows_refl)
  fix db xs db'
  assume ok: "instdb_ok db" and "list_reconcilable limit db = Inr (xs, db')"
  then have "db' = db" "xs = map row_inst (order_limit i_created limit (filter (\<lambda>r. i_state r \<noteq> IArchived) (nd_rows db)))"
    by (auto simp: list_reconcilable_eq)
  then show "\<forall>x \<in> set xs. known x db'" using known_row [OF ok] set_order_limit by fastforce
qed

context observation_source
begin

lemma once_run: "runs wd (reconcile_once wd so now stuck_after limit) (\<lambda>_ _. True)"
  unfolding reconcile_once_def
  by (rule plat.run_bind [OF runs_list_reconcilable], rule plat.run_bind [OF each_run])
    (intro runs_bind runs_leaks runs_ret)

end

section \<open>The database-backed source\<close>

lemma latest_observation_read: "latest_observation i db = Inr (x, db') \<Longrightarrow> db' = db"
  by (auto simp: latest_observation_def observation_from_orm_def tx_simps split: option.splits sum.splits)

interpretation repository_source: observation_source "repository_sources fl max_age"
proof
  fix i p
  show "snd (so_observe (repository_sources fl max_age) i p) = p"
    using latest_observation_read
    by (auto simp: repository_sources_def repository_observe_def on_inst_eq split: sum.splits)
qed

end
