(* ===== verification/Platform_Protocol.thy ===== *)
theory Platform_Protocol
  imports Reconciler_Runs
begin

text \<open>
  The platform as its environment drives it: competitors and operators call the lifecycle service,
  workers work the job queue and report facts, other services enqueue jobs of their own, sweepers
  and the reconciler run whenever they like. \<open>platform_reachable\<close> closes the empty platform under
  all of these, in any order.
\<close>

section \<open>Calls\<close>

datatype platform_call =
    PRequest launch_request
  | PTransition ident instance_state string event_actor instant
  | PStop ident instant
  | PReset ident instant instant "worker_requirements option" "reservation_item list"
  | PDelete ident instant
  | PExpire ident instant
  | PRenew ident instant instant
  | PObserve health_observation
  | PEndpoint endpoint
  | PResource runtime_resource
  | PCredential instance_credential
  | PAssign ident "string option" instant
  | PWorker job_call
  | PEnqueue job instant
  | PLimit resource_quota
  | PSweepHolds instant nat
  | PHealCounters
  | PReconcile instant int nat

definition svc_void :: "('s, 'a) svc \<Rightarrow> ('s, unit) svc" where
  "svc_void m = svc_bind m (\<lambda>_. svc_ret ())"

fun run_platform :: "world \<Rightarrow> sources \<Rightarrow> platform_call \<Rightarrow> (platform, unit) svc" where
  "run_platform wd so (PRequest q) = svc_void (request_instance wd q)"
| "run_platform wd so (PTransition i t reason actor now) = svc_void (apply_transition i t reason actor now)"
| "run_platform wd so (PStop i now) = svc_void (request_stop wd i now)"
| "run_platform wd so (PReset i expires now req items) = svc_void (request_reset wd i expires now req items)"
| "run_platform wd so (PDelete i now) = svc_void (request_delete i now)"
| "run_platform wd so (PExpire i now) = svc_void (expire wd i now)"
| "run_platform wd so (PRenew i expires now) = svc_void (renew_lease i expires now)"
| "run_platform wd so (PObserve ob) = svc_void (svc_record_observation wd ob)"
| "run_platform wd so (PEndpoint e) = svc_record_endpoint wd e"
| "run_platform wd so (PResource r) = svc_record_resource wd r"
| "run_platform wd so (PCredential c) = svc_record_credential c"
| "run_platform wd so (PAssign i w now) = svc_void (svc_set_assignment wd i w now)"
| "run_platform wd so (PWorker c) = on_jobs (session_scope (run_call (wd_cat wd) c))"
| "run_platform wd so (PEnqueue j now) = svc_bind draw (\<lambda>n. svc_void (on_jobs (enqueue_idempotent
     (wd_cat wd) (wd_clock wd n) (j\<lparr>j_id := Uid (wd_uuid wd n)\<rparr>) (Some now))))"
| "run_platform wd so (PLimit q) = on_quota (session_scope (upsert_limit q))"
| "run_platform wd so (PSweepHolds now limit) = svc_void (on_quota (release_expired now limit))"
| "run_platform wd so PHealCounters = svc_void (on_quota svc_reconcile_counters)"
| "run_platform wd so (PReconcile now stuck_after limit) = svc_void (reconcile_once wd so now stuck_after limit)"

text \<open>Arguments are values their constructors accepted; other services leave \<open>instance:\<close> keys alone.\<close>

fun valid_platform :: "platform_call \<Rightarrow> bool" where
  "valid_platform (PRequest q) = valid_launch q"
| "valid_platform (PReset i expires now req items) = all_valid reservation_item_post_init items"
| "valid_platform (PObserve ob) = (health_observation_post_init ob = Inr ())"
| "valid_platform (PEndpoint e) = (endpoint_post_init e = Inr ())"
| "valid_platform (PResource r) = (runtime_resource_post_init r = Inr ())"
| "valid_platform (PCredential c) = (instance_credential_post_init c = Inr ())"
| "valid_platform (PWorker c) = worker_call c"
| "valid_platform (PEnqueue j now) = (job_post_init j = Inr () \<and> \<not> is_corrective_key (j_idempotency_key j))"
| "valid_platform (PLimit q) = (resource_quota_post_init q = Inr () \<and> q_reserved q = 0)"
| "valid_platform _ = True"

text \<open>What a sequence of calls leaves; a call that raises leaves what it committed.\<close>

definition platform_after :: "world \<Rightarrow> sources \<Rightarrow> platform_call \<Rightarrow> platform \<Rightarrow> platform" where
  "platform_after wd so c p = snd (run_platform wd so c p)"

definition run_platform_calls :: "world \<Rightarrow> sources \<Rightarrow> platform_call list \<Rightarrow> platform \<Rightarrow> platform" where
  "run_platform_calls wd so cs p = foldl (\<lambda>p c. platform_after wd so c p) p cs"

inductive platform_reachable :: "world \<Rightarrow> sources \<Rightarrow> platform \<Rightarrow> bool" for wd so where
  init: "platform_reachable wd so empty_platform"
| call: "platform_reachable wd so p \<Longrightarrow> valid_platform c \<Longrightarrow> platform_reachable wd so (platform_after wd so c p)"

lemma run_platform_calls_Cons [simp]:
  "run_platform_calls wd so [] p = p"
  "run_platform_calls wd so (c # cs) p = run_platform_calls wd so cs (platform_after wd so c p)"
  by (simp_all add: run_platform_calls_def)

lemma calls_reachable:
  "platform_reachable wd so p \<Longrightarrow> list_all valid_platform cs
    \<Longrightarrow> platform_reachable wd so (run_platform_calls wd so cs p)"
  by (induction cs arbitrary: p) (auto intro: platform_reachable.call)

section \<open>Job calls\<close>

lemma corrective_ident: "job_ident a = job_ident b \<Longrightarrow> corrective_row db a = corrective_row db b"
  by (simp add: corrective_row_def job_ident_def immutable_cols_def)

lemma kept_platform:
  assumes ok: "platform_ok wd p" and db: "jobdb_ok db" and k: "jobs_kept (p_jobs p) db"
  shows "platform_ok wd (p\<lparr>p_jobs := db\<rparr>) \<and> platform_grows p (p\<lparr>p_jobs := db\<rparr>)"
proof -
  have "jobs_owned wd (p\<lparr>p_jobs := db\<rparr>)"
    unfolding jobs_owned_def
  proof (intro ballI)
    fix r' assume "r' \<in> set (jd_jobs (p_jobs (p\<lparr>p_jobs := db\<rparr>)))"
    then have "r' \<in> set (jd_jobs db)" by simp
    then obtain r where r: "r \<in> set (jd_jobs (p_jobs p))" "job_ident r' = job_ident r" by (rule jobs_kept_row [OF k])
    from platform_okD(4) [OF ok] r(1)
    show "(\<exists>m < p_draws (p\<lparr>p_jobs := db\<rparr>). r_id r' = wd_uuid wd m)
        \<and> (is_corrective_key (r_key r') \<longrightarrow> corrective_row (p_inst (p\<lparr>p_jobs := db\<rparr>)) r')"
      using job_identD [OF r(2)] corrective_ident [OF r(2)] by (simp add: jobs_owned_def)
  qed
  moreover have "holds_live (p\<lparr>p_jobs := db\<rparr>)" using platform_okD(5) [OF ok] by (simp add: holds_live_def)
  ultimately show ?thesis
    using platform_okD [OF ok] db kept_ext [OF k]
    by (simp add: platform_ok_def platform_grows_def inst_grows_refl)
qed

lemma worker_run:
  assumes w: "worker_call c"
  shows "runs wd (on_jobs (session_scope (run_call (wd_cat wd) c))) (\<lambda>_ _. True)"
proof (rule svc_runI)
  fix p assume ok: "platform_ok wd p"
  let ?m = "on_jobs (session_scope (run_call (wd_cat wd) c)) p"
  show "platform_ok wd (snd ?m) \<and> platform_grows p (snd ?m) \<and> (\<forall>x. fst ?m = Inr x \<longrightarrow> True)"
  proof (cases "run_call (wd_cat wd) c (p_jobs p)")
    case (Inl e)
    then show ?thesis using ok by (simp add: on_jobs_eq session_scope_def)
  next
    case (Inr r)
    then obtain u db where run: "run_call (wd_cat wd) c (p_jobs p) = Inr (u, db)" by (cases r) auto
    have v: "valid_call c" using w by (cases c) simp_all
    show ?thesis
      using kept_platform [OF ok run_call_ok [OF platform_okD(1) [OF ok] v run]
          run_call_kept [OF platform_okD(1) [OF ok] w run]]
      by (simp add: on_jobs_eq session_scope_def run)
  qed
qed

lemma post_init_drawn:
  assumes "job_post_init j = Inr ()"
  shows "job_post_init (j\<lparr>j_id := Uid u\<rparr>) = Inr ()"
proof (cases "ident_nonempty (j_id j)")
  case True
  then have "job_post_init (j\<lparr>j_id := Uid u\<rparr>) = job_post_init j"
    by (simp add: job_post_init_def split del: if_split cong: if_cong)
  then show ?thesis using assms by simp
next
  case False
  then show ?thesis using assms by (simp add: job_post_init_def)
qed

lemma svc_void_state [simp]: "snd (svc_void m p) = snd (m p)"
  by (simp add: svc_void_def svc_bind_def svc_ret_def split: prod.splits sum.splits)

lemma runs_void: "runs wd m post \<Longrightarrow> runs wd (svc_void m) (\<lambda>_ _. True)"
  unfolding svc_run_def by simp

lemma other_enqueue_run:
  assumes ini: "job_post_init j = Inr ()" and key: "\<not> is_corrective_key (j_idempotency_key j)"
  shows "runs wd (svc_bind draw (\<lambda>n. svc_void (on_jobs (enqueue_idempotent (wd_cat wd) (wd_clock wd n)
     (j\<lparr>j_id := Uid (wd_uuid wd n)\<rparr>) (Some now))))) (\<lambda>_ _. True)"
proof (rule svc_runI)
  fix p assume ok: "platform_ok wd p"
  let ?n = "p_draws p"
  let ?j = "j\<lparr>j_id := Uid (wd_uuid wd ?n)\<rparr>"
  let ?out = "enqueue_idempotent (wd_cat wd) (wd_clock wd ?n) ?j (Some now) (p_jobs p)"
  let ?m = "svc_bind draw (\<lambda>n. svc_void (on_jobs (enqueue_idempotent (wd_cat wd) (wd_clock wd n)
     (j\<lparr>j_id := Uid (wd_uuid wd n)\<rparr>) (Some now)))) p"
  note ini' = post_init_drawn [OF ini, of "wd_uuid wd ?n"]
  have state: "snd ?m = p\<lparr>p_jobs := snd ?out, p_draws := Suc ?n\<rparr>"
    by (simp add: svc_bind_def draw_def on_jobs_eq)
  have jok: "jobdb_ok (snd ?out)" by (rule enqueue_idempotent_ok [OF platform_okD(1) [OF ok] ini'])
  consider "snd ?out = p_jobs p"
    | row where "jd_jobs (snd ?out) = jd_jobs (p_jobs p) @ [row]" "r_id row = wd_uuid wd ?n"
        "\<not> is_corrective_key (r_key row)"
  proof (cases "snd ?out = p_jobs p")
    case False
    then obtain row where row: "job_to_orm ?j (j_competition_id ?j) (job_version ?j) (wd_clock wd ?n) = Inr row"
      and js: "jd_jobs (snd ?out) = jd_jobs (p_jobs p) @ [row]"
      unfolding enqueue_idempotent_eq [OF platform_okD(1) [OF ok] ini']
      by (auto simp: enqueue_outcome_def split: if_splits sum.splits option.splits)
    have "as_uuid (j_id ?j) = Some (r_id row)" "r_key row = j_idempotency_key ?j"
      by (rule job_to_orm_ok(4,5) [OF row ini' refl], simp add: job_version_def)+
    then show ?thesis using that(2) [OF js] key by simp
  qed (rule that(1))
  then show "platform_ok wd (snd ?m) \<and> platform_grows p (snd ?m) \<and> (\<forall>x. fst ?m = Inr x \<longrightarrow> True)"
  proof cases
    case 1
    have "platform_ok wd (p\<lparr>p_draws := Suc ?n\<rparr>)"
      using ok jobs_owned_draw [of wd p] by (simp add: platform_ok_def holds_live_def)
    then show ?thesis by (simp add: state 1 platform_grows_def inst_grows_refl)
  next
    case (2 row)
    have "jobs_owned wd (p\<lparr>p_jobs := snd ?out, p_draws := Suc ?n\<rparr>)"
      using platform_okD(4) [OF ok] 2 by (auto simp: jobs_owned_def intro: less_SucI)
    then show ?thesis
      using platform_okD [OF ok] jok 2(1)
      by (simp add: state platform_ok_def platform_grows_def inst_grows_refl holds_live_def jobs_ext_def)
  qed
qed

section \<open>Ledger calls\<close>

lemma limit_may_hold:
  assumes "resource_quota_post_init q = Inr ()" and "q_reserved q = 0"
  shows "may_hold (\<lambda>_. False) (session_scope (upsert_limit q))"
  using upsert_ok(1,2) [OF _ assms] by (fastforce simp: may_hold_def session_scope_def split: sum.splits prod.splits)

lemma heal_may_hold: "may_hold (\<lambda>_. False) svc_reconcile_counters"
  by (auto simp: may_hold_def svc_reconcile_counters_def session_scope_def reconcile_noop)

section \<open>Every call keeps the invariant\<close>

context observation_source
begin

lemma platform_run: "valid_platform c \<Longrightarrow> runs wd (run_platform wd so c) (\<lambda>_ _. True)"
  by (cases c)
    (auto intro!: runs_void request_instance_run run_apply request_stop_run request_reset_run request_delete_run
      expire_run renew_lease_run fact_runs worker_run other_enqueue_run
      runs_quota [OF limit_may_hold] runs_sweep runs_quota [OF heal_may_hold] once_run)

lemma platform_after_ok:
  "platform_ok wd p \<Longrightarrow> valid_platform c
    \<Longrightarrow> platform_ok wd (platform_after wd so c p) \<and> platform_grows p (platform_after wd so c p)"
  using platform_run [of c wd] by (simp add: svc_run_def platform_after_def)

lemma reachable_platform_ok:
  assumes inj: "inj (wd_uuid wd)"
  shows "platform_reachable wd so p \<Longrightarrow> platform_ok wd p"
  by (induction rule: platform_reachable.induct) (auto intro: empty_platform_ok [OF inj] dest: platform_after_ok)

lemma calls_ok:
  "platform_ok wd p \<Longrightarrow> list_all valid_platform cs
    \<Longrightarrow> platform_ok wd (run_platform_calls wd so cs p) \<and> platform_grows p (run_platform_calls wd so cs p)"
proof (induction cs arbitrary: p)
  case (Cons c cs)
  note step = platform_after_ok [OF Cons.prems(1), of c]
  from Cons.IH [of "platform_after wd so c p"] step Cons.prems(2) platform_grows_trans show ?case by fastforce
qed simp

end

end
