(* ===== verification/Instance_Outcomes.thy ===== *)
theory Instance_Outcomes
  imports Platform_Protocol
begin

text \<open>
  What the reconciler's steps come to on a well-formed platform: moves that are legal are taken with
  one event and the release of the hold, a drain ends in an archivable state, cleaning removes the
  endpoints, and the gated observation decides the branch. The properties of the pass are read off
  these closed forms.
\<close>

section \<open>Legal moves\<close>

lemma find_row_inst: "instdb_ok db \<Longrightarrow> r \<in> set (nd_rows db) \<Longrightarrow> find_inst (Uid (i_id r)) db = Some r"
  by (simp add: find_inst_Some)

lemma drive_moves:
  assumes ok: "platform_ok wd p" and r: "r \<in> set (nd_rows (p_inst p))" and mv: "instance_move (i_state r) t"
    and reason: "nonempty reason"
  shows "drive_transition (Uid (i_id r)) t reason now c p
    = (Inr (Some (row_inst (moved r t now)), [plain_action (Uid (i_id r)) c ''transition'']),
       entered r t reason BySystem now p)"
proof -
  have "i_state r \<noteq> t" using mv no_self_move by metis
  then show ?thesis
    using mv reason by (simp add: drive_transition_eq [OF ok] find_row_inst [OF platform_okD(3) [OF ok] r])
qed

lemma moved_in_entered:
  assumes "platform_ok wd p" and "r \<in> set (nd_rows (p_inst p))"
  shows "moved r t now \<in> set (nd_rows (p_inst (entered r t reason actor now p)))"
  using transitioned_rows [OF platform_okD(3) [OF assms(1)] assms(2)] by simp

lemma transitioned_facts [simp]:
  "nd_endpoints (transitioned r t reason actor now db) = nd_endpoints db"
  "nd_resources (transitioned r t reason actor now db) = nd_resources db"
  "nd_observations (transitioned r t reason actor now db) = nd_observations db"
  by (simp_all add: transitioned_def)

lemma live_to_stopping: "live_drainable s \<Longrightarrow> instance_move s IStopping"
  by (cases s) (simp_all add: instance_move_def)

lemma archivable_moves: "archivable_state s \<Longrightarrow> instance_move s IArchived"
  by (cases s) (simp_all add: instance_move_def)

lemma reasons_nonempty:
  "nonempty (drain_reason x)" "nonempty ''observed absent; stopped''"
  "nonempty ''deleted; fully cleaned up''" "nonempty ''observed absent while desired active''"
  "nonempty ''advance on healthy observation (stuck)''"
proof -
  have "CHR ''d'' \<in> set (drain_reason x)" "\<not> py_isspace (CHR ''d'')"
    by (simp_all add: drain_reason_def py_isspace_def)
  then show "nonempty (drain_reason x)" unfolding nonempty_iff by blast
qed code_simp+

section \<open>The drain\<close>

definition same_outside :: "platform \<Rightarrow> platform \<Rightarrow> bool" where
  "same_outside p q \<longleftrightarrow> p_jobs q = p_jobs p \<and> nd_endpoints (p_inst q) = nd_endpoints (p_inst p)
     \<and> nd_resources (p_inst q) = nd_resources (p_inst p)"

lemma stop_now:
  assumes ok: "platform_ok wd p" and r: "r \<in> set (nd_rows (p_inst p))" and st: "i_state r \<noteq> IArchived"
    and nl: "\<not> live_drainable (i_state r)"
  shows "\<exists>r' acts p'. svc_bind (if i_state r = IStopping
         then drive_transition (Uid (i_id r)) IStopped ''observed absent; stopped'' now c
         else svc_ret (None, [])) (\<lambda>(updated', acts'). svc_ret (latest_of_update updated' (row_inst r), a @ acts')) p
      = (Inr (row_inst r', acts), p') \<and> r' \<in> set (nd_rows (p_inst p')) \<and> i_id r' = i_id r
        \<and> archivable_state (i_state r') \<and> platform_ok wd p' \<and> same_outside p p'"
proof (cases "i_state r = IStopping")
  case True
  have mv: "instance_move (i_state r) IStopped" using True by (simp add: instance_move_def)
  let ?p = "entered r IStopped ''observed absent; stopped'' BySystem now p"
  have "platform_ok wd ?p" using entered_ok [OF ok r mv reasons_nonempty(2)] by blast
  then show ?thesis
    using True moved_in_entered [OF ok r] drive_moves [OF ok r mv reasons_nonempty(2)]
    by (intro exI [of _ "moved r IStopped now"] exI [of _ "a @ [plain_action (Uid (i_id r)) c ''transition'']"] exI [of _ ?p])
      (simp add: svc_bind_def svc_ret_def latest_of_update_def same_outside_def)
next
  case False
  then have "archivable_state (i_state r)" using st nl by (cases "i_state r") simp_all
  then show ?thesis
    using False ok r
    by (intro exI [of _ r] exI [of _ a] exI [of _ p])
      (simp add: svc_bind_def svc_ret_def latest_of_update_def same_outside_def)
qed

lemma bind_step: "m p = (Inr x, p') \<Longrightarrow> svc_bind m f p = f x p'"
  by (simp add: svc_bind_def)

lemma latest_simps [simp]: "latest_of_update None x = x" "latest_of_update (Some y) x = y"
  by (simp_all add: latest_of_update_def)

lemma bind_ret: "svc_bind (svc_ret x) f = f x"
  by (rule ext) (simp add: svc_bind_def svc_ret_def)

lemma drain_reaches:
  assumes ok: "platform_ok wd p" and r: "r \<in> set (nd_rows (p_inst p))" and st: "i_state r \<noteq> IArchived"
  shows "\<exists>r' acts p'. drain_to_stopped (row_inst r) now c p = (Inr (row_inst r', acts), p')
     \<and> r' \<in> set (nd_rows (p_inst p')) \<and> i_id r' = i_id r \<and> archivable_state (i_state r')
     \<and> platform_ok wd p' \<and> same_outside p p'"
proof (cases "live_drainable (i_state r)")
  case False
  have "drain_to_stopped (row_inst r) now c = svc_bind (if i_state r = IStopping
         then drive_transition (Uid (i_id r)) IStopped ''observed absent; stopped'' now c
         else svc_ret (None, [])) (\<lambda>(updated', acts').
           svc_ret (latest_of_update updated' (row_inst r), [] @ acts'))"
    using False by (simp add: drain_to_stopped_def bind_ret latest_of_update_def [of None] Let_def)
  with stop_now [OF ok r st False, of now c "[]"] show ?thesis by metis
next
  case True
  note mv = live_to_stopping [OF True] and reason = reasons_nonempty(1) [of "row_inst r"]
  let ?m = "moved r IStopping now" and ?p = "entered r IStopping (drain_reason (row_inst r)) BySystem now p"
  have okp: "platform_ok wd ?p" using entered_ok [OF ok r mv reason] by blast
  have m: "?m \<in> set (nd_rows (p_inst ?p))" by (rule moved_in_entered [OF ok r])
  have "drain_to_stopped (row_inst r) now c p =
      svc_bind (if i_state ?m = IStopping
         then drive_transition (Uid (i_id ?m)) IStopped ''observed absent; stopped'' now c
         else svc_ret (None, [])) (\<lambda>(updated', acts').
           svc_ret (latest_of_update updated' (row_inst ?m), [plain_action (Uid (i_id r)) c ''transition''] @ acts')) ?p"
  proof -
    have first: "(if live_drainable (in_state (row_inst r))
         then drive_transition (in_id (row_inst r)) IStopping (drain_reason (row_inst r)) now c
         else svc_ret (None, [])) p = (Inr (Some (row_inst ?m), [plain_action (Uid (i_id r)) c ''transition'']), ?p)"
      using True drive_moves [OF ok r mv reason, of now c] by simp
    show ?thesis by (simp only: drain_to_stopped_def) (subst bind_step, rule first, simp add: Let_def)
  qed
  with stop_now [OF okp m, of now c "[plain_action (Uid (i_id r)) c ''transition'']"]
  show ?thesis by (fastforce simp: same_outside_def)
qed

section \<open>Cleaning up\<close>

lemma load_facts_eq:
  assumes "platform_ok wd p"
  shows "load_facts (Uid k) p = (Inr (resources_of k (p_inst p), endpoints_of k (p_inst p)), p)"
  by (simp add: load_facts_def on_inst_eq tx_bind_def tx_ret_def list_endpoints_eq [OF platform_okD(3) [OF assms]]
      list_resources_eq [OF platform_okD(3) [OF assms]])

definition without_endpoints :: "nat \<Rightarrow> string set \<Rightarrow> instdb \<Rightarrow> instdb" where
  "without_endpoints k names db =
     db\<lparr>nd_endpoints := filter (\<lambda>e. er_inst e = k \<longrightarrow> er_name e \<notin> names) (nd_endpoints db)\<rparr>"

lemma delete_each_state:
  "\<exists>acts. delete_each (Uid k) es c db = Inr (acts, without_endpoints k (ep_name ` set es) db)"
proof (induction es arbitrary: db)
  case Nil
  then show ?case by (simp add: tx_ret_def without_endpoints_def)
next
  case (Cons e es)
  obtain acts where rest: "delete_each (Uid k) es c (without_endpoint k (ep_name e) db)
      = Inr (acts, without_endpoints k (ep_name ` set es) (without_endpoint k (ep_name e) db))"
    using Cons.IH by blast
  have "without_endpoints k (ep_name ` set es) (without_endpoint k (ep_name e) db)
      = without_endpoints k (ep_name ` set (e # es)) db"
    unfolding without_endpoints_def without_endpoint_def endpoint_key_def
    by (simp, intro arg_cong [where f = "\<lambda>es. db\<lparr>nd_endpoints := es\<rparr>"] filter_cong) auto
  then show ?case by (simp add: tx_bind_def delete_endpoint_eq rest tx_ret_def)
qed

lemma endpoints_cleaned: "endpoints_of k (without_endpoints k (ep_name ` set (endpoints_of k db)) db) = []"
proof -
  have "\<not> (er_inst e = k \<longrightarrow> er_name e \<notin> ep_name ` set (endpoints_of k db))"
    if "e \<in> set (nd_endpoints db)" "er_inst e = k" for e
    using that by (force simp: endpoints_of_def row_endpoint_def image_iff)
  then have "filter (\<lambda>e. er_inst e = k) (filter (\<lambda>e. er_inst e = k \<longrightarrow> er_name e \<notin> ep_name ` set (endpoints_of k db))
      (nd_endpoints db)) = []"
    by (auto simp: filter_empty_conv)
  moreover have "endpoints_of k (db\<lparr>nd_endpoints := es\<rparr>) = []" if "filter (\<lambda>e. er_inst e = k) es = []" for es
    using that by (simp add: endpoints_of_def)
  ultimately show ?thesis unfolding without_endpoints_def by blast
qed

definition resources_released :: "nat \<Rightarrow> instdb \<Rightarrow> bool" where
  "resources_released k db \<longleftrightarrow> (\<forall>r \<in> set (nd_resources db). rs_inst r = k \<longrightarrow> rs_state r = ResReleased)"

lemma released_resources_of: "resources_released k db \<Longrightarrow> r \<in> set (resources_of k db) \<Longrightarrow> rr_state r = ResReleased"
  by (auto simp: resources_released_def resources_of_def row_resource_def)

lemma runs_at: "runs wd m post \<Longrightarrow> platform_ok wd p \<Longrightarrow> platform_ok wd (snd (m p)) \<and> platform_grows p (snd (m p))"
  by (simp add: svc_run_def)

lemma cleanup_released:
  assumes ok: "platform_ok wd p" and rel: "resources_released k (p_inst p)" and id: "in_id x = Uid k"
  shows "\<exists>acts p'. cleanup_exposed wd x now c p = (Inr acts, p') \<and> platform_ok wd p'
     \<and> nd_rows (p_inst p') = nd_rows (p_inst p) \<and> p_jobs p' = p_jobs p
     \<and> nd_resources (p_inst p') = nd_resources (p_inst p) \<and> endpoints_of k (p_inst p') = []"
proof -
  let ?es = "endpoints_of k (p_inst p)"
  let ?db = "without_endpoints k (ep_name ` set ?es) (p_inst p)"
  obtain acts where del: "delete_each (Uid k) ?es c (p_inst p) = Inr (acts, ?db)"
    using delete_each_state by blast
  then have del': "delete_endpoints (Uid k) ?es now c p = (Inr acts, p\<lparr>p_inst := ?db\<rparr>)"
    by (simp add: delete_endpoints_def on_inst_eq)
  have okp: "platform_ok wd (p\<lparr>p_inst := ?db\<rparr>)"
    using runs_at [OF runs_delete ok, of "Uid k" ?es now c] del' by simp
  have none: "filter (\<lambda>r. rr_state r = ResActive \<or> rr_state r = ResReleasing) (resources_of k (p_inst p)) = []"
    "filter (\<lambda>r. rr_state r = ResActive) (resources_of k (p_inst p)) = []"
    using released_resources_of [OF rel] by (auto simp: filter_empty_conv)
  have "cleanup_exposed wd x now c p = (Inr (acts @ [] @ []), p\<lparr>p_inst := ?db\<rparr>)"
    using id by (simp add: cleanup_exposed_def svc_bind_def load_facts_eq [OF ok] del' none svc_ret_def Let_def)
  then show ?thesis using okp endpoints_cleaned [of k "p_inst p"] by (simp add: without_endpoints_def)
qed

lemma archive_clean:
  assumes ok: "platform_ok wd p" and r: "r \<in> set (nd_rows (p_inst p))" and st: "archivable_state (i_state r)"
    and rel: "resources_released (i_id r) (p_inst p)" and es: "endpoints_of (i_id r) (p_inst p) = []"
  shows "archive_if_clean (row_inst r) now p
    = (Inr [plain_action (Uid (i_id r)) ''9-exposed'' ''transition''],
       entered r IArchived ''deleted; fully cleaned up'' BySystem now p)"
proof -
  have "filter (\<lambda>x. rr_state x \<noteq> ResReleased) (resources_of (i_id r) (p_inst p)) = []"
    using released_resources_of [OF rel] by (auto simp: filter_empty_conv)
  then show ?thesis
    using st es drive_moves [OF ok r archivable_moves [OF st] reasons_nonempty(3)]
    by (simp add: archive_if_clean_def svc_bind_def load_facts_eq [OF ok] svc_ret_def)
qed

section \<open>The gate\<close>

definition current_report :: "nat \<Rightarrow> int \<Rightarrow> instdb \<Rightarrow> health_observation option" where
  "current_report k g db = (case latest_of k db of
      None \<Rightarrow> None | Some h \<Rightarrow> if ho_gen h = g then Some h else None)"

lemma gate_eq:
  assumes "platform_ok wd p"
  shows "effective_observation (repository_sources fl age) (row_inst r) p
    = (Inr (current_report (i_id r) (i_gen r) (p_inst p)), p)"
  by (auto simp: effective_observation_def repository_sources_def repository_observe_def svc_bind_def on_inst_eq
      latest_observation_eq [OF platform_okD(3) [OF assms]] svc_ret_def current_report_def split: option.splits)

definition seen_absent :: "health_observation option \<Rightarrow> bool" where
  "seen_absent ob = (case ob of None \<Rightarrow> True | Some h \<Rightarrow> observed_absent h)"

lemma reconcile_deleted_path:
  assumes ok: "platform_ok wd p" and des: "i_desired r = DesDeleted"
    and gone: "seen_absent (current_report (i_id r) (i_gen r) (p_inst p))"
  shows "reconcile_instance wd (repository_sources fl age) (row_inst r) now stuck p
    = reconcile_deleted wd (row_inst r) False now p"
  using gone
  by (auto simp: reconcile_instance_def svc_bind_def gate_eq [OF ok] Let_def des seen_absent_def split: option.splits)

lemma deleted_outcome:
  assumes ok: "platform_ok wd p" and r: "r \<in> set (nd_rows (p_inst p))" and st: "i_state r \<noteq> IArchived"
    and rel: "resources_released (i_id r) (p_inst p)"
  shows "\<exists>acts p' r'. reconcile_deleted wd (row_inst r) False now p = (Inr acts, p')
     \<and> platform_ok wd p' \<and> r' \<in> set (nd_rows (p_inst p')) \<and> i_id r' = i_id r \<and> i_state r' = IArchived
     \<and> \<not> is_held (p_quota p') (i_id r) \<and> endpoints_of (i_id r) (p_inst p') = [] \<and> p_jobs p' = p_jobs p"
proof -
  let ?k = "i_id r"
  obtain a1 p1 where c: "cleanup_exposed wd (row_inst r) now ''9-exposed'' p = (Inr a1, p1)" "platform_ok wd p1"
    "nd_rows (p_inst p1) = nd_rows (p_inst p)" "p_jobs p1 = p_jobs p"
    "nd_resources (p_inst p1) = nd_resources (p_inst p)" "endpoints_of ?k (p_inst p1) = []"
    using cleanup_released [OF ok rel row_inst_simps(1), of now "''9-exposed''"] by blast
  have r1: "r \<in> set (nd_rows (p_inst p1))" using r c(3) by simp
  obtain r2 a2 p2 where d: "drain_to_stopped (row_inst r) now ''9-exposed'' p1 = (Inr (row_inst r2, a2), p2)"
    "r2 \<in> set (nd_rows (p_inst p2))" "i_id r2 = ?k" "archivable_state (i_state r2)" "platform_ok wd p2"
    "same_outside p1 p2"
    using drain_reaches [OF c(2) r1 st] by blast
  have rel2: "resources_released (i_id r2) (p_inst p2)"
    using rel d(3,6) c(5) by (simp add: resources_released_def same_outside_def)
  have es2: "endpoints_of (i_id r2) (p_inst p2) = []"
    using c(6) d(3,6) by (simp add: endpoints_of_def same_outside_def)
  note arch = archive_clean [OF d(5,2,4) rel2 es2, of now]
  let ?p3 = "entered r2 IArchived ''deleted; fully cleaned up'' BySystem now p2"
  have ok3: "platform_ok wd ?p3"
    using entered_ok [OF d(5,2) archivable_moves [OF d(4)] reasons_nonempty(3)] by blast
  have "\<not> is_held (p_quota ?p3) ?k"
    using freed_facts(2) [OF platform_okD(2) [OF d(5)], of r2 IArchived now] d(3) by simp
  moreover have "reconcile_deleted wd (row_inst r) False now p =
      (Inr (a1 @ a2 @ [plain_action (Uid (i_id r2)) ''9-exposed'' ''transition'']), ?p3)"
    by (simp add: reconcile_deleted_def svc_bind_def c(1) d(1) arch svc_ret_def)
  moreover have "endpoints_of ?k (p_inst ?p3) = []" using es2 d(3) by (simp add: endpoints_of_def)
  ultimately show ?thesis
    using ok3 moved_in_entered [OF d(5,2)] d(3,6) c(4)
    by (intro exI [of _ "a1 @ a2 @ [plain_action (Uid (i_id r2)) ''9-exposed'' ''transition'']"] exI [of _ ?p3]
        exI [of _ "moved r2 IArchived now"]) (simp add: same_outside_def)
qed

section \<open>Desired active\<close>

definition keeps_worker :: "fleet \<Rightarrow> int \<Rightarrow> inst_row \<Rightarrow> bool \<Rightarrow> instant \<Rightarrow> bool" where
  "keeps_worker fl age r healthy now \<longleftrightarrow>
     (\<forall>w. i_worker r = Some w \<longrightarrow> \<not> leave_worker (repository_sources fl age) w healthy now)"

definition no_old_resources :: "inst_row \<Rightarrow> instdb \<Rightarrow> bool" where
  "no_old_resources r db \<longleftrightarrow> (\<forall>x \<in> set (nd_resources db).
     rs_inst x = i_id r \<longrightarrow> rs_state x = ResActive \<longrightarrow> i_gen r \<le> rs_gen x)"

lemma no_partial_reset:
  assumes ok: "platform_ok wd p" and no: "no_old_resources r (p_inst p)"
  shows "partial_reset wd (row_inst r) now p = (Inr [], p)"
proof -
  have "filter (\<lambda>x. rr_state x = ResActive \<and> rr_gen x < i_gen r) (resources_of (i_id r) (p_inst p)) = []"
    using no by (auto simp: filter_empty_conv no_old_resources_def resources_of_def row_resource_def)
  then show ?thesis by (simp add: partial_reset_def svc_bind_def load_facts_eq [OF ok] svc_ret_def)
qed

lemma active_path:
  assumes ok: "platform_ok wd p" and des: "i_desired r = DesActive"
    and rep: "current_report (i_id r) (i_gen r) (p_inst p) = ob"
    and healthy: "healthy \<longleftrightarrow> (case ob of None \<Rightarrow> False | Some h \<Rightarrow> \<not> observed_absent h \<and> ho_healthy h)"
    and stay: "keeps_worker fl age r healthy now" and no: "no_old_resources r (p_inst p)"
  shows "reconcile_instance wd (repository_sources fl age) (row_inst r) now stuck p
    = resume_active wd (row_inst r) (seen_absent ob) healthy now stuck p"
proof -
  have "reconcile_instance wd (repository_sources fl age) (row_inst r) now stuck p
    = reconcile_active wd (repository_sources fl age) (row_inst r) (seen_absent ob) healthy now stuck p"
    using rep healthy
    by (simp add: reconcile_instance_def svc_bind_def gate_eq [OF ok] Let_def des seen_absent_def)
  also have "\<dots> = svc_bind (resume_active wd (row_inst r) (seen_absent ob) healthy now stuck) (\<lambda>more. svc_ret more) p"
    using stay no_partial_reset [OF ok no]
    by (auto simp: reconcile_active_def Let_def keeps_worker_def svc_bind_def svc_ret_def
        split: option.splits sum.splits prod.splits)
  finally show ?thesis by (simp add: svc_bind_def svc_ret_def split: sum.splits prod.splits)
qed

lemma enqueue_action_rows [simp]: "p_inst (snd (enqueue_action wd x g a now c p)) = p_inst p"
  by (auto simp: enqueue_action_def enqueue_corrective_def svc_bind_def draw_def Let_def svc_raise_def on_jobs_eq
      svc_ret_def split: sum.splits prod.splits)

lemma bind_tail_rows:
  "(\<And>r q. p_inst (snd (f r q)) = p_inst q) \<Longrightarrow> p_inst (snd (svc_bind m f p)) = p_inst (snd (m p))"
  by (simp add: svc_bind_def split: prod.splits sum.splits)

text \<open>A relaunch leaves the instance rows as the fence leaves them, or as they are.\<close>

lemma relaunch_rows:
  "p_inst (snd (relaunch wd x acts now existing p)) = p_inst p
   \<or> p_inst (snd (relaunch wd x acts now existing p))
     = p_inst (snd (on_inst (fence_missing_container (in_id x) (in_gen x) now) p))"
proof -
  have ret: "p_inst (snd (svc_ret r q)) = p_inst q" for r :: "reconcile_action list" and q
    by (simp add: svc_ret_def)
  have act: "p_inst (snd (svc_bind (enqueue_action wd y g a now c) (\<lambda>a. svc_ret (as' a)) q)) = p_inst q"
    for y g a c q and as' :: "reconcile_action \<Rightarrow> reconcile_action list"
    by (simp add: bind_tail_rows ret)
  have fence: "p_inst (snd (svc_bind (on_inst (fence_missing_container (in_id x) (in_gen x) now)) (\<lambda>fenced. case fenced of
         None \<Rightarrow> svc_ret acts
       | Some y \<Rightarrow> svc_bind (enqueue_action wd y (in_gen y) ActLaunch now c) (\<lambda>a. svc_ret (acts @ [b, a]))) p))
     = p_inst (snd (on_inst (fence_missing_container (in_id x) (in_gen x) now) p))" for c b
    by (rule bind_tail_rows) (simp add: act ret split: option.splits)
  show ?thesis by (simp add: relaunch_def act ret fence)
qed

lemma fence_keeps_state:
  assumes ok: "instdb_ok db" and r: "r \<in> set (nd_rows db)"
    and run: "fence_missing_container (Uid (i_id r)) g now db = Inr (res, db')"
  shows "\<exists>y \<in> set (nd_rows db'). i_id y = i_id r \<and> i_state y = i_state r"
proof (cases "i_gen r = g")
  case False
  then show ?thesis using run r by (auto simp: fence_missing_eq [OF ok] find_row_inst [OF ok r])
next
  case True
  let ?new = "r\<lparr>i_gen := i_gen r + 1, i_updated := now\<rparr>"
  obtain x where "field_update r ?new db = Inr (x, db')"
    using run True by (auto simp: fence_missing_eq [OF ok] find_row_inst [OF ok r] split: sum.splits)
  then have "db' = with_row ?new db" by (auto simp: field_update_def split: if_splits sum.splits)
  then have "?new \<in> set (nd_rows db')" using rows_with_row [OF ok r, of ?new] by simp
  then show ?thesis by (intro bexI [of _ ?new]) simp_all
qed

lemma on_fence_keeps_state:
  assumes ok: "instdb_ok (p_inst p)" and r: "r \<in> set (nd_rows (p_inst p))"
  shows "\<exists>y \<in> set (nd_rows (p_inst (snd (on_inst (fence_missing_container (Uid (i_id r)) g now) p)))).
    i_id y = i_id r \<and> i_state y = i_state r"
proof (cases "fence_missing_container (Uid (i_id r)) g now (p_inst p)")
  case (Inl e)
  then show ?thesis using r by (auto simp: on_inst_eq)
next
  case (Inr a)
  then obtain res db where run: "fence_missing_container (Uid (i_id r)) g now (p_inst p) = Inr (res, db)"
    by (cases a) auto
  from fence_keeps_state [OF ok r this] show ?thesis by (simp add: on_inst_eq run)
qed

lemma recover_degrades:
  assumes ok: "platform_ok wd p" and r: "r \<in> set (nd_rows (p_inst p))" and st: "i_state r = IActive \<or> i_state r = IHealthy"
  shows "\<exists>r' \<in> set (nd_rows (p_inst (snd (recover_missing wd (row_inst r) now p)))).
     i_id r' = i_id r \<and> i_state r' = IDegraded"
proof -
  let ?m = "moved r IDegraded now" and ?p = "entered r IDegraded ''observed absent while desired active'' BySystem now p"
  let ?key = "corrective_idempotency_key (Uid (i_id r)) (i_gen r) ActLaunch"
  let ?acts = "[plain_action (Uid (i_id r)) ''1-missing-container'' ''transition'']"
  have mv: "instance_move (i_state r) IDegraded" using st by (auto simp: instance_move_def)
  note step = drive_moves [OF ok r mv reasons_nonempty(4), of now "''1-missing-container''"]
  have iok: "instdb_ok (p_inst ?p)" using platform_okD(3) entered_ok [OF ok r mv reasons_nonempty(4)] by blast
  have m: "?m \<in> set (nd_rows (p_inst ?p))" by (rule moved_in_entered [OF ok r])
  have "recover_missing wd (row_inst r) now p
      = svc_bind (on_jobs (service_get_by_key ?key)) (relaunch wd (row_inst ?m) ?acts now) ?p"
    unfolding recover_missing_def
    by (subst bind_step, use st step in simp) (simp add: Let_def)
  moreover obtain ex where "on_jobs (service_get_by_key ?key) ?p = (ex, ?p)"
    using service_get_by_key_state [of ?key ?p] by (metis prod.collapse)
  ultimately have "p_inst (snd (recover_missing wd (row_inst r) now p)) = p_inst ?p
      \<or> p_inst (snd (recover_missing wd (row_inst r) now p))
        = p_inst (snd (on_inst (fence_missing_container (Uid (i_id r)) (i_gen r) now) ?p))"
    using relaunch_rows [of wd "row_inst ?m" ?acts now _ ?p]
    by (cases ex) (simp_all add: svc_bind_def)
  moreover have "\<exists>y \<in> set (nd_rows (p_inst (snd (on_inst (fence_missing_container (Uid (i_id r)) g now) ?p)))).
      i_id y = i_id r \<and> i_state y = IDegraded" for g
    using on_fence_keeps_state [OF iok m] by simp
  ultimately show ?thesis using m by (metis moved_gen(2,3))
qed

end
