(* ===== verification/Platform_Passes.thy ===== *)
theory Platform_Passes
  imports Instance_Outcomes
begin

text \<open>
  A reconciler pass always returns: each instance's step is isolated, and the leak sweep's own units
  of work cannot fail on a well-formed platform. A launch ends either with the instance queued, its
  worker recorded, its hold taken and its launch job stored, or with no new job at all.
\<close>

section \<open>Calls that return\<close>

definition returns :: "(platform, 'a) svc \<Rightarrow> platform \<Rightarrow> bool" where
  "returns m p \<longleftrightarrow> (\<exists>x. fst (m p) = Inr x)"

lemma returns_ret [simp]: "returns (svc_ret x) p"
  by (simp add: returns_def svc_ret_def)

lemma returns_bind:
  assumes "returns m p" and "\<And>x. fst (m p) = Inr x \<Longrightarrow> returns (f x) (snd (m p))"
  shows "returns (svc_bind m f) p"
  using assms by (auto simp: returns_def svc_bind_def split: prod.splits sum.splits)

lemma returns_step: "m p = (Inr x, p') \<Longrightarrow> returns (f x) p' \<Longrightarrow> returns (svc_bind m f) p"
  by (simp add: returns_def svc_bind_def)

lemma returns_catch: "(\<And>e q. returns (h e) q) \<Longrightarrow> returns (svc_catch m h) p"
  by (auto simp: returns_def svc_catch_def split: prod.splits sum.splits)

lemma mark_each_returns:
  assumes "instdb_ok db" and "\<forall>r \<in> set rs. rr_inst r = Uid k"
  shows "\<exists>x. mark_each (Uid k) rs now c db = Inr x"
  using assms
proof (induction rs arbitrary: db)
  case (Cons r rs)
  show ?case
  proof (cases "rr_state r = ResActive")
    case False
    then show ?thesis using Cons by simp
  next
    case True
    obtain b db' where s: "set_resource_state (Uid k) (rr_kind r) (rr_ref r) ResReleasing now db = Inr (b, db')"
      by (cases "find_row resource_key (k, rr_kind r, rr_ref r) (nd_resources db)")
        (auto simp: set_resource_state_eq [OF Cons.prems(1)])
    have "instdb_ok db'" using tx_growsD [OF set_resource_state_grows Cons.prems(1) s] by blast
    then show ?thesis using Cons True s by (fastforce simp: tx_bind_def tx_ret_def)
  qed
qed (simp add: tx_ret_def)

lemma mark_returns:
  "platform_ok wd p \<Longrightarrow> \<forall>r \<in> set rs. rr_inst r = Uid k \<Longrightarrow> returns (mark_releasing (Uid k) rs now c) p"
  using mark_each_returns [OF platform_okD(3), of wd p rs k now c]
  by (fastforce simp: returns_def mark_releasing_def on_inst_eq split: sum.splits)

lemma delete_returns: "returns (delete_endpoints (Uid k) es now c) p"
  using delete_each_state [of k es c "p_inst p"] by (auto simp: returns_def delete_endpoints_def on_inst_eq)

lemma enqueue_returns:
  assumes ok: "platform_ok wd p" and k: "known x (p_inst p)"
  shows "returns (enqueue_action wd x (in_gen x) a now c) p"
proof -
  have "returns (enqueue_corrective wd x (in_gen x) a now) p"
    by (auto simp: returns_def enqueue_corrective_eq [OF ok k known_gen [OF k]] Let_def split: option.splits)
  then show ?thesis unfolding enqueue_action_def by (rule returns_bind) (simp split: prod.splits)
qed

section \<open>The leak sweep\<close>

lemma get_returns:
  assumes "platform_ok wd p"
  shows "on_inst (get_instance i) p = (Inr (map_option row_inst (find_inst i (p_inst p))), p)"
  by (simp add: on_inst_eq get_instance_eq [OF platform_okD(3) [OF assms]])

lemma sweep_leaks_returns:
  assumes "platform_ok wd p" and "\<forall>r \<in> set rs. \<exists>k. rr_inst r = Uid k"
  shows "returns (sweep_leaks wd seen rs now) p"
  using assms
proof (induction rs arbitrary: seen p)
  case (Cons r rs)
  obtain k where k: "rr_inst r = Uid k" using Cons.prems(2) by auto
  show ?case
  proof (cases "find_inst (Uid k) (p_inst p)")
    case None
    show ?thesis
      by (simp only: sweep_leaks.simps k, rule returns_step, rule get_returns [OF Cons.prems(1)])
        (use Cons None in simp)
  next
    case (Some x)
    note kn = conjunct1 [OF find_inst_known [OF platform_okD(3) [OF Cons.prems(1)] Some]]
    let ?job = "if rr_inst r \<in> set seen then svc_ret []
        else svc_bind (enqueue_action wd (row_inst x) (in_gen (row_inst x)) ActDelete now ''5-leaked-resource'')
          (\<lambda>a. svc_ret [a])"
    have job: "returns ?job p" using enqueue_returns [OF Cons.prems(1) kn] by (auto intro: returns_bind)
    have st: "steady wd (row_inst x) ?job" by (intro steady_split steady_bind steady_enqueue_action steady_ret)
    have p1: "platform_ok wd (snd (?job p))" using steadyD [OF st Cons.prems(1) kn] by blast
    have mark: "returns (mark_releasing (Uid k) [r] now c) q" if "platform_ok wd q" for c q
      using mark_returns [OF that, of "[r]" k] k by simp
    have p2: "platform_ok wd (snd (mark_releasing (Uid k) [r] now c q))" if "platform_ok wd q" for c q
      using runs_at [OF runs_mark that] by blast
    have rest: "returns (svc_bind ?job (\<lambda>jobs. svc_bind (mark_releasing (Uid k) [r] now ''5-leaked-resource'') (\<lambda>marks.
         svc_bind (sweep_leaks wd (rr_inst r # seen) rs now) (\<lambda>more. svc_ret (jobs @ marks @ more))))) p"
      using job mark [OF p1] Cons.IH [OF p2 [OF p1]] Cons.prems(2)
      by (intro returns_bind) simp_all
    show ?thesis
      by (simp only: sweep_leaks.simps, rule returns_step, rule get_returns [OF Cons.prems(1)])
        (use rest Some k in simp)
  qed
qed simp

lemma sweep_orphans_returns:
  assumes "\<forall>e \<in> set es. \<exists>k. ep_inst e = Uid k"
  shows "returns (sweep_orphans es now) p"
  using assms
proof (induction es arbitrary: p)
  case (Cons e es)
  then obtain k where k: "ep_inst e = Uid k" by auto
  show ?case
    unfolding sweep_orphans.simps k
    by (rule returns_bind [OF delete_returns], rule returns_bind) (use Cons in auto)
qed simp

lemma leaked_eq:
  assumes "instdb_ok db"
  shows "\<exists>rs es. tx_bind (list_leaked_resources limit) (\<lambda>rs.
         tx_bind (list_orphan_endpoints limit) (\<lambda>es. tx_ret (rs, es))) db = Inr ((rs, es), db)
     \<and> (\<forall>r \<in> set rs. \<exists>k. rr_inst r = Uid k) \<and> (\<forall>e \<in> set es. \<exists>k. ep_inst e = Uid k)"
proof -
  let ?rs = "order_limit rs_created limit
      (filter (\<lambda>r. rs_state r = ResActive \<and> inst_archived db (rs_inst r)) (nd_resources db))"
  let ?es = "order_limit er_created limit (filter (\<lambda>e. inst_archived db (er_inst e)) (nd_endpoints db))"
  have "set ?rs \<subseteq> set (nd_resources db)" "set ?es \<subseteq> set (nd_endpoints db)"
    using set_order_limit by fastforce+
  then have "resources_from_orm ?rs db = Inr (map row_resource ?rs, db)"
    "endpoints_from_orm ?es db = Inr (map row_endpoint ?es, db)"
    using assms by (auto intro!: resources_from_orm_ok endpoints_from_orm_ok simp: instdb_ok_def facts_ok_def)
  then have "tx_bind (list_leaked_resources limit) (\<lambda>rs. tx_bind (list_orphan_endpoints limit) (\<lambda>es. tx_ret (rs, es))) db
      = Inr ((map row_resource ?rs, map row_endpoint ?es), db)"
    by (simp add: list_leaked_resources_def list_orphan_endpoints_def tx_bind_def tx_get_def tx_ret_def)
  then show ?thesis
    by (intro exI [of _ "map row_resource ?rs"] exI [of _ "map row_endpoint ?es"])
      (auto simp: row_resource_def row_endpoint_def)
qed

lemma leaks_return:
  assumes ok: "platform_ok wd p"
  shows "returns (reconcile_leaks wd now limit) p"
proof -
  obtain rs es where l: "tx_bind (list_leaked_resources limit) (\<lambda>rs.
         tx_bind (list_orphan_endpoints limit) (\<lambda>es. tx_ret (rs, es))) (p_inst p) = Inr ((rs, es), p_inst p)"
    "\<forall>r \<in> set rs. \<exists>k. rr_inst r = Uid k" "\<forall>e \<in> set es. \<exists>k. ep_inst e = Uid k"
    using leaked_eq [OF platform_okD(3) [OF ok], of limit] by blast
  have "returns (svc_bind (sweep_leaks wd [] rs now) (\<lambda>acts. svc_bind (sweep_orphans es now)
      (\<lambda>more. svc_ret (acts @ more)))) p"
    by (intro returns_bind sweep_leaks_returns [OF ok l(2)] sweep_orphans_returns [OF l(3)]) simp
  moreover have "on_inst (tx_bind (list_leaked_resources limit) (\<lambda>rs.
      tx_bind (list_orphan_endpoints limit) (\<lambda>es. tx_ret (rs, es)))) p = (Inr (rs, es), p)"
    by (simp add: on_inst_eq l(1))
  ultimately show ?thesis
    unfolding reconcile_leaks_def by - (rule returns_step, assumption, subst prod.case, assumption)
qed

lemma each_returns: "returns (reconcile_each wd so xs now stuck) p"
proof (induction xs arbitrary: p)
  case (Cons x xs)
  show ?case
    unfolding reconcile_each.simps
    by (rule returns_bind [OF returns_catch], simp, rule returns_bind [OF Cons.IH], simp)
qed simp

context observation_source
begin

lemma once_returns:
  assumes ok: "platform_ok wd p"
  shows "returns (reconcile_once wd so now stuck limit) p"
proof -
  let ?rows = "order_limit i_created limit (filter (\<lambda>r. i_state r \<noteq> IArchived) (nd_rows (p_inst p)))"
  let ?xs = "map row_inst ?rows"
  have l: "on_inst (list_reconcilable limit) p = (Inr ?xs, p)"
    by (simp add: on_inst_eq list_reconcilable_eq [OF platform_okD(3) [OF ok]])
  have "\<forall>x \<in> set ?xs. known x (p_inst p)"
    using known_row [OF platform_okD(3) [OF ok]] set_order_limit by fastforce
  then have "platform_ok wd (snd (reconcile_each wd so ?xs now stuck p))"
    using each_run [of wd ?xs now stuck] ok unfolding svc_run_def by blast
  then have "returns (svc_bind (reconcile_each wd so ?xs now stuck) (\<lambda>acts.
      svc_bind (reconcile_leaks wd now limit) (\<lambda>more. svc_ret (acts @ more)))) p"
    by (intro returns_bind each_returns leaks_return) simp_all
  then show ?thesis unfolding reconcile_once_def by (rule_tac returns_step, rule_tac l)
qed

end

section \<open>Launches\<close>

lemma enqueue_corrective_known:
  assumes ok: "platform_ok wd p" and k: "known x (p_inst p)"
  shows "\<exists>j b p'. enqueue_corrective wd x (in_gen x) a now p = (Inr (j, b), p') \<and> p_inst p' = p_inst p
    \<and> p_quota p' = p_quota p \<and> job_stored (p_jobs p') (corrective_idempotency_key (in_id x) (in_gen x) a) \<noteq> None"
proof -
  have key: "r_key (corrective_job_row u x g a now c) = corrective_idempotency_key (in_id x) g a" for u c g
    by (simp add: corrective_job_row_def)
  show ?thesis
    by (cases "job_stored (p_jobs p) (corrective_idempotency_key (in_id x) (in_gen x) a)")
      (auto simp: enqueue_corrective_eq [OF ok k known_gen [OF k]] Let_def with_job_def job_stored_def
        find_row_append find_row_Cons key)
qed

text \<open>What recording a placement leaves.\<close>

lemma record_placement_outcome:
  assumes ok: "instdb_ok db" and st: "\<exists>r. find_inst i db = Some r \<and> i_state r = IRequested"
    and run: "record_placement cat i w now db = Inr (x, db')"
  shows "\<exists>r. find_inst i db' = Some r \<and> x = row_inst r \<and> i_state r = IQueued \<and> i_worker r = Some w"
proof -
  obtain y d where a: "set_assignment cat i (Some w) now db = Inr (y, d)"
    and t: "transition_instance i IQueued ''placed and enqueued for launch'' BySystem now d = Inr (x, db')"
    using run unfolding record_placement_def by (rule tx_bindE)
  have d: "instdb_ok d" using tx_growsD [OF field_ops_grow(4) ok a] by blast
  obtain r0 where r0: "find_inst i db = Some r0" "i_state r0 = IRequested" using st by blast
  note row0 = find_inst_Uid [OF ok r0(1)]
  let ?r = "r0\<lparr>i_worker := Some w, i_updated := now\<rparr>"
  have "d = with_row ?r db"
    using a r0(1) by (auto simp: set_assignment_eq [OF ok] updates_row_def field_update_def split: if_splits sum.splits)
  then have fd: "find_inst i d = Some ?r" using find_inst_with_row [OF ok, of r0 ?r i] row0 by simp
  note rd = find_inst_Uid [OF d fd]
  have "x = row_inst (moved ?r IQueued now)"
    "db' = transitioned ?r IQueued ''placed and enqueued for launch'' BySystem now d"
    using t fd r0(2) by (auto simp: transition_eq [OF d] transitioned_def split: if_splits)
  then show ?thesis
    using find_inst_transitioned [OF d, of ?r i IQueued] rd
    by (intro exI [of _ "moved ?r IQueued now"]) (simp add: moved_def)
qed

lemma svc_bind_cases:
  assumes "svc_bind m f p = (out, p')"
  obtains (raised) e where "m p = (Inl e, p')" and "out = Inl e"
    | (went_on) x q where "m p = (Inr x, q)" and "f x q = (out, p')"
  using assms by (auto simp: svc_bind_def split: prod.splits sum.splits)

lemma other_stores:
  "on_inst m p = (r, q) \<Longrightarrow> p_jobs q = p_jobs p \<and> p_quota q = p_quota p"
  "on_quota m' p = (r', q) \<Longrightarrow> p_jobs q = p_jobs p \<and> p_inst q = p_inst p"
  "draw p = (n, q) \<Longrightarrow> p_jobs q = p_jobs p \<and> p_inst q = p_inst p \<and> p_quota q = p_quota p"
  by (auto simp: on_inst_eq on_quota_eq draw_def split: sum.splits)

definition launched :: "launch_request \<Rightarrow> inst \<Rightarrow> platform \<Rightarrow> bool" where
  "launched q x p \<longleftrightarrow> (\<exists>r \<in> set (nd_rows (p_inst p)). x = row_inst r \<and> lr_id q = Uid (i_id r) \<and> i_state r = IQueued
     \<and> i_worker r \<noteq> None \<and> is_held (p_quota p) (i_id r)
     \<and> job_stored (p_jobs p) (corrective_idempotency_key (Uid (i_id r)) (i_gen r) ActLaunch) \<noteq> None)"

text \<open>From the placement on.\<close>

lemma placed_outcome:
  assumes ok: "platform_ok wd p" and held: "lr_id q = Uid k" "is_held (p_quota p) k"
    and st: "\<exists>r. find_inst (lr_id q) (p_inst p) = Some r \<and> i_state r = IRequested"
    and run: "svc_bind (on_inst (record_placement cat (lr_id q) w now)) (\<lambda>placed.
       svc_bind (enqueue_corrective wd placed (in_gen placed) ActLaunch now) (\<lambda>_. svc_ret placed)) p = (out, p')"
  shows "case out of Inl _ \<Rightarrow> p_jobs p' = p_jobs p | Inr x \<Rightarrow> launched q x p'"
  using run
proof (cases rule: svc_bind_cases)
  case (raised e)
  then show ?thesis using other_stores(1) [OF raised(1)] by simp
next
  case (went_on x d)
  have ok': "platform_ok wd d" and kn: "known x (p_inst d)"
    using record_placement_run [of wd cat "lr_id q" w now] ok went_on(1) by (auto simp: svc_run_def)
  have rp: "record_placement cat (lr_id q) w now (p_inst p) = Inr (x, p_inst d)"
    using went_on(1) by (auto simp: on_inst_eq split: sum.splits)
  obtain r where r: "find_inst (lr_id q) (p_inst d) = Some r" "x = row_inst r" "i_state r = IQueued" "i_worker r = Some w"
    using record_placement_outcome [OF platform_okD(3) [OF ok] st rp] by blast
  note row = find_inst_Uid [OF platform_okD(3) [OF ok'] r(1)]
  obtain j b e where e: "enqueue_corrective wd x (in_gen x) ActLaunch now d = (Inr (j, b), e)" "p_inst e = p_inst d"
    "p_quota e = p_quota d" "job_stored (p_jobs e) (corrective_idempotency_key (in_id x) (in_gen x) ActLaunch) \<noteq> None"
    using enqueue_corrective_known [OF ok' kn, of ActLaunch now] by blast
  have "out = Inr x" "p' = e" using went_on(2) e(1) by (auto simp: svc_bind_def svc_ret_def)
  then show ?thesis
    using e r row held other_stores(1) [OF went_on(1)] unfolding launched_def
    by (auto intro!: bexI [of _ r])
qed

text \<open>From the admitted request on: the draw for the ledger's clock, the placement, the rest.\<close>

lemma admitted_outcome:
  assumes ok: "platform_ok wd p" and v: "valid_launch q"
    and st: "\<exists>r. find_inst (lr_id q) (p_inst p) = Some r \<and> i_state r = IRequested"
    and run: "svc_bind draw (\<lambda>m. svc_bind (on_quota (select_and_reserve (wd_fleet wd) (wd_clock wd m)
         (launch_placement q img))) (\<lambda>(_, worker).
       svc_bind (on_inst (record_placement (wd_cat wd) (lr_id q) worker (lr_now q))) (\<lambda>placed.
       svc_bind (enqueue_corrective wd placed (in_gen placed) ActLaunch (lr_now q)) (\<lambda>_. svc_ret placed)))) p
     = (out, p')"
  shows "case out of Inl _ \<Rightarrow> p_jobs p' = p_jobs p | Inr x \<Rightarrow> launched q x p'"
  using run
proof (cases rule: svc_bind_cases)
  case (raised e)
  then show ?thesis by (simp add: draw_def)
next
  case (went_on m p1)
  have p1: "p_jobs p1 = p_jobs p" "platform_ok wd p1" "p_inst p1 = p_inst p"
    using other_stores(3) [OF went_on(1)] runs_at [OF runs_draw ok] went_on(1) by auto
  obtain k where k: "lr_id q = Uid k" using st find_inst_Uid [OF platform_okD(3) [OF ok]] by blast
  have pid: "pl_id (launch_placement q img) = Uid k" by (simp add: launch_placement_def k)
  from went_on(2) show ?thesis
  proof (cases rule: svc_bind_cases)
    case (raised e)
    then show ?thesis using other_stores(2) [OF raised(1)] p1 by simp
  next
    case (went_on rw p2)
    obtain rv w where rw: "rw = (rv, w)" by (cases rw)
    have sel: "select_and_reserve (wd_fleet wd) (wd_clock wd m) (launch_placement q img) (p_quota p1)
        = (Inr (rv, w), p_quota p2)"
      using went_on(1) by (auto simp: on_quota_eq rw prod_eq_iff)
    have held: "is_held (p_quota p2) k"
      using select_and_reserve_outcome [OF platform_okD(2) [OF p1(2)] launch_placement_ok [OF v] pid sel] by simp
    have "live_row (lr_id q) (p_inst p1)" using st p1(3) by (auto simp: live_row_def)
    then have p2: "platform_ok wd p2"
      using placement_run [OF v, of wd "wd_clock wd m" img] p1(2) went_on(1) unfolding svc_run_def by (metis snd_conv)
    have same: "p_jobs p2 = p_jobs p" "p_inst p2 = p_inst p" using other_stores(2) [OF went_on(1)] p1 by simp_all
    show ?thesis
      using placed_outcome [OF p2 k held, of "wd_cat wd" w "lr_now q" out p'] st same went_on(2) rw
      by (cases out) simp_all
  qed
qed

lemma launch_outcome_lemma:
  assumes ok: "platform_ok wd p" and v: "valid_launch q" and run: "request_instance wd q p = (out, p')"
  shows "case out of Inl _ \<Rightarrow> p_jobs p' = p_jobs p | Inr x \<Rightarrow> launched q x p'"
  using run unfolding request_instance_def
proof (cases rule: svc_bind_cases)
  case (raised e)
  then show ?thesis by (auto simp: svc_ret_def on_images_def svc_on_def session_scope_def tx_get_def split: option.splits)
next
  case (went_on img p0)
  have p0: "p_jobs p0 = p_jobs p" "platform_ok wd p0"
    using went_on(1) ok
    by (auto simp: svc_ret_def on_images_def svc_on_def session_scope_def tx_get_def split: option.splits)
  from went_on(2) show ?thesis
  proof (cases rule: svc_bind_cases)
    case (raised e)
    then show ?thesis by (simp add: draw_def)
  next
    case (went_on n p1)
    have p1: "p_jobs p1 = p_jobs p" "platform_ok wd p1"
      using other_stores(3) [OF went_on(1)] p0 runs_at [OF runs_draw p0(2)] went_on(1) by auto
    from went_on(2) show ?thesis
    proof (cases rule: svc_bind_cases)
      case (raised e)
      then show ?thesis using other_stores(1) [OF raised(1)] p1 by simp
    next
      case (went_on u p2)
      have p2: "p_jobs p2 = p_jobs p" "platform_ok wd p2"
        using other_stores(1) [OF went_on(1)] p1 runs_at [OF runs_inst [OF admit_calm] p1(2)] went_on(1)
        by (metis snd_conv)+
      have "admit_request (wd_cat wd) (wd_clock wd n) q img (p_inst p1) = Inr (u, p_inst p2)"
        using went_on(1) by (auto simp: on_inst_eq split: sum.splits)
      from admit_requested [OF platform_okD(3) [OF p1(2)] this]
      have st: "\<exists>r. find_inst (lr_id q) (p_inst p2) = Some r \<and> i_state r = IRequested" .
      from admitted_outcome [OF p2(2) v st went_on(2)] p2(1) show ?thesis by (cases out) simp_all
    qed
  qed
qed

section \<open>Cleaning up while the delete job is stored\<close>

lemma facts_jobs:
  "p_jobs (snd (delete_endpoints i es now c p)) = p_jobs p" "p_jobs (snd (mark_releasing i rs now c p)) = p_jobs p"
  "p_jobs (snd (load_facts i p)) = p_jobs p"
  by (auto simp: delete_endpoints_def mark_releasing_def load_facts_def on_inst_eq split: sum.splits)

lemma bind_jobs:
  assumes "p_jobs (snd (m p)) = p_jobs p" and "\<And>x q. m p = (Inr x, q) \<Longrightarrow> p_jobs (snd (f x q)) = p_jobs q"
  shows "p_jobs (snd (svc_bind m f p)) = p_jobs p"
  using assms by (auto simp: svc_bind_def split: prod.splits sum.splits)

lemma cleanup_jobs:
  assumes ok: "platform_ok wd p" and r: "r \<in> set (nd_rows (p_inst p))"
    and st: "job_stored (p_jobs p) (corrective_idempotency_key (Uid (i_id r)) (i_gen r) ActDelete) = Some j"
  shows "p_jobs (snd (cleanup_exposed wd (row_inst r) now c p)) = p_jobs p"
proof -
  have kn: "known (row_inst r) (p_inst p)" by (rule known_row [OF platform_okD(3) [OF ok] r])
  have ret: "p_jobs (snd (svc_ret x q)) = p_jobs q" for x :: "reconcile_action list" and q by (simp add: svc_ret_def)
  have enq: "p_jobs (snd (svc_bind (enqueue_action wd (row_inst r) (i_gen r) ActDelete now c) (\<lambda>a. svc_ret [a]) q)) = p_jobs q"
    if q: "platform_ok wd q" "known (row_inst r) (p_inst q)" "p_jobs q = p_jobs p" for q
    using st known_gen [OF q(2)]
    by (simp add: enqueue_action_def svc_bind_def enqueue_corrective_eq [OF q(1,2)] q(3) svc_ret_def)
  have rest: "p_jobs (snd (svc_bind (delete_endpoints (Uid (i_id r)) es now c) (\<lambda>dels.
      svc_bind (if b then svc_ret [] else svc_bind (enqueue_action wd (row_inst r) (i_gen r) ActDelete now c) (\<lambda>a. svc_ret [a]))
        (\<lambda>jobs. svc_bind (if b' then svc_ret [] else mark_releasing (Uid (i_id r)) rs now c) (\<lambda>marks.
          svc_ret (dels @ jobs @ marks)))) p)) = p_jobs p" for es b b' rs
  proof (rule bind_jobs [OF facts_jobs(1)])
    fix dels q assume run: "delete_endpoints (Uid (i_id r)) es now c p = (Inr dels, q)"
    then have q: "platform_ok wd q" "platform_grows p q" "p_jobs q = p_jobs p"
      using runs_at [OF runs_delete ok, of "Uid (i_id r)" es now c] facts_jobs(1) [of "Uid (i_id r)" es now c p] by auto
    show "p_jobs (snd (svc_bind (if b then svc_ret [] else svc_bind (enqueue_action wd (row_inst r) (i_gen r) ActDelete now c)
         (\<lambda>a. svc_ret [a])) (\<lambda>jobs. svc_bind (if b' then svc_ret [] else mark_releasing (Uid (i_id r)) rs now c)
           (\<lambda>marks. svc_ret (dels @ jobs @ marks))) q)) = p_jobs q"
      using enq [OF q(1) known_frame [OF kn q(2)] q(3)]
      by (intro bind_jobs) (auto simp: ret facts_jobs)
  qed
  show ?thesis using rest by (simp add: cleanup_exposed_def svc_bind_def [of "load_facts _"] load_facts_eq [OF ok] Let_def split del: if_split cong: if_cong)
qed

end
