(* ===== verification/Platform_Sample.thy ===== *)
theory Platform_Sample
  imports Platform_Protocol
begin

text \<open>
  A sample platform: one worker, one launch request, the instance brought up to \<open>active\<close> and reported
  healthy. The states are built by valid calls, so they are reachable.
\<close>

definition sample_world :: world where
  "sample_world = \<lparr>wd_cat = sample_catalog, wd_fleet = sample_fleet, wd_uuid = (\<lambda>n. n), wd_clock = int\<rparr>"

abbreviation sample_sources :: sources where
  "sample_sources \<equiv> repository_sources sample_fleet 60"

definition sample_request :: launch_request where
  "sample_request = \<lparr>lr_id = Uid 3, lr_comp = ''ctf'', lr_team = ''red'', lr_defn = ''web'', lr_ver = 1,
     lr_req = \<lparr>wr_arch = ''x86'', wr_caps = [''launch_instance''], wr_runtime = None\<rparr>,
     lr_items = [sample_item], lr_expires = 100, lr_now = 1, lr_image = Some ''web:1'', lr_seed = None,
     lr_units = 1, lr_ceilings = [], lr_comp_key = None, lr_team_key = None, lr_chal_key = None,
     lr_sched_image = None\<rparr>"

definition sample_report :: "int \<Rightarrow> instant \<Rightarrow> health_observation" where
  "sample_report g t = \<lparr>ho_inst = Uid 3, ho_state = ObsState IActive, ho_healthy = True, ho_worker = ''w1'',
     ho_gen = g, ho_at = t, ho_detail = [], ho_id = None\<rparr>"

definition sample_resource :: runtime_resource where
  "sample_resource = \<lparr>rr_inst = Uid 3, rr_kind = ResContainer, rr_ref = ''c1'', rr_worker = ''w1'', rr_gen = 1,
     rr_state = ResReleased\<rparr>"

definition bring_up :: "platform_call list" where
  "bring_up = map (\<lambda>t. PTransition (Uid 3) t ''worker'' ByWorker 5)
     [IBuilding, IReady, IStarting, IHealthy, IActive]"

definition launched_platform :: platform where
  "launched_platform = run_platform_calls sample_world sample_sources
     [PLimit sample_policy, PRequest sample_request] empty_platform"

definition active_platform :: platform where
  "active_platform = run_platform_calls sample_world sample_sources
     (bring_up @ [PObserve (sample_report 1 10)]) launched_platform"

definition deleted_platform :: platform where
  "deleted_platform = run_platform_calls sample_world sample_sources
     [PResource sample_resource, PDelete (Uid 3) 20, PObserve (sample_report 7 30)] active_platform"

definition archived_platform :: platform where
  "archived_platform = run_platform_calls sample_world sample_sources [PReconcile 40 300 500] deleted_platform"

definition stale_platform :: platform where
  "stale_platform = run_platform_calls sample_world sample_sources
     [PReset (Uid 3) 200 40 None [], PObserve (sample_report 2 50), PObserve (sample_report 1 60)] active_platform"

text \<open>A container whose deletion failed for good: its delete job is recorded as \<open>failed\<close>.\<close>

definition stuck_platform :: platform where
  "stuck_platform = run_platform_calls sample_world sample_sources
     [PResource (sample_resource\<lparr>rr_state := ResActive\<rparr>), PDelete (Uid 3) 20, PObserve (sample_report 7 30),
      PReconcile 40 300 500, PWorker (CallClaim [] 9 ''w1'' [''delete_runtime_resources''] 60 41),
      PWorker (CallStart (Uid 6) (Uid 9) 42), PWorker (CallFail (Uid 6) (Uid 9) ''internal'' (Some ''gone'') False 43)]
     active_platform"

lemma sample_world_inj: "inj (wd_uuid sample_world)"
  by (simp add: sample_world_def inj_def)

text \<open>The states, evaluated once; later evaluations start from these values.\<close>

lemma launched_value [code]:
  "launched_platform =
    \<lparr>p_jobs =
     \<lparr>jd_jobs =
        [\<lparr>r_id = 2, r_type = LaunchInstance, r_status = Queued,
            r_priority = 100,
            r_payload =
              [(''instance_id'',
                JStr ''00000000-0000-0000-0000-000000000003''),
               (''generation'', JInt 1), (''action'', JStr ''launch'')],
            r_key =
              ''instance:00000000-0000-0000-0000-000000000003:gen1:launch'',
            r_caps = [''launch_instance''], r_attempts = 0, r_max = 3,
            r_backoff = 30, r_available = 1, r_claimed_by = None,
            r_token = None, r_lease = None, r_heartbeat = None,
            r_cancel = None, r_started = None, r_finished = None,
            r_err = None, r_err_detail = None, r_result_json = None,
            r_result_ref = None, r_log_ref = None, r_comp = Some ''ctf'',
            r_version = Some (''web'', 1), r_created = 2\<rparr>],
        jd_hist =
          [\<lparr>jt_job = 2, jt_from = None, jt_to = Queued, jt_attempt = 0,
              jt_occurred_at = 1, jt_worker = None, jt_error_class = None,
              jt_error_detail = None\<rparr>]\<rparr>,
     p_quota =
       \<lparr>qd_quotas =
          [\<lparr>q_scope = ScPlatform, q_key = ''p'', q_dim = CpuMillis,
              q_limit = 800, q_reserved = 500\<rparr>,
           \<lparr>q_scope = ScWorker, q_key = ''w1'', q_dim = ActiveInstances,
              q_limit = 2, q_reserved = 1\<rparr>],
          qd_headers =
            [\<lparr>h_id = 3, h_worker = ''w1'', h_comp = None, h_team = None,
                h_chal = None, h_state = Held, h_expires = 100,
                h_released = None, h_created = 1\<rparr>],
          qd_items =
            [\<lparr>ir_hold = 3,
                ir_item =
                  \<lparr>ri_scope = ScPlatform, ri_key = ''p'',
                     ri_dim = CpuMillis, ri_amount = 500\<rparr>\<rparr>,
             \<lparr>ir_hold = 3,
                ir_item =
                  \<lparr>ri_scope = ScWorker, ri_key = ''w1'',
                     ri_dim = ActiveInstances, ri_amount = 1\<rparr>\<rparr>]\<rparr>,
     p_inst =
       \<lparr>nd_rows =
          [\<lparr>i_id = 3, i_comp = ''ctf'', i_team = ''red'',
              i_version = (''web'', 1), i_state = IQueued,
              i_desired = DesActive, i_worker = Some ''w1'', i_gen = 1,
              i_image = Some ''web:1'', i_expires = Some 100,
              i_seed = None, i_created = 0, i_updated = 1\<rparr>],
          nd_endpoints = [], nd_resources = [], nd_credentials = [],
          nd_observations = [],
          nd_events =
            [\<lparr>ev_inst = 3, ev_from = None, ev_to = IRequested,
                ev_reason = ''created'', ev_actor = BySystem, ev_gen = 1,
                ev_at = 1\<rparr>,
             \<lparr>ev_inst = 3, ev_from = Some IRequested, ev_to = IQueued,
                ev_reason = ''placed and enqueued for launch'',
                ev_actor = BySystem, ev_gen = 1, ev_at = 1\<rparr>]\<rparr>,
     p_images = \<lparr>im_builds = [], im_stacks = []\<rparr>, p_draws = 3\<rparr>"
  by code_simp

lemma active_value [code]:
  "active_platform =
    \<lparr>p_jobs =
     \<lparr>jd_jobs =
        [\<lparr>r_id = 2, r_type = LaunchInstance, r_status = Queued,
            r_priority = 100,
            r_payload =
              [(''instance_id'',
                JStr ''00000000-0000-0000-0000-000000000003''),
               (''generation'', JInt 1), (''action'', JStr ''launch'')],
            r_key =
              ''instance:00000000-0000-0000-0000-000000000003:gen1:launch'',
            r_caps = [''launch_instance''], r_attempts = 0, r_max = 3,
            r_backoff = 30, r_available = 1, r_claimed_by = None,
            r_token = None, r_lease = None, r_heartbeat = None,
            r_cancel = None, r_started = None, r_finished = None,
            r_err = None, r_err_detail = None, r_result_json = None,
            r_result_ref = None, r_log_ref = None, r_comp = Some ''ctf'',
            r_version = Some (''web'', 1), r_created = 2\<rparr>],
        jd_hist =
          [\<lparr>jt_job = 2, jt_from = None, jt_to = Queued, jt_attempt = 0,
              jt_occurred_at = 1, jt_worker = None, jt_error_class = None,
              jt_error_detail = None\<rparr>]\<rparr>,
     p_quota =
       \<lparr>qd_quotas =
          [\<lparr>q_scope = ScPlatform, q_key = ''p'', q_dim = CpuMillis,
              q_limit = 800, q_reserved = 500\<rparr>,
           \<lparr>q_scope = ScWorker, q_key = ''w1'', q_dim = ActiveInstances,
              q_limit = 2, q_reserved = 1\<rparr>],
          qd_headers =
            [\<lparr>h_id = 3, h_worker = ''w1'', h_comp = None, h_team = None,
                h_chal = None, h_state = Held, h_expires = 100,
                h_released = None, h_created = 1\<rparr>],
          qd_items =
            [\<lparr>ir_hold = 3,
                ir_item =
                  \<lparr>ri_scope = ScPlatform, ri_key = ''p'',
                     ri_dim = CpuMillis, ri_amount = 500\<rparr>\<rparr>,
             \<lparr>ir_hold = 3,
                ir_item =
                  \<lparr>ri_scope = ScWorker, ri_key = ''w1'',
                     ri_dim = ActiveInstances, ri_amount = 1\<rparr>\<rparr>]\<rparr>,
     p_inst =
       \<lparr>nd_rows =
          [\<lparr>i_id = 3, i_comp = ''ctf'', i_team = ''red'',
              i_version = (''web'', 1), i_state = IActive,
              i_desired = DesActive, i_worker = Some ''w1'', i_gen = 1,
              i_image = Some ''web:1'', i_expires = Some 100,
              i_seed = None, i_created = 0, i_updated = 5\<rparr>],
          nd_endpoints = [], nd_resources = [], nd_credentials = [],
          nd_observations =
            [\<lparr>or_id = 3, or_inst = 3, or_state = ObsState IActive,
                or_healthy = True, or_worker = ''w1'', or_gen = 1,
                or_at = 10, or_detail = [], or_created = 3\<rparr>],
          nd_events =
            [\<lparr>ev_inst = 3, ev_from = None, ev_to = IRequested,
                ev_reason = ''created'', ev_actor = BySystem, ev_gen = 1,
                ev_at = 1\<rparr>,
             \<lparr>ev_inst = 3, ev_from = Some IRequested, ev_to = IQueued,
                ev_reason = ''placed and enqueued for launch'',
                ev_actor = BySystem, ev_gen = 1, ev_at = 1\<rparr>,
             \<lparr>ev_inst = 3, ev_from = Some IQueued, ev_to = IBuilding,
                ev_reason = ''worker'', ev_actor = ByWorker, ev_gen = 1,
                ev_at = 5\<rparr>,
             \<lparr>ev_inst = 3, ev_from = Some IBuilding, ev_to = IReady,
                ev_reason = ''worker'', ev_actor = ByWorker, ev_gen = 1,
                ev_at = 5\<rparr>,
             \<lparr>ev_inst = 3, ev_from = Some IReady, ev_to = IStarting,
                ev_reason = ''worker'', ev_actor = ByWorker, ev_gen = 1,
                ev_at = 5\<rparr>,
             \<lparr>ev_inst = 3, ev_from = Some IStarting, ev_to = IHealthy,
                ev_reason = ''worker'', ev_actor = ByWorker, ev_gen = 1,
                ev_at = 5\<rparr>,
             \<lparr>ev_inst = 3, ev_from = Some IHealthy, ev_to = IActive,
                ev_reason = ''worker'', ev_actor = ByWorker, ev_gen = 1,
                ev_at = 5\<rparr>]\<rparr>,
     p_images = \<lparr>im_builds = [], im_stacks = []\<rparr>, p_draws = 4\<rparr>"
  by code_simp

lemma deleted_value [code]:
  "deleted_platform =
    \<lparr>p_jobs =
     \<lparr>jd_jobs =
        [\<lparr>r_id = 2, r_type = LaunchInstance, r_status = Queued,
            r_priority = 100,
            r_payload =
              [(''instance_id'',
                JStr ''00000000-0000-0000-0000-000000000003''),
               (''generation'', JInt 1), (''action'', JStr ''launch'')],
            r_key =
              ''instance:00000000-0000-0000-0000-000000000003:gen1:launch'',
            r_caps = [''launch_instance''], r_attempts = 0, r_max = 3,
            r_backoff = 30, r_available = 1, r_claimed_by = None,
            r_token = None, r_lease = None, r_heartbeat = None,
            r_cancel = None, r_started = None, r_finished = None,
            r_err = None, r_err_detail = None, r_result_json = None,
            r_result_ref = None, r_log_ref = None, r_comp = Some ''ctf'',
            r_version = Some (''web'', 1), r_created = 2\<rparr>],
        jd_hist =
          [\<lparr>jt_job = 2, jt_from = None, jt_to = Queued, jt_attempt = 0,
              jt_occurred_at = 1, jt_worker = None, jt_error_class = None,
              jt_error_detail = None\<rparr>]\<rparr>,
     p_quota =
       \<lparr>qd_quotas =
          [\<lparr>q_scope = ScPlatform, q_key = ''p'', q_dim = CpuMillis,
              q_limit = 800, q_reserved = 500\<rparr>,
           \<lparr>q_scope = ScWorker, q_key = ''w1'', q_dim = ActiveInstances,
              q_limit = 2, q_reserved = 1\<rparr>],
          qd_headers =
            [\<lparr>h_id = 3, h_worker = ''w1'', h_comp = None, h_team = None,
                h_chal = None, h_state = Held, h_expires = 100,
                h_released = None, h_created = 1\<rparr>],
          qd_items =
            [\<lparr>ir_hold = 3,
                ir_item =
                  \<lparr>ri_scope = ScPlatform, ri_key = ''p'',
                     ri_dim = CpuMillis, ri_amount = 500\<rparr>\<rparr>,
             \<lparr>ir_hold = 3,
                ir_item =
                  \<lparr>ri_scope = ScWorker, ri_key = ''w1'',
                     ri_dim = ActiveInstances, ri_amount = 1\<rparr>\<rparr>]\<rparr>,
     p_inst =
       \<lparr>nd_rows =
          [\<lparr>i_id = 3, i_comp = ''ctf'', i_team = ''red'',
              i_version = (''web'', 1), i_state = IActive,
              i_desired = DesDeleted, i_worker = Some ''w1'', i_gen = 1,
              i_image = Some ''web:1'', i_expires = Some 100,
              i_seed = None, i_created = 0, i_updated = 20\<rparr>],
          nd_endpoints = [],
          nd_resources =
            [\<lparr>rs_inst = 3, rs_kind = ResContainer, rs_ref = ''c1'',
                rs_worker = ''w1'', rs_gen = 1, rs_state = ResReleased,
                rs_created = 4, rs_updated = 4\<rparr>],
          nd_credentials = [],
          nd_observations =
            [\<lparr>or_id = 3, or_inst = 3, or_state = ObsState IActive,
                or_healthy = True, or_worker = ''w1'', or_gen = 1,
                or_at = 10, or_detail = [], or_created = 3\<rparr>,
             \<lparr>or_id = 5, or_inst = 3, or_state = ObsState IActive,
                or_healthy = True, or_worker = ''w1'', or_gen = 7,
                or_at = 30, or_detail = [], or_created = 5\<rparr>],
          nd_events =
            [\<lparr>ev_inst = 3, ev_from = None, ev_to = IRequested,
                ev_reason = ''created'', ev_actor = BySystem, ev_gen = 1,
                ev_at = 1\<rparr>,
             \<lparr>ev_inst = 3, ev_from = Some IRequested, ev_to = IQueued,
                ev_reason = ''placed and enqueued for launch'',
                ev_actor = BySystem, ev_gen = 1, ev_at = 1\<rparr>,
             \<lparr>ev_inst = 3, ev_from = Some IQueued, ev_to = IBuilding,
                ev_reason = ''worker'', ev_actor = ByWorker, ev_gen = 1,
                ev_at = 5\<rparr>,
             \<lparr>ev_inst = 3, ev_from = Some IBuilding, ev_to = IReady,
                ev_reason = ''worker'', ev_actor = ByWorker, ev_gen = 1,
                ev_at = 5\<rparr>,
             \<lparr>ev_inst = 3, ev_from = Some IReady, ev_to = IStarting,
                ev_reason = ''worker'', ev_actor = ByWorker, ev_gen = 1,
                ev_at = 5\<rparr>,
             \<lparr>ev_inst = 3, ev_from = Some IStarting, ev_to = IHealthy,
                ev_reason = ''worker'', ev_actor = ByWorker, ev_gen = 1,
                ev_at = 5\<rparr>,
             \<lparr>ev_inst = 3, ev_from = Some IHealthy, ev_to = IActive,
                ev_reason = ''worker'', ev_actor = ByWorker, ev_gen = 1,
                ev_at = 5\<rparr>]\<rparr>,
     p_images = \<lparr>im_builds = [], im_stacks = []\<rparr>, p_draws = 6\<rparr>"
  by code_simp

lemma archived_value [code]:
  "archived_platform =
    \<lparr>p_jobs =
     \<lparr>jd_jobs =
        [\<lparr>r_id = 2, r_type = LaunchInstance, r_status = Queued,
            r_priority = 100,
            r_payload =
              [(''instance_id'',
                JStr ''00000000-0000-0000-0000-000000000003''),
               (''generation'', JInt 1), (''action'', JStr ''launch'')],
            r_key =
              ''instance:00000000-0000-0000-0000-000000000003:gen1:launch'',
            r_caps = [''launch_instance''], r_attempts = 0, r_max = 3,
            r_backoff = 30, r_available = 1, r_claimed_by = None,
            r_token = None, r_lease = None, r_heartbeat = None,
            r_cancel = None, r_started = None, r_finished = None,
            r_err = None, r_err_detail = None, r_result_json = None,
            r_result_ref = None, r_log_ref = None, r_comp = Some ''ctf'',
            r_version = Some (''web'', 1), r_created = 2\<rparr>],
        jd_hist =
          [\<lparr>jt_job = 2, jt_from = None, jt_to = Queued, jt_attempt = 0,
              jt_occurred_at = 1, jt_worker = None, jt_error_class = None,
              jt_error_detail = None\<rparr>]\<rparr>,
     p_quota =
       \<lparr>qd_quotas =
          [\<lparr>q_scope = ScPlatform, q_key = ''p'', q_dim = CpuMillis,
              q_limit = 800, q_reserved = 0\<rparr>,
           \<lparr>q_scope = ScWorker, q_key = ''w1'', q_dim = ActiveInstances,
              q_limit = 2, q_reserved = 0\<rparr>],
          qd_headers =
            [\<lparr>h_id = 3, h_worker = ''w1'', h_comp = None, h_team = None,
                h_chal = None, h_state = Released, h_expires = 100,
                h_released = Some 40, h_created = 1\<rparr>],
          qd_items =
            [\<lparr>ir_hold = 3,
                ir_item =
                  \<lparr>ri_scope = ScPlatform, ri_key = ''p'',
                     ri_dim = CpuMillis, ri_amount = 500\<rparr>\<rparr>,
             \<lparr>ir_hold = 3,
                ir_item =
                  \<lparr>ri_scope = ScWorker, ri_key = ''w1'',
                     ri_dim = ActiveInstances, ri_amount = 1\<rparr>\<rparr>]\<rparr>,
     p_inst =
       \<lparr>nd_rows =
          [\<lparr>i_id = 3, i_comp = ''ctf'', i_team = ''red'',
              i_version = (''web'', 1), i_state = IArchived,
              i_desired = DesDeleted, i_worker = Some ''w1'', i_gen = 1,
              i_image = Some ''web:1'', i_expires = Some 100,
              i_seed = None, i_created = 0, i_updated = 40\<rparr>],
          nd_endpoints = [],
          nd_resources =
            [\<lparr>rs_inst = 3, rs_kind = ResContainer, rs_ref = ''c1'',
                rs_worker = ''w1'', rs_gen = 1, rs_state = ResReleased,
                rs_created = 4, rs_updated = 4\<rparr>],
          nd_credentials = [],
          nd_observations =
            [\<lparr>or_id = 3, or_inst = 3, or_state = ObsState IActive,
                or_healthy = True, or_worker = ''w1'', or_gen = 1,
                or_at = 10, or_detail = [], or_created = 3\<rparr>,
             \<lparr>or_id = 5, or_inst = 3, or_state = ObsState IActive,
                or_healthy = True, or_worker = ''w1'', or_gen = 7,
                or_at = 30, or_detail = [], or_created = 5\<rparr>],
          nd_events =
            [\<lparr>ev_inst = 3, ev_from = None, ev_to = IRequested,
                ev_reason = ''created'', ev_actor = BySystem, ev_gen = 1,
                ev_at = 1\<rparr>,
             \<lparr>ev_inst = 3, ev_from = Some IRequested, ev_to = IQueued,
                ev_reason = ''placed and enqueued for launch'',
                ev_actor = BySystem, ev_gen = 1, ev_at = 1\<rparr>,
             \<lparr>ev_inst = 3, ev_from = Some IQueued, ev_to = IBuilding,
                ev_reason = ''worker'', ev_actor = ByWorker, ev_gen = 1,
                ev_at = 5\<rparr>,
             \<lparr>ev_inst = 3, ev_from = Some IBuilding, ev_to = IReady,
                ev_reason = ''worker'', ev_actor = ByWorker, ev_gen = 1,
                ev_at = 5\<rparr>,
             \<lparr>ev_inst = 3, ev_from = Some IReady, ev_to = IStarting,
                ev_reason = ''worker'', ev_actor = ByWorker, ev_gen = 1,
                ev_at = 5\<rparr>,
             \<lparr>ev_inst = 3, ev_from = Some IStarting, ev_to = IHealthy,
                ev_reason = ''worker'', ev_actor = ByWorker, ev_gen = 1,
                ev_at = 5\<rparr>,
             \<lparr>ev_inst = 3, ev_from = Some IHealthy, ev_to = IActive,
                ev_reason = ''worker'', ev_actor = ByWorker, ev_gen = 1,
                ev_at = 5\<rparr>,
             \<lparr>ev_inst = 3, ev_from = Some IActive, ev_to = IStopping,
                ev_reason = ''desired deleted; draining'',
                ev_actor = BySystem, ev_gen = 1, ev_at = 40\<rparr>,
             \<lparr>ev_inst = 3, ev_from = Some IStopping, ev_to = IStopped,
                ev_reason = ''observed absent; stopped'',
                ev_actor = BySystem, ev_gen = 1, ev_at = 40\<rparr>,
             \<lparr>ev_inst = 3, ev_from = Some IStopped, ev_to = IArchived,
                ev_reason = ''deleted; fully cleaned up'',
                ev_actor = BySystem, ev_gen = 1, ev_at = 40\<rparr>]\<rparr>,
     p_images = \<lparr>im_builds = [], im_stacks = []\<rparr>, p_draws = 6\<rparr>"
  by code_simp

lemma stale_value [code]:
  "stale_platform =
    \<lparr>p_jobs =
     \<lparr>jd_jobs =
        [\<lparr>r_id = 2, r_type = LaunchInstance, r_status = Queued,
            r_priority = 100,
            r_payload =
              [(''instance_id'',
                JStr ''00000000-0000-0000-0000-000000000003''),
               (''generation'', JInt 1), (''action'', JStr ''launch'')],
            r_key =
              ''instance:00000000-0000-0000-0000-000000000003:gen1:launch'',
            r_caps = [''launch_instance''], r_attempts = 0, r_max = 3,
            r_backoff = 30, r_available = 1, r_claimed_by = None,
            r_token = None, r_lease = None, r_heartbeat = None,
            r_cancel = None, r_started = None, r_finished = None,
            r_err = None, r_err_detail = None, r_result_json = None,
            r_result_ref = None, r_log_ref = None, r_comp = Some ''ctf'',
            r_version = Some (''web'', 1), r_created = 2\<rparr>,
         \<lparr>r_id = 5, r_type = LaunchInstance, r_status = Queued,
            r_priority = 100,
            r_payload =
              [(''instance_id'',
                JStr ''00000000-0000-0000-0000-000000000003''),
               (''generation'', JInt 2), (''action'', JStr ''launch'')],
            r_key =
              ''instance:00000000-0000-0000-0000-000000000003:gen2:launch'',
            r_caps = [''launch_instance''], r_attempts = 0, r_max = 3,
            r_backoff = 30, r_available = 40, r_claimed_by = None,
            r_token = None, r_lease = None, r_heartbeat = None,
            r_cancel = None, r_started = None, r_finished = None,
            r_err = None, r_err_detail = None, r_result_json = None,
            r_result_ref = None, r_log_ref = None, r_comp = Some ''ctf'',
            r_version = Some (''web'', 1), r_created = 5\<rparr>],
        jd_hist =
          [\<lparr>jt_job = 2, jt_from = None, jt_to = Queued, jt_attempt = 0,
              jt_occurred_at = 1, jt_worker = None, jt_error_class = None,
              jt_error_detail = None\<rparr>,
           \<lparr>jt_job = 5, jt_from = None, jt_to = Queued, jt_attempt = 0,
              jt_occurred_at = 40, jt_worker = None,
              jt_error_class = None, jt_error_detail = None\<rparr>]\<rparr>,
     p_quota =
       \<lparr>qd_quotas =
          [\<lparr>q_scope = ScPlatform, q_key = ''p'', q_dim = CpuMillis,
              q_limit = 800, q_reserved = 500\<rparr>,
           \<lparr>q_scope = ScWorker, q_key = ''w1'', q_dim = ActiveInstances,
              q_limit = 2, q_reserved = 1\<rparr>],
          qd_headers =
            [\<lparr>h_id = 3, h_worker = ''w1'', h_comp = None, h_team = None,
                h_chal = None, h_state = Held, h_expires = 200,
                h_released = None, h_created = 1\<rparr>],
          qd_items =
            [\<lparr>ir_hold = 3,
                ir_item =
                  \<lparr>ri_scope = ScPlatform, ri_key = ''p'',
                     ri_dim = CpuMillis, ri_amount = 500\<rparr>\<rparr>,
             \<lparr>ir_hold = 3,
                ir_item =
                  \<lparr>ri_scope = ScWorker, ri_key = ''w1'',
                     ri_dim = ActiveInstances, ri_amount = 1\<rparr>\<rparr>]\<rparr>,
     p_inst =
       \<lparr>nd_rows =
          [\<lparr>i_id = 3, i_comp = ''ctf'', i_team = ''red'',
              i_version = (''web'', 1), i_state = IActive,
              i_desired = DesActive, i_worker = Some ''w1'', i_gen = 2,
              i_image = Some ''web:1'', i_expires = Some 100,
              i_seed = None, i_created = 0, i_updated = 40\<rparr>],
          nd_endpoints = [], nd_resources = [], nd_credentials = [],
          nd_observations =
            [\<lparr>or_id = 3, or_inst = 3, or_state = ObsState IActive,
                or_healthy = True, or_worker = ''w1'', or_gen = 1,
                or_at = 10, or_detail = [], or_created = 3\<rparr>,
             \<lparr>or_id = 6, or_inst = 3, or_state = ObsState IActive,
                or_healthy = True, or_worker = ''w1'', or_gen = 2,
                or_at = 50, or_detail = [], or_created = 6\<rparr>,
             \<lparr>or_id = 7, or_inst = 3, or_state = ObsState IActive,
                or_healthy = True, or_worker = ''w1'', or_gen = 1,
                or_at = 60, or_detail = [], or_created = 7\<rparr>],
          nd_events =
            [\<lparr>ev_inst = 3, ev_from = None, ev_to = IRequested,
                ev_reason = ''created'', ev_actor = BySystem, ev_gen = 1,
                ev_at = 1\<rparr>,
             \<lparr>ev_inst = 3, ev_from = Some IRequested, ev_to = IQueued,
                ev_reason = ''placed and enqueued for launch'',
                ev_actor = BySystem, ev_gen = 1, ev_at = 1\<rparr>,
             \<lparr>ev_inst = 3, ev_from = Some IQueued, ev_to = IBuilding,
                ev_reason = ''worker'', ev_actor = ByWorker, ev_gen = 1,
                ev_at = 5\<rparr>,
             \<lparr>ev_inst = 3, ev_from = Some IBuilding, ev_to = IReady,
                ev_reason = ''worker'', ev_actor = ByWorker, ev_gen = 1,
                ev_at = 5\<rparr>,
             \<lparr>ev_inst = 3, ev_from = Some IReady, ev_to = IStarting,
                ev_reason = ''worker'', ev_actor = ByWorker, ev_gen = 1,
                ev_at = 5\<rparr>,
             \<lparr>ev_inst = 3, ev_from = Some IStarting, ev_to = IHealthy,
                ev_reason = ''worker'', ev_actor = ByWorker, ev_gen = 1,
                ev_at = 5\<rparr>,
             \<lparr>ev_inst = 3, ev_from = Some IHealthy, ev_to = IActive,
                ev_reason = ''worker'', ev_actor = ByWorker, ev_gen = 1,
                ev_at = 5\<rparr>]\<rparr>,
     p_images = \<lparr>im_builds = [], im_stacks = []\<rparr>, p_draws = 8\<rparr>"
  by code_simp

lemma stuck_value [code]:
  "stuck_platform =
    \<lparr>p_jobs =
     \<lparr>jd_jobs =
        [\<lparr>r_id = 2, r_type = LaunchInstance, r_status = Queued,
            r_priority = 100,
            r_payload =
              [(''instance_id'',
                JStr ''00000000-0000-0000-0000-000000000003''),
               (''generation'', JInt 1), (''action'', JStr ''launch'')],
            r_key =
              ''instance:00000000-0000-0000-0000-000000000003:gen1:launch'',
            r_caps = [''launch_instance''], r_attempts = 0, r_max = 3,
            r_backoff = 30, r_available = 1, r_claimed_by = None,
            r_token = None, r_lease = None, r_heartbeat = None,
            r_cancel = None, r_started = None, r_finished = None,
            r_err = None, r_err_detail = None, r_result_json = None,
            r_result_ref = None, r_log_ref = None, r_comp = Some ''ctf'',
            r_version = Some (''web'', 1), r_created = 2\<rparr>,
         \<lparr>r_id = 6, r_type = DeleteRuntimeResources, r_status = Failed,
            r_priority = 100,
            r_payload =
              [(''instance_id'',
                JStr ''00000000-0000-0000-0000-000000000003''),
               (''generation'', JInt 1), (''action'', JStr ''delete'')],
            r_key =
              ''instance:00000000-0000-0000-0000-000000000003:gen1:delete'',
            r_caps = [''delete_runtime_resources''], r_attempts = 1,
            r_max = 3, r_backoff = 30, r_available = 40,
            r_claimed_by = None, r_token = None, r_lease = None,
            r_heartbeat = None, r_cancel = None, r_started = Some 42,
            r_finished = Some 43, r_err = Some Internal,
            r_err_detail = Some ''gone'', r_result_json = None,
            r_result_ref = None, r_log_ref = None, r_comp = Some ''ctf'',
            r_version = Some (''web'', 1), r_created = 6\<rparr>],
        jd_hist =
          [\<lparr>jt_job = 2, jt_from = None, jt_to = Queued, jt_attempt = 0,
              jt_occurred_at = 1, jt_worker = None, jt_error_class = None,
              jt_error_detail = None\<rparr>,
           \<lparr>jt_job = 6, jt_from = None, jt_to = Queued, jt_attempt = 0,
              jt_occurred_at = 40, jt_worker = None,
              jt_error_class = None, jt_error_detail = None\<rparr>,
           \<lparr>jt_job = 6, jt_from = Some Queued, jt_to = Claimed,
              jt_attempt = 1, jt_occurred_at = 41,
              jt_worker = Some ''w1'', jt_error_class = None,
              jt_error_detail = None\<rparr>,
           \<lparr>jt_job = 6, jt_from = Some Claimed, jt_to = Running,
              jt_attempt = 1, jt_occurred_at = 42,
              jt_worker = Some ''w1'', jt_error_class = None,
              jt_error_detail = None\<rparr>,
           \<lparr>jt_job = 6, jt_from = Some Running, jt_to = Failed,
              jt_attempt = 1, jt_occurred_at = 43,
              jt_worker = Some ''w1'', jt_error_class = Some Internal,
              jt_error_detail = Some ''gone''\<rparr>]\<rparr>,
     p_quota =
       \<lparr>qd_quotas =
          [\<lparr>q_scope = ScPlatform, q_key = ''p'', q_dim = CpuMillis,
              q_limit = 800, q_reserved = 0\<rparr>,
           \<lparr>q_scope = ScWorker, q_key = ''w1'', q_dim = ActiveInstances,
              q_limit = 2, q_reserved = 0\<rparr>],
          qd_headers =
            [\<lparr>h_id = 3, h_worker = ''w1'', h_comp = None, h_team = None,
                h_chal = None, h_state = Released, h_expires = 100,
                h_released = Some 40, h_created = 1\<rparr>],
          qd_items =
            [\<lparr>ir_hold = 3,
                ir_item =
                  \<lparr>ri_scope = ScPlatform, ri_key = ''p'',
                     ri_dim = CpuMillis, ri_amount = 500\<rparr>\<rparr>,
             \<lparr>ir_hold = 3,
                ir_item =
                  \<lparr>ri_scope = ScWorker, ri_key = ''w1'',
                     ri_dim = ActiveInstances, ri_amount = 1\<rparr>\<rparr>]\<rparr>,
     p_inst =
       \<lparr>nd_rows =
          [\<lparr>i_id = 3, i_comp = ''ctf'', i_team = ''red'',
              i_version = (''web'', 1), i_state = IStopped,
              i_desired = DesDeleted, i_worker = Some ''w1'', i_gen = 1,
              i_image = Some ''web:1'', i_expires = Some 100,
              i_seed = None, i_created = 0, i_updated = 40\<rparr>],
          nd_endpoints = [],
          nd_resources =
            [\<lparr>rs_inst = 3, rs_kind = ResContainer, rs_ref = ''c1'',
                rs_worker = ''w1'', rs_gen = 1, rs_state = ResReleasing,
                rs_created = 4, rs_updated = 40\<rparr>],
          nd_credentials = [],
          nd_observations =
            [\<lparr>or_id = 3, or_inst = 3, or_state = ObsState IActive,
                or_healthy = True, or_worker = ''w1'', or_gen = 1,
                or_at = 10, or_detail = [], or_created = 3\<rparr>,
             \<lparr>or_id = 5, or_inst = 3, or_state = ObsState IActive,
                or_healthy = True, or_worker = ''w1'', or_gen = 7,
                or_at = 30, or_detail = [], or_created = 5\<rparr>],
          nd_events =
            [\<lparr>ev_inst = 3, ev_from = None, ev_to = IRequested,
                ev_reason = ''created'', ev_actor = BySystem, ev_gen = 1,
                ev_at = 1\<rparr>,
             \<lparr>ev_inst = 3, ev_from = Some IRequested, ev_to = IQueued,
                ev_reason = ''placed and enqueued for launch'',
                ev_actor = BySystem, ev_gen = 1, ev_at = 1\<rparr>,
             \<lparr>ev_inst = 3, ev_from = Some IQueued, ev_to = IBuilding,
                ev_reason = ''worker'', ev_actor = ByWorker, ev_gen = 1,
                ev_at = 5\<rparr>,
             \<lparr>ev_inst = 3, ev_from = Some IBuilding, ev_to = IReady,
                ev_reason = ''worker'', ev_actor = ByWorker, ev_gen = 1,
                ev_at = 5\<rparr>,
             \<lparr>ev_inst = 3, ev_from = Some IReady, ev_to = IStarting,
                ev_reason = ''worker'', ev_actor = ByWorker, ev_gen = 1,
                ev_at = 5\<rparr>,
             \<lparr>ev_inst = 3, ev_from = Some IStarting, ev_to = IHealthy,
                ev_reason = ''worker'', ev_actor = ByWorker, ev_gen = 1,
                ev_at = 5\<rparr>,
             \<lparr>ev_inst = 3, ev_from = Some IHealthy, ev_to = IActive,
                ev_reason = ''worker'', ev_actor = ByWorker, ev_gen = 1,
                ev_at = 5\<rparr>,
             \<lparr>ev_inst = 3, ev_from = Some IActive, ev_to = IStopping,
                ev_reason = ''desired deleted; draining'',
                ev_actor = BySystem, ev_gen = 1, ev_at = 40\<rparr>,
             \<lparr>ev_inst = 3, ev_from = Some IStopping, ev_to = IStopped,
                ev_reason = ''observed absent; stopped'',
                ev_actor = BySystem, ev_gen = 1, ev_at = 40\<rparr>]\<rparr>,
     p_images = \<lparr>im_builds = [], im_stacks = []\<rparr>, p_draws = 7\<rparr>"
  by code_simp

lemma sample_valid_calls:
  "list_all valid_platform [PLimit sample_policy, PRequest sample_request]"
  "list_all valid_platform (bring_up @ [PObserve (sample_report 1 10)])"
  "list_all valid_platform [PResource sample_resource, PDelete (Uid 3) 20, PObserve (sample_report 7 30)]"
  "list_all valid_platform [PReconcile 40 300 500]"
  "list_all valid_platform [PReset (Uid 3) 200 40 None [], PObserve (sample_report 2 50), PObserve (sample_report 1 60)]"
  "list_all valid_platform [PResource (sample_resource\<lparr>rr_state := ResActive\<rparr>), PDelete (Uid 3) 20,
      PObserve (sample_report 7 30), PReconcile 40 300 500,
      PWorker (CallClaim [] 9 ''w1'' [''delete_runtime_resources''] 60 41), PWorker (CallStart (Uid 6) (Uid 9) 42),
      PWorker (CallFail (Uid 6) (Uid 9) ''internal'' (Some ''gone'') False 43)]"
  by code_simp+

lemma sample_platform_reachable:
  "platform_reachable sample_world sample_sources launched_platform"
  "platform_reachable sample_world sample_sources active_platform"
  "platform_reachable sample_world sample_sources deleted_platform"
  "platform_reachable sample_world sample_sources archived_platform"
  "platform_reachable sample_world sample_sources stale_platform"
  "platform_reachable sample_world sample_sources stuck_platform"
proof -
  show l: "platform_reachable sample_world sample_sources launched_platform"
    unfolding launched_platform_def by (rule calls_reachable [OF platform_reachable.init sample_valid_calls(1)])
  show a: "platform_reachable sample_world sample_sources active_platform"
    unfolding active_platform_def by (rule calls_reachable [OF l sample_valid_calls(2)])
  show d: "platform_reachable sample_world sample_sources deleted_platform"
    unfolding deleted_platform_def by (rule calls_reachable [OF a sample_valid_calls(3)])
  show "platform_reachable sample_world sample_sources archived_platform"
    unfolding archived_platform_def by (rule calls_reachable [OF d sample_valid_calls(4)])
  show "platform_reachable sample_world sample_sources stale_platform"
    unfolding stale_platform_def by (rule calls_reachable [OF a sample_valid_calls(5)])
  show "platform_reachable sample_world sample_sources stuck_platform"
    unfolding stuck_platform_def by (rule calls_reachable [OF a sample_valid_calls(6)])
qed

end
