(* ===== verification/Platform_Theorems.thy ===== *)
theory Platform_Theorems
  imports Platform_Passes Platform_Sample
begin

text \<open>
  Properties of the composed platform: the invariant of every reachable state, what a call may never
  undo, capacity and corrective jobs tied to instances, launches, transitions and fences, and the
  reconciler's passes. All hold for the database-backed sources, whatever their fleet and freshness
  window.
\<close>

lemmas reachable_ok = repository_source.reachable_platform_ok

section \<open>Invariants\<close>



text \<open>
  C12. Nothing an instance is made of is ever undone: after any further calls its row is still there
  with the same identity, competition, team, challenge version and creation time, its generation has
  not gone back, and a row that was archived is unchanged.
\<close>

theorem instances_are_kept:
  assumes "inj (wd_uuid wd)" and "platform_reachable wd (repository_sources fl age) p"
    and "list_all valid_platform cs" and "r \<in> set (nd_rows (p_inst p))"
  shows "\<exists>r' \<in> set (nd_rows (p_inst (run_platform_calls wd (repository_sources fl age) cs p))).
    i_id r' = i_id r \<and> i_comp r' = i_comp r \<and> i_team r' = i_team r \<and> i_version r' = i_version r
    \<and> i_created r' = i_created r \<and> i_gen r \<le> i_gen r' \<and> (i_state r = IArchived \<longrightarrow> r' = r)"
proof -
  have "inst_grows (p_inst p) (p_inst (run_platform_calls wd (repository_sources fl age) cs p))"
    using repository_source.calls_ok [OF reachable_ok [OF assms(1,2)] assms(3)] by (simp add: platform_grows_def)
  from inst_grows_row [OF this assms(4)] show ?thesis unfolding row_grows_def by blast
qed

lemma launched_rows:
  "map (\<lambda>r. (i_id r, i_state r, i_desired r, i_worker r, i_gen r)) (nd_rows (p_inst launched_platform))
    = [(3, IQueued, DesActive, Some ''w1'', 1)]"
  "map (\<lambda>r. (i_id r, i_state r, i_desired r, i_worker r, i_gen r)) (nd_rows (p_inst active_platform))
    = [(3, IActive, DesActive, Some ''w1'', 1)]"
  "map (\<lambda>r. (i_id r, i_state r, i_desired r, i_worker r, i_gen r)) (nd_rows (p_inst deleted_platform))
    = [(3, IActive, DesDeleted, Some ''w1'', 1)]"
  by (simp_all add: launched_value active_value deleted_value)

theorem instances_are_kept_witness:
  "\<exists>r' \<in> set (nd_rows (p_inst deleted_platform)). i_id r' = 3 \<and> 1 \<le> i_gen r'"
proof -
  obtain r where r: "r \<in> set (nd_rows (p_inst active_platform))" "i_id r = 3" "i_gen r = 1"
    using launched_rows(2) by (cases "nd_rows (p_inst active_platform)") auto
  from instances_are_kept [OF sample_world_inj sample_platform_reachable(2) sample_valid_calls(3) r(1)] r
  show ?thesis by (auto simp: deleted_platform_def)
qed

text \<open>
  C13. Each instance's event log is its life: on a reachable platform the events of an instance, in
  order, are a path of legal transitions from its creation in \<open>requested\<close> to the state it is in.
\<close>

theorem instance_log_is_its_path:
  assumes "inj (wd_uuid wd)" and "platform_reachable wd (repository_sources fl age) p"
    and "r \<in> set (nd_rows (p_inst p))"
  shows "audited instance_move IRequested (event_path (p_inst p) (i_id r)) (i_state r)"
  by (rule instdb_okD(5) [OF platform_okD(3) [OF reachable_ok [OF assms(1,2)]] assms(3)])

theorem instance_log_is_its_path_witness:
  "audited instance_move IRequested (event_path (p_inst launched_platform) 3) IQueued"
proof -
  obtain r where r: "r \<in> set (nd_rows (p_inst launched_platform))" "i_id r = 3" "i_state r = IQueued"
    using launched_rows(1) by (cases "nd_rows (p_inst launched_platform)") auto
  from instance_log_is_its_path [OF sample_world_inj sample_platform_reachable(1) r(1)] r show ?thesis by simp
qed

section \<open>The state machine\<close>

text \<open>
  The database trigger and the domain agree: the plpgsql guard accepts an update of an instance
  row that keeps its identity columns exactly when the old state is not archived and the domain's
  \<open>is_legal_instance_transition\<close> allows the move, staying put included.
\<close>

theorem instance_guard_is_domain_matrix:
  "instance_transition_guard old new \<longleftrightarrow>
     same_identity old new \<and> is_legal_instance_transition (i_state old) (i_state new)"
  using inst_guard_iff [of old new]
  by (cases "i_state new = i_state old")
    (auto simp: is_legal_instance_transition_def terminal_instance_state_def instance_move_def)

text \<open>
  A legal move into \<open>stopped\<close>, \<open>expired\<close> or \<open>archived\<close> frees the instance's capacity: the call
  returns the instance in the new state, its hold is gone, and every other hold is as it was.
\<close>

theorem transition_releases_capacity:
  assumes "inj (wd_uuid wd)" and "platform_reachable wd (repository_sources fl age) p"
    and "r \<in> set (nd_rows (p_inst p))" and "instance_move (i_state r) t" and "release_state t"
    and "nonempty reason" and "apply_transition (Uid (i_id r)) t reason actor now p = (out, p')"
  shows "out = Inr (row_inst (moved r t now)) \<and> moved r t now \<in> set (nd_rows (p_inst p'))
    \<and> (\<forall>k. is_held (p_quota p') k \<longleftrightarrow> is_held (p_quota p) k \<and> k \<noteq> i_id r)"
proof -
  note ok = reachable_ok [OF assms(1,2)]
  have ne: "i_state r \<noteq> t" using assms(4) no_self_move by metis
  have f: "find_inst (Uid (i_id r)) (p_inst p) = Some r" by (rule find_row_inst [OF platform_okD(3) [OF ok] assms(3)])
  have "out = Inr (row_inst (moved r t now))" "p' = entered r t reason actor now p"
    using assms(4,6,7) ne f by (simp_all add: apply_transition_eq [OF ok])
  then show ?thesis
    using moved_in_entered [OF ok assms(3)] freed_facts(2) [OF platform_okD(2) [OF ok]] assms(5) by simp
qed

theorem transition_releases_capacity_witness:
  "\<exists>out p'. apply_transition (Uid 3) IExpired ''ttl'' BySystem 50 active_platform = (out, p')
     \<and> \<not> is_held (p_quota p') 3"
proof -
  obtain r where r: "r \<in> set (nd_rows (p_inst active_platform))" "i_id r = 3" "i_state r = IActive"
    using launched_rows(2) by (cases "nd_rows (p_inst active_platform)") auto
  obtain out p' where run: "apply_transition (Uid (i_id r)) IExpired ''ttl'' BySystem 50 active_platform = (out, p')"
    by (cases "apply_transition (Uid (i_id r)) IExpired ''ttl'' BySystem 50 active_platform")
  have "instance_move (i_state r) IExpired" "nonempty ''ttl''"
    using r(3) by (simp add: instance_move_def) code_simp
  from transition_releases_capacity [OF sample_world_inj sample_platform_reachable(2) r(1) this(1) _ this(2) run] r run
  show ?thesis by auto
qed

text \<open>
  A fence wins at most once: when \<open>fence_missing_container\<close> accepts the expected generation it
  returns the instance at the next one, and a second caller that expected the same generation gets
  nothing and changes nothing, whenever it comes.
\<close>

theorem fence_wins_once:
  assumes "instdb_ok db" and "fence_missing_container i g now db = Inr (Some x, db')"
  shows "in_gen x = g + 1 \<and> fence_missing_container i g later db' = Inr (None, db')"
proof -
  have ok': "instdb_ok db'" using tx_growsD [OF fences_grow(1) assms] by blast
  obtain r where r: "find_inst i db = Some r" "i_gen r = g"
      and up: "field_update r (r\<lparr>i_gen := i_gen r + 1, i_updated := now\<rparr>) db = Inr (x, db')"
    using assms(2) by (auto simp: fence_missing_eq [OF assms(1)] split: option.splits if_splits sum.splits)
  note row = find_inst_Uid [OF assms(1) r(1)]
  let ?new = "r\<lparr>i_gen := i_gen r + 1, i_updated := now\<rparr>"
  have x: "x = row_inst ?new" and db': "db' = with_row ?new db"
    using up by (auto simp: field_update_def split: if_splits sum.splits)
  have "find_inst i db' = Some ?new"
    using find_inst_with_row [OF assms(1), of r ?new i] row by (simp add: db')
  then show ?thesis using r(2) by (simp add: x fence_missing_eq [OF ok'])
qed

theorem fence_wins_once_witness:
  "\<exists>x db'. fence_missing_container (Uid 3) 1 60 (p_inst active_platform) = Inr (Some x, db') \<and> in_gen x = 2
     \<and> fence_missing_container (Uid 3) 1 61 db' = Inr (None, db')"
proof -
  note ok = platform_okD(3) [OF reachable_ok [OF sample_world_inj sample_platform_reachable(2)]]
  have "case fence_missing_container (Uid 3) 1 60 (p_inst active_platform) of Inr (Some x, db') \<Rightarrow> True | _ \<Rightarrow> False"
    by code_simp
  then obtain x db' where run: "fence_missing_container (Uid 3) 1 60 (p_inst active_platform) = Inr (Some x, db')"
    by (auto split: sum.splits prod.splits option.splits)
  from fence_wins_once [OF ok run, of 61] run show ?thesis by auto
qed

section \<open>Launches and corrective jobs\<close>

text \<open>
  C14. A launch request ends one of two ways. Either it returns the instance in state \<open>queued\<close>, with a
  worker recorded, a capacity hold of its own and its generation's launch job stored; or it raises and
  no job has been enqueued, so an instance that was not placed is never launched.
\<close>

theorem launch_outcome:
  assumes "inj (wd_uuid wd)" and "platform_reachable wd (repository_sources fl age) p"
    and "valid_launch q" and "request_instance wd q p = (out, p')"
  shows "case out of Inl _ \<Rightarrow> p_jobs p' = p_jobs p
    | Inr x \<Rightarrow> (\<exists>r \<in> set (nd_rows (p_inst p')). x = row_inst r \<and> lr_id q = Uid (i_id r) \<and> i_state r = IQueued
        \<and> i_worker r \<noteq> None \<and> is_held (p_quota p') (i_id r)
        \<and> job_stored (p_jobs p') (corrective_idempotency_key (Uid (i_id r)) (i_gen r) ActLaunch) \<noteq> None)"
  using launch_outcome_lemma [OF reachable_ok [OF assms(1,2)] assms(3,4)] unfolding launched_def .

theorem launch_outcome_witness:
  "p_jobs (snd (request_instance sample_world (sample_request\<lparr>lr_id := Uid 4\<rparr>) active_platform)) = p_jobs active_platform"
proof -
  let ?q = "sample_request\<lparr>lr_id := Uid 4\<rparr>"
  obtain out p' where run: "request_instance sample_world ?q active_platform = (out, p')"
    by (cases "request_instance sample_world ?q active_platform")
  have "isl (fst (request_instance sample_world ?q active_platform))" by code_simp
  then obtain e where "out = Inl e" using run by (cases out) auto
  moreover have "valid_launch ?q" by code_simp
  ultimately show ?thesis
    using launch_outcome [OF sample_world_inj sample_platform_reachable(2) _ run] run by simp
qed

lemma stored_job_persists:
  assumes ok: "jobdb_ok db" "jobdb_ok db'" and ext: "jobs_ext db db'" and st: "job_stored db k = Some j"
  shows "\<exists>j'. job_stored db' k = Some j' \<and> j_id j' = j_id j"
proof -
  obtain r :: job_row where r: "r \<in> set (jd_jobs db)" "r_key r = k" "j = row_job r"
    using st find_row_SomeD [of r_key k "jd_jobs db"] by (auto simp: job_stored_def)
  have "set (map job_ident (jd_jobs db)) \<subseteq> set (map job_ident (jd_jobs db'))"
    using ext unfolding jobs_ext_def by (metis set_append Un_upper1)
  then have "job_ident r \<in> job_ident ` set (jd_jobs db')" using r(1) by auto
  then obtain r' where r': "r' \<in> set (jd_jobs db')" "job_ident r' = job_ident r" by auto
  have "find_row r_key k (jd_jobs db') = Some r'"
    using r'(1) job_identD [OF r'(2)] r(2) by (simp add: find_row_eq_Some_iff [OF jobdb_okD(2) [OF ok(2)]])
  then show ?thesis using job_identD [OF r'(2)] r(3) by (simp add: job_stored_def row_job_def)
qed

text \<open>
  C15. A corrective job is enqueued at most once: on a reachable platform an enqueue for an instance at
  its present generation is never refused, and asking again after any further calls, other passes
  included, returns the same job as not created and leaves the queue as it is.
\<close>

theorem corrective_enqueue_is_idempotent:
  assumes "inj (wd_uuid wd)" and "platform_reachable wd (repository_sources fl age) p"
    and "r \<in> set (nd_rows (p_inst p))" and "list_all valid_platform cs"
    and "enqueue_corrective wd (row_inst r) (i_gen r) a now p = (out, p')"
    and "enqueue_corrective wd (row_inst r) (i_gen r) a later
      (run_platform_calls wd (repository_sources fl age) cs p') = (again, p'')"
  shows "\<exists>j b j'. out = Inr (j, b) \<and> again = Inr (j', False) \<and> j_id j' = j_id j
    \<and> p_jobs p'' = p_jobs (run_platform_calls wd (repository_sources fl age) cs p')"
proof -
  let ?x = "row_inst r" and ?key = "corrective_idempotency_key (Uid (i_id r)) (i_gen r) a"
  let ?q = "run_platform_calls wd (repository_sources fl age) cs p'"
  note ok = reachable_ok [OF assms(1,2)]
  have kn: "known ?x (p_inst p)" by (rule known_row [OF platform_okD(3) [OF ok] assms(3)])
  have g: "1 \<le> i_gen r" by (rule row_gen_pos [OF platform_okD(3) [OF ok] assms(3)])
  have st: "steady wd ?x (enqueue_corrective wd ?x (in_gen ?x) a now)" by (rule steady_enqueue)
  have ok': "platform_ok wd p'" and kn': "known ?x (p_inst p')"
    using steadyD [OF st ok kn] known_frame [OF kn] assms(5) by auto
  have okq: "platform_ok wd ?q" and gr: "platform_grows p' ?q"
    using repository_source.calls_ok [OF ok' assms(4)] by auto
  have knq: "known ?x (p_inst ?q)" by (rule known_frame [OF kn' gr])
  have key: "r_key (corrective_job_row u ?x (i_gen r) a now c) = ?key" for u c
    by (simp add: corrective_job_row_def)
  have "\<exists>j b. out = Inr (j, b) \<and> job_stored (p_jobs p') ?key = Some j"
    using assms(5) by (auto simp: enqueue_corrective_eq [OF ok kn g] Let_def with_job_def job_stored_def
        find_row_append find_row_Cons key split: option.splits)
  then obtain j b where j: "out = Inr (j, b)" "job_stored (p_jobs p') ?key = Some j" by blast
  obtain j' where j': "job_stored (p_jobs ?q) ?key = Some j'" "j_id j' = j_id j"
    using stored_job_persists [OF platform_okD(1) [OF ok'] platform_okD(1) [OF okq] _ j(2)] gr
    by (auto simp: platform_grows_def)
  have "again = Inr (j', False)" "p'' = ?q\<lparr>p_draws := Suc (p_draws ?q)\<rparr>"
    using assms(6) j'(1) by (simp_all add: enqueue_corrective_eq [OF okq knq g])
  then show ?thesis using j j' by simp
qed

theorem corrective_enqueue_is_idempotent_witness:
  "\<exists>x j b p' j' p''. enqueue_corrective sample_world x 1 ActStop 70 active_platform = (Inr (j, b), p')
    \<and> enqueue_corrective sample_world x 1 ActStop 80
        (run_platform_calls sample_world sample_sources [PDelete (Uid 3) 75] p') = (Inr (j', False), p'')
    \<and> j_id j' = j_id j"
proof -
  obtain r where r: "r \<in> set (nd_rows (p_inst active_platform))" "i_gen r = 1"
    using launched_rows(2) by (cases "nd_rows (p_inst active_platform)") auto
  obtain out p' where e1: "enqueue_corrective sample_world (row_inst r) (i_gen r) ActStop 70 active_platform = (out, p')"
    by (cases "enqueue_corrective sample_world (row_inst r) (i_gen r) ActStop 70 active_platform")
  let ?q = "run_platform_calls sample_world sample_sources [PDelete (Uid 3) 75] p'"
  obtain again p'' where e2: "enqueue_corrective sample_world (row_inst r) (i_gen r) ActStop 80 ?q = (again, p'')"
    by (cases "enqueue_corrective sample_world (row_inst r) (i_gen r) ActStop 80 ?q")
  have "list_all valid_platform [PDelete (Uid 3) 75]" by simp
  from corrective_enqueue_is_idempotent [OF sample_world_inj sample_platform_reachable(2) r(1) this e1 e2] e1 e2 r(2)
  show ?thesis by metis
qed

text \<open>
  Corrective keys say what they stand for: two corrective idempotency keys of instances with
  database identifiers, at generations from one up, are equal only for the same instance, generation
  and action, so no two different corrections can collapse onto one job.
\<close>

theorem corrective_keys_are_unique:
  assumes "0 \<le> g" and "0 \<le> g'"
  shows "corrective_idempotency_key (Uid m) g a = corrective_idempotency_key (Uid n) g' a'
    \<longleftrightarrow> m = n \<and> g = g' \<and> a = a'"
  using corrective_key_inj [OF assms] by blast

theorem corrective_keys_are_unique_witness:
  "corrective_idempotency_key (Uid 1) 12 ActStop \<noteq> corrective_idempotency_key (Uid 11) 2 ActStop"
  using corrective_keys_are_unique [of 12 2 1 ActStop 11 ActStop] by simp

section \<open>Reconciler passes\<close>

text \<open>
  C16. A pass never aborts: on a reachable platform \<open>reconcile_once\<close> returns its list of actions, for
  every threshold and limit. One instance's refused step is reported and the rest of the batch and the
  leak sweep still run.
\<close>

theorem pass_never_aborts:
  assumes "inj (wd_uuid wd)" and "platform_reachable wd (repository_sources fl age) p"
  shows "\<exists>acts. fst (reconcile_once wd (repository_sources fl age) now stuck limit p) = Inr acts"
  using repository_source.once_returns [OF reachable_ok [OF assms]] by (simp add: returns_def)

theorem pass_never_aborts_witness:
  "\<exists>acts. fst (reconcile_once sample_world sample_sources 90 300 500 stuck_platform) = Inr acts"
  by (rule pass_never_aborts [OF sample_world_inj sample_platform_reachable(6)])

text \<open>
  C17. A deleted instance reaches its end in one pass: when nothing of the present generation is
  reported running and every runtime resource is confirmed released, the reconciler's step takes the
  instance from any state to \<open>archived\<close>, removes its endpoints, frees its capacity and enqueues nothing.
\<close>

theorem deleted_instance_is_archived:
  assumes "inj (wd_uuid wd)" and "platform_reachable wd (repository_sources fl age) p"
    and "r \<in> set (nd_rows (p_inst p))" and "i_desired r = DesDeleted" and "i_state r \<noteq> IArchived"
    and "\<forall>x \<in> set (nd_resources (p_inst p)). rs_inst x = i_id r \<longrightarrow> rs_state x = ResReleased"
    and "seen_absent (current_report (i_id r) (i_gen r) (p_inst p))"
    and "reconcile_instance wd (repository_sources fl age) (row_inst r) now stuck p = (out, p')"
  shows "(\<exists>r' \<in> set (nd_rows (p_inst p')). i_id r' = i_id r \<and> i_state r' = IArchived)
    \<and> \<not> is_held (p_quota p') (i_id r) \<and> endpoints_of (i_id r) (p_inst p') = [] \<and> p_jobs p' = p_jobs p"
proof -
  note ok = reachable_ok [OF assms(1,2)]
  have "resources_released (i_id r) (p_inst p)" using assms(6) by (simp add: resources_released_def)
  from deleted_outcome [OF ok assms(3,5) this, of now] obtain acts q r' where
    q: "reconcile_deleted wd (row_inst r) False now p = (Inr acts, q)" "r' \<in> set (nd_rows (p_inst q))"
    "i_id r' = i_id r" "i_state r' = IArchived" "\<not> is_held (p_quota q) (i_id r)"
    "endpoints_of (i_id r) (p_inst q) = []" "p_jobs q = p_jobs p" by blast
  have "p' = q" using assms(8) q(1) by (simp add: reconcile_deleted_path [OF ok assms(4,7)])
  then show ?thesis using q by blast
qed

theorem deleted_instance_is_archived_witness:
  "\<exists>r p'. r \<in> set (nd_rows (p_inst deleted_platform)) \<and> i_state r = IActive
    \<and> snd (reconcile_instance sample_world sample_sources (row_inst r) 40 300 deleted_platform) = p'
    \<and> \<not> is_held (p_quota p') 3 \<and> (\<exists>r' \<in> set (nd_rows (p_inst p')). i_id r' = 3 \<and> i_state r' = IArchived)"
proof -
  obtain r where r: "r \<in> set (nd_rows (p_inst deleted_platform))" "i_id r = 3" "i_state r = IActive"
    "i_desired r = DesDeleted" "i_gen r = 1"
    using launched_rows(3) by (cases "nd_rows (p_inst deleted_platform)") auto
  obtain out p' where run: "reconcile_instance sample_world sample_sources (row_inst r) 40 300 deleted_platform = (out, p')"
    by (cases "reconcile_instance sample_world sample_sources (row_inst r) 40 300 deleted_platform")
  have "\<forall>x \<in> set (nd_resources (p_inst deleted_platform)). rs_inst x = i_id r \<longrightarrow> rs_state x = ResReleased"
    by (simp add: deleted_value)
  moreover have "seen_absent (current_report 3 1 (p_inst deleted_platform))" by code_simp
  ultimately show ?thesis
    using deleted_instance_is_archived [OF sample_world_inj sample_platform_reachable(3) r(1) r(4) _ _ _ run] r run
    by (intro exI [of _ r] exI [of _ p']) auto
qed

text \<open>
  A converged instance is left alone: when the present generation is reported healthy, the worker
  stays, no resource of an older generation is active and the instance is not stuck on the start-up
  ladder, the reconciler's step returns no action and changes nothing.
\<close>

theorem converged_instance_is_left_alone:
  assumes "inj (wd_uuid wd)" and "platform_reachable wd (repository_sources fl age) p"
    and "r \<in> set (nd_rows (p_inst p))" and "i_desired r = DesActive"
    and "current_report (i_id r) (i_gen r) (p_inst p) = Some h" and "ho_healthy h" and "\<not> observed_absent h"
    and "keeps_worker fl age r True now"
    and "\<forall>x \<in> set (nd_resources (p_inst p)). rs_inst x = i_id r \<longrightarrow> rs_state x = ResActive \<longrightarrow> i_gen r \<le> rs_gen x"
    and "ladder (i_state r) = None \<or> \<not> age_reached (row_inst r) now stuck"
  shows "reconcile_instance wd (repository_sources fl age) (row_inst r) now stuck p = (Inr [], p)"
proof -
  note ok = reachable_ok [OF assms(1,2)]
  have no: "no_old_resources r (p_inst p)" using assms(9) by (simp add: no_old_resources_def)
  have healthy: "True \<longleftrightarrow> (case Some h of None \<Rightarrow> False | Some h \<Rightarrow> \<not> observed_absent h \<and> ho_healthy h)"
    using assms(6,7) by simp
  have "resume_active wd (row_inst r) (seen_absent (Some h)) True now stuck p = (Inr [], p)"
    using assms(7,10) by (auto simp: resume_active_def Let_def seen_absent_def svc_ret_def)
  then show ?thesis by (simp add: active_path [OF ok assms(4,5) healthy assms(8) no])
qed

theorem converged_instance_is_left_alone_witness:
  "\<exists>r \<in> set (nd_rows (p_inst active_platform)).
     reconcile_instance sample_world sample_sources (row_inst r) 40 300 active_platform = (Inr [], active_platform)"
proof -
  obtain r where r: "r \<in> set (nd_rows (p_inst active_platform))" "i_id r = 3" "i_state r = IActive"
    "i_desired r = DesActive" "i_gen r = 1" "i_worker r = Some ''w1''"
    using launched_rows(2) by (cases "nd_rows (p_inst active_platform)") auto
  have "case current_report 3 1 (p_inst active_platform) of None \<Rightarrow> False | Some h \<Rightarrow> ho_healthy h \<and> \<not> observed_absent h"
    by code_simp
  then obtain h where h: "current_report 3 1 (p_inst active_platform) = Some h" "ho_healthy h" "\<not> observed_absent h"
    by (auto split: option.splits)
  have "\<not> leave_worker sample_sources ''w1'' True 40" by code_simp
  then have k: "keeps_worker sample_fleet 60 r True 40" using r(6) by (simp add: keeps_worker_def)
  have e: "nd_resources (p_inst active_platform) = []" by (simp add: active_value)
  from converged_instance_is_left_alone [OF sample_world_inj sample_platform_reachable(2) r(1,4) _ h(2,3) k, of 300] h(1) r e
  show ?thesis by auto
qed

text \<open>
  C18. The generation gate looks at the newest report only: when the newest report of an active
  instance carries another generation, the step treats the instance as absent and degrades it, even if
  an earlier report of the present generation says it is healthy. A late report by a worker of a past
  generation is not ignored; it hides the current one.
\<close>

theorem late_report_degrades_instance:
  assumes "inj (wd_uuid wd)" and "platform_reachable wd (repository_sources fl age) p"
    and "r \<in> set (nd_rows (p_inst p))" and "i_desired r = DesActive"
    and "i_state r = IActive \<or> i_state r = IHealthy"
    and "latest_of (i_id r) (p_inst p) = Some h" and "ho_gen h \<noteq> i_gen r"
    and "keeps_worker fl age r False now"
    and "\<forall>x \<in> set (nd_resources (p_inst p)). rs_inst x = i_id r \<longrightarrow> rs_state x = ResActive \<longrightarrow> i_gen r \<le> rs_gen x"
    and "reconcile_instance wd (repository_sources fl age) (row_inst r) now stuck p = (out, p')"
  shows "\<exists>r' \<in> set (nd_rows (p_inst p')). i_id r' = i_id r \<and> i_state r' = IDegraded"
proof -
  note ok = reachable_ok [OF assms(1,2)]
  have no: "no_old_resources r (p_inst p)" using assms(9) by (simp add: no_old_resources_def)
  have rep: "current_report (i_id r) (i_gen r) (p_inst p) = None" using assms(6,7) by (simp add: current_report_def)
  have "resume_active wd (row_inst r) (seen_absent None) False now stuck p = recover_missing wd (row_inst r) now p"
    using assms(5) by (auto simp: resume_active_def Let_def seen_absent_def recovery_state_def)
  then have "p' = snd (recover_missing wd (row_inst r) now p)"
    using assms(10) by (simp add: active_path [OF ok assms(4) rep _ assms(8) no])
  then show ?thesis using recover_degrades [OF ok assms(3,5)] by simp
qed

theorem late_report_degrades_instance_witness:
  "(\<exists>ob \<in> set (nd_observations (p_inst stale_platform)). or_inst ob = 3 \<and> or_gen ob = 2 \<and> or_healthy ob)
   \<and> (\<exists>r \<in> set (nd_rows (p_inst stale_platform)). i_gen r = 2 \<and> i_state r = IActive
      \<and> (\<exists>r' \<in> set (nd_rows (p_inst (snd (reconcile_instance sample_world sample_sources (row_inst r) 70 300 stale_platform)))).
           i_id r' = 3 \<and> i_state r' = IDegraded))"
proof -
  have "map (\<lambda>r. (i_id r, i_state r, i_desired r, i_worker r, i_gen r)) (nd_rows (p_inst stale_platform))
      = [(3, IActive, DesActive, Some ''w1'', 2)]" by (simp add: stale_value)
  then obtain r where r: "r \<in> set (nd_rows (p_inst stale_platform))" "i_id r = 3" "i_state r = IActive"
    "i_desired r = DesActive" "i_gen r = 2" "i_worker r = Some ''w1''"
    by (cases "nd_rows (p_inst stale_platform)") auto
  have "case latest_of 3 (p_inst stale_platform) of None \<Rightarrow> False | Some h \<Rightarrow> ho_gen h = 1" by code_simp
  then obtain h where h: "latest_of 3 (p_inst stale_platform) = Some h" "ho_gen h = 1" by (auto split: option.splits)
  have "\<not> leave_worker sample_sources ''w1'' False 70" by code_simp
  then have k: "keeps_worker sample_fleet 60 r False 70" using r(6) by (simp add: keeps_worker_def)
  have e: "nd_resources (p_inst stale_platform) = []"
    "\<exists>ob \<in> set (nd_observations (p_inst stale_platform)). or_inst ob = 3 \<and> or_gen ob = 2 \<and> or_healthy ob"
    by (simp_all add: stale_value)
  obtain out p' where run: "reconcile_instance sample_world sample_sources (row_inst r) 70 300 stale_platform = (out, p')"
    by (cases "reconcile_instance sample_world sample_sources (row_inst r) 70 300 stale_platform")
  have "\<exists>r' \<in> set (nd_rows (p_inst p')). i_id r' = 3 \<and> i_state r' = IDegraded"
    using late_report_degrades_instance [OF sample_world_inj sample_platform_reachable(5) r(1,4) _ _ _ k _ run] h r e(1)
    by auto
  then have "\<exists>r \<in> set (nd_rows (p_inst stale_platform)). i_gen r = 2 \<and> i_state r = IActive
      \<and> (\<exists>r' \<in> set (nd_rows (p_inst (snd (reconcile_instance sample_world sample_sources (row_inst r) 70 300 stale_platform)))).
           i_id r' = 3 \<and> i_state r' = IDegraded)"
    using r run by (intro bexI [of _ r]) simp_all
  then show ?thesis using e(2) by blast
qed

text \<open>
  C19. A delete job that ended badly is never driven again: while the job under an instance's delete
  key for its present generation is stored, in whatever final state, cleaning up the instance's
  resources leaves the job queue as it is.
\<close>

theorem failed_delete_is_not_retried:
  assumes "inj (wd_uuid wd)" and "platform_reachable wd (repository_sources fl age) p"
    and "r \<in> set (nd_rows (p_inst p))"
    and "job_stored (p_jobs p) (corrective_idempotency_key (Uid (i_id r)) (i_gen r) ActDelete) = Some j"
    and "cleanup_exposed wd (row_inst r) now c p = (out, p')"
  shows "p_jobs p' = p_jobs p"
  using cleanup_jobs [OF reachable_ok [OF assms(1,2)] assms(3,4), of now c] assms(5) by simp

theorem failed_delete_is_not_retried_witness:
  "\<exists>r \<in> set (nd_rows (p_inst stuck_platform)).
     (\<exists>x \<in> set (nd_resources (p_inst stuck_platform)). rs_inst x = i_id r \<and> rs_state x = ResReleasing)
     \<and> map r_status (jd_jobs (p_jobs stuck_platform)) = [Queued, Failed]
     \<and> p_jobs (snd (cleanup_exposed sample_world (row_inst r) 90 ''9-exposed'' stuck_platform)) = p_jobs stuck_platform"
proof -
  have "map (\<lambda>r. (i_id r, i_gen r)) (nd_rows (p_inst stuck_platform)) = [(3, 1)]" by (simp add: stuck_value)
  then obtain r where r: "r \<in> set (nd_rows (p_inst stuck_platform))" "i_id r = 3" "i_gen r = 1"
    by (cases "nd_rows (p_inst stuck_platform)") auto
  have "job_stored (p_jobs stuck_platform) (corrective_idempotency_key (Uid 3) 1 ActDelete) \<noteq> None" by code_simp
  then obtain j where j: "job_stored (p_jobs stuck_platform) (corrective_idempotency_key (Uid (i_id r)) (i_gen r) ActDelete) = Some j"
    using r by auto
  have facts: "\<exists>x \<in> set (nd_resources (p_inst stuck_platform)). rs_inst x = i_id r \<and> rs_state x = ResReleasing"
    "map r_status (jd_jobs (p_jobs stuck_platform)) = [Queued, Failed]" using r by (simp_all add: stuck_value)
  obtain out p' where run: "cleanup_exposed sample_world (row_inst r) 90 ''9-exposed'' stuck_platform = (out, p')"
    by (cases "cleanup_exposed sample_world (row_inst r) 90 ''9-exposed'' stuck_platform")
  from failed_delete_is_not_retried [OF sample_world_inj sample_platform_reachable(6) r(1) j run] run facts r(1)
  show ?thesis by (intro bexI [of _ r]) simp_all
qed

text \<open>
  Stopping an archived instance fails in the database: the frozen-row trigger refuses the write
  of the desired state and the call raises, while deleting the same instance is accepted as a no-op.
\<close>

theorem stop_of_archived_instance_raises:
  assumes "inj (wd_uuid wd)" and "platform_reachable wd (repository_sources fl age) p"
    and "r \<in> set (nd_rows (p_inst p))" and "i_state r = IArchived" and "i_updated r \<noteq> now"
  shows "request_stop wd (Uid (i_id r)) now p = (Inl ProgrammingError, p)
    \<and> request_delete (Uid (i_id r)) now p = (Inr (row_inst r), p)"
proof -
  note iok = platform_okD(3) [OF reachable_ok [OF assms(1,2)]]
  note f = find_row_inst [OF iok assms(3)]
  have ne: "r\<lparr>i_desired := DesStopped, i_updated := now\<rparr> \<noteq> r"
    using assms(5) by (metis inst_row.select_convs(13) inst_row.surjective inst_row.update_convs(6,13))
  show ?thesis
    using assms(4) ne
    by (simp add: request_stop_def request_delete_def svc_bind_def on_inst_eq set_desired_state_eq [OF iok] updates_row_def
        f field_update_def tx_bind_def get_instance_eq [OF iok] inst_terminal_def terminal_instance_state_def tx_ret_def)
qed

theorem stop_of_archived_instance_raises_witness:
  "\<exists>r \<in> set (nd_rows (p_inst archived_platform)).
     request_stop sample_world (Uid 3) 99 archived_platform = (Inl ProgrammingError, archived_platform)"
proof -
  have "map (\<lambda>r. (i_id r, i_state r, i_updated r)) (nd_rows (p_inst archived_platform)) = [(3, IArchived, 40)]"
    by (simp add: archived_value)
  then obtain r where r: "r \<in> set (nd_rows (p_inst archived_platform))" "i_id r = 3" "i_state r = IArchived" "i_updated r = 40"
    by (cases "nd_rows (p_inst archived_platform)") auto
  from stop_of_archived_instance_raises [OF sample_world_inj sample_platform_reachable(4) r(1,3), of 99] r
  show ?thesis by auto
qed

end
