(* ===== verification/Doubles.thy ===== *)
theory Doubles
  imports Complex_Main
begin

text \<open>
  Python's floats, as far as the scoring code uses them. A double is the rational it denotes; every
  arithmetic operation is the exact one followed by rounding to 53 significant bits, to nearest with
  ties to even, as IEEE 754 prescribes for \<open>+\<close>, \<open>-\<close>, \<open>*\<close>, \<open>/\<close> and for the conversion of an int. The
  exponent is unbounded here: overflow, subnormals, infinities and NaN are left out.
\<close>

section \<open>Rounding\<close>

fun bits :: "nat \<Rightarrow> nat" where
  "bits n = (if n = 0 then 0 else Suc (bits (n div 2)))"

declare bits.simps [simp del]

definition pow2 :: "int \<Rightarrow> rat" where
  "pow2 e = (if 0 \<le> e then 2 ^ nat e else 1 / 2 ^ nat (- e))"

text \<open>The exponent \<open>e\<close> of a positive rational with \<open>2 ^ 52 \<le> x / 2 ^ e < 2 ^ 53\<close>.\<close>

definition binade :: "rat \<Rightarrow> int" where
  "binade x = (let (p, q) = quotient_of x; e = int (bits (nat p)) - int (bits (nat q)) - 53
     in if x / pow2 e < 2 ^ 53 then e else e + 1)"

definition round_half_even :: "rat \<Rightarrow> int" where
  "round_half_even x = (let f = \<lfloor>x\<rfloor>; d = x - of_int f in
     if d < 1 / 2 then f else if 1 / 2 < d then f + 1 else if even f then f else f + 1)"

definition fl :: "rat \<Rightarrow> rat" where
  "fl x = (if x = 0 then 0
     else let e = binade \<bar>x\<bar> in of_int (round_half_even (x / pow2 e)) * pow2 e)"

definition fl_int :: "int \<Rightarrow> rat" where
  "fl_int n = fl (of_int n)"

definition fl_add :: "rat \<Rightarrow> rat \<Rightarrow> rat" where
  "fl_add x y = fl (x + y)"

definition fl_sub :: "rat \<Rightarrow> rat \<Rightarrow> rat" where
  "fl_sub x y = fl (x - y)"

definition fl_mult :: "rat \<Rightarrow> rat \<Rightarrow> rat" where
  "fl_mult x y = fl (x * y)"

definition fl_div :: "rat \<Rightarrow> rat \<Rightarrow> rat" where
  "fl_div x y = fl (x / y)"

text \<open>\<open>int / int\<close> is the correctly rounded quotient; \<open>round\<close> of a float takes ties to even.\<close>

definition int_truediv :: "int \<Rightarrow> int \<Rightarrow> rat" where
  "int_truediv m n = fl (of_int m / of_int n)"

definition py_round :: "rat \<Rightarrow> int" where
  "py_round x = round_half_even x"

section \<open>What rounding preserves\<close>

lemma bits_bounds: "0 < n \<Longrightarrow> 2 ^ (bits n - 1) \<le> n \<and> n < 2 ^ bits n"
proof (induction n rule: bits.induct)
  case (1 n)
  show ?case
  proof (cases "n div 2 = 0")
    case True
    then have "n = 1" using 1(2) by auto
    then show ?thesis by (simp add: bits.simps)
  next
    case False
    then have ih: "2 ^ (bits (n div 2) - 1) \<le> n div 2 \<and> n div 2 < 2 ^ bits (n div 2)"
      using 1 by simp
    have b: "bits n = Suc (bits (n div 2))" "bits (n div 2) = Suc (bits (n div 2 div 2))"
      using 1(2) False by (simp_all add: bits.simps [of n] bits.simps [of "n div 2"])
    define m where "m = n div 2"
    have "2 * m \<le> n" "n < 2 * m + 2" by (auto simp: m_def)
    then show ?thesis using ih b unfolding m_def [symmetric] by simp
  qed
qed

lemma pow2_pos [simp]: "0 < pow2 e"
  by (simp add: pow2_def)

lemma pow2_nonzero [simp]: "pow2 e \<noteq> 0"
  by (metis less_irrefl pow2_pos)

lemma pow2_powi: "pow2 e = 2 powi e"
  by (simp add: pow2_def power_int_def field_simps)

lemma pow2_add: "pow2 (a + b) = pow2 a * pow2 b"
  by (simp add: pow2_powi power_int_add)

lemma pow2_diff: "pow2 (a - b) = pow2 a / pow2 b"
  by (simp add: pow2_powi power_int_diff)

lemma pow2_mono: "a \<le> b \<Longrightarrow> pow2 a \<le> pow2 b"
  by (simp add: pow2_powi power_int_increasing)

lemma pow2_nat: "pow2 (int n) = 2 ^ n"
  by (simp add: pow2_def)

lemma binade_bounds:
  assumes "0 < x"
  shows "2 ^ 52 \<le> x / pow2 (binade x)" and "x / pow2 (binade x) < 2 ^ 53"
proof -
  obtain p q where pq: "quotient_of x = (p, q)" by (cases "quotient_of x")
  have q: "0 < q" using quotient_of_denom_pos [OF pq] .
  have x: "x = of_int p / of_int q" by (rule quotient_of_div [OF pq])
  have p: "0 < p" using assms q by (simp add: x zero_less_divide_iff)
  define bp bq where "bp = int (bits (nat p))" and "bq = int (bits (nat q))"
  define e where "e = bp - bq - 53"
  have np: "0 < nat p" "0 < nat q" using p q by simp_all
  have ge1: "1 \<le> bits (nat p)" "1 \<le> bits (nat q)"
    using np by (simp_all add: bits.simps [of "nat p"] bits.simps [of "nat q"])
  have bnd: "pow2 (bp - 1) \<le> of_int p" "of_int p < pow2 bp" "pow2 (bq - 1) \<le> of_int q" "of_int q < pow2 bq"
  proof -
    have nat_rat: "0 < k \<Longrightarrow> (of_nat (nat k) :: rat) = of_int k" for k by (simp add: of_nat_nat)
    have low: "pow2 (int (bits n) - 1) \<le> of_nat n \<and> of_nat n < pow2 (int (bits n))" if "0 < n" for n :: nat
    proof -
      have one: "1 \<le> bits n" using that by (simp add: bits.simps [of n])
      have "(of_nat (2 ^ (bits n - 1)) :: rat) \<le> of_nat n" "(of_nat n :: rat) < of_nat (2 ^ bits n)"
        using bits_bounds [OF that] by (simp_all only: of_nat_le_iff of_nat_less_iff)
      moreover have "int (bits n) - 1 = int (bits n - 1)" using one by simp
      ultimately show ?thesis by (simp only: pow2_nat of_nat_power of_nat_numeral simp_thms)
    qed
    show "pow2 (bp - 1) \<le> of_int p" "of_int p < pow2 bp" "pow2 (bq - 1) \<le> of_int q" "of_int q < pow2 bq"
      using low [OF np(1)] low [OF np(2)] unfolding bp_def bq_def nat_rat [OF p] nat_rat [OF q] by blast+
  qed
  have up: "x < pow2 (bp - bq + 1)"
  proof -
    have "x < pow2 bp / of_int q" using bnd(2) q by (simp add: x divide_strict_right_mono)
    also have "\<dots> \<le> pow2 bp / pow2 (bq - 1)" by (rule divide_left_mono [OF bnd(3)]) (use q in \<open>simp_all add: less_imp_le\<close>)
    also have "\<dots> = pow2 (bp - bq + 1)" by (simp flip: pow2_diff add: algebra_simps)
    finally show ?thesis .
  qed
  have lo: "pow2 (bp - bq - 1) < x"
  proof -
    have "pow2 (bp - bq - 1) = pow2 (bp - 1) / pow2 bq" by (simp flip: pow2_diff add: algebra_simps)
    also have "\<dots> < pow2 (bp - 1) / of_int q" using bnd(4) q by (simp add: divide_strict_left_mono)
    also have "\<dots> \<le> x" using bnd(1) q by (simp add: x divide_right_mono)
    finally show ?thesis .
  qed
  have b: "binade x = (if x / pow2 e < 2 ^ 53 then e else e + 1)"
    by (simp add: binade_def pq bp_def bq_def e_def)
  have e52: "pow2 (bp - bq - 1) = 2 ^ 52 * pow2 e"
    using pow2_add [of 52 e] pow2_nat [of 52] by (simp add: e_def)
  have e54: "pow2 (bp - bq + 1) = 2 ^ 53 * pow2 (e + 1)"
    using pow2_add [of 53 "e + 1"] pow2_nat [of 53] by (simp add: e_def add.commute)
  have "2 ^ 52 < x / pow2 e" using lo by (simp add: e52 pos_less_divide_eq)
  moreover have "x / pow2 (e + 1) < 2 ^ 53" using up by (simp add: e54 pos_divide_less_eq)
  moreover have "x / pow2 (e + 1) = x / pow2 e / 2" using pow2_add [of e 1] by (simp add: pow2_def)
  ultimately show "2 ^ 52 \<le> x / pow2 (binade x)" "x / pow2 (binade x) < 2 ^ 53"
    by (auto simp: b)
qed

lemma round_half_even_int [simp]: "round_half_even (of_int n) = n"
  by (simp add: round_half_even_def)

lemma round_half_even_near: "\<lfloor>x\<rfloor> \<le> round_half_even x" "round_half_even x \<le> \<lfloor>x\<rfloor> + 1"
  by (simp_all add: round_half_even_def Let_def)

lemma round_half_even_mono: "x \<le> y \<Longrightarrow> round_half_even x \<le> round_half_even y"
proof -
  assume le: "x \<le> y"
  then have fl: "\<lfloor>x\<rfloor> \<le> \<lfloor>y\<rfloor>" by (rule floor_mono)
  show ?thesis
  proof (cases "\<lfloor>x\<rfloor> = \<lfloor>y\<rfloor>")
    case True
    then show ?thesis using le by (auto simp: round_half_even_def Let_def)
  next
    case False
    then show ?thesis
      using fl round_half_even_near(2) [of x] round_half_even_near(1) [of y] by linarith
  qed
qed

lemma round_half_even_uminus: "round_half_even (- x) = - round_half_even x"
proof (cases "x = of_int \<lfloor>x\<rfloor>")
  case True
  then show ?thesis by (metis of_int_minus round_half_even_int)
next
  case False
  then have "\<lfloor>- x\<rfloor> = - \<lfloor>x\<rfloor> - 1" by linarith
  then show ?thesis by (auto simp: round_half_even_def Let_def)
qed

lemma fl_0 [simp]: "fl 0 = 0"
  by (simp add: fl_def)

lemma fl_uminus: "fl (- x) = - fl x"
  by (simp add: fl_def Let_def round_half_even_uminus)

lemma fl_pos_bounds:
  assumes "0 < x"
  shows "2 ^ 52 * pow2 (binade x) \<le> fl x" and "fl x \<le> 2 ^ 53 * pow2 (binade x)"
proof -
  let ?y = "x / pow2 (binade x)"
  have "round_half_even (of_int (2 ^ 52)) \<le> round_half_even ?y" "round_half_even ?y \<le> round_half_even (of_int (2 ^ 53))"
    using binade_bounds [OF assms] by (auto intro!: round_half_even_mono)
  then have "2 ^ 52 \<le> round_half_even ?y" "round_half_even ?y \<le> 2 ^ 53"
    by (simp_all only: round_half_even_int)
  then have "(of_int (2 ^ 52) :: rat) \<le> of_int (round_half_even ?y)" "(of_int (round_half_even ?y) :: rat) \<le> of_int (2 ^ 53)"
    by (simp_all only: of_int_le_iff)
  then show "2 ^ 52 * pow2 (binade x) \<le> fl x" "fl x \<le> 2 ^ 53 * pow2 (binade x)"
    using assms by (simp_all add: fl_def Let_def)
qed

lemma binade_mono:
  assumes "0 < x" and "x \<le> y"
  shows "binade x \<le> binade y"
proof (rule ccontr)
  assume "\<not> ?thesis"
  then have "binade y + 1 \<le> binade x" by simp
  then have "pow2 (binade y + 1) \<le> pow2 (binade x)" by (rule pow2_mono)
  then have "2 * pow2 (binade y) \<le> pow2 (binade x)" by (simp add: pow2_add) (simp add: pow2_def)
  moreover have "y < 2 ^ 53 * pow2 (binade y)" "2 ^ 52 * pow2 (binade x) \<le> x"
    using binade_bounds [of x] binade_bounds [of y] assms by (simp_all add: pos_divide_less_eq pos_le_divide_eq)
  ultimately show False using assms by simp
qed

lemma fl_mono_pos:
  assumes "0 < x" and "x \<le> y"
  shows "fl x \<le> fl y"
proof (cases "binade x = binade y")
  case True
  have "round_half_even (x / pow2 (binade x)) \<le> round_half_even (y / pow2 (binade y))"
    using assms(2) True by (intro round_half_even_mono) (simp add: divide_right_mono less_imp_le)
  then show ?thesis using assms True by (simp add: fl_def Let_def)
next
  case False
  then have "binade x + 1 \<le> binade y" using binade_mono [OF assms] by simp
  then have "pow2 (binade x + 1) \<le> pow2 (binade y)" by (rule pow2_mono)
  then have "2 * pow2 (binade x) \<le> pow2 (binade y)" by (simp add: pow2_add) (simp add: pow2_def)
  then show ?thesis using fl_pos_bounds [of x] fl_pos_bounds [of y] assms by simp
qed

lemma fl_nonneg: "0 \<le> x \<Longrightarrow> 0 \<le> fl x"
proof (cases "x = 0")
  case False
  assume "0 \<le> x"
  then have "0 < x" using False by simp
  have "0 \<le> 2 ^ 52 * pow2 (binade x)" using pow2_pos [of "binade x"] by (simp add: less_imp_le)
  then show ?thesis using fl_pos_bounds(1) [OF \<open>0 < x\<close>] by (rule order_trans)
qed simp

lemma fl_mono: "x \<le> y \<Longrightarrow> fl x \<le> fl y"
proof -
  assume le: "x \<le> y"
  consider "0 < x" | "x \<le> 0 \<and> 0 \<le> y" | "y < 0" using le by linarith
  then show ?thesis
  proof cases
    case 1
    then show ?thesis by (rule fl_mono_pos [OF _ le])
  next
    case 2
    then show ?thesis using fl_nonneg [of y] fl_nonneg [of "- x"] by (simp add: fl_uminus)
  next
    case 3
    then show ?thesis using fl_mono_pos [of "- y" "- x"] le by (simp add: fl_uminus)
  qed
qed

text \<open>Integers of up to 53 bits are doubles.\<close>

lemma fl_of_int: "\<bar>n\<bar> \<le> 2 ^ 53 \<Longrightarrow> fl (of_int n) = of_int n"
proof -
  have pos: "fl (of_int n) = of_int n" if "0 < n" "n \<le> 2 ^ 53" for n :: int
  proof (cases "binade (of_int n) \<le> 0")
    case True
    define k where "k = nat (- binade (of_int n))"
    have "pow2 (binade (of_int n)) = 1 / 2 ^ k" using True by (auto simp: pow2_def k_def)
    moreover have "round_half_even (of_int n * 2 ^ k) = n * 2 ^ k"
      using round_half_even_int [of "n * 2 ^ k"] by simp
    ultimately show ?thesis using that by (simp add: fl_def Let_def)
  next
    case False
    then have "pow2 1 \<le> pow2 (binade (of_int n))" by (intro pow2_mono) simp
    then have two: "2 \<le> pow2 (binade (of_int n))" by (simp add: pow2_def)
    have "2 ^ 52 * pow2 (binade (of_int n)) \<le> of_int n"
      using binade_bounds(1) [of "of_int n"] that by (simp add: pos_le_divide_eq)
    moreover have "(of_int n :: rat) \<le> of_int (2 ^ 53)" using that(2) by (simp only: of_int_le_iff)
    ultimately have eq: "of_int n = (2 ^ 53 :: rat)" "pow2 (binade (of_int n)) = 2"
      using two by simp_all
    then show ?thesis using that by (simp add: fl_def Let_def) (use round_half_even_int [of "2 ^ 52"] in simp)
  qed
  assume "\<bar>n\<bar> \<le> 2 ^ 53"
  then show ?thesis using pos [of n] pos [of "- n"] fl_uminus [of "of_int n"]
    by (cases "n = 0"; cases "0 < n") auto
qed

lemma py_round_mono: "x \<le> y \<Longrightarrow> py_round x \<le> py_round y"
  by (simp add: py_round_def round_half_even_mono)

lemma py_round_int [simp]: "py_round (of_int n) = n"
  by (simp add: py_round_def)

lemmas fl_ops = fl_int_def fl_add_def fl_sub_def fl_mult_def fl_div_def int_truediv_def

end
