(* ===== verification/Scoring_Engine.thy ===== *)
theory Scoring_Engine
  imports Prelude Doubles
begin

text \<open>
  The value types of \<open>domain/challenges/models.py\<close> the scoreboard uses and the four scoring engines of
  \<open>domain/scoring/scoring_engine.py\<close> with their registry. An engine is a pure function of its
  arguments; its arithmetic is that of Python floats (Doubles).
\<close>

section \<open>Value types\<close>

record first_blood_bonus =
  fb_enabled :: bool
  fb_points :: int
  fb_percent :: rat

record scoring_config =
  sc_challenge :: string
  sc_initial :: int
  sc_minimum :: int
  sc_function :: string
  sc_decay :: int
  sc_bonus :: first_blood_bonus

record competition_config =
  cc_id :: string
  cc_name :: string
  cc_start :: instant
  cc_end :: instant
  cc_scoring_start :: "instant option"
  cc_freeze :: "instant option"
  cc_default :: "scoring_config option"

record solve_event =
  se_team :: string
  se_challenge :: string
  se_at :: instant
  se_submission :: string
  se_seed :: "string option"

section \<open>Engines\<close>

datatype engine =
    StaticPoints
  | DynamicDecay
  | TimeDecay
  | AIResistance "(string \<times> rat) list" rat engine

definition clamp :: "rat \<Rightarrow> rat \<Rightarrow> rat \<Rightarrow> rat" where
  "clamp lo hi v = max lo (min hi v)"

definition bounds_of :: "scoring_config \<Rightarrow> rat \<times> rat" where
  "bounds_of c = (let initial = fl_int (sc_initial c); minimum = fl_int (sc_minimum c) in
     if minimum \<le> initial then (minimum, initial) else (initial, minimum))"

definition dynamic_value :: "scoring_config \<Rightarrow> int \<Rightarrow> rat" where
  "dynamic_value c solve_count =
     (let initial = fl_int (sc_initial c); minimum = fl_int (sc_minimum c);
          decay = sc_decay c; solves = max 0 solve_count;
          v = (if sc_function c = ''linear'' \<and> decay > 0
               then fl_sub initial (fl_mult (fl_sub initial minimum) (int_truediv solves decay))
               else if sc_function c = ''logarithmic'' \<and> decay > 0
               then fl_add (fl_mult (fl_div (fl_sub minimum initial) (fl_int (decay ^ 2))) (fl_int (solves ^ 2))) initial
               else initial);
          (lo, hi) = bounds_of c
      in clamp lo hi v)"

text \<open>\<open>timedelta.total_seconds\<close> divides the microseconds by a million.\<close>

definition total_seconds :: "int \<Rightarrow> rat" where
  "total_seconds d = int_truediv d 1000000"

definition effective_clock :: "competition_config \<Rightarrow> instant \<Rightarrow> instant" where
  "effective_clock cfg now = (case cc_freeze cfg of
      None \<Rightarrow> now | Some f \<Rightarrow> if now > f then f else now)"

definition time_value :: "scoring_config \<Rightarrow> competition_config \<Rightarrow> instant \<Rightarrow> rat" where
  "time_value c cfg now =
     (let initial = fl_int (sc_initial c); minimum = fl_int (sc_minimum c); (lo, hi) = bounds_of c;
          start = (case cc_scoring_start cfg of None \<Rightarrow> cc_start cfg | Some t \<Rightarrow> t);
          window = total_seconds (cc_end cfg - start)
      in if window \<le> 0 then hi
         else let elapsed = total_seconds (effective_clock cfg now - start) in
           if elapsed \<le> 0 then hi
           else if elapsed \<ge> window then lo
           else clamp lo hi (fl_sub initial (fl_mult (fl_sub initial minimum) (fl_div elapsed window))))"

fun challenge_value :: "engine \<Rightarrow> scoring_config \<Rightarrow> int \<Rightarrow> competition_config \<Rightarrow> instant \<Rightarrow> rat" where
  "challenge_value StaticPoints c n cfg now = fl_int (sc_initial c)"
| "challenge_value DynamicDecay c n cfg now = dynamic_value c n"
| "challenge_value TimeDecay c n cfg now = time_value c cfg now"
| "challenge_value (AIResistance weights w0 base) c n cfg now =
     fl_mult (challenge_value base c n cfg now)
       (case map_of weights (sc_challenge c) of None \<Rightarrow> w0 | Some w \<Rightarrow> w)"

text \<open>The registry after import; \<open>ai_resistance\<close> wraps the static engine with no weights.\<close>

definition scoring_engines :: "(string \<times> engine) list" where
  "scoring_engines = [(''static'', StaticPoints), (''dynamic_decay'', DynamicDecay), (''time_decay'', TimeDecay),
     (''ai_resistance'', AIResistance [] 1 StaticPoints)]"

definition get_scoring_engine :: "string \<Rightarrow> exn + engine" where
  "get_scoring_engine name = (case map_of scoring_engines name of None \<Rightarrow> Inl KeyError | Some e \<Rightarrow> Inr e)"

definition list_scoring_engines :: "string list" where
  "list_scoring_engines = sort (map fst scoring_engines)"

section \<open>Configuration checks\<close>

text \<open>One constructor per message of \<open>validate_competition_config\<close>; the texts are left out.\<close>

datatype config_problem =
    EndNotAfterStart | ScoringBeforeStart | ScoringAfterEnd | FreezeBeforeStart | FreezeAfterEnd
  | MinimumAboveInitial | InitialNegative | MinimumNegative | UnknownDecayFunction | DecayNegative
  | BonusPointsNegative | BonusPercentOutside

definition validate_challenge_scoring :: "scoring_config \<Rightarrow> config_problem list" where
  "validate_challenge_scoring c =
     (if sc_minimum c > sc_initial c then [MinimumAboveInitial] else [])
     @ (if sc_initial c < 0 then [InitialNegative] else [])
     @ (if sc_minimum c < 0 then [MinimumNegative] else [])
     @ (if sc_function c \<notin> {''static'', ''linear'', ''logarithmic''} then [UnknownDecayFunction] else [])
     @ (if sc_decay c < 0 then [DecayNegative] else [])
     @ (if fb_points (sc_bonus c) < 0 then [BonusPointsNegative] else [])
     @ (if \<not> (0 \<le> fb_percent (sc_bonus c) \<and> fb_percent (sc_bonus c) \<le> 100) then [BonusPercentOutside] else [])"

definition validate_competition_config :: "competition_config \<Rightarrow> config_problem list" where
  "validate_competition_config c =
     (if cc_end c \<le> cc_start c then [EndNotAfterStart] else [])
     @ (case cc_scoring_start c of None \<Rightarrow> [] | Some t \<Rightarrow>
          (if t < cc_start c then [ScoringBeforeStart] else []) @ (if t > cc_end c then [ScoringAfterEnd] else []))
     @ (case cc_freeze c of None \<Rightarrow> [] | Some t \<Rightarrow>
          (if t < cc_start c then [FreezeBeforeStart] else []) @ (if t > cc_end c then [FreezeAfterEnd] else []))
     @ (case cc_default c of None \<Rightarrow> [] | Some s \<Rightarrow> validate_challenge_scoring s)"

section \<open>Bounds and monotony\<close>

text \<open>The integer columns hold 32-bit numbers with \<open>minimum_value \<le> initial_value\<close>.\<close>

definition column_range :: "scoring_config \<Rightarrow> bool" where
  "column_range c \<longleftrightarrow> - (2 ^ 31) \<le> sc_minimum c \<and> sc_minimum c \<le> sc_initial c \<and> sc_initial c < 2 ^ 31"

lemma column_range_exact:
  assumes "column_range c"
  shows "fl_int (sc_initial c) = of_int (sc_initial c)" and "fl_int (sc_minimum c) = of_int (sc_minimum c)"
    and "fl_sub (fl_int (sc_initial c)) (fl_int (sc_minimum c)) = of_int (sc_initial c - sc_minimum c)"
    and "bounds_of c = (of_int (sc_minimum c), of_int (sc_initial c))"
    and "fl_sub (of_int (sc_initial c)) (of_int (sc_minimum c)) = of_int (sc_initial c) - of_int (sc_minimum c)"
proof -
  have small: "\<bar>sc_initial c\<bar> \<le> 2 ^ 53" "\<bar>sc_minimum c\<bar> \<le> 2 ^ 53" "\<bar>sc_initial c - sc_minimum c\<bar> \<le> 2 ^ 53"
    using assms by (auto simp: column_range_def)
  show i: "fl_int (sc_initial c) = of_int (sc_initial c)" and m: "fl_int (sc_minimum c) = of_int (sc_minimum c)"
    using small by (simp_all add: fl_int_def fl_of_int)
  show "fl_sub (fl_int (sc_initial c)) (fl_int (sc_minimum c)) = of_int (sc_initial c - sc_minimum c)"
    using fl_of_int [OF small(3)] by (simp add: i m fl_sub_def)
  show "fl_sub (of_int (sc_initial c)) (of_int (sc_minimum c)) = of_int (sc_initial c) - of_int (sc_minimum c)"
    using fl_of_int [OF small(3)] by (simp add: fl_sub_def)
  show "bounds_of c = (of_int (sc_minimum c), of_int (sc_initial c))"
    using assms by (simp add: bounds_of_def i m column_range_def)
qed

lemma clamp_mono: "v \<le> w \<Longrightarrow> clamp lo hi v \<le> clamp lo hi w"
  unfolding clamp_def by (intro max.mono min.mono) auto

lemma clamp_bounds: "lo \<le> hi \<Longrightarrow> lo \<le> clamp lo hi v \<and> clamp lo hi v \<le> hi"
  by (simp add: clamp_def)

lemma dynamic_antitone:
  assumes r: "column_range c" and n: "n \<le> n'"
  shows "dynamic_value c n' \<le> dynamic_value c n"
proof -
  let ?span = "rat_of_int (sc_initial c) - rat_of_int (sc_minimum c)" and ?d = "sc_decay c"
  let ?m = "max 0 n" and ?m' = "max 0 n'"
  have span: "0 \<le> ?span" using r by (simp add: column_range_def)
  have le: "?m \<le> ?m'" "0 \<le> ?m" using n by auto
  have lin: "fl_sub x (fl_mult ?span (int_truediv ?m' ?d)) \<le> fl_sub x (fl_mult ?span (int_truediv ?m ?d))"
    if "0 < ?d" for x
  proof -
    have "int_truediv ?m ?d \<le> int_truediv ?m' ?d"
      unfolding int_truediv_def using le that by (intro fl_mono divide_right_mono) auto
    then have "fl_mult ?span (int_truediv ?m ?d) \<le> fl_mult ?span (int_truediv ?m' ?d)"
      unfolding fl_mult_def by (intro fl_mono mult_left_mono span)
    then show ?thesis unfolding fl_sub_def by (intro fl_mono) simp
  qed
  have log: "fl_add (fl_mult q (fl_int (?m' ^ 2))) x \<le> fl_add (fl_mult q (fl_int (?m ^ 2))) x"
    if "q \<le> 0" for q x
  proof -
    have "?m ^ 2 \<le> ?m' ^ 2" using le by (intro power_mono) auto
    then have "fl_int (?m ^ 2) \<le> fl_int (?m' ^ 2)"
      unfolding fl_int_def by (intro fl_mono) (simp only: of_int_le_iff)
    then have "fl_mult q (fl_int (?m' ^ 2)) \<le> fl_mult q (fl_int (?m ^ 2))"
      unfolding fl_mult_def using that by (intro fl_mono mult_left_mono_neg)
    then show ?thesis unfolding fl_add_def by (intro fl_mono) simp
  qed
  have q: "fl_div (fl_sub (of_int (sc_minimum c)) (of_int (sc_initial c))) (fl_int (?d ^ 2)) \<le> 0"
  proof -
    have num: "fl_sub (of_int (sc_minimum c)) (of_int (sc_initial c)) \<le> 0"
      using fl_mono [of "of_int (sc_minimum c) - of_int (sc_initial c)" 0] r by (simp add: fl_sub_def column_range_def)
    have den: "0 \<le> fl_int (?d ^ 2)" unfolding fl_int_def by (intro fl_nonneg) simp
    have "fl_sub (of_int (sc_minimum c)) (of_int (sc_initial c)) / fl_int (?d ^ 2) \<le> 0"
      by (rule divide_nonpos_nonneg [OF num den])
    from fl_mono [OF this] show ?thesis by (simp add: fl_div_def)
  qed
  show ?thesis
    unfolding dynamic_value_def Let_def column_range_exact [OF r] split
    by (intro clamp_mono) (auto intro: lin log q)
qed

lemma linear_floor:
  assumes r: "column_range c" and "sc_function c = ''linear''" and d: "0 < sc_decay c" and "sc_decay c \<le> n"
  shows "dynamic_value c n = of_int (sc_minimum c)"
proof -
  let ?span = "sc_initial c - sc_minimum c"
  have s: "\<bar>1::int\<bar> \<le> 2 ^ 53" "\<bar>?span\<bar> \<le> 2 ^ 53" using r by (auto simp: column_range_def)
  have "(1 :: rat) \<le> of_int (max 0 n) / of_int (sc_decay c)" using d assms(4) by simp
  from fl_mono [OF this] have one: "1 \<le> int_truediv (max 0 n) (sc_decay c)"
    using fl_of_int [OF s(1)] by (simp add: int_truediv_def)
  have span: "(0 :: rat) \<le> of_int ?span" using r by (simp add: column_range_def)
  have "(of_int ?span :: rat) * 1 \<le> of_int ?span * int_truediv (max 0 n) (sc_decay c)"
    by (rule mult_left_mono [OF one span])
  from fl_mono [OF this] have "of_int ?span \<le> fl_mult (of_int ?span) (int_truediv (max 0 n) (sc_decay c))"
    using fl_of_int [OF s(2)] by (simp add: fl_mult_def)
  then have "of_int (sc_initial c) - fl_mult (of_int ?span) (int_truediv (max 0 n) (sc_decay c)) \<le> of_int (sc_minimum c)"
    by simp
  from fl_mono [OF this] have "fl_sub (of_int (sc_initial c)) (fl_mult (of_int ?span) (int_truediv (max 0 n) (sc_decay c)))
      \<le> of_int (sc_minimum c)"
    using column_range_exact(2) [OF r] by (simp add: fl_sub_def fl_int_def)
  then show ?thesis
    using assms(2) d r
    by (simp add: dynamic_value_def Let_def column_range_exact [OF r] clamp_def column_range_def)
qed

lemma total_seconds_mono: "a \<le> b \<Longrightarrow> total_seconds a \<le> total_seconds b"
  unfolding total_seconds_def int_truediv_def by (intro fl_mono divide_right_mono) auto

lemma time_antitone:
  assumes r: "column_range c" and n: "now \<le> now'"
  shows "time_value c cfg now' \<le> time_value c cfg now"
proof -
  define start where "start = (case cc_scoring_start cfg of None \<Rightarrow> cc_start cfg | Some t \<Rightarrow> t)"
  define w where "w = total_seconds (cc_end cfg - start)"
  define a b where "a = total_seconds (effective_clock cfg now - start)"
    and "b = total_seconds (effective_clock cfg now' - start)"
  let ?lo = "of_int (sc_minimum c) :: rat" and ?hi = "of_int (sc_initial c) :: rat"
  let ?v = "\<lambda>e. clamp ?lo ?hi (fl_sub ?hi (fl_mult (of_int (sc_initial c - sc_minimum c)) (fl_div e w)))"
  have lh: "?lo \<le> ?hi" and span: "(0 :: rat) \<le> of_int (sc_initial c - sc_minimum c)"
    using r by (simp_all add: column_range_def)
  have "effective_clock cfg now \<le> effective_clock cfg now'"
    using n by (auto simp: effective_clock_def split: option.splits)
  then have ab: "a \<le> b" by (auto simp: a_def b_def intro: total_seconds_mono)
  have v: "?v b \<le> ?v a" if "0 < w"
  proof -
    have "fl_div a w \<le> fl_div b w" unfolding fl_div_def using ab that by (intro fl_mono divide_right_mono) auto
    then have "fl_mult (of_int (sc_initial c - sc_minimum c)) (fl_div a w)
        \<le> fl_mult (of_int (sc_initial c - sc_minimum c)) (fl_div b w)"
      unfolding fl_mult_def by (intro fl_mono mult_left_mono span)
    then show ?thesis unfolding fl_sub_def by (intro clamp_mono fl_mono) simp
  qed
  have eq: "time_value c cfg t = (if w \<le> 0 then ?hi else if e \<le> 0 then ?hi else if e \<ge> w then ?lo else ?v e)"
    if "e = total_seconds (effective_clock cfg t - start)" for t e
    using that unfolding time_value_def Let_def column_range_exact [OF r] split start_def w_def by simp
  show ?thesis
    using ab v lh clamp_bounds [OF lh] by (auto simp: eq [OF a_def] eq [OF b_def])
qed

text \<open>
  C20. Points stay in their band and only fall: with the column's integers, each of the static, the
  solve-count and the time-decay engine awards a rounded value between \<open>minimum_value\<close> and
  \<open>initial_value\<close>; under the solve-count engine more solves never raise it, and a linear decay has
  reached \<open>minimum_value\<close> after \<open>decay\<close> solves; under the time-decay engine a later clock never raises it.
\<close>

theorem challenge_value_bounds:
  assumes "column_range c" and "e \<in> {StaticPoints, DynamicDecay, TimeDecay}"
  shows "sc_minimum c \<le> py_round (challenge_value e c n cfg now)
    \<and> py_round (challenge_value e c n cfg now) \<le> sc_initial c
    \<and> (n \<le> n' \<longrightarrow> now \<le> now' \<longrightarrow>
        py_round (challenge_value e c n' cfg now') \<le> py_round (challenge_value e c n cfg now))
    \<and> (sc_function c = ''linear'' \<longrightarrow> 0 < sc_decay c \<longrightarrow> sc_decay c \<le> n \<longrightarrow>
        py_round (challenge_value DynamicDecay c n cfg now) = sc_minimum c)"
proof -
  note r = assms(1)
  have lh: "(of_int (sc_minimum c) :: rat) \<le> of_int (sc_initial c)" using r by (simp add: column_range_def)
  have "of_int (sc_minimum c) \<le> challenge_value e c n cfg now \<and> challenge_value e c n cfg now \<le> of_int (sc_initial c)"
    using assms(2) lh clamp_bounds [OF lh]
    by (auto simp: column_range_exact [OF r] dynamic_value_def time_value_def Let_def)
  then have "sc_minimum c \<le> py_round (challenge_value e c n cfg now)"
    "py_round (challenge_value e c n cfg now) \<le> sc_initial c"
    using py_round_mono [of "of_int (sc_minimum c)" "challenge_value e c n cfg now"]
      py_round_mono [of "challenge_value e c n cfg now" "of_int (sc_initial c)"] by simp_all
  moreover have "py_round (challenge_value e c n' cfg now') \<le> py_round (challenge_value e c n cfg now)"
    if "n \<le> n'" "now \<le> now'"
    using assms(2) dynamic_antitone [OF r that(1)] time_antitone [OF r that(2)] by (auto intro: py_round_mono)
  ultimately show ?thesis using linear_floor [OF r] by auto
qed

definition sample_scoring :: scoring_config where
  "sample_scoring = \<lparr>sc_challenge = ''web:v1'', sc_initial = 500, sc_minimum = 100, sc_function = ''linear'', sc_decay = 10,
     sc_bonus = \<lparr>fb_enabled = True, fb_points = 25, fb_percent = 10\<rparr>\<rparr>"

definition sample_competition :: competition_config where
  "sample_competition = \<lparr>cc_id = ''ctf'', cc_name = ''CTF'', cc_start = 0, cc_end = 1000, cc_scoring_start = None,
     cc_freeze = None, cc_default = None\<rparr>"

theorem challenge_value_bounds_witness:
  "column_range sample_scoring \<and> 100 \<le> py_round (challenge_value DynamicDecay sample_scoring 3 sample_competition 5)
   \<and> py_round (challenge_value DynamicDecay sample_scoring 12 sample_competition 5) = 100"
proof -
  have r: "column_range sample_scoring" by (simp add: column_range_def sample_scoring_def)
  from challenge_value_bounds [OF r, of DynamicDecay 3 sample_competition 5]
    challenge_value_bounds [OF r, of DynamicDecay 12 sample_competition 5] r
  show ?thesis by (simp add: sample_scoring_def)
qed

end
