(* ===== verification/Scoreboard.thy ===== *)
theory Scoreboard
  imports Scoring_Engine "HOL-Library.AList"
begin

text \<open>
  The pure scoreboard of \<open>scoreboard.py\<close>. A Python dict is its list of items in insertion order, with
  \<open>AList.update\<close> as \<open>d[k] = v\<close>; a \<open>KeyError\<close> is a left value.
\<close>

section \<open>Dictionaries and errors\<close>

type_synonym 'v dict = "(string \<times> 'v) list"

definition dict_get :: "('k \<times> 'v) list \<Rightarrow> 'k \<Rightarrow> 'v \<Rightarrow> 'v" where
  "dict_get d k v = (case map_of d k of None \<Rightarrow> v | Some w \<Rightarrow> w)"

fun traverse :: "('a \<Rightarrow> exn + 'b) \<Rightarrow> 'a list \<Rightarrow> exn + 'b list" where
  "traverse f [] = Inr []"
| "traverse f (x # xs) = (case f x of Inl e \<Rightarrow> Inl e | Inr y \<Rightarrow>
     (case traverse f xs of Inl e \<Rightarrow> Inl e | Inr ys \<Rightarrow> Inr (y # ys)))"

fun fold_exn :: "('s \<Rightarrow> 'a \<Rightarrow> exn + 's) \<Rightarrow> 's \<Rightarrow> 'a list \<Rightarrow> exn + 's" where
  "fold_exn f s [] = Inr s"
| "fold_exn f s (x # xs) = (case f s x of Inl e \<Rightarrow> Inl e | Inr s' \<Rightarrow> fold_exn f s' xs)"

section \<open>The solves that count\<close>

definition effective_now :: "competition_config \<Rightarrow> instant option \<Rightarrow> instant" where
  "effective_now cfg as_of = (case as_of of None \<Rightarrow> cc_end cfg | Some t \<Rightarrow> t)"

definition filter_solves :: "solve_event list \<Rightarrow> instant option \<Rightarrow> solve_event list" where
  "filter_solves events as_of = (case as_of of None \<Rightarrow> events | Some t \<Rightarrow> filter (\<lambda>e. se_at e \<le> t) events)"

definition resolve_challenge_config :: "string \<Rightarrow> scoring_config dict \<Rightarrow> competition_config \<Rightarrow> exn + scoring_config" where
  "resolve_challenge_config cid challenges cfg = (case map_of challenges cid of
     Some c \<Rightarrow> Inr c
   | None \<Rightarrow> (case cc_default cfg of Some c \<Rightarrow> Inr (c\<lparr>sc_challenge := cid\<rparr>) | None \<Rightarrow> Inl KeyError))"

definition solve_sort_key :: "solve_event \<Rightarrow> instant \<times> string \<times> string" where
  "solve_sort_key e = (se_at e, se_submission e, se_team e)"

definition dedupe_step :: "((string \<times> string) \<times> solve_event) list \<Rightarrow> solve_event \<Rightarrow> ((string \<times> string) \<times> solve_event) list" where
  "dedupe_step canonical e = (let key = (se_team e, se_challenge e) in
     case map_of canonical key of
       None \<Rightarrow> AList.update key e canonical
     | Some current \<Rightarrow> if solve_sort_key e < solve_sort_key current then AList.update key e canonical else canonical)"

definition dedupe_solves :: "solve_event list \<Rightarrow> solve_event list" where
  "dedupe_solves solves = map snd (foldl dedupe_step [] solves)"

section \<open>Challenge values\<close>

record value_snapshot =
  vs_challenge :: string
  vs_value :: int
  vs_count :: int
  vs_at :: instant

definition chosen_engine :: "engine option \<Rightarrow> exn + engine" where
  "chosen_engine engine = (case engine of Some e \<Rightarrow> Inr e | None \<Rightarrow> get_scoring_engine ''time_decay'')"

definition solve_counts :: "solve_event list \<Rightarrow> int dict" where
  "solve_counts solves = foldl (\<lambda>d e. AList.update (se_challenge e) (dict_get d (se_challenge e) 0 + 1) d) [] solves"

definition compute_challenge_values ::
  "solve_event list \<Rightarrow> scoring_config dict \<Rightarrow> competition_config \<Rightarrow> engine option \<Rightarrow> instant option \<Rightarrow>
   exn + value_snapshot list" where
  "compute_challenge_values events challenges cfg engine as_of =
    (case chosen_engine engine of Inl x \<Rightarrow> Inl x | Inr eng \<Rightarrow>
      (let now = effective_now cfg as_of;
           counts = solve_counts (dedupe_solves (filter_solves events as_of))
       in traverse (\<lambda>cid.
            case resolve_challenge_config cid challenges cfg of Inl x \<Rightarrow> Inl x | Inr c \<Rightarrow>
              (let count = dict_get counts cid 0 in
               Inr \<lparr>vs_challenge = cid, vs_value = py_round (challenge_value eng c count cfg now),
                    vs_count = count, vs_at = now\<rparr>))
          (sort (remdups (map fst challenges @ map fst counts)))))"

section \<open>The fold over the solves\<close>

definition first_blood_bonus_amount :: "first_blood_bonus \<Rightarrow> int \<Rightarrow> int" where
  "first_blood_bonus_amount b v = py_round (fl_add (fl_int (fb_points b)) (fl_div (fl_mult (fl_int v) (fb_percent b)) 100))"

record scoreboard_entry =
  en_team :: string
  en_score :: int
  en_count :: nat
  en_last :: "instant option"
  en_rank :: nat

record scoreboard_snapshot =
  ss_competition :: string
  ss_generated :: instant
  ss_entries :: "scoreboard_entry list"
  ss_frozen :: bool

text \<open>The three dictionaries the loops of \<open>compute_scoreboard\<close> fill.\<close>

record tally =
  team_score :: "int dict"
  team_solved :: "string set dict"
  team_last_solve :: "instant dict"

definition solves_by_challenge :: "solve_event list \<Rightarrow> solve_event list dict" where
  "solves_by_challenge solves =
     foldl (\<lambda>d e. AList.update (se_challenge e) (dict_get d (se_challenge e) [] @ [e]) d) [] solves"

definition award :: "string \<Rightarrow> scoring_config \<Rightarrow> int \<Rightarrow> tally \<Rightarrow> nat \<times> solve_event \<Rightarrow> tally" where
  "award cid c v t ie = (case ie of (index, e) \<Rightarrow>
     (let points = (if index = 0 \<and> fb_enabled (sc_bonus c) then v + first_blood_bonus_amount (sc_bonus c) v else v);
          team = se_team e
      in \<lparr>team_score = AList.update team (dict_get (team_score t) team 0 + points) (team_score t),
          team_solved = AList.update team (insert cid (dict_get (team_solved t) team {})) (team_solved t),
          team_last_solve = (case map_of (team_last_solve t) team of
              None \<Rightarrow> AList.update team (se_at e) (team_last_solve t)
            | Some prev \<Rightarrow> if se_at e > prev then AList.update team (se_at e) (team_last_solve t) else team_last_solve t)\<rparr>))"

definition award_challenge ::
  "scoring_config dict \<Rightarrow> competition_config \<Rightarrow> value_snapshot dict \<Rightarrow> tally \<Rightarrow> string \<times> solve_event list \<Rightarrow> exn + tally" where
  "award_challenge challenges cfg values t ce = (case ce of (cid, solves) \<Rightarrow>
     (case resolve_challenge_config cid challenges cfg of Inl x \<Rightarrow> Inl x | Inr c \<Rightarrow>
       (case map_of values cid of None \<Rightarrow> Inl KeyError | Some snapshot \<Rightarrow>
         Inr (foldl (award cid c (vs_value snapshot)) t (enumerate 0 (sort_key solve_sort_key solves))))))"

text \<open>
  \<open>None\<close> and a time are never compared in Python's key, since the flag before them differs; the third
  component is therefore immaterial when the flag is set.
\<close>

definition entry_rank_key :: "scoreboard_entry \<Rightarrow> int \<times> bool \<times> instant \<times> string" where
  "entry_rank_key e = (- en_score e, en_last e = None, (case en_last e of None \<Rightarrow> 0 | Some t \<Rightarrow> t), en_team e)"

definition ranked :: "scoreboard_entry list \<Rightarrow> scoreboard_entry list" where
  "ranked entries = map (\<lambda>(index, e). e\<lparr>en_rank := index + 1\<rparr>) (enumerate 0 (sort_key entry_rank_key entries))"

definition tally_entry :: "tally \<Rightarrow> string \<Rightarrow> scoreboard_entry" where
  "tally_entry t team = \<lparr>en_team = team, en_score = dict_get (team_score t) team 0,
     en_count = card (dict_get (team_solved t) team {}), en_last = map_of (team_last_solve t) team, en_rank = 0\<rparr>"

definition compute_scoreboard ::
  "solve_event list \<Rightarrow> scoring_config dict \<Rightarrow> competition_config \<Rightarrow> engine option \<Rightarrow> instant option \<Rightarrow>
   exn + scoreboard_snapshot" where
  "compute_scoreboard events challenges cfg engine as_of =
    (case chosen_engine engine of Inl x \<Rightarrow> Inl x | Inr eng \<Rightarrow>
      (let solves = dedupe_solves (filter_solves events as_of) in
       (case compute_challenge_values events challenges cfg (Some eng) as_of of Inl x \<Rightarrow> Inl x | Inr snapshots \<Rightarrow>
         (let values = foldl (\<lambda>d s. AList.update (vs_challenge s) s d) [] snapshots in
          (case fold_exn (award_challenge challenges cfg values) \<lparr>team_score = [], team_solved = [], team_last_solve = []\<rparr>
                  (solves_by_challenge solves) of
            Inl x \<Rightarrow> Inl x
          | Inr t \<Rightarrow> Inr \<lparr>ss_competition = cc_id cfg, ss_generated = effective_now cfg as_of,
              ss_entries = ranked (map (tally_entry t) (map fst (team_score t))),
              ss_frozen = (as_of \<noteq> None)\<rparr>)))))"

end
