(* ===== verification/Scoreboard_Facts.thy ===== *)
theory Scoreboard_Facts
  imports Scoreboard
begin

text \<open>
  The scoreboard as a function of the set of solves, and the facts about the loops of \<open>scoreboard.py\<close>
  that relate the two.
\<close>

section \<open>The reference board\<close>

definition included :: "solve_event set \<Rightarrow> instant option \<Rightarrow> solve_event set" where
  "included S as_of = {e \<in> S. case as_of of None \<Rightarrow> True | Some t \<Rightarrow> se_at e \<le> t}"

definition solves_of :: "solve_event set \<Rightarrow> string \<Rightarrow> solve_event set" where
  "solves_of S c = {e \<in> S. se_challenge e = c}"

definition solved_by :: "solve_event set \<Rightarrow> string \<Rightarrow> string set" where
  "solved_by S t = se_challenge ` {e \<in> S. se_team e = t}"

definition first_blood_team :: "solve_event set \<Rightarrow> string \<Rightarrow> string" where
  "first_blood_team S c = snd (snd (Min (solve_sort_key ` solves_of S c)))"

definition first_solve_at :: "solve_event set \<Rightarrow> string \<Rightarrow> string \<Rightarrow> instant" where
  "first_solve_at S t c = Min (se_at ` {e \<in> S. se_team e = t \<and> se_challenge e = c})"

text \<open>The worth of a challenge depends only on how many teams have solved it.\<close>

definition ref_value :: "engine \<Rightarrow> scoring_config \<Rightarrow> competition_config \<Rightarrow> instant \<Rightarrow> solve_event set \<Rightarrow> string \<Rightarrow> int" where
  "ref_value eng c cfg now S cid = py_round (challenge_value eng c (int (card (se_team ` solves_of S cid))) cfg now)"

definition ref_points :: "(string \<Rightarrow> scoring_config) \<Rightarrow> engine \<Rightarrow> competition_config \<Rightarrow> instant \<Rightarrow> solve_event set \<Rightarrow> string \<Rightarrow> string \<Rightarrow> int" where
  "ref_points conf eng cfg now S t cid = (let v = ref_value eng (conf cid) cfg now S cid; b = sc_bonus (conf cid) in
     v + (if first_blood_team S cid = t \<and> fb_enabled b
          then py_round (fl_add (fl_int (fb_points b)) (fl_div (fl_mult (fl_int v) (fb_percent b)) 100)) else 0))"

definition ref_entry :: "(string \<Rightarrow> scoring_config) \<Rightarrow> engine \<Rightarrow> competition_config \<Rightarrow> instant \<Rightarrow> solve_event set \<Rightarrow> string \<Rightarrow> scoreboard_entry" where
  "ref_entry conf eng cfg now S t = \<lparr>en_team = t, en_score = (\<Sum>c \<in> solved_by S t. ref_points conf eng cfg now S t c),
     en_count = card (solved_by S t), en_last = Some (Max (first_solve_at S t ` solved_by S t)), en_rank = 0\<rparr>"

text \<open>Higher scores first, earlier last solves before later ones, then by team.\<close>

definition ref_order :: "scoreboard_entry \<Rightarrow> int \<times> instant \<times> string" where
  "ref_order e = (- en_score e, the (en_last e), en_team e)"

definition number_from_one :: "scoreboard_entry list \<Rightarrow> scoreboard_entry list" where
  "number_from_one es = map (\<lambda>i. (es ! i)\<lparr>en_rank := Suc i\<rparr>) [0..<length es]"

definition reference_board ::
  "solve_event set \<Rightarrow> (string \<rightharpoonup> scoring_config) \<Rightarrow> competition_config \<Rightarrow> engine \<Rightarrow> instant option \<Rightarrow> scoreboard_snapshot option" where
  "reference_board events challenges cfg eng as_of =
    (let S = included events as_of; now = (case as_of of None \<Rightarrow> cc_end cfg | Some t \<Rightarrow> t) in
     if cc_default cfg = None \<and> \<not> se_challenge ` S \<subseteq> dom challenges then None
     else
       (let conf = (\<lambda>c. case challenges c of Some k \<Rightarrow> k | None \<Rightarrow> (the (cc_default cfg))\<lparr>sc_challenge := c\<rparr>) in
        Some \<lparr>ss_competition = cc_id cfg, ss_generated = now,
          ss_entries = number_from_one
            (sort_key ref_order (map (ref_entry conf eng cfg now S) (sorted_list_of_set (se_team ` S)))),
          ss_frozen = (as_of \<noteq> None)\<rparr>))"

section \<open>Dictionaries\<close>

lemma dict_get_update [simp]: "dict_get (AList.update k v d) k' w = (if k' = k then v else dict_get d k' w)"
  by (simp add: dict_get_def update_conv')

lemma traverse_Inr:
  "traverse f xs = (case find (\<lambda>x. isl (f x)) xs of Some x \<Rightarrow> Inl (projl (f x)) | None \<Rightarrow> Inr (map (\<lambda>x. projr (f x)) xs))"
  by (induction xs) (auto split: sum.splits option.splits)

lemma fold_exn_Inr:
  assumes "\<And>s x. x \<in> set xs \<Longrightarrow> f s x = Inr (g s x)"
  shows "fold_exn f s xs = Inr (foldl g s xs)"
  using assms by (induction xs arbitrary: s) simp_all

lemma foldl_concat: "foldl (\<lambda>s x. foldl f s (g x)) s xs = foldl f s (concat (map g xs))"
  by (induction xs arbitrary: s) simp_all

text \<open>A fold that groups the elements of a list under a key.\<close>

lemma grouping:
  fixes k h z
  defines "step \<equiv> (\<lambda>d e. AList.update (k e) (h (dict_get d (k e) z) e) d)"
  shows "dict_get (foldl step [] es) c z = foldl h z (filter (\<lambda>e. k e = c) es)"
    and "fst ` set (foldl step [] es) = k ` set es"
    and "distinct (map fst (foldl step [] es))"
proof (induction es rule: rev_induct)
  case Nil
  show "dict_get (foldl step [] []) c z = foldl h z (filter (\<lambda>e. k e = c) [])"
    "fst ` set (foldl step [] []) = k ` set []" "distinct (map fst (foldl step [] []))"
    by (simp_all add: dict_get_def)
next
  case (snoc e es)
  show "dict_get (foldl step [] (es @ [e])) c z = foldl h z (filter (\<lambda>e. k e = c) (es @ [e]))"
    using snoc(1) by (cases "c = k e") (simp_all add: step_def)
  show "fst ` set (foldl step [] (es @ [e])) = k ` set (es @ [e])"
    using snoc(2) by (auto simp: step_def dom_update)
  show "distinct (map fst (foldl step [] (es @ [e])))"
    using snoc(3) by (simp add: step_def distinct_update)
qed

section \<open>The canonical solves\<close>

abbreviation pair_of :: "solve_event \<Rightarrow> string \<times> string" where
  "pair_of e \<equiv> (se_team e, se_challenge e)"

definition canonical_for :: "solve_event set \<Rightarrow> solve_event list \<Rightarrow> bool" where
  "canonical_for S D \<longleftrightarrow> distinct (map pair_of D) \<and> set D \<subseteq> S \<and> pair_of ` S = pair_of ` set D
     \<and> (\<forall>e \<in> set D. \<forall>e' \<in> S. pair_of e' = pair_of e \<longrightarrow> solve_sort_key e \<le> solve_sort_key e')"

lemma dedupe_state:
  "distinct (map fst (foldl dedupe_step [] evs))
   \<and> (\<forall>k. case map_of (foldl dedupe_step [] evs) k of
         None \<Rightarrow> \<forall>e \<in> set evs. pair_of e \<noteq> k
       | Some e \<Rightarrow> e \<in> set evs \<and> pair_of e = k
           \<and> (\<forall>e' \<in> set evs. pair_of e' = k \<longrightarrow> solve_sort_key e \<le> solve_sort_key e'))"
proof (induction evs rule: rev_induct)
  case Nil
  then show ?case by simp
next
  case (snoc x evs)
  let ?d = "foldl dedupe_step [] evs" and ?d' = "foldl dedupe_step [] (evs @ [x])"
  have cur: "case map_of ?d k of None \<Rightarrow> \<forall>e \<in> set evs. pair_of e \<noteq> k
      | Some e \<Rightarrow> e \<in> set evs \<and> pair_of e = k
          \<and> (\<forall>e' \<in> set evs. pair_of e' = k \<longrightarrow> solve_sort_key e \<le> solve_sort_key e')" for k
    using snoc by blast
  have keep: "?d' = (if (\<exists>e. map_of ?d (pair_of x) = Some e \<and> solve_sort_key e \<le> solve_sort_key x) then ?d
      else AList.update (pair_of x) x ?d)"
    by (auto simp: dedupe_step_def Let_def not_less split: option.splits)
  have "case map_of ?d' k of None \<Rightarrow> \<forall>e \<in> set (evs @ [x]). pair_of e \<noteq> k
      | Some e \<Rightarrow> e \<in> set (evs @ [x]) \<and> pair_of e = k
          \<and> (\<forall>e' \<in> set (evs @ [x]). pair_of e' = k \<longrightarrow> solve_sort_key e \<le> solve_sort_key e')" for k
  proof (cases "k = pair_of x")
    case True
    note eq = True
    show ?thesis
    proof (cases "map_of ?d (pair_of x)")
      case None
      then show ?thesis using cur [of "pair_of x"] unfolding keep eq by (auto simp: update_conv')
    next
      case (Some e)
      show ?thesis
      proof (cases "solve_sort_key e \<le> solve_sort_key x")
        case True
        then show ?thesis using Some cur [of "pair_of x"] unfolding keep eq by simp
      next
        case False
        then have "solve_sort_key x \<le> solve_sort_key e" by simp
        then show ?thesis using False Some cur [of "pair_of x"] unfolding keep eq
          by (auto simp: update_conv' intro: order_trans)
      qed
    qed
  next
    case False
    then show ?thesis using cur [of k] unfolding keep by (auto simp: update_conv' split: option.splits)
  qed
  moreover have "distinct (map fst ?d')" unfolding keep using snoc by (simp add: distinct_update)
  ultimately show ?case by blast
qed

lemma dedupe_canonical: "canonical_for (set evs) (dedupe_solves evs)"
proof -
  let ?d = "foldl dedupe_step [] evs"
  note st = dedupe_state [of evs]
  have mem: "(k, e) \<in> set ?d \<longleftrightarrow> map_of ?d k = Some e" for k e using st by (simp add: map_of_eq_Some_iff)
  have fact: "e \<in> set evs \<and> pair_of e = k \<and> (\<forall>e' \<in> set evs. pair_of e' = k \<longrightarrow> solve_sort_key e \<le> solve_sort_key e')"
    if "(k, e) \<in> set ?d" for k e
    using conjunct2 [OF st, THEN spec [of _ k]] that unfolding mem by simp
  have keys: "map pair_of (map snd ?d) = map fst ?d" using fact by (auto simp: map_eq_conv)
  have "pair_of ` set evs \<subseteq> pair_of ` set (map snd ?d)"
  proof
    fix k assume "k \<in> pair_of ` set evs"
    then obtain x where x: "x \<in> set evs" "pair_of x = k" by (rule imageE) simp
    have "map_of ?d k \<noteq> None"
    proof
      assume "map_of ?d k = None"
      then have "\<forall>e \<in> set evs. pair_of e \<noteq> k" using conjunct2 [OF st, THEN spec [of _ k]] by simp
      with x show False by blast
    qed
    then obtain e where "map_of ?d k = Some e" by (auto simp only: not_None_eq)
    then have e: "(k, e) \<in> set ?d" by (simp add: mem)
    then have "e \<in> set (map snd ?d)" by force
    moreover have "k = pair_of e" using fact [OF e] by simp
    ultimately show "k \<in> pair_of ` set (map snd ?d)" by (rule rev_image_eqI)
  qed
  moreover have sub: "set (map snd ?d) \<subseteq> set evs"
  proof
    fix e assume "e \<in> set (map snd ?d)"
    then obtain k where "(k, e) \<in> set ?d" by auto
    with fact show "e \<in> set evs" by blast
  qed
  moreover have "pair_of ` set (map snd ?d) \<subseteq> pair_of ` set evs" using sub by (rule image_mono)
  moreover have "distinct (map pair_of (map snd ?d))" using st by (simp only: keys)
  moreover have "\<forall>e \<in> set (map snd ?d). \<forall>e' \<in> set evs. pair_of e' = pair_of e \<longrightarrow> solve_sort_key e \<le> solve_sort_key e'"
  proof (intro ballI impI)
    fix e e' assume "e \<in> set (map snd ?d)" and e': "e' \<in> set evs" "pair_of e' = pair_of e"
    then obtain k where "(k, e) \<in> set ?d" by auto
    from fact [OF this] e' show "solve_sort_key e \<le> solve_sort_key e'" by simp
  qed
  ultimately show ?thesis unfolding canonical_for_def dedupe_solves_def by blast
qed

lemma canonical_le:
  "canonical_for S D \<Longrightarrow> d \<in> set D \<Longrightarrow> e \<in> S \<Longrightarrow> pair_of e = pair_of d \<Longrightarrow> solve_sort_key d \<le> solve_sort_key e"
  by (simp add: canonical_for_def)

lemma canonical_team_card:
  assumes "canonical_for S D" and "finite S"
  shows "length (filter (\<lambda>e. se_challenge e = c) D) = card (se_team ` solves_of S c)"
proof -
  let ?F = "filter (\<lambda>e. se_challenge e = c) D"
  have d: "distinct (map pair_of D)" and im: "pair_of ` S = pair_of ` set D" using assms(1) by (simp_all add: canonical_for_def)
  have "distinct ?F" using d by (simp add: distinct_map)
  then have "length ?F = card (set ?F)" by (rule distinct_card [symmetric])
  also have "\<dots> = card (se_team ` set ?F)"
    using d by (intro card_image [symmetric]) (auto simp: inj_on_def distinct_map)
  also have "se_team ` set ?F = fst ` {p \<in> pair_of ` set D. snd p = c}" by force
  also have "\<dots> = se_team ` solves_of S c" unfolding im [symmetric] solves_of_def by force
  finally show ?thesis .
qed

lemma Min_covered:
  fixes A B :: "'a::linorder set"
  assumes "finite B" "A \<subseteq> B" "\<And>b. b \<in> B \<Longrightarrow> \<exists>a \<in> A. a \<le> b"
  shows "Min A = Min B"
proof (cases "B = {}")
  case False
  have f: "finite A" using assms by (auto intro: finite_subset)
  have ne: "A \<noteq> {}" using False assms(3) by blast
  obtain a where "a \<in> A" "a \<le> Min B" using assms(3) Min_in [OF assms(1) False] by blast
  then have "Min A \<le> Min B" using Min_le [OF f] by (blast intro: order_trans)
  with Min_antimono [OF assms(2) ne assms(1)] show ?thesis by simp
qed (use assms in auto)

lemma canonical_witness:
  assumes "canonical_for S D" "e \<in> S"
  obtains d where "d \<in> set D" "pair_of d = pair_of e" "solve_sort_key d \<le> solve_sort_key e"
proof -
  have "pair_of e \<in> pair_of ` set D" using assms by (auto simp: canonical_for_def)
  then obtain d where d: "pair_of e = pair_of d" "d \<in> set D" by (rule imageE)
  show thesis using that [OF d(2) d(1) [symmetric] canonical_le [OF assms(1) d(2) assms(2) d(1)]] .
qed

lemma canonical_first:
  assumes c: "canonical_for S D" and f: "finite S"
  shows "Min (solve_sort_key ` set (filter (\<lambda>e. se_challenge e = c) D)) = Min (solve_sort_key ` solves_of S c)"
proof (rule Min_covered)
  show "finite (solve_sort_key ` solves_of S c)" using f by (simp add: solves_of_def)
  show "solve_sort_key ` set (filter (\<lambda>e. se_challenge e = c) D) \<subseteq> solve_sort_key ` solves_of S c"
    using c by (auto simp: canonical_for_def solves_of_def)
  fix b assume "b \<in> solve_sort_key ` solves_of S c"
  then obtain e where e: "e \<in> S" "se_challenge e = c" "b = solve_sort_key e" by (auto simp: solves_of_def)
  obtain d where "d \<in> set D" "pair_of d = pair_of e" "solve_sort_key d \<le> solve_sort_key e"
    using canonical_witness [OF c e(1)] .
  with e show "\<exists>a \<in> solve_sort_key ` set (filter (\<lambda>e. se_challenge e = c) D). a \<le> b" by auto
qed

lemma canonical_first_at:
  assumes c: "canonical_for S D" and f: "finite S" and d: "d \<in> set D"
  shows "first_solve_at S (se_team d) (se_challenge d) = se_at d"
  unfolding first_solve_at_def
proof (rule Min_eqI)
  show "finite (se_at ` {e \<in> S. se_team e = se_team d \<and> se_challenge e = se_challenge d})" using f by simp
  show "se_at d \<in> se_at ` {e \<in> S. se_team e = se_team d \<and> se_challenge e = se_challenge d}"
    using c d by (auto simp: canonical_for_def)
  fix y assume "y \<in> se_at ` {e \<in> S. se_team e = se_team d \<and> se_challenge e = se_challenge d}"
  then obtain e where e: "e \<in> S" "pair_of e = pair_of d" "y = se_at e" by auto
  then have "solve_sort_key d \<le> solve_sort_key e" using c d by (auto simp: canonical_for_def)
  then show "se_at d \<le> y" using e by (auto simp: solve_sort_key_def)
qed

lemma canonical_solved: "canonical_for S D \<Longrightarrow> solved_by S t = se_challenge ` set (filter (\<lambda>e. se_team e = t) D)"
proof -
  assume "canonical_for S D"
  then have im: "pair_of ` S = pair_of ` set D" by (simp add: canonical_for_def)
  have "solved_by S t = snd ` {p \<in> pair_of ` S. fst p = t}" unfolding solved_by_def by force
  also have "\<dots> = se_challenge ` set (filter (\<lambda>e. se_team e = t) D)" unfolding im by force
  finally show ?thesis .
qed

section \<open>The award loop\<close>

text \<open>One award: the challenge, the points and the solve they are for.\<close>

definition award_one :: "tally \<Rightarrow> string \<times> int \<times> solve_event \<Rightarrow> tally" where
  "award_one t a = (case a of (cid, points, e) \<Rightarrow>
     \<lparr>team_score = AList.update (se_team e) (dict_get (team_score t) (se_team e) 0 + points) (team_score t),
      team_solved = AList.update (se_team e) (insert cid (dict_get (team_solved t) (se_team e) {})) (team_solved t),
      team_last_solve = (case map_of (team_last_solve t) (se_team e) of
          None \<Rightarrow> AList.update (se_team e) (se_at e) (team_last_solve t)
        | Some prev \<Rightarrow> if se_at e > prev then AList.update (se_team e) (se_at e) (team_last_solve t) else team_last_solve t)\<rparr>)"

definition points_for :: "scoring_config \<Rightarrow> int \<Rightarrow> nat \<Rightarrow> int" where
  "points_for c v index = (if index = 0 \<and> fb_enabled (sc_bonus c) then v + first_blood_bonus_amount (sc_bonus c) v else v)"

lemma award_eq: "award cid c v t (i, e) = award_one t (cid, points_for c v i, e)"
  by (simp add: award_def award_one_def points_for_def Let_def)

abbreviation no_tally :: tally where
  "no_tally \<equiv> \<lparr>team_score = [], team_solved = [], team_last_solve = []\<rparr>"

abbreviation awarded_team :: "string \<times> int \<times> solve_event \<Rightarrow> string" where
  "awarded_team a \<equiv> se_team (snd (snd a))"

lemma awards_score:
  "team_score (foldl award_one t L) =
     foldl (\<lambda>d a. AList.update (awarded_team a) (dict_get d (awarded_team a) 0 + fst (snd a)) d) (team_score t) L"
  by (induction L arbitrary: t) (auto simp: award_one_def split: prod.splits)

lemma awards_solved:
  "team_solved (foldl award_one t L) =
     foldl (\<lambda>d a. AList.update (awarded_team a) (insert (fst a) (dict_get d (awarded_team a) {})) d) (team_solved t) L"
  by (induction L arbitrary: t) (auto simp: award_one_def split: prod.splits)

lemma foldl_insert: "foldl (\<lambda>s a. insert (f a) s) A xs = A \<union> f ` set xs"
  by (induction xs arbitrary: A) auto

lemma foldl_plus: "foldl (\<lambda>s a. s + f a) (n :: int) xs = n + sum_list (map f xs)"
  by (induction xs arbitrary: n) simp_all

lemma awards_last:
  "map_of (team_last_solve (foldl award_one no_tally L)) t =
     (let A = {a \<in> set L. awarded_team a = t} in if A = {} then None else Some (Max ((\<lambda>a. se_at (snd (snd a))) ` A)))"
proof (induction L rule: rev_induct)
  case Nil
  then show ?case by simp
next
  case (snoc x L)
  obtain c p e where x: "x = (c, p, e)" by (cases x)
  let ?A = "{a \<in> set L. awarded_team a = t}" and ?f = "\<lambda>a :: string \<times> int \<times> solve_event. se_at (snd (snd a))"
  have set: "{a \<in> set (L @ [x]). awarded_team a = t} = (if se_team e = t then insert x ?A else ?A)"
    by (auto simp: x)
  have max: "Max (?f ` insert x ?A) = max (se_at e) (Max (?f ` ?A))" if "?A \<noteq> {}"
    using that by (simp add: x)
  have step: "map_of (team_last_solve (foldl award_one no_tally (L @ [x]))) t =
      (if se_team e \<noteq> t then map_of (team_last_solve (foldl award_one no_tally L)) t
       else case map_of (team_last_solve (foldl award_one no_tally L)) t of
          None \<Rightarrow> Some (se_at e) | Some prev \<Rightarrow> Some (max (se_at e) prev))"
    by (simp add: x award_one_def update_conv' split: option.split)
  show ?case
  proof (cases "se_team e = t")
    case False
    then show ?thesis using snoc by (simp only: step set if_False not_False_eq_True if_True simp_thms)
  next
    case True
    then show ?thesis
      by (cases "?A = {}") (simp_all only: step snoc set Let_def max True, simp_all add: x)
  qed
qed

end
