(* ===== verification/Scoreboard_Theorems.thy ===== *)
theory Scoreboard_Theorems
  imports Scoreboard_Facts "HOL-Library.Multiset"
begin

text \<open>
  The loops of \<open>compute_scoreboard\<close> put together: the board they build is the reference board of the
  set of solves, whatever the order and the repetitions of the list.
\<close>

section \<open>The groups and their awards\<close>

lemma groups:
  assumes "(c, es) \<in> set (solves_by_challenge D)"
  shows "es = filter (\<lambda>e. se_challenge e = c) D" and "c \<in> se_challenge ` set D"
proof -
  have eq: "solves_by_challenge D = foldl (\<lambda>d e. AList.update (se_challenge e) ((\<lambda>s e. s @ [e]) (dict_get d (se_challenge e) []) e) d) [] D"
    by (simp add: solves_by_challenge_def)
  note g = grouping [where k = se_challenge and h = "\<lambda>s e. s @ [e]" and z = "[]" and es = D, folded eq]
  have app: "foldl (\<lambda>s e. s @ [e]) acc xs = acc @ xs" for acc and xs :: "solve_event list"
    by (induction xs arbitrary: acc) simp_all
  have "map_of (solves_by_challenge D) c = Some es" using assms g(3) by (simp add: map_of_eq_Some_iff)
  then show "es = filter (\<lambda>e. se_challenge e = c) D" using g(1) [of c] by (simp add: dict_get_def app)
  show "c \<in> se_challenge ` set D" using assms g(2) by force
qed

lemma groups_all:
  shows "fst ` set (solves_by_challenge D) = se_challenge ` set D" and "distinct (map fst (solves_by_challenge D))"
proof -
  have eq: "solves_by_challenge D = foldl (\<lambda>d e. AList.update (se_challenge e) ((\<lambda>s e. s @ [e]) (dict_get d (se_challenge e) []) e) d) [] D"
    by (simp add: solves_by_challenge_def)
  note g = grouping [where k = se_challenge and h = "\<lambda>s e. s @ [e]" and z = "[]" and es = D, folded eq]
  show "fst ` set (solves_by_challenge D) = se_challenge ` set D" "distinct (map fst (solves_by_challenge D))"
    using g by simp_all
qed

definition in_award_order :: "solve_event list \<Rightarrow> solve_event list" where
  "in_award_order D = concat (map (\<lambda>(c, es). sort_key solve_sort_key es) (solves_by_challenge D))"

lemma set_in_award_order: "set (in_award_order D) = set D"
proof
  show "set (in_award_order D) \<subseteq> set D"
  proof
    fix e assume "e \<in> set (in_award_order D)"
    then obtain c es where g: "(c, es) \<in> set (solves_by_challenge D)" "e \<in> set es" by (auto simp: in_award_order_def)
    from groups(1) [OF g(1)] g(2) show "e \<in> set D" by simp
  qed
  show "set D \<subseteq> set (in_award_order D)"
  proof
    fix e assume e: "e \<in> set D"
    then have "se_challenge e \<in> fst ` set (solves_by_challenge D)" by (simp add: groups_all)
    then obtain es where g: "(se_challenge e, es) \<in> set (solves_by_challenge D)" by force
    from groups(1) [OF g] e have "e \<in> set es" by simp
    with g show "e \<in> set (in_award_order D)" by (force simp: in_award_order_def)
  qed
qed

lemma distinct_groups:
  assumes "distinct (map fst G)" and "\<And>c es. (c, es) \<in> set G \<Longrightarrow> distinct es \<and> (\<forall>e \<in> set es. se_challenge e = c)"
  shows "distinct (concat (map (\<lambda>(c, es). sort_key solve_sort_key es) G))"
  using assms
proof (induction G)
  case (Cons g G)
  obtain c es where g: "g = (c, es)" by (cases g)
  have "set es \<inter> set (concat (map (\<lambda>(c, es). sort_key solve_sort_key es) G)) = {}"
  proof (rule ccontr)
    assume "\<not> ?thesis"
    then obtain e c' es' where e: "e \<in> set es" "(c', es') \<in> set G" "e \<in> set es'" by auto
    have "se_challenge e = c" "se_challenge e = c'" using Cons.prems(2) g e by auto
    with Cons.prems(1) e(2) show False by (force simp: g)
  qed
  moreover have "distinct (concat (map (\<lambda>(c, es). sort_key solve_sort_key es) G))"
    using Cons.prems by (intro Cons.IH) auto
  moreover have "distinct es" using Cons.prems(2) by (auto simp: g)
  ultimately show ?case by (simp add: g distinct_sort)
qed simp

lemma distinct_in_award_order: "distinct D \<Longrightarrow> distinct (in_award_order D)"
  unfolding in_award_order_def by (rule distinct_groups [OF groups_all(2)]) (auto dest!: groups(1))

text \<open>In a group sorted by its key, the first element alone has the least key.\<close>

lemma first_in_group:
  assumes inj: "inj_on solve_sort_key (set es)" and d: "distinct es" and i: "i < length es"
  shows "i = 0 \<longleftrightarrow> solve_sort_key (sort_key solve_sort_key es ! i) = Min (solve_sort_key ` set es)"
proof -
  let ?xs = "sort_key solve_sort_key es"
  have len: "length ?xs = length es" by simp
  have p: "0 < length ?xs" using i len by linarith
  have "Min (solve_sort_key ` set es) = solve_sort_key (?xs ! 0)"
  proof (rule Min_eqI)
    show "finite (solve_sort_key ` set es)" by simp
    have "?xs ! 0 \<in> set ?xs" using i len by (intro nth_mem) linarith
    then show "solve_sort_key (?xs ! 0) \<in> solve_sort_key ` set es" by simp
    fix y assume "y \<in> solve_sort_key ` set es"
    then have "y \<in> set (map solve_sort_key ?xs)" by simp
    then obtain j where j: "j < length ?xs" "y = map solve_sort_key ?xs ! j" unfolding in_set_conv_nth by auto
    have "map solve_sort_key ?xs ! 0 \<le> map solve_sort_key ?xs ! j"
      by (rule sorted_nth_mono) (use j in \<open>simp_all add: sorted_sort_key\<close>)
    then show "solve_sort_key (?xs ! 0) \<le> y" using j nth_map [OF p, of solve_sort_key] by simp
  qed
  moreover have "solve_sort_key (?xs ! i) = solve_sort_key (?xs ! 0) \<longleftrightarrow> ?xs ! i = ?xs ! 0"
  proof -
    have "?xs ! i \<in> set es" "?xs ! 0 \<in> set es"
      using nth_mem [of i ?xs] nth_mem [OF p] i len by auto
    then show ?thesis using inj by (auto simp: inj_on_def)
  qed
  moreover have "?xs ! i = ?xs ! 0 \<longleftrightarrow> i = 0"
    using d i len by (intro nth_eq_iff_index_eq) (auto simp: distinct_sort)
  ultimately show ?thesis by metis
qed

section \<open>The tally of a list of canonical solves\<close>

lemma canonical_distinct: "canonical_for S D \<Longrightarrow> distinct D"
  by (simp add: canonical_for_def distinct_map)

lemma canonical_inj: "canonical_for S D \<Longrightarrow> inj_on se_challenge (set (filter (\<lambda>e. se_team e = t) D))"
  by (auto simp: canonical_for_def distinct_map inj_on_def)

lemma award_fun: "award cid c v = (\<lambda>t x. award_one t (cid, points_for c v (fst x), snd x))"
  by (auto simp: fun_eq_iff award_eq)

lemma group_awards:
  assumes c: "canonical_for S D" and f: "finite S" and g: "(cid, es) \<in> set (solves_by_challenge D)"
  shows "foldl (award cid (conf cid) (ref_value eng (conf cid) cfg now S cid)) t (enumerate 0 (sort_key solve_sort_key es))
    = foldl award_one t (map (\<lambda>e. (se_challenge e, ref_points conf eng cfg now S (se_team e) (se_challenge e), e))
        (sort_key solve_sort_key es))"
proof -
  let ?xs = "sort_key solve_sort_key es" and ?v = "ref_value eng (conf cid) cfg now S cid"
  note es = groups(1) [OF g]
  have inj: "inj_on solve_sort_key (set es)"
    using c by (auto simp: es canonical_for_def distinct_map inj_on_def solve_sort_key_def)
  have d: "distinct es" using canonical_distinct [OF c] by (simp add: es)
  have min: "Min (solve_sort_key ` set es) = Min (solve_sort_key ` solves_of S cid)"
    using canonical_first [OF c f] by (simp only: es)
  have in_es: "?xs ! i \<in> set es" if "i < length es" for i
    using nth_mem [of i ?xs] that by simp
  have pts: "points_for (conf cid) ?v i = ref_points conf eng cfg now S (se_team (?xs ! i)) cid" if i: "i < length es" for i
  proof -
    have "Min (solve_sort_key ` set es) \<in> solve_sort_key ` set es" using i by (intro Min_in) auto
    then obtain m where m: "m \<in> set es" "Min (solve_sort_key ` set es) = solve_sort_key m" by auto
    have "first_blood_team S cid = se_team m"
      unfolding first_blood_team_def min [symmetric] m(2) by (simp add: solve_sort_key_def)
    moreover have "se_team m = se_team (?xs ! i) \<longleftrightarrow> m = ?xs ! i"
      using m(1) in_es [OF i] c by (auto simp: es canonical_for_def distinct_map inj_on_def)
    moreover have "m = ?xs ! i \<longleftrightarrow> solve_sort_key (?xs ! i) = solve_sort_key m"
      using inj m(1) in_es [OF i] by (auto simp: inj_on_def)
    ultimately have "first_blood_team S cid = se_team (?xs ! i) \<longleftrightarrow> i = 0"
      using first_in_group [OF inj d i] m(2) by simp
    then show ?thesis by (simp add: ref_points_def points_for_def Let_def first_blood_bonus_amount_def)
  qed
  have "foldl (award cid (conf cid) ?v) t (enumerate 0 ?xs)
      = foldl award_one t (map (\<lambda>(i, e). (cid, points_for (conf cid) ?v i, e)) (enumerate 0 ?xs))"
    by (simp add: foldl_map award_fun case_prod_unfold)
  also have "map (\<lambda>(i, e). (cid, points_for (conf cid) ?v i, e)) (enumerate 0 ?xs)
      = map (\<lambda>e. (se_challenge e, ref_points conf eng cfg now S (se_team e) (se_challenge e), e)) ?xs"
    using in_es by (intro nth_equalityI) (auto simp: nth_enumerate_eq pts es)
  finally show ?thesis .
qed

lemma all_awards:
  assumes "canonical_for S D" and "finite S"
  shows "foldl (\<lambda>t (cid, es). foldl (award cid (conf cid) (ref_value eng (conf cid) cfg now S cid)) t
            (enumerate 0 (sort_key solve_sort_key es))) t (solves_by_challenge D)
    = foldl award_one t (map (\<lambda>e. (se_challenge e, ref_points conf eng cfg now S (se_team e) (se_challenge e), e))
        (in_award_order D))"
proof -
  let ?g = "\<lambda>e. (se_challenge e, ref_points conf eng cfg now S (se_team e) (se_challenge e), e)"
  have "foldl (\<lambda>t (cid, es). foldl (award cid (conf cid) (ref_value eng (conf cid) cfg now S cid)) t
            (enumerate 0 (sort_key solve_sort_key es))) t (solves_by_challenge D)
      = foldl (\<lambda>t ce. foldl award_one t (map ?g (sort_key solve_sort_key (snd ce)))) t (solves_by_challenge D)"
    by (rule foldl_cong) (auto simp: group_awards [OF assms])
  also have "\<dots> = foldl award_one t (concat (map (\<lambda>ce. map ?g (sort_key solve_sort_key (snd ce))) (solves_by_challenge D)))"
    by (rule foldl_concat)
  also have "concat (map (\<lambda>ce. map ?g (sort_key solve_sort_key (snd ce))) (solves_by_challenge D)) = map ?g (in_award_order D)"
    by (simp add: in_award_order_def map_concat case_prod_unfold comp_def)
  finally show ?thesis .
qed

lemma tally_result:
  fixes conf eng cfg now S D
  defines "T \<equiv> foldl award_one no_tally
    (map (\<lambda>e. (se_challenge e, ref_points conf eng cfg now S (se_team e) (se_challenge e), e)) (in_award_order D))"
  assumes c: "canonical_for S D" and f: "finite S"
  shows "distinct (map fst (team_score T))" and "fst ` set (team_score T) = se_team ` S"
    and "t \<in> se_team ` S \<Longrightarrow> tally_entry T t = ref_entry conf eng cfg now S t"
proof -
  let ?g = "\<lambda>e. (se_challenge e, ref_points conf eng cfg now S (se_team e) (se_challenge e), e)"
  let ?E = "in_award_order D" and ?Dt = "\<lambda>t. set (filter (\<lambda>e. se_team e = t) D)"
  note E = set_in_award_order [of D]
  have score_eq: "team_score T = foldl (\<lambda>d a. AList.update (awarded_team a) ((\<lambda>s a. s + fst (snd a)) (dict_get d (awarded_team a) 0) a) d) [] (map ?g ?E)"
    by (simp only: T_def awards_score tally.simps)
  have solved_eq: "team_solved T = foldl (\<lambda>d a. AList.update (awarded_team a) ((\<lambda>s a. insert (fst a) s) (dict_get d (awarded_team a) {}) a) d) [] (map ?g ?E)"
    by (simp only: T_def awards_solved tally.simps)
  note gs = grouping [where k = awarded_team and h = "\<lambda>s a. s + fst (snd a)" and z = "0 :: int" and es = "map ?g ?E", folded score_eq]
  note gv = grouping [where k = awarded_team and h = "\<lambda>s a. insert (fst a) s" and z = "{} :: string set" and es = "map ?g ?E", folded solved_eq]
  show "distinct (map fst (team_score T))" by (rule gs(3))
  have teams: "se_team ` S = se_team ` set D"
  proof -
    have im: "pair_of ` S = pair_of ` set D" using c by (simp add: canonical_for_def)
    have "se_team ` S = fst ` (pair_of ` S)" by (simp add: image_image)
    also have "\<dots> = se_team ` set D" unfolding im by (simp add: image_image)
    finally show ?thesis .
  qed
  show "fst ` set (team_score T) = se_team ` S" unfolding gs(2) teams by (force simp: E)
  have flt: "filter (\<lambda>a. awarded_team a = t) (map ?g ?E) = map ?g (filter (\<lambda>e. se_team e = t) ?E)" for t
    by (simp add: filter_map comp_def)
  have score: "dict_get (team_score T) t 0 = (\<Sum>c \<in> solved_by S t. ref_points conf eng cfg now S t c)" for t
  proof -
    have "dict_get (team_score T) t 0 = sum_list (map (\<lambda>e. ref_points conf eng cfg now S (se_team e) (se_challenge e)) (filter (\<lambda>e. se_team e = t) ?E))"
      by (simp add: gs(1) flt foldl_plus comp_def)
    also have "\<dots> = (\<Sum>e \<in> ?Dt t. ref_points conf eng cfg now S (se_team e) (se_challenge e))"
      using distinct_in_award_order [OF canonical_distinct [OF c]]
      by (subst sum_list_distinct_conv_sum_set) (simp_all add: E)
    also have "\<dots> = (\<Sum>e \<in> ?Dt t. ref_points conf eng cfg now S t (se_challenge e))"
      by (rule sum.cong) auto
    also have "\<dots> = (\<Sum>c \<in> solved_by S t. ref_points conf eng cfg now S t c)"
      unfolding canonical_solved [OF c] by (subst sum.reindex [OF canonical_inj [OF c]]) simp
    finally show ?thesis .
  qed
  have solved: "dict_get (team_solved T) t {} = solved_by S t" for t
    unfolding gv(1) flt foldl_insert canonical_solved [OF c] by (force simp: E)
  have last: "map_of (team_last_solve T) t = Some (Max (first_solve_at S t ` solved_by S t))" if t: "t \<in> se_team ` S" for t
  proof -
    have A: "{a \<in> set (map ?g ?E). awarded_team a = t} = ?g ` ?Dt t" by (auto simp: E)
    have "first_solve_at S t ` solved_by S t = se_at ` ?Dt t"
      unfolding canonical_solved [OF c] image_image
      by (rule image_cong) (use canonical_first_at [OF c f] in auto)
    moreover have "?Dt t \<noteq> {}" using t by (auto simp: teams)
    ultimately show ?thesis by (simp only: T_def awards_last A) (simp add: Let_def image_image)
  qed
  show "tally_entry T t = ref_entry conf eng cfg now S t" if "t \<in> se_team ` S"
    using last [OF that] by (simp add: tally_entry_def ref_entry_def score solved)
qed

section \<open>The board\<close>

lemma resolves:
  "resolve_challenge_config cid challenges cfg =
     (if map_of challenges cid = None \<and> cc_default cfg = None then Inl KeyError
      else Inr (case map_of challenges cid of Some k \<Rightarrow> k | None \<Rightarrow> (the (cc_default cfg))\<lparr>sc_challenge := cid\<rparr>))"
  by (simp add: resolve_challenge_config_def split: option.split)

lemma solve_counts_eq:
  shows "dict_get (solve_counts D) c 0 = int (length (filter (\<lambda>e. se_challenge e = c) D))"
    and "fst ` set (solve_counts D) = se_challenge ` set D"
proof -
  have eq: "solve_counts D = foldl (\<lambda>d e. AList.update (se_challenge e) ((\<lambda>s e. s + 1) (dict_get d (se_challenge e) 0) e) d) [] D"
    by (simp add: solve_counts_def)
  note g = grouping [where k = se_challenge and h = "\<lambda>s e. s + 1" and z = "0 :: int" and es = D, folded eq]
  show "dict_get (solve_counts D) c 0 = int (length (filter (\<lambda>e. se_challenge e = c) D))"
    by (simp add: g(1) foldl_plus [where f = "\<lambda>_. 1", simplified] sum_list_triv)
  show "fst ` set (solve_counts D) = se_challenge ` set D" by (rule g(2))
qed

lemma indexed_by:
  "map_of (foldl (\<lambda>d s. AList.update (vs_challenge s) s d) [] (map snap cids)) c
    = (if c \<in> set cids then Some (snap c) else None)"
  if "\<And>c. vs_challenge (snap c) = c"
  by (induction cids rule: rev_induct) (auto simp: that update_conv')

lemma ranked_eq: "ranked es = number_from_one (sort_key entry_rank_key es)"
  unfolding ranked_def number_from_one_def by (rule nth_equalityI) (auto simp: nth_enumerate_eq)

lemma rank_sorted:
  assumes "mset xs = mset ys" and "inj_on en_team (set xs)" and "\<forall>e \<in> set xs. en_last e \<noteq> None"
  shows "sort_key entry_rank_key xs = sort_key ref_order ys"
proof (rule sort_key_inj_key_eq)
  show "mset xs = mset (sort_key ref_order ys)" using assms(1) by simp
  show "inj_on entry_rank_key (set xs)" using assms(2) by (auto simp: inj_on_def entry_rank_key_def)
  let ?g = "\<lambda>(a :: int, b :: instant, c :: string). (a, False, b, c)"
  have mono: "?g p \<le> ?g q" if "p \<le> q" for p q using that by (cases p; cases q) auto
  have set: "set ys = set xs" using assms(1) mset_eq_setD by metis
  have "map entry_rank_key (sort_key ref_order ys) = map ?g (map ref_order (sort_key ref_order ys))"
    using assms(3) by (auto simp: set entry_rank_key_def ref_order_def)
  moreover have "sorted (map ?g (map ref_order (sort_key ref_order ys)))"
    by (intro sorted_map_mono [of _ ?g] mono_onI mono) (simp add: sorted_sort_key)
  ultimately show "sorted (map entry_rank_key (sort_key ref_order ys))" by (simp only:)
qed

lemma traverse_if:
  "traverse (\<lambda>x. if P x then Inl err else Inr (g x)) xs = (if \<exists>x \<in> set xs. P x then Inl err else Inr (map g xs))"
  by (induction xs) auto

section \<open>The theorem\<close>

lemma compute_scoreboard_eq:
  "compute_scoreboard events challenges cfg engine as_of =
    (case reference_board (set events) (map_of challenges) cfg (case engine of None \<Rightarrow> TimeDecay | Some e \<Rightarrow> e) as_of of
       None \<Rightarrow> Inl KeyError | Some board \<Rightarrow> Inr board)"
proof -
  define eng where "eng = (case engine of None \<Rightarrow> TimeDecay | Some e \<Rightarrow> e)"
  define S where "S = included (set events) as_of"
  define D where "D = dedupe_solves (filter_solves events as_of)"
  define now where "now = effective_now cfg as_of"
  define conf where "conf = (\<lambda>c. case map_of challenges c of Some k \<Rightarrow> k | None \<Rightarrow> (the (cc_default cfg))\<lparr>sc_challenge := c\<rparr>)"
  define cids where "cids = sort (remdups (map fst challenges @ map fst (solve_counts D)))"
  define snap where "snap = (\<lambda>c. \<lparr>vs_challenge = c, vs_value = ref_value eng (conf c) cfg now S c,
     vs_count = int (card (se_team ` solves_of S c)), vs_at = now\<rparr>)"
  have "set (filter_solves events as_of) = S"
    by (auto simp: filter_solves_def S_def included_def split: option.splits)
  then have c: "canonical_for S D" and f: "finite S"
    using dedupe_canonical [of "filter_solves events as_of"] by (auto simp: D_def)
  have chal: "se_challenge ` S = se_challenge ` set D"
  proof -
    have im: "pair_of ` S = pair_of ` set D" using c by (simp add: canonical_for_def)
    have "se_challenge ` S = snd ` (pair_of ` S)" by (simp add: image_image)
    also have "\<dots> = se_challenge ` set D" unfolding im by (simp add: image_image)
    finally show ?thesis .
  qed
  have cids: "set cids = fst ` set challenges \<union> se_challenge ` S"
    by (simp add: cids_def solve_counts_eq chal)
  have eng: "chosen_engine engine = Inr eng" "chosen_engine (Some eng) = Inr eng"
    by (simp_all add: chosen_engine_def eng_def get_scoring_engine_def scoring_engines_def split: option.split)
  have count: "dict_get (solve_counts D) cid 0 = int (card (se_team ` solves_of S cid))" for cid
    by (simp add: solve_counts_eq canonical_team_card [OF c f])
  define bad where "bad \<longleftrightarrow> cc_default cfg = None \<and> \<not> se_challenge ` S \<subseteq> dom (map_of challenges)"
  have vals: "compute_challenge_values events challenges cfg (Some eng) as_of
      = traverse (\<lambda>cid. if map_of challenges cid = None \<and> cc_default cfg = None then Inl KeyError else Inr (snap cid)) cids"
    unfolding compute_challenge_values_def eng Let_def D_def [symmetric] now_def [symmetric] cids_def [symmetric] resolves count
    by (auto simp: snap_def ref_value_def conf_def intro!: arg_cong [where f = "\<lambda>g. traverse g cids"])
  have bad_iff: "bad \<longleftrightarrow> (\<exists>cid \<in> set cids. map_of challenges cid = None \<and> cc_default cfg = None)"
    unfolding bad_def cids by (auto simp: map_of_eq_None_iff dom_map_of_conv_image_fst)
  have conf_ok: "resolve_challenge_config cid challenges cfg = Inr (conf cid)" if "\<not> bad" "cid \<in> set cids" for cid
    using that by (auto simp: bad_iff resolves conf_def)
  define vs where "vs = foldl (\<lambda>d s. AList.update (vs_challenge s) s d) [] (map snap cids)"
  have vs: "map_of vs cid = Some (snap cid)" if "cid \<in> set cids" for cid
    using that indexed_by [of snap cids cid] by (simp add: vs_def snap_def)
  define T where "T = foldl award_one no_tally
    (map (\<lambda>e. (se_challenge e, ref_points conf eng cfg now S (se_team e) (se_challenge e), e)) (in_award_order D))"
  have fold: "fold_exn (award_challenge challenges cfg vs) no_tally (solves_by_challenge D) = Inr T" if "\<not> bad"
  proof -
    have ac: "award_challenge challenges cfg vs t ce
        = Inr (case ce of (cid, es) \<Rightarrow> foldl (award cid (conf cid) (ref_value eng (conf cid) cfg now S cid)) t
            (enumerate 0 (sort_key solve_sort_key es)))"
      if "ce \<in> set (solves_by_challenge D)" for t ce
    proof -
      obtain cid es where ce: "ce = (cid, es)" by (cases ce)
      have "cid \<in> set cids" using that groups(2) [of cid es D] by (simp add: ce cids chal)
      then show ?thesis using conf_ok [OF \<open>\<not> bad\<close>, of cid] vs [of cid]
        by (simp add: ce award_challenge_def snap_def)
    qed
    show ?thesis
      by (subst fold_exn_Inr [where g = "\<lambda>t (cid, es). foldl (award cid (conf cid) (ref_value eng (conf cid) cfg now S cid)) t
            (enumerate 0 (sort_key solve_sort_key es))"]) (simp_all add: ac T_def all_awards [OF c f])
  qed
  note T = tally_result [where conf = conf and eng = eng and cfg = cfg and now = now, OF c f, folded T_def]
  let ?es = "map (tally_entry T) (map fst (team_score T))"
  let ?rs = "map (ref_entry conf eng cfg now S) (sorted_list_of_set (se_team ` S))"
  have "mset (map fst (team_score T)) = mset (sorted_list_of_set (se_team ` S))"
    using T(1,2) f by (intro set_eq_iff_mset_eq_distinct [THEN iffD1]) auto
  then have "mset (map (tally_entry T) (map fst (team_score T))) = mset (map (tally_entry T) (sorted_list_of_set (se_team ` S)))"
    by (simp only: mset_map [of "tally_entry T"])
  also have "map (tally_entry T) (sorted_list_of_set (se_team ` S)) = ?rs" using T(3) f by auto
  finally have ms: "mset ?es = mset ?rs" .
  have keys: "inj_on en_team (set ?es)" "\<forall>e \<in> set ?es. en_last e \<noteq> None"
  proof -
    have es: "set ?es = tally_entry T ` se_team ` S" by (simp add: T(2) [symmetric] image_image)
    show "inj_on en_team (set ?es)" unfolding es by (auto simp: inj_on_def tally_entry_def)
    show "\<forall>e \<in> set ?es. en_last e \<noteq> None" unfolding es using T(3) by (auto simp: ref_entry_def)
  qed
  note board = rank_sorted [OF ms keys]
  have score: "compute_scoreboard events challenges cfg engine as_of = (if bad then Inl KeyError else
      Inr \<lparr>ss_competition = cc_id cfg, ss_generated = now, ss_entries = number_from_one (sort_key ref_order ?rs),
        ss_frozen = (as_of \<noteq> None)\<rparr>)"
    unfolding compute_scoreboard_def Let_def eng sum.case D_def [symmetric] vals traverse_if bad_iff [symmetric]
    using fold board [unfolded map_map] by (simp add: vs_def [symmetric] ranked_eq now_def [symmetric])
  have now: "now = (case as_of of None \<Rightarrow> cc_end cfg | Some t \<Rightarrow> t)" by (simp add: now_def effective_now_def)
  show ?thesis
    unfolding score reference_board_def Let_def eng_def [symmetric] S_def [symmetric] now [symmetric] bad_def conf_def [symmetric]
    by simp
qed

text \<open>
  C21. The scoreboard is a function of the set of solves: whatever the order of the list, and however
  often a solve is repeated, the loops of \<open>compute_scoreboard\<close> build the reference board, in which a
  challenge is worth what its engine says for the number of distinct teams that solved it, every team
  has that worth once per challenge, the team with the least (time, submission, team) has the first-blood
  bonus, the last solve of a team is the latest of its first solves, and ranks follow score, last solve
  and team; the only error is a solved challenge without a configuration when there is no default.
\<close>

theorem scoreboard_matches_reference:
  "compute_scoreboard events challenges cfg engine as_of =
    (case reference_board (set events) (map_of challenges) cfg (case engine of None \<Rightarrow> TimeDecay | Some e \<Rightarrow> e) as_of of
       None \<Rightarrow> Inl KeyError | Some board \<Rightarrow> Inr board)"
  by (rule compute_scoreboard_eq)

end
