(* ===== verification/Authoring_Models.thy ===== *)
theory Authoring_Models
  imports Scoring_Engine Py_Json
begin

text \<open>
  The value types of \<open>domain/authoring/models.py\<close> (definitions, versions, builds, publications) and
  the team of \<open>domain/identity/models.py\<close>, with the checks of their constructors. Documents (a spec, a
  build manifest) are JSON objects.
\<close>

section \<open>Teams\<close>

record team =
  tm_competition :: string
  tm_name :: string

definition team_post_init :: "team \<Rightarrow> exn + unit" where
  "team_post_init t = (if \<not> nonempty (tm_competition t) \<or> \<not> nonempty (tm_name t) then Inl ValueError else Inr ())"

section \<open>Definitions\<close>

record challenge_definition =
  df_family :: string
  df_slug :: string
  df_title :: string

definition definition_post_init :: "challenge_definition \<Rightarrow> exn + unit" where
  "definition_post_init d =
     (if \<not> nonempty (df_family d) then Inl ValueError
      else if \<not> nonempty (df_slug d) then Inl ValueError
      else if \<not> nonempty (df_title d) then Inl ValueError else Inr ())"

section \<open>Versions\<close>

datatype version_state = Draft | Published | Archived

record challenge_version =
  cv_definition :: string
  cv_no :: int
  cv_state :: version_state
  cv_family_version :: string
  cv_seed :: string
  cv_sha :: string
  cv_spec :: "(string \<times> json) list"
  cv_spec_version :: string
  cv_mode :: string
  cv_cves :: "string list"
  cv_cve_hash :: "string option"
  cv_published_at :: "instant option"

definition version_post_init :: "challenge_version \<Rightarrow> exn + unit" where
  "version_post_init v =
     (if \<not> nonempty (cv_definition v) then Inl ValueError
      else if cv_no v < 1 then Inl ValueError
      else if \<not> nonempty (cv_family_version v) then Inl ValueError
      else if \<not> nonempty (cv_seed v) then Inl ValueError
      else if \<not> nonempty (cv_sha v) then Inl ValueError
      else if \<not> nonempty (cv_spec_version v) then Inl ValueError
      else if \<not> nonempty (cv_mode v) then Inl ValueError
      else if (cv_state v = Draft) \<noteq> (cv_published_at v = None) then Inl ValueError
      else Inr ())"

section \<open>Builds\<close>

record challenge_build =
  cb_sha :: string
  cb_definition :: string
  cb_no :: int
  cb_family :: string
  cb_seed :: string
  cb_spec_sha :: string
  cb_generator :: string
  cb_manifest :: "(string \<times> json) list"
  cb_family_version :: "string option"
  cb_storage :: "string option"

definition build_post_init :: "challenge_build \<Rightarrow> exn + unit" where
  "build_post_init b =
     (if \<not> nonempty (cb_sha b) then Inl ValueError
      else if \<not> nonempty (cb_definition b) then Inl ValueError
      else if cb_no b < 1 then Inl ValueError
      else if \<not> nonempty (cb_family b) then Inl ValueError
      else if \<not> nonempty (cb_seed b) then Inl ValueError
      else if \<not> nonempty (cb_spec_sha b) then Inl ValueError
      else if \<not> nonempty (cb_generator b) then Inl ValueError
      else Inr ())"

section \<open>Publications\<close>

record publication =
  pb_competition :: string
  pb_definition :: string
  pb_no :: int
  pb_initial :: int
  pb_minimum :: int
  pb_function :: string
  pb_decay :: int
  pb_first_blood :: bool
  pb_points :: int
  pb_percent :: rat

definition valid_decay_functions :: "string list" where
  "valid_decay_functions = [''static'', ''linear'', ''logarithmic'']"

definition publication_post_init :: "publication \<Rightarrow> exn + unit" where
  "publication_post_init p =
     (if \<not> nonempty (pb_competition p) then Inl ValueError
      else if \<not> nonempty (pb_definition p) then Inl ValueError
      else if pb_no p < 1 then Inl ValueError
      else if pb_function p \<notin> set valid_decay_functions then Inl ValueError
      else if pb_initial p < 0 then Inl ValueError
      else if pb_minimum p > pb_initial p then Inl ValueError
      else if pb_decay p < 0 then Inl ValueError
      else if pb_points p < 0 then Inl ValueError
      else if pb_percent p < 0 then Inl ValueError
      else Inr ())"

lemmas authoring_post_inits =
  team_post_init_def definition_post_init_def version_post_init_def build_post_init_def publication_post_init_def

text \<open>Constructing a value runs its checks; a list is constructed element by element.\<close>

definition construct :: "('d \<Rightarrow> exn + unit) \<Rightarrow> 'd \<Rightarrow> ('s, 'd) tx" where
  "construct post x = (case post x of Inl e \<Rightarrow> tx_raise e | Inr _ \<Rightarrow> tx_ret x)"

fun construct_all :: "('d \<Rightarrow> exn + unit) \<Rightarrow> 'd list \<Rightarrow> ('s, 'd list) tx" where
  "construct_all post [] = tx_ret []"
| "construct_all post (x # xs) =
     tx_bind (construct post x) (\<lambda>y. tx_bind (construct_all post xs) (\<lambda>ys. tx_ret (y # ys)))"

lemma construct_iff [tx_simps]: "construct post x s = Inr r \<longleftrightarrow> post x = Inr () \<and> r = (x, s)"
  by (auto simp: construct_def tx_simps split: sum.splits)

lemma construct_raises: "construct post x s = Inl e \<longleftrightarrow> post x = Inl e"
  by (auto simp: construct_def tx_raise_def split: sum.splits)

lemma construct_all_iff [tx_simps]:
  "construct_all post xs s = Inr r \<longleftrightarrow> (\<forall>x \<in> set xs. post x = Inr ()) \<and> r = (xs, s)"
  by (induction xs arbitrary: r) (auto simp: tx_simps)

lemma construct_keeps [keeps_intro]: "tx_keeps P (construct post x)" "tx_keeps P (construct_all post xs)"
  by (auto simp: tx_keeps_def tx_simps)

end
