(* ===== verification/Authoring_Store.thy ===== *)
theory Authoring_Store
  imports Authoring_Models Catalog
begin

text \<open>
  The catalogue's tables (migrations 0002, 0003 and 0004) and their repositories: competitions, teams,
  challenge definitions, versions, builds and publications. Surrogate uuids are the business keys; a
  foreign key is the parent's key. The freeze trigger runs where a version row is updated.
\<close>

section \<open>Tables\<close>

record competition_row =
  cpr_slug :: string
  cpr_name :: string
  cpr_start :: instant
  cpr_end :: instant
  cpr_scoring_start :: "instant option"
  cpr_freeze :: "instant option"
  cpr_status :: string

record team_row =
  tr_competition :: string
  tr_name :: string

record definition_row =
  dr_slug :: string
  dr_family :: string
  dr_title :: string

record version_row =
  vr_definition :: string
  vr_no :: int
  vr_state :: version_state
  vr_family_version :: string
  vr_seed :: string
  vr_mode :: string
  vr_sha :: string
  vr_spec :: "(string \<times> json) list"
  vr_cves :: "string list option"
  vr_cve_hash :: "string option"
  vr_spec_version :: string
  vr_published_at :: "instant option"
  vr_archived_at :: "instant option"

record build_row =
  br_sha :: string
  br_version :: "string \<times> int"
  br_family :: string
  br_seed :: string
  br_family_version :: "string option"
  br_spec_sha :: string
  br_generator :: string
  br_manifest :: "(string \<times> json) list"
  br_storage :: "string option"

record publication_row =
  pr_competition :: string
  pr_version :: "string \<times> int"
  pr_initial :: int
  pr_minimum :: int
  pr_function :: string
  pr_decay :: int
  pr_first_blood :: bool
  pr_points :: int
  pr_percent :: rat

record authdb =
  ad_competitions :: "competition_row list"
  ad_teams :: "team_row list"
  ad_definitions :: "definition_row list"
  ad_versions :: "version_row list"
  ad_builds :: "build_row list"
  ad_publications :: "publication_row list"

definition version_key :: "version_row \<Rightarrow> string \<times> int" where
  "version_key r = (vr_definition r, vr_no r)"

definition team_key :: "team_row \<Rightarrow> string \<times> string" where
  "team_key r = (tr_competition r, tr_name r)"

definition publication_key :: "publication_row \<Rightarrow> string \<times> string \<times> int" where
  "publication_key r = (pr_competition r, pr_version r)"

text \<open>An \<open>integer\<close> column holds 32 bits; the driver reports an overflow as \<open>DataError\<close>.\<close>

definition int_column :: "int \<Rightarrow> bool" where
  "int_column n \<longleftrightarrow> - (2 ^ 31) \<le> n \<and> n < 2 ^ 31"

text \<open>The first violated unique key of a row about to be inserted.\<close>

fun first_taken :: "(string \<times> bool) list \<Rightarrow> string option" where
  "first_taken [] = None"
| "first_taken ((name, taken) # ks) = (if taken then Some name else first_taken ks)"

definition unique_keys :: "(string \<times> bool) list \<Rightarrow> ('s, unit) tx" where
  "unique_keys ks = (case first_taken ks of None \<Rightarrow> tx_ret () | Some k \<Rightarrow> tx_raise (IntegrityError k))"

section \<open>Competitions\<close>

text \<open>The CHECK constraints of \<open>competitions\<close>, in the order of their names.\<close>

definition competition_check :: "competition_row \<Rightarrow> string option" where
  "competition_check r = first_taken
     [(''ck_competitions_end_after_start'', \<not> cpr_start r < cpr_end r),
      (''ck_competitions_freeze_within_bounds'',
         \<not> (case cpr_freeze r of None \<Rightarrow> True | Some f \<Rightarrow> cpr_start r \<le> f \<and> f \<le> cpr_end r)),
      (''ck_competitions_name_non_empty'', cpr_name r = '''')]"

definition competition_to_orm :: "competition_config \<Rightarrow> competition_row option \<Rightarrow> exn + competition_row" where
  "competition_to_orm c existing =
     (if cc_default c \<noteq> None then Inl NotImplementedError
      else (case existing of
          None \<Rightarrow> Inr \<lparr>cpr_slug = cc_id c, cpr_name = cc_name c, cpr_start = cc_start c, cpr_end = cc_end c,
            cpr_scoring_start = cc_scoring_start c, cpr_freeze = cc_freeze c, cpr_status = ''draft''\<rparr>
        | Some r \<Rightarrow> Inr (r\<lparr>cpr_name := cc_name c, cpr_start := cc_start c, cpr_end := cc_end c,
            cpr_scoring_start := cc_scoring_start c, cpr_freeze := cc_freeze c\<rparr>)))"

definition competition_from_orm :: "competition_row \<Rightarrow> competition_config" where
  "competition_from_orm r = \<lparr>cc_id = cpr_slug r, cc_name = cpr_name r, cc_start = cpr_start r, cc_end = cpr_end r,
     cc_scoring_start = cpr_scoring_start r, cc_freeze = cpr_freeze r, cc_default = None\<rparr>"

definition tx_sum :: "exn + 'a \<Rightarrow> ('s, 'a) tx" where
  "tx_sum x = (case x of Inl e \<Rightarrow> tx_raise e | Inr v \<Rightarrow> tx_ret v)"

definition checked_row :: "string option \<Rightarrow> ('s, unit) tx" where
  "checked_row violated = (case violated of None \<Rightarrow> tx_ret () | Some k \<Rightarrow> tx_raise (IntegrityError k))"

definition competition_add :: "competition_config \<Rightarrow> (authdb, unit) tx" where
  "competition_add c = tx_bind (tx_sum (competition_to_orm c None)) (\<lambda>r.
     tx_bind (checked_row (competition_check r)) (\<lambda>_.
     tx_bind (tx_get ad_competitions) (\<lambda>rows.
     tx_bind (unique_keys [(''uq_competitions_slug'', cpr_slug r \<in> cpr_slug ` set rows)]) (\<lambda>_.
     tx_modify (\<lambda>db. db\<lparr>ad_competitions := ad_competitions db @ [r]\<rparr>)))))"

definition competition_get :: "string \<Rightarrow> (authdb, competition_config option) tx" where
  "competition_get slug = tx_get (\<lambda>db. map_option competition_from_orm (find_row cpr_slug slug (ad_competitions db)))"

definition competition_list :: "(authdb, competition_config list) tx" where
  "competition_list = tx_get (\<lambda>db. map competition_from_orm (ad_competitions db))"

definition competition_update :: "competition_config \<Rightarrow> (authdb, unit) tx" where
  "competition_update c = tx_bind (tx_get (\<lambda>db. find_row cpr_slug (cc_id c) (ad_competitions db))) (\<lambda>found.
     tx_bind (tx_some LookupError found) (\<lambda>row.
     tx_bind (tx_sum (competition_to_orm c (Some row))) (\<lambda>r.
     tx_bind (checked_row (competition_check r)) (\<lambda>_.
     tx_modify (\<lambda>db. db\<lparr>ad_competitions := put_row cpr_slug r (ad_competitions db)\<rparr>)))))"

definition competition_id_of :: "string \<Rightarrow> (authdb, string) tx" where
  "competition_id_of slug = tx_bind (tx_get (\<lambda>db. find_row cpr_slug slug (ad_competitions db))) (\<lambda>found.
     tx_bind (tx_some LookupError found) (\<lambda>r. tx_ret (cpr_slug r)))"

section \<open>Teams\<close>

definition team_from_orm :: "team_row \<Rightarrow> string \<Rightarrow> team" where
  "team_from_orm r slug = \<lparr>tm_competition = slug, tm_name = tr_name r\<rparr>"

definition team_add :: "team \<Rightarrow> (authdb, unit) tx" where
  "team_add t = tx_bind (competition_id_of (tm_competition t)) (\<lambda>c.
     tx_bind (tx_get ad_teams) (\<lambda>rows.
     tx_bind (unique_keys [(''uq_teams_competition_id_name'', (c, tm_name t) \<in> team_key ` set rows)]) (\<lambda>_.
     tx_modify (\<lambda>db. db\<lparr>ad_teams := ad_teams db @ [\<lparr>tr_competition = c, tr_name = tm_name t\<rparr>]\<rparr>))))"

definition team_get :: "string \<Rightarrow> string \<Rightarrow> (authdb, team option) tx" where
  "team_get slug name = tx_bind (tx_get (\<lambda>db. find_row team_key (slug, name) (ad_teams db))) (\<lambda>found.
     (case found of None \<Rightarrow> tx_ret None
      | Some r \<Rightarrow> tx_bind (construct team_post_init (team_from_orm r slug)) (\<lambda>t. tx_ret (Some t))))"

definition team_list_for_competition :: "string \<Rightarrow> (authdb, team list) tx" where
  "team_list_for_competition slug = tx_bind (tx_get (\<lambda>db. filter (\<lambda>r. tr_competition r = slug) (ad_teams db))) (\<lambda>rows.
     construct_all team_post_init (map (\<lambda>r. team_from_orm r slug) rows))"

section \<open>Challenge definitions\<close>

definition challenge_definition_to_orm :: "challenge_definition \<Rightarrow> definition_row option \<Rightarrow> definition_row" where
  "challenge_definition_to_orm d existing = (case existing of
      None \<Rightarrow> \<lparr>dr_slug = df_slug d, dr_family = df_family d, dr_title = df_title d\<rparr>
    | Some r \<Rightarrow> r\<lparr>dr_title := df_title d\<rparr>)"

definition challenge_definition_from_orm :: "definition_row \<Rightarrow> challenge_definition" where
  "challenge_definition_from_orm r = \<lparr>df_family = dr_family r, df_slug = dr_slug r, df_title = dr_title r\<rparr>"

definition definition_add :: "challenge_definition \<Rightarrow> (authdb, unit) tx" where
  "definition_add d = tx_bind (tx_get ad_definitions) (\<lambda>rows.
     tx_bind (unique_keys [(''uq_challenge_definitions_slug'', df_slug d \<in> dr_slug ` set rows)]) (\<lambda>_.
     tx_modify (\<lambda>db. db\<lparr>ad_definitions := ad_definitions db @ [challenge_definition_to_orm d None]\<rparr>)))"

definition definition_get :: "string \<Rightarrow> (authdb, challenge_definition option) tx" where
  "definition_get slug = tx_bind (tx_get (\<lambda>db. find_row dr_slug slug (ad_definitions db))) (\<lambda>found.
     (case found of None \<Rightarrow> tx_ret None
      | Some r \<Rightarrow> tx_bind (construct definition_post_init (challenge_definition_from_orm r)) (\<lambda>d. tx_ret (Some d))))"

definition definition_list :: "(authdb, challenge_definition list) tx" where
  "definition_list = tx_bind (tx_get ad_definitions) (\<lambda>rows.
     construct_all definition_post_init (map challenge_definition_from_orm rows))"

definition definition_update :: "challenge_definition \<Rightarrow> (authdb, unit) tx" where
  "definition_update d = tx_bind (tx_get (\<lambda>db. find_row dr_slug (df_slug d) (ad_definitions db))) (\<lambda>found.
     tx_bind (tx_some LookupError found) (\<lambda>r.
     tx_modify (\<lambda>db. db\<lparr>ad_definitions := put_row dr_slug (challenge_definition_to_orm d (Some r)) (ad_definitions db)\<rparr>)))"

definition definition_uuid :: "string \<Rightarrow> (authdb, string) tx" where
  "definition_uuid slug = tx_bind (tx_get (\<lambda>db. find_row dr_slug slug (ad_definitions db))) (\<lambda>found.
     tx_bind (tx_some LookupError found) (\<lambda>r. tx_ret (dr_slug r)))"

section \<open>Challenge versions\<close>

definition challenge_version_to_orm :: "challenge_version \<Rightarrow> string \<Rightarrow> version_row" where
  "challenge_version_to_orm v d = \<lparr>vr_definition = d, vr_no = cv_no v, vr_state = cv_state v,
     vr_family_version = cv_family_version v, vr_seed = cv_seed v, vr_mode = cv_mode v, vr_sha = cv_sha v,
     vr_spec = cv_spec v, vr_cves = (if cv_cves v = [] then None else Some (cv_cves v)), vr_cve_hash = cv_cve_hash v,
     vr_spec_version = cv_spec_version v, vr_published_at = cv_published_at v, vr_archived_at = None\<rparr>"

definition challenge_version_from_orm :: "version_row \<Rightarrow> string \<Rightarrow> challenge_version" where
  "challenge_version_from_orm r d = \<lparr>cv_definition = d, cv_no = vr_no r, cv_state = vr_state r,
     cv_family_version = vr_family_version r, cv_seed = vr_seed r, cv_sha = vr_sha r, cv_spec = vr_spec r,
     cv_spec_version = vr_spec_version r, cv_mode = vr_mode r,
     cv_cves = (case vr_cves r of None \<Rightarrow> [] | Some cs \<Rightarrow> cs), cv_cve_hash = vr_cve_hash r,
     cv_published_at = vr_published_at r\<rparr>"

text \<open>\<open>freeze_published_version\<close>: whether the BEFORE UPDATE trigger lets a row change.\<close>

definition freeze_published_version :: "version_row \<Rightarrow> version_row \<Rightarrow> bool" where
  "freeze_published_version old new \<longleftrightarrow>
     (vr_state old \<in> {Published, Archived} \<longrightarrow>
       \<not> (vr_state old = Archived \<and> vr_state new \<noteq> Archived)
       \<and> vr_state new \<in> {Published, Archived}
       \<and> vr_definition new = vr_definition old \<and> vr_no new = vr_no old
       \<and> vr_family_version new = vr_family_version old \<and> vr_seed new = vr_seed old
       \<and> vr_mode new = vr_mode old \<and> vr_sha new = vr_sha old \<and> vr_spec new = vr_spec old
       \<and> vr_cves new = vr_cves old \<and> vr_cve_hash new = vr_cve_hash old
       \<and> vr_spec_version new = vr_spec_version old \<and> vr_published_at new = vr_published_at old)"

definition version_check :: "version_row \<Rightarrow> string option" where
  "version_check r = first_taken
     [(''ck_challenge_versions_published_state_consistent'', (vr_state r = Draft) \<noteq> (vr_published_at r = None)),
      (''ck_challenge_versions_version_no_positive'', vr_no r < 1)]"

definition flush_version :: "version_row \<Rightarrow> (authdb, unit) tx" where
  "flush_version new = tx_bind (tx_get (\<lambda>db. find_row version_key (version_key new) (ad_versions db))) (\<lambda>found.
     (case found of None \<Rightarrow> tx_ret ()
      | Some old \<Rightarrow>
          if old = new then tx_ret ()
          else tx_bind (tx_guard (freeze_published_version old new) ProgrammingError) (\<lambda>_.
            tx_bind (checked_row (version_check new)) (\<lambda>_.
            tx_modify (\<lambda>db. db\<lparr>ad_versions := put_row version_key new (ad_versions db)\<rparr>)))))"

definition version_add :: "challenge_version \<Rightarrow> (authdb, unit) tx" where
  "version_add v = tx_bind (definition_uuid (cv_definition v)) (\<lambda>d.
     let r = challenge_version_to_orm v d in
     tx_bind (tx_guard (int_column (vr_no r)) DataError) (\<lambda>_.
     tx_bind (checked_row (version_check r)) (\<lambda>_.
     tx_bind (tx_get ad_versions) (\<lambda>rows.
     tx_bind (unique_keys
       [(''uq_challenge_versions_definition_id_version_no'', version_key r \<in> version_key ` set rows),
        (''uq_challenge_versions_definition_id_spec_sha256'', (d, vr_sha r) \<in> (\<lambda>x. (vr_definition x, vr_sha x)) ` set rows)]) (\<lambda>_.
     tx_modify (\<lambda>db. db\<lparr>ad_versions := ad_versions db @ [r]\<rparr>))))))"

definition read_version :: "version_row option \<Rightarrow> string \<Rightarrow> (authdb, challenge_version option) tx" where
  "read_version found d = (case found of None \<Rightarrow> tx_ret None
     | Some r \<Rightarrow> tx_bind (construct version_post_init (challenge_version_from_orm r d)) (\<lambda>v. tx_ret (Some v)))"

definition version_get :: "string \<Rightarrow> int \<Rightarrow> (authdb, challenge_version option) tx" where
  "version_get d no = tx_bind (tx_get (\<lambda>db. find_row version_key (d, no) (ad_versions db))) (\<lambda>found. read_version found d)"

definition version_get_by_spec :: "string \<Rightarrow> string \<Rightarrow> (authdb, challenge_version option) tx" where
  "version_get_by_spec d sha = tx_bind (tx_get (\<lambda>db. find_row (\<lambda>r. (vr_definition r, vr_sha r)) (d, sha) (ad_versions db)))
     (\<lambda>found. read_version found d)"

definition version_list_for_definition :: "string \<Rightarrow> (authdb, challenge_version list) tx" where
  "version_list_for_definition d =
     tx_bind (tx_get (\<lambda>db. sort_key vr_no (filter (\<lambda>r. vr_definition r = d) (ad_versions db)))) (\<lambda>rows.
     construct_all version_post_init (map (\<lambda>r. challenge_version_from_orm r d) rows))"

definition version_publish :: "string \<Rightarrow> int \<Rightarrow> instant option \<Rightarrow> (authdb, unit) tx" where
  "version_publish d no moment = tx_bind (tx_some ValueError moment) (\<lambda>t.
     tx_bind (tx_get (\<lambda>db. find_row version_key (d, no) (ad_versions db))) (\<lambda>found.
     tx_bind (tx_some LookupError found) (\<lambda>r.
     tx_bind (tx_guard (vr_state r = Draft) ValueError) (\<lambda>_.
     flush_version (r\<lparr>vr_state := Published, vr_published_at := Some t\<rparr>)))))"

definition version_archive :: "string \<Rightarrow> int \<Rightarrow> instant option \<Rightarrow> (authdb, unit) tx" where
  "version_archive d no moment = tx_bind (tx_some ValueError moment) (\<lambda>t.
     tx_bind (tx_get (\<lambda>db. find_row version_key (d, no) (ad_versions db))) (\<lambda>found.
     tx_bind (tx_some LookupError found) (\<lambda>r.
     tx_bind (tx_guard (vr_state r = Published) ValueError) (\<lambda>_.
     flush_version (r\<lparr>vr_state := Archived, vr_archived_at := Some t\<rparr>)))))"

section \<open>Builds\<close>

definition challenge_build_to_orm :: "challenge_build \<Rightarrow> string \<times> int \<Rightarrow> build_row" where
  "challenge_build_to_orm b v = \<lparr>br_sha = cb_sha b, br_version = v, br_family = cb_family b, br_seed = cb_seed b,
     br_family_version = cb_family_version b, br_spec_sha = cb_spec_sha b, br_generator = cb_generator b,
     br_manifest = cb_manifest b, br_storage = cb_storage b\<rparr>"

definition challenge_build_from_orm :: "build_row \<Rightarrow> string \<Rightarrow> int \<Rightarrow> challenge_build" where
  "challenge_build_from_orm r d no = \<lparr>cb_sha = br_sha r, cb_definition = d, cb_no = no, cb_family = br_family r,
     cb_seed = br_seed r, cb_spec_sha = br_spec_sha r, cb_generator = br_generator r, cb_manifest = br_manifest r,
     cb_family_version = br_family_version r, cb_storage = br_storage r\<rparr>"

definition version_uuid_and_sha :: "string \<Rightarrow> int \<Rightarrow> (authdb, (string \<times> int) \<times> string) tx" where
  "version_uuid_and_sha d no = tx_bind (tx_get (\<lambda>db. find_row version_key (d, no) (ad_versions db))) (\<lambda>found.
     tx_bind (tx_some LookupError found) (\<lambda>r. tx_ret (version_key r, vr_sha r)))"

text \<open>One build per version, toolchain and seed; an absent family version collides like a value.\<close>

definition toolchain_key :: "build_row \<Rightarrow> (string \<times> int) \<times> string option \<times> string \<times> string" where
  "toolchain_key r = (br_version r, br_family_version r, br_generator r, br_seed r)"

definition build_add :: "challenge_build \<Rightarrow> (authdb, unit) tx" where
  "build_add b = tx_bind (version_uuid_and_sha (cb_definition b) (cb_no b)) (\<lambda>vs.
     tx_bind (tx_guard (cb_spec_sha b = snd vs) ValueError) (\<lambda>_.
     let r = challenge_build_to_orm b (fst vs) in
     tx_bind (tx_get ad_builds) (\<lambda>rows.
     tx_bind (unique_keys
       [(''pk_challenge_builds'', br_sha r \<in> br_sha ` set rows),
        (''uq_challenge_builds_version_toolchain_seed'', toolchain_key r \<in> toolchain_key ` set rows)]) (\<lambda>_.
     tx_modify (\<lambda>db. db\<lparr>ad_builds := ad_builds db @ [r]\<rparr>)))))"

definition build_get :: "string \<Rightarrow> (authdb, challenge_build option) tx" where
  "build_get sha = tx_bind (tx_get (\<lambda>db. find_row br_sha sha (ad_builds db))) (\<lambda>found.
     (case found of None \<Rightarrow> tx_ret None
      | Some r \<Rightarrow> tx_bind (construct build_post_init (challenge_build_from_orm r (fst (br_version r)) (snd (br_version r))))
          (\<lambda>b. tx_ret (Some b))))"

definition build_list_for_version :: "string \<Rightarrow> int \<Rightarrow> (authdb, challenge_build list) tx" where
  "build_list_for_version d no = tx_bind (tx_get (\<lambda>db. filter (\<lambda>r. br_version r = (d, no)) (ad_builds db))) (\<lambda>rows.
     construct_all build_post_init (map (\<lambda>r. challenge_build_from_orm r d no) rows))"

section \<open>Publications\<close>

definition challenge_publication_to_orm ::
  "publication \<Rightarrow> string \<Rightarrow> string \<times> int \<Rightarrow> publication_row option \<Rightarrow> publication_row" where
  "challenge_publication_to_orm p c v existing = (case existing of
      None \<Rightarrow> \<lparr>pr_competition = c, pr_version = v, pr_initial = pb_initial p, pr_minimum = pb_minimum p,
        pr_function = pb_function p, pr_decay = pb_decay p, pr_first_blood = pb_first_blood p,
        pr_points = pb_points p, pr_percent = pb_percent p\<rparr>
    | Some r \<Rightarrow> r\<lparr>pr_initial := pb_initial p, pr_minimum := pb_minimum p, pr_function := pb_function p,
        pr_decay := pb_decay p, pr_first_blood := pb_first_blood p, pr_points := pb_points p,
        pr_percent := pb_percent p\<rparr>)"

definition challenge_publication_from_orm :: "publication_row \<Rightarrow> string \<Rightarrow> string \<Rightarrow> int \<Rightarrow> publication" where
  "challenge_publication_from_orm r c d no = \<lparr>pb_competition = c, pb_definition = d, pb_no = no,
     pb_initial = pr_initial r, pb_minimum = pr_minimum r, pb_function = pr_function r, pb_decay = pr_decay r,
     pb_first_blood = pr_first_blood r, pb_points = pr_points r, pb_percent = pr_percent r\<rparr>"

text \<open>What the columns and the CHECK constraints of \<open>competition_challenges\<close> admit.\<close>

definition publication_columns :: "publication_row \<Rightarrow> bool" where
  "publication_columns r \<longleftrightarrow>
     int_column (pr_initial r) \<and> int_column (pr_minimum r) \<and> int_column (pr_decay r) \<and> int_column (pr_points r)"

definition publication_check :: "publication_row \<Rightarrow> string option" where
  "publication_check r = first_taken
     [(''ck_competition_challenges_decay_function_valid'', pr_function r \<notin> set valid_decay_functions),
      (''ck_competition_challenges_decay_non_negative'', pr_decay r < 0),
      (''ck_competition_challenges_first_blood_percent_non_negative'', pr_percent r < 0),
      (''ck_competition_challenges_first_blood_points_non_negative'', pr_points r < 0),
      (''ck_competition_challenges_initial_value_non_negative'', pr_initial r < 0),
      (''ck_competition_challenges_minimum_le_initial'', pr_initial r < pr_minimum r)]"

definition version_uuid_and_state :: "string \<Rightarrow> int \<Rightarrow> (authdb, (string \<times> int) \<times> version_state) tx" where
  "version_uuid_and_state d no = tx_bind (tx_get (\<lambda>db. find_row version_key (d, no) (ad_versions db))) (\<lambda>found.
     tx_bind (tx_some LookupError found) (\<lambda>r. tx_ret (version_key r, vr_state r)))"

definition publication_add :: "publication \<Rightarrow> (authdb, unit) tx" where
  "publication_add p = tx_bind (competition_id_of (pb_competition p)) (\<lambda>c.
     tx_bind (version_uuid_and_state (pb_definition p) (pb_no p)) (\<lambda>vs.
     tx_bind (tx_guard (snd vs = Published) ValueError) (\<lambda>_.
     let r = challenge_publication_to_orm p c (fst vs) None in
     tx_bind (tx_guard (publication_columns r) DataError) (\<lambda>_.
     tx_bind (checked_row (publication_check r)) (\<lambda>_.
     tx_bind (tx_get ad_publications) (\<lambda>rows.
     tx_bind (unique_keys [(''uq_competition_challenges_competition_id_challenge_version_id'',
         publication_key r \<in> publication_key ` set rows)]) (\<lambda>_.
     tx_modify (\<lambda>db. db\<lparr>ad_publications := ad_publications db @ [r]\<rparr>))))))))"

definition publication_get :: "string \<Rightarrow> string \<Rightarrow> int \<Rightarrow> (authdb, publication option) tx" where
  "publication_get c d no = tx_bind (tx_get (\<lambda>db. find_row publication_key (c, d, no) (ad_publications db))) (\<lambda>found.
     (case found of None \<Rightarrow> tx_ret None
      | Some r \<Rightarrow> tx_bind (construct publication_post_init (challenge_publication_from_orm r c d no)) (\<lambda>p. tx_ret (Some p))))"

definition publication_list_for_competition :: "string \<Rightarrow> (authdb, publication list) tx" where
  "publication_list_for_competition c =
     tx_bind (tx_get (\<lambda>db. filter (\<lambda>r. pr_competition r = c) (ad_publications db))) (\<lambda>rows.
     construct_all publication_post_init
       (map (\<lambda>r. challenge_publication_from_orm r c (fst (pr_version r)) (snd (pr_version r))) rows))"

definition publication_remove :: "string \<Rightarrow> string \<Rightarrow> int \<Rightarrow> (authdb, bool) tx" where
  "publication_remove slug d no = tx_bind (competition_id_of slug) (\<lambda>c.
     tx_bind (version_uuid_and_state d no) (\<lambda>vs.
     tx_bind (tx_get (\<lambda>db. find_row publication_key (c, fst vs) (ad_publications db))) (\<lambda>found.
     (case found of None \<Rightarrow> tx_ret False
      | Some r \<Rightarrow> tx_bind (tx_modify (\<lambda>db. db\<lparr>ad_publications :=
            filter (\<lambda>x. publication_key x \<noteq> publication_key r) (ad_publications db)\<rparr>)) (\<lambda>_. tx_ret True)))))"

definition publication_update :: "publication \<Rightarrow> (authdb, unit) tx" where
  "publication_update p = tx_bind (competition_id_of (pb_competition p)) (\<lambda>c.
     tx_bind (version_uuid_and_state (pb_definition p) (pb_no p)) (\<lambda>vs.
     tx_bind (tx_get (\<lambda>db. find_row publication_key (c, fst vs) (ad_publications db))) (\<lambda>found.
     tx_bind (tx_some LookupError found) (\<lambda>row.
     let r = challenge_publication_to_orm p c (fst vs) (Some row) in
     tx_bind (tx_guard (publication_columns r) DataError) (\<lambda>_.
     tx_bind (checked_row (publication_check r)) (\<lambda>_.
     tx_modify (\<lambda>db. db\<lparr>ad_publications := put_row publication_key r (ad_publications db)\<rparr>)))))))"

end
