(* ===== verification/Authoring_Service.thy ===== *)
theory Authoring_Service
  imports Authoring_Store
begin

text \<open>
  The catalogue services of \<open>application/catalog\<close>: each public method of the competition, team,
  definition, version and publication services is one unit of work over the repositories. The optional
  guard of an update sees the stored value and may raise.
\<close>

section \<open>Competitions and teams\<close>

definition validate_window :: "competition_config \<Rightarrow> exn + unit" where
  "validate_window c =
    (let problems = (if cc_end c \<le> cc_start c then [''end_time''] else [])
       @ (case cc_scoring_start c of None \<Rightarrow> []
          | Some t \<Rightarrow> if cc_start c \<le> t \<and> t \<le> cc_end c then [] else [''scoring_start_time''])
       @ (case cc_freeze c of None \<Rightarrow> []
          | Some t \<Rightarrow> if cc_start c \<le> t \<and> t \<le> cc_end c then [] else [''freeze_time''])
     in if problems = [] then Inr () else Inl (CompetitionWindowError problems))"

text \<open>\<open>assert stored is not None\<close> after a write in the same unit of work.\<close>

definition svc_of_sum :: "exn + unit \<Rightarrow> ('s, unit) svc" where
  "svc_of_sum x = (case x of Inl e \<Rightarrow> svc_raise e | Inr _ \<Rightarrow> svc_ret ())"

definition run_guard :: "('a \<Rightarrow> exn + unit) option \<Rightarrow> 'a \<Rightarrow> ('s, unit) tx" where
  "run_guard guard current = (case guard of None \<Rightarrow> tx_ret () | Some g \<Rightarrow> tx_sum (g current))"

definition create_competition :: "competition_config \<Rightarrow> (authdb, competition_config option) svc" where
  "create_competition c = svc_bind (svc_of_sum (validate_window c)) (\<lambda>_.
     session_scope (tx_bind (competition_add c) (\<lambda>_. competition_get (cc_id c))))"

definition update_competition ::
  "competition_config \<Rightarrow> (competition_config \<Rightarrow> exn + unit) option \<Rightarrow> (authdb, competition_config option) svc" where
  "update_competition c guard = svc_bind (svc_of_sum (validate_window c)) (\<lambda>_.
     session_scope (tx_bind (competition_get (cc_id c)) (\<lambda>found.
       tx_bind (tx_some LookupError found) (\<lambda>current.
       tx_bind (run_guard guard current) (\<lambda>_.
       tx_bind (competition_update c) (\<lambda>_. competition_get (cc_id c)))))))"

definition get_competition :: "string \<Rightarrow> (authdb, competition_config option) svc" where
  "get_competition slug = session_scope (competition_get slug)"

definition list_competitions :: "(authdb, competition_config list) svc" where
  "list_competitions = session_scope competition_list"

definition create_team :: "team \<Rightarrow> (authdb, team option) svc" where
  "create_team t = session_scope (tx_bind (team_add t) (\<lambda>_. team_get (tm_competition t) (tm_name t)))"

definition get_team :: "string \<Rightarrow> string \<Rightarrow> (authdb, team option) svc" where
  "get_team slug name = session_scope (team_get slug name)"

definition list_teams :: "string \<Rightarrow> (authdb, team list) svc" where
  "list_teams slug = session_scope (team_list_for_competition slug)"

section \<open>Definitions and versions\<close>

definition create_definition :: "challenge_definition \<Rightarrow> (authdb, challenge_definition option) svc" where
  "create_definition d = session_scope (tx_bind (definition_add d) (\<lambda>_. definition_get (df_slug d)))"

definition get_definition :: "string \<Rightarrow> (authdb, challenge_definition option) svc" where
  "get_definition slug = session_scope (definition_get slug)"

definition list_definitions :: "(authdb, challenge_definition list) svc" where
  "list_definitions = session_scope definition_list"

definition update_definition ::
  "challenge_definition \<Rightarrow> (challenge_definition \<Rightarrow> exn + unit) option \<Rightarrow> (authdb, challenge_definition option) svc" where
  "update_definition d guard = session_scope (tx_bind (definition_get (df_slug d)) (\<lambda>found.
     tx_bind (tx_some LookupError found) (\<lambda>current.
     tx_bind (run_guard guard current) (\<lambda>_.
     tx_bind (definition_update d) (\<lambda>_. definition_get (df_slug d))))))"

definition spec_content_hash :: "(string \<times> json) list \<Rightarrow> string" where
  "spec_content_hash spec = sha256_hex (json_dumps (JObj spec))"

text \<open>The arguments of \<open>create_draft\<close>.\<close>

record draft_request =
  dq_definition :: string
  dq_seed :: string
  dq_family_version :: string
  dq_spec :: "(string \<times> json) list"
  dq_spec_version :: "string option"
  dq_mode :: string
  dq_cves :: "string list"
  dq_cve_hash :: "string option"

definition current_spec_version :: string where
  "current_spec_version = ''1.1''"

definition next_version_no :: "challenge_version list \<Rightarrow> int" where
  "next_version_no existing = (if existing = [] then 0 else Max (cv_no ` set existing)) + 1"

definition draft_of :: "draft_request \<Rightarrow> int \<Rightarrow> challenge_version" where
  "draft_of q no = \<lparr>cv_definition = dq_definition q, cv_no = no, cv_state = Draft,
     cv_family_version = dq_family_version q, cv_seed = dq_seed q, cv_sha = spec_content_hash (dq_spec q),
     cv_spec = dq_spec q,
     cv_spec_version = (case dq_spec_version q of Some s \<Rightarrow> if s = '''' then current_spec_version else s
       | None \<Rightarrow> current_spec_version),
     cv_mode = dq_mode q, cv_cves = dq_cves q, cv_cve_hash = dq_cve_hash q, cv_published_at = None\<rparr>"

definition create_draft :: "draft_request \<Rightarrow> (authdb, challenge_version option) svc" where
  "create_draft q = session_scope (tx_bind (version_list_for_definition (dq_definition q)) (\<lambda>existing.
     let no = next_version_no existing in
     tx_bind (construct version_post_init (draft_of q no)) (\<lambda>v.
     tx_bind (version_add v) (\<lambda>_. version_get (dq_definition q) no))))"

definition get_version :: "string \<Rightarrow> int \<Rightarrow> (authdb, challenge_version option) svc" where
  "get_version d no = session_scope (version_get d no)"

definition list_versions :: "string \<Rightarrow> (authdb, challenge_version list) svc" where
  "list_versions d = session_scope (version_list_for_definition d)"

definition publish_version ::
  "string \<Rightarrow> int \<Rightarrow> instant \<Rightarrow> (challenge_version \<Rightarrow> exn + unit) option \<Rightarrow> (authdb, challenge_version option) svc" where
  "publish_version d no now guard = session_scope (tx_bind (version_get d no) (\<lambda>found.
     tx_bind (tx_some LookupError found) (\<lambda>current.
     tx_bind (run_guard guard current) (\<lambda>_.
     tx_bind (version_publish d no (Some now)) (\<lambda>_. version_get d no)))))"

section \<open>Publications\<close>

definition attach_publication :: "publication \<Rightarrow> (authdb, publication option) svc" where
  "attach_publication p = session_scope (tx_bind (publication_add p) (\<lambda>_.
     publication_get (pb_competition p) (pb_definition p) (pb_no p)))"

definition get_publication :: "string \<Rightarrow> string \<Rightarrow> int \<Rightarrow> (authdb, publication option) svc" where
  "get_publication c d no = session_scope (publication_get c d no)"

definition list_publications :: "string \<Rightarrow> (authdb, publication list) svc" where
  "list_publications c = session_scope (publication_list_for_competition c)"

definition detach_publication :: "string \<Rightarrow> string \<Rightarrow> int \<Rightarrow> (authdb, unit) svc" where
  "detach_publication c d no = svc_bind (session_scope (publication_remove c d no)) (\<lambda>removed.
     if removed then svc_ret () else svc_raise LookupError)"

end
