(* ===== verification/Authoring_Inv.thy ===== *)
theory Authoring_Inv
  imports Authoring_Service
begin

text \<open>
  The catalogue's invariant, the calls that change the catalogue and the proof that each of them keeps
  the invariant.
\<close>

section \<open>The invariant\<close>

definition version_nos :: "authdb \<Rightarrow> string \<Rightarrow> int set" where
  "version_nos db d = vr_no ` {r \<in> set (ad_versions db). vr_definition r = d}"

definition competitions_ok :: "authdb \<Rightarrow> bool" where
  "competitions_ok db \<longleftrightarrow> distinct (map cpr_slug (ad_competitions db))
     \<and> (\<forall>r \<in> set (ad_competitions db). validate_window (competition_from_orm r) = Inr () \<and> cpr_name r \<noteq> '''')"

definition teams_ok :: "authdb \<Rightarrow> bool" where
  "teams_ok db \<longleftrightarrow> distinct (map team_key (ad_teams db))
     \<and> (\<forall>r \<in> set (ad_teams db). tr_competition r \<in> cpr_slug ` set (ad_competitions db)
          \<and> team_post_init (team_from_orm r (tr_competition r)) = Inr ())"

definition definitions_ok :: "authdb \<Rightarrow> bool" where
  "definitions_ok db \<longleftrightarrow> distinct (map dr_slug (ad_definitions db))
     \<and> (\<forall>r \<in> set (ad_definitions db). definition_post_init (challenge_definition_from_orm r) = Inr ())"

text \<open>The numbers of a definition's versions are \<open>1, 2, \<dots>\<close> without a gap.\<close>

definition versions_ok :: "authdb \<Rightarrow> bool" where
  "versions_ok db \<longleftrightarrow> distinct (map version_key (ad_versions db))
     \<and> distinct (map (\<lambda>r. (vr_definition r, vr_sha r)) (ad_versions db))
     \<and> (\<forall>r \<in> set (ad_versions db). vr_definition r \<in> dr_slug ` set (ad_definitions db)
          \<and> version_post_init (challenge_version_from_orm r (vr_definition r)) = Inr ()
          \<and> vr_sha r = spec_content_hash (vr_spec r) \<and> int_column (vr_no r)
          \<and> ((vr_state r = Archived) = (vr_archived_at r \<noteq> None)))
     \<and> (\<forall>d. \<exists>n. version_nos db d = {1..int n})"

definition builds_ok :: "authdb \<Rightarrow> bool" where
  "builds_ok db \<longleftrightarrow> distinct (map br_sha (ad_builds db)) \<and> distinct (map toolchain_key (ad_builds db))
     \<and> (\<forall>b \<in> set (ad_builds db). build_post_init (challenge_build_from_orm b (fst (br_version b)) (snd (br_version b))) = Inr ()
          \<and> (\<exists>r \<in> set (ad_versions db). version_key r = br_version b \<and> vr_sha r = br_spec_sha b))"

definition publications_ok :: "authdb \<Rightarrow> bool" where
  "publications_ok db \<longleftrightarrow> distinct (map publication_key (ad_publications db))
     \<and> (\<forall>p \<in> set (ad_publications db). pr_competition p \<in> cpr_slug ` set (ad_competitions db)
          \<and> (\<exists>r \<in> set (ad_versions db). version_key r = pr_version p \<and> vr_state r \<noteq> Draft)
          \<and> publication_post_init (challenge_publication_from_orm p (pr_competition p) (fst (pr_version p)) (snd (pr_version p))) = Inr ()
          \<and> publication_columns p)"

definition authdb_ok :: "authdb \<Rightarrow> bool" where
  "authdb_ok db \<longleftrightarrow> competitions_ok db \<and> teams_ok db \<and> definitions_ok db \<and> versions_ok db \<and> builds_ok db
     \<and> publications_ok db"

lemmas authdb_ok_defs = authdb_ok_def competitions_ok_def teams_ok_def definitions_ok_def versions_ok_def
  builds_ok_def publications_ok_def

text \<open>A digest is never blank.\<close>

lemma hex_visible: "c \<in> set (hex_fixed k n) \<Longrightarrow> \<not> py_isspace c"
proof (induction k arbitrary: n)
  case (Suc k)
  have "\<not> py_isspace (hex_digit d)" if "d < 16" for d
    using that by (simp add: hex_digit_def py_isspace_def of_char_of)
  then have "\<not> py_isspace (hex_digit (n mod 16))" by simp
  then show ?case using Suc by auto
qed simp

lemma hash_visible [simp]: "nonempty (spec_content_hash spec)"
proof -
  have "length (spec_content_hash spec) = 64" by (simp add: spec_content_hash_def)
  then obtain c where c: "c \<in> set (spec_content_hash spec)" by (cases "spec_content_hash spec") auto
  then have "\<not> py_isspace c" by (auto simp: spec_content_hash_def sha256_hex_def dest: hex_visible)
  with c show ?thesis by (auto simp: nonempty_iff)
qed

definition empty_authdb :: authdb where
  "empty_authdb = \<lparr>ad_competitions = [], ad_teams = [], ad_definitions = [], ad_versions = [], ad_builds = [],
     ad_publications = []\<rparr>"

lemma empty_authdb_ok: "authdb_ok empty_authdb"
proof -
  have "\<exists>n. {} = {1..int n}" by (rule exI [of _ 0]) simp
  then show ?thesis by (simp add: authdb_ok_defs empty_authdb_def version_nos_def)
qed

section \<open>What the operations write\<close>

lemma first_taken_None: "first_taken ks = None \<longleftrightarrow> (\<forall>k \<in> set ks. \<not> snd k)"
  by (induction ks rule: first_taken.induct) auto

lemma store_steps_iff [tx_simps]:
  "unique_keys ks s = Inr r \<longleftrightarrow> (\<forall>k \<in> set ks. \<not> snd k) \<and> r = ((), s)"
  "checked_row v s = Inr r \<longleftrightarrow> v = None \<and> r = ((), s)"
  "tx_sum x s = Inr ra \<longleftrightarrow> (\<exists>y. x = Inr y \<and> ra = (y, s))"
  by (auto simp: unique_keys_def checked_row_def tx_sum_def tx_simps first_taken_None [symmetric]
      split: option.splits sum.splits)

lemma run_guard_iff [tx_simps]:
  "run_guard g c s = Inr r \<longleftrightarrow> (\<forall>f. g = Some f \<longrightarrow> f c = Inr ()) \<and> r = ((), s)"
  by (auto simp: run_guard_def tx_simps split: option.splits)

lemma competition_add_effect:
  "competition_add c db = Inr (u, db') \<longleftrightarrow> (\<exists>r. competition_to_orm c None = Inr r \<and> competition_check r = None
     \<and> cpr_slug r \<notin> cpr_slug ` set (ad_competitions db)
     \<and> db' = db\<lparr>ad_competitions := ad_competitions db @ [r]\<rparr>)"
  unfolding competition_add_def by (auto simp: tx_simps)

lemma competition_update_effect:
  "competition_update c db = Inr (u, db') \<longleftrightarrow> (\<exists>row r. find_row cpr_slug (cc_id c) (ad_competitions db) = Some row
     \<and> competition_to_orm c (Some row) = Inr r \<and> competition_check r = None
     \<and> db' = db\<lparr>ad_competitions := put_row cpr_slug r (ad_competitions db)\<rparr>)"
  unfolding competition_update_def by (auto simp: tx_simps)

lemma competition_id_of_iff [tx_simps]:
  "competition_id_of slug db = Inr r \<longleftrightarrow> slug \<in> cpr_slug ` set (ad_competitions db) \<and> r = (slug, db)"
  unfolding competition_id_of_def
  by (auto simp: tx_simps dest: find_row_SomeD)
    (metis find_row_None_iff find_row_SomeD option.exhaust)

lemma team_add_effect:
  "team_add t db = Inr (u, db') \<longleftrightarrow> tm_competition t \<in> cpr_slug ` set (ad_competitions db)
     \<and> (tm_competition t, tm_name t) \<notin> team_key ` set (ad_teams db)
     \<and> db' = db\<lparr>ad_teams := ad_teams db @ [\<lparr>tr_competition = tm_competition t, tr_name = tm_name t\<rparr>]\<rparr>"
  unfolding team_add_def by (auto simp: tx_simps)

lemma definition_add_effect:
  "definition_add d db = Inr (u, db') \<longleftrightarrow> df_slug d \<notin> dr_slug ` set (ad_definitions db)
     \<and> db' = db\<lparr>ad_definitions := ad_definitions db @ [challenge_definition_to_orm d None]\<rparr>"
  unfolding definition_add_def by (auto simp: tx_simps)

lemma definition_update_effect:
  "definition_update d db = Inr (u, db') \<longleftrightarrow> (\<exists>r. find_row dr_slug (df_slug d) (ad_definitions db) = Some r
     \<and> db' = db\<lparr>ad_definitions := put_row dr_slug (challenge_definition_to_orm d (Some r)) (ad_definitions db)\<rparr>)"
  unfolding definition_update_def by (auto simp: tx_simps)

lemma definition_uuid_iff [tx_simps]:
  "definition_uuid slug db = Inr r \<longleftrightarrow> slug \<in> dr_slug ` set (ad_definitions db) \<and> r = (slug, db)"
  unfolding definition_uuid_def
  by (auto simp: tx_simps dest: find_row_SomeD)
    (metis find_row_None_iff find_row_SomeD option.exhaust)

lemma flush_version_effect:
  assumes "find_row version_key (version_key new) (ad_versions db) = Some old"
  shows "flush_version new db = Inr (u, db') \<longleftrightarrow>
     (if old = new then db' = db
      else freeze_published_version old new \<and> version_check new = None
        \<and> db' = db\<lparr>ad_versions := put_row version_key new (ad_versions db)\<rparr>)"
  unfolding flush_version_def by (auto simp: tx_simps assms)

lemma version_add_effect:
  "version_add v db = Inr (u, db') \<longleftrightarrow> (\<exists>r. r = challenge_version_to_orm v (cv_definition v)
     \<and> cv_definition v \<in> dr_slug ` set (ad_definitions db) \<and> int_column (cv_no v) \<and> version_check r = None
     \<and> version_key r \<notin> version_key ` set (ad_versions db)
     \<and> (cv_definition v, cv_sha v) \<notin> (\<lambda>x. (vr_definition x, vr_sha x)) ` set (ad_versions db)
     \<and> db' = db\<lparr>ad_versions := ad_versions db @ [r]\<rparr>)"
  unfolding version_add_def Let_def by (auto simp: tx_simps challenge_version_to_orm_def)

end
