(* ===== verification/Authoring_Runs.thy ===== *)
theory Authoring_Runs
  imports Authoring_Inv
begin

text \<open>
  Sequences of catalogue calls: every call of the services that writes, with the two repository calls
  no service wraps (archiving a version, recording a build), keeps the catalogue's invariant.
\<close>

section \<open>Calls\<close>

datatype authoring_call =
    CreateCompetition competition_config
  | UpdateCompetition competition_config "(competition_config \<Rightarrow> exn + unit) option"
  | CreateTeam team
  | CreateDefinition challenge_definition
  | UpdateDefinition challenge_definition "(challenge_definition \<Rightarrow> exn + unit) option"
  | CreateDraft draft_request
  | PublishVersion string int instant "(challenge_version \<Rightarrow> exn + unit) option"
  | ArchiveVersion string int "instant option"
  | RecordBuild challenge_build
  | AttachPublication publication
  | UpdatePublication publication
  | DetachPublication string string int

definition after :: "('s, 'a) svc \<Rightarrow> 's \<Rightarrow> 's" where
  "after m s = snd (m s)"

text \<open>The catalogue after a call, whether it returns or raises.\<close>

fun run_authoring :: "authoring_call \<Rightarrow> authdb \<Rightarrow> authdb" where
  "run_authoring (CreateCompetition c) = after (create_competition c)"
| "run_authoring (UpdateCompetition c g) = after (update_competition c g)"
| "run_authoring (CreateTeam t) = after (create_team t)"
| "run_authoring (CreateDefinition d) = after (create_definition d)"
| "run_authoring (UpdateDefinition d g) = after (update_definition d g)"
| "run_authoring (CreateDraft q) = after (create_draft q)"
| "run_authoring (PublishVersion d no now g) = after (publish_version d no now g)"
| "run_authoring (ArchiveVersion d no moment) = after (session_scope (version_archive d no moment))"
| "run_authoring (RecordBuild b) = after (session_scope (build_add b))"
| "run_authoring (AttachPublication p) = after (attach_publication p)"
| "run_authoring (UpdatePublication p) = after (session_scope (publication_update p))"
| "run_authoring (DetachPublication c d no) = after (detach_publication c d no)"

text \<open>The arguments are values their constructors accepted.\<close>

fun well_formed_call :: "authoring_call \<Rightarrow> bool" where
  "well_formed_call (CreateTeam t) = (team_post_init t = Inr ())"
| "well_formed_call (CreateDefinition d) = (definition_post_init d = Inr ())"
| "well_formed_call (UpdateDefinition d g) = (definition_post_init d = Inr ())"
| "well_formed_call (RecordBuild b) = (build_post_init b = Inr ())"
| "well_formed_call (AttachPublication p) = (publication_post_init p = Inr ())"
| "well_formed_call (UpdatePublication p) = (publication_post_init p = Inr ())"
| "well_formed_call _ = True"

definition catalogue_after :: "authoring_call list \<Rightarrow> authdb" where
  "catalogue_after calls = foldl (\<lambda>db c. run_authoring c db) empty_authdb calls"

section \<open>Each write keeps the invariant\<close>

lemma authdb_okD:
  assumes "authdb_ok db"
  shows "competitions_ok db" "teams_ok db" "definitions_ok db" "versions_ok db" "builds_ok db" "publications_ok db"
  using assms by (simp_all add: authdb_ok_def)

text \<open>A component's part of the invariant survives a write elsewhere that keeps its parents' keys.\<close>

lemma frames:
  "competitions_ok db \<Longrightarrow> ad_competitions db' = ad_competitions db \<Longrightarrow> competitions_ok db'"
  "teams_ok db \<Longrightarrow> ad_teams db' = ad_teams db \<Longrightarrow>
     cpr_slug ` set (ad_competitions db) \<subseteq> cpr_slug ` set (ad_competitions db') \<Longrightarrow> teams_ok db'"
  "definitions_ok db \<Longrightarrow> ad_definitions db' = ad_definitions db \<Longrightarrow> definitions_ok db'"
  "versions_ok db \<Longrightarrow> ad_versions db' = ad_versions db \<Longrightarrow>
     dr_slug ` set (ad_definitions db) \<subseteq> dr_slug ` set (ad_definitions db') \<Longrightarrow> versions_ok db'"
  unfolding competitions_ok_def teams_ok_def definitions_ok_def versions_ok_def version_nos_def
  by (auto simp only:)

text \<open>Versions are kept: none is dropped, none returns to draft, none changes its hash.\<close>

definition versions_kept :: "authdb \<Rightarrow> authdb \<Rightarrow> bool" where
  "versions_kept db db' \<longleftrightarrow> (\<forall>r \<in> set (ad_versions db). \<exists>r' \<in> set (ad_versions db').
     version_key r' = version_key r \<and> vr_sha r' = vr_sha r \<and> (vr_state r \<noteq> Draft \<longrightarrow> vr_state r' \<noteq> Draft))"

lemma versions_kept_same: "ad_versions db' = ad_versions db \<Longrightarrow> versions_kept db db'"
  by (auto simp: versions_kept_def)

lemma builds_frame: "builds_ok db \<Longrightarrow> ad_builds db' = ad_builds db \<Longrightarrow> versions_kept db db' \<Longrightarrow> builds_ok db'"
  unfolding builds_ok_def versions_kept_def by (simp only:) metis

lemma publications_frame:
  assumes "publications_ok db" and "ad_publications db' = ad_publications db" and "versions_kept db db'"
    and "cpr_slug ` set (ad_competitions db) \<subseteq> cpr_slug ` set (ad_competitions db')"
  shows "publications_ok db'"
  unfolding publications_ok_def assms(2)
proof (intro conjI ballI)
  show "distinct (map publication_key (ad_publications db))" using assms(1) by (simp add: publications_ok_def)
  fix p assume p: "p \<in> set (ad_publications db)"
  then obtain r where "r \<in> set (ad_versions db)" "version_key r = pr_version p" "vr_state r \<noteq> Draft"
    using assms(1) by (auto simp: publications_ok_def)
  then show "\<exists>r \<in> set (ad_versions db'). version_key r = pr_version p \<and> vr_state r \<noteq> Draft"
    using assms(3) unfolding versions_kept_def by metis
  show "pr_competition p \<in> cpr_slug ` set (ad_competitions db')"
    using p assms(1,4) by (auto simp: publications_ok_def)
  show "publication_post_init (challenge_publication_from_orm p (pr_competition p) (fst (pr_version p)) (snd (pr_version p))) = Inr ()"
    "publication_columns p" using p assms(1) by (auto simp: publications_ok_def)
qed

text \<open>A write of one table keeps the whole invariant when it keeps that table's part and the keys.\<close>

lemma authdb_ok_competitions:
  assumes "authdb_ok db" "competitions_ok (db\<lparr>ad_competitions := rows\<rparr>)"
    "cpr_slug ` set (ad_competitions db) \<subseteq> cpr_slug ` set rows"
  shows "authdb_ok (db\<lparr>ad_competitions := rows\<rparr>)"
  using assms authdb_okD [OF assms(1)] unfolding authdb_ok_def
  by (simp_all add: frames [where db = db] builds_frame [where db = db] publications_frame [where db = db] versions_kept_same)

lemma authdb_ok_definitions:
  assumes "authdb_ok db" "definitions_ok (db\<lparr>ad_definitions := rows\<rparr>)"
    "dr_slug ` set (ad_definitions db) \<subseteq> dr_slug ` set rows"
  shows "authdb_ok (db\<lparr>ad_definitions := rows\<rparr>)"
  using assms authdb_okD [OF assms(1)] unfolding authdb_ok_def
  by (simp_all add: frames [where db = db] builds_frame [where db = db] publications_frame [where db = db] versions_kept_same)

lemma authdb_ok_versions:
  assumes "authdb_ok db" "versions_ok (db\<lparr>ad_versions := rows\<rparr>)" "versions_kept db (db\<lparr>ad_versions := rows\<rparr>)"
  shows "authdb_ok (db\<lparr>ad_versions := rows\<rparr>)"
  using assms authdb_okD [OF assms(1)] unfolding authdb_ok_def
  by (simp_all add: frames [where db = db] builds_frame [where db = db] publications_frame [where db = db] versions_kept_same)

lemma authdb_ok_leaves:
  assumes ok: "authdb_ok db"
  shows "teams_ok (db\<lparr>ad_teams := ts\<rparr>) \<Longrightarrow> authdb_ok (db\<lparr>ad_teams := ts\<rparr>)"
    and "builds_ok (db\<lparr>ad_builds := bs\<rparr>) \<Longrightarrow> authdb_ok (db\<lparr>ad_builds := bs\<rparr>)"
    and "publications_ok (db\<lparr>ad_publications := ps\<rparr>) \<Longrightarrow> authdb_ok (db\<lparr>ad_publications := ps\<rparr>)"
  using authdb_okD [OF ok] unfolding authdb_ok_def
  by (simp_all add: frames [where db = db] builds_frame [where db = db] publications_frame [where db = db] versions_kept_same)

lemma put_row_keys: "k ` set (put_row k new rows) = k ` set rows"
  by (metis list.set_map map_key_put_row)

lemma window_of_args:
  assumes "validate_window c = Inr ()" and "competition_to_orm c e = Inr r"
  shows "validate_window (competition_from_orm r) = Inr ()" and "cpr_slug r = (case e of None \<Rightarrow> cc_id c | Some x \<Rightarrow> cpr_slug x)"
  using assms by (auto simp: competition_to_orm_def competition_from_orm_def validate_window_def Let_def
      split: if_splits option.splits)

lemma check_name: "competition_check r = None \<Longrightarrow> cpr_name r \<noteq> ''''"
  unfolding competition_check_def first_taken_None by simp

lemma add_competition_ok:
  assumes ok: "authdb_ok db" and w: "validate_window c = Inr ()" and add: "competition_add c db = Inr (u, db')"
  shows "authdb_ok db'"
proof -
  from add obtain r where r: "competition_to_orm c None = Inr r" "competition_check r = None"
    "cpr_slug r \<notin> cpr_slug ` set (ad_competitions db)" and db': "db' = db\<lparr>ad_competitions := ad_competitions db @ [r]\<rparr>"
    by (auto simp: competition_add_effect)
  show ?thesis unfolding db'
    using authdb_okD(1) [OF ok] r window_of_args(1) [OF w r(1)] check_name [OF r(2)]
    by (intro authdb_ok_competitions [OF ok]) (auto simp: competitions_ok_def)
qed

lemma update_competition_ok:
  assumes ok: "authdb_ok db" and w: "validate_window c = Inr ()" and up: "competition_update c db = Inr (u, db')"
  shows "authdb_ok db'"
proof -
  from up obtain row r where f: "find_row cpr_slug (cc_id c) (ad_competitions db) = Some row"
    and r: "competition_to_orm c (Some row) = Inr r" "competition_check r = None"
    and db': "db' = db\<lparr>ad_competitions := put_row cpr_slug r (ad_competitions db)\<rparr>"
    by (auto simp: competition_update_effect)
  show ?thesis unfolding db'
    using authdb_okD(1) [OF ok] r window_of_args(1) [OF w r(1)] check_name [OF r(2)]
    by (intro authdb_ok_competitions [OF ok]) (auto simp: competitions_ok_def put_row_keys dest: set_put_rowD)
qed

lemma add_team_ok:
  assumes ok: "authdb_ok db" and t: "team_post_init t = Inr ()" and add: "team_add t db = Inr (u, db')"
  shows "authdb_ok db'"
proof -
  have "team_post_init (team_from_orm \<lparr>tr_competition = tm_competition t, tr_name = tm_name t\<rparr> (tm_competition t)) = Inr ()"
    using t by (simp add: team_from_orm_def team_post_init_def split: if_splits)
  then have "teams_ok db'" using authdb_okD(2) [OF ok] add
    by (auto simp: teams_ok_def team_add_effect team_key_def)
  then show ?thesis using add authdb_ok_leaves(1) [OF ok] by (auto simp: team_add_effect)
qed

lemma add_definition_ok:
  assumes ok: "authdb_ok db" and d: "definition_post_init d = Inr ()" and add: "definition_add d db = Inr (u, db')"
  shows "authdb_ok db'"
proof -
  let ?r = "challenge_definition_to_orm d None"
  have "definition_post_init (challenge_definition_from_orm ?r) = Inr ()" and k: "dr_slug ?r = df_slug d"
    using d by (simp_all add: challenge_definition_from_orm_def challenge_definition_to_orm_def definition_post_init_def split: if_splits)
  then show ?thesis using authdb_okD(3) [OF ok] add authdb_ok_definitions [OF ok, of "ad_definitions db @ [?r]"]
    by (auto simp: definitions_ok_def definition_add_effect)
qed

lemma update_definition_ok:
  assumes ok: "authdb_ok db" and d: "definition_post_init d = Inr ()" and up: "definition_update d db = Inr (u, db')"
  shows "authdb_ok db'"
proof -
  from up obtain r where f: "find_row dr_slug (df_slug d) (ad_definitions db) = Some r"
    and db': "db' = db\<lparr>ad_definitions := put_row dr_slug (challenge_definition_to_orm d (Some r)) (ad_definitions db)\<rparr>"
    by (auto simp: definition_update_effect)
  let ?r = "challenge_definition_to_orm d (Some r)"
  have "definition_post_init (challenge_definition_from_orm r) = Inr ()"
    using authdb_okD(3) [OF ok] find_row_SomeD [OF f] by (simp add: definitions_ok_def)
  then have "definition_post_init (challenge_definition_from_orm ?r) = Inr ()"
    using d by (simp add: challenge_definition_from_orm_def challenge_definition_to_orm_def definition_post_init_def split: if_splits)
  then show ?thesis unfolding db' using authdb_okD(3) [OF ok]
    by (intro authdb_ok_definitions [OF ok]) (auto simp: definitions_ok_def put_row_keys dest: set_put_rowD)
qed

section \<open>Versions, builds and publications\<close>

lemma versions_okD:
  assumes "versions_ok db" "r \<in> set (ad_versions db)"
  shows "version_post_init (challenge_version_from_orm r (vr_definition r)) = Inr ()"
    "vr_sha r = spec_content_hash (vr_spec r)" "int_column (vr_no r)" "(vr_state r = Archived) = (vr_archived_at r \<noteq> None)"
    "vr_definition r \<in> dr_slug ` set (ad_definitions db)"
  using assms by (auto simp: versions_ok_def)

lemma read_versions:
  assumes "versions_ok db"
  shows "version_list_for_definition d db =
    Inr (map (\<lambda>r. challenge_version_from_orm r d) (sort_key vr_no (filter (\<lambda>r. vr_definition r = d) (ad_versions db))), db)"
  unfolding version_list_for_definition_def using versions_okD(1) [OF assms] by (auto simp: tx_simps)

lemma next_version:
  assumes "version_nos db d = {1..int n}"
  shows "next_version_no (map (\<lambda>r. challenge_version_from_orm r d) (sort_key vr_no (filter (\<lambda>r. vr_definition r = d) (ad_versions db))))
    = int n + 1"
proof -
  let ?rows = "filter (\<lambda>r. vr_definition r = d) (ad_versions db)"
  have nos: "cv_no ` set (map (\<lambda>r. challenge_version_from_orm r d) (sort_key vr_no ?rows)) = {1..int n}"
    using assms by (simp add: version_nos_def image_image challenge_version_from_orm_def)
  show ?thesis
  proof (cases n)
    case 0
    then have "?rows = []" using nos by (simp add: filter_empty_conv)
    then show ?thesis by (simp add: next_version_no_def 0)
  next
    case (Suc m)
    then have "{1..int n} \<noteq> {}" by simp
    then have ne: "map (\<lambda>r. challenge_version_from_orm r d) (sort_key vr_no ?rows) \<noteq> []"
      unfolding nos [symmetric] by (metis image_is_empty set_empty)
    have "Max {1..int n} = int n" using Suc by (intro Max_eqI) auto
    then show ?thesis using ne by (simp only: next_version_no_def nos if_False simp_thms)
  qed
qed

lemma version_row_roundtrip: "cv_definition v = d \<Longrightarrow> challenge_version_from_orm (challenge_version_to_orm v d) d = v"
  by (cases v) (simp add: challenge_version_from_orm_def challenge_version_to_orm_def)

lemma version_nos_keys: "version_nos db d = snd ` {k \<in> version_key ` set (ad_versions db). fst k = d}"
  by (force simp: version_nos_def version_key_def)

lemma add_draft_ok:
  assumes ok: "authdb_ok db" and n: "version_nos db (dq_definition q) = {1..int n}"
    and init: "version_post_init (draft_of q (int n + 1)) = Inr ()" and add: "version_add (draft_of q (int n + 1)) db = Inr (u, db')"
  shows "authdb_ok db'"
proof -
  let ?r = "challenge_version_to_orm (draft_of q (int n + 1)) (dq_definition q)"
  from add have r: "dq_definition q \<in> dr_slug ` set (ad_definitions db)" "int_column (int n + 1)"
    "version_key ?r \<notin> version_key ` set (ad_versions db)"
    "(vr_definition ?r, vr_sha ?r) \<notin> (\<lambda>x. (vr_definition x, vr_sha x)) ` set (ad_versions db)"
    and db': "db' = db\<lparr>ad_versions := ad_versions db @ [?r]\<rparr>"
    unfolding version_add_effect by (auto simp: draft_of_def challenge_version_to_orm_def)
  note vok = authdb_okD(4) [OF ok]
  have row: "vr_definition ?r = dq_definition q" "vr_no ?r = int n + 1" "vr_state ?r = Draft" "vr_archived_at ?r = None"
    "vr_sha ?r = spec_content_hash (vr_spec ?r)"
    by (simp_all add: challenge_version_to_orm_def draft_of_def)
  have init': "version_post_init (challenge_version_from_orm ?r (dq_definition q)) = Inr ()"
    using init by (simp add: version_row_roundtrip draft_of_def)
  have nos: "version_nos db' d = (if d = dq_definition q then insert (int n + 1) (version_nos db d) else version_nos db d)" for d
  proof -
    have "{r \<in> set (ad_versions db'). vr_definition r = d}
        = (if d = dq_definition q then insert ?r {r \<in> set (ad_versions db). vr_definition r = d}
           else {r \<in> set (ad_versions db). vr_definition r = d})"
      using row(1) by (auto simp: db')
    then show ?thesis by (simp add: version_nos_def row(2))
  qed
  have "\<exists>m. version_nos db' d = {1..int m}" for d
  proof (cases "d = dq_definition q")
    case True
    have "insert (int n + 1) {1..int n} = {1..int (Suc n)}" by auto
    then show ?thesis using True by (intro exI [of _ "Suc n"]) (simp add: nos n)
  next
    case False
    then show ?thesis using vok by (simp add: nos versions_ok_def)
  qed
  then have "versions_ok db'"
    using vok r row init' unfolding versions_ok_def by (auto simp: db')
  moreover have "versions_kept db db'" by (auto simp: versions_kept_def db')
  ultimately show ?thesis unfolding db' by (intro authdb_ok_versions [OF ok])
qed

lemma flush_version_ok:
  assumes ok: "authdb_ok db" and f: "find_row version_key (version_key new) (ad_versions db) = Some old"
    and same: "vr_definition new = vr_definition old" "vr_no new = vr_no old" "vr_sha new = vr_sha old" "vr_spec new = vr_spec old"
    and init: "version_post_init (challenge_version_from_orm new (vr_definition new)) = Inr ()"
    and arch: "(vr_state new = Archived) = (vr_archived_at new \<noteq> None)"
    and flush: "flush_version new db = Inr (u, db')"
  shows "authdb_ok db'"
proof (cases "old = new")
  case True
  then show ?thesis using ok flush by (simp add: flush_version_effect [OF f])
next
  case False
  then have db': "db' = db\<lparr>ad_versions := put_row version_key new (ad_versions db)\<rparr>" and guard: "freeze_published_version old new"
    using flush by (simp_all add: flush_version_effect [OF f])
  note vok = authdb_okD(4) [OF ok]
  have old: "old \<in> set (ad_versions db)" "version_key old = version_key new" using find_row_SomeD [OF f] by simp_all
  have d: "distinct (map version_key (ad_versions db))" using vok by (simp add: versions_ok_def)
  have keys: "map version_key (ad_versions db') = map version_key (ad_versions db)" by (simp add: db')
  have shas: "map (\<lambda>r. (vr_definition r, vr_sha r)) (ad_versions db') = map (\<lambda>r. (vr_definition r, vr_sha r)) (ad_versions db)"
    using map_put_row_same [OF d old, of "\<lambda>r. (vr_definition r, vr_sha r)"] same by (simp add: db')
  have nos: "version_nos db' = version_nos db"
    using arg_cong [OF keys, of set] by (simp add: fun_eq_iff version_nos_keys)
  have "versions_ok db'"
    unfolding versions_ok_def keys shas nos
  proof (intro conjI ballI)
    fix x assume "x \<in> set (ad_versions db')"
    then have x: "x = new \<or> x \<in> set (ad_versions db)" by (auto simp: db' dest: set_put_rowD)
    note o = versions_okD [OF vok old(1)]
    show "vr_definition x \<in> dr_slug ` set (ad_definitions db')" using x versions_okD(5) [OF vok] o(5) same(1) by (auto simp: db')
    show "version_post_init (challenge_version_from_orm x (vr_definition x)) = Inr ()" using x versions_okD(1) [OF vok] init by blast
    show "vr_sha x = spec_content_hash (vr_spec x)" using x versions_okD(2) [OF vok] o(2) same(3,4) by metis
    show "int_column (vr_no x)" using x versions_okD(3) [OF vok] o(3) same(2) by metis
    show "(vr_state x = Archived) = (vr_archived_at x \<noteq> None)" using x versions_okD(4) [OF vok] arch by metis
  qed (use vok in \<open>simp_all add: versions_ok_def\<close>)
  moreover have "versions_kept db db'"
    unfolding versions_kept_def
  proof
    fix r assume r: "r \<in> set (ad_versions db)"
    show "\<exists>r' \<in> set (ad_versions db'). version_key r' = version_key r \<and> vr_sha r' = vr_sha r \<and> (vr_state r \<noteq> Draft \<longrightarrow> vr_state r' \<noteq> Draft)"
    proof (cases "version_key r = version_key new")
      case True
      then have "r = old" using d r old by (metis distinct_map inj_onD)
      moreover have "new \<in> set (ad_versions db')" using r True by (auto simp: db' put_row_def)
      ultimately show ?thesis using same guard True
        by (intro bexI [of _ new]) (cases "vr_state old"; auto simp: freeze_published_version_def)+
    next
      case False
      then have "r \<in> set (ad_versions db')" using r by (force simp: db' put_row_def)
      then show ?thesis by blast
    qed
  qed
  ultimately show ?thesis unfolding db' by (intro authdb_ok_versions [OF ok])
qed

lemma publish_ok:
  assumes ok: "authdb_ok db" and run: "version_publish d no moment db = Inr (u, db')"
  shows "authdb_ok db'"
proof -
  from run obtain t r where f: "find_row version_key (d, no) (ad_versions db) = Some r" and st: "vr_state r = Draft"
    and fl: "flush_version (r\<lparr>vr_state := Published, vr_published_at := Some t\<rparr>) db = Inr (u, db')"
    unfolding version_publish_def by (auto simp: tx_simps)
  note r = find_row_SomeD [OF f] and vok = authdb_okD(4) [OF ok]
  have key: "version_key (r\<lparr>vr_state := Published, vr_published_at := Some t\<rparr>) = version_key r" by (simp add: version_key_def)
  show ?thesis
    by (rule flush_version_ok [OF ok _ _ _ _ _ _ _ fl, of r])
      (use f r st versions_okD [OF vok conjunct1 [OF r]] in
        \<open>simp_all add: key version_post_init_def challenge_version_from_orm_def split: if_splits\<close>)
qed

lemma archive_ok:
  assumes ok: "authdb_ok db" and run: "version_archive d no moment db = Inr (u, db')"
  shows "authdb_ok db'"
proof -
  from run obtain t r where f: "find_row version_key (d, no) (ad_versions db) = Some r" and st: "vr_state r = Published"
    and fl: "flush_version (r\<lparr>vr_state := Archived, vr_archived_at := Some t\<rparr>) db = Inr (u, db')"
    unfolding version_archive_def by (auto simp: tx_simps)
  note r = find_row_SomeD [OF f] and vok = authdb_okD(4) [OF ok]
  have key: "version_key (r\<lparr>vr_state := Archived, vr_archived_at := Some t\<rparr>) = version_key r" by (simp add: version_key_def)
  show ?thesis
    by (rule flush_version_ok [OF ok _ _ _ _ _ _ _ fl, of r])
      (use f r st versions_okD [OF vok conjunct1 [OF r]] in
        \<open>simp_all add: key version_post_init_def challenge_version_from_orm_def split: if_splits\<close>)
qed

lemma find_version_iff:
  assumes "versions_ok db"
  shows "find_row version_key (d, no) (ad_versions db) = Some r \<longleftrightarrow> r \<in> set (ad_versions db) \<and> version_key r = (d, no)"
  using assms by (intro find_row_eq_Some_iff) (simp add: versions_ok_def)

lemma add_build_ok:
  assumes ok: "authdb_ok db" and b: "build_post_init b = Inr ()" and add: "build_add b db = Inr (u, db')"
  shows "authdb_ok db'"
proof -
  let ?r = "challenge_build_to_orm b (cb_definition b, cb_no b)"
  from add obtain v where v: "v \<in> set (ad_versions db)" "version_key v = (cb_definition b, cb_no b)" "cb_spec_sha b = vr_sha v"
    and u: "br_sha ?r \<notin> br_sha ` set (ad_builds db)" "toolchain_key ?r \<notin> toolchain_key ` set (ad_builds db)"
    and db': "db' = db\<lparr>ad_builds := ad_builds db @ [?r]\<rparr>"
    unfolding build_add_def version_uuid_and_sha_def Let_def by (auto simp: tx_simps dest!: find_row_SomeD)
  have "challenge_build_from_orm ?r (cb_definition b) (cb_no b) = b"
    by (cases b) (simp add: challenge_build_from_orm_def challenge_build_to_orm_def)
  then have "builds_ok (db\<lparr>ad_builds := ad_builds db @ [?r]\<rparr>)"
    using authdb_okD(5) [OF ok] u v b by (auto simp: builds_ok_def challenge_build_to_orm_def)
  then show ?thesis unfolding db' by (rule authdb_ok_leaves(2) [OF ok])
qed

lemma publication_row_roundtrip:
  "pb_competition p = c \<Longrightarrow> (pb_definition p, pb_no p) = v \<Longrightarrow>
   challenge_publication_from_orm (challenge_publication_to_orm p c v None) c (fst v) (snd v) = p"
  by (cases p) (auto simp: challenge_publication_from_orm_def challenge_publication_to_orm_def)

lemma add_publication_ok:
  assumes ok: "authdb_ok db" and p: "publication_post_init p = Inr ()" and add: "publication_add p db = Inr (u, db')"
  shows "authdb_ok db'"
proof -
  let ?v = "(pb_definition p, pb_no p)"
  let ?r = "challenge_publication_to_orm p (pb_competition p) ?v None"
  from add obtain v where v: "v \<in> set (ad_versions db)" "version_key v = ?v" "vr_state v = Published"
    and c: "pb_competition p \<in> cpr_slug ` set (ad_competitions db)" and cols: "publication_columns ?r"
    and u: "publication_key ?r \<notin> publication_key ` set (ad_publications db)"
    and db': "db' = db\<lparr>ad_publications := ad_publications db @ [?r]\<rparr>"
    unfolding publication_add_def version_uuid_and_state_def Let_def by (auto simp: tx_simps dest!: find_row_SomeD)
  have row: "pr_competition ?r = pb_competition p" "pr_version ?r = ?v" by (simp_all add: challenge_publication_to_orm_def)
  have "publications_ok (db\<lparr>ad_publications := ad_publications db @ [?r]\<rparr>)"
    unfolding publications_ok_def
  proof (intro conjI ballI)
    show "distinct (map publication_key (ad_publications (db\<lparr>ad_publications := ad_publications db @ [?r]\<rparr>)))"
      using authdb_okD(6) [OF ok] u by (simp add: publications_ok_def)
    fix x assume "x \<in> set (ad_publications (db\<lparr>ad_publications := ad_publications db @ [?r]\<rparr>))"
    then consider "x \<in> set (ad_publications db)" | "x = ?r" by auto
    note cs = this
    show "pr_competition x \<in> cpr_slug ` set (ad_competitions (db\<lparr>ad_publications := ad_publications db @ [?r]\<rparr>))"
      by (rule cs) (use authdb_okD(6) [OF ok] c row in \<open>auto simp: publications_ok_def\<close>)
    show "\<exists>r \<in> set (ad_versions (db\<lparr>ad_publications := ad_publications db @ [?r]\<rparr>)). version_key r = pr_version x \<and> vr_state r \<noteq> Draft"
      by (rule cs) (use authdb_okD(6) [OF ok] v row in \<open>auto simp: publications_ok_def\<close>)
    show "publication_post_init (challenge_publication_from_orm x (pr_competition x) (fst (pr_version x)) (snd (pr_version x))) = Inr ()"
      by (rule cs) (use authdb_okD(6) [OF ok] row p publication_row_roundtrip [of p "pb_competition p" ?v] in
        \<open>auto simp: publications_ok_def simp del: fst_conv snd_conv\<close>)
    show "publication_columns x" by (rule cs) (use authdb_okD(6) [OF ok] cols in \<open>auto simp: publications_ok_def\<close>)
  qed
  then show ?thesis unfolding db' by (rule authdb_ok_leaves(3) [OF ok])
qed

lemma publications_okD:
  assumes "publications_ok db" "p \<in> set (ad_publications db)"
  shows "pr_competition p \<in> cpr_slug ` set (ad_competitions db)"
    "\<exists>r \<in> set (ad_versions db). version_key r = pr_version p \<and> vr_state r \<noteq> Draft"
    "publication_post_init (challenge_publication_from_orm p (pr_competition p) (fst (pr_version p)) (snd (pr_version p))) = Inr ()"
    "publication_columns p"
  using assms by (auto simp: publications_ok_def)

lemma publications_ok_rows:
  assumes "publications_ok db" and "distinct (map publication_key rows)"
    and "\<And>p. p \<in> set rows \<Longrightarrow> p \<in> set (ad_publications db) \<or>
      (\<exists>old \<in> set (ad_publications db). pr_competition p = pr_competition old \<and> pr_version p = pr_version old
        \<and> publication_post_init (challenge_publication_from_orm p (pr_competition p) (fst (pr_version p)) (snd (pr_version p))) = Inr ()
        \<and> publication_columns p)"
  shows "publications_ok (db\<lparr>ad_publications := rows\<rparr>)"
  unfolding publications_ok_def
proof (intro conjI ballI)
  show "distinct (map publication_key (ad_publications (db\<lparr>ad_publications := rows\<rparr>)))" using assms(2) by simp
  fix p assume "p \<in> set (ad_publications (db\<lparr>ad_publications := rows\<rparr>))"
  then have "p \<in> set rows" by simp
  note p = assms(3) [OF this]
  show "pr_competition p \<in> cpr_slug ` set (ad_competitions (db\<lparr>ad_publications := rows\<rparr>))"
    using p publications_okD(1) [OF assms(1)] by auto
  show "\<exists>r \<in> set (ad_versions (db\<lparr>ad_publications := rows\<rparr>)). version_key r = pr_version p \<and> vr_state r \<noteq> Draft"
    using p publications_okD(2) [OF assms(1)] by auto
  show "publication_post_init (challenge_publication_from_orm p (pr_competition p) (fst (pr_version p)) (snd (pr_version p))) = Inr ()"
    using p publications_okD(3) [OF assms(1)] by auto
  show "publication_columns p" using p publications_okD(4) [OF assms(1)] by auto
qed

lemma update_publication_ok:
  assumes ok: "authdb_ok db" and p: "publication_post_init p = Inr ()" and up: "publication_update p db = Inr (u, db')"
  shows "authdb_ok db'"
proof -
  from up obtain v row where v: "find_row version_key (pb_definition p, pb_no p) (ad_versions db) = Some v"
    and row: "find_row publication_key (pb_competition p, version_key v) (ad_publications db) = Some row"
    and cols: "publication_columns (challenge_publication_to_orm p (pb_competition p) (version_key v) (Some row))"
    and db': "db' = db\<lparr>ad_publications := put_row publication_key
       (challenge_publication_to_orm p (pb_competition p) (version_key v) (Some row)) (ad_publications db)\<rparr>"
    unfolding publication_update_def version_uuid_and_state_def Let_def by (auto simp: tx_simps)
  let ?r = "challenge_publication_to_orm p (pb_competition p) (version_key v) (Some row)"
  note fr = find_row_SomeD [OF row] and fv = find_row_SomeD [OF v] and pok = authdb_okD(6) [OF ok]
  have eq: "pr_competition ?r = pr_competition row" "pr_version ?r = pr_version row"
    by (simp_all add: challenge_publication_to_orm_def)
  have "challenge_publication_from_orm ?r (pr_competition ?r) (fst (pr_version ?r)) (snd (pr_version ?r)) = p"
    using fr fv by (cases p) (auto simp: challenge_publication_from_orm_def challenge_publication_to_orm_def publication_key_def)
  then have new: "publication_post_init (challenge_publication_from_orm ?r (pr_competition ?r) (fst (pr_version ?r)) (snd (pr_version ?r))) = Inr ()"
    using p by simp
  have "publications_ok (db\<lparr>ad_publications := put_row publication_key ?r (ad_publications db)\<rparr>)"
  proof (rule publications_ok_rows [OF pok])
    show "distinct (map publication_key (put_row publication_key ?r (ad_publications db)))"
      using pok by (simp add: publications_ok_def)
    fix x assume "x \<in> set (put_row publication_key ?r (ad_publications db))"
    from set_put_rowD [OF this] show "x \<in> set (ad_publications db) \<or> (\<exists>old \<in> set (ad_publications db).
        pr_competition x = pr_competition old \<and> pr_version x = pr_version old
        \<and> publication_post_init (challenge_publication_from_orm x (pr_competition x) (fst (pr_version x)) (snd (pr_version x))) = Inr ()
        \<and> publication_columns x)"
      using new cols eq fr by blast
  qed
  then show ?thesis unfolding db' by (rule authdb_ok_leaves(3) [OF ok])
qed

lemma remove_publication_ok:
  assumes ok: "authdb_ok db" and rm: "publication_remove c d no db = Inr (b, db')"
  shows "authdb_ok db'"
proof -
  from rm have "db' = db \<or> (\<exists>y. db' = db\<lparr>ad_publications := filter (\<lambda>x. publication_key x \<noteq> publication_key y) (ad_publications db)\<rparr>)"
    unfolding publication_remove_def version_uuid_and_state_def by (auto simp: tx_simps split: option.splits)
  moreover have "publications_ok (db\<lparr>ad_publications := filter (\<lambda>x. publication_key x \<noteq> publication_key y) (ad_publications db)\<rparr>)" for y
    using authdb_okD(6) [OF ok]
    by (intro publications_ok_rows) (auto simp: publications_ok_def distinct_map_filter)
  ultimately show ?thesis using ok authdb_ok_leaves(3) [OF ok] by blast
qed

section \<open>Calls keep the invariant\<close>

text \<open>Reading writes nothing.\<close>

lemma reads_keep [keeps_intro]:
  "tx_keeps P (competition_get slug)" "tx_keeps P (team_get c n)" "tx_keeps P (definition_get slug)"
  "tx_keeps P (version_get d no)" "tx_keeps P (version_list_for_definition d)" "tx_keeps P (publication_get c d no)"
  "tx_keeps P (run_guard g x)"
  by (auto simp: tx_keeps_def tx_simps competition_get_def team_get_def definition_get_def version_get_def
      version_list_for_definition_def publication_get_def read_version_def split: option.splits)

lemma after_scope: "tx_keeps P m \<Longrightarrow> P db \<Longrightarrow> P (after (session_scope m) db)"
  unfolding after_def by (rule svc_keepsD [OF svc_keeps_scope])

lemma after_create_draft:
  assumes ok: "authdb_ok db" shows "authdb_ok (after (create_draft q) db)"
proof -
  obtain n where n: "version_nos db (dq_definition q) = {1..int n}"
    using authdb_okD(4) [OF ok] unfolding versions_ok_def by blast
  note list = read_versions [OF authdb_okD(4) [OF ok]] and no = next_version [OF n]
  have step: "authdb_ok db'" if "tx_bind (construct version_post_init (draft_of q (int n + 1))) (\<lambda>v. tx_bind (version_add v)
      (\<lambda>_. version_get (dq_definition q) (int n + 1))) db = Inr (r, db')" for r db'
  proof -
    from that obtain u db1 where "version_post_init (draft_of q (int n + 1)) = Inr ()"
      and a: "version_add (draft_of q (int n + 1)) db = Inr (u, db1)" and g: "version_get (dq_definition q) (int n + 1) db1 = Inr (r, db')"
      by (auto simp: tx_simps)
    from add_draft_ok [OF ok n this(1) a] g show ?thesis by (rule tx_keepsD [OF reads_keep(4)])
  qed
  have "create_draft q db = session_scope (tx_bind (construct version_post_init (draft_of q (int n + 1))) (\<lambda>v. tx_bind (version_add v)
      (\<lambda>_. version_get (dq_definition q) (int n + 1)))) db"
    unfolding create_draft_def session_scope_def tx_bind_step [where m = "version_list_for_definition (dq_definition q)", OF list] no Let_def ..
  then show ?thesis using step ok unfolding after_def
    by (auto simp: session_scope_def split: sum.splits)
qed

text \<open>What every write keeps, every call keeps: the contract between the repositories and the services.\<close>

locale catalogue_writes =
  fixes P :: "authdb \<Rightarrow> bool"
  assumes add_competition: "validate_window x = Inr () \<Longrightarrow> tx_keeps P (competition_add x)"
    and update_competition: "validate_window x = Inr () \<Longrightarrow> tx_keeps P (competition_update x)"
    and add_team: "team_post_init t = Inr () \<Longrightarrow> tx_keeps P (team_add t)"
    and add_definition: "definition_post_init d = Inr () \<Longrightarrow> tx_keeps P (definition_add d)"
    and update_definition: "definition_post_init d = Inr () \<Longrightarrow> tx_keeps P (definition_update d)"
    and draft: "P db \<Longrightarrow> P (after (create_draft q) db)"
    and publish: "tx_keeps P (version_publish s no (Some now))"
    and archive: "tx_keeps P (version_archive s no moment)"
    and add_build: "build_post_init b = Inr () \<Longrightarrow> tx_keeps P (build_add b)"
    and attach: "publication_post_init p = Inr () \<Longrightarrow> tx_keeps P (publication_add p)"
    and update_publication: "publication_post_init p = Inr () \<Longrightarrow> tx_keeps P (publication_update p)"
    and remove: "tx_keeps P (publication_remove c s no)"
begin

lemma run_keeps:
  assumes ok: "P db" and wf: "well_formed_call c"
  shows "P (run_authoring c db)"
proof (cases c)
  case (CreateCompetition x)
  show ?thesis
  proof (cases "validate_window x")
    case (Inr u)
    have "tx_keeps P (competition_add x)" using Inr by (intro add_competition) simp
    then have "tx_keeps P (tx_bind (competition_add x) (\<lambda>_. competition_get (cc_id x)))" by (intro keeps_intro)
    from after_scope [OF this ok] show ?thesis
      by (simp add: CreateCompetition create_competition_def svc_of_sum_def Inr after_def svc_bind_def svc_ret_def)
  qed (use ok in \<open>simp add: CreateCompetition create_competition_def svc_of_sum_def after_def svc_bind_def svc_raise_def\<close>)
next
  case (UpdateCompetition x g)
  show ?thesis
  proof (cases "validate_window x")
    case (Inr u)
    have "tx_keeps P (competition_update x)" using Inr by (intro update_competition) simp
    then have "tx_keeps P (tx_bind (competition_get (cc_id x)) (\<lambda>found.
       tx_bind (tx_some LookupError found) (\<lambda>current. tx_bind (run_guard g current) (\<lambda>_.
       tx_bind (competition_update x) (\<lambda>_. competition_get (cc_id x))))))" by (intro keeps_intro)
    from after_scope [OF this ok] show ?thesis
      by (simp add: UpdateCompetition update_competition_def svc_of_sum_def Inr after_def svc_bind_def svc_ret_def)
  qed (use ok in \<open>simp add: UpdateCompetition update_competition_def svc_of_sum_def after_def svc_bind_def svc_raise_def\<close>)
next
  case (CreateTeam t)
  have "tx_keeps P (team_add t)" using wf by (intro add_team) (simp add: CreateTeam)
  then show ?thesis by (auto simp: CreateTeam create_team_def intro!: after_scope ok keeps_intro)
next
  case (CreateDefinition d)
  have "tx_keeps P (definition_add d)" using wf by (intro add_definition) (simp add: CreateDefinition)
  then show ?thesis by (auto simp: CreateDefinition create_definition_def intro!: after_scope ok keeps_intro)
next
  case (UpdateDefinition d g)
  have "tx_keeps P (definition_update d)" using wf by (intro update_definition) (simp add: UpdateDefinition)
  then show ?thesis by (auto simp: UpdateDefinition update_definition_def intro!: after_scope ok keeps_intro)
next
  case (CreateDraft q)
  then show ?thesis using draft [OF ok] by simp
next
  case (PublishVersion d no now g)
  have "tx_keeps P (version_publish d no (Some now))" by (rule publish)
  then show ?thesis by (auto simp: PublishVersion publish_version_def intro!: after_scope ok keeps_intro)
next
  case (ArchiveVersion d no m)
  have "tx_keeps P (version_archive d no m)" by (rule archive)
  then show ?thesis by (auto simp: ArchiveVersion intro!: after_scope ok)
next
  case (RecordBuild b)
  have "tx_keeps P (build_add b)" using wf by (intro add_build) (simp add: RecordBuild)
  then show ?thesis by (auto simp: RecordBuild intro!: after_scope ok)
next
  case (AttachPublication p)
  have "tx_keeps P (publication_add p)" using wf by (intro attach) (simp add: AttachPublication)
  then show ?thesis by (auto simp: AttachPublication attach_publication_def intro!: after_scope ok keeps_intro)
next
  case (UpdatePublication p)
  have "tx_keeps P (publication_update p)" using wf by (intro update_publication) (simp add: UpdatePublication)
  then show ?thesis by (auto simp: UpdatePublication intro!: after_scope ok)
next
  case (DetachPublication x d no)
  have "tx_keeps P (publication_remove x d no)" by (rule remove)
  then have "svc_keeps P (detach_publication x d no)"
    unfolding detach_publication_def by (intro keeps_intro) (auto intro: keeps_intro)
  then show ?thesis using ok by (simp add: DetachPublication after_def svc_keeps_def)
qed

lemma runs_keep:
  "P db \<Longrightarrow> \<forall>c \<in> set calls. well_formed_call c \<Longrightarrow> P (foldl (\<lambda>db c. run_authoring c db) db calls)"
  by (induction calls arbitrary: db) (simp_all add: run_keeps)

end

interpretation cat_inv: catalogue_writes authdb_ok
  by unfold_locales
    (auto simp: tx_keeps_def intro: add_competition_ok update_competition_ok add_team_ok add_definition_ok update_definition_ok
      after_create_draft publish_ok archive_ok add_build_ok add_publication_ok update_publication_ok remove_publication_ok)

end
