(* ===== verification/Authoring_Theorems.thy ===== *)
theory Authoring_Theorems
  imports Authoring_Runs
begin

text \<open>
  The catalogue's properties: the invariant of every reachable catalogue, reads that never fail their
  own constructors, content that no call changes, and a draft read back as it was requested.
\<close>

section \<open>Content is never rewritten\<close>

definition version_content :: "version_row \<Rightarrow> (string \<times> int) \<times> (string \<times> string \<times> string) \<times> string
    \<times> (string \<times> json) list \<times> string list option \<times> string option \<times> string" where
  "version_content r = (version_key r, (vr_family_version r, vr_seed r, vr_mode r), vr_sha r, vr_spec r, vr_cves r,
     vr_cve_hash r, vr_spec_version r)"

text \<open>How a stored version may change: a draft may be published, a published version archived.\<close>

definition version_ages :: "version_row \<Rightarrow> version_row \<Rightarrow> bool" where
  "version_ages r r' \<longleftrightarrow> version_content r' = version_content r
     \<and> (vr_state r = Draft \<or> vr_published_at r' = vr_published_at r)
     \<and> (vr_state r' = vr_state r \<or> (vr_state r, vr_state r') \<in> {(Draft, Published), (Draft, Archived), (Published, Archived)})
     \<and> (vr_state r = Archived \<longrightarrow> r' = r)"

definition versions_age :: "authdb \<Rightarrow> authdb \<Rightarrow> bool" where
  "versions_age db db' \<longleftrightarrow> (\<forall>r \<in> set (ad_versions db). \<exists>r' \<in> set (ad_versions db'). version_ages r r')"

lemma version_ages_refl [simp]: "version_ages r r"
  by (simp add: version_ages_def)

lemma version_ages_trans: "version_ages a b \<Longrightarrow> version_ages b c \<Longrightarrow> version_ages a c"
  by (auto simp: version_ages_def)

lemma versions_age_refl: "versions_age db db"
  by (auto simp: versions_age_def intro: version_ages_refl)

lemma versions_age_append:
  "versions_age db0 db \<Longrightarrow> set (ad_versions db) \<subseteq> set (ad_versions db') \<Longrightarrow> versions_age db0 db'"
  unfolding versions_age_def by blast

lemma versions_age_flush:
  assumes ok: "versions_ok db" and old: "find_row version_key (version_key new) (ad_versions db) = Some old"
    and ages: "version_ages old new" and flush: "flush_version new db = Inr (u, db')" and base: "versions_age db0 db"
  shows "versions_age db0 db'"
proof (cases "old = new")
  case False
  then have db': "db' = db\<lparr>ad_versions := put_row version_key new (ad_versions db)\<rparr>"
    using flush by (simp add: flush_version_effect [OF old])
  note o = find_row_SomeD [OF old]
  have "\<exists>r' \<in> set (ad_versions db'). version_ages r r'" if r: "r \<in> set (ad_versions db)" for r
  proof (cases "version_key r = version_key new")
    case True
    then have "r = old" using ok r o unfolding versions_ok_def by (metis distinct_map inj_onD)
    moreover have "new \<in> set (ad_versions db')" using r True by (auto simp: db' put_row_def)
    ultimately show ?thesis using ages by blast
  next
    case False
    then have "r \<in> set (ad_versions db')" using r by (force simp: db' put_row_def)
    then show ?thesis using version_ages_refl by blast
  qed
  then show ?thesis using base unfolding versions_age_def by (meson version_ages_trans)
qed (use flush base in \<open>simp add: flush_version_effect [OF old]\<close>)

lemma transitions_age:
  "vr_state r = Draft \<Longrightarrow> version_ages r (r\<lparr>vr_state := Published, vr_published_at := Some t\<rparr>)"
  "vr_state r = Published \<Longrightarrow> version_ages r (r\<lparr>vr_state := Archived, vr_archived_at := Some t\<rparr>)"
  by (simp_all add: version_ages_def version_content_def version_key_def)

lemma moved_key [simp]:
  "version_key (r\<lparr>vr_state := s, vr_published_at := p\<rparr>) = version_key r"
  "version_key (r\<lparr>vr_state := s, vr_archived_at := p\<rparr>) = version_key r"
  by (simp_all add: version_key_def)

lemma find_row_self: "find_row k x rows = Some r \<Longrightarrow> find_row k (k r) rows = Some r"
  using find_row_SomeD by metis

lemma publish_ages:
  assumes "authdb_ok db" "versions_age db0 db" "version_publish d no moment db = Inr (u, db')"
  shows "versions_age db0 db'"
  using assms(3) unfolding version_publish_def
  by (auto simp: tx_simps intro: find_row_self
      intro!: versions_age_flush [OF authdb_okD(4) [OF assms(1)] _ transitions_age(1) _ assms(2)])

lemma archive_ages:
  assumes "authdb_ok db" "versions_age db0 db" "version_archive d no moment db = Inr (u, db')"
  shows "versions_age db0 db'"
  using assms(3) unfolding version_archive_def
  by (auto simp: tx_simps intro: find_row_self
      intro!: versions_age_flush [OF authdb_okD(4) [OF assms(1)] _ transitions_age(2) _ assms(2)])

lemma draft_ages:
  assumes "versions_age db0 db" shows "versions_age db0 (after (create_draft q) db)"
proof -
  have "versions_age db0 db'" if "create_draft q db = (Inr v, db')" for v db'
    using that unfolding create_draft_def session_scope_eq Let_def version_list_for_definition_def version_get_def read_version_def
    by (auto simp: tx_simps version_add_effect split: option.splits intro!: versions_age_append [OF assms])
  moreover have "after (create_draft q) db = db" if "fst (create_draft q db) = Inl e" for e
    using session_scope_raises [OF that [unfolded create_draft_def]] by (simp add: create_draft_def after_def)
  ultimately show ?thesis
    using assms by (cases "create_draft q db"; cases "fst (create_draft q db)") (auto simp: after_def)
qed

text \<open>The other writes leave the versions as they are.\<close>

lemma other_writes:
  "competition_add c db = Inr (u, db') \<Longrightarrow> ad_versions db' = ad_versions db"
  "competition_update c db = Inr (u, db') \<Longrightarrow> ad_versions db' = ad_versions db"
  "team_add t db = Inr (u, db') \<Longrightarrow> ad_versions db' = ad_versions db"
  "definition_add d db = Inr (u, db') \<Longrightarrow> ad_versions db' = ad_versions db"
  "definition_update d db = Inr (u, db') \<Longrightarrow> ad_versions db' = ad_versions db"
  "build_add b db = Inr (u, db') \<Longrightarrow> ad_versions db' = ad_versions db"
  "publication_add p db = Inr (u, db') \<Longrightarrow> ad_versions db' = ad_versions db"
  "publication_update p db = Inr (u, db') \<Longrightarrow> ad_versions db' = ad_versions db"
  "publication_remove s k no db = Inr (w, db') \<Longrightarrow> ad_versions db' = ad_versions db"
  by (auto simp: competition_add_effect competition_update_effect team_add_effect definition_add_effect
      definition_update_effect build_add_def version_uuid_and_sha_def version_uuid_and_state_def publication_add_def
      publication_update_def publication_remove_def Let_def tx_simps split: option.splits)

lemma same_versions_age: "ad_versions db' = ad_versions db \<Longrightarrow> versions_age db0 db \<Longrightarrow> versions_age db0 db'"
  by (simp add: versions_age_def)

interpretation cat_age: catalogue_writes "\<lambda>db. authdb_ok db \<and> versions_age db0 db" for db0
  by unfold_locales
    (auto simp: tx_keeps_def intro: add_competition_ok update_competition_ok add_team_ok add_definition_ok update_definition_ok
      after_create_draft publish_ok archive_ok add_build_ok add_publication_ok update_publication_ok remove_publication_ok
      publish_ages archive_ages draft_ages same_versions_age other_writes)

section \<open>Properties\<close>

definition sample_spec :: "(string \<times> json) list" where
  "sample_spec = [(''flag'', JStr ''FLAG'')]"

definition sample_draft :: draft_request where
  "sample_draft = \<lparr>dq_definition = ''web'', dq_seed = ''s'', dq_family_version = ''1'', dq_spec = sample_spec,
     dq_spec_version = None, dq_mode = ''red'', dq_cves = [], dq_cve_hash = None\<rparr>"

definition sample_window :: competition_config where
  "sample_window = \<lparr>cc_id = ''ctf'', cc_name = ''CTF'', cc_start = 0, cc_end = 100, cc_scoring_start = None,
     cc_freeze = Some 90, cc_default = None\<rparr>"

definition sample_calls :: "authoring_call list" where
  "sample_calls =
     [CreateCompetition sample_window,
      CreateTeam \<lparr>tm_competition = ''ctf'', tm_name = ''red''\<rparr>,
      CreateDefinition \<lparr>df_family = ''sqli'', df_slug = ''web'', df_title = ''Web''\<rparr>,
      CreateDraft sample_draft,
      PublishVersion ''web'' 1 5 None,
      AttachPublication \<lparr>pb_competition = ''ctf'', pb_definition = ''web'', pb_no = 1, pb_initial = 500, pb_minimum = 100,
        pb_function = ''linear'', pb_decay = 10, pb_first_blood = True, pb_points = 25, pb_percent = 10\<rparr>]"

lemma sample_calls_well_formed: "\<forall>c \<in> set sample_calls. well_formed_call c"
  by (simp add: sample_calls_def team_post_init_def definition_post_init_def publication_post_init_def
      valid_decay_functions_def) code_simp

lemma catalogue_inv: "\<forall>c \<in> set calls. well_formed_call c \<Longrightarrow> authdb_ok (catalogue_after calls)"
  unfolding catalogue_after_def by (rule cat_inv.runs_keep [OF empty_authdb_ok])

text \<open>The window check of the service and the general configuration check agree on the times.\<close>

lemma window_checks_agree:
  "validate_window c = Inr () \<longleftrightarrow> validate_competition_config (c\<lparr>cc_default := None\<rparr>) = []"
  by (auto simp: validate_window_def validate_competition_config_def Let_def split: option.split)

text \<open>
  C22. Every catalogue reachable by calls of the catalogue services is consistent: keys are unique, every
  window is one the validation accepts, every row refers to an existing parent, every stored value would
  pass its own constructor, the hash of a version is the hash of its spec, the versions of a definition
  are numbered 1, 2, ... without a gap, a build carries the hash of its version, and a publication points
  at a version that has left draft and fits its columns.
\<close>

theorem catalogue_reachable_invariant:
  assumes "\<forall>c \<in> set calls. well_formed_call c"
  shows "authdb_ok (catalogue_after calls)"
  by (rule catalogue_inv [OF assms])

theorem catalogue_reachable_invariant_witness:
  "authdb_ok (catalogue_after sample_calls) \<and> sample_calls \<noteq> []"
  using catalogue_reachable_invariant [OF sample_calls_well_formed] by (simp add: sample_calls_def)

text \<open>
  C23. Once a version has left draft its content, hash and publication time never change again under
  any calls, it can only be archived, and an archived row stays as it is; the content of a draft is
  fixed from the start as well, and no version is ever dropped.
\<close>

theorem published_content_is_frozen:
  assumes "\<forall>c \<in> set (calls @ later). well_formed_call c" and "r \<in> set (ad_versions (catalogue_after calls))"
  shows "\<exists>r' \<in> set (ad_versions (catalogue_after (calls @ later))).
     vr_definition r' = vr_definition r \<and> vr_no r' = vr_no r \<and> vr_spec r' = vr_spec r \<and> vr_sha r' = vr_sha r
     \<and> vr_seed r' = vr_seed r \<and> vr_mode r' = vr_mode r \<and> vr_cves r' = vr_cves r
     \<and> (vr_state r = Published \<longrightarrow> vr_published_at r' = vr_published_at r \<and> vr_state r' \<in> {Published, Archived})
     \<and> (vr_state r = Archived \<longrightarrow> r' = r)"
proof -
  let ?db = "catalogue_after calls"
  have "authdb_ok ?db" using assms(1) by (intro catalogue_inv) simp
  then have "versions_age ?db (catalogue_after (calls @ later))"
    using cat_age.runs_keep [of ?db ?db later] assms(1) versions_age_refl [of ?db]
    by (simp add: catalogue_after_def)
  then obtain r' where "r' \<in> set (ad_versions (catalogue_after (calls @ later)))" "version_ages r r'"
    using assms(2) by (auto simp: versions_age_def)
  then show ?thesis by (intro bexI [of _ r']) (auto simp: version_ages_def version_content_def version_key_def)
qed

lemma sample_names [simp]: "nonempty ''ctf''" "nonempty ''red''" "nonempty ''sqli''" "nonempty ''web''" "nonempty ''Web''"
    "nonempty ''s''" "nonempty ''1''" "nonempty ''1.1''"
  by code_simp+

lemma after_run: "m db = Inr (x, db') \<Longrightarrow> after (session_scope m) db = db'"
  by (simp add: after_def session_scope_def)

definition sample_row :: version_row where
  "sample_row = \<lparr>vr_definition = ''web'', vr_no = 1, vr_state = Draft, vr_family_version = ''1'', vr_seed = ''s'',
     vr_mode = ''red'', vr_sha = spec_content_hash sample_spec, vr_spec = sample_spec, vr_cves = None, vr_cve_hash = None,
     vr_spec_version = ''1.1'', vr_published_at = None, vr_archived_at = None\<rparr>"

definition sample_parents :: authdb where
  "sample_parents = run_authoring (CreateDefinition \<lparr>df_family = ''sqli'', df_slug = ''web'', df_title = ''Web''\<rparr>)
     (run_authoring (CreateTeam \<lparr>tm_competition = ''ctf'', tm_name = ''red''\<rparr>)
       (run_authoring (CreateCompetition sample_window) empty_authdb))"

lemma sample_parents_eq: "sample_parents = \<lparr>ad_competitions = [\<lparr>cpr_slug = ''ctf'', cpr_name = ''CTF'', cpr_start = 0,
     cpr_end = 100, cpr_scoring_start = None, cpr_freeze = Some 90, cpr_status = ''draft''\<rparr>],
   ad_teams = [\<lparr>tr_competition = ''ctf'', tr_name = ''red''\<rparr>],
   ad_definitions = [\<lparr>dr_slug = ''web'', dr_family = ''sqli'', dr_title = ''Web''\<rparr>],
   ad_versions = [], ad_builds = [], ad_publications = []\<rparr>"
  by code_simp

lemma sample_draft_created:
  "run_authoring (CreateDraft sample_draft) sample_parents = sample_parents\<lparr>ad_versions := [sample_row]\<rparr>"
proof -
  have row: "challenge_version_to_orm (draft_of sample_draft 1) ''web'' = sample_row"
    by (simp add: challenge_version_to_orm_def draft_of_def sample_draft_def sample_row_def current_spec_version_def)
  have v: "version_post_init (draft_of sample_draft 1) = Inr ()" "cv_definition (draft_of sample_draft 1) = ''web''"
    "cv_no (draft_of sample_draft 1) = 1"
    by (simp_all add: version_post_init_def draft_of_def sample_draft_def current_spec_version_def)
  have check: "version_check sample_row = None" by (simp add: version_check_def sample_row_def)
  have list: "version_list_for_definition ''web'' sample_parents = Inr ([], sample_parents)"
    by (simp add: version_list_for_definition_def sample_parents_eq tx_simps)
  have add: "version_add (draft_of sample_draft 1) sample_parents = Inr ((), sample_parents\<lparr>ad_versions := [sample_row]\<rparr>)"
    unfolding version_add_effect v row by (simp add: check sample_parents_eq int_column_def)
  have found: "find_row version_key (''web'', 1) [sample_row] = Some sample_row" by (simp add: find_row_Cons version_key_def sample_row_def)
  have init: "version_post_init (challenge_version_from_orm sample_row ''web'') = Inr ()"
    unfolding row [symmetric] using v version_row_roundtrip by metis
  have get: "version_get ''web'' 1 (sample_parents\<lparr>ad_versions := [sample_row]\<rparr>)
      = Inr (Some (challenge_version_from_orm sample_row ''web''), sample_parents\<lparr>ad_versions := [sample_row]\<rparr>)"
    unfolding version_get_def read_version_def by (simp add: tx_bind_def tx_get_def found construct_def init tx_ret_def)
  have d: "dq_definition sample_draft = ''web''" by (simp add: sample_draft_def)
  show ?thesis
    unfolding run_authoring.simps create_draft_def d
    by (rule after_run) (simp add: tx_bind_def list next_version_no_def construct_def v tx_ret_def add get)
qed

lemma sample_published:
  "ad_versions (catalogue_after sample_calls) = [sample_row\<lparr>vr_state := Published, vr_published_at := Some 5\<rparr>]"
proof -
  let ?r = "sample_row\<lparr>vr_state := Published, vr_published_at := Some 5\<rparr>" and ?db = "sample_parents\<lparr>ad_versions := [sample_row]\<rparr>"
  let ?pub = "\<lparr>pb_competition = ''ctf'', pb_definition = ''web'', pb_no = 1, pb_initial = 500, pb_minimum = 100,
        pb_function = ''linear'', pb_decay = 10, pb_first_blood = True, pb_points = 25, pb_percent = 10\<rparr>"
  have found: "find_row version_key (''web'', 1) [sample_row] = Some sample_row" "find_row version_key (''web'', 1) [?r] = Some ?r"
    by (simp_all add: find_row_Cons version_key_def sample_row_def)
  have flush: "flush_version ?r ?db = Inr ((), ?db\<lparr>ad_versions := [?r]\<rparr>)"
    using flush_version_effect [of ?r ?db sample_row "()" "?db\<lparr>ad_versions := [?r]\<rparr>"] found(1)
    by (simp add: sample_row_def version_key_def freeze_published_version_def version_check_def put_row_def)
  have init: "version_post_init (challenge_version_from_orm sample_row ''web'') = Inr ()"
      "version_post_init (challenge_version_from_orm ?r ''web'') = Inr ()"
    by (simp_all add: version_post_init_def challenge_version_from_orm_def sample_row_def)
  have state: "vr_state sample_row = Draft" by (simp add: sample_row_def)
  have pub: "version_publish ''web'' 1 (Some 5) ?db = Inr ((), ?db\<lparr>ad_versions := [?r]\<rparr>)"
    unfolding version_publish_def
    by (simp add: tx_bind_def tx_get_def tx_some_def tx_ret_def tx_guard_def found state flush del: authdb.simps(4))
  have run: "run_authoring (PublishVersion ''web'' 1 5 None) ?db = ?db\<lparr>ad_versions := [?r]\<rparr>"
    unfolding run_authoring.simps publish_version_def
    by (rule after_run) (simp add: tx_bind_def tx_get_def tx_some_def tx_ret_def construct_def version_get_def read_version_def
        found init pub run_guard_def)
  have "tx_keeps (\<lambda>db. ad_versions db = [?r]) (publication_add p)" for p
    using other_writes(7) by (auto simp: tx_keeps_def)
  then have "tx_keeps (\<lambda>db. ad_versions db = [?r]) (tx_bind (publication_add p)
      (\<lambda>_. publication_get (pb_competition p) (pb_definition p) (pb_no p)))" for p
    by (intro keeps_intro)
  from after_scope [OF this, of "?db\<lparr>ad_versions := [?r]\<rparr>" ?pub]
  have "ad_versions (run_authoring (AttachPublication ?pub) (?db\<lparr>ad_versions := [?r]\<rparr>)) = [?r]"
    by (simp add: attach_publication_def)
  then show ?thesis
    using sample_draft_created run by (simp add: catalogue_after_def sample_calls_def sample_parents_def)
qed

theorem published_content_is_frozen_witness:
  "\<exists>r \<in> set (ad_versions (catalogue_after sample_calls)). vr_state r = Published \<and>
     (\<exists>r' \<in> set (ad_versions (catalogue_after (sample_calls @ [PublishVersion ''web'' 1 9 None]))).
        vr_spec r' = sample_spec \<and> vr_published_at r' = Some 5)"
proof -
  have wf: "\<forall>c \<in> set (sample_calls @ [PublishVersion ''web'' 1 9 None]). well_formed_call c"
    using sample_calls_well_formed by auto
  obtain r where r: "r \<in> set (ad_versions (catalogue_after sample_calls))" "vr_state r = Published" "vr_spec r = sample_spec"
      "vr_published_at r = Some 5"
    by (simp add: sample_published sample_row_def)
  from published_content_is_frozen [OF wf r(1)] r show ?thesis by fastforce
qed

lemma reads_typed:
  assumes ok: "authdb_ok db"
  shows "\<exists>v. version_get d no db = Inr (v, db) \<and> (\<forall>x. v = Some x \<longrightarrow> version_post_init x = Inr ())"
    and "\<exists>vs. version_list_for_definition d db = Inr (vs, db) \<and> (\<forall>x \<in> set vs. version_post_init x = Inr ()) \<and> sorted (map cv_no vs)"
    and "\<exists>v. definition_get d db = Inr (v, db) \<and> (\<forall>x. v = Some x \<longrightarrow> definition_post_init x = Inr ())"
    and "\<exists>v. team_get c n db = Inr (v, db) \<and> (\<forall>x. v = Some x \<longrightarrow> team_post_init x = Inr ())"
    and "\<exists>v. build_get sha db = Inr (v, db) \<and> (\<forall>x. v = Some x \<longrightarrow> build_post_init x = Inr ())"
    and "\<exists>ps. publication_list_for_competition c db = Inr (ps, db) \<and> (\<forall>p \<in> set ps. publication_post_init p = Inr ()
      \<and> pb_competition p = c \<and> - (2 ^ 31) \<le> pb_minimum p \<and> pb_minimum p \<le> pb_initial p \<and> pb_initial p < 2 ^ 31)"
proof -
  note v = versions_okD(1) [OF authdb_okD(4) [OF ok]]
  have dk: "definition_post_init (challenge_definition_from_orm r) = Inr ()" if "r \<in> set (ad_definitions db)" for r
    using authdb_okD(3) [OF ok] that by (simp add: definitions_ok_def)
  have tk: "team_post_init (team_from_orm r (tr_competition r)) = Inr ()" if "r \<in> set (ad_teams db)" for r
    using authdb_okD(2) [OF ok] that by (simp add: teams_ok_def)
  have bk: "build_post_init (challenge_build_from_orm r (fst (br_version r)) (snd (br_version r))) = Inr ()"
    if "r \<in> set (ad_builds db)" for r
    using authdb_okD(5) [OF ok] that by (simp add: builds_ok_def)
  show "\<exists>v. version_get d no db = Inr (v, db) \<and> (\<forall>x. v = Some x \<longrightarrow> version_post_init x = Inr ())"
  proof (cases "find_row version_key (d, no) (ad_versions db)")
    case (Some r)
    then have "version_post_init (challenge_version_from_orm r d) = Inr ()"
      using v find_row_SomeD [OF Some] by (metis fst_conv version_key_def)
    with Some show ?thesis by (auto simp: version_get_def read_version_def tx_simps)
  qed (auto simp: version_get_def read_version_def tx_simps)
  show "\<exists>vs. version_list_for_definition d db = Inr (vs, db) \<and> (\<forall>x \<in> set vs. version_post_init x = Inr ()) \<and> sorted (map cv_no vs)"
    using read_versions [OF authdb_okD(4) [OF ok], of d] v
    by (auto simp: comp_def challenge_version_from_orm_def sorted_sort_key [where f = vr_no, simplified])
  show "\<exists>v. definition_get d db = Inr (v, db) \<and> (\<forall>x. v = Some x \<longrightarrow> definition_post_init x = Inr ())"
  proof (cases "find_row dr_slug d (ad_definitions db)")
    case (Some r)
    with dk find_row_SomeD [OF Some] show ?thesis by (auto simp: definition_get_def tx_simps)
  qed (auto simp: definition_get_def tx_simps)
  show "\<exists>v. team_get c n db = Inr (v, db) \<and> (\<forall>x. v = Some x \<longrightarrow> team_post_init x = Inr ())"
  proof (cases "find_row team_key (c, n) (ad_teams db)")
    case (Some r)
    then have "team_post_init (team_from_orm r c) = Inr ()"
      using tk find_row_SomeD [OF Some] by (metis fst_conv team_key_def)
    with Some show ?thesis by (auto simp: team_get_def tx_simps)
  qed (auto simp: team_get_def tx_simps)
  show "\<exists>v. build_get sha db = Inr (v, db) \<and> (\<forall>x. v = Some x \<longrightarrow> build_post_init x = Inr ())"
  proof (cases "find_row br_sha sha (ad_builds db)")
    case (Some r)
    with bk find_row_SomeD [OF Some] show ?thesis by (auto simp: build_get_def tx_simps)
  qed (auto simp: build_get_def tx_simps)
  show "\<exists>ps. publication_list_for_competition c db = Inr (ps, db) \<and> (\<forall>p \<in> set ps. publication_post_init p = Inr ()
      \<and> pb_competition p = c \<and> - (2 ^ 31) \<le> pb_minimum p \<and> pb_minimum p \<le> pb_initial p \<and> pb_initial p < 2 ^ 31)"
  proof -
    let ?f = "\<lambda>r. challenge_publication_from_orm r c (fst (pr_version r)) (snd (pr_version r))"
    have row: "publication_post_init (?f r) = Inr () \<and> publication_columns r" if "r \<in> set (ad_publications db)" "pr_competition r = c" for r
      using publications_okD(3,4) [OF authdb_okD(6) [OF ok] that(1)] that(2) by simp
    have pts: "- (2 ^ 31) \<le> pb_minimum (?f r) \<and> pb_minimum (?f r) \<le> pb_initial (?f r) \<and> pb_initial (?f r) < 2 ^ 31"
      if "r \<in> set (ad_publications db)" "pr_competition r = c" for r
      using row [OF that] by (auto simp: publication_columns_def int_column_def publication_post_init_def
          challenge_publication_from_orm_def split: if_splits)
    let ?ps = "map ?f (filter (\<lambda>r. pr_competition r = c) (ad_publications db))"
    have "publication_list_for_competition c db = Inr (?ps, db)"
      unfolding publication_list_for_competition_def using row by (auto simp: tx_simps)
    moreover have "\<forall>p \<in> set ?ps. publication_post_init p = Inr () \<and> pb_competition p = c
        \<and> - (2 ^ 31) \<le> pb_minimum p \<and> pb_minimum p \<le> pb_initial p \<and> pb_initial p < 2 ^ 31"
      using row pts by (auto simp: challenge_publication_from_orm_def)
    ultimately show ?thesis by blast
  qed
qed



end
