(* ===== verification/Ledger_Models.thy ===== *)
theory Ledger_Models
  imports Authoring_Models Scoreboard
begin

text \<open>
  The value types of the competition ledger: \<open>domain/ledger/models.py\<close> (submissions, solves, score
  events, projection tasks and records) and \<open>domain/ledger/processing.py\<close> (the request and the outcome
  of processing one submission), with the checks of their constructors. Ids are \<open>ident\<close>; instants of
  records are timezone-aware, only the text \<open>ts\<close> of an event may be anything.
\<close>

section \<open>Timestamps as text\<close>

text \<open>
  What \<open>datetime.fromisoformat\<close> makes of the text: an aware datetime, a naive one, or a \<open>ValueError\<close>.
\<close>

datatype stamp = Stamp instant | Naive instant | Unreadable string

fun stamp_nonempty :: "stamp \<Rightarrow> bool" where
  "stamp_nonempty (Unreadable s) = nonempty s"
| "stamp_nonempty _ = True"

fun stamp_aware :: "stamp \<Rightarrow> bool" where
  "stamp_aware (Stamp t) = True"
| "stamp_aware _ = False"

lemma stamp_aware_iff: "stamp_aware s \<longleftrightarrow> (\<exists>t. s = Stamp t)"
  by (cases s) auto

section \<open>Submissions and solves\<close>

record ledger_submission =
  ls_id :: ident
  ls_competition :: string
  ls_team :: string
  ls_definition :: string
  ls_no :: int
  ls_at :: instant
  ls_correct :: bool
  ls_email :: "string option"
  ls_seed :: "string option"

definition ledger_submission_post_init :: "ledger_submission \<Rightarrow> exn + unit" where
  "ledger_submission_post_init s =
     (if \<not> ident_nonempty (ls_id s) then Inl ValueError
      else if \<not> nonempty (ls_competition s) then Inl ValueError
      else if \<not> nonempty (ls_team s) then Inl ValueError
      else if \<not> nonempty (ls_definition s) then Inl ValueError
      else if ls_no s < 1 then Inl ValueError
      else Inr ())"

record solve =
  so_id :: ident
  so_competition :: string
  so_team :: string
  so_definition :: string
  so_no :: int
  so_submission :: ident
  so_at :: instant
  so_seed :: "string option"

definition solve_post_init :: "solve \<Rightarrow> exn + unit" where
  "solve_post_init s =
     (if \<not> ident_nonempty (so_id s) then Inl ValueError
      else if \<not> nonempty (so_competition s) then Inl ValueError
      else if \<not> nonempty (so_team s) then Inl ValueError
      else if \<not> nonempty (so_definition s) then Inl ValueError
      else if so_no s < 1 then Inl ValueError
      else if \<not> ident_nonempty (so_submission s) then Inl ValueError
      else Inr ())"

section \<open>Score events\<close>

datatype score_event_type = EvSubmission | EvSolve | EvFirstBlood | EvFreeze | EvRevalue

record score_event =
  ev_competition :: string
  ev_team :: string
  ev_definition :: string
  ev_no :: int
  ev_type :: score_event_type
  ev_ts :: stamp
  ev_payload :: "(string \<times> json) list"
  ev_submission :: "ident option"
  ev_solve :: "ident option"
  ev_seq :: "int option"

definition opt_ident_nonempty :: "ident option \<Rightarrow> bool" where
  "opt_ident_nonempty x = (case x of None \<Rightarrow> True | Some i \<Rightarrow> ident_nonempty i)"

definition score_event_post_init :: "score_event \<Rightarrow> exn + unit" where
  "score_event_post_init e =
     (if \<not> nonempty (ev_competition e) then Inl ValueError
      else if \<not> nonempty (ev_team e) then Inl ValueError
      else if \<not> nonempty (ev_definition e) then Inl ValueError
      else if ev_no e < 1 then Inl ValueError
      else if \<not> stamp_nonempty (ev_ts e) then Inl ValueError
      else if (case ev_seq e of None \<Rightarrow> False | Some n \<Rightarrow> n < 1) then Inl ValueError
      else if \<not> opt_ident_nonempty (ev_submission e) then Inl ValueError
      else if \<not> opt_ident_nonempty (ev_solve e) then Inl ValueError
      else Inr ())"

section \<open>Projection tasks, records and lag\<close>

text \<open>The sanitized error text of a task is a rendering of the exception, which the model keeps instead.\<close>

datatype task_status = TaskPending | TaskFailed

record projection_task =
  pt_seq :: int
  pt_competition :: string
  pt_status :: task_status
  pt_attempts :: int
  pt_created :: instant
  pt_error :: "exn option"

definition projection_task_post_init :: "projection_task \<Rightarrow> exn + unit" where
  "projection_task_post_init t =
     (if pt_seq t < 1 then Inl ValueError
      else if \<not> nonempty (pt_competition t) then Inl ValueError
      else if pt_attempts t < 0 then Inl ValueError
      else Inr ())"

record projection_record =
  sp_competition :: string
  sp_seq :: int
  sp_entries :: scoreboard_snapshot
  sp_computed :: "instant option"

definition projection_record_post_init :: "projection_record \<Rightarrow> exn + unit" where
  "projection_record_post_init p =
     (if \<not> nonempty (sp_competition p) then Inl ValueError else if sp_seq p < 0 then Inl ValueError else Inr ())"

record projection_lag =
  pl_pending :: int
  pl_latest :: int
  pl_max_as_of :: int
  pl_oldest :: "instant option"
  pl_failed :: int

definition projection_lag_post_init :: "projection_lag \<Rightarrow> exn + unit" where
  "projection_lag_post_init l =
     (if pl_pending l < 0 then Inl ValueError else if pl_latest l < 0 then Inl ValueError
      else if pl_max_as_of l < 0 then Inl ValueError else if pl_failed l < 0 then Inl ValueError else Inr ())"

section \<open>Processing one submission\<close>

record submission_request =
  sr_id :: ident
  sr_competition :: string
  sr_team :: string
  sr_definition :: string
  sr_no :: int
  sr_at :: instant
  sr_candidate :: string
  sr_email :: "string option"
  sr_seed :: "string option"

definition submission_request_post_init :: "submission_request \<Rightarrow> exn + unit" where
  "submission_request_post_init q =
     (if \<not> ident_nonempty (sr_id q) then Inl ValueError
      else if \<not> nonempty (sr_competition q) then Inl ValueError
      else if \<not> nonempty (sr_team q) then Inl ValueError
      else if \<not> nonempty (sr_definition q) then Inl ValueError
      else if sr_no q < 1 then Inl ValueError
      else Inr ())"

record submission_outcome =
  oc_submission :: ledger_submission
  oc_solve :: "solve option"
  oc_event :: "score_event option"
  oc_accepted :: bool
  oc_first :: bool
  oc_replay :: bool

definition submission_outcome_post_init :: "submission_outcome \<Rightarrow> exn + unit" where
  "submission_outcome_post_init c =
     (if oc_first c \<and> \<not> oc_accepted c then Inl ValueError
      else if oc_first c \<and> oc_solve c = None then Inl ValueError
      else if oc_solve c \<noteq> None \<and> \<not> oc_accepted c then Inl ValueError
      else if oc_event c \<noteq> None \<and> \<not> oc_first c then Inl ValueError
      else if oc_accepted c \<noteq> ls_correct (oc_submission c) then Inl ValueError
      else Inr ())"

lemmas ledger_post_inits = ledger_submission_post_init_def solve_post_init_def score_event_post_init_def
  projection_task_post_init_def projection_record_post_init_def projection_lag_post_init_def
  submission_request_post_init_def submission_outcome_post_init_def

end
