(* ===== verification/Ledger_Store.thy ===== *)
theory Ledger_Store
  imports Ledger_Models Authoring_Store
begin

text \<open>
  The append-only ledger tables of migration 0005 (submissions, solves, score events), the outbox and the
  scoreboard cache of migration 0008, and their repositories. A row carries the business keys its
  surrogate uuids stand for; a caller may hand pre-resolved keys to an insert, as the repositories allow.
  The number of a new event and the database clock are arguments. Triggers and unique keys run where a row
  is inserted, in PostgreSQL's order: BEFORE triggers, unique keys, foreign keys, AFTER triggers.
\<close>

section \<open>Tables\<close>

record submission_row =
  su_id :: nat
  su_competition :: string
  su_team :: string
  su_version :: "string \<times> int"
  su_user :: "string option"
  su_at :: instant
  su_correct :: bool
  su_seed :: "string option"

record solve_row =
  sv_id :: nat
  sv_competition :: string
  sv_team :: string
  sv_version :: "string \<times> int"
  sv_submission :: nat
  sv_at :: instant
  sv_seed :: "string option"

record event_row =
  er_seq :: int
  er_competition :: string
  er_team :: string
  er_version :: "string \<times> int"
  er_type :: score_event_type
  er_ts :: stamp
  er_payload :: "(string \<times> json) list"
  er_submission :: "nat option"
  er_solve :: "nat option"

record outbox_row =
  ob_seq :: int
  ob_competition :: string
  ob_status :: task_status
  ob_attempts :: int
  ob_error :: "exn option"
  ob_created :: instant

record projection_row =
  pj_competition :: string
  pj_seq :: int
  pj_entries :: scoreboard_snapshot
  pj_computed :: instant

record ledgerdb =
  ld_submissions :: "submission_row list"
  ld_solves :: "solve_row list"
  ld_events :: "event_row list"
  ld_outbox :: "outbox_row list"
  ld_projections :: "projection_row list"

type_synonym scope = "string option \<times> string option \<times> (string \<times> int) option"

definition unresolved :: scope where
  "unresolved = (None, None, None)"

text \<open>The keys an insert uses: the ones it was given, resolved on demand where it was given none.\<close>

definition row_scope :: "catalog \<Rightarrow> scope \<Rightarrow> string \<Rightarrow> string \<Rightarrow> string \<Rightarrow> int \<Rightarrow>
    ('s, string \<times> string \<times> string \<times> int) tx" where
  "row_scope cat sc slug team defn no = (case sc of (co, te, ve) \<Rightarrow>
     tx_bind (case co of Some c \<Rightarrow> tx_ret c | None \<Rightarrow> competition_uuid cat slug) (\<lambda>c.
     tx_bind (case te of Some t \<Rightarrow> tx_ret t | None \<Rightarrow> team_uuid cat c team) (\<lambda>t.
     tx_bind (case ve of Some v \<Rightarrow> tx_ret v | None \<Rightarrow> version_uuid cat defn no) (\<lambda>v.
     tx_ret (c, t, v)))))"

section \<open>Submissions\<close>

definition submission_to_orm :: "ledger_submission \<Rightarrow> string \<Rightarrow> string \<Rightarrow> string \<times> int \<Rightarrow> string option \<Rightarrow> exn + submission_row" where
  "submission_to_orm s c t v u = (case as_uuid (ls_id s) of None \<Rightarrow> Inl ValueError
     | Some n \<Rightarrow> Inr \<lparr>su_id = n, su_competition = c, su_team = t, su_version = v, su_user = u,
         su_at = ls_at s, su_correct = ls_correct s, su_seed = ls_seed s\<rparr>)"

definition submission_from_orm :: "submission_row \<Rightarrow> ledger_submission" where
  "submission_from_orm r = \<lparr>ls_id = Uid (su_id r), ls_competition = su_competition r, ls_team = su_team r,
     ls_definition = fst (su_version r), ls_no = snd (su_version r), ls_at = su_at r,
     ls_correct = su_correct r, ls_email = su_user r, ls_seed = su_seed r\<rparr>"

definition submission_add :: "catalog \<Rightarrow> ledger_submission \<Rightarrow> scope \<Rightarrow> (ledgerdb, unit) tx" where
  "submission_add cat s sc =
     tx_bind (row_scope cat sc (ls_competition s) (ls_team s) (ls_definition s) (ls_no s)) (\<lambda>(c, t, v).
     tx_bind (user_uuid_optional cat (ls_email s)) (\<lambda>u.
     tx_bind (tx_sum (submission_to_orm s c t v u)) (\<lambda>r.
     tx_bind (tx_get ld_submissions) (\<lambda>rows.
     tx_bind (unique_keys [(''pk_submissions'', su_id r \<in> su_id ` set rows)]) (\<lambda>_.
     tx_modify (\<lambda>db. db\<lparr>ld_submissions := ld_submissions db @ [r]\<rparr>))))))"

definition submission_get :: "ident \<Rightarrow> (ledgerdb, ledger_submission option) tx" where
  "submission_get i = (case as_uuid i of None \<Rightarrow> tx_ret None | Some n \<Rightarrow>
     tx_bind (tx_get (\<lambda>db. find_row su_id n (ld_submissions db))) (\<lambda>found.
       (case found of None \<Rightarrow> tx_ret None
        | Some r \<Rightarrow> tx_bind (construct ledger_submission_post_init (submission_from_orm r)) (\<lambda>s. tx_ret (Some s)))))"

definition submissions_ordered :: "(submission_row \<Rightarrow> bool) \<Rightarrow> (ledgerdb, ledger_submission list) tx" where
  "submissions_ordered P =
     tx_bind (tx_get (\<lambda>db. sort_key (\<lambda>r. (su_at r, su_id r)) (filter P (ld_submissions db)))) (\<lambda>rows.
     construct_all ledger_submission_post_init (map submission_from_orm rows))"

definition submission_list_for_team :: "string \<Rightarrow> string \<Rightarrow> (ledgerdb, ledger_submission list) tx" where
  "submission_list_for_team c t = submissions_ordered (\<lambda>r. su_competition r = c \<and> su_team r = t)"

definition submission_list_for_competition :: "string \<Rightarrow> (ledgerdb, ledger_submission list) tx" where
  "submission_list_for_competition c = submissions_ordered (\<lambda>r. su_competition r = c)"

section \<open>Solves\<close>

definition solve_to_orm :: "solve \<Rightarrow> string \<Rightarrow> string \<Rightarrow> string \<times> int \<Rightarrow> exn + solve_row" where
  "solve_to_orm s c t v = (case (as_uuid (so_id s), as_uuid (so_submission s)) of
       (Some n, Some m) \<Rightarrow> Inr \<lparr>sv_id = n, sv_competition = c, sv_team = t, sv_version = v, sv_submission = m,
          sv_at = so_at s, sv_seed = so_seed s\<rparr>
     | _ \<Rightarrow> Inl ValueError)"

definition solve_from_orm :: "solve_row \<Rightarrow> solve" where
  "solve_from_orm r = \<lparr>so_id = Uid (sv_id r), so_competition = sv_competition r, so_team = sv_team r,
     so_definition = fst (sv_version r), so_no = snd (sv_version r), so_submission = Uid (sv_submission r),
     so_at = sv_at r, so_seed = sv_seed r\<rparr>"

definition solve_key :: "solve_row \<Rightarrow> string \<times> string \<times> string \<times> int" where
  "solve_key r = (sv_competition r, sv_team r, sv_version r)"

text \<open>The trigger \<open>solve_requires_correct_submission\<close> and the composite foreign key.\<close>

definition solve_requires_correct :: "submission_row list \<Rightarrow> solve_row \<Rightarrow> bool" where
  "solve_requires_correct subs r \<longleftrightarrow>
     (case find_row su_id (sv_submission r) subs of None \<Rightarrow> False | Some s \<Rightarrow> su_correct s)"

definition solve_submission_tuple :: "submission_row list \<Rightarrow> solve_row \<Rightarrow> bool" where
  "solve_submission_tuple subs r \<longleftrightarrow>
     (sv_submission r, sv_competition r, sv_team r, sv_version r)
       \<in> (\<lambda>s. (su_id s, su_competition s, su_team s, su_version s)) ` set subs"

definition solve_add :: "catalog \<Rightarrow> solve \<Rightarrow> scope \<Rightarrow> (ledgerdb, unit) tx" where
  "solve_add cat s sc =
     tx_bind (row_scope cat sc (so_competition s) (so_team s) (so_definition s) (so_no s)) (\<lambda>(c, t, v).
     tx_bind (tx_sum (solve_to_orm s c t v)) (\<lambda>r.
     tx_bind (tx_get ld_submissions) (\<lambda>subs.
     tx_bind (tx_guard (solve_requires_correct subs r) ProgrammingError) (\<lambda>_.
     tx_bind (tx_get ld_solves) (\<lambda>rows.
     tx_bind (unique_keys
       [(''pk_solves'', sv_id r \<in> sv_id ` set rows),
        (''uq_solves_competition_id_team_id_challenge_version_id'', solve_key r \<in> solve_key ` set rows),
        (''uq_solves_submission_id'', sv_submission r \<in> sv_submission ` set rows),
        (''fk_solves_submission_tuple_submissions'', \<not> solve_submission_tuple subs r)]) (\<lambda>_.
     tx_modify (\<lambda>db. db\<lparr>ld_solves := ld_solves db @ [r]\<rparr>)))))))"

definition found_solve :: "solve_row option \<Rightarrow> (ledgerdb, solve option) tx" where
  "found_solve found = (case found of None \<Rightarrow> tx_ret None
     | Some r \<Rightarrow> tx_bind (construct solve_post_init (solve_from_orm r)) (\<lambda>s. tx_ret (Some s)))"

definition solve_get :: "ident \<Rightarrow> (ledgerdb, solve option) tx" where
  "solve_get i = (case as_uuid i of None \<Rightarrow> tx_ret None
     | Some n \<Rightarrow> tx_bind (tx_get (\<lambda>db. find_row sv_id n (ld_solves db))) found_solve)"

definition solve_get_by_submission :: "ident \<Rightarrow> (ledgerdb, solve option) tx" where
  "solve_get_by_submission i = (case as_uuid i of None \<Rightarrow> tx_ret None
     | Some n \<Rightarrow> tx_bind (tx_get (\<lambda>db. find_row sv_submission n (ld_solves db))) found_solve)"

definition solve_get_for_challenge :: "string \<Rightarrow> string \<Rightarrow> string \<Rightarrow> int \<Rightarrow> (ledgerdb, solve option) tx" where
  "solve_get_for_challenge c t d no =
     tx_bind (tx_get (\<lambda>db. find_row solve_key (c, t, d, no) (ld_solves db))) found_solve"

definition solve_list_for_competition :: "string \<Rightarrow> (ledgerdb, solve list) tx" where
  "solve_list_for_competition c =
     tx_bind (tx_get (\<lambda>db. sort_key sv_at (filter (\<lambda>r. sv_competition r = c) (ld_solves db)))) (\<lambda>rows.
     construct_all solve_post_init (map solve_from_orm rows))"

section \<open>Score events and the outbox\<close>

definition bad_link :: "ident option \<Rightarrow> bool" where
  "bad_link x = (case x of None \<Rightarrow> False | Some i \<Rightarrow> as_uuid i = None)"

definition score_event_to_orm :: "score_event \<Rightarrow> string \<Rightarrow> string \<Rightarrow> string \<times> int \<Rightarrow> int \<Rightarrow> exn + event_row" where
  "score_event_to_orm e c t v seq =
     (if bad_link (ev_submission e) \<or> bad_link (ev_solve e) then Inl ValueError
      else Inr \<lparr>er_seq = seq, er_competition = c, er_team = t, er_version = v, er_type = ev_type e, er_ts = ev_ts e,
        er_payload = ev_payload e, er_submission = Option.bind (ev_submission e) as_uuid,
        er_solve = Option.bind (ev_solve e) as_uuid\<rparr>)"

definition score_event_from_orm :: "event_row \<Rightarrow> score_event" where
  "score_event_from_orm r = \<lparr>ev_competition = er_competition r, ev_team = er_team r,
     ev_definition = fst (er_version r), ev_no = snd (er_version r), ev_type = er_type r, ev_ts = er_ts r,
     ev_payload = er_payload r, ev_submission = map_option Uid (er_submission r),
     ev_solve = map_option Uid (er_solve r), ev_seq = Some (er_seq r)\<rparr>"

text \<open>The trigger \<open>score_events_enqueue_projection\<close>: every event brings its outbox row.\<close>

definition enqueue_projection :: "event_row \<Rightarrow> instant \<Rightarrow> (ledgerdb, unit) tx" where
  "enqueue_projection e now =
     tx_bind (tx_get ld_outbox) (\<lambda>rows.
     tx_bind (unique_keys [(''pk_score_projection_outbox'', er_seq e \<in> ob_seq ` set rows)]) (\<lambda>_.
     tx_modify (\<lambda>db. db\<lparr>ld_outbox := ld_outbox db @ [\<lparr>ob_seq = er_seq e, ob_competition = er_competition e,
       ob_status = TaskPending, ob_attempts = 0, ob_error = None, ob_created = now\<rparr>]\<rparr>)))"

definition dangling :: "nat option \<Rightarrow> nat list \<Rightarrow> bool" where
  "dangling x ids = (case x of None \<Rightarrow> False | Some i \<Rightarrow> i \<notin> set ids)"

definition event_links :: "ledgerdb \<Rightarrow> event_row \<Rightarrow> (string \<times> bool) list" where
  "event_links db r =
     [(''pk_score_events'', er_seq r \<in> er_seq ` set (ld_events db)),
      (''fk_score_events_solve_id_solves'', dangling (er_solve r) (map sv_id (ld_solves db))),
      (''fk_score_events_submission_id_submissions'',
         dangling (er_submission r) (map su_id (ld_submissions db)))]"

definition ledger_append :: "catalog \<Rightarrow> score_event \<Rightarrow> scope \<Rightarrow> int \<Rightarrow> instant \<Rightarrow> (ledgerdb, score_event) tx" where
  "ledger_append cat e sc seq now =
     tx_bind (tx_guard (stamp_aware (ev_ts e)) ValueError) (\<lambda>_.
     tx_bind (row_scope cat sc (ev_competition e) (ev_team e) (ev_definition e) (ev_no e)) (\<lambda>(c, t, v).
     tx_bind (tx_sum (score_event_to_orm e c t v seq)) (\<lambda>r.
     tx_bind (tx_get (\<lambda>db. event_links db r)) (\<lambda>links.
     tx_bind (unique_keys links) (\<lambda>_.
     tx_bind (tx_modify (\<lambda>db. db\<lparr>ld_events := ld_events db @ [r]\<rparr>)) (\<lambda>_.
     tx_bind (enqueue_projection r now) (\<lambda>_.
     construct score_event_post_init ((score_event_from_orm r)\<lparr>ev_competition := ev_competition e,
       ev_team := ev_team e, ev_definition := ev_definition e, ev_no := ev_no e\<rparr>))))))))"

definition events_since :: "int \<Rightarrow> (ledgerdb, score_event list) tx" where
  "events_since seq =
     tx_bind (tx_get (\<lambda>db. sort_key er_seq (filter (\<lambda>r. er_seq r > seq) (ld_events db)))) (\<lambda>rows.
     construct_all score_event_post_init (map score_event_from_orm rows))"

definition latest_seq :: "(ledgerdb, int) tx" where
  "latest_seq = tx_get (\<lambda>db. if ld_events db = [] then 0 else Max (er_seq ` set (ld_events db)))"

definition event_list_for_competition :: "string \<Rightarrow> (ledgerdb, score_event list) tx" where
  "event_list_for_competition c =
     tx_bind (tx_get (\<lambda>db. sort_key er_seq (filter (\<lambda>r. er_competition r = c) (ld_events db)))) (\<lambda>rows.
     construct_all score_event_post_init (map score_event_from_orm rows))"

section \<open>The projection queue\<close>

definition projection_task_from_orm :: "outbox_row \<Rightarrow> projection_task" where
  "projection_task_from_orm r = \<lparr>pt_seq = ob_seq r, pt_competition = ob_competition r, pt_status = ob_status r,
     pt_attempts = ob_attempts r, pt_created = ob_created r, pt_error = ob_error r\<rparr>"

definition pending_rows :: "ledgerdb \<Rightarrow> outbox_row list" where
  "pending_rows db = filter (\<lambda>r. ob_status r = TaskPending) (ld_outbox db)"

text \<open>The competitions with pending rows, by the least number pending.\<close>

definition pending_competitions :: "nat \<Rightarrow> (ledgerdb, string list) tx" where
  "pending_competitions limit = tx_get (\<lambda>db.
     take limit (rev (remdups (rev (map ob_competition (sort_key ob_seq (pending_rows db)))))))"

text \<open>\<open>locked\<close> are the rows rivals hold, which \<open>SKIP LOCKED\<close> passes over.\<close>

definition claim_pending :: "catalog \<Rightarrow> int list \<Rightarrow> nat \<Rightarrow> string option \<Rightarrow> (ledgerdb, projection_task list) tx" where
  "claim_pending cat locked limit co =
     tx_bind (competition_uuid_optional cat co) (\<lambda>c.
     tx_bind (tx_get (\<lambda>db. order_limit ob_seq limit (filter (\<lambda>r. ob_seq r \<notin> set locked
         \<and> (case c of None \<Rightarrow> True | Some s \<Rightarrow> ob_competition r = s)) (pending_rows db)))) (\<lambda>rows.
     construct_all projection_task_post_init (map projection_task_from_orm rows)))"

definition complete_tasks :: "int list \<Rightarrow> (ledgerdb, unit) tx" where
  "complete_tasks seqs =
     tx_modify (\<lambda>db. db\<lparr>ld_outbox := filter (\<lambda>r. ob_seq r \<notin> set seqs) (ld_outbox db)\<rparr>)"

definition fail_row :: "exn \<Rightarrow> outbox_row \<Rightarrow> outbox_row" where
  "fail_row e r = r\<lparr>ob_status := TaskFailed, ob_attempts := ob_attempts r + 1, ob_error := Some e\<rparr>"

definition retry_row :: "exn \<Rightarrow> int \<Rightarrow> outbox_row \<Rightarrow> outbox_row" where
  "retry_row e max_attempts r =
     (let bumped = r\<lparr>ob_attempts := ob_attempts r + 1, ob_error := Some e\<rparr>
      in if ob_attempts bumped \<ge> max_attempts then bumped\<lparr>ob_status := TaskFailed\<rparr> else bumped)"

definition update_pending :: "int list \<Rightarrow> (outbox_row \<Rightarrow> outbox_row) \<Rightarrow> ledgerdb \<Rightarrow> ledgerdb" where
  "update_pending seqs f db = db\<lparr>ld_outbox :=
     map (\<lambda>r. if ob_seq r \<in> set seqs \<and> ob_status r = TaskPending then f r else r) (ld_outbox db)\<rparr>"

definition fail_tasks :: "int list \<Rightarrow> exn \<Rightarrow> (ledgerdb, int) tx" where
  "fail_tasks seqs e =
     tx_bind (tx_get (\<lambda>db. int (length (filter (\<lambda>r. ob_seq r \<in> set seqs) (pending_rows db))))) (\<lambda>n.
     tx_bind (tx_modify (update_pending seqs (fail_row e))) (\<lambda>_. tx_ret n))"

definition mark_transient :: "int list \<Rightarrow> exn \<Rightarrow> int \<Rightarrow> (ledgerdb, int) tx" where
  "mark_transient seqs e max_attempts =
     tx_bind (tx_get (\<lambda>db. int (length (filter (\<lambda>r. ob_seq r \<in> set seqs \<and> ob_attempts r + 1 \<ge> max_attempts)
         (pending_rows db))))) (\<lambda>n.
     tx_bind (tx_modify (update_pending seqs (retry_row e max_attempts))) (\<lambda>_. tx_ret n))"

definition list_failed :: "(ledgerdb, projection_task list) tx" where
  "list_failed =
     tx_bind (tx_get (\<lambda>db. sort_key ob_seq (filter (\<lambda>r. ob_status r = TaskFailed) (ld_outbox db)))) (\<lambda>rows.
     construct_all projection_task_post_init (map projection_task_from_orm rows))"

definition missing_tasks :: "ledgerdb \<Rightarrow> event_row list" where
  "missing_tasks db = filter (\<lambda>e. er_seq e \<notin> ob_seq ` set (ld_outbox db)) (ld_events db)"

definition requeue_projections :: "instant \<Rightarrow> (ledgerdb, int) tx" where
  "requeue_projections now =
     tx_bind (tx_get (\<lambda>db. int (length (missing_tasks db))
        + int (length (filter (\<lambda>r. ob_status r = TaskFailed) (ld_outbox db))))) (\<lambda>n.
     tx_bind (tx_modify (\<lambda>db. db\<lparr>ld_outbox :=
        map (\<lambda>r. if ob_status r = TaskFailed then r\<lparr>ob_status := TaskPending, ob_error := None\<rparr> else r) (ld_outbox db)
        @ map (\<lambda>e. \<lparr>ob_seq = er_seq e, ob_competition = er_competition e, ob_status = TaskPending,
            ob_attempts = 0, ob_error = None, ob_created = now\<rparr>) (missing_tasks db)\<rparr>)) (\<lambda>_.
     tx_ret n))"

definition pending_stats :: "(ledgerdb, projection_lag) tx" where
  "pending_stats =
     tx_bind (tx_get (\<lambda>db.
       \<lparr>pl_pending = int (length (pending_rows db)),
        pl_latest = (if ld_events db = [] then 0 else Max (er_seq ` set (ld_events db))),
        pl_max_as_of = (if ld_projections db = [] then 0 else Max (pj_seq ` set (ld_projections db))),
        pl_oldest = (if pending_rows db = [] then None else Some (Min (ob_created ` set (pending_rows db)))),
        pl_failed = int (length (filter (\<lambda>r. ob_status r = TaskFailed) (ld_outbox db)))\<rparr>))
     (construct projection_lag_post_init)"

section \<open>The scoreboard cache\<close>

text \<open>The guarded upsert: a stored record with a larger number stays.\<close>

definition projection_upsert :: "catalog \<Rightarrow> projection_record \<Rightarrow> instant \<Rightarrow> (ledgerdb, unit) tx" where
  "projection_upsert cat p now =
     tx_bind (competition_uuid cat (sp_competition p)) (\<lambda>c.
     let new = \<lparr>pj_competition = c, pj_seq = sp_seq p, pj_entries = sp_entries p, pj_computed = now\<rparr> in
     tx_modify (\<lambda>db. case find_row pj_competition c (ld_projections db) of
         None \<Rightarrow> db\<lparr>ld_projections := ld_projections db @ [new]\<rparr>
       | Some old \<Rightarrow> if pj_seq new \<ge> pj_seq old
           then db\<lparr>ld_projections := put_row pj_competition new (ld_projections db)\<rparr> else db))"

definition scoreboard_projection_from_orm :: "projection_row \<Rightarrow> string \<Rightarrow> projection_record" where
  "scoreboard_projection_from_orm r c = \<lparr>sp_competition = c, sp_seq = pj_seq r, sp_entries = pj_entries r,
     sp_computed = Some (pj_computed r)\<rparr>"

definition projection_get :: "catalog \<Rightarrow> string \<Rightarrow> (ledgerdb, projection_record option) tx" where
  "projection_get cat slug = tx_bind (competition_uuid cat slug) (\<lambda>c.
     tx_bind (tx_get (\<lambda>db. find_row pj_competition c (ld_projections db))) (\<lambda>found.
       (case found of None \<Rightarrow> tx_ret None
        | Some r \<Rightarrow> tx_bind (construct projection_record_post_init (scoreboard_projection_from_orm r slug)) (\<lambda>p. tx_ret (Some p)))))"

definition projection_delete_all :: "(ledgerdb, int) tx" where
  "projection_delete_all = tx_bind (tx_get (\<lambda>db. int (length (ld_projections db)))) (\<lambda>n.
     tx_bind (tx_modify (\<lambda>db. db\<lparr>ld_projections := []\<rparr>)) (\<lambda>_. tx_ret n))"

end
