(* ===== verification/Submission_Service.thy ===== *)
theory Submission_Service
  imports Ledger_Store Instance_Service
begin

text \<open>
  \<open>application/submissions/service.py\<close>: one unit of work per submission, over the catalogue, the instances
  and the ledger, with the candidate check of \<open>verifier.py\<close>, the advisory lock and scope resolvers of
  \<open>locks.py\<close> and \<open>resolvers.py\<close>, and the read-only \<open>query_service.py\<close>. The injected \<open>FlagVerifier\<close> is an
  argument, as are the drawn solve id, the event's number and the database clock. The unit of work runs
  under READ COMMITTED and nothing but unique keys holds rivals off, so what other transactions commit
  between its statements is an argument too: \<open>early\<close> before the attempt is written, \<open>late\<close> between the
  solve check and the insert of the solve.
\<close>

section \<open>The state\<close>

record contestdb =
  ct_auth :: authdb
  ct_inst :: instdb
  ct_ledger :: ledgerdb
  ct_users :: "string list"
  ct_workers :: "string list"

definition ct_catalog :: "contestdb \<Rightarrow> catalog" where
  "ct_catalog db = \<lparr>cat_competitions = map cpr_slug (ad_competitions (ct_auth db)),
     cat_teams = map team_key (ad_teams (ct_auth db)), cat_versions = map version_key (ad_versions (ct_auth db)),
     cat_users = ct_users db, cat_workers = ct_workers db\<rparr>"

definition in_catalog :: "(catalog \<Rightarrow> (contestdb, 'a) tx) \<Rightarrow> (contestdb, 'a) tx" where
  "in_catalog f = tx_bind (tx_get ct_catalog) f"

definition on_auth :: "(authdb, 'a) tx \<Rightarrow> (contestdb, 'a) tx" where
  "on_auth = tx_on ct_auth (\<lambda>d w. w\<lparr>ct_auth := d\<rparr>)"

definition on_contest_inst :: "(instdb, 'a) tx \<Rightarrow> (contestdb, 'a) tx" where
  "on_contest_inst = tx_on ct_inst (\<lambda>d w. w\<lparr>ct_inst := d\<rparr>)"

definition on_ledger :: "(ledgerdb, 'a) tx \<Rightarrow> (contestdb, 'a) tx" where
  "on_ledger = tx_on ct_ledger (\<lambda>d w. w\<lparr>ct_ledger := d\<rparr>)"

interpretation auth_view: component_view ct_auth "\<lambda>d w. w\<lparr>ct_auth := d\<rparr>"
  by unfold_locales simp_all

interpretation contest_inst_view: component_view ct_inst "\<lambda>d w. w\<lparr>ct_inst := d\<rparr>"
  by unfold_locales simp_all

interpretation ledger_view: component_view ct_ledger "\<lambda>d w. w\<lparr>ct_ledger := d\<rparr>"
  by unfold_locales simp_all

section \<open>Locks, scope and candidate\<close>

text \<open>An advisory lock changes no row; resolving its competition can raise.\<close>

definition acquire_submission_lock :: "string \<Rightarrow> string \<Rightarrow> string \<Rightarrow> int \<Rightarrow> (contestdb, unit) tx" where
  "acquire_submission_lock c t d no = in_catalog (\<lambda>cat. tx_bind (competition_uuid cat c) (\<lambda>_. tx_ret ()))"

definition acquire_competition_lock :: "string \<Rightarrow> (contestdb, unit) tx" where
  "acquire_competition_lock c = in_catalog (\<lambda>cat. tx_bind (competition_uuid cat c) (\<lambda>_. tx_ret ()))"

definition resolve_submission_scope :: "string \<Rightarrow> string \<Rightarrow> string \<Rightarrow> int \<Rightarrow> (contestdb, scope) tx" where
  "resolve_submission_scope slug team d no = in_catalog (\<lambda>cat.
     tx_bind (competition_uuid cat slug) (\<lambda>c.
     tx_bind (team_uuid cat c team) (\<lambda>t.
     tx_bind (version_uuid cat d no) (\<lambda>v. tx_ret (Some c, Some t, Some v)))))"

definition max_candidate_length :: nat where
  "max_candidate_length = 4096"

definition normalize_candidate :: "string \<Rightarrow> exn + string" where
  "normalize_candidate candidate = (let s = py_strip candidate in
     if s = [] then Inl FlagRejectedError
     else if length s > max_candidate_length then Inl FlagRejectedError
     else if \<exists>c \<in> set s. of_char c < (32 :: nat) \<or> of_char c = (127 :: nat) then Inl FlagRejectedError
     else Inr s)"

section \<open>Processing\<close>

type_synonym flag_verifier = "challenge_version \<Rightarrow> string option \<Rightarrow> string \<Rightarrow> exn + bool"

definition outcome :: "submission_outcome \<Rightarrow> ('s, submission_outcome) tx" where
  "outcome c = construct submission_outcome_post_init c"

text \<open>An attempt that stands without a solve: wrong, or right but not the first.\<close>

definition attempt_only :: "ledger_submission \<Rightarrow> ('s, submission_outcome) tx" where
  "attempt_only s = outcome \<lparr>oc_submission = s, oc_solve = None, oc_event = None, oc_accepted = ls_correct s,
     oc_first = False, oc_replay = False\<rparr>"

definition replay :: "ledger_submission \<Rightarrow> submission_request \<Rightarrow> (contestdb, submission_outcome) tx" where
  "replay stored q =
     tx_bind (tx_guard (ls_competition stored = sr_competition q \<and> ls_team stored = sr_team q
        \<and> ls_definition stored = sr_definition q \<and> ls_no stored = sr_no q) IdempotencyConflictError) (\<lambda>_.
     tx_bind (on_ledger (solve_get_by_submission (ls_id stored))) (\<lambda>sol.
     outcome \<lparr>oc_submission = stored, oc_solve = sol, oc_event = None, oc_accepted = ls_correct stored,
       oc_first = (sol \<noteq> None), oc_replay = True\<rparr>))"

definition attempt_of :: "submission_request \<Rightarrow> string option \<Rightarrow> bool \<Rightarrow> ledger_submission" where
  "attempt_of q seed correct = \<lparr>ls_id = sr_id q, ls_competition = sr_competition q, ls_team = sr_team q,
     ls_definition = sr_definition q, ls_no = sr_no q, ls_at = sr_at q, ls_correct = correct,
     ls_email = sr_email q, ls_seed = seed\<rparr>"

definition solve_for :: "submission_request \<Rightarrow> ledger_submission \<Rightarrow> nat \<Rightarrow> solve" where
  "solve_for q s k = \<lparr>so_id = Uid k, so_competition = sr_competition q, so_team = sr_team q,
     so_definition = sr_definition q, so_no = sr_no q, so_submission = ls_id s, so_at = ls_at s, so_seed = ls_seed s\<rparr>"

definition score_event_for :: "submission_request \<Rightarrow> ledger_submission \<Rightarrow> solve \<Rightarrow> score_event" where
  "score_event_for q s sol = \<lparr>ev_competition = sr_competition q, ev_team = sr_team q, ev_definition = sr_definition q,
     ev_no = sr_no q, ev_type = EvSolve, ev_ts = Stamp (so_at sol), ev_payload = [], ev_submission = Some (ls_id s),
     ev_solve = Some (so_id sol), ev_seq = None\<rparr>"

text \<open>Steps (3) and (4): what may be attempted, and whether the candidate is right.\<close>

definition check_attempt :: "flag_verifier \<Rightarrow> submission_request \<Rightarrow> (contestdb, scope \<times> ledger_submission) tx" where
  "check_attempt verify q =
     tx_bind (on_auth (publication_get (sr_competition q) (sr_definition q) (sr_no q))) (\<lambda>publication.
     tx_bind (tx_some ChallengeNotAttachedError publication) (\<lambda>_.
     tx_bind (on_auth (version_get (sr_definition q) (sr_no q))) (\<lambda>found.
     tx_bind (tx_some SubmissionProcessingError found) (\<lambda>version.
     tx_bind (tx_guard (cv_state version \<noteq> Draft) SubmissionProcessingError) (\<lambda>_.
     tx_bind (tx_guard (sr_seed q = None) FlagRejectedError) (\<lambda>_.
     tx_bind (in_catalog (\<lambda>cat. on_contest_inst
       (get_for_submission cat (sr_competition q) (sr_team q) (sr_definition q) (sr_no q)))) (\<lambda>issued.
     let seed = Option.bind issued in_seed in
     tx_bind (resolve_submission_scope (sr_competition q) (sr_team q) (sr_definition q) (sr_no q)) (\<lambda>sc.
     tx_bind (tx_sum (normalize_candidate (sr_candidate q))) (\<lambda>candidate.
     tx_bind (tx_sum (verify version seed candidate)) (\<lambda>correct.
     tx_bind (construct ledger_submission_post_init (attempt_of q seed correct)) (\<lambda>s.
     tx_ret (sc, s))))))))))))"

text \<open>Steps (5) and (6). A savepoint turns a rival's key collision into a replay or a duplicate.\<close>

definition on_integrity :: "('s, 'a) tx \<Rightarrow> (string \<Rightarrow> ('s, 'a) tx) \<Rightarrow> ('s, 'a) tx" where
  "on_integrity m h = savepoint m (\<lambda>e. case e of IntegrityError k \<Rightarrow> h k | _ \<Rightarrow> tx_raise e)"

record draws =
  dw_solve :: nat
  dw_seq :: int
  dw_now :: instant

definition solve_and_event :: "submission_request \<Rightarrow> ledger_submission \<Rightarrow> solve \<Rightarrow> scope \<Rightarrow> draws \<Rightarrow> (contestdb, score_event) tx" where
  "solve_and_event q s sol sc dw =
     tx_bind (in_catalog (\<lambda>cat. on_ledger (solve_add cat sol sc))) (\<lambda>_.
     tx_bind (construct score_event_post_init (score_event_for q s sol)) (\<lambda>e.
     in_catalog (\<lambda>cat. on_ledger (ledger_append cat e sc (dw_seq dw) (dw_now dw)))))"

definition record_solve :: "submission_request \<Rightarrow> ledger_submission \<Rightarrow> scope \<Rightarrow> draws \<Rightarrow> (contestdb, submission_outcome) tx" where
  "record_solve q s sc dw =
     tx_bind (construct solve_post_init (solve_for q s (dw_solve dw))) (\<lambda>sol.
     tx_bind (on_integrity
        (tx_bind (solve_and_event q s sol sc dw) (\<lambda>e. tx_ret (Some e)))
        (\<lambda>k. if take 9 k = ''uq_solves'' then tx_ret None else tx_raise (IntegrityError k))) (\<lambda>stored.
     case stored of None \<Rightarrow> attempt_only s
     | Some e \<Rightarrow> outcome \<lparr>oc_submission = s, oc_solve = Some sol, oc_event = Some e, oc_accepted = True,
         oc_first = True, oc_replay = False\<rparr>))"

definition first_correct :: "submission_request \<Rightarrow> ledger_submission \<Rightarrow> scope \<Rightarrow> draws \<Rightarrow> (contestdb \<Rightarrow> contestdb) \<Rightarrow>
    (contestdb, submission_outcome) tx" where
  "first_correct q s sc dw late =
     tx_bind (on_ledger (solve_get_for_challenge (sr_competition q) (sr_team q) (sr_definition q) (sr_no q))) (\<lambda>existing.
     if existing \<noteq> None then attempt_only s
     else tx_bind (tx_modify late) (\<lambda>_. record_solve q s sc dw))"

text \<open>Whether the attempt was written, or the id turned out to be taken.\<close>

definition record_attempt :: "submission_request \<Rightarrow> ledger_submission \<Rightarrow> scope \<Rightarrow> (contestdb, ledger_submission option) tx" where
  "record_attempt q s sc =
     on_integrity
       (tx_bind (in_catalog (\<lambda>cat. on_ledger (submission_add cat s sc))) (\<lambda>_. tx_ret None))
       (\<lambda>k. tx_bind (on_ledger (submission_get (sr_id q))) (\<lambda>stored.
          case stored of None \<Rightarrow> tx_raise (IntegrityError k) | Some t \<Rightarrow> tx_ret (Some t)))"

definition process_new :: "flag_verifier \<Rightarrow> submission_request \<Rightarrow> draws \<Rightarrow> (contestdb \<Rightarrow> contestdb) \<Rightarrow> (contestdb \<Rightarrow> contestdb) \<Rightarrow>
    (contestdb, submission_outcome) tx" where
  "process_new verify q dw early late =
     tx_bind (check_attempt verify q) (\<lambda>(sc, s).
     tx_bind (tx_modify early) (\<lambda>_.
     tx_bind (record_attempt q s sc) (\<lambda>taken.
     case taken of Some stored \<Rightarrow> replay stored q
     | None \<Rightarrow> if \<not> ls_correct s then attempt_only s else first_correct q s sc dw late)))"

definition process_submission :: "flag_verifier \<Rightarrow> submission_request \<Rightarrow> draws \<Rightarrow>
    (contestdb \<Rightarrow> contestdb) \<Rightarrow> (contestdb \<Rightarrow> contestdb) \<Rightarrow> (contestdb, submission_outcome) svc" where
  "process_submission verify q dw early late = session_scope
     (tx_bind (acquire_submission_lock (sr_competition q) (sr_team q) (sr_definition q) (sr_no q)) (\<lambda>_.
      tx_bind (on_ledger (submission_get (sr_id q))) (\<lambda>stored.
      case stored of Some s \<Rightarrow> replay s q | None \<Rightarrow> process_new verify q dw early late)))"

section \<open>Queries\<close>

definition query_team_submissions :: "string \<Rightarrow> string \<Rightarrow> (contestdb, ledger_submission list) svc" where
  "query_team_submissions c t = session_scope (on_ledger (submission_list_for_team c t))"

definition query_competition_submissions :: "string \<Rightarrow> (contestdb, ledger_submission list) svc" where
  "query_competition_submissions c = session_scope (on_ledger (submission_list_for_competition c))"

definition query_submission_detail :: "ident \<Rightarrow> (contestdb, (ledger_submission \<times> solve option) option) svc" where
  "query_submission_detail i = session_scope
     (tx_bind (on_ledger (submission_get i)) (\<lambda>found.
      case found of None \<Rightarrow> tx_ret None
      | Some s \<Rightarrow> tx_bind (on_ledger (solve_get_by_submission i)) (\<lambda>sol. tx_ret (Some (s, sol)))))"

end
