(* ===== verification/Score_Projector.thy ===== *)
theory Score_Projector
  imports Submission_Service
begin

text \<open>
  \<open>application/scoring/projector.py\<close> and \<open>scoreboard_service.py\<close>: claim outbox rows, refold the whole
  ledger of a competition through \<open>compute_scoreboard\<close>, upsert the cache, delete the claimed rows. The
  environment of one pass says which rows rivals hold, what they commit while this projector waits for the
  competition lock (\<open>early\<close>) and after it has folded (\<open>late\<close>), which database failure strikes before or
  after the claim, and what the clock says.
\<close>

section \<open>The fold\<close>

definition challenge_key :: "string \<Rightarrow> int \<Rightarrow> string" where
  "challenge_key d no = d @ '':v'' @ py_str_int no"

text \<open>\<open>event.submission_id or event.solve_id or f"seq:{event.seq}"\<close>: the empty text counts as absent.\<close>

definition event_submission_text :: "score_event \<Rightarrow> string" where
  "event_submission_text e =
     (let a = (case ev_submission e of None \<Rightarrow> [] | Some i \<Rightarrow> ident_text i);
          b = (case ev_solve e of None \<Rightarrow> [] | Some i \<Rightarrow> ident_text i)
      in if a \<noteq> [] then a else if b \<noteq> [] then b
         else ''seq:'' @ (case ev_seq e of None \<Rightarrow> ''None'' | Some n \<Rightarrow> py_str_int n))"

definition solve_event_of :: "score_event \<Rightarrow> exn + solve_event" where
  "solve_event_of e =
     (let found = (\<lambda>t. Inr \<lparr>se_team = ev_team e, se_challenge = challenge_key (ev_definition e) (ev_no e), se_at = t,
            se_submission = event_submission_text e, se_seed = None\<rparr>)
      in case ev_ts e of Stamp t \<Rightarrow> found t | Naive t \<Rightarrow> found t | Unreadable _ \<Rightarrow> Inl ProjectionMalformedEventError)"

definition fold_event :: "solve_event list \<times> int \<Rightarrow> score_event \<Rightarrow> exn + solve_event list \<times> int" where
  "fold_event acc e = (case acc of (solves, max_seq) \<Rightarrow>
     let top = (case ev_seq e of None \<Rightarrow> max_seq | Some n \<Rightarrow> max max_seq n) in
     if ev_type e = EvSolve then
       (case solve_event_of e of Inl x \<Rightarrow> Inl x | Inr s \<Rightarrow> Inr (solves @ [s], top))
     else if ev_type e = EvSubmission then Inr (solves, top)
     else Inl ProjectionUnsupportedEventError)"

definition scoring_config_of :: "publication \<Rightarrow> scoring_config" where
  "scoring_config_of p = \<lparr>sc_challenge = challenge_key (pb_definition p) (pb_no p), sc_initial = pb_initial p,
     sc_minimum = pb_minimum p, sc_function = pb_function p, sc_decay = pb_decay p,
     sc_bonus = \<lparr>fb_enabled = pb_first_blood p, fb_points = pb_points p, fb_percent = pb_percent p\<rparr>\<rparr>"

definition challenges_of :: "publication list \<Rightarrow> scoring_config dict" where
  "challenges_of ps = foldl (\<lambda>d p. AList.update (challenge_key (pb_definition p) (pb_no p)) (scoring_config_of p) d) [] ps"

definition refold :: "string \<Rightarrow> string \<Rightarrow> (contestdb, projection_record) tx" where
  "refold engine_name slug =
     tx_bind (on_auth (competition_get slug)) (\<lambda>found.
     tx_bind (tx_some LookupError found) (\<lambda>config.
     tx_bind (on_ledger (event_list_for_competition slug)) (\<lambda>events.
     tx_bind (tx_sum (fold_exn fold_event ([], 0) events)) (\<lambda>(solves, max_seq).
     tx_bind (on_auth (publication_list_for_competition slug)) (\<lambda>pubs.
     tx_bind (tx_sum (get_scoring_engine engine_name)) (\<lambda>eng.
     tx_bind (tx_sum (compute_scoreboard solves (challenges_of pubs) config (Some eng) None)) (\<lambda>snapshot.
     construct projection_record_post_init
       \<lparr>sp_competition = slug, sp_seq = max_seq, sp_entries = snapshot, sp_computed = None\<rparr>)))))))"

section \<open>One competition\<close>

text \<open>\<open>_DETERMINISTIC_POISON\<close>: \<open>KeyError\<close> and \<open>ChallengeNotAttachedError\<close> are \<open>LookupError\<close>s.\<close>

definition deterministic_poison :: "exn list" where
  "deterministic_poison =
     [ProjectionUnsupportedEventError, ProjectionMalformedEventError, LookupError, KeyError, ChallengeNotAttachedError]"

definition max_transient_attempts :: int where
  "max_transient_attempts = 5"

record pass_env =
  en_locked :: "int list"
  en_early :: "contestdb \<Rightarrow> contestdb"
  en_late :: "contestdb \<Rightarrow> contestdb"
  en_fault_claim :: "exn option"
  en_fault_fold :: "exn option"
  en_clock :: instant

definition calm :: "instant \<Rightarrow> pass_env" where
  "calm now = \<lparr>en_locked = [], en_early = id, en_late = id, en_fault_claim = None, en_fault_fold = None, en_clock = now\<rparr>"

definition strike :: "exn option \<Rightarrow> ('s, unit) tx" where
  "strike fault = (case fault of None \<Rightarrow> tx_ret () | Some e \<Rightarrow> tx_raise e)"

definition mark_projection_failed :: "int list \<Rightarrow> exn \<Rightarrow> (contestdb, unit) svc" where
  "mark_projection_failed seqs e = (if seqs = [] then svc_ret ()
     else svc_bind (session_scope (on_ledger (fail_tasks seqs e))) (\<lambda>_. svc_ret ()))"

definition mark_projection_transient :: "int list \<Rightarrow> exn \<Rightarrow> (contestdb, unit) svc" where
  "mark_projection_transient seqs e = (if seqs = [] then svc_ret ()
     else svc_bind (session_scope (on_ledger (mark_transient seqs e max_transient_attempts))) (\<lambda>_. svc_ret ()))"

definition divert :: "int list \<Rightarrow> exn \<Rightarrow> (contestdb, int) svc" where
  "divert seqs e = svc_bind
     (if e \<in> set deterministic_poison then mark_projection_failed seqs e else mark_projection_transient seqs e)
     (\<lambda>_. svc_ret 0)"

definition claim_tasks :: "pass_env \<Rightarrow> nat \<Rightarrow> string \<Rightarrow> (contestdb, int list) tx" where
  "claim_tasks env batch slug = tx_bind (strike (en_fault_claim env)) (\<lambda>_.
     tx_bind (in_catalog (\<lambda>cat. on_ledger (claim_pending cat (en_locked env) batch (Some slug)))) (\<lambda>tasks.
     tx_ret (map pt_seq tasks)))"

definition fold_locked :: "string \<Rightarrow> string \<Rightarrow> (contestdb, projection_record) tx" where
  "fold_locked engine_name slug = tx_bind (acquire_competition_lock slug) (\<lambda>_. refold engine_name slug)"

definition store_projection :: "pass_env \<Rightarrow> projection_record \<Rightarrow> int list \<Rightarrow> (contestdb, int) tx" where
  "store_projection env record seqs =
     tx_bind (in_catalog (\<lambda>cat. on_ledger (projection_upsert cat record (en_clock env)))) (\<lambda>_.
     tx_bind (on_ledger (complete_tasks seqs)) (\<lambda>_.
     tx_bind (strike (en_fault_fold env)) (\<lambda>_.
     tx_ret (int (length seqs)))))"

text \<open>
  One unit of work whose claim and fold write nothing: what others commit before the lock is taken and
  after the fold stays, also when this one fails. The handler sees the numbers claimed so far.
\<close>

definition project_competition :: "string \<Rightarrow> pass_env \<Rightarrow> nat \<Rightarrow> string \<Rightarrow> (contestdb, int) svc" where
  "project_competition engine_name env batch slug = (\<lambda>db.
     case claim_tasks env batch slug db of
       Inl e \<Rightarrow> divert [] e db
     | Inr (seqs, db) \<Rightarrow>
         if seqs = [] then (Inr 0, db)
         else (case fold_locked engine_name slug (en_early env db) of
             Inl e \<Rightarrow> divert seqs e (en_early env db)
           | Inr (record, db) \<Rightarrow>
               svc_catch (session_scope (store_projection env record seqs)) (divert seqs) (en_late env db)))"

section \<open>The drain loop\<close>

fun project_each :: "string \<Rightarrow> (nat \<Rightarrow> pass_env) \<Rightarrow> nat \<Rightarrow> nat \<Rightarrow> string list \<Rightarrow> (contestdb, int) svc" where
  "project_each engine_name envs k batch [] = svc_ret 0"
| "project_each engine_name envs k batch (slug # slugs) =
     svc_bind (project_competition engine_name (envs k) batch slug) (\<lambda>n.
     svc_bind (project_each engine_name envs (Suc k) batch slugs) (\<lambda>m. svc_ret (n + m)))"

definition project_once :: "string \<Rightarrow> (nat \<Rightarrow> pass_env) \<Rightarrow> nat \<Rightarrow> (contestdb, int) svc" where
  "project_once engine_name envs batch =
     svc_bind (session_scope (on_ledger (pending_competitions 100))) (\<lambda>slugs.
     project_each engine_name envs 0 batch slugs)"

text \<open>The loop with fuel; \<open>None\<close> is a loop that has not ended.\<close>

fun drain :: "nat \<Rightarrow> string \<Rightarrow> (nat \<Rightarrow> nat \<Rightarrow> pass_env) \<Rightarrow> nat \<Rightarrow> int \<Rightarrow> contestdb \<Rightarrow> ((exn + int) \<times> contestdb) option" where
  "drain 0 engine_name envs batch acc db = None"
| "drain (Suc fuel) engine_name envs batch acc db =
     (case project_once engine_name (envs 0) batch db of
        (Inl e, db') \<Rightarrow> Some (Inl e, db')
      | (Inr n, db') \<Rightarrow> if n = 0 then Some (Inr (acc + n), db')
          else drain fuel engine_name (\<lambda>i. envs (Suc i)) batch (acc + n) db')"

definition rebuild :: "nat \<Rightarrow> string \<Rightarrow> (nat \<Rightarrow> nat \<Rightarrow> pass_env) \<Rightarrow> nat \<Rightarrow> instant \<Rightarrow> contestdb \<Rightarrow>
    ((exn + int) \<times> contestdb) option" where
  "rebuild fuel engine_name envs batch now db =
     (case session_scope (tx_bind (on_ledger projection_delete_all) (\<lambda>_. on_ledger (requeue_projections now))) db of
        (Inl e, db') \<Rightarrow> Some (Inl e, db')
      | (Inr _, db') \<Rightarrow> drain fuel engine_name envs batch 0 db')"

definition dry_project :: "string \<Rightarrow> string \<Rightarrow> (contestdb, projection_record) tx" where
  "dry_project engine_name slug = refold engine_name slug"

definition projector_lag :: "(contestdb, projection_lag) svc" where
  "projector_lag = session_scope (on_ledger pending_stats)"

section \<open>Reading standings\<close>

definition standings :: "string \<Rightarrow> (contestdb, scoreboard_entry list) svc" where
  "standings slug = svc_bind (session_scope (in_catalog (\<lambda>cat. on_ledger (projection_get cat slug)))) (\<lambda>record.
     svc_ret (case record of None \<Rightarrow> [] | Some p \<Rightarrow> ss_entries (sp_entries p)))"

end
