(* ===== verification/Ledger_Inv.thy ===== *)
theory Ledger_Inv
  imports Score_Projector Authoring_Inv
begin

text \<open>
  The ledger's invariant, what each repository method writes, and that recording an attempt or a solve
  keeps the invariant, whatever consistent changes rivals commit in between.
\<close>

section \<open>The invariant\<close>

definition submissions_ok :: "catalog \<Rightarrow> ledgerdb \<Rightarrow> bool" where
  "submissions_ok cat db \<longleftrightarrow> distinct (map su_id (ld_submissions db))
     \<and> (\<forall>r \<in> set (ld_submissions db). ledger_submission_post_init (submission_from_orm r) = Inr ()
          \<and> su_competition r \<in> set (cat_competitions cat) \<and> (su_competition r, su_team r) \<in> set (cat_teams cat)
          \<and> su_version r \<in> set (cat_versions cat))"

text \<open>A solve repeats the scope, time and seed of a correct submission.\<close>

definition proves :: "solve_row \<Rightarrow> submission_row \<Rightarrow> bool" where
  "proves r s \<longleftrightarrow> su_id s = sv_submission r \<and> su_correct s \<and> su_competition s = sv_competition r
     \<and> su_team s = sv_team r \<and> su_version s = sv_version r \<and> su_at s = sv_at r \<and> su_seed s = sv_seed r"

definition solves_ok :: "ledgerdb \<Rightarrow> bool" where
  "solves_ok db \<longleftrightarrow> distinct (map sv_id (ld_solves db)) \<and> distinct (map solve_key (ld_solves db))
     \<and> distinct (map sv_submission (ld_solves db))
     \<and> (\<forall>r \<in> set (ld_solves db). \<exists>s \<in> set (ld_submissions db). proves r s)"

text \<open>An event announces one solve, and every solve is announced.\<close>

definition announces :: "event_row \<Rightarrow> solve_row \<Rightarrow> bool" where
  "announces e r \<longleftrightarrow> er_type e = EvSolve \<and> er_solve e = Some (sv_id r) \<and> er_submission e = Some (sv_submission r)
     \<and> er_ts e = Stamp (sv_at r) \<and> er_competition e = sv_competition r \<and> er_team e = sv_team r
     \<and> er_version e = sv_version r"

definition events_ok :: "ledgerdb \<Rightarrow> bool" where
  "events_ok db \<longleftrightarrow> distinct (map er_seq (ld_events db)) \<and> distinct (map er_solve (ld_events db))
     \<and> (\<forall>e \<in> set (ld_events db). 1 \<le> er_seq e \<and> (\<exists>r \<in> set (ld_solves db). announces e r))
     \<and> (\<forall>r \<in> set (ld_solves db). \<exists>e \<in> set (ld_events db). announces e r)"

definition outbox_ok :: "ledgerdb \<Rightarrow> bool" where
  "outbox_ok db \<longleftrightarrow> distinct (map ob_seq (ld_outbox db))
     \<and> (\<forall>b \<in> set (ld_outbox db). 0 \<le> ob_attempts b
          \<and> (\<exists>e \<in> set (ld_events db). er_seq e = ob_seq b \<and> er_competition e = ob_competition b))"

definition top_seq :: "ledgerdb \<Rightarrow> string \<Rightarrow> int" where
  "top_seq db c = Max (insert 0 (er_seq ` {e \<in> set (ld_events db). er_competition e = c}))"

definition cache_ok :: "ledgerdb \<Rightarrow> bool" where
  "cache_ok db \<longleftrightarrow> distinct (map pj_competition (ld_projections db))
     \<and> (\<forall>p \<in> set (ld_projections db). 0 \<le> pj_seq p \<and> pj_seq p \<le> top_seq db (pj_competition p))"

definition ledger_ok :: "catalog \<Rightarrow> ledgerdb \<Rightarrow> bool" where
  "ledger_ok cat db \<longleftrightarrow> submissions_ok cat db \<and> solves_ok db \<and> events_ok db \<and> outbox_ok db \<and> cache_ok db"

text \<open>A correct attempt whose team has no solve: only inside a unit of work.\<close>

definition unsolved :: "ledgerdb \<Rightarrow> (string \<times> string \<times> string \<times> int) set" where
  "unsolved db = (\<lambda>s. (su_competition s, su_team s, su_version s)) ` {s \<in> set (ld_submissions db). su_correct s}
     - solve_key ` set (ld_solves db)"

definition contest_ok :: "contestdb \<Rightarrow> bool" where
  "contest_ok db \<longleftrightarrow> ledger_ok (ct_catalog db) (ct_ledger db)"

lemmas ledger_ok_defs = ledger_ok_def submissions_ok_def solves_ok_def events_ok_def outbox_ok_def cache_ok_def

section \<open>What is written\<close>

definition add_attempt :: "submission_row \<Rightarrow> ledgerdb \<Rightarrow> ledgerdb" where
  "add_attempt r db = db\<lparr>ld_submissions := ld_submissions db @ [r]\<rparr>"

definition task_of :: "event_row \<Rightarrow> instant \<Rightarrow> outbox_row" where
  "task_of e now = \<lparr>ob_seq = er_seq e, ob_competition = er_competition e, ob_status = TaskPending,
     ob_attempts = 0, ob_error = None, ob_created = now\<rparr>"

definition add_solve :: "solve_row \<Rightarrow> event_row \<Rightarrow> instant \<Rightarrow> ledgerdb \<Rightarrow> ledgerdb" where
  "add_solve r e now db = db\<lparr>ld_solves := ld_solves db @ [r], ld_events := ld_events db @ [e],
     ld_outbox := ld_outbox db @ [task_of e now]\<rparr>"

lemma add_attempt_fields [simp]:
  "ld_submissions (add_attempt r db) = ld_submissions db @ [r]" "ld_solves (add_attempt r db) = ld_solves db"
  "ld_events (add_attempt r db) = ld_events db" "ld_outbox (add_attempt r db) = ld_outbox db"
  "ld_projections (add_attempt r db) = ld_projections db"
  by (simp_all add: add_attempt_def)

lemma add_solve_fields [simp]:
  "ld_submissions (add_solve r e now db) = ld_submissions db" "ld_solves (add_solve r e now db) = ld_solves db @ [r]"
  "ld_events (add_solve r e now db) = ld_events db @ [e]"
  "ld_outbox (add_solve r e now db) = ld_outbox db @ [task_of e now]"
  "ld_projections (add_solve r e now db) = ld_projections db"
  by (simp_all add: add_solve_def)

lemma top_seq_attempt [simp]: "top_seq (add_attempt r db) c = top_seq db c"
  by (simp add: top_seq_def)

lemma top_seq_mono:
  assumes "set (ld_events db) \<subseteq> set (ld_events db')"
  shows "top_seq db c \<le> top_seq db' c"
  unfolding top_seq_def using assms by (intro Max_mono) (auto intro: finite_subset [OF _ finite_set])

lemma attempt_keeps_ledger:
  assumes "ledger_ok cat db" and "su_id r \<notin> su_id ` set (ld_submissions db)"
    and "ledger_submission_post_init (submission_from_orm r) = Inr ()"
    and "su_competition r \<in> set (cat_competitions cat)" "(su_competition r, su_team r) \<in> set (cat_teams cat)"
      "su_version r \<in> set (cat_versions cat)"
  shows "ledger_ok cat (add_attempt r db)"
proof -
  have "submissions_ok cat (add_attempt r db)"
    using assms by (auto simp: ledger_ok_def submissions_ok_def)
  moreover have "solves_ok (add_attempt r db)"
    using assms(1) by (auto simp: ledger_ok_def solves_ok_def)
  moreover have "events_ok (add_attempt r db)" "outbox_ok (add_attempt r db)" "cache_ok (add_attempt r db)"
    using assms(1) by (simp_all add: ledger_ok_defs)
  ultimately show ?thesis by (simp add: ledger_ok_def)
qed

lemma solve_keeps_ledger:
  assumes ok: "ledger_ok cat db" and sub: "s \<in> set (ld_submissions db)" "proves r s" and ann: "announces e r"
    and new: "sv_id r \<notin> sv_id ` set (ld_solves db)" "solve_key r \<notin> solve_key ` set (ld_solves db)"
      "sv_submission r \<notin> sv_submission ` set (ld_solves db)" "er_seq e \<notin> er_seq ` set (ld_events db)" "1 \<le> er_seq e"
  shows "ledger_ok cat (add_solve r e now db)"
proof -
  have fresh: "er_solve e \<notin> er_solve ` set (ld_events db)"
  proof
    assume "er_solve e \<in> er_solve ` set (ld_events db)"
    then obtain e' where e': "e' \<in> set (ld_events db)" "er_solve e' = Some (sv_id r)"
      using ann by (auto simp: announces_def)
    then obtain r' where "r' \<in> set (ld_solves db)" "announces e' r'"
      using ok by (auto simp: ledger_ok_def events_ok_def)
    then show False using e' new(1) by (auto simp: announces_def)
  qed
  have box: "er_seq e \<notin> ob_seq ` set (ld_outbox db)"
    using ok new(4) by (force simp: ledger_ok_def outbox_ok_def)
  have "submissions_ok cat (add_solve r e now db)" using ok by (simp add: ledger_ok_defs)
  moreover have "solves_ok (add_solve r e now db)"
    using ok sub new by (auto simp: ledger_ok_def solves_ok_def)
  moreover have "events_ok (add_solve r e now db)"
    using ok ann new fresh by (auto simp: ledger_ok_def events_ok_def)
  moreover have "outbox_ok (add_solve r e now db)"
    using ok box by (auto simp: ledger_ok_def outbox_ok_def task_of_def)
  moreover have "cache_ok (add_solve r e now db)"
  proof -
    have "top_seq db c \<le> top_seq (add_solve r e now db) c" for c by (rule top_seq_mono) auto
    then show ?thesis using ok by (fastforce simp: ledger_ok_def cache_ok_def intro: order_trans)
  qed
  ultimately show ?thesis by (simp add: ledger_ok_def)
qed

section \<open>Effects of the methods\<close>

lemma tx_on_iff [tx_simps]:
  "tx_on get put m w = Inr r \<longleftrightarrow> (\<exists>x s. m (get w) = Inr (x, s) \<and> r = (x, put s w))"
  by (auto simp: tx_on_def split: sum.splits prod.splits)

lemma tx_on_raises: "tx_on get put m w = Inl e \<longleftrightarrow> m (get w) = Inl e"
  by (auto simp: tx_on_def split: sum.splits prod.splits)

lemma in_catalog_run [simp]: "in_catalog f db = f (ct_catalog db) db"
  by (simp add: in_catalog_def tx_bind_get)

lemmas contest_views = on_auth_def on_contest_inst_def on_ledger_def

lemma savepoint_iff [tx_simps]:
  "savepoint m h s = Inr r \<longleftrightarrow> m s = Inr r \<or> (\<exists>e. m s = Inl e \<and> h e s = Inr r)"
  by (auto simp: savepoint_def split: sum.splits)

lemma on_integrity_iff [tx_simps]:
  "on_integrity m h s = Inr r \<longleftrightarrow> m s = Inr r \<or> (\<exists>k. m s = Inl (IntegrityError k) \<and> h k s = Inr r)"
  unfolding on_integrity_def savepoint_iff by (fastforce simp: tx_simps split: exn.splits)

definition user_row :: "catalog \<Rightarrow> string option \<Rightarrow> string option option" where
  "user_row cat email = (case email of None \<Rightarrow> Some None
     | Some e \<Rightarrow> map_option Some (List.find (\<lambda>u. map lower_ascii u = map lower_ascii e) (cat_users cat)))"

lemma user_optional_iff [tx_simps]:
  "user_uuid_optional cat e s = Inr r \<longleftrightarrow> (\<exists>u. user_row cat e = Some u \<and> r = (u, s))"
  by (auto simp: user_uuid_optional_def user_uuid_def user_row_def tx_simps split: option.splits)

lemma publication_get_same: "publication_get c d no db = Inr (v, db') \<Longrightarrow> db' = db"
  by (auto simp: publication_get_def tx_simps split: option.splits)

lemma version_get_same: "version_get d no db = Inr (v, db') \<Longrightarrow> db' = db"
  by (auto simp: version_get_def read_version_def tx_simps split: option.splits)

lemma insts_to_domain_same: "inst_to_domain r db = Inr (v, db') \<Longrightarrow> db' = db"
  by (auto simp: inst_to_domain_def tx_simps split: option.splits sum.splits if_splits)

lemma get_for_submission_same: "get_for_submission cat c t d no db = Inr (v, db') \<Longrightarrow> db' = db"
  unfolding get_for_submission_def by (auto simp: tx_simps dest: insts_to_domain_same split: option.splits)

lemma found_solve_iff [tx_simps]:
  "found_solve f db = Inr r \<longleftrightarrow> (\<forall>x. f = Some x \<longrightarrow> solve_post_init (solve_from_orm x) = Inr ())
     \<and> r = (map_option solve_from_orm f, db)"
  by (cases f) (auto simp: found_solve_def tx_simps)

lemma submission_get_iff [tx_simps]:
  "submission_get i db = Inr r \<longleftrightarrow>
     (let f = Option.bind (as_uuid i) (\<lambda>n. find_row su_id n (ld_submissions db)) in
      (\<forall>x. f = Some x \<longrightarrow> ledger_submission_post_init (submission_from_orm x) = Inr ())
      \<and> r = (map_option submission_from_orm f, db))"
  by (auto simp: submission_get_def tx_simps split: option.splits)

lemma scope_iff [tx_simps]:
  "resolve_submission_scope c t d no db = Inr r \<longleftrightarrow> c \<in> set (cat_competitions (ct_catalog db))
     \<and> (c, t) \<in> set (cat_teams (ct_catalog db)) \<and> (d, no) \<in> set (cat_versions (ct_catalog db))
     \<and> r = ((Some c, Some t, Some (d, no)), db)"
  unfolding resolve_submission_scope_def by (auto simp: tx_simps)

lemma row_scope_given [simp]: "row_scope cat (Some c, Some t, Some v) a b d no = tx_ret (c, t, v)"
  by (simp add: row_scope_def tx_bind_ret)

definition attempt_row :: "ledger_submission \<Rightarrow> nat \<Rightarrow> string option \<Rightarrow> submission_row" where
  "attempt_row s n u = \<lparr>su_id = n, su_competition = ls_competition s, su_team = ls_team s,
     su_version = (ls_definition s, ls_no s), su_user = u, su_at = ls_at s, su_correct = ls_correct s, su_seed = ls_seed s\<rparr>"

definition own_scope :: "ledger_submission \<Rightarrow> scope" where
  "own_scope s = (Some (ls_competition s), Some (ls_team s), Some (ls_definition s, ls_no s))"

lemma submission_add_effect:
  "submission_add cat s (own_scope s) db = Inr (x, db') \<longleftrightarrow> (\<exists>n u. as_uuid (ls_id s) = Some n
     \<and> user_row cat (ls_email s) = Some u \<and> n \<notin> su_id ` set (ld_submissions db)
     \<and> db' = add_attempt (attempt_row s n u) db)"
  unfolding submission_add_def own_scope_def row_scope_given
  by (auto simp: tx_simps submission_to_orm_def attempt_row_def add_attempt_def split: option.splits)

section \<open>Effects of the steps of a submission\<close>

definition scoped :: "contestdb \<Rightarrow> ledger_submission \<Rightarrow> bool" where
  "scoped db s \<longleftrightarrow> ls_competition s \<in> set (cat_competitions (ct_catalog db))
     \<and> (ls_competition s, ls_team s) \<in> set (cat_teams (ct_catalog db))
     \<and> (ls_definition s, ls_no s) \<in> set (cat_versions (ct_catalog db))"

lemma attempt_of_fields [simp]:
  "ls_id (attempt_of q seed b) = sr_id q" "ls_competition (attempt_of q seed b) = sr_competition q"
  "ls_team (attempt_of q seed b) = sr_team q" "ls_definition (attempt_of q seed b) = sr_definition q"
  "ls_no (attempt_of q seed b) = sr_no q" "ls_at (attempt_of q seed b) = sr_at q"
  "ls_correct (attempt_of q seed b) = b" "ls_email (attempt_of q seed b) = sr_email q"
  "ls_seed (attempt_of q seed b) = seed"
  by (simp_all add: attempt_of_def)

lemma check_attempt_effect:
  assumes "check_attempt verify q db = Inr ((sc, s), db')"
  shows "db' = db \<and> sc = own_scope s \<and> scoped db s \<and> ledger_submission_post_init s = Inr ()
    \<and> (\<exists>seed b. s = attempt_of q seed b)"
  using assms unfolding check_attempt_def Let_def contest_views
  by (auto simp: tx_simps own_scope_def scoped_def
      dest!: publication_get_same version_get_same get_for_submission_same)

definition with_attempt :: "ledger_submission \<Rightarrow> nat \<Rightarrow> string option \<Rightarrow> contestdb \<Rightarrow> contestdb" where
  "with_attempt s n u db = db\<lparr>ct_ledger := add_attempt (attempt_row s n u) (ct_ledger db)\<rparr>"

lemma record_attempt_effect:
  "record_attempt q s (own_scope s) db = Inr (None, db') \<longleftrightarrow> (\<exists>n u. as_uuid (ls_id s) = Some n
     \<and> user_row (ct_catalog db) (ls_email s) = Some u
     \<and> n \<notin> su_id ` set (ld_submissions (ct_ledger db)) \<and> db' = with_attempt s n u db)"
  unfolding record_attempt_def contest_views
  by (auto simp: tx_simps submission_add_effect with_attempt_def split: option.splits)

lemma record_attempt_taken:
  assumes "record_attempt q s sc db = Inr (Some t, db')"
  shows "db' = db \<and> (\<exists>n r. as_uuid (sr_id q) = Some n \<and> find_row su_id n (ld_submissions (ct_ledger db)) = Some r
     \<and> t = submission_from_orm r \<and> ledger_submission_post_init t = Inr ())"
  using assms unfolding record_attempt_def contest_views
  by (auto simp: tx_simps Let_def split: option.splits bind_splits)

definition solve_row_of :: "ledger_submission \<Rightarrow> nat \<Rightarrow> nat \<Rightarrow> solve_row" where
  "solve_row_of s n k = \<lparr>sv_id = k, sv_competition = ls_competition s, sv_team = ls_team s,
     sv_version = (ls_definition s, ls_no s), sv_submission = n, sv_at = ls_at s, sv_seed = ls_seed s\<rparr>"

definition event_row_of :: "ledger_submission \<Rightarrow> nat \<Rightarrow> draws \<Rightarrow> event_row" where
  "event_row_of s n dw = \<lparr>er_seq = dw_seq dw, er_competition = ls_competition s, er_team = ls_team s,
     er_version = (ls_definition s, ls_no s), er_type = EvSolve, er_ts = Stamp (ls_at s), er_payload = [],
     er_submission = Some n, er_solve = Some (dw_solve dw)\<rparr>"

lemma event_row_of_fields [simp]:
  "er_seq (event_row_of s n dw) = dw_seq dw" "er_competition (event_row_of s n dw) = ls_competition s"
  "er_team (event_row_of s n dw) = ls_team s" "er_version (event_row_of s n dw) = (ls_definition s, ls_no s)"
  "er_type (event_row_of s n dw) = EvSolve" "er_ts (event_row_of s n dw) = Stamp (ls_at s)"
  "er_submission (event_row_of s n dw) = Some n" "er_solve (event_row_of s n dw) = Some (dw_solve dw)"
  by (simp_all add: event_row_of_def)

lemma solve_row_of_fields [simp]:
  "sv_id (solve_row_of s n k) = k" "sv_competition (solve_row_of s n k) = ls_competition s"
  "sv_team (solve_row_of s n k) = ls_team s" "sv_version (solve_row_of s n k) = (ls_definition s, ls_no s)"
  "sv_submission (solve_row_of s n k) = n" "sv_at (solve_row_of s n k) = ls_at s" "sv_seed (solve_row_of s n k) = ls_seed s"
  by (simp_all add: solve_row_of_def)

definition with_solve :: "ledger_submission \<Rightarrow> nat \<Rightarrow> draws \<Rightarrow> contestdb \<Rightarrow> contestdb" where
  "with_solve s n dw db =
     db\<lparr>ct_ledger := add_solve (solve_row_of s n (dw_solve dw)) (event_row_of s n dw) (dw_now dw) (ct_ledger db)\<rparr>"

definition solve_fits :: "solve_row \<Rightarrow> ledgerdb \<Rightarrow> bool" where
  "solve_fits r db \<longleftrightarrow> solve_requires_correct (ld_submissions db) r \<and> sv_id r \<notin> sv_id ` set (ld_solves db)
     \<and> solve_key r \<notin> solve_key ` set (ld_solves db) \<and> sv_submission r \<notin> sv_submission ` set (ld_solves db)
     \<and> solve_submission_tuple (ld_submissions db) r"

lemma solve_add_effect:
  "solve_add cat sol (Some c, Some t, Some v) db = Inr (x, db') \<longleftrightarrow>
     (\<exists>r. solve_to_orm sol c t v = Inr r \<and> solve_fits r db \<and> db' = db\<lparr>ld_solves := ld_solves db @ [r]\<rparr>)"
  unfolding solve_add_def row_scope_given solve_fits_def by (auto simp: tx_simps)

lemma ledger_append_effect:
  "ledger_append cat e (Some c, Some t, Some v) seq now db = Inr (x, db') \<longleftrightarrow>
     (\<exists>m r. ev_ts e = Stamp m \<and> score_event_to_orm e c t v seq = Inr r \<and> (\<forall>l \<in> set (event_links db r). \<not> snd l)
        \<and> er_seq r \<notin> ob_seq ` set (ld_outbox db)
        \<and> x = (score_event_from_orm r)\<lparr>ev_competition := ev_competition e, ev_team := ev_team e,
            ev_definition := ev_definition e, ev_no := ev_no e\<rparr>
        \<and> score_event_post_init x = Inr ()
        \<and> db' = db\<lparr>ld_events := ld_events db @ [r], ld_outbox := ld_outbox db @ [task_of r now]\<rparr>)"
  unfolding ledger_append_def row_scope_given enqueue_projection_def task_of_def
  by (auto simp: tx_simps stamp_aware_iff)

definition duplicate_outcome :: "ledger_submission \<Rightarrow> submission_outcome" where
  "duplicate_outcome s = \<lparr>oc_submission = s, oc_solve = None, oc_event = None, oc_accepted = ls_correct s,
     oc_first = False, oc_replay = False\<rparr>"

definition first_outcome :: "submission_request \<Rightarrow> ledger_submission \<Rightarrow> nat \<Rightarrow> draws \<Rightarrow> submission_outcome" where
  "first_outcome q s n dw = \<lparr>oc_submission = s, oc_solve = Some (solve_for q s (dw_solve dw)),
     oc_event = Some (score_event_from_orm (event_row_of s n dw)), oc_accepted = True, oc_first = True, oc_replay = False\<rparr>"

lemma attempt_only_iff [tx_simps]: "attempt_only s db = Inr r \<longleftrightarrow> r = (duplicate_outcome s, db)"
  by (auto simp: attempt_only_def outcome_def duplicate_outcome_def submission_outcome_post_init_def tx_simps)

lemma solve_orm_row:
  "s = attempt_of q seed b \<Longrightarrow> solve_to_orm (solve_for q s k) (sr_competition q) (sr_team q) (sr_definition q, sr_no q) = Inr r
     \<longleftrightarrow> (\<exists>n. as_uuid (sr_id q) = Some n \<and> r = solve_row_of s n k)"
  by (auto simp: solve_to_orm_def solve_for_def solve_row_of_def split: option.splits)

lemma event_orm_row:
  "s = attempt_of q seed b \<Longrightarrow> as_uuid (sr_id q) = Some n \<Longrightarrow>
     score_event_to_orm (score_event_for q s (solve_for q s (dw_solve dw))) (sr_competition q) (sr_team q) (sr_definition q, sr_no q) (dw_seq dw)
       = Inr (event_row_of s n dw)"
  by (simp add: score_event_to_orm_def bad_link_def score_event_for_def solve_for_def event_row_of_def)

definition event_fits :: "draws \<Rightarrow> nat \<Rightarrow> ledgerdb \<Rightarrow> bool" where
  "event_fits dw n db \<longleftrightarrow> 1 \<le> dw_seq dw \<and> dw_seq dw \<notin> er_seq ` set (ld_events db)
     \<and> dw_seq dw \<notin> ob_seq ` set (ld_outbox db) \<and> n \<in> su_id ` set (ld_submissions db)"

lemma names_nonempty:
  "ledger_submission_post_init (attempt_of q seed b) = Inr () \<longleftrightarrow> ident_nonempty (sr_id q) \<and> nonempty (sr_competition q)
     \<and> nonempty (sr_team q) \<and> nonempty (sr_definition q) \<and> 1 \<le> sr_no q"
  by (simp add: ledger_submission_post_init_def)

lemma solve_and_event_effect:
  assumes s: "s = attempt_of q seed True" and ok: "ledger_submission_post_init s = Inr ()"
  shows "solve_and_event q s (solve_for q s (dw_solve dw)) (own_scope s) dw db = Inr (e, db') \<longleftrightarrow>
    (\<exists>n. as_uuid (sr_id q) = Some n \<and> solve_fits (solve_row_of s n (dw_solve dw)) (ct_ledger db)
       \<and> event_fits dw n (ct_ledger db) \<and> e = score_event_from_orm (event_row_of s n dw) \<and> db' = with_solve s n dw db)"
proof (cases "as_uuid (sr_id q)")
  case None
  then show ?thesis
    unfolding solve_and_event_def contest_views own_scope_def
    by (auto simp: tx_simps solve_add_effect solve_to_orm_def solve_for_def s)
next
  case (Some n)
  let ?r = "solve_row_of s n (dw_solve dw)" and ?e = "event_row_of s n dw"
  have row: "solve_to_orm (solve_for q s (dw_solve dw)) (ls_competition s) (ls_team s) (ls_definition s, ls_no s) = Inr ?r"
    using solve_orm_row [OF s] Some by (simp add: s)
  have ev: "score_event_to_orm (score_event_for q s (solve_for q s (dw_solve dw))) (ls_competition s) (ls_team s)
      (ls_definition s, ls_no s) (dw_seq dw) = Inr ?e"
    using event_orm_row [OF s Some, of dw] by (simp add: s)
  have stamp: "ev_ts (score_event_for q s (solve_for q s (dw_solve dw))) = Stamp (ls_at s)"
    by (simp add: score_event_for_def solve_for_def s)
  have id: "sr_id q = Uid n" using Some by (cases "sr_id q") auto
  have post: "score_event_post_init (score_event_for q s (solve_for q s (dw_solve dw))) = Inr ()"
    using ok names_nonempty [of q seed True]
    by (simp add: s score_event_post_init_def score_event_for_def solve_for_def opt_ident_nonempty_def)
  let ?x = "(score_event_from_orm ?e)\<lparr>ev_competition := sr_competition q, ev_team := sr_team q,
    ev_definition := sr_definition q, ev_no := sr_no q\<rparr>"
  have same: "?x = score_event_from_orm ?e" by (simp add: score_event_from_orm_def event_row_of_def s)
  have post': "score_event_post_init ?x = Inr () \<longleftrightarrow> 1 \<le> dw_seq dw"
    using ok names_nonempty [of q seed True]
    by (auto simp: s score_event_post_init_def score_event_from_orm_def event_row_of_def opt_ident_nonempty_def)
  have evs: "ev_competition (score_event_for q s (solve_for q s k)) = sr_competition q" "ev_team (score_event_for q s (solve_for q s k)) = sr_team q"
    "ev_definition (score_event_for q s (solve_for q s k)) = sr_definition q" "ev_no (score_event_for q s (solve_for q s k)) = sr_no q" for k
    by (simp_all add: score_event_for_def)
  show ?thesis
    unfolding solve_and_event_def contest_views own_scope_def
    using Some post post'
    by (auto simp: tx_simps solve_add_effect ledger_append_effect row ev stamp evs same event_links_def dangling_def event_fits_def
        with_solve_def add_solve_def)
qed

end
