(* ===== verification/Submission_Runs.thy ===== *)
theory Submission_Runs
  imports Ledger_Inv
begin

text \<open>
  What processing one submission does to the contest, and that it keeps the ledger's invariant whatever
  its rivals commit between its statements. A rival is any change another transaction may commit: it
  keeps the invariant, drops nothing, and leaves no correct attempt of its own without a solve; processing
  a submission is itself one.
\<close>

section \<open>Rivals\<close>

definition contest_grows :: "contestdb \<Rightarrow> contestdb \<Rightarrow> bool" where
  "contest_grows db db' \<longleftrightarrow>
     set (cat_competitions (ct_catalog db)) \<subseteq> set (cat_competitions (ct_catalog db'))
     \<and> set (cat_teams (ct_catalog db)) \<subseteq> set (cat_teams (ct_catalog db'))
     \<and> set (cat_versions (ct_catalog db)) \<subseteq> set (cat_versions (ct_catalog db'))
     \<and> set (ld_submissions (ct_ledger db)) \<subseteq> set (ld_submissions (ct_ledger db'))
     \<and> set (ld_solves (ct_ledger db)) \<subseteq> set (ld_solves (ct_ledger db'))
     \<and> set (ld_events (ct_ledger db)) \<subseteq> set (ld_events (ct_ledger db'))"

definition rival :: "(contestdb \<Rightarrow> contestdb) \<Rightarrow> bool" where
  "rival f \<longleftrightarrow> (\<forall>db. contest_ok db \<longrightarrow> contest_ok (f db) \<and> contest_grows db (f db)
     \<and> unsolved (ct_ledger (f db)) \<subseteq> unsolved (ct_ledger db))"

lemma contest_grows_refl [simp]: "contest_grows db db"
  by (simp add: contest_grows_def)

lemma contest_grows_trans: "contest_grows a b \<Longrightarrow> contest_grows b c \<Longrightarrow> contest_grows a c"
  unfolding contest_grows_def by blast

lemma rival_id [simp]: "rival id"
  by (simp add: rival_def)

lemma rivalD:
  assumes "rival f" "contest_ok db"
  shows "contest_ok (f db)" "contest_grows db (f db)" "unsolved (ct_ledger (f db)) \<subseteq> unsolved (ct_ledger db)"
  using assms by (auto simp: rival_def)

section \<open>The outcome of one submission\<close>

lemma unique_keys_raises: "unique_keys ks s = Inl e \<longleftrightarrow> (\<exists>k. first_taken ks = Some k \<and> e = IntegrityError k)"
  by (auto simp: unique_keys_def tx_raise_def split: option.split)

lemma tx_sum_raises: "tx_sum x s = Inl e \<longleftrightarrow> x = Inl e"
  by (auto simp: tx_sum_def tx_raise_def split: sum.split)

lemma event_post_raises: "score_event_post_init e \<noteq> Inl (IntegrityError k)"
  by (auto simp: score_event_post_init_def)

lemma to_orm_raises:
  "solve_to_orm s c t v \<noteq> Inl (IntegrityError k)" "score_event_to_orm e c t v n \<noteq> Inl (IntegrityError k)"
  by (auto simp: solve_to_orm_def score_event_to_orm_def split: option.splits)

lemma append_collision:
  assumes "ledger_append cat e (Some c, Some t, Some v) seq now db = Inl (IntegrityError k)"
  shows "take 9 k \<noteq> ''uq_solves''"
  using assms unfolding ledger_append_def row_scope_given enqueue_projection_def
  by (auto simp: tx_raises tx_simps unique_keys_raises tx_sum_raises construct_raises event_post_raises to_orm_raises
      event_links_def dangling_def split: if_splits option.splits)

lemma solve_collision:
  assumes s: "s = attempt_of q seed True"
    and run: "solve_and_event q s (solve_for q s (dw_solve dw)) (own_scope s) dw db = Inl (IntegrityError k)"
    and k: "take 9 k = ''uq_solves''"
  shows "\<exists>n. as_uuid (sr_id q) = Some n \<and> (solve_key (solve_row_of s n (dw_solve dw)) \<in> solve_key ` set (ld_solves (ct_ledger db))
     \<or> n \<in> sv_submission ` set (ld_solves (ct_ledger db)))"
proof -
  have "solve_add (ct_catalog db) (solve_for q s (dw_solve dw)) (own_scope s) (ct_ledger db) = Inl (IntegrityError k)"
    using run k unfolding solve_and_event_def contest_views own_scope_def
    by (auto simp: tx_raises tx_simps tx_on_raises construct_raises event_post_raises dest: append_collision)
  then show ?thesis
    using k unfolding solve_add_def own_scope_def row_scope_given
    by (auto simp: tx_raises tx_simps unique_keys_raises tx_sum_raises to_orm_raises solve_to_orm_def solve_for_def
        solve_key_def s split: option.splits if_splits)
qed

definition attempt_key :: "submission_request \<Rightarrow> string \<times> string \<times> string \<times> int" where
  "attempt_key q = (sr_competition q, sr_team q, sr_definition q, sr_no q)"

definition solved_keys :: "contestdb \<Rightarrow> (string \<times> string \<times> string \<times> int) set" where
  "solved_keys db = solve_key ` set (ld_solves (ct_ledger db))"

lemma solve_row_key [simp]: "solve_key (solve_row_of (attempt_of q seed b) n k) = attempt_key q"
  by (simp add: solve_key_def attempt_key_def)

definition same_scope :: "submission_row \<Rightarrow> submission_request \<Rightarrow> bool" where
  "same_scope r q \<longleftrightarrow> (su_competition r, su_team r, su_version r) = attempt_key q"

definition replay_outcome :: "contestdb \<Rightarrow> submission_row \<Rightarrow> submission_outcome" where
  "replay_outcome db r = (let sol = map_option solve_from_orm (find_row sv_submission (su_id r) (ld_solves (ct_ledger db))) in
     \<lparr>oc_submission = submission_from_orm r, oc_solve = sol, oc_event = None, oc_accepted = su_correct r,
      oc_first = (sol \<noteq> None), oc_replay = True\<rparr>)"

lemma submission_from_orm_fields [simp]:
  "ls_id (submission_from_orm r) = Uid (su_id r)" "ls_competition (submission_from_orm r) = su_competition r"
  "ls_team (submission_from_orm r) = su_team r" "ls_definition (submission_from_orm r) = fst (su_version r)"
  "ls_no (submission_from_orm r) = snd (su_version r)" "ls_at (submission_from_orm r) = su_at r"
  "ls_correct (submission_from_orm r) = su_correct r" "ls_email (submission_from_orm r) = su_user r"
  "ls_seed (submission_from_orm r) = su_seed r"
  by (simp_all add: submission_from_orm_def)

lemma replay_iff:
  "replay (submission_from_orm r) q db = Inr (c, db') \<longleftrightarrow> same_scope r q \<and> db' = db \<and> c = replay_outcome db r
     \<and> submission_outcome_post_init c = Inr ()
     \<and> (\<forall>x. find_row sv_submission (su_id r) (ld_solves (ct_ledger db)) = Some x \<longrightarrow> solve_post_init (solve_from_orm x) = Inr ())"
  unfolding replay_def outcome_def contest_views solve_get_by_submission_def same_scope_def attempt_key_def replay_outcome_def Let_def
  by (auto simp: tx_simps prod_eq_iff)

lemma record_solve_effect:
  assumes s: "s = attempt_of q seed True" and ok: "ledger_submission_post_init s = Inr ()"
    and run: "record_solve q s (own_scope s) dw db = Inr (c, db')"
  shows "\<exists>n. as_uuid (sr_id q) = Some n
    \<and> (c = first_outcome q s n dw \<and> db' = with_solve s n dw db
         \<and> solve_fits (solve_row_of s n (dw_solve dw)) (ct_ledger db) \<and> event_fits dw n (ct_ledger db)
       \<or> c = duplicate_outcome s \<and> db' = db
         \<and> (attempt_key q \<in> solved_keys db \<or> n \<in> sv_submission ` set (ld_solves (ct_ledger db))))"
proof -
  let ?run = "solve_and_event q s (solve_for q s (dw_solve dw)) (own_scope s) dw db"
  consider e where "?run = Inr (e, db')" "c = \<lparr>oc_submission = s, oc_solve = Some (solve_for q s (dw_solve dw)),
      oc_event = Some e, oc_accepted = True, oc_first = True, oc_replay = False\<rparr>"
    | k where "?run = Inl (IntegrityError k)" "take 9 k = ''uq_solves''" "c = duplicate_outcome s" "db' = db"
    using run unfolding record_solve_def outcome_def
    by (auto simp: tx_simps tx_bind_raises split: option.splits if_splits)
  then show ?thesis
  proof cases
    case (1 e)
    then show ?thesis
      using solve_and_event_effect [OF s ok, of dw db e db'] by (auto simp: first_outcome_def)
  next
    case (2 k)
    from solve_collision [OF s 2(1,2)] s show ?thesis using 2 by (auto simp: solved_keys_def)
  qed
qed

lemma solve_get_for_challenge_effect:
  assumes "on_ledger (solve_get_for_challenge c t d no) db = Inr (found, db')"
  shows "db' = db \<and> (found = None \<longleftrightarrow> (c, t, d, no) \<notin> solved_keys db)"
  using assms unfolding solve_get_for_challenge_def contest_views solved_keys_def
  by (auto simp: tx_simps find_row_None_key)

datatype submission_effect =
    Unwritten
  | Attempted nat "string option" ledger_submission
  | Collided nat "string option" ledger_submission
  | Solved nat "string option" ledger_submission

text \<open>The ways a submission that returns can end, each with the state it leaves.\<close>

inductive submission_ends ::
  "submission_request \<Rightarrow> draws \<Rightarrow> (contestdb \<Rightarrow> contestdb) \<Rightarrow> (contestdb \<Rightarrow> contestdb) \<Rightarrow> contestdb \<Rightarrow>
   submission_outcome \<Rightarrow> contestdb \<Rightarrow> bool"
  for q dw early late db where
  replayed: "db' \<in> {db, early db} \<Longrightarrow> as_uuid (sr_id q) = Some n \<Longrightarrow>
    find_row su_id n (ld_submissions (ct_ledger db')) = Some r \<Longrightarrow> same_scope r q \<Longrightarrow>
    submission_ends q dw early late db (replay_outcome db' r) db'"
| attempted: "s = attempt_of q seed b \<Longrightarrow> scoped db s \<Longrightarrow> ledger_submission_post_init s = Inr () \<Longrightarrow>
    as_uuid (sr_id q) = Some n \<Longrightarrow> n \<notin> su_id ` set (ld_submissions (ct_ledger (early db))) \<Longrightarrow>
    (b \<Longrightarrow> attempt_key q \<in> solved_keys (early db)) \<Longrightarrow>
    submission_ends q dw early late db (duplicate_outcome s) (with_attempt s n u (early db))"
| collided: "s = attempt_of q seed True \<Longrightarrow> scoped db s \<Longrightarrow> ledger_submission_post_init s = Inr () \<Longrightarrow>
    as_uuid (sr_id q) = Some n \<Longrightarrow> n \<notin> su_id ` set (ld_submissions (ct_ledger (early db))) \<Longrightarrow>
    db2 = late (with_attempt s n u (early db)) \<Longrightarrow>
    attempt_key q \<in> solved_keys db2 \<or> n \<in> sv_submission ` set (ld_solves (ct_ledger db2)) \<Longrightarrow>
    submission_ends q dw early late db (duplicate_outcome s) db2"
| first: "s = attempt_of q seed True \<Longrightarrow> scoped db s \<Longrightarrow> ledger_submission_post_init s = Inr () \<Longrightarrow>
    as_uuid (sr_id q) = Some n \<Longrightarrow> n \<notin> su_id ` set (ld_submissions (ct_ledger (early db))) \<Longrightarrow>
    db2 = late (with_attempt s n u (early db)) \<Longrightarrow> attempt_key q \<notin> solved_keys (early db) \<Longrightarrow>
    solve_fits (solve_row_of s n (dw_solve dw)) (ct_ledger db2) \<Longrightarrow> event_fits dw n (ct_ledger db2) \<Longrightarrow>
    submission_ends q dw early late db (first_outcome q s n dw) (with_solve s n dw db2)"

lemma with_attempt_solved [simp]: "solved_keys (with_attempt s n u db) = solved_keys db"
  by (simp add: solved_keys_def with_attempt_def)

lemma process_ends:
  assumes "process_submission verify q dw early late db = (Inr c, db')"
  shows "submission_ends q dw early late db c db'"
proof -
  from assms consider
      n r where "as_uuid (sr_id q) = Some n" "find_row su_id n (ld_submissions (ct_ledger db)) = Some r"
        "replay (submission_from_orm r) q db = Inr (c, db')"
    | "process_new verify q dw early late db = Inr (c, db')"
    unfolding process_submission_def acquire_submission_lock_def contest_views session_scope_eq
    by (auto simp: tx_simps Let_def split: option.splits bind_splits)
  then show ?thesis
  proof cases
    case (1 n r)
    from 1(3) show ?thesis unfolding replay_iff using 1(1,2) by (auto intro: replayed)
  next
    case 2
    then obtain p d where p: "check_attempt verify q db = Inr (p, d)"
      and rest0: "(\<lambda>(sc, s). tx_bind (tx_modify early) (\<lambda>_. tx_bind (record_attempt q s sc) (\<lambda>taken.
        case taken of Some stored \<Rightarrow> replay stored q
          | None \<Rightarrow> if \<not> ls_correct s then attempt_only s else first_correct q s sc dw late))) p d = Inr (c, db')"
      unfolding process_new_def by (rule tx_bindE)
    obtain sc s where ps: "p = (sc, s)" by (rule prod.exhaust)
    have chk: "check_attempt verify q db = Inr ((sc, s), db)" and d: "d = db"
      using check_attempt_effect [of verify q db sc s d] p by (simp_all add: ps)
    have rest: "tx_bind (record_attempt q s sc) (\<lambda>taken. case taken of Some stored \<Rightarrow> replay stored q
          | None \<Rightarrow> if \<not> ls_correct s then attempt_only s else first_correct q s sc dw late) (early db) = Inr (c, db')"
      using rest0 unfolding ps d by (simp add: tx_bind_def tx_modify_def)
    from check_attempt_effect [OF chk] obtain seed b where s: "sc = own_scope s" "scoped db s"
      "ledger_submission_post_init s = Inr ()" "s = attempt_of q seed b" by blast
    from rest obtain taken db1 where ra: "record_attempt q s sc (early db) = Inr (taken, db1)"
      and after: "(case taken of Some stored \<Rightarrow> replay stored q
          | None \<Rightarrow> if \<not> ls_correct s then attempt_only s else first_correct q s sc dw late) db1 = Inr (c, db')"
      by (rule tx_bindE)
    consider t where "record_attempt q s sc (early db) = Inr (Some t, db1)" "replay t q db1 = Inr (c, db')"
      | "record_attempt q s (own_scope s) (early db) = Inr (None, db1)"
          "(if \<not> ls_correct s then attempt_only s else first_correct q s sc dw late) db1 = Inr (c, db')"
      using ra after s(1) by (cases taken) simp_all
    then show ?thesis
    proof cases
      case (1 t)
      then obtain n r where "db1 = early db" "as_uuid (sr_id q) = Some n"
        "find_row su_id n (ld_submissions (ct_ledger (early db))) = Some r" "t = submission_from_orm r"
        using record_attempt_taken [OF 1(1)] by blast
      with 1(2) show ?thesis by (auto simp: replay_iff intro: replayed)
    next
      case 2
      from 2(1) obtain n u where n: "as_uuid (sr_id q) = Some n" "n \<notin> su_id ` set (ld_submissions (ct_ledger (early db)))"
        and db1: "db1 = with_attempt s n u (early db)"
        unfolding record_attempt_effect s(4) by auto
      show ?thesis
      proof (cases b)
        case False
        then have "c = duplicate_outcome s" "db' = db1" using 2(2) s(4) by (auto simp: tx_simps)
        with False show ?thesis unfolding db1 by (auto intro: attempted [where early = early and db = db, OF s(4,2,3) n])
      next
        case True
        then have fc: "first_correct q s sc dw late db1 = Inr (c, db')" using 2(2) s(4) by simp
        show ?thesis
        proof (cases "attempt_key q \<in> solved_keys (early db)")
          case solved: True
          then have "c = duplicate_outcome s" "db' = db1"
            using fc unfolding first_correct_def
            by (auto simp: tx_simps attempt_key_def db1 dest!: solve_get_for_challenge_effect split: if_splits)
          with solved show ?thesis unfolding db1 by (auto intro: attempted [where early = early and db = db, OF s(4,2,3) n])
        next
          case fresh: False
          have s': "s = attempt_of q seed True" using s(4) True by simp
          have rs: "record_solve q s (own_scope s) dw (late db1) = Inr (c, db')"
            using fc fresh unfolding first_correct_def s(1)
            by (auto simp: tx_simps attempt_key_def db1 dest!: solve_get_for_challenge_effect split: if_splits)
          from record_solve_effect [OF s' s(3) rs] n(1) show ?thesis
            using collided [where early = early and db = db and u = u, OF s' s(2,3) n refl]
              first [where early = early and db = db and u = u, OF s' s(2,3) n refl fresh]
            by (auto simp: db1)
        qed
      qed
    qed
  qed
qed

section \<open>Processing keeps the ledger\<close>

lemma with_attempt_catalog [simp]: "ct_catalog (with_attempt s n u db) = ct_catalog db"
  and with_solve_catalog [simp]: "ct_catalog (with_solve s n dw db) = ct_catalog db"
  by (simp_all add: with_attempt_def with_solve_def ct_catalog_def)

lemma with_attempt_ledger [simp]: "ct_ledger (with_attempt s n u db) = add_attempt (attempt_row s n u) (ct_ledger db)"
  by (simp add: with_attempt_def)

lemma with_solve_ledger [simp]: "ct_ledger (with_solve s n dw db) =
    add_solve (solve_row_of s n (dw_solve dw)) (event_row_of s n dw) (dw_now dw) (ct_ledger db)"
  by (simp add: with_solve_def)

lemma attempt_row_fields [simp]:
  "su_id (attempt_row s n u) = n" "su_competition (attempt_row s n u) = ls_competition s"
  "su_team (attempt_row s n u) = ls_team s" "su_version (attempt_row s n u) = (ls_definition s, ls_no s)"
  "su_user (attempt_row s n u) = u" "su_at (attempt_row s n u) = ls_at s" "su_correct (attempt_row s n u) = ls_correct s"
  "su_seed (attempt_row s n u) = ls_seed s"
  by (simp_all add: attempt_row_def)

lemma scoped_grows: "scoped db s \<Longrightarrow> contest_grows db db' \<Longrightarrow> scoped db' s"
  by (auto simp: scoped_def contest_grows_def)

lemma attempt_keeps_contest:
  assumes "contest_ok db" "scoped db s" "ledger_submission_post_init s = Inr ()"
    and "n \<notin> su_id ` set (ld_submissions (ct_ledger db))"
  shows "contest_ok (with_attempt s n u db)"
proof -
  have "ledger_submission_post_init (submission_from_orm (attempt_row s n u)) = Inr ()"
    using assms(3) by (auto simp: ledger_submission_post_init_def submission_from_orm_def split: if_splits)
  then show ?thesis
    using assms attempt_keeps_ledger [of "ct_catalog db" "ct_ledger db" "attempt_row s n u"]
    by (simp add: contest_ok_def scoped_def)
qed

lemma with_attempt_grows: "contest_grows db (with_attempt s n u db)"
  by (auto simp: contest_grows_def)

lemma with_solve_grows: "contest_grows db (with_solve s n dw db)"
  by (auto simp: contest_grows_def)

lemma unsolved_attempt:
  "unsolved (ct_ledger (with_attempt (attempt_of q seed b) n u db)) \<subseteq>
     unsolved (ct_ledger db) \<union> (if b \<and> attempt_key q \<notin> solved_keys db then {attempt_key q} else {})"
  by (auto simp: unsolved_def attempt_key_def solved_keys_def)

lemma unsolved_solve:
  "unsolved (ct_ledger (with_solve (attempt_of q seed b) n dw db)) = unsolved (ct_ledger db) - {attempt_key q}"
  by (auto simp: unsolved_def attempt_key_def solve_key_def)

lemma solved_not_unsolved: "attempt_key q \<in> solved_keys db \<Longrightarrow> attempt_key q \<notin> unsolved (ct_ledger db)"
  by (simp add: unsolved_def solved_keys_def)

text \<open>A solve that names our attempt has our scope.\<close>

lemma own_solve_key:
  assumes "contest_ok db" and "attempt_row (attempt_of q seed b) n u \<in> set (ld_submissions (ct_ledger db))"
    and "n \<in> sv_submission ` set (ld_solves (ct_ledger db))"
  shows "attempt_key q \<in> solved_keys db"
proof -
  obtain r where r: "r \<in> set (ld_solves (ct_ledger db))" "sv_submission r = n" using assms(3) by blast
  then obtain s where s: "s \<in> set (ld_submissions (ct_ledger db))" "proves r s"
    using assms(1) by (auto simp: contest_ok_def ledger_ok_def solves_ok_def)
  have "distinct (map su_id (ld_submissions (ct_ledger db)))"
    using assms(1) by (simp add: contest_ok_def ledger_ok_def submissions_ok_def)
  then have "s = attempt_row (attempt_of q seed b) n u"
    using unique_row [where key = su_id, OF _ s(1) assms(2)] s(2) r(2) by (simp add: proves_def)
  then have "solve_key r = attempt_key q" using s(2) by (simp add: proves_def solve_key_def attempt_key_def)
  then show ?thesis using r(1) by (force simp: solved_keys_def)
qed

lemma solve_keeps_contest:
  assumes ok: "contest_ok db" and s: "s = attempt_of q seed True"
    and row: "attempt_row s n u \<in> set (ld_submissions (ct_ledger db))"
    and fits: "solve_fits (solve_row_of s n (dw_solve dw)) (ct_ledger db)" "event_fits dw n (ct_ledger db)"
  shows "contest_ok (with_solve s n dw db)"
proof -
  have "ledger_ok (ct_catalog db) (add_solve (solve_row_of s n (dw_solve dw)) (event_row_of s n dw) (dw_now dw) (ct_ledger db))"
  proof (rule solve_keeps_ledger)
    show "ledger_ok (ct_catalog db) (ct_ledger db)" using ok by (simp add: contest_ok_def)
    show "proves (solve_row_of s n (dw_solve dw)) (attempt_row s n u)" by (simp add: proves_def s)
    show "announces (event_row_of s n dw) (solve_row_of s n (dw_solve dw))" by (simp add: announces_def)
  qed (use fits row in \<open>simp_all add: solve_fits_def event_fits_def\<close>)
  then show ?thesis by (simp add: contest_ok_def)
qed

lemma submission_keeps:
  assumes riv: "rival early" "rival late" and ok: "contest_ok db" and ends: "submission_ends q dw early late db c db'"
  shows "contest_ok db' \<and> contest_grows db db' \<and> unsolved (ct_ledger db') \<subseteq> unsolved (ct_ledger db)"
proof -
  note e = rivalD [OF riv(1) ok]
  have start: "contest_ok (with_attempt s n u (early db))"
    if "scoped db s" "ledger_submission_post_init s = Inr ()" "n \<notin> su_id ` set (ld_submissions (ct_ledger (early db)))" for s n u
    using attempt_keeps_contest [OF e(1) scoped_grows [OF that(1) e(2)] that(2,3)] .
  from ends show ?thesis
  proof cases
    case replayed
    then show ?thesis using e ok by auto
  next
    case (attempted s seed b n u)
    have "unsolved (ct_ledger db') \<subseteq> unsolved (ct_ledger (early db))"
      using unsolved_attempt [of q seed b n u "early db"] attempted by (auto split: if_splits)
    then show ?thesis
      using start [of s n u] attempted e contest_grows_trans [OF e(2) with_attempt_grows] by auto
  next
    case (collided s seed n u)
    let ?db1 = "with_attempt s n u (early db)"
    note l = rivalD [OF riv(2) start [OF collided(3,4,6)], of u]
    have row: "attempt_row s n u \<in> set (ld_submissions (ct_ledger db'))"
      using l(2) by (auto simp: collided(7) contest_grows_def)
    have ok': "contest_ok db'" using l(1) by (simp add: collided(7))
    have "attempt_key q \<in> solved_keys db'"
      using collided(8) own_solve_key [OF ok'] row by (auto simp: collided(2))
    then have "attempt_key q \<notin> unsolved (ct_ledger db')" by (rule solved_not_unsolved)
    moreover have "unsolved (ct_ledger db') \<subseteq> unsolved (ct_ledger ?db1)" using l(3) by (simp add: collided(7))
    moreover have "unsolved (ct_ledger ?db1) \<subseteq> unsolved (ct_ledger (early db)) \<union> {attempt_key q}"
      using unsolved_attempt [of q seed True n u "early db"] by (auto simp: collided(2) split: if_splits)
    ultimately have "unsolved (ct_ledger db') \<subseteq> unsolved (ct_ledger db)" using e(3) by blast
    moreover have "contest_grows db db'"
      using contest_grows_trans [OF contest_grows_trans [OF e(2) with_attempt_grows] l(2)] by (simp add: collided(7))
    ultimately show ?thesis using ok' by blast
  next
    case (first s seed n db2 u)
    let ?db1 = "with_attempt s n u (early db)"
    note l = rivalD [OF riv(2) start [OF first(4,5,7)], of u]
    have row: "attempt_row s n u \<in> set (ld_submissions (ct_ledger db2))"
      using l(2) by (auto simp: first(8) contest_grows_def)
    have ok2: "contest_ok db2" using l(1) by (simp add: first(8))
    have "contest_ok db'"
      using solve_keeps_contest [OF ok2 first(3) row first(10,11)] by (simp add: first(2))
    moreover have "unsolved (ct_ledger db') \<subseteq> unsolved (ct_ledger db)"
    proof -
      have "unsolved (ct_ledger db2) \<subseteq> unsolved (ct_ledger ?db1)" using l(3) by (simp add: first(8))
      moreover have "unsolved (ct_ledger ?db1) \<subseteq> unsolved (ct_ledger (early db)) \<union> {attempt_key q}"
        using unsolved_attempt [of q seed True n u "early db"] by (auto simp: first(3) split: if_splits)
      moreover have "unsolved (ct_ledger db') = unsolved (ct_ledger db2) - {attempt_key q}"
        using unsolved_solve [of q seed True n dw db2] by (simp add: first(2,3))
      ultimately show ?thesis using e(3) by blast
    qed
    moreover have "contest_grows db db'"
      using contest_grows_trans [OF contest_grows_trans [OF contest_grows_trans [OF e(2) with_attempt_grows] l(2)] with_solve_grows]
      by (simp add: first(2,8))
    ultimately show ?thesis by blast
  qed
qed

lemma process_is_rival:
  assumes "rival early" "rival late"
  shows "rival (\<lambda>db. snd (process_submission verify q dw early late db))"
  unfolding rival_def
proof (intro allI impI)
  fix db assume ok: "contest_ok db"
  let ?r = "process_submission verify q dw early late db"
  show "contest_ok (snd ?r) \<and> contest_grows db (snd ?r) \<and> unsolved (ct_ledger (snd ?r)) \<subseteq> unsolved (ct_ledger db)"
  proof (cases "fst ?r")
    case (Inl e)
    then have "snd ?r = db" unfolding process_submission_def by (rule session_scope_raises)
    then show ?thesis using ok by simp
  next
    case (Inr c)
    then have "?r = (Inr c, snd ?r)" by (cases ?r) simp
    from submission_keeps [OF assms ok process_ends [OF this]] show ?thesis .
  qed
qed

end
