(* ===== verification/Projection_Runs.thy ===== *)
theory Projection_Runs
  imports Submission_Runs
begin

text \<open>
  What one pass of the projector does, and the invariant that no committed event is lost: every event of a
  competition is either still queued in the outbox or part of the events the cached board was folded from.
\<close>

section \<open>The fold as a relation\<close>

definition ledger_rows :: "contestdb \<Rightarrow> string \<Rightarrow> event_row list" where
  "ledger_rows db c = sort_key er_seq (filter (\<lambda>r. er_competition r = c) (ld_events (ct_ledger db)))"

definition board_of :: "string \<Rightarrow> authdb \<Rightarrow> string \<Rightarrow> event_row list \<Rightarrow> projection_record \<Rightarrow> bool" where
  "board_of engine_name A c rows record \<longleftrightarrow> (\<exists>config solves last_seq pubs eng snapshot.
     competition_get c A = Inr (Some config, A) \<and> (\<forall>r \<in> set rows. score_event_post_init (score_event_from_orm r) = Inr ())
     \<and> fold_exn fold_event ([], 0) (map score_event_from_orm rows) = Inr (solves, last_seq)
     \<and> publication_list_for_competition c A = Inr (pubs, A) \<and> get_scoring_engine engine_name = Inr eng
     \<and> compute_scoreboard solves (challenges_of pubs) config (Some eng) None = Inr snapshot
     \<and> record = \<lparr>sp_competition = c, sp_seq = last_seq, sp_entries = snapshot, sp_computed = None\<rparr>
     \<and> projection_record_post_init record = Inr ())"

lemma competition_get_same: "competition_get c A = Inr (v, A') \<Longrightarrow> A' = A"
  by (auto simp: competition_get_def tx_simps)

lemma publication_list_same: "publication_list_for_competition c A = Inr (v, A') \<Longrightarrow> A' = A"
  unfolding publication_list_for_competition_def by (auto simp: tx_simps)

lemma event_list_iff [tx_simps]:
  "event_list_for_competition c db = Inr r \<longleftrightarrow>
    (let rows = sort_key er_seq (filter (\<lambda>r. er_competition r = c) (ld_events db)) in
      (\<forall>r \<in> set rows. score_event_post_init (score_event_from_orm r) = Inr ()) \<and> r = (map score_event_from_orm rows, db))"
  unfolding event_list_for_competition_def Let_def by (auto simp: tx_simps)

lemma refold_iff:
  "refold engine_name c db = Inr (record, db') \<longleftrightarrow>
     db' = db \<and> board_of engine_name (ct_auth db) c (ledger_rows db c) record"
  unfolding refold_def contest_views board_of_def ledger_rows_def competition_get_def publication_list_for_competition_def
  by (auto simp: tx_simps Let_def dest!: sym [of "Some x" for x])

lemma fold_event_step: "fold_event (ss, m) (score_event_from_orm r) = Inr (ss', b) \<Longrightarrow> b = max m (er_seq r)"
  by (auto simp: fold_event_def score_event_from_orm_def Let_def split: sum.splits if_splits)

lemma fold_event_top:
  "fold_exn fold_event (ss, m) (map score_event_from_orm rows) = Inr (solves, last_seq) \<Longrightarrow>
     last_seq = Max (insert m (er_seq ` set rows))"
proof (induction rows arbitrary: ss m)
  case (Cons r rows)
  then obtain ss' b where step: "fold_event (ss, m) (score_event_from_orm r) = Inr (ss', b)"
    and rest: "fold_exn fold_event (ss', b) (map score_event_from_orm rows) = Inr (solves, last_seq)"
    by (auto split: sum.splits)
  have b: "b = max m (er_seq r)" using step by (rule fold_event_step)
  have "Max (insert m (er_seq ` set (r # rows))) = Max (insert (max m (er_seq r)) (er_seq ` set rows))"
    by (cases "rows = []") (auto simp: Max_insert max.assoc)
  with Cons.IH [OF rest] b show ?case by simp
qed simp

lemma board_of_seq: "board_of engine_name A c rows record \<Longrightarrow> sp_seq record = Max (insert 0 (er_seq ` set rows))"
  by (auto simp: board_of_def dest: fold_event_top)

lemma board_of_competition: "board_of engine_name A c rows record \<Longrightarrow> sp_competition record = c"
  by (auto simp: board_of_def)

lemma set_ledger_rows: "set (ledger_rows db c) = {e \<in> set (ld_events (ct_ledger db)). er_competition e = c}"
  by (auto simp: ledger_rows_def)

lemma top_seq_rows: "top_seq (ct_ledger db) c = Max (insert 0 (er_seq ` set (ledger_rows db c)))"
  by (simp add: top_seq_def set_ledger_rows)

section \<open>Coverage\<close>

definition unqueued :: "contestdb \<Rightarrow> string \<Rightarrow> event_row set" where
  "unqueued db c = {e \<in> set (ld_events (ct_ledger db)). er_competition e = c \<and> er_seq e \<notin> ob_seq ` set (ld_outbox (ct_ledger db))}"

definition cached :: "contestdb \<Rightarrow> string \<Rightarrow> projection_row option" where
  "cached db c = find_row pj_competition c (ld_projections (ct_ledger db))"

definition covered :: "string \<Rightarrow> contestdb \<Rightarrow> string \<Rightarrow> bool" where
  "covered engine_name db c \<longleftrightarrow> unqueued db c = {} \<or>
     (\<exists>p rows record. cached db c = Some p \<and> sorted (map er_seq rows) \<and> distinct rows
        \<and> unqueued db c \<subseteq> set rows \<and> set rows \<subseteq> set (ledger_rows db c)
        \<and> board_of engine_name (ct_auth db) c rows record \<and> pj_seq p = sp_seq record \<and> pj_entries p = sp_entries record)"

lemma covered_mono:
  assumes "covered engine_name db c" and "ct_auth db' = ct_auth db" "unqueued db' c \<subseteq> unqueued db c"
    "set (ledger_rows db c) \<subseteq> set (ledger_rows db' c)" "cached db' c = cached db c"
  shows "covered engine_name db' c"
proof (cases "unqueued db c = {}")
  case True
  then show ?thesis using assms(3) by (auto simp: covered_def)
next
  case False
  then show ?thesis using assms unfolding covered_def by (metis (no_types, opaque_lifting) subset_trans)
qed

lemma grows_rows: "contest_grows db db' \<Longrightarrow> set (ledger_rows db c) \<subseteq> set (ledger_rows db' c)"
  by (auto simp: contest_grows_def set_ledger_rows)

section \<open>Peers of the projector\<close>

text \<open>What any party may do to the contest while the catalogue stands still.\<close>

definition advances :: "string \<Rightarrow> contestdb \<Rightarrow> contestdb \<Rightarrow> bool" where
  "advances engine_name db db' \<longleftrightarrow> contest_ok db' \<and> contest_grows db db'
     \<and> unsolved (ct_ledger db') \<subseteq> unsolved (ct_ledger db) \<and> ct_auth db' = ct_auth db
     \<and> (\<forall>c. covered engine_name db c \<longrightarrow> covered engine_name db' c)"

definition peer :: "string \<Rightarrow> (contestdb \<Rightarrow> contestdb) \<Rightarrow> bool" where
  "peer engine_name f \<longleftrightarrow> (\<forall>db. contest_ok db \<longrightarrow> advances engine_name db (f db))"

text \<open>While this projector holds the lock of \<open>c\<close>, nobody else writes its board or takes its tasks away.\<close>

definition locked_out :: "string \<Rightarrow> (contestdb \<Rightarrow> contestdb) \<Rightarrow> bool" where
  "locked_out c f \<longleftrightarrow> (\<forall>db. contest_ok db \<longrightarrow> unqueued (f db) c \<subseteq> unqueued db c \<and> cached (f db) c = cached db c)"

lemma advances_refl: "contest_ok db \<Longrightarrow> advances engine_name db db"
  by (simp add: advances_def)

lemma advances_trans: "advances e a b \<Longrightarrow> advances e b c \<Longrightarrow> advances e a c"
  unfolding advances_def using contest_grows_trans by (metis order_trans)

lemma peer_id [simp]: "peer engine_name id"
  by (simp add: peer_def advances_refl)

lemma locked_out_id [simp]: "locked_out c id"
  by (simp add: locked_out_def)

lemma peer_rival: "peer engine_name f \<Longrightarrow> rival f"
  by (simp add: peer_def advances_def rival_def)

section \<open>Marking tasks\<close>

definition retouch :: "(outbox_row \<Rightarrow> outbox_row) \<Rightarrow> contestdb \<Rightarrow> contestdb" where
  "retouch g db = db\<lparr>ct_ledger := (ct_ledger db)\<lparr>ld_outbox := map g (ld_outbox (ct_ledger db))\<rparr>\<rparr>"

definition keeps_task :: "(outbox_row \<Rightarrow> outbox_row) \<Rightarrow> bool" where
  "keeps_task g \<longleftrightarrow> (\<forall>b. ob_seq (g b) = ob_seq b \<and> ob_competition (g b) = ob_competition b
     \<and> ob_attempts b \<le> ob_attempts (g b) \<and> (ob_status (g b) = TaskPending \<longrightarrow> ob_status b = TaskPending))"

lemma retouch_fields [simp]:
  "ct_auth (retouch g db) = ct_auth db" "ct_catalog (retouch g db) = ct_catalog db"
  "ld_events (ct_ledger (retouch g db)) = ld_events (ct_ledger db)"
  "ld_submissions (ct_ledger (retouch g db)) = ld_submissions (ct_ledger db)"
  "ld_solves (ct_ledger (retouch g db)) = ld_solves (ct_ledger db)"
  "ld_projections (ct_ledger (retouch g db)) = ld_projections (ct_ledger db)"
  "ld_outbox (ct_ledger (retouch g db)) = map g (ld_outbox (ct_ledger db))"
  by (simp_all add: retouch_def ct_catalog_def)

lemma keeps_task_seqs: "keeps_task g \<Longrightarrow> map ob_seq (map g bs) = map ob_seq bs"
  by (simp add: keeps_task_def)

lemma retouch_advances:
  assumes "contest_ok db" "keeps_task g"
  shows "advances engine_name db (retouch g db)"
proof -
  have seqs: "map ob_seq (map g (ld_outbox (ct_ledger db))) = map ob_seq (ld_outbox (ct_ledger db))"
    by (rule keeps_task_seqs [OF assms(2)])
  have "outbox_ok (ct_ledger (retouch g db))"
    using assms unfolding contest_ok_def ledger_ok_def outbox_ok_def keeps_task_def
    by (auto simp: comp_def intro: order_trans)
  moreover have "cache_ok (ct_ledger (retouch g db))"
    using assms(1) by (simp add: contest_ok_def ledger_ok_def cache_ok_def top_seq_def)
  ultimately have "contest_ok (retouch g db)"
    using assms(1) by (simp add: contest_ok_def ledger_ok_defs)
  moreover have "unqueued (retouch g db) c = unqueued db c" for c
    using arg_cong [OF seqs, of set] by (simp add: unqueued_def image_image)
  then have "covered engine_name db c \<longrightarrow> covered engine_name (retouch g db) c" for c
    using covered_mono [of engine_name db c "retouch g db"] by (simp add: set_ledger_rows cached_def)
  ultimately show ?thesis by (simp add: advances_def contest_grows_def unsolved_def)
qed

lemma update_pending_retouch:
  "db\<lparr>ct_ledger := update_pending seqs f (ct_ledger db)\<rparr> =
     retouch (\<lambda>r. if ob_seq r \<in> set seqs \<and> ob_status r = TaskPending then f r else r) db"
  by (simp add: retouch_def update_pending_def)

lemma divert_effect:
  "\<exists>g. keeps_task g \<and> divert seqs e db = (Inr 0, retouch g db)"
proof (cases "seqs = []")
  case True
  have "retouch id db = db" by (simp add: retouch_def)
  then have "divert seqs e db = (Inr 0, retouch id db)"
    using True by (simp add: divert_def mark_projection_failed_def mark_projection_transient_def svc_bind_def svc_ret_def)
  then show ?thesis by (intro exI [of _ id]) (simp add: keeps_task_def)
next
  case False
  let ?f = "if e \<in> set deterministic_poison then fail_row e else retry_row e max_transient_attempts"
  let ?g = "\<lambda>r. if ob_seq r \<in> set seqs \<and> ob_status r = TaskPending then ?f r else r"
  have "divert seqs e db = (Inr 0, retouch ?g db)"
    using False unfolding divert_def mark_projection_failed_def mark_projection_transient_def contest_views
      fail_tasks_def mark_transient_def
    by (simp add: svc_bind_def svc_ret_def session_scope_def tx_on_def tx_bind_def tx_get_def tx_modify_def tx_ret_def
        update_pending_retouch)
  moreover have "keeps_task ?g" by (simp add: keeps_task_def fail_row_def retry_row_def Let_def)
  ultimately show ?thesis by blast
qed

lemma divert_advances: "contest_ok db \<Longrightarrow> advances engine_name db (snd (divert seqs e db))"
  using divert_effect [of seqs e db] retouch_advances by auto

section \<open>Claiming and storing\<close>

definition claimable_rows :: "pass_env \<Rightarrow> string \<Rightarrow> contestdb \<Rightarrow> outbox_row list" where
  "claimable_rows env c db = filter (\<lambda>r. ob_seq r \<notin> set (en_locked env) \<and> ob_competition r = c) (pending_rows (ct_ledger db))"

lemma claim_tasks_effect:
  "claim_tasks env batch c db = Inr (seqs, db') \<longleftrightarrow> en_fault_claim env = None \<and> db' = db
     \<and> c \<in> set (cat_competitions (ct_catalog db))
     \<and> (\<forall>r \<in> set (order_limit ob_seq batch (claimable_rows env c db)). projection_task_post_init (projection_task_from_orm r) = Inr ())
     \<and> seqs = map ob_seq (order_limit ob_seq batch (claimable_rows env c db))"
  unfolding claim_tasks_def claim_pending_def contest_views claimable_rows_def strike_def
  by (auto simp: tx_simps projection_task_from_orm_def comp_def split: option.splits)

lemma claimed_rows:
  assumes "claim_tasks env batch c db = Inr (seqs, db')" and "n \<in> set seqs"
  shows "\<exists>b \<in> set (ld_outbox (ct_ledger db)). ob_seq b = n \<and> ob_competition b = c"
  using assms set_order_limit [of ob_seq batch "claimable_rows env c db"]
  by (auto simp: claim_tasks_effect claimable_rows_def pending_rows_def)

definition stored_board :: "projection_record \<Rightarrow> instant \<Rightarrow> projection_row" where
  "stored_board record now = \<lparr>pj_competition = sp_competition record, pj_seq = sp_seq record,
     pj_entries = sp_entries record, pj_computed = now\<rparr>"

definition upserted :: "projection_row \<Rightarrow> projection_row list \<Rightarrow> projection_row list" where
  "upserted new ps = (case find_row pj_competition (pj_competition new) ps of None \<Rightarrow> ps @ [new]
     | Some old \<Rightarrow> if pj_seq new \<ge> pj_seq old then put_row pj_competition new ps else ps)"

definition settled :: "projection_row \<Rightarrow> int list \<Rightarrow> contestdb \<Rightarrow> contestdb" where
  "settled new seqs db = db\<lparr>ct_ledger := (ct_ledger db)
     \<lparr>ld_projections := upserted new (ld_projections (ct_ledger db)),
      ld_outbox := filter (\<lambda>r. ob_seq r \<notin> set seqs) (ld_outbox (ct_ledger db))\<rparr>\<rparr>"

lemma store_projection_effect:
  "store_projection env record seqs db = Inr (n, db') \<longleftrightarrow> en_fault_fold env = None
     \<and> sp_competition record \<in> set (cat_competitions (ct_catalog db))
     \<and> n = int (length seqs) \<and> db' = settled (stored_board record (en_clock env)) seqs db"
  unfolding store_projection_def projection_upsert_def complete_tasks_def contest_views strike_def settled_def upserted_def
    stored_board_def Let_def
  by (auto simp: tx_simps split: option.splits)

lemma settled_fields [simp]:
  "ct_auth (settled new seqs db) = ct_auth db" "ct_catalog (settled new seqs db) = ct_catalog db"
  "ld_events (ct_ledger (settled new seqs db)) = ld_events (ct_ledger db)"
  "ld_submissions (ct_ledger (settled new seqs db)) = ld_submissions (ct_ledger db)"
  "ld_solves (ct_ledger (settled new seqs db)) = ld_solves (ct_ledger db)"
  "ld_projections (ct_ledger (settled new seqs db)) = upserted new (ld_projections (ct_ledger db))"
  "ld_outbox (ct_ledger (settled new seqs db)) = filter (\<lambda>r. ob_seq r \<notin> set seqs) (ld_outbox (ct_ledger db))"
  by (simp_all add: settled_def ct_catalog_def)

lemma upserted_keys:
  "distinct (map pj_competition ps) \<Longrightarrow> distinct (map pj_competition (upserted new ps))"
  by (auto simp: upserted_def find_row_None_iff split: option.split)

lemma upserted_member: "p \<in> set (upserted new ps) \<Longrightarrow> p = new \<or> p \<in> set ps"
  by (auto simp: upserted_def split: option.splits if_splits dest: set_put_rowD)

lemma find_upserted_other: "c \<noteq> pj_competition new \<Longrightarrow> find_row pj_competition c (upserted new ps) = find_row pj_competition c ps"
  by (auto simp: upserted_def find_row_append find_row_Cons find_row_put_row split: option.split)

lemma find_upserted_same:
  assumes "\<forall>old. find_row pj_competition (pj_competition new) ps = Some old \<longrightarrow> pj_seq old \<le> pj_seq new"
  shows "find_row pj_competition (pj_competition new) (upserted new ps) = Some new"
proof (cases "find_row pj_competition (pj_competition new) ps")
  case None
  then show ?thesis by (simp add: upserted_def find_row_append find_row_Cons)
next
  case (Some old)
  then have "pj_competition new \<in> pj_competition ` set ps" using find_row_SomeD [OF Some] by (metis imageI)
  then show ?thesis using Some assms by (simp add: upserted_def find_row_put_row)
qed

lemma filtered_seqs: "ob_seq ` set (filter (\<lambda>r. ob_seq r \<notin> S) bs) = ob_seq ` set bs - S"
  by auto

lemma unqueued_settled:
  "unqueued (settled new seqs db) c = unqueued db c \<union>
     {e \<in> set (ld_events (ct_ledger db)). er_competition e = c \<and> er_seq e \<in> set seqs}"
  unfolding unqueued_def settled_fields filtered_seqs by blast

lemma settled_contest:
  assumes "contest_ok db" and "0 \<le> pj_seq new" "pj_seq new \<le> top_seq (ct_ledger db) (pj_competition new)"
  shows "contest_ok (settled new seqs db)"
proof -
  have "outbox_ok (ct_ledger (settled new seqs db))"
    using assms(1) by (auto simp: contest_ok_def ledger_ok_def outbox_ok_def distinct_map_filter)
  moreover have "cache_ok (ct_ledger (settled new seqs db))"
    using assms by (auto simp: contest_ok_def ledger_ok_def cache_ok_def top_seq_def intro: upserted_keys dest: upserted_member)
  ultimately show ?thesis using assms(1) by (simp add: contest_ok_def ledger_ok_def submissions_ok_def solves_ok_def events_ok_def)
qed

section \<open>One pass\<close>

text \<open>
  Storing the board folded from everything committed when the lock was held covers what is settled, even
  when others have committed events since.
\<close>

lemma store_advances:
  assumes ok1: "contest_ok db1" and adv: "advances engine_name db1 db2"
    and out: "unqueued db2 c \<subseteq> unqueued db1 c" "cached db2 c = cached db1 c"
    and fold: "board_of engine_name (ct_auth db1) c (ledger_rows db1 c) record"
    and seqs: "\<forall>n \<in> set seqs. \<exists>e \<in> set (ledger_rows db1 c). er_seq e = n"
  shows "advances engine_name db2 (settled (stored_board record now) seqs db2)"
proof -
  let ?new = "stored_board record now" and ?db3 = "settled (stored_board record now) seqs db2"
  have ok2: "contest_ok db2" and grow: "contest_grows db1 db2" and auth: "ct_auth db2 = ct_auth db1"
    using adv by (simp_all add: advances_def)
  have new: "pj_competition ?new = c" "pj_seq ?new = top_seq (ct_ledger db1) c"
    using board_of_seq [OF fold] board_of_competition [OF fold] by (simp_all add: stored_board_def top_seq_rows)
  have events: "set (ld_events (ct_ledger db1)) \<subseteq> set (ld_events (ct_ledger db2))" using grow by (simp add: contest_grows_def)
  have rows12: "set (ledger_rows db1 c) \<subseteq> set (ledger_rows db2 c)" by (rule grows_rows [OF grow])
  have seq_unique: "e \<in> set (ledger_rows db1 c)"
    if e: "e \<in> set (ld_events (ct_ledger db2))" "er_seq e \<in> set seqs" for e
  proof -
    obtain e' where e': "e' \<in> set (ledger_rows db1 c)" "er_seq e' = er_seq e" using seqs e(2) by blast
    have "distinct (map er_seq (ld_events (ct_ledger db2)))"
      using ok2 by (simp add: contest_ok_def ledger_ok_def events_ok_def)
    moreover have "e' \<in> set (ld_events (ct_ledger db2))" using e'(1) events by (auto simp: set_ledger_rows)
    ultimately have "e' = e" using unique_row [where key = er_seq] e(1) e'(2) by blast
    then show ?thesis using e'(1) by simp
  qed
  have ok3: "contest_ok ?db3"
  proof (rule settled_contest [OF ok2])
    show "0 \<le> pj_seq ?new" unfolding new(2) top_seq_def by simp
    show "pj_seq ?new \<le> top_seq (ct_ledger db2) (pj_competition ?new)"
      unfolding new by (rule top_seq_mono [OF events])
  qed
  have cov: "covered engine_name ?db3 d" if d: "covered engine_name db2 d" for d
  proof (cases "d = c")
    case True
    have "\<forall>old. find_row pj_competition c (ld_projections (ct_ledger db2)) = Some old \<longrightarrow> pj_seq old \<le> pj_seq ?new"
    proof (intro allI impI)
      fix old assume "find_row pj_competition c (ld_projections (ct_ledger db2)) = Some old"
      then have "cached db1 c = Some old" using out(2) by (simp add: cached_def)
      then have "old \<in> set (ld_projections (ct_ledger db1))" "pj_competition old = c"
        by (auto simp: cached_def dest: find_row_SomeD)
      then show "pj_seq old \<le> pj_seq ?new"
        using ok1 by (auto simp: new contest_ok_def ledger_ok_def cache_ok_def)
    qed
    then have row: "cached ?db3 c = Some ?new"
      using find_upserted_same [of ?new "ld_projections (ct_ledger db2)"] by (simp add: cached_def new)
    have "unqueued ?db3 c \<subseteq> set (ledger_rows db1 c)"
      unfolding unqueued_settled using out(1) seq_unique by (auto simp: unqueued_def set_ledger_rows)
    moreover have "set (ledger_rows db1 c) \<subseteq> set (ledger_rows ?db3 c)" using rows12 by (simp add: set_ledger_rows)
    moreover have "sorted (map er_seq (ledger_rows db1 c))" by (simp add: ledger_rows_def)
    moreover have "distinct (ledger_rows db1 c)"
      using ok1 by (simp add: ledger_rows_def contest_ok_def ledger_ok_def events_ok_def distinct_map)
    moreover have "pj_seq ?new = sp_seq record" "pj_entries ?new = sp_entries record" by (simp_all add: stored_board_def)
    ultimately show ?thesis unfolding True covered_def using row fold auth by (metis settled_fields(1))
  next
    case False
    show ?thesis
    proof (rule covered_mono [OF d])
      show "unqueued ?db3 d \<subseteq> unqueued db2 d"
        unfolding unqueued_settled using seq_unique False by (auto simp: set_ledger_rows)
      show "cached ?db3 d = cached db2 d"
        using find_upserted_other [of d ?new] False by (simp add: cached_def new)
    qed (simp_all add: set_ledger_rows)
  qed
  have "contest_grows db2 ?db3" by (simp add: contest_grows_def)
  moreover have "unsolved (ct_ledger ?db3) = unsolved (ct_ledger db2)" by (simp add: unsolved_def)
  ultimately show ?thesis using ok3 cov by (simp add: advances_def)
qed

definition pass_ok :: "string \<Rightarrow> string \<Rightarrow> pass_env \<Rightarrow> bool" where
  "pass_ok engine_name c env \<longleftrightarrow> peer engine_name (en_early env) \<and> peer engine_name (en_late env) \<and> locked_out c (en_late env)"

lemma pass_ok_calm [simp]: "pass_ok engine_name c (calm now)"
  by (simp add: pass_ok_def calm_def)

lemma fold_locked_effect:
  "fold_locked engine_name c db = Inr (record, db') \<longleftrightarrow> db' = db \<and> c \<in> set (cat_competitions (ct_catalog db))
     \<and> board_of engine_name (ct_auth db) c (ledger_rows db c) record"
  unfolding fold_locked_def acquire_competition_lock_def by (auto simp: tx_simps refold_iff)

lemma pass_advances:
  assumes env: "pass_ok engine_name c env" and ok: "contest_ok db"
  shows "advances engine_name db (snd (project_competition engine_name env batch c db))"
proof (cases "claim_tasks env batch c db")
  case (Inl e)
  then show ?thesis using divert_advances [OF ok, of engine_name "[]" e] by (simp add: project_competition_def)
next
  case (Inr p)
  obtain seqs d where p: "p = (seqs, d)" by (cases p)
  have claim: "claim_tasks env batch c db = Inr (seqs, db)" using Inr p by (auto simp: claim_tasks_effect)
  let ?db1 = "en_early env db"
  have early: "advances engine_name db ?db1" using env ok by (simp add: pass_ok_def peer_def)
  then have ok1: "contest_ok ?db1" by (simp add: advances_def)
  show ?thesis
  proof (cases "seqs = []")
    case True
    then show ?thesis using claim advances_refl [OF ok] by (simp add: project_competition_def)
  next
    case False
    show ?thesis
    proof (cases "fold_locked engine_name c ?db1")
      case (Inl e)
      then show ?thesis
        using claim False advances_trans [OF early divert_advances [OF ok1, of engine_name seqs e]]
        by (simp add: project_competition_def)
    next
      case folded: (Inr rp)
      obtain board d where rp: "rp = (board, d)" by (cases rp)
      have fold: "board_of engine_name (ct_auth ?db1) c (ledger_rows ?db1 c) board" and d: "d = ?db1"
        using folded unfolding rp fold_locked_effect by auto
      let ?db2 = "en_late env ?db1"
      have late: "advances engine_name ?db1 ?db2" using env ok1 by (simp add: pass_ok_def peer_def)
      then have ok2: "contest_ok ?db2" by (simp add: advances_def)
      have out: "unqueued ?db2 c \<subseteq> unqueued ?db1 c" "cached ?db2 c = cached ?db1 c"
        using env ok1 by (simp_all add: pass_ok_def locked_out_def)
      have seqs: "\<forall>n \<in> set seqs. \<exists>e \<in> set (ledger_rows ?db1 c). er_seq e = n"
      proof
        fix n assume "n \<in> set seqs"
        then obtain b where b: "b \<in> set (ld_outbox (ct_ledger db))" "ob_seq b = n" "ob_competition b = c"
          using claimed_rows [OF claim] by blast
        then obtain e where "e \<in> set (ld_events (ct_ledger db))" "er_seq e = n" "er_competition e = c"
          using ok by (auto simp: contest_ok_def ledger_ok_def outbox_ok_def)
        then show "\<exists>e \<in> set (ledger_rows ?db1 c). er_seq e = n"
          using early by (auto simp: advances_def contest_grows_def set_ledger_rows)
      qed
      have "advances engine_name ?db2 (snd (svc_catch (session_scope (store_projection env board seqs)) (divert seqs) ?db2))"
      proof (cases "store_projection env board seqs ?db2")
        case (Inl e)
        then show ?thesis
          using divert_advances [OF ok2, of engine_name seqs e] by (simp add: svc_catch_def session_scope_def)
      next
        case (Inr sp)
        obtain n db3 where sp: "sp = (n, db3)" by (cases sp)
        have "db3 = settled (stored_board board (en_clock env)) seqs ?db2"
          using Inr unfolding sp store_projection_effect by blast
        then have "snd (svc_catch (session_scope (store_projection env board seqs)) (divert seqs) ?db2)
            = settled (stored_board board (en_clock env)) seqs ?db2"
          by (simp add: svc_catch_def session_scope_def Inr sp)
        then show ?thesis using store_advances [OF ok1 late out fold seqs] by simp
      qed
      then show ?thesis
        using claim False folded rp d advances_trans [OF advances_trans [OF early late]] by (simp add: project_competition_def)
    qed
  qed
qed

end
