(* ===== verification/Contest_Runs.thy ===== *)
theory Contest_Runs
  imports Projection_Runs
begin

text \<open>
  Whole runs of the contest: submissions, projector passes, drains and rebuilds, each interleaved with
  peers, and the states they reach.
\<close>

section \<open>Submissions advance\<close>

lemma peer_advances: "peer engine_name f \<Longrightarrow> contest_ok db \<Longrightarrow> advances engine_name db (f db)"
  by (simp add: peer_def)

lemma with_attempt_auth [simp]: "ct_auth (with_attempt s n u db) = ct_auth db"
  by (simp add: with_attempt_def)

lemma with_solve_auth [simp]: "ct_auth (with_solve s n dw db) = ct_auth db"
  by (simp add: with_solve_def)

lemma with_attempt_covered: "covered engine_name db c \<Longrightarrow> covered engine_name (with_attempt s n u db) c"
  by (rule covered_mono) (auto simp: unqueued_def set_ledger_rows cached_def)

lemma with_solve_covered: "covered engine_name db c \<Longrightarrow> covered engine_name (with_solve s n dw db) c"
  by (rule covered_mono) (auto simp: unqueued_def set_ledger_rows cached_def task_of_def)

lemma submission_advances:
  assumes env: "peer engine_name early" "peer engine_name late" and ok: "contest_ok db"
    and ends: "submission_ends q dw early late db c db'"
  shows "advances engine_name db db'"
proof -
  have early: "advances engine_name db (early db)" by (rule peer_advances [OF env(1) ok])
  then have ok1: "contest_ok (early db)" "contest_grows db (early db)" by (simp_all add: advances_def)
  have started: "contest_ok (with_attempt s n u (early db))"
    if "scoped db s" "ledger_submission_post_init s = Inr ()" "n \<notin> su_id ` set (ld_submissions (ct_ledger (early db)))" for s n u
    using attempt_keeps_contest [OF ok1(1) scoped_grows [OF that(1) ok1(2)] that(2,3)] .
  have cov1: "covered engine_name (with_attempt s n u (early db)) d" if "covered engine_name db d" for s n u d
    using that early with_attempt_covered by (auto simp: advances_def)
  have late: "advances engine_name (with_attempt s n u (early db)) (late (with_attempt s n u (early db)))"
    if "scoped db s" "ledger_submission_post_init s = Inr ()" "n \<notin> su_id ` set (ld_submissions (ct_ledger (early db)))" for s n u
    by (rule peer_advances [OF env(2) started [OF that]])
  have "ct_auth db' = ct_auth db \<and> (\<forall>d. covered engine_name db d \<longrightarrow> covered engine_name db' d)"
    using ends
  proof cases
    case replayed
    then show ?thesis using early by (auto simp: advances_def)
  next
    case (attempted s seed b n u)
    then show ?thesis using early cov1 by (simp add: advances_def)
  next
    case (collided s seed n u)
    then show ?thesis using early cov1 late [of s n u] by (simp add: advances_def)
  next
    case (first s seed n db2 u)
    then show ?thesis using early cov1 late [of s n u] with_solve_covered by (simp add: advances_def)
  qed
  then show ?thesis
    using submission_keeps [OF peer_rival [OF env(1)] peer_rival [OF env(2)] ok ends] by (simp add: advances_def)
qed

lemma process_advances:
  assumes "peer engine_name early" "peer engine_name late" and "contest_ok db"
  shows "advances engine_name db (snd (process_submission verify q dw early late db))"
proof (cases "process_submission verify q dw early late db")
  case (Pair r db')
  show ?thesis
  proof (cases r)
    case (Inl e)
    then have "db' = db"
      using Pair session_scope_raises unfolding process_submission_def by (metis fst_conv snd_conv)
    then show ?thesis using Pair advances_refl [OF assms(3)] by simp
  next
    case (Inr c)
    then show ?thesis using Pair submission_advances [OF assms process_ends] by simp
  qed
qed

text \<open>Processing a submission, and a projector's pass, are themselves what a peer may do.\<close>

lemma process_is_peer:
  "peer engine_name early \<Longrightarrow> peer engine_name late \<Longrightarrow>
     peer engine_name (\<lambda>db. snd (process_submission verify q dw early late db))"
  by (simp add: peer_def process_advances)

lemma pass_is_peer: "pass_ok engine_name c env \<Longrightarrow> peer engine_name (\<lambda>db. snd (project_competition engine_name env batch c db))"
  by (simp add: peer_def pass_advances)

section \<open>The drain\<close>

lemma project_competition_returns: "\<exists>n. fst (project_competition engine_name env batch c db) = Inr n"
proof -
  have d: "\<exists>n. fst (divert seqs e db) = Inr n" for seqs e db using divert_effect [of seqs e db] by auto
  show ?thesis
    using d by (auto simp: project_competition_def svc_catch_def session_scope_def split: sum.splits prod.splits)
qed

lemma svc_bind_step: "m s = (Inr x, s') \<Longrightarrow> svc_bind m f s = f x s'"
  by (simp add: svc_bind_def)

lemma svc_bind_ret_state: "snd (svc_bind m (\<lambda>x. svc_ret (g x)) s) = snd (m s)"
  by (simp add: svc_bind_def svc_ret_def split: prod.split sum.split)

lemma project_each_advances:
  assumes "\<And>k c. pass_ok engine_name c (envs k)" and "contest_ok db"
  shows "advances engine_name db (snd (project_each engine_name envs k batch cs db))"
  using assms(2)
proof (induction cs arbitrary: k db)
  case Nil
  then show ?case by (simp add: svc_ret_def advances_refl)
next
  case (Cons c cs)
  obtain n db1 where n: "project_competition engine_name (envs k) batch c db = (Inr n, db1)"
    using project_competition_returns by (metis prod.collapse)
  have step: "advances engine_name db (snd (project_competition engine_name (envs k) batch c db))"
    by (rule pass_advances [OF assms(1) Cons.prems])
  then have ok: "contest_ok (snd (project_competition engine_name (envs k) batch c db))" by (simp add: advances_def)
  show ?case
    using advances_trans [OF step Cons.IH [OF ok, of "Suc k"]]
    by (simp add: svc_bind_step [where m = "project_competition engine_name (envs k) batch c", OF n] svc_bind_ret_state n)
qed

lemma pending_competitions_run: "session_scope (on_ledger (pending_competitions limit)) db = (Inr (take limit
    (rev (remdups (rev (map ob_competition (sort_key ob_seq (pending_rows (ct_ledger db)))))))), db)"
  by (simp add: session_scope_def on_ledger_def tx_on_def pending_competitions_def tx_get_def)

lemma project_once_advances:
  assumes "\<And>k c. pass_ok engine_name c (envs k)" and "contest_ok db"
  shows "advances engine_name db (snd (project_once engine_name envs batch db))"
  unfolding project_once_def svc_bind_def pending_competitions_run
  using project_each_advances [OF assms] by simp

lemma drain_advances:
  assumes "\<And>i k c. pass_ok engine_name c (envs i k)" and "contest_ok db"
    and "drain fuel engine_name envs batch acc db = Some (r, db')"
  shows "advances engine_name db db'"
  using assms
proof (induction fuel arbitrary: envs acc db)
  case (Suc fuel)
  have step: "advances engine_name db (snd (project_once engine_name (envs 0) batch db))"
    by (rule project_once_advances [OF Suc.prems(1,2)])
  then have ok: "contest_ok (snd (project_once engine_name (envs 0) batch db))" by (simp add: advances_def)
  show ?case
    using Suc.prems(3) step advances_trans [OF step Suc.IH [OF Suc.prems(1) ok]]
    by (auto split: prod.splits sum.splits if_splits)
qed simp

section \<open>Rebuilding\<close>

definition requeued :: "instant \<Rightarrow> contestdb \<Rightarrow> contestdb" where
  "requeued now db = db\<lparr>ct_ledger := (ct_ledger db)\<lparr>ld_projections := [],
     ld_outbox := map (\<lambda>r. if ob_status r = TaskFailed then r\<lparr>ob_status := TaskPending, ob_error := None\<rparr> else r) (ld_outbox (ct_ledger db))
        @ map (\<lambda>e. task_of e now) (missing_tasks (ct_ledger db))\<rparr>\<rparr>"

lemma requeue_run:
  "session_scope (tx_bind (on_ledger projection_delete_all) (\<lambda>_. on_ledger (requeue_projections now))) db =
     (Inr (int (length (missing_tasks (ct_ledger db)))
        + int (length (filter (\<lambda>r. ob_status r = TaskFailed) (ld_outbox (ct_ledger db))))), requeued now db)"
  by (simp add: session_scope_def on_ledger_def tx_on_def projection_delete_all_def requeue_projections_def tx_bind_def
      tx_get_def tx_modify_def tx_ret_def requeued_def missing_tasks_def task_of_def)

lemma requeued_fields [simp]:
  "ct_auth (requeued now db) = ct_auth db" "ct_catalog (requeued now db) = ct_catalog db"
  "ld_events (ct_ledger (requeued now db)) = ld_events (ct_ledger db)"
  "ld_submissions (ct_ledger (requeued now db)) = ld_submissions (ct_ledger db)"
  "ld_solves (ct_ledger (requeued now db)) = ld_solves (ct_ledger db)"
  "ld_projections (ct_ledger (requeued now db)) = []"
  by (simp_all add: requeued_def ct_catalog_def)

lemma requeued_seqs: "map ob_seq (ld_outbox (ct_ledger (requeued now db))) =
    map ob_seq (ld_outbox (ct_ledger db)) @ map er_seq (missing_tasks (ct_ledger db))"
  by (simp add: requeued_def task_of_def comp_def if_distrib [of ob_seq] cong: if_cong)

lemma requeued_unqueued: "unqueued (requeued now db) c = {}"
proof -
  have "ob_seq ` set (ld_outbox (ct_ledger (requeued now db))) =
      ob_seq ` set (ld_outbox (ct_ledger db)) \<union> er_seq ` set (missing_tasks (ct_ledger db))"
    using arg_cong [OF requeued_seqs, of set now db] by (simp only: set_map set_append)
  then show ?thesis by (auto simp: unqueued_def missing_tasks_def)
qed

lemma requeued_advances:
  assumes ok: "contest_ok db"
  shows "advances engine_name db (requeued now db)"
proof -
  have "distinct (map ob_seq (ld_outbox (ct_ledger db)) @ map er_seq (missing_tasks (ct_ledger db)))"
    using ok by (auto simp: contest_ok_def ledger_ok_def outbox_ok_def events_ok_def missing_tasks_def distinct_map_filter)
      (metis imageI)
  then have "distinct (map ob_seq (ld_outbox (ct_ledger (requeued now db))))" by (simp only: requeued_seqs)
  moreover have "\<forall>b \<in> set (ld_outbox (ct_ledger (requeued now db))). 0 \<le> ob_attempts b
      \<and> (\<exists>e \<in> set (ld_events (ct_ledger db)). er_seq e = ob_seq b \<and> er_competition e = ob_competition b)"
    using ok by (auto simp: requeued_def task_of_def missing_tasks_def contest_ok_def ledger_ok_def outbox_ok_def)
  ultimately have "outbox_ok (ct_ledger (requeued now db))" by (simp add: outbox_ok_def)
  moreover have "cache_ok (ct_ledger (requeued now db))" by (simp add: cache_ok_def)
  ultimately have "contest_ok (requeued now db)"
    using ok by (simp add: contest_ok_def ledger_ok_def submissions_ok_def solves_ok_def events_ok_def)
  then show ?thesis
    by (simp add: advances_def contest_grows_def unsolved_def covered_def requeued_unqueued)
qed

lemma rebuild_advances:
  assumes "\<And>i k c. pass_ok engine_name c (envs i k)" and "contest_ok db"
    and "rebuild fuel engine_name envs batch now db = Some (r, db')"
  shows "advances engine_name db db'"
proof -
  have step: "advances engine_name db (requeued now db)" by (rule requeued_advances [OF assms(2)])
  then have "contest_ok (requeued now db)" by (simp add: advances_def)
  then show ?thesis
    using assms(3) advances_trans [OF step drain_advances [OF assms(1)]] by (simp add: rebuild_def requeue_run)
qed

section \<open>Reachable contests\<close>

definition empty_ledgerdb :: ledgerdb where
  "empty_ledgerdb = \<lparr>ld_submissions = [], ld_solves = [], ld_events = [], ld_outbox = [], ld_projections = []\<rparr>"

text \<open>
  From an empty ledger over any catalogue: submissions, passes, drains and rebuilds, in any order and
  each with whatever its peers commit in between.
\<close>

inductive contest_reachable :: "string \<Rightarrow> contestdb \<Rightarrow> bool" for engine_name where
  opened: "ct_ledger db = empty_ledgerdb \<Longrightarrow> contest_reachable engine_name db"
| submitted: "contest_reachable engine_name db \<Longrightarrow> peer engine_name early \<Longrightarrow> peer engine_name late \<Longrightarrow>
    contest_reachable engine_name (snd (process_submission verify q dw early late db))"
| projected: "contest_reachable engine_name db \<Longrightarrow> pass_ok engine_name c env \<Longrightarrow>
    contest_reachable engine_name (snd (project_competition engine_name env batch c db))"
| drained: "contest_reachable engine_name db \<Longrightarrow> (\<And>i k c. pass_ok engine_name c (envs i k)) \<Longrightarrow>
    drain fuel engine_name envs batch acc db = Some (r, db') \<Longrightarrow> contest_reachable engine_name db'"
| rebuilt: "contest_reachable engine_name db \<Longrightarrow> (\<And>i k c. pass_ok engine_name c (envs i k)) \<Longrightarrow>
    rebuild fuel engine_name envs batch now db = Some (r, db') \<Longrightarrow> contest_reachable engine_name db'"

definition contest_sound :: "string \<Rightarrow> contestdb \<Rightarrow> bool" where
  "contest_sound engine_name db \<longleftrightarrow> contest_ok db \<and> unsolved (ct_ledger db) = {} \<and> (\<forall>c. covered engine_name db c)"

lemma advances_sound: "contest_sound engine_name db \<Longrightarrow> advances engine_name db db' \<Longrightarrow> contest_sound engine_name db'"
  by (auto simp: contest_sound_def advances_def)

lemma empty_sound: "ct_ledger db = empty_ledgerdb \<Longrightarrow> contest_sound engine_name db"
  by (simp add: contest_sound_def contest_ok_def ledger_ok_defs empty_ledgerdb_def unsolved_def covered_def unqueued_def)

lemma reachable_sound: "contest_reachable engine_name db \<Longrightarrow> contest_sound engine_name db"
proof (induction rule: contest_reachable.induct)
  case (opened db)
  then show ?case by (rule empty_sound)
next
  case (submitted db early late verify q dw)
  then show ?case using advances_sound process_advances contest_sound_def by metis
next
  case (projected db c env batch)
  then show ?case using advances_sound pass_advances contest_sound_def by metis
next
  case (drained db envs fuel batch acc r db')
  then show ?case using advances_sound drain_advances contest_sound_def by metis
next
  case (rebuilt db envs fuel batch now r db')
  then show ?case using advances_sound rebuild_advances contest_sound_def by metis
qed

end
