(* ===== verification/Contest_Sample.thy ===== *)
theory Contest_Sample
  imports Contest_Runs
begin

text \<open>
  A small contest for the witnesses: one competition, two teams, one published challenge, and three
  submissions: a wrong one, the first correct one and a correct one of the other team.
\<close>

definition sample_authdb :: authdb where
  "sample_authdb = \<lparr>
     ad_competitions = [\<lparr>cpr_slug = ''ctf'', cpr_name = ''CTF'', cpr_start = 0, cpr_end = seconds 86400,
       cpr_scoring_start = None, cpr_freeze = None, cpr_status = ''live''\<rparr>],
     ad_teams = [\<lparr>tr_competition = ''ctf'', tr_name = ''red''\<rparr>, \<lparr>tr_competition = ''ctf'', tr_name = ''blue''\<rparr>],
     ad_definitions = [\<lparr>dr_slug = ''web'', dr_family = ''xss'', dr_title = ''Web''\<rparr>],
     ad_versions = [\<lparr>vr_definition = ''web'', vr_no = 1, vr_state = Published, vr_family_version = ''1'', vr_seed = ''s'',
       vr_mode = ''red'', vr_sha = ''h'', vr_spec = [(''flag'', JStr ''F-1'')], vr_cves = None, vr_cve_hash = None,
       vr_spec_version = ''1.1'', vr_published_at = Some 1, vr_archived_at = None\<rparr>],
     ad_builds = [],
     ad_publications = [\<lparr>pr_competition = ''ctf'', pr_version = (''web'', 1), pr_initial = 500, pr_minimum = 100,
       pr_function = ''static'', pr_decay = 0, pr_first_blood = True, pr_points = 25, pr_percent = 0\<rparr>]\<rparr>"

definition sample_contest :: contestdb where
  "sample_contest = \<lparr>ct_auth = sample_authdb, ct_inst = empty_instdb, ct_ledger = empty_ledgerdb, ct_users = [], ct_workers = []\<rparr>"

definition sample_verifier :: flag_verifier where
  "sample_verifier v seed candidate =
     (case map_of (cv_spec v) ''flag'' of Some (JStr f) \<Rightarrow> Inr (f = candidate) | _ \<Rightarrow> Inl FlagUnavailableError)"

definition sample_submission :: "nat \<Rightarrow> string \<Rightarrow> instant \<Rightarrow> string \<Rightarrow> submission_request" where
  "sample_submission n team t candidate = \<lparr>sr_id = Uid n, sr_competition = ''ctf'', sr_team = team, sr_definition = ''web'',
     sr_no = 1, sr_at = t, sr_candidate = candidate, sr_email = None, sr_seed = None\<rparr>"

definition sample_submit :: "nat \<Rightarrow> string \<Rightarrow> instant \<Rightarrow> string \<Rightarrow> (contestdb, submission_outcome) svc" where
  "sample_submit n team t candidate = process_submission sample_verifier (sample_submission n team t candidate)
     \<lparr>dw_solve = 100 + n, dw_seq = int n, dw_now = t\<rparr> id id"

definition contest1 :: contestdb where "contest1 = snd (sample_submit 1 ''red'' 10 ''wrong'' sample_contest)"
definition contest2 :: contestdb where "contest2 = snd (sample_submit 2 ''red'' 20 '' F-1 '' contest1)"
definition contest3 :: contestdb where "contest3 = snd (sample_submit 3 ''blue'' 30 ''F-1'' contest2)"

lemma sample_reached:
  "contest_reachable e sample_contest" "contest_reachable e contest1" "contest_reachable e contest2" "contest_reachable e contest3"
proof -
  have sub: "contest_reachable e (snd (sample_submit n team t c db))" if "contest_reachable e db" for db n team t c
    unfolding sample_submit_def by (rule submitted [OF that]) simp_all
  show 0: "contest_reachable e sample_contest" by (rule opened) (simp add: sample_contest_def)
  show 1: "contest_reachable e contest1" unfolding contest1_def by (rule sub [OF 0])
  show 2: "contest_reachable e contest2" unfolding contest2_def by (rule sub [OF 1])
  show "contest_reachable e contest3" unfolding contest3_def by (rule sub [OF 2])
qed

text \<open>The second submission is the first correct one of its team.\<close>

lemma sample_first:
  "case sample_submit 2 ''red'' 20 '' F-1 '' contest1 of (Inl _, _) \<Rightarrow> False | (Inr c, _) \<Rightarrow> oc_accepted c \<and> oc_first c"
  by code_simp

text \<open>Two correct submissions of one team at once: a team mate's solve is committed in between.\<close>

definition team_mate :: "contestdb \<Rightarrow> contestdb" where
  "team_mate db = snd (sample_submit 2 ''red'' 20 ''F-1'' db)"

definition sample_race :: "(exn + submission_outcome) \<times> contestdb" where
  "sample_race = process_submission sample_verifier (sample_submission 3 ''red'' 30 ''F-1'')
     \<lparr>dw_solve = 103, dw_seq = 3, dw_now = 30\<rparr> id team_mate sample_contest"

lemma team_mate_peer: "peer e team_mate"
  unfolding team_mate_def sample_submit_def by (rule process_is_peer) simp_all

lemma sample_race_lost:
  "case sample_race of (Inl _, _) \<Rightarrow> False | (Inr c, _) \<Rightarrow> oc_accepted c \<and> \<not> oc_first c \<and> \<not> oc_replay c"
  by code_simp

text \<open>One calm pass of the projector over the two events.\<close>

definition sample_projected :: contestdb where
  "sample_projected = snd (project_competition ''dynamic_decay'' (calm 40) 100 ''ctf'' contest2)"

definition scored_and_idle :: "ledgerdb \<Rightarrow> bool" where
  "scored_and_idle L \<longleftrightarrow> map er_competition (ld_events L) = [''ctf''] \<and> map ob_seq (ld_outbox L) = []"

lemma sample_projected_rows: "scored_and_idle (ct_ledger sample_projected)"
  by code_simp

end
