(* ===== verification/Ledger_Theorems.thy ===== *)
theory Ledger_Theorems
  imports Contest_Sample
begin

text \<open>
  The properties of the competition ledger and of the scoreboard projected from it. Retries go through the
  intake contract of the prelude, interpreted on \<open>process_submission\<close>.
\<close>

section \<open>Retries\<close>

text \<open>What is stored under a submission id, the submitter's spelling of the email aside.\<close>

definition nameless :: "ledger_submission \<Rightarrow> ledger_submission" where
  "nameless s = s\<lparr>ls_email := None\<rparr>"

definition stored_result :: "contestdb \<Rightarrow> ident \<Rightarrow> (ledger_submission \<times> solve option) option" where
  "stored_result db i = Option.bind (as_uuid i) (\<lambda>n.
     map_option (\<lambda>r. (nameless (submission_from_orm r),
         map_option solve_from_orm (find_row sv_submission n (ld_solves (ct_ledger db)))))
       (find_row su_id n (ld_submissions (ct_ledger db))))"

definition intake :: "flag_verifier \<Rightarrow> submission_request \<times> draws \<Rightarrow> (contestdb, (ledger_submission \<times> solve option) \<times> bool) svc" where
  "intake verify qd = svc_bind (process_submission verify (fst qd) (snd qd) id id)
     (\<lambda>c. svc_ret ((nameless (oc_submission c), oc_solve c), \<not> oc_replay c))"

lemma intake_iff:
  "intake verify (q, dw) db = (Inr ((x, y), new), db') \<longleftrightarrow> (\<exists>c. process_submission verify q dw id id db = (Inr c, db')
     \<and> x = nameless (oc_submission c) \<and> y = oc_solve c \<and> new = (\<not> oc_replay c))"
  by (auto simp: intake_def svc_bind_def svc_ret_def split: prod.splits sum.splits)

lemma no_solve_of_fresh:
  assumes "contest_ok db" "n \<notin> su_id ` set (ld_submissions (ct_ledger db))"
  shows "find_row sv_submission n (ld_solves (ct_ledger db)) = None"
  unfolding find_row_None_iff
proof (intro ballI notI)
  fix r assume r: "r \<in> set (ld_solves (ct_ledger db))" "sv_submission r = n"
  then obtain s where "s \<in> set (ld_submissions (ct_ledger db))" "su_id s = n"
    using assms(1) by (auto simp: contest_ok_def ledger_ok_def solves_ok_def proves_def)
  then show False using assms(2) by blast
qed

lemma outcome_kinds [simp]:
  "oc_replay (duplicate_outcome s) = False" "oc_replay (first_outcome q s n dw) = False" "oc_replay (replay_outcome db r) = True"
  "oc_submission (duplicate_outcome s) = s" "oc_submission (first_outcome q s n dw) = s"
  "oc_solve (duplicate_outcome s) = None" "oc_solve (first_outcome q s n dw) = Some (solve_for q s (dw_solve dw))"
  "oc_accepted (duplicate_outcome s) = ls_correct s" "oc_accepted (first_outcome q s n dw) = True"
  "oc_first (duplicate_outcome s) = False" "oc_first (first_outcome q s n dw) = True"
  "oc_submission (replay_outcome db r) = submission_from_orm r"
  "oc_solve (replay_outcome db r) = map_option solve_from_orm (find_row sv_submission (su_id r) (ld_solves (ct_ledger db)))"
  "oc_accepted (replay_outcome db r) = su_correct r"
  "oc_first (replay_outcome db r) = (find_row sv_submission (su_id r) (ld_solves (ct_ledger db)) \<noteq> None)"
  by (simp_all add: duplicate_outcome_def first_outcome_def replay_outcome_def Let_def)

lemma as_uuid_Some: "as_uuid i = Some n \<longleftrightarrow> i = Uid n"
  by (cases i) auto

text \<open>A fresh attempt becomes the stored result of its id and of no other.\<close>

lemma stored_fresh:
  assumes ok: "contest_ok db" and fresh: "n \<notin> su_id ` set (ld_submissions (ct_ledger db))"
    and s: "s = attempt_of q seed b" and id: "sr_id q = Uid n"
  shows "stored_result db (Uid n) = None"
    and "stored_result (with_attempt s n u db) (Uid n) = Some (nameless s, None)"
    and "i \<noteq> Uid n \<Longrightarrow> stored_result (with_attempt s n u db) i = stored_result db i"
    and "stored_result (with_solve s n dw (with_attempt s n u db)) (Uid n) = Some (nameless s, Some (solve_for q s (dw_solve dw)))"
    and "i \<noteq> Uid n \<Longrightarrow> stored_result (with_solve s n dw (with_attempt s n u db)) i = stored_result db i"
proof -
  have none: "find_row su_id n (ld_submissions (ct_ledger db)) = None" using fresh by (simp add: find_row_None_key)
  have nosol: "find_row sv_submission n (ld_solves (ct_ledger db)) = None" by (rule no_solve_of_fresh [OF ok fresh])
  have row: "nameless (submission_from_orm (attempt_row s n u)) = nameless s"
    by (simp add: nameless_def submission_from_orm_def attempt_row_def s attempt_of_def id)
  have sol: "solve_from_orm (solve_row_of s n k) = solve_for q s k" for k
    by (simp add: solve_from_orm_def solve_row_of_def solve_for_def s attempt_of_def id)
  note simps = stored_result_def find_row_append find_row_Cons none nosol row sol
  show "stored_result db (Uid n) = None" by (simp add: simps)
  show "stored_result (with_attempt s n u db) (Uid n) = Some (nameless s, None)" by (simp add: simps)
  show "stored_result (with_solve s n dw (with_attempt s n u db)) (Uid n) = Some (nameless s, Some (solve_for q s (dw_solve dw)))"
    by (simp add: simps)
  show "i \<noteq> Uid n \<Longrightarrow> stored_result (with_attempt s n u db) i = stored_result db i"
    by (cases i) (auto simp: simps split: option.split)
  show "i \<noteq> Uid n \<Longrightarrow> stored_result (with_solve s n dw (with_attempt s n u db)) i = stored_result db i"
    by (cases i) (auto simp: simps split: option.split)
qed

interpretation retry: idempotent_intake "intake verify" "\<lambda>qd. sr_id (fst qd)" stored_result contest_ok "\<lambda>_. True"
  for verify
proof (unfold_locales, goal_cases)
  case (1 db qd x db')
  obtain q dw where qd: "qd = (q, dw)" by (cases qd)
  obtain s sol where x: "x = (s, sol)" by (cases x)
  from 1(3) obtain c where run: "process_submission verify q dw id id db = (Inr c, db')"
    and c: "s = nameless (oc_submission c)" "sol = oc_solve c" "\<not> oc_replay c"
    unfolding qd x intake_iff by auto
  note ends = process_ends [OF run]
  have ok': "contest_ok db'" using submission_keeps [OF rival_id rival_id 1(1) ends] by blast
  from ends show ?case
  proof cases
    case replayed
    then show ?thesis using c by simp
  next
    case (attempted t seed b n u)
    then show ?thesis using stored_fresh [of db n t q seed b] 1(1) ok' c by (simp add: qd x as_uuid_Some)
  next
    case (collided t seed n u)
    then show ?thesis using stored_fresh [of db n t q seed True] 1(1) ok' c by (simp add: qd x as_uuid_Some)
  next
    case (first t seed n db2 u)
    then show ?thesis using stored_fresh [of db n t q seed True] 1(1) ok' c by (simp add: qd x as_uuid_Some)
  qed
next
  case (2 db qd x db')
  obtain q dw where qd: "qd = (q, dw)" by (cases qd)
  obtain s sol where x: "x = (s, sol)" by (cases x)
  from 2(3) obtain c where run: "process_submission verify q dw id id db = (Inr c, db')"
    and c: "s = nameless (oc_submission c)" "sol = oc_solve c" "oc_replay c"
    unfolding qd x intake_iff by auto
  from process_ends [OF run] show ?case
  proof cases
    case (replayed n r)
    then show ?thesis using c find_row_SomeD [OF replayed(4)] by (simp add: qd x as_uuid_Some stored_result_def)
  qed (use c in simp_all)
next
  case (3 db qd e db')
  obtain q dw where qd: "qd = (q, dw)" by (cases qd)
  from 3(3) have "process_submission verify q dw id id db = (Inl e, db')"
    unfolding qd intake_def by (auto simp: svc_bind_def svc_ret_def split: prod.splits sum.splits)
  then show ?case unfolding process_submission_def by (metis session_scope_raises fst_conv snd_conv)
qed

lemma replay_returns:
  assumes ok: "contest_ok db" and id: "sr_id q = Uid n"
    and row: "find_row su_id n (ld_submissions (ct_ledger db)) = Some r" and scope: "same_scope r q"
  shows "process_submission verify q dw early late db = (Inr (replay_outcome db r), db)"
proof -
  have r: "r \<in> set (ld_submissions (ct_ledger db))" "su_id r = n" using find_row_SomeD [OF row] by simp_all
  have sub: "ledger_submission_post_init (submission_from_orm r) = Inr ()" "su_competition r \<in> set (cat_competitions (ct_catalog db))"
    using ok r(1) by (auto simp: contest_ok_def ledger_ok_def submissions_ok_def)
  have sol: "solve_post_init (solve_from_orm x) = Inr () \<and> su_correct r"
    if "find_row sv_submission n (ld_solves (ct_ledger db)) = Some x" for x
  proof -
    have x: "x \<in> set (ld_solves (ct_ledger db))" "sv_submission x = n" using find_row_SomeD [OF that] by simp_all
    then obtain s where s: "s \<in> set (ld_submissions (ct_ledger db))" "proves x s"
      using ok by (auto simp: contest_ok_def ledger_ok_def solves_ok_def)
    have "distinct (map su_id (ld_submissions (ct_ledger db)))"
      using ok by (simp add: contest_ok_def ledger_ok_def submissions_ok_def)
    then have "s = r" using unique_row [where key = su_id] s r x by (metis proves_def)
    then show ?thesis
      using s(2) sub(1) by (auto simp: proves_def solve_post_init_def solve_from_orm_def ledger_submission_post_init_def split: if_splits)
  qed
  have "submission_outcome_post_init (replay_outcome db r) = Inr ()"
    using sol by (auto simp: submission_outcome_post_init_def replay_outcome_def Let_def r(2))
  then have "replay (submission_from_orm r) q db = Inr (replay_outcome db r, db)"
    using scope sol by (simp add: replay_iff r(2))
  then show ?thesis
    using sub row scope
    unfolding process_submission_def acquire_submission_lock_def contest_views session_scope_eq
    by (auto simp: tx_simps Let_def id same_scope_def attempt_key_def)
qed

lemma stored_after:
  assumes "contest_ok db" and run: "process_submission verify q dw id id db = (Inr c, db')"
  shows "contest_ok db' \<and> stored_result db' (sr_id q) = Some (nameless (oc_submission c), oc_solve c)"
proof -
  have i: "intake verify (q, dw) db = (Inr ((nameless (oc_submission c), oc_solve c), \<not> oc_replay c), db')"
    using run by (auto simp: intake_iff)
  show ?thesis
  proof (cases "oc_replay c")
    case True
    then show ?thesis using retry.replayed [where verify = verify and r = "(q, dw)", OF assms(1)] i assms(1) by auto
  next
    case False
    then show ?thesis using retry.created [where verify = verify and r = "(q, dw)", OF assms(1)] i by auto
  qed
qed

lemma outcome_facts:
  assumes ok: "contest_ok db" and run: "process_submission verify q dw id id db = (Inr c, db')"
  shows "oc_accepted c = ls_correct (oc_submission c) \<and> oc_first c = (oc_solve c \<noteq> None)
    \<and> (ls_competition (oc_submission c), ls_team (oc_submission c), ls_definition (oc_submission c), ls_no (oc_submission c)) = attempt_key q"
  using process_ends [OF run]
  by cases (auto simp: attempt_key_def same_scope_def prod_eq_iff)

text \<open>
  C27. Retrying is safe: after a submission has been processed, the same request, sent again after any
  other submissions, returns the same verdict, first-solve flag and solve as a replay and writes nothing.
\<close>

theorem submission_retry_is_replayed:
  assumes "contest_reachable engine_name db" and run: "process_submission verify q dw id id db = (Inr c, db1)"
    and later: "db2 = run_requests (intake verify) later db1"
  shows "\<exists>c'. process_submission verify q dw' id id db2 = (Inr c', db2) \<and> oc_replay c'
    \<and> oc_accepted c' = oc_accepted c \<and> oc_first c' = oc_first c \<and> oc_solve c' = oc_solve c
    \<and> nameless (oc_submission c') = nameless (oc_submission c)"
proof -
  have ok: "contest_ok db" using reachable_sound [OF assms(1)] by (simp add: contest_sound_def)
  note s1 = stored_after [OF ok run] and facts = outcome_facts [OF ok run]
  have ok2: "contest_ok db2" unfolding later using s1 by (intro retry.requests_inv) auto
  have "stored_result db2 (sr_id q) = Some (nameless (oc_submission c), oc_solve c)"
    unfolding later using s1 by (intro retry.stored_forever) auto
  then obtain n r where n: "sr_id q = Uid n" and row: "find_row su_id n (ld_submissions (ct_ledger db2)) = Some r"
    and sub: "nameless (submission_from_orm r) = nameless (oc_submission c)"
    and sol: "map_option solve_from_orm (find_row sv_submission n (ld_solves (ct_ledger db2))) = oc_solve c"
    by (auto simp: stored_result_def as_uuid_Some bind_eq_Some_conv)
  have fields: "su_correct r = ls_correct (oc_submission c)" "same_scope r q"
    using arg_cong [OF sub, of ls_correct] arg_cong [OF sub, of ls_competition] arg_cong [OF sub, of ls_team]
      arg_cong [OF sub, of ls_definition] arg_cong [OF sub, of ls_no] facts
    by (simp_all add: nameless_def same_scope_def prod_eq_iff)
  have id: "su_id r = n" using find_row_SomeD [OF row] by simp
  show ?thesis
    using replay_returns [OF ok2 n row fields(2)] sub sol facts
    by (intro exI [of _ "replay_outcome db2 r"]) (auto simp: fields(1) id)
qed

theorem submission_retry_is_replayed_witness:
  "\<exists>c'. process_submission sample_verifier (sample_submission 2 ''red'' 20 '' F-1 '') \<lparr>dw_solve = 7, dw_seq = 9, dw_now = 50\<rparr> id id contest2
     = (Inr c', contest2) \<and> oc_replay c' \<and> oc_accepted c' \<and> oc_first c'"
proof -
  obtain c where c: "sample_submit 2 ''red'' 20 '' F-1 '' contest1 = (Inr c, contest2)" "oc_accepted c" "oc_first c"
    using sample_first by (auto simp: contest2_def split: sum.splits)
  show ?thesis
    using submission_retry_is_replayed [OF sample_reached(2) c(1) [unfolded sample_submit_def], of contest2 "[]"] c(2,3) by auto
qed

section \<open>The ledger\<close>

lemma solved_once:
  assumes ok: "contest_ok db" and "k \<in> solve_key ` set (ld_solves (ct_ledger db))"
  shows "\<exists>!r. r \<in> set (ld_solves (ct_ledger db)) \<and> solve_key r = k"
proof -
  have d: "distinct (map solve_key (ld_solves (ct_ledger db)))"
    using ok by (simp add: contest_ok_def ledger_ok_def solves_ok_def)
  show ?thesis using assms(2) unique_row [OF d] by blast
qed

lemma announced_once:
  assumes ok: "contest_ok db" and r: "r \<in> set (ld_solves (ct_ledger db))"
  shows "\<exists>!e. e \<in> set (ld_events (ct_ledger db)) \<and> announces e r"
proof -
  have e: "\<exists>e \<in> set (ld_events (ct_ledger db)). announces e r" and d: "distinct (map er_solve (ld_events (ct_ledger db)))"
    using ok r by (auto simp: contest_ok_def ledger_ok_def events_ok_def)
  have "announces e r \<Longrightarrow> announces e' r \<Longrightarrow> er_solve e = er_solve e'" for e e' by (simp add: announces_def)
  then show ?thesis using e unique_row [OF d] by blast
qed


lemma sample_solves: "map sv_submission (ld_solves (ct_ledger contest2)) = [2]"
  by code_simp


text \<open>
  C26. What a submission that is not a replay does, whatever its peers commit meanwhile: the attempt is on
  record with the verdict; an accepted one leaves its team with exactly one solve of the challenge; the
  first one is that solve, dated with the submission itself, announced by its event and queued for
  projection; and only the first one carries a solve and an event.
\<close>

theorem submission_outcome_recorded:
  assumes "contest_reachable engine_name db" and peers: "peer engine_name early" "peer engine_name late"
    and run: "process_submission verify q dw early late db = (Inr c, db')" and new: "\<not> oc_replay c"
  shows "\<exists>n u seed. sr_id q = Uid n \<and> oc_submission c = attempt_of q seed (oc_accepted c)
    \<and> attempt_row (oc_submission c) n u \<in> set (ld_submissions (ct_ledger db'))
    \<and> (oc_accepted c \<longrightarrow> (\<exists>!r. r \<in> set (ld_solves (ct_ledger db')) \<and> solve_key r = attempt_key q))
    \<and> (oc_first c \<longrightarrow> oc_accepted c \<and> solve_row_of (oc_submission c) n (dw_solve dw) \<in> set (ld_solves (ct_ledger db'))
        \<and> oc_solve c = Some (solve_for q (oc_submission c) (dw_solve dw)) \<and> sv_at (solve_row_of (oc_submission c) n (dw_solve dw)) = sr_at q
        \<and> event_row_of (oc_submission c) n dw \<in> set (ld_events (ct_ledger db'))
        \<and> task_of (event_row_of (oc_submission c) n dw) (dw_now dw) \<in> set (ld_outbox (ct_ledger db')))
    \<and> (\<not> oc_first c \<longrightarrow> oc_solve c = None \<and> oc_event c = None)"
proof -
  have sound: "contest_sound engine_name db" by (rule reachable_sound [OF assms(1)])
  then have ok: "contest_ok db" by (simp add: contest_sound_def)
  note ends = process_ends [OF run]
  have sound': "contest_sound engine_name db'" by (rule advances_sound [OF sound submission_advances [OF peers ok ends]])
  then have ok': "contest_ok db'" and un: "unsolved (ct_ledger db') = {}" by (simp_all add: contest_sound_def)
  have once: "\<exists>!r. r \<in> set (ld_solves (ct_ledger db')) \<and> solve_key r = attempt_key q"
    if "attempt_row (attempt_of q seed True) n u \<in> set (ld_submissions (ct_ledger db'))" for seed n u
  proof (rule solved_once [OF ok'])
    show "attempt_key q \<in> solve_key ` set (ld_solves (ct_ledger db'))"
      using un that by (force simp: unsolved_def attempt_key_def)
  qed
  have kept: "attempt_row s n u \<in> set (ld_submissions (ct_ledger (late (with_attempt s n u (early db)))))"
    if "scoped db s" "ledger_submission_post_init s = Inr ()" "n \<notin> su_id ` set (ld_submissions (ct_ledger (early db)))" for s n u
  proof -
    have "contest_ok (early db)" "contest_grows db (early db)" using peer_advances [OF peers(1) ok] by (simp_all add: advances_def)
    then have "contest_ok (with_attempt s n u (early db))" using attempt_keeps_contest scoped_grows that by blast
    then have "contest_grows (with_attempt s n u (early db)) (late (with_attempt s n u (early db)))"
      using peer_advances [OF peers(2)] by (simp add: advances_def)
    then show ?thesis by (auto simp: contest_grows_def)
  qed
  from ends show ?thesis
  proof cases
    case replayed
    then show ?thesis using new by simp
  next
    case (attempted s seed b n u)
    have "attempt_row s n u \<in> set (ld_submissions (ct_ledger db'))" by (simp add: attempted(2))
    then show ?thesis using attempted once [of seed n u]
      by (intro exI [of _ n] exI [of _ u] exI [of _ seed]) (auto simp: as_uuid_Some duplicate_outcome_def)
  next
    case (collided s seed n u)
    then show ?thesis using kept [of s n u] once [of seed n u]
      by (intro exI [of _ n] exI [of _ u] exI [of _ seed]) (auto simp: as_uuid_Some duplicate_outcome_def)
  next
    case (first s seed n db2 u)
    then have row: "attempt_row s n u \<in> set (ld_submissions (ct_ledger db'))" using kept [of s n u] by simp
    show ?thesis using first row once [of seed n u]
      by (intro exI [of _ n] exI [of _ u] exI [of _ seed]) (auto simp: as_uuid_Some)
  qed
qed

theorem submission_outcome_recorded_witness:
  "\<exists>c db'. sample_race = (Inr c, db') \<and> oc_accepted c \<and> \<not> oc_first c \<and> oc_solve c = None
    \<and> (\<exists>!r. r \<in> set (ld_solves (ct_ledger db')) \<and> solve_key r = (''ctf'', ''red'', ''web'', 1))"
proof -
  obtain c db' where c: "sample_race = (Inr c, db')" "oc_accepted c" "\<not> oc_first c" "\<not> oc_replay c"
    using sample_race_lost by (auto split: prod.splits sum.splits)
  have peers: "peer ''dynamic_decay'' id" "peer ''dynamic_decay'' team_mate" by (simp_all add: team_mate_peer)
  from submission_outcome_recorded [OF sample_reached(1) peers c(1) [unfolded sample_race_def] c(4)]
  show ?thesis using c by (auto simp: attempt_key_def sample_submission_def)
qed

section \<open>The scoreboard\<close>

lemma sorted_rows_unique:
  assumes "sorted (map er_seq rows)" "distinct rows" "set rows = set (ledger_rows db c)" and ok: "contest_ok db"
  shows "rows = ledger_rows db c"
proof -
  have d: "distinct (map er_seq (ld_events (ct_ledger db)))"
    using ok by (simp add: contest_ok_def ledger_ok_def events_ok_def)
  have inj: "inj_on er_seq (set (ledger_rows db c))"
    using d by (auto simp: distinct_map set_ledger_rows inj_on_def)
  have "distinct (ledger_rows db c)"
    using d by (simp add: ledger_rows_def distinct_map)
  then have "distinct (map er_seq rows)" "distinct (map er_seq (ledger_rows db c))"
    using inj assms(2,3) by (simp_all add: distinct_map)
  moreover have "sorted (map er_seq (ledger_rows db c))" by (simp add: ledger_rows_def)
  moreover have "set (map er_seq rows) = set (map er_seq (ledger_rows db c))" using assms(3) by simp
  ultimately have "map er_seq rows = map er_seq (ledger_rows db c)"
    using assms(1) sorted_distinct_set_unique by blast
  then show ?thesis using inj assms(3) by (metis map_inj_on sup.idem)
qed

lemma event_scope:
  assumes ok: "contest_ok db" and e: "e \<in> set (ld_events (ct_ledger db))"
  shows "er_competition e \<in> set (cat_competitions (ct_catalog db)) \<and> nonempty (er_competition e)"
proof -
  obtain r where r: "r \<in> set (ld_solves (ct_ledger db))" "announces e r"
    using ok e by (auto simp: contest_ok_def ledger_ok_def events_ok_def)
  then obtain s where s: "s \<in> set (ld_submissions (ct_ledger db))" "proves r s"
    using ok by (auto simp: contest_ok_def ledger_ok_def solves_ok_def)
  then show ?thesis
    using ok r(2) by (auto simp: contest_ok_def ledger_ok_def submissions_ok_def announces_def proves_def
        ledger_submission_post_init_def split: if_splits)
qed

lemma standings_of_cached:
  assumes "contest_ok db" "cached db c = Some p" "c \<in> set (cat_competitions (ct_catalog db))" "nonempty c"
  shows "standings c db = (Inr (ss_entries (pj_entries p)), db)"
proof -
  have p: "p \<in> set (ld_projections (ct_ledger db))" using assms(2) by (auto simp: cached_def dest: find_row_SomeD)
  then have "0 \<le> pj_seq p" using assms(1) by (auto simp: contest_ok_def ledger_ok_def cache_ok_def)
  then have "projection_record_post_init (scoreboard_projection_from_orm p c) = Inr ()"
    using assms(4) by (simp add: projection_record_post_init_def scoreboard_projection_from_orm_def)
  then have "projection_get (ct_catalog db) c (ct_ledger db) = Inr (Some (scoreboard_projection_from_orm p c), ct_ledger db)"
    unfolding projection_get_def using assms(2,3) by (auto simp: tx_simps cached_def)
  then show ?thesis
    by (simp add: standings_def svc_bind_def svc_ret_def session_scope_def on_ledger_def tx_on_def scoreboard_projection_from_orm_def)
qed

text \<open>
  C28. No committed event is lost: on every reachable contest, a competition that has scored and has no
  row left in the outbox shows exactly the standings that folding its whole ledger afresh yields, however
  events were numbered, committed, claimed and interleaved with rival projectors and submissions.
\<close>

theorem idle_board_is_the_ledger_fold:
  assumes reach: "contest_reachable engine_name db"
    and e: "e \<in> set (ld_events (ct_ledger db))" "er_competition e = c"
    and idle: "\<forall>b \<in> set (ld_outbox (ct_ledger db)). ob_competition b \<noteq> c"
  shows "\<exists>board. dry_project engine_name c db = Inr (board, db) \<and> standings c db = (Inr (ss_entries (sp_entries board)), db)"
proof -
  have ok: "contest_ok db" and cov: "covered engine_name db c"
    using reachable_sound [OF reach] by (simp_all add: contest_sound_def)
  have all: "unqueued db c = set (ledger_rows db c)"
  proof -
    have "er_seq x \<notin> ob_seq ` set (ld_outbox (ct_ledger db))"
      if x: "x \<in> set (ld_events (ct_ledger db))" "er_competition x = c" for x
    proof
      assume "er_seq x \<in> ob_seq ` set (ld_outbox (ct_ledger db))"
      then obtain b where b: "b \<in> set (ld_outbox (ct_ledger db))" "ob_seq b = er_seq x" by (metis imageE)
      then obtain y where y: "y \<in> set (ld_events (ct_ledger db))" "er_seq y = ob_seq b" "er_competition y = ob_competition b"
        using ok by (auto simp: contest_ok_def ledger_ok_def outbox_ok_def)
      have "distinct (map er_seq (ld_events (ct_ledger db)))" using ok by (simp add: contest_ok_def ledger_ok_def events_ok_def)
      then have "y = x" using unique_row [where key = er_seq] x(1) y b(2) by metis
      then show False using idle b(1) y(3) x(2) by auto
    qed
    then show ?thesis by (auto simp: unqueued_def set_ledger_rows)
  qed
  then have "unqueued db c \<noteq> {}" using e by (auto simp: set_ledger_rows)
  then obtain p rows board where p: "cached db c = Some p" "sorted (map er_seq rows)" "distinct rows"
      "set rows = set (ledger_rows db c)" "board_of engine_name (ct_auth db) c rows board"
      "pj_entries p = sp_entries board"
    using cov all unfolding covered_def by (metis subset_antisym)
  have rows: "rows = ledger_rows db c" by (rule sorted_rows_unique [OF p(2,3,4) ok])
  have "dry_project engine_name c db = Inr (board, db)"
    unfolding dry_project_def refold_iff using p(5) by (simp add: rows)
  moreover have "standings c db = (Inr (ss_entries (sp_entries board)), db)"
    using standings_of_cached [OF ok p(1)] event_scope [OF ok e(1)] e(2) p(6) by simp
  ultimately show ?thesis by blast
qed

theorem idle_board_is_the_ledger_fold_witness:
  "\<exists>board. dry_project ''dynamic_decay'' ''ctf'' sample_projected = Inr (board, sample_projected)
     \<and> standings ''ctf'' sample_projected = (Inr (ss_entries (sp_entries board)), sample_projected)"
proof -
  have reach: "contest_reachable ''dynamic_decay'' sample_projected"
    unfolding sample_projected_def by (rule projected [OF sample_reached(3)]) simp
  obtain e where "e \<in> set (ld_events (ct_ledger sample_projected))" "er_competition e = ''ctf''"
    and "ld_outbox (ct_ledger sample_projected) = []"
    using sample_projected_rows by (auto simp: scored_and_idle_def)
  then show ?thesis using idle_board_is_the_ledger_fold [OF reach] by auto
qed

end
