(* ===== verification/Drain_Theorems.thy ===== *)
theory Drain_Theorems
  imports Ledger_Theorems
begin

text \<open>
  The projector's drain loop: it ends, and in calm it empties the queue; and what stops a board.
\<close>

section \<open>Pending rows only leave\<close>

definition pending_count :: "contestdb \<Rightarrow> nat" where
  "pending_count db = length (pending_rows (ct_ledger db))"

definition undisturbed :: "pass_env \<Rightarrow> bool" where
  "undisturbed env \<longleftrightarrow> en_early env = id \<and> en_late env = id"

lemma pending_retouch: "keeps_task g \<Longrightarrow> pending_count (retouch g db) \<le> pending_count db"
proof -
  assume g: "keeps_task g"
  have "length (filter (\<lambda>r. ob_status r = TaskPending) (map g bs)) \<le> length (filter (\<lambda>r. ob_status r = TaskPending) bs)" for bs
    using g by (induction bs) (auto simp: keeps_task_def)
  then show ?thesis by (simp add: pending_count_def pending_rows_def)
qed

lemma divert_pending: "fst (divert seqs e db) = Inr 0 \<and> pending_count (snd (divert seqs e db)) \<le> pending_count db"
  using divert_effect [of seqs e db] pending_retouch by auto

lemma length_without:
  assumes "distinct (map f xs)" "set ys \<subseteq> set xs" "distinct (map f ys)"
  shows "length (filter (\<lambda>x. f x \<notin> f ` set ys) xs) + length ys = length xs"
proof -
  have "length (filter (\<lambda>x. f x \<in> f ` set ys) xs) = card (f ` set (filter (\<lambda>x. f x \<in> f ` set ys) xs))"
    using assms(1) by (metis distinct_card distinct_map_filter length_map set_map)
  also have "f ` set (filter (\<lambda>x. f x \<in> f ` set ys) xs) = f ` set ys" using assms(2) by auto
  also have "card (f ` set ys) = length ys" using assms(3) by (metis distinct_card length_map set_map)
  finally show ?thesis using sum_length_filter_compl [of "\<lambda>x. f x \<in> f ` set ys" xs] by simp
qed

lemma claimed_are_pending:
  assumes "claim_tasks env batch c db = Inr (seqs, db')"
  shows "\<exists>rows. seqs = map ob_seq rows \<and> set rows \<subseteq> set (pending_rows (ct_ledger db)) \<and> (contest_ok db \<longrightarrow> distinct seqs)"
proof (intro exI conjI impI)
  let ?rows = "order_limit ob_seq batch (claimable_rows env c db)"
  show "seqs = map ob_seq ?rows" using assms by (simp add: claim_tasks_effect)
  show "set ?rows \<subseteq> set (pending_rows (ct_ledger db))"
    using set_order_limit [of ob_seq batch "claimable_rows env c db"] by (auto simp: claimable_rows_def)
  show "distinct seqs" if "contest_ok db"
  proof -
    have "distinct (map ob_seq (claimable_rows env c db))"
      using that by (simp add: claimable_rows_def pending_rows_def contest_ok_def ledger_ok_def outbox_ok_def distinct_map_filter)
    then have "distinct (map ob_seq (sort_key ob_seq (claimable_rows env c db)))" by (simp add: distinct_map)
    then have "distinct (map ob_seq ?rows)" unfolding order_limit_def take_map [symmetric] by (rule distinct_take)
    then show ?thesis using assms by (simp add: claim_tasks_effect)
  qed
qed

lemma settled_pending:
  assumes ok: "contest_ok db" and claim: "claim_tasks env batch c db = Inr (seqs, db')"
  shows "pending_count (settled new seqs db) + length seqs = pending_count db"
proof -
  obtain rows where rows: "seqs = map ob_seq rows" "set rows \<subseteq> set (pending_rows (ct_ledger db))" "distinct seqs"
    using claimed_are_pending [OF claim] ok by blast
  have d: "distinct (map ob_seq (pending_rows (ct_ledger db)))"
    using ok by (simp add: pending_rows_def contest_ok_def ledger_ok_def outbox_ok_def distinct_map_filter)
  have "pending_rows (ct_ledger (settled new seqs db)) = filter (\<lambda>r. ob_seq r \<notin> ob_seq ` set rows) (pending_rows (ct_ledger db))"
    by (simp add: pending_rows_def rows(1) conj_commute)
  then show ?thesis using length_without [OF d rows(2)] rows(1,3) by (simp add: pending_count_def)
qed

lemma pass_pending:
  assumes ok: "contest_ok db" and env: "undisturbed env"
    and run: "project_competition engine_name env batch c db = (Inr n, db')"
  shows "0 \<le> n \<and> pending_count db' + nat n \<le> pending_count db"
proof (cases "claim_tasks env batch c db")
  case (Inl e)
  then show ?thesis using run divert_pending [of "[]" e db] by (simp add: project_competition_def)
next
  case (Inr p)
  obtain seqs d where "p = (seqs, d)" by (cases p)
  then have claim: "claim_tasks env batch c db = Inr (seqs, db)" using Inr by (auto simp: claim_tasks_effect)
  show ?thesis
  proof (cases "seqs = []")
    case True
    then show ?thesis using run claim by (simp add: project_competition_def)
  next
    case False
    show ?thesis
    proof (cases "fold_locked engine_name c db")
      case (Inl e)
      then show ?thesis using run claim False env divert_pending [of seqs e db] by (simp add: project_competition_def undisturbed_def)
    next
      case (Inr rp)
      obtain board d where rp: "rp = (board, d)" by (cases rp)
      have d: "d = db" using Inr by (simp add: rp fold_locked_effect)
      have run': "svc_catch (session_scope (store_projection env board seqs)) (divert seqs) db = (Inr n, db')"
        using run claim False env Inr by (simp add: project_competition_def undisturbed_def rp d)
      show ?thesis
      proof (cases "store_projection env board seqs db")
        case (Inl e)
        then show ?thesis using run' divert_pending [of seqs e db] by (simp add: svc_catch_def session_scope_def)
      next
        case (Inr sp)
        then have "sp = (n, db')" using run' by (cases sp) (simp add: svc_catch_def session_scope_def)
        then have "n = int (length seqs)" "db' = settled (stored_board board (en_clock env)) seqs db"
          using Inr by (simp_all add: store_projection_effect)
        then show ?thesis using settled_pending [OF ok claim] by simp
      qed
    qed
  qed
qed

section \<open>The loop ends\<close>

lemma undisturbed_pass_ok: "undisturbed env \<Longrightarrow> pass_ok engine_name c env"
  by (simp add: undisturbed_def pass_ok_def)

lemma project_each_returns: "\<exists>n db'. project_each engine_name envs k batch cs db = (Inr n, db')"
proof (induction cs arbitrary: k db)
  case Nil
  show ?case by (simp add: svc_ret_def)
next
  case (Cons c cs)
  obtain n db1 where n: "project_competition engine_name (envs k) batch c db = (Inr n, db1)"
    using project_competition_returns by (metis prod.collapse)
  obtain m db2 where m: "project_each engine_name envs (Suc k) batch cs db1 = (Inr m, db2)" using Cons.IH by blast
  show ?case by (simp add: svc_bind_def svc_ret_def n m)
qed

lemma project_each_Cons:
  assumes "project_competition engine_name (envs k) batch c db = (Inr n, db1)"
    and "project_each engine_name envs (Suc k) batch cs db1 = (Inr m, db2)"
  shows "project_each engine_name envs k batch (c # cs) db = (Inr (n + m), db2)"
  using assms by (simp add: svc_bind_def svc_ret_def)

lemma project_each_pending:
  assumes "\<And>k. undisturbed (envs k)" and "contest_ok db" and "project_each engine_name envs k batch cs db = (Inr n, db')"
  shows "0 \<le> n \<and> pending_count db' + nat n \<le> pending_count db"
  using assms(2,3)
proof (induction cs arbitrary: k db n db')
  case Nil
  then show ?case by (simp add: svc_ret_def)
next
  case (Cons c cs)
  obtain n1 db1 where n1: "project_competition engine_name (envs k) batch c db = (Inr n1, db1)"
    using project_competition_returns by (metis prod.collapse)
  obtain n2 db2 where n2: "project_each engine_name envs (Suc k) batch cs db1 = (Inr n2, db2)"
    using project_each_returns by blast
  have ok1: "contest_ok db1"
    using pass_advances [OF undisturbed_pass_ok [OF assms(1)] Cons.prems(1), of engine_name k batch c] n1 by (simp add: advances_def)
  show ?case
    using Cons.prems(2) project_each_Cons [OF n1 n2] pass_pending [OF Cons.prems(1) assms(1) n1] Cons.IH [OF ok1 n2]
    by (auto simp: nat_add_distrib)
qed

lemma project_once_run:
  "\<exists>cs. project_once engine_name envs batch db = project_each engine_name envs 0 batch cs db
     \<and> (pending_count db > 0 \<longrightarrow> (\<exists>b \<in> set (pending_rows (ct_ledger db)). ob_competition b \<in> set cs))"
proof (intro exI conjI impI)
  let ?all = "map ob_competition (sort_key ob_seq (pending_rows (ct_ledger db)))"
  let ?cs = "take 100 (rev (remdups (rev ?all)))"
  show "project_once engine_name envs batch db = project_each engine_name envs 0 batch ?cs db"
    by (simp add: project_once_def svc_bind_def pending_competitions_run)
  assume "pending_count db > 0"
  then have "pending_rows (ct_ledger db) \<noteq> []" by (simp add: pending_count_def)
  then obtain b where b: "b \<in> set (pending_rows (ct_ledger db))" by (metis last_in_set)
  have "ob_competition b \<in> set ?all" using b by simp
  then have "?all \<noteq> []" by force
  then have ne: "rev (remdups (rev ?all)) \<noteq> []" by simp
  then have "hd (rev (remdups (rev ?all))) \<in> set ?cs" by (metis hd_in_set hd_take take_eq_Nil zero_less_numeral less_numeral_extra(3))
  moreover have "hd (rev (remdups (rev ?all))) \<in> set ?all" using hd_in_set [OF ne] by simp
  ultimately show "\<exists>b \<in> set (pending_rows (ct_ledger db)). ob_competition b \<in> set ?cs" by auto
qed

lemma drain_ends:
  assumes "\<And>i k. undisturbed (envs i k)" and "contest_ok db" and "pending_count db < fuel"
  shows "\<exists>r db'. drain fuel engine_name envs batch acc db = Some (r, db')"
  using assms
proof (induction fuel arbitrary: envs acc db)
  case (Suc fuel)
  obtain cs where cs: "project_once engine_name (envs 0) batch db = project_each engine_name (envs 0) 0 batch cs db"
    using project_once_run by blast
  obtain n db1 where n: "project_each engine_name (envs 0) 0 batch cs db = (Inr n, db1)" using project_each_returns by blast
  note step = project_each_pending [OF Suc.prems(1,2) n]
  have ok1: "contest_ok db1"
    using project_each_advances [where envs = "envs 0" and k = 0 and cs = cs and batch = batch and engine_name = engine_name,
        OF undisturbed_pass_ok [OF Suc.prems(1)] Suc.prems(2)] n
    by (simp add: advances_def)
  show ?case
  proof (cases "n = 0")
    case True
    then show ?thesis by (simp add: cs n)
  next
    case False
    then have "pending_count db1 < fuel" using step Suc.prems(3) by linarith
    then show ?thesis using Suc.IH [where acc = "acc + n" and envs = "\<lambda>i. envs (Suc i)", OF Suc.prems(1) ok1] False
      by (simp add: cs n)
  qed
qed simp

section \<open>In calm the queue empties\<close>

definition quiet :: "pass_env \<Rightarrow> bool" where
  "quiet env \<longleftrightarrow> undisturbed env \<and> en_locked env = [] \<and> en_fault_claim env = None \<and> en_fault_fold env = None"

lemma quiet_calm [simp]: "quiet (calm now)"
  by (simp add: quiet_def undisturbed_def calm_def)

lemma quiet_undisturbed: "quiet env \<Longrightarrow> undisturbed env"
  by (simp add: quiet_def)

definition foldable :: "string \<Rightarrow> contestdb \<Rightarrow> string \<Rightarrow> bool" where
  "foldable engine_name db c \<longleftrightarrow> (\<exists>board. board_of engine_name (ct_auth db) c (ledger_rows db c) board)"

lemma foldable_dry: "foldable engine_name db c \<longleftrightarrow> (\<exists>board. dry_project engine_name c db = Inr (board, db))"
  by (simp add: foldable_def dry_project_def refold_iff)

definition drainable :: "string \<Rightarrow> contestdb \<Rightarrow> bool" where
  "drainable engine_name db \<longleftrightarrow> contest_ok db
     \<and> (\<forall>b \<in> set (pending_rows (ct_ledger db)). foldable engine_name db (ob_competition b))"

lemma pending_row_scope:
  assumes ok: "contest_ok db" and b: "b \<in> set (pending_rows (ct_ledger db))"
  shows "ob_competition b \<in> set (cat_competitions (ct_catalog db)) \<and> projection_task_post_init (projection_task_from_orm b) = Inr ()"
proof -
  have "b \<in> set (ld_outbox (ct_ledger db))" using b by (simp add: pending_rows_def)
  then obtain e where e: "e \<in> set (ld_events (ct_ledger db))" "er_seq e = ob_seq b" "er_competition e = ob_competition b"
    and "0 \<le> ob_attempts b"
    using ok by (auto simp: contest_ok_def ledger_ok_def outbox_ok_def)
  moreover have "1 \<le> er_seq e" using ok e(1) by (simp add: contest_ok_def ledger_ok_def events_ok_def)
  ultimately show ?thesis
    using event_scope [OF ok e(1)] by (simp add: projection_task_post_init_def projection_task_from_orm_def)
qed

lemma quiet_claim:
  assumes ok: "contest_ok db" and env: "quiet env" and b: "b \<in> set (pending_rows (ct_ledger db))" "ob_competition b = c" and "0 < batch"
  shows "\<exists>seqs. claim_tasks env batch c db = Inr (seqs, db) \<and> seqs \<noteq> []"
proof -
  let ?rows = "order_limit ob_seq batch (claimable_rows env c db)"
  have "b \<in> set (claimable_rows env c db)" using b env by (simp add: claimable_rows_def quiet_def)
  then have "claimable_rows env c db \<noteq> []" by (metis list.set_cases neq_Nil_conv)
  then have "?rows \<noteq> []" using assms(5) by (metis order_limit_def length_0_conv length_sort not_gr_zero take_eq_Nil)
  moreover have "\<forall>r \<in> set ?rows. projection_task_post_init (projection_task_from_orm r) = Inr ()"
    using set_order_limit [of ob_seq batch "claimable_rows env c db"] pending_row_scope [OF ok]
    by (auto simp: claimable_rows_def)
  ultimately show ?thesis
    using env pending_row_scope [OF ok b(1)] b(2) by (auto simp: claim_tasks_effect quiet_def)
qed

lemma quiet_pass:
  assumes dr: "drainable engine_name db" and env: "quiet env" and batch: "0 < batch"
  shows "\<exists>n db'. project_competition engine_name env batch c db = (Inr n, db') \<and> drainable engine_name db'
    \<and> 0 \<le> n \<and> pending_count db' + nat n = pending_count db
    \<and> (if \<exists>b \<in> set (pending_rows (ct_ledger db)). ob_competition b = c then 0 < n else db' = db)"
proof (cases "\<exists>b \<in> set (pending_rows (ct_ledger db)). ob_competition b = c")
  case True
  then obtain b where b: "b \<in> set (pending_rows (ct_ledger db))" "ob_competition b = c" by blast
  have ok: "contest_ok db" using dr by (simp add: drainable_def)
  obtain seqs where claim: "claim_tasks env batch c db = Inr (seqs, db)" "seqs \<noteq> []"
    using quiet_claim [OF ok env b batch] by blast
  obtain board where board: "board_of engine_name (ct_auth db) c (ledger_rows db c) board"
    using dr b by (auto simp: drainable_def foldable_def)
  have scope: "c \<in> set (cat_competitions (ct_catalog db))" using pending_row_scope [OF ok b(1)] b(2) by simp
  let ?db' = "settled (stored_board board (en_clock env)) seqs db"
  have fold: "fold_locked engine_name c db = Inr (board, db)" by (simp add: fold_locked_effect scope board)
  have store: "store_projection env board seqs db = Inr (int (length seqs), ?db')"
    using env scope board_of_competition [OF board] by (simp add: store_projection_effect quiet_def)
  have run: "project_competition engine_name env batch c db = (Inr (int (length seqs)), ?db')"
    using env by (simp add: project_competition_def claim fold store svc_catch_def session_scope_def quiet_def undisturbed_def)
  have "advances engine_name db ?db'"
    using pass_advances [OF undisturbed_pass_ok [OF quiet_undisturbed [OF env]] ok, of engine_name batch c] run by simp
  then have ok': "contest_ok ?db'" by (simp add: advances_def)
  have "foldable engine_name ?db' (ob_competition r)" if "r \<in> set (pending_rows (ct_ledger ?db'))" for r
    using dr that by (auto simp: drainable_def foldable_def pending_rows_def ledger_rows_def)
  then have "drainable engine_name ?db'" using ok' by (simp add: drainable_def)
  then show ?thesis using run settled_pending [OF ok claim(1)] claim(2) True by auto
next
  case False
  have "project_competition engine_name env batch c db = (Inr 0, db)"
  proof (cases "claim_tasks env batch c db")
    case (Inl e)
    have "divert [] e db = (Inr 0, db)"
      by (simp add: divert_def mark_projection_failed_def mark_projection_transient_def svc_bind_def svc_ret_def)
    then show ?thesis using Inl by (simp add: project_competition_def)
  next
    case (Inr p)
    obtain seqs d where p: "p = (seqs, d)" by (cases p)
    have "claimable_rows env c db = []" using False by (auto simp: claimable_rows_def filter_empty_conv)
    then have "seqs = []" "d = db" using Inr by (simp_all add: p claim_tasks_effect order_limit_def)
    then show ?thesis using Inr by (simp add: project_competition_def p)
  qed
  then show ?thesis using dr False by simp
qed

lemma quiet_each:
  assumes "drainable engine_name db" and env: "\<And>k. quiet (envs k)" and batch: "0 < batch"
  shows "\<exists>n db'. project_each engine_name envs k batch cs db = (Inr n, db') \<and> drainable engine_name db'
    \<and> 0 \<le> n \<and> pending_count db' + nat n = pending_count db
    \<and> ((\<exists>b \<in> set (pending_rows (ct_ledger db)). ob_competition b \<in> set cs) \<longrightarrow> 0 < n)"
  using assms(1)
proof (induction cs arbitrary: k db)
  case Nil
  then show ?case by (simp add: svc_ret_def)
next
  case (Cons c cs)
  obtain n db1 where n: "project_competition engine_name (envs k) batch c db = (Inr n, db1)" "drainable engine_name db1"
      "0 \<le> n" "pending_count db1 + nat n = pending_count db"
      "if \<exists>b \<in> set (pending_rows (ct_ledger db)). ob_competition b = c then 0 < n else db1 = db"
    using quiet_pass [OF Cons.prems env batch] by blast
  obtain m db2 where m: "project_each engine_name envs (Suc k) batch cs db1 = (Inr m, db2)" "drainable engine_name db2"
      "0 \<le> m" "pending_count db2 + nat m = pending_count db1"
      "(\<exists>b \<in> set (pending_rows (ct_ledger db1)). ob_competition b \<in> set cs) \<longrightarrow> 0 < m"
    using Cons.IH [OF n(2)] by blast
  show ?case
    using project_each_Cons [OF n(1) m(1)] n m
    by (intro exI [of _ "n + m"] exI [of _ db2]) (auto simp: nat_add_distrib split: if_splits)
qed

lemma quiet_drain:
  assumes "drainable engine_name db" and "\<And>i k. quiet (envs i k)" and "0 < batch" and "pending_count db < fuel"
  shows "\<exists>db'. drain fuel engine_name envs batch acc db = Some (Inr (acc + int (pending_count db)), db') \<and> pending_count db' = 0"
  using assms
proof (induction fuel arbitrary: envs acc db)
  case (Suc fuel)
  obtain cs where cs: "project_once engine_name (envs 0) batch db = project_each engine_name (envs 0) 0 batch cs db"
    "pending_count db > 0 \<longrightarrow> (\<exists>b \<in> set (pending_rows (ct_ledger db)). ob_competition b \<in> set cs)"
    using project_once_run by blast
  obtain n db1 where n: "project_each engine_name (envs 0) 0 batch cs db = (Inr n, db1)" "drainable engine_name db1"
      "0 \<le> n" "pending_count db1 + nat n = pending_count db"
      "(\<exists>b \<in> set (pending_rows (ct_ledger db)). ob_competition b \<in> set cs) \<longrightarrow> 0 < n"
    using quiet_each [where envs = "envs 0" and k = 0 and cs = cs, OF Suc.prems(1) Suc.prems(2) Suc.prems(3)] by blast
  show ?case
  proof (cases "n = 0")
    case True
    then have "pending_count db = 0" using cs(2) n(5) by auto
    then show ?thesis using True n(4) by (simp add: cs(1) n(1))
  next
    case False
    then have "pending_count db1 < fuel" using n(3,4) Suc.prems(4) by linarith
    from Suc.IH [where acc = "acc + n" and envs = "\<lambda>i. envs (Suc i)", OF n(2) Suc.prems(2,3) this] show ?thesis
      using False n(3,4) by (auto simp: cs(1) n(1) algebra_simps)
  qed
qed simp



end
