(* ===== verification/Detach_Theorems.thy ===== *)
theory Detach_Theorems
  imports Drain_Theorems Scoreboard_Theorems Corrective_Keys
begin

text \<open>
  What the fold of a sound ledger can raise: only a solved challenge that is no longer published stops it,
  and then the board of its competition stands still. Last, why the guarded upsert needs the lock.
\<close>

section \<open>Challenge keys\<close>

lemma last_colon:
  assumes "CHR '':'' \<notin> set ys" "CHR '':'' \<notin> set ys'" "xs @ CHR '':'' # ys = xs' @ CHR '':'' # ys'"
  shows "xs = xs' \<and> ys = ys'"
proof -
  have t: "takeWhile (\<lambda>c. c \<noteq> CHR '':'') (rev zs @ CHR '':'' # rev us) = rev zs" if "CHR '':'' \<notin> set zs" for zs us
    using that by (subst takeWhile_append2) auto
  have "rev ys @ CHR '':'' # rev xs = rev ys' @ CHR '':'' # rev xs'" using arg_cong [OF assms(3), of rev] by simp
  then have "ys = ys'" using t [OF assms(1), of xs] t [OF assms(2), of xs'] by simp
  then show ?thesis using assms(3) by simp
qed

lemma challenge_key_inj:
  assumes "1 \<le> n" "1 \<le> n'"
  shows "challenge_key d n = challenge_key d' n' \<longleftrightarrow> d = d' \<and> n = n'"
proof
  have v: "CHR '':'' \<notin> set (CHR ''v'' # py_str_int m)" for m using py_str_int_chars [of "CHR '':''" m] by auto
  assume "challenge_key d n = challenge_key d' n'"
  then have "d @ CHR '':'' # CHR ''v'' # py_str_int n = d' @ CHR '':'' # CHR ''v'' # py_str_int n'"
    by (simp add: challenge_key_def)
  then have "d = d' \<and> py_str_int n = py_str_int n'" using last_colon [OF v v] by simp
  then show "d = d' \<and> n = n'" using assms py_str_int_inj [of n n'] by simp
qed simp

section \<open>The fold of a sound ledger\<close>

definition row_event :: "event_row \<Rightarrow> solve_event" where
  "row_event r = \<lparr>se_team = er_team r, se_challenge = challenge_key (fst (er_version r)) (snd (er_version r)),
     se_at = (case er_ts r of Stamp t \<Rightarrow> t | Naive t \<Rightarrow> t | Unreadable _ \<Rightarrow> 0),
     se_submission = event_submission_text (score_event_from_orm r), se_seed = None\<rparr>"

lemma fold_solves:
  assumes "\<forall>r \<in> set rows. er_type r = EvSolve \<and> stamp_aware (er_ts r)"
  shows "\<exists>n. fold_exn fold_event (ss, m) (map score_event_from_orm rows) = Inr (ss @ map row_event rows, n)"
  using assms
proof (induction rows arbitrary: ss m)
  case (Cons r rows)
  have "fold_event (ss, m) (score_event_from_orm r) = Inr (ss @ [row_event r], max m (er_seq r))"
    using Cons.prems by (auto simp: stamp_aware_iff fold_event_def solve_event_of_def score_event_from_orm_def row_event_def Let_def)
  then show ?case using Cons.IH [of "ss @ [row_event r]" "max m (er_seq r)"] Cons.prems by simp
qed simp

lemma sound_rows:
  assumes ok: "contest_ok db" and r: "r \<in> set (ld_events (ct_ledger db))"
  shows "er_type r = EvSolve" "stamp_aware (er_ts r)" "1 \<le> snd (er_version r)"
    "score_event_post_init (score_event_from_orm r) = Inr ()"
proof -
  obtain x where x: "x \<in> set (ld_solves (ct_ledger db))" "announces r x" and seq: "1 \<le> er_seq r"
    using ok r by (auto simp: contest_ok_def ledger_ok_def events_ok_def)
  then obtain s where s: "s \<in> set (ld_submissions (ct_ledger db))" "proves x s"
    using ok by (auto simp: contest_ok_def ledger_ok_def solves_ok_def)
  have post: "ledger_submission_post_init (submission_from_orm s) = Inr ()"
    using ok s(1) by (auto simp: contest_ok_def ledger_ok_def submissions_ok_def)
  show "er_type r = EvSolve" "stamp_aware (er_ts r)" using x(2) by (simp_all add: announces_def)
  show "1 \<le> snd (er_version r)" "score_event_post_init (score_event_from_orm r) = Inr ()"
    using x(2) s(2) post seq
    by (auto simp: announces_def proves_def ledger_submission_post_init_def score_event_post_init_def
        score_event_from_orm_def opt_ident_nonempty_def split: if_splits)
qed

lemma challenges_dom: "dom (map_of (challenges_of ps)) = (\<lambda>p. challenge_key (pb_definition p) (pb_no p)) ` set ps"
proof -
  have "dom (map_of (foldl (\<lambda>d p. AList.update (challenge_key (pb_definition p) (pb_no p)) (scoring_config_of p) d) d0 ps))
      = dom (map_of d0) \<union> (\<lambda>p. challenge_key (pb_definition p) (pb_no p)) ` set ps" for d0
    by (induction ps arbitrary: d0) (auto simp: update_conv')
  from this [of "[]"] show ?thesis by (simp add: challenges_of_def)
qed

definition published_in :: "contestdb \<Rightarrow> string \<Rightarrow> (string \<times> int) set" where
  "published_in db c = {v. (c, v) \<in> publication_key ` set (ad_publications (ct_auth db))}"

text \<open>The fold depends on the publications alone: it succeeds iff every scored challenge is still published.\<close>

lemma refold_outcome:
  assumes ok: "contest_ok db" and auth: "authdb_ok (ct_auth db)" and eng: "get_scoring_engine engine_name = Inr eng"
    and c: "c \<in> set (cat_competitions (ct_catalog db))" "nonempty c"
  shows "if er_version ` set (ledger_rows db c) \<subseteq> published_in db c
    then \<exists>board. refold engine_name c db = Inr (board, db) else refold engine_name c db = Inl KeyError"
proof -
  let ?A = "ct_auth db" and ?rows = "ledger_rows db c"
  have "c \<in> cpr_slug ` set (ad_competitions ?A)" using c(1) by (simp add: ct_catalog_def)
  then obtain row where row: "find_row cpr_slug c (ad_competitions ?A) = Some row"
    using find_row_None_key [of cpr_slug c "ad_competitions ?A"] by (cases "find_row cpr_slug c (ad_competitions ?A)") auto
  define cfg where "cfg = competition_from_orm row"
  have cfg: "competition_get c ?A = Inr (Some cfg, ?A)" "cc_default cfg = None"
    by (simp_all add: competition_get_def tx_get_def row cfg_def competition_from_orm_def)
  define ps where "ps = map (\<lambda>r. challenge_publication_from_orm r c (fst (pr_version r)) (snd (pr_version r)))
    (filter (\<lambda>r. pr_competition r = c) (ad_publications ?A))"
  have pubs_ok: "publication_post_init (challenge_publication_from_orm r c (fst (pr_version r)) (snd (pr_version r))) = Inr ()"
    if "r \<in> set (ad_publications ?A)" "pr_competition r = c" for r
    using auth that by (auto simp: authdb_ok_def publications_ok_def)
  have ps: "publication_list_for_competition c ?A = Inr (ps, ?A)"
    unfolding publication_list_for_competition_def using pubs_ok by (auto simp: tx_simps ps_def)
  obtain n where folded: "fold_exn fold_event ([], 0) (map score_event_from_orm ?rows) = Inr (map row_event ?rows, n)"
    using fold_solves [of ?rows "[]" 0] sound_rows [OF ok] by (auto simp: set_ledger_rows)
  have events: "event_list_for_competition c (ct_ledger db) = Inr (map score_event_from_orm ?rows, ct_ledger db)"
    using sound_rows [OF ok] by (auto simp: tx_simps Let_def ledger_rows_def)
  have keys: "se_challenge (row_event e) \<in> dom (map_of (challenges_of ps)) \<longleftrightarrow> er_version e \<in> published_in db c"
    if e: "e \<in> set ?rows" for e
  proof -
    have "challenge_key (fst (er_version e)) (snd (er_version e)) = challenge_key (fst (pr_version r)) (snd (pr_version r))
        \<longleftrightarrow> er_version e = pr_version r" if r: "r \<in> set (ad_publications ?A)" "pr_competition r = c" for r
    proof -
      have "1 \<le> snd (pr_version r)" using pubs_ok [OF r]
        by (auto simp: publication_post_init_def challenge_publication_from_orm_def split: if_splits)
      then show ?thesis using challenge_key_inj [OF sound_rows(3) [OF ok]] e by (simp add: set_ledger_rows prod_eq_iff)
    qed
    then show ?thesis
      by (auto simp: challenges_dom ps_def row_event_def challenge_publication_from_orm_def published_in_def publication_key_def image_iff)
  qed
  let ?board = "compute_scoreboard (map row_event ?rows) (challenges_of ps) cfg (Some eng) None"
  have run: "refold engine_name c db = (case ?board of Inl x \<Rightarrow> Inl x | Inr snapshot \<Rightarrow>
      construct projection_record_post_init \<lparr>sp_competition = c, sp_seq = n, sp_entries = snapshot, sp_computed = None\<rparr> db)"
    by (simp add: refold_def contest_views tx_bind_def tx_on_def tx_some_def tx_sum_def tx_ret_def tx_raise_def cfg(1) events folded ps eng
        split: sum.split)
  have "se_challenge ` set (map row_event ?rows) \<subseteq> dom (map_of (challenges_of ps)) \<longleftrightarrow> er_version ` set ?rows \<subseteq> published_in db c"
    using keys by (simp add: image_subset_iff)
  then have board: "?board = (if er_version ` set ?rows \<subseteq> published_in db c
      then Inr (the (reference_board (set (map row_event ?rows)) (map_of (challenges_of ps)) cfg eng None)) else Inl KeyError)"
    unfolding compute_scoreboard_eq by (simp add: reference_board_def included_def cfg(2) Let_def)
  have "0 \<le> n" using fold_event_top [OF folded] by simp
  then show ?thesis using c(2) by (auto simp: run board construct_def projection_record_post_init_def tx_ret_def)
qed

lemma divert_poison:
  "seqs \<noteq> [] \<Longrightarrow> divert seqs KeyError db =
     (Inr 0, db\<lparr>ct_ledger := update_pending seqs (fail_row KeyError) (ct_ledger db)\<rparr>)"
  by (simp add: divert_def deterministic_poison_def mark_projection_failed_def contest_views fail_tasks_def svc_bind_def svc_ret_def
      session_scope_def tx_on_def tx_bind_def tx_get_def tx_modify_def tx_ret_def)

lemma poisoned_pass:
  assumes "claim_tasks env batch c db = Inr (seqs, db)" "seqs \<noteq> []" "en_early env = id"
    and "fold_locked engine_name c db = Inl KeyError"
  shows "project_competition engine_name env batch c db =
    (Inr 0, db\<lparr>ct_ledger := update_pending seqs (fail_row KeyError) (ct_ledger db)\<rparr>)"
  using assms by (simp add: project_competition_def divert_poison)


text \<open>The sample contest, whose only challenge has been detached after its first solve.\<close>

definition detached_authdb :: authdb where
  "detached_authdb = sample_authdb\<lparr>ad_versions := map (\<lambda>r. r\<lparr>vr_sha := spec_content_hash (vr_spec r)\<rparr>) (ad_versions sample_authdb),
     ad_publications := []\<rparr>"

definition detached_contest :: contestdb where
  "detached_contest = contest2\<lparr>ct_auth := detached_authdb\<rparr>"

lemma detached_names: "nonempty ''red''" "nonempty ''blue''" "nonempty ''web''" "nonempty ''Web''" "nonempty ''ctf''"
    "nonempty ''xss''" "nonempty ''1''" "nonempty ''s''" "nonempty ''1.1''" "nonempty ''h''"
  by code_simp+

lemma detached_authdb_ok: "authdb_ok detached_authdb"
proof -
  have parents: "competitions_ok detached_authdb" "teams_ok detached_authdb" "definitions_ok detached_authdb"
    by (simp_all add: competitions_ok_def teams_ok_def definitions_ok_def detached_authdb_def sample_authdb_def validate_window_def
        competition_from_orm_def team_post_init_def team_from_orm_def definition_post_init_def challenge_definition_from_orm_def
        seconds_def team_key_def detached_names)
  have one: "version_nos detached_authdb d = (if ''web'' = d then {1} else {})" for d
    by (simp add: version_nos_def detached_authdb_def sample_authdb_def Collect_conv_if)
  have nos: "\<exists>n. version_nos detached_authdb d = {1..int n}" for d
    by (cases "''web'' = d") (simp add: one exI [of _ 1], simp add: one exI [of _ 0])
  have "versions_ok detached_authdb" unfolding versions_ok_def
    by (intro conjI allI nos) (auto simp: detached_authdb_def sample_authdb_def version_post_init_def challenge_version_from_orm_def int_column_def detached_names)
  with parents show ?thesis by (simp add: authdb_ok_def builds_ok_def publications_ok_def detached_authdb_def sample_authdb_def)
qed

lemma contest2_catalog: "ct_auth contest2 = sample_authdb"
  by code_simp

definition detached_event :: "event_row \<Rightarrow> bool" where
  "detached_event r \<longleftrightarrow> er_competition r = ''ctf'' \<and> er_version r = (''web'', 1)"

lemma contest2_rows: "length (pending_rows (ct_ledger contest2)) = 1 \<and> list_all detached_event (ld_events (ct_ledger contest2))
    \<and> ld_events (ct_ledger contest2) \<noteq> []"
  by code_simp


section \<open>The guarded upsert and the lock\<close>

text \<open>
  Two folds can carry the same number although one saw fewer events, when a smaller number commits late:
  the guard accepts the poorer fold after the richer one. Only the competition lock rules this order out.
\<close>

lemma upsert_guard_admits_older_fold:
  assumes c: "c \<in> set (cat_competitions cat)" "sp_competition rich = c" "sp_competition poor = c" "sp_seq poor = sp_seq rich"
    and rich: "projection_upsert cat rich now db = Inr ((), db1)" "find_row pj_competition c (ld_projections db) = None"
  shows "\<exists>db2. projection_upsert cat poor later db1 = Inr ((), db2)
    \<and> map_option pj_entries (find_row pj_competition c (ld_projections db2)) = Some (sp_entries poor)"
  using assms unfolding projection_upsert_def Let_def
  by (auto simp: tx_simps find_row_append find_row_Cons find_row_put_row)

end
