(* ===== verification/Access_Models.thy ===== *)
theory Access_Models
  imports Authoring_Store
begin

text \<open>
  The value types of accounts and access with the checks of their constructors: users, memberships
  (\<open>domain/identity/models.py\<close>), password credentials, sessions, system roles, login transactions
  (\<open>domain/auth/models.py\<close>), workers and their credentials (\<open>domain/execution/models.py\<close>). Roles and
  scopes are texts checked against the lists of the code; instants are timezone-aware.
\<close>

section \<open>Text\<close>

text \<open>\<open>s.split(c)\<close> and \<open>s.partition(c)\<close> for a one-character separator.\<close>

fun py_split :: "char \<Rightarrow> string \<Rightarrow> string list" where
  "py_split c [] = [[]]"
| "py_split c (x # xs) = (if x = c then [] # py_split c xs
     else (case py_split c xs of [] \<Rightarrow> [[x]] | p # ps \<Rightarrow> (x # p) # ps))"

definition py_partition :: "char \<Rightarrow> string \<Rightarrow> string \<times> bool \<times> string" where
  "py_partition c s = (takeWhile (\<lambda>x. x \<noteq> c) s, c \<in> set s, drop 1 (dropWhile (\<lambda>x. x \<noteq> c) s))"

lemma py_split_plain: "c \<notin> set p \<Longrightarrow> py_split c p = [p]"
  by (induction p) auto

lemma py_split_cons: "c \<notin> set p \<Longrightarrow> py_split c (p @ c # rest) = p # py_split c rest"
  by (induction p) auto

definition hex64 :: "string \<Rightarrow> bool" where
  "hex64 s \<longleftrightarrow> length s = 64 \<and> set s \<subseteq> set ''0123456789abcdef''"

lemma hex_digit_lower: "d < 16 \<Longrightarrow> hex_digit d \<in> set ''0123456789abcdef''"
proof -
  have "\<forall>d < 16. hex_digit d \<in> set ''0123456789abcdef''" by code_simp
  then show "d < 16 \<Longrightarrow> hex_digit d \<in> set ''0123456789abcdef''" by blast
qed

lemma hex_fixed_digits: "c \<in> set (hex_fixed k n) \<Longrightarrow> \<exists>d < 16. c = hex_digit d"
proof (induction k arbitrary: n)
  case (Suc k)
  have "n mod 16 < 16" by simp
  with Suc show ?case by (auto simp del: mod_less_divisor)
qed simp

lemma hex_fixed_lower: "c \<in> set (hex_fixed k n) \<Longrightarrow> c \<in> set ''0123456789abcdef''"
  using hex_fixed_digits [of c k n] hex_digit_lower by blast

lemma sha256_hex_hex64 [simp]: "hex64 (sha256_hex s)"
proof -
  have "set (sha256_hex s) \<subseteq> set ''0123456789abcdef''"
    unfolding sha256_hex_def set_concat using hex_fixed_lower by (simp del: list.set) blast
  then show ?thesis by (simp add: hex64_def)
qed

section \<open>Users and memberships\<close>

definition valid_roles :: "string list" where
  "valid_roles = [''player'', ''captain'', ''author'', ''organizer'', ''admin'', ''observer'', ''judge'', ''support'']"

record user =
  us_email :: string
  us_name :: string

definition user_post_init :: "user \<Rightarrow> exn + unit" where
  "user_post_init u =
     (if \<not> nonempty (us_email u) then Inl ValueError
      else if \<not> nonempty (us_name u) then Inl ValueError
      else (case py_partition (CHR ''@'') (us_email u) of (local, sep, domain) \<Rightarrow>
        if \<not> sep \<or> \<not> nonempty local \<or> CHR ''.'' \<notin> set domain then Inl ValueError else Inr ()))"

record membership =
  mb_user :: string
  mb_competition :: string
  mb_role :: string
  mb_team :: "string option"

definition membership_post_init :: "membership \<Rightarrow> exn + unit" where
  "membership_post_init m =
     (if \<not> nonempty (mb_user m) then Inl ValueError
      else if \<not> nonempty (mb_competition m) then Inl ValueError
      else if mb_role m \<notin> set valid_roles then Inl ValueError
      else if \<not> opt_nonempty (mb_team m) then Inl ValueError
      else Inr ())"

section \<open>Credentials, sessions and system roles\<close>

definition valid_system_roles :: "string list" where
  "valid_system_roles = [''admin'', ''support'']"

definition is_encoded_password_hash :: "string \<Rightarrow> bool" where
  "is_encoded_password_hash s \<longleftrightarrow> s \<noteq> [] \<and> list_all (\<lambda>c. \<not> py_isspace c) s
     \<and> length (py_split (CHR ''$'') s) \<ge> 2 \<and> list_all (\<lambda>p. p \<noteq> []) (py_split (CHR ''$'') s)"

record auth_credential =
  ak_user :: string
  ak_hash :: string
  ak_created :: instant
  ak_updated :: instant

definition auth_credential_post_init :: "auth_credential \<Rightarrow> exn + unit" where
  "auth_credential_post_init k =
     (if \<not> nonempty (ak_user k) then Inl ValueError
      else if \<not> is_encoded_password_hash (ak_hash k) then Inl ValueError
      else if ak_updated k < ak_created k then Inl ValueError
      else Inr ())"

record auth_session =
  sn_id :: ident
  sn_user :: string
  sn_hash :: string
  sn_issued :: instant
  sn_expires :: instant
  sn_rotated :: "ident option"
  sn_revoked :: "instant option"

definition auth_session_post_init :: "auth_session \<Rightarrow> exn + unit" where
  "auth_session_post_init s =
     (if \<not> ident_nonempty (sn_id s) then Inl ValueError
      else if \<not> nonempty (sn_user s) then Inl ValueError
      else if \<not> hex64 (sn_hash s) then Inl ValueError
      else if sn_expires s \<le> sn_issued s then Inl ValueError
      else if (case sn_rotated s of None \<Rightarrow> False | Some i \<Rightarrow> \<not> ident_nonempty i) then Inl ValueError
      else Inr ())"

definition session_is_live :: "auth_session \<Rightarrow> instant \<Rightarrow> bool" where
  "session_is_live s now \<longleftrightarrow> sn_revoked s = None \<and> sn_expires s > now"

record system_role_assignment =
  sy_user :: string
  sy_role :: string

definition system_role_post_init :: "system_role_assignment \<Rightarrow> exn + unit" where
  "system_role_post_init a =
     (if \<not> nonempty (sy_user a) then Inl ValueError
      else if sy_role a \<notin> set valid_system_roles then Inl ValueError
      else Inr ())"

record issued_session =
  iz_id :: ident
  iz_user :: string
  iz_expires :: instant
  iz_token :: string

definition issued_session_post_init :: "issued_session \<Rightarrow> exn + unit" where
  "issued_session_post_init s =
     (if \<not> ident_nonempty (iz_id s) then Inl ValueError
      else if \<not> nonempty (iz_user s) then Inl ValueError
      else if \<not> nonempty (iz_token s) then Inl ValueError
      else Inr ())"

section \<open>Login transactions\<close>

record login_transaction =
  lt_state :: string
  lt_nonce :: string
  lt_verifier :: string
  lt_binding :: string
  lt_redirect :: string
  lt_created :: instant
  lt_expires :: instant

definition login_transaction_post_init :: "login_transaction \<Rightarrow> exn + unit" where
  "login_transaction_post_init t =
     (if \<not> hex64 (lt_state t) then Inl ValueError
      else if \<not> nonempty (lt_nonce t) then Inl ValueError
      else if \<not> nonempty (lt_verifier t) then Inl ValueError
      else if \<not> hex64 (lt_binding t) then Inl ValueError
      else if \<not> (43 \<le> length (lt_verifier t) \<and> length (lt_verifier t) \<le> 128) then Inl ValueError
      else if \<not> nonempty (lt_redirect t) then Inl ValueError
      else if lt_expires t \<le> lt_created t then Inl ValueError
      else Inr ())"

definition login_is_live :: "login_transaction \<Rightarrow> instant \<Rightarrow> bool" where
  "login_is_live t now \<longleftrightarrow> lt_expires t > now"

section \<open>Workers\<close>

datatype trust_state = TrustPending | Trusted | TrustRevoked

definition valid_runtime_types :: "string list" where
  "valid_runtime_types = [''docker-rootless'', ''podman-rootless'', ''buildkit-rootless'']"

definition valid_credential_scopes :: "string list" where
  "valid_credential_scopes = [''jobs:claim'', ''jobs:heartbeat'', ''jobs:complete'', ''artifacts:pull'',
     ''instances:report'', ''instances:transition'']"

record worker =
  wk_name :: string
  wk_runtime :: string
  wk_archs :: "string list"
  wk_caps :: "string list"
  wk_capacity :: int
  wk_version :: string
  wk_trust :: trust_state
  wk_revoked :: "instant option"
  wk_drain :: "instant option"
  wk_quarantined :: "instant option"
  wk_reason :: "string option"
  wk_heartbeat :: "instant option"

definition worker_post_init :: "worker \<Rightarrow> exn + unit" where
  "worker_post_init w =
     (if \<not> nonempty (wk_name w) then Inl ValueError
      else if wk_runtime w \<notin> set valid_runtime_types then Inl ValueError
      else if wk_archs w = [] \<or> \<not> list_all nonempty (wk_archs w) then Inl ValueError
      else if wk_caps w = [] \<or> \<not> list_all nonempty (wk_caps w) then Inl ValueError
      else if wk_capacity w < 1 then Inl ValueError
      else if \<not> nonempty (wk_version w) then Inl ValueError
      else if (wk_trust w = TrustRevoked) \<noteq> (wk_revoked w \<noteq> None) then Inl ValueError
      else if (wk_quarantined w = None) \<noteq> (wk_reason w = None) then Inl ValueError
      else if \<not> opt_nonempty (wk_reason w) then Inl ValueError
      else Inr ())"

record worker_credential =
  wt_id :: ident
  wt_worker :: string
  wt_hash :: string
  wt_scopes :: "string list"
  wt_issued :: instant
  wt_expires :: instant
  wt_revoked :: "instant option"

definition worker_credential_post_init :: "worker_credential \<Rightarrow> exn + unit" where
  "worker_credential_post_init k =
     (if \<not> ident_nonempty (wt_id k) then Inl ValueError
      else if \<not> nonempty (wt_worker k) then Inl ValueError
      else if \<not> hex64 (wt_hash k) then Inl ValueError
      else if wt_scopes k = [] \<or> \<not> set (wt_scopes k) \<subseteq> set valid_credential_scopes then Inl ValueError
      else if wt_expires k \<le> wt_issued k then Inl ValueError
      else Inr ())"

record issued_credential =
  ic_id :: ident
  ic_worker :: string
  ic_scopes :: "string list"
  ic_expires :: instant
  ic_secret :: string

definition issued_credential_post_init :: "issued_credential \<Rightarrow> exn + unit" where
  "issued_credential_post_init k =
     (if \<not> ident_nonempty (ic_id k) then Inl ValueError
      else if \<not> nonempty (ic_worker k) then Inl ValueError
      else if \<not> nonempty (ic_secret k) then Inl ValueError
      else Inr ())"

definition credential_token_prefix :: string where
  "credential_token_prefix = ''ctfw1''"

lemmas access_post_inits = user_post_init_def membership_post_init_def auth_credential_post_init_def
  auth_session_post_init_def system_role_post_init_def issued_session_post_init_def
  login_transaction_post_init_def worker_post_init_def worker_credential_post_init_def
  issued_credential_post_init_def

end
