(* ===== verification/Access_Store.thy ===== *)
theory Access_Store
  imports Access_Models
begin

text \<open>
  The tables of accounts and access (migrations 0003, 0007, 0011 and 0012) and their repositories. A row
  that refers to a user, a competition, a team or a worker carries its business key, a user's being the
  spelling the user was registered with. Competitions and teams are only read here and belong to the
  state as given tables. CHECKs, unique keys and triggers run where a row is flushed.
\<close>

section \<open>Tables\<close>

record account_row =
  ur_email :: string
  ur_name :: string

record membership_row =
  mr_user :: string
  mr_competition :: string
  mr_team :: "string option"
  mr_role :: string

record password_row =
  kr_user :: string
  kr_hash :: string
  kr_created :: instant
  kr_updated :: instant

record session_row =
  nr_id :: nat
  nr_user :: string
  nr_hash :: string
  nr_issued :: instant
  nr_expires :: instant
  nr_rotated :: "nat option"
  nr_revoked :: "instant option"

record login_row =
  gl_state :: string
  gl_nonce :: string
  gl_verifier :: string
  gl_binding :: string
  gl_redirect :: string
  gl_created :: instant
  gl_expires :: instant

record registry_row =
  wo_name :: string
  wo_runtime :: string
  wo_archs :: "string list"
  wo_caps :: "string list"
  wo_capacity :: int
  wo_version :: string
  wo_trust :: trust_state
  wo_revoked :: "instant option"
  wo_drain :: "instant option"
  wo_quarantined :: "instant option"
  wo_reason :: "string option"
  wo_heartbeat :: "instant option"

record worker_credential_row =
  tc_id :: nat
  tc_worker :: string
  tc_hash :: string
  tc_scopes :: "string list"
  tc_issued :: instant
  tc_expires :: instant
  tc_revoked :: "instant option"

record accessdb =
  ac_users :: "account_row list"
  ac_memberships :: "membership_row list"
  ac_credentials :: "password_row list"
  ac_sessions :: "session_row list"
  ac_roles :: "(string \<times> string) list"
  ac_logins :: "login_row list"
  ac_workers :: "registry_row list"
  ac_worker_credentials :: "worker_credential_row list"
  ac_competitions :: "string list"
  ac_teams :: "(string \<times> string) list"

definition lower_text :: "string \<Rightarrow> string" where
  "lower_text s = map lower_ascii s"

definition ac_catalog :: "accessdb \<Rightarrow> catalog" where
  "ac_catalog db = \<lparr>cat_competitions = ac_competitions db, cat_teams = ac_teams db, cat_versions = [],
     cat_users = map ur_email (ac_users db), cat_workers = map wo_name (ac_workers db)\<rparr>"

definition resolve_in :: "(catalog \<Rightarrow> (accessdb, 'a) tx) \<Rightarrow> (accessdb, 'a) tx" where
  "resolve_in f = tx_bind (tx_get ac_catalog) f"

definition user_id :: "string \<Rightarrow> (accessdb, string) tx" where
  "user_id email = resolve_in (\<lambda>cat. user_uuid cat email)"

section \<open>Users\<close>

definition user_to_orm :: "user \<Rightarrow> account_row option \<Rightarrow> account_row" where
  "user_to_orm u existing = (case existing of None \<Rightarrow> \<lparr>ur_email = us_email u, ur_name = us_name u\<rparr>
     | Some r \<Rightarrow> r\<lparr>ur_name := us_name u\<rparr>)"

definition user_from_orm :: "account_row \<Rightarrow> user" where
  "user_from_orm r = \<lparr>us_email = ur_email r, us_name = ur_name r\<rparr>"

definition user_key :: "account_row \<Rightarrow> string" where
  "user_key r = lower_text (ur_email r)"

definition row_for_email :: "string \<Rightarrow> accessdb \<Rightarrow> account_row option" where
  "row_for_email email db = find_row user_key (lower_text email) (ac_users db)"

definition user_check :: "account_row \<Rightarrow> string option" where
  "user_check r = first_taken [(''ck_users_display_name_non_empty'', \<not> nonempty (ur_name r)),
     (''ck_users_email_non_empty'', \<not> nonempty (ur_email r))]"

definition user_add :: "user \<Rightarrow> (accessdb, unit) tx" where
  "user_add u = (let r = user_to_orm u None in
     tx_bind (checked_row (user_check r)) (\<lambda>_.
     tx_bind (tx_get ac_users) (\<lambda>rows.
     tx_bind (unique_keys [(''uq_users_email_lower'', user_key r \<in> user_key ` set rows)]) (\<lambda>_.
     tx_modify (\<lambda>db. db\<lparr>ac_users := ac_users db @ [r]\<rparr>)))))"

definition user_get :: "string \<Rightarrow> (accessdb, user option) tx" where
  "user_get email = tx_bind (tx_get (row_for_email email)) (\<lambda>found.
     case found of None \<Rightarrow> tx_ret None
     | Some r \<Rightarrow> tx_bind (construct user_post_init (user_from_orm r)) (\<lambda>u. tx_ret (Some u)))"

definition user_list :: "(accessdb, user list) tx" where
  "user_list = tx_bind (tx_get ac_users) (\<lambda>rows. construct_all user_post_init (map user_from_orm rows))"

definition user_update :: "user \<Rightarrow> (accessdb, unit) tx" where
  "user_update u = tx_bind (tx_get (row_for_email (us_email u))) (\<lambda>found.
     tx_bind (tx_some LookupError found) (\<lambda>r. let new = user_to_orm u (Some r) in
     tx_bind (checked_row (user_check new)) (\<lambda>_.
     tx_modify (\<lambda>db. db\<lparr>ac_users := put_row user_key new (ac_users db)\<rparr>))))"

section \<open>Memberships\<close>

definition membership_to_orm :: "membership \<Rightarrow> string \<Rightarrow> string \<Rightarrow> string option \<Rightarrow> membership_row option \<Rightarrow> membership_row" where
  "membership_to_orm m u c t existing = (case existing of
       None \<Rightarrow> \<lparr>mr_user = u, mr_competition = c, mr_team = t, mr_role = mb_role m\<rparr>
     | Some r \<Rightarrow> r\<lparr>mr_role := mb_role m, mr_team := t\<rparr>)"

definition membership_from_orm :: "membership_row \<Rightarrow> membership" where
  "membership_from_orm r = \<lparr>mb_user = mr_user r, mb_competition = mr_competition r, mb_role = mr_role r, mb_team = mr_team r\<rparr>"

definition membership_key :: "membership_row \<Rightarrow> string \<times> string" where
  "membership_key r = (mr_user r, mr_competition r)"

definition membership_check :: "membership_row \<Rightarrow> string option" where
  "membership_check r = first_taken [(''ck_memberships_role_valid'', mr_role r \<notin> set valid_roles)]"

definition placed_team :: "string \<Rightarrow> string option \<Rightarrow> (accessdb, string option) tx" where
  "placed_team c team = (case team of None \<Rightarrow> tx_ret None
     | Some t \<Rightarrow> tx_bind (resolve_in (\<lambda>cat. team_uuid cat c t)) (\<lambda>x. tx_ret (Some x)))"

definition membership_add :: "membership \<Rightarrow> (accessdb, unit) tx" where
  "membership_add m = tx_bind (user_id (mb_user m)) (\<lambda>u.
     tx_bind (resolve_in (\<lambda>cat. competition_uuid cat (mb_competition m))) (\<lambda>c.
     tx_bind (placed_team c (mb_team m)) (\<lambda>t. let r = membership_to_orm m u c t None in
     tx_bind (checked_row (membership_check r)) (\<lambda>_.
     tx_bind (tx_get ac_memberships) (\<lambda>rows.
     tx_bind (unique_keys [(''uq_memberships_user_id_competition_id'', membership_key r \<in> membership_key ` set rows)]) (\<lambda>_.
     tx_modify (\<lambda>db. db\<lparr>ac_memberships := ac_memberships db @ [r]\<rparr>)))))))"

definition membership_get :: "string \<Rightarrow> string \<Rightarrow> (accessdb, membership option) tx" where
  "membership_get email c = tx_bind (tx_get (\<lambda>db.
       find_row (\<lambda>r. (lower_text (mr_user r), mr_competition r)) (lower_text email, c) (ac_memberships db))) (\<lambda>found.
     case found of None \<Rightarrow> tx_ret None
     | Some r \<Rightarrow> tx_bind (construct membership_post_init (membership_from_orm r)) (\<lambda>m. tx_ret (Some m)))"

definition membership_list_for_competition :: "string \<Rightarrow> (accessdb, membership list) tx" where
  "membership_list_for_competition c = tx_bind (tx_get (\<lambda>db. filter (\<lambda>r. mr_competition r = c) (ac_memberships db)))
     (\<lambda>rows. construct_all membership_post_init (map membership_from_orm rows))"

definition membership_list_for_user :: "string \<Rightarrow> (accessdb, membership list) tx" where
  "membership_list_for_user email = tx_bind (tx_get (\<lambda>db.
       filter (\<lambda>r. lower_text (mr_user r) = lower_text email) (ac_memberships db)))
     (\<lambda>rows. construct_all membership_post_init (map membership_from_orm rows))"

definition membership_update :: "membership \<Rightarrow> (accessdb, unit) tx" where
  "membership_update m = tx_bind (user_id (mb_user m)) (\<lambda>u.
     tx_bind (resolve_in (\<lambda>cat. competition_uuid cat (mb_competition m))) (\<lambda>c.
     tx_bind (tx_get (\<lambda>db. find_row membership_key (u, c) (ac_memberships db))) (\<lambda>found.
     tx_bind (tx_some LookupError found) (\<lambda>r.
     tx_bind (placed_team c (mb_team m)) (\<lambda>t. let new = membership_to_orm m u c t (Some r) in
     tx_bind (checked_row (membership_check new)) (\<lambda>_.
     tx_modify (\<lambda>db. db\<lparr>ac_memberships := put_row membership_key new (ac_memberships db)\<rparr>)))))))"

section \<open>Password credentials\<close>

definition auth_credential_to_orm :: "auth_credential \<Rightarrow> string \<Rightarrow> password_row option \<Rightarrow> password_row" where
  "auth_credential_to_orm k u existing = (case existing of
       None \<Rightarrow> \<lparr>kr_user = u, kr_hash = ak_hash k, kr_created = ak_created k, kr_updated = ak_updated k\<rparr>
     | Some r \<Rightarrow> r\<lparr>kr_hash := ak_hash k, kr_updated := ak_updated k\<rparr>)"

definition auth_credential_from_orm :: "password_row \<Rightarrow> auth_credential" where
  "auth_credential_from_orm r = \<lparr>ak_user = kr_user r, ak_hash = kr_hash r, ak_created = kr_created r, ak_updated = kr_updated r\<rparr>"

text \<open>The CHECK \<open>password_hash ~ '^\S+\$\S+$'\<close>.\<close>

definition encoded_column :: "string \<Rightarrow> bool" where
  "encoded_column s \<longleftrightarrow> list_all (\<lambda>c. \<not> py_isspace c) s \<and> CHR ''$'' \<in> set (butlast (drop 1 s))"

definition credential_check :: "password_row \<Rightarrow> string option" where
  "credential_check r = first_taken [(''ck_auth_credentials_password_hash_encoded'', \<not> encoded_column (kr_hash r)),
     (''ck_auth_credentials_updated_after_created'', kr_updated r < kr_created r)]"

definition credential_add :: "auth_credential \<Rightarrow> (accessdb, unit) tx" where
  "credential_add k = tx_bind (user_id (ak_user k)) (\<lambda>u. let r = auth_credential_to_orm k u None in
     tx_bind (checked_row (credential_check r)) (\<lambda>_.
     tx_bind (tx_get ac_credentials) (\<lambda>rows.
     tx_bind (unique_keys [(''uq_auth_credentials_user_id'', u \<in> kr_user ` set rows)]) (\<lambda>_.
     tx_modify (\<lambda>db. db\<lparr>ac_credentials := ac_credentials db @ [r]\<rparr>)))))"

text \<open>An unknown user is a clean miss.\<close>

definition or_missing :: "'a \<Rightarrow> ('s, 'a) tx \<Rightarrow> ('s, 'a) tx" where
  "or_missing x m = savepoint m (\<lambda>e. if e = LookupError then tx_ret x else tx_raise e)"

definition credential_get :: "string \<Rightarrow> (accessdb, auth_credential option) tx" where
  "credential_get email =
     tx_bind (or_missing None (tx_bind (user_id email) (\<lambda>u. tx_ret (Some u)))) (\<lambda>known.
     case known of None \<Rightarrow> tx_ret None
     | Some u \<Rightarrow> tx_bind (tx_get (\<lambda>db. find_row kr_user u (ac_credentials db))) (\<lambda>found.
         case found of None \<Rightarrow> tx_ret None
         | Some r \<Rightarrow> tx_bind (construct auth_credential_post_init (auth_credential_from_orm r)) (\<lambda>k. tx_ret (Some k))))"

definition credential_update :: "auth_credential \<Rightarrow> (accessdb, unit) tx" where
  "credential_update k = tx_bind (user_id (ak_user k)) (\<lambda>u.
     tx_bind (tx_get (\<lambda>db. find_row kr_user u (ac_credentials db))) (\<lambda>found.
     tx_bind (tx_some LookupError found) (\<lambda>r. let new = auth_credential_to_orm k u (Some r) in
     tx_bind (checked_row (credential_check new)) (\<lambda>_.
     tx_modify (\<lambda>db. db\<lparr>ac_credentials := put_row kr_user new (ac_credentials db)\<rparr>)))))"

section \<open>Sessions\<close>

definition auth_session_to_orm :: "auth_session \<Rightarrow> string \<Rightarrow> exn + session_row" where
  "auth_session_to_orm s u = (case (as_uuid (sn_id s), sn_rotated s) of
       (None, _) \<Rightarrow> Inl ValueError
     | (Some n, None) \<Rightarrow> Inr \<lparr>nr_id = n, nr_user = u, nr_hash = sn_hash s, nr_issued = sn_issued s,
         nr_expires = sn_expires s, nr_rotated = None, nr_revoked = sn_revoked s\<rparr>
     | (Some n, Some i) \<Rightarrow> (case as_uuid i of None \<Rightarrow> Inl ValueError
         | Some m \<Rightarrow> Inr \<lparr>nr_id = n, nr_user = u, nr_hash = sn_hash s, nr_issued = sn_issued s,
             nr_expires = sn_expires s, nr_rotated = Some m, nr_revoked = sn_revoked s\<rparr>))"

definition auth_session_from_orm :: "session_row \<Rightarrow> auth_session" where
  "auth_session_from_orm r = \<lparr>sn_id = Uid (nr_id r), sn_user = nr_user r, sn_hash = nr_hash r, sn_issued = nr_issued r,
     sn_expires = nr_expires r, sn_rotated = map_option Uid (nr_rotated r), sn_revoked = nr_revoked r\<rparr>"

definition session_check :: "session_row \<Rightarrow> string option" where
  "session_check r = first_taken [(''ck_sessions_expiry_after_issue'', nr_expires r \<le> nr_issued r),
     (''ck_sessions_token_hash_format'', \<not> hex64 (nr_hash r))]"

definition session_keys :: "session_row \<Rightarrow> session_row list \<Rightarrow> (string \<times> bool) list" where
  "session_keys r rows = [(''pk_sessions'', nr_id r \<in> nr_id ` set rows),
     (''uq_sessions_token_hash'', nr_hash r \<in> nr_hash ` set rows),
     (''fk_sessions_rotated_from_sessions'',
        (case nr_rotated r of None \<Rightarrow> False | Some m \<Rightarrow> m \<noteq> nr_id r \<and> m \<notin> nr_id ` set rows))]"

definition session_add :: "auth_session \<Rightarrow> (accessdb, unit) tx" where
  "session_add s = tx_bind (user_id (sn_user s)) (\<lambda>u.
     tx_bind (tx_sum (auth_session_to_orm s u)) (\<lambda>r.
     tx_bind (checked_row (session_check r)) (\<lambda>_.
     tx_bind (tx_get ac_sessions) (\<lambda>rows.
     tx_bind (unique_keys (session_keys r rows)) (\<lambda>_.
     tx_modify (\<lambda>db. db\<lparr>ac_sessions := ac_sessions db @ [r]\<rparr>))))))"

definition read_session :: "session_row option \<Rightarrow> (accessdb, auth_session option) tx" where
  "read_session found = (case found of None \<Rightarrow> tx_ret None
     | Some r \<Rightarrow> tx_bind (construct auth_session_post_init (auth_session_from_orm r)) (\<lambda>s. tx_ret (Some s)))"

definition session_get :: "ident \<Rightarrow> (accessdb, auth_session option) tx" where
  "session_get i = (case as_uuid i of None \<Rightarrow> tx_ret None
     | Some n \<Rightarrow> tx_bind (tx_get (\<lambda>db. find_row nr_id n (ac_sessions db))) read_session)"

definition session_get_by_token_hash :: "string \<Rightarrow> (accessdb, auth_session option) tx" where
  "session_get_by_token_hash h = tx_bind (tx_get (\<lambda>db. find_row nr_hash h (ac_sessions db))) read_session"

text \<open>The trigger \<open>auth_sessions_freeze\<close>: only the stamp from NULL to a value passes.\<close>

definition auth_sessions_freeze :: "session_row \<Rightarrow> session_row \<Rightarrow> bool" where
  "auth_sessions_freeze old new \<longleftrightarrow> nr_revoked old = None \<and> nr_revoked new \<noteq> None
     \<and> new\<lparr>nr_revoked := None\<rparr> = old\<lparr>nr_revoked := None\<rparr>"

definition session_revoke :: "ident \<Rightarrow> instant \<Rightarrow> (accessdb, unit) tx" where
  "session_revoke i t = tx_bind (tx_some LookupError (as_uuid i)) (\<lambda>n.
     tx_bind (tx_get (\<lambda>db. find_row nr_id n (ac_sessions db))) (\<lambda>found.
     tx_bind (tx_some LookupError found) (\<lambda>r.
     if nr_revoked r \<noteq> None then tx_ret ()
     else let new = r\<lparr>nr_revoked := Some t\<rparr> in
       tx_bind (tx_guard (auth_sessions_freeze r new) ProgrammingError) (\<lambda>_.
       tx_modify (\<lambda>db. db\<lparr>ac_sessions := put_row nr_id new (ac_sessions db)\<rparr>)))))"

section \<open>System roles\<close>

definition role_grant :: "system_role_assignment \<Rightarrow> (accessdb, unit) tx" where
  "role_grant a = tx_bind (user_id (sy_user a)) (\<lambda>u.
     tx_bind (tx_get ac_roles) (\<lambda>rows.
     if (u, sy_role a) \<in> set rows then tx_ret ()
     else tx_bind (checked_row (first_taken [(''ck_user_system_roles_role_valid'', sy_role a \<notin> set valid_system_roles)])) (\<lambda>_.
       tx_modify (\<lambda>db. db\<lparr>ac_roles := ac_roles db @ [(u, sy_role a)]\<rparr>))))"

definition role_revoke :: "string \<Rightarrow> string \<Rightarrow> (accessdb, bool) tx" where
  "role_revoke email role =
     tx_bind (or_missing None (tx_bind (user_id email) (\<lambda>u. tx_ret (Some u)))) (\<lambda>known.
     case known of None \<Rightarrow> tx_ret False
     | Some u \<Rightarrow> tx_bind (tx_get (\<lambda>db. (u, role) \<in> set (ac_roles db))) (\<lambda>held.
         tx_bind (tx_modify (\<lambda>db. db\<lparr>ac_roles := filter (\<lambda>x. x \<noteq> (u, role)) (ac_roles db)\<rparr>)) (\<lambda>_. tx_ret held)))"

definition role_list_for_user :: "string \<Rightarrow> (accessdb, string list) tx" where
  "role_list_for_user email =
     tx_bind (or_missing None (tx_bind (user_id email) (\<lambda>u. tx_ret (Some u)))) (\<lambda>known.
     case known of None \<Rightarrow> tx_ret []
     | Some u \<Rightarrow> tx_get (\<lambda>db. map snd (filter (\<lambda>x. fst x = u) (ac_roles db))))"

section \<open>Login transactions\<close>

definition oidc_login_transaction_to_orm :: "login_transaction \<Rightarrow> login_row" where
  "oidc_login_transaction_to_orm t = \<lparr>gl_state = lt_state t, gl_nonce = lt_nonce t, gl_verifier = lt_verifier t,
     gl_binding = lt_binding t, gl_redirect = lt_redirect t, gl_created = lt_created t, gl_expires = lt_expires t\<rparr>"

definition oidc_login_transaction_from_orm :: "login_row \<Rightarrow> login_transaction" where
  "oidc_login_transaction_from_orm r = \<lparr>lt_state = gl_state r, lt_nonce = gl_nonce r, lt_verifier = gl_verifier r,
     lt_binding = gl_binding r, lt_redirect = gl_redirect r, lt_created = gl_created r, lt_expires = gl_expires r\<rparr>"

definition login_check :: "login_row \<Rightarrow> string option" where
  "login_check r = first_taken [(''ck_oidc_login_transactions_binding_hash_format'', \<not> hex64 (gl_binding r)),
     (''ck_oidc_login_transactions_expiry_after_created'', gl_expires r \<le> gl_created r),
     (''ck_oidc_login_transactions_state_hash_format'', \<not> hex64 (gl_state r))]"

definition login_add :: "login_transaction \<Rightarrow> (accessdb, unit) tx" where
  "login_add t = (let r = oidc_login_transaction_to_orm t in
     tx_bind (checked_row (login_check r)) (\<lambda>_.
     tx_bind (tx_get ac_logins) (\<lambda>rows.
     tx_bind (unique_keys [(''uq_oidc_login_transactions_state_hash'', gl_state r \<in> gl_state ` set rows)]) (\<lambda>_.
     tx_modify (\<lambda>db. db\<lparr>ac_logins := ac_logins db @ [r]\<rparr>)))))"

definition login_consume :: "string \<Rightarrow> instant \<Rightarrow> (accessdb, login_transaction option) tx" where
  "login_consume h now = tx_bind (tx_get (\<lambda>db. find_row gl_state h (ac_logins db))) (\<lambda>found.
     case found of None \<Rightarrow> tx_ret None
     | Some r \<Rightarrow> tx_bind (construct login_transaction_post_init (oidc_login_transaction_from_orm r)) (\<lambda>t.
         tx_bind (tx_modify (\<lambda>db. db\<lparr>ac_logins := filter (\<lambda>x. gl_state x \<noteq> h) (ac_logins db)\<rparr>)) (\<lambda>_.
         tx_ret (if login_is_live t now then Some t else None))))"

definition login_prune_expired :: "instant \<Rightarrow> (accessdb, int) tx" where
  "login_prune_expired now = tx_bind (tx_get (\<lambda>db. int (length (filter (\<lambda>r. gl_expires r \<le> now) (ac_logins db))))) (\<lambda>n.
     tx_bind (tx_modify (\<lambda>db. db\<lparr>ac_logins := filter (\<lambda>r. \<not> gl_expires r \<le> now) (ac_logins db)\<rparr>)) (\<lambda>_. tx_ret n))"

end
