(* ===== verification/Access_Service.thy ===== *)
theory Access_Service
  imports Access_Store
begin

text \<open>
  \<open>application/identity/service.py\<close>, \<open>application/auth/service.py\<close> and \<open>application/auth/oidc/service.py\<close>.
  The password hasher is the argument the service injects; salts, session ids and tokens are drawn by the
  caller of the model. What the identity provider answers (discovery, token exchange, JWT validation) is
  an argument too, since \<open>httpx\<close> and \<open>PyJWT\<close> are not part of the repository.
\<close>

section \<open>Identity\<close>

definition identity_register :: "user \<Rightarrow> (accessdb, user) svc" where
  "identity_register u = svc_bind
     (session_scope (tx_bind (user_add u) (\<lambda>_. user_get (us_email u))))
     (\<lambda>stored. case stored of None \<Rightarrow> svc_raise AssertionError | Some x \<Rightarrow> svc_ret x)"

definition identity_get :: "string \<Rightarrow> (accessdb, user option) svc" where
  "identity_get email = session_scope (user_get email)"

definition identity_list :: "(accessdb, user list) svc" where
  "identity_list = session_scope user_list"

definition upsert_membership :: "membership \<Rightarrow> (accessdb, membership option) tx" where
  "upsert_membership m = tx_bind (membership_get (mb_user m) (mb_competition m)) (\<lambda>found.
     tx_bind (if found = None then membership_add m else membership_update m) (\<lambda>_.
     membership_get (mb_user m) (mb_competition m)))"

definition assign_membership :: "string \<Rightarrow> string \<Rightarrow> string \<Rightarrow> string option \<Rightarrow> (accessdb, membership) svc" where
  "assign_membership c email role team =
     (case membership_post_init \<lparr>mb_user = email, mb_competition = c, mb_role = role, mb_team = team\<rparr> of
        Inl e \<Rightarrow> svc_raise e
      | Inr _ \<Rightarrow> svc_bind
          (session_scope (upsert_membership \<lparr>mb_user = email, mb_competition = c, mb_role = role, mb_team = team\<rparr>))
          (\<lambda>stored. case stored of None \<Rightarrow> svc_raise LookupError | Some m \<Rightarrow> svc_ret m))"

definition list_memberships_for_competition :: "string \<Rightarrow> (accessdb, membership list) svc" where
  "list_memberships_for_competition c = session_scope (membership_list_for_competition c)"

section \<open>Passwords\<close>

text \<open>A hasher: \<open>hash\<close> with the salt it draws, \<open>verify\<close> and \<open>needs_rehash\<close>.\<close>

record password_hasher =
  ph_hash :: "string \<Rightarrow> nat list \<Rightarrow> exn + string"
  ph_verify :: "string \<Rightarrow> string \<Rightarrow> bool"
  ph_needs_rehash :: "string \<Rightarrow> bool"

definition min_password_length :: nat where
  "min_password_length = 8"

definition validate_password_strength :: "string \<Rightarrow> exn + unit" where
  "validate_password_strength p = (if p = [] then Inl ValueError
     else if length p < min_password_length then Inl ValueError else Inr ())"

record auth_service =
  av_hasher :: password_hasher
  av_ttl :: int

definition auth_service_init :: "password_hasher \<Rightarrow> int \<Rightarrow> exn + auth_service" where
  "auth_service_init h ttl = (if ttl \<le> 0 then Inl ValueError else Inr \<lparr>av_hasher = h, av_ttl = ttl\<rparr>)"

definition store_password :: "string \<Rightarrow> string \<Rightarrow> instant \<Rightarrow> (accessdb, unit) tx" where
  "store_password email encoded now = tx_bind (credential_get email) (\<lambda>existing.
     case existing of
       None \<Rightarrow> tx_bind (construct auth_credential_post_init
           \<lparr>ak_user = email, ak_hash = encoded, ak_created = now, ak_updated = now\<rparr>) credential_add
     | Some k \<Rightarrow> tx_bind (construct auth_credential_post_init (k\<lparr>ak_hash := encoded, ak_updated := now\<rparr>)) credential_update)"

definition set_password :: "auth_service \<Rightarrow> string \<Rightarrow> string \<Rightarrow> nat list \<Rightarrow> instant \<Rightarrow> (accessdb, unit) svc" where
  "set_password a email password salt now =
     (case validate_password_strength password of Inl e \<Rightarrow> svc_raise e
      | Inr _ \<Rightarrow> (case ph_hash (av_hasher a) password salt of Inl e \<Rightarrow> svc_raise e
          | Inr encoded \<Rightarrow> session_scope (store_password email encoded now)))"

section \<open>Sessions\<close>

text \<open>What one login draws: the uuid of the session and its raw token.\<close>

record session_draw =
  sd_id :: nat
  sd_token :: string

definition hash_token :: "string \<Rightarrow> string" where
  "hash_token token = sha256_hex token"

definition issue_session :: "auth_service \<Rightarrow> string \<Rightarrow> instant \<Rightarrow> ident option \<Rightarrow> session_draw \<Rightarrow> (accessdb, issued_session) tx" where
  "issue_session a email now rotated d =
     tx_bind (construct auth_session_post_init \<lparr>sn_id = Uid (sd_id d), sn_user = email, sn_hash = hash_token (sd_token d),
        sn_issued = now, sn_expires = now + av_ttl a, sn_rotated = rotated, sn_revoked = None\<rparr>) (\<lambda>s.
     tx_bind (session_add s) (\<lambda>_.
     construct issued_session_post_init \<lparr>iz_id = sn_id s, iz_user = email, iz_expires = sn_expires s, iz_token = sd_token d\<rparr>))"

text \<open>For an unknown email the hasher runs against a dummy hash, and the answer is thrown away.\<close>

definition authenticate :: "auth_service \<Rightarrow> string \<Rightarrow> string \<Rightarrow> nat list \<Rightarrow> session_draw \<Rightarrow> instant \<Rightarrow> (accessdb, issued_session) svc" where
  "authenticate a email password salt d now = session_scope
     (tx_bind (credential_get email) (\<lambda>found.
      tx_bind (tx_some InvalidCredentialsError found) (\<lambda>k.
      tx_bind (tx_guard (ph_verify (av_hasher a) password (ak_hash k)) InvalidCredentialsError) (\<lambda>_.
      tx_bind (if ph_needs_rehash (av_hasher a) (ak_hash k)
        then tx_bind (tx_sum (ph_hash (av_hasher a) password salt)) (\<lambda>encoded.
          tx_bind (construct auth_credential_post_init (k\<lparr>ak_hash := encoded, ak_updated := now\<rparr>)) credential_update)
        else tx_ret ()) (\<lambda>_.
      issue_session a (ak_user k) now None d)))))"

definition issue_federated_session :: "auth_service \<Rightarrow> string \<Rightarrow> instant \<Rightarrow> session_draw \<Rightarrow> (accessdb, issued_session) svc" where
  "issue_federated_session a email now d = session_scope (issue_session a email now None d)"

text \<open>\<open>_require_token_hash\<close>, and the live session a token stands for.\<close>

definition require_token_hash :: "string option \<Rightarrow> exn + string" where
  "require_token_hash token = (case token of None \<Rightarrow> Inl InvalidCredentialsError
     | Some t \<Rightarrow> if t = [] then Inl InvalidCredentialsError else Inr (hash_token t))"

definition live_session :: "string \<Rightarrow> instant \<Rightarrow> (accessdb, auth_session) tx" where
  "live_session h now = tx_bind (session_get_by_token_hash h) (\<lambda>found.
     case found of None \<Rightarrow> tx_raise InvalidCredentialsError
     | Some s \<Rightarrow> if session_is_live s now then tx_ret s else tx_raise InvalidCredentialsError)"

definition with_token :: "string option \<Rightarrow> (string \<Rightarrow> (accessdb, 'a) svc) \<Rightarrow> (accessdb, 'a) svc" where
  "with_token token f = (case require_token_hash token of Inl e \<Rightarrow> svc_raise e | Inr h \<Rightarrow> f h)"

definition refresh :: "auth_service \<Rightarrow> string option \<Rightarrow> session_draw \<Rightarrow> instant \<Rightarrow> (accessdb, issued_session) svc" where
  "refresh a token d now = with_token token (\<lambda>h. session_scope
     (tx_bind (live_session h now) (\<lambda>old.
      tx_bind (issue_session a (sn_user old) now (Some (sn_id old)) d) (\<lambda>issued.
      tx_bind (session_revoke (sn_id old) now) (\<lambda>_. tx_ret issued)))))"

definition logout :: "string option \<Rightarrow> instant \<Rightarrow> (accessdb, unit) svc" where
  "logout token now = with_token token (\<lambda>h. session_scope
     (tx_bind (live_session h now) (\<lambda>s. session_revoke (sn_id s) now)))"

record resolved_principal =
  rp_subject :: string
  rp_roles :: "string list"
  rp_memberships :: "(string \<times> string \<times> string option) list"

definition resolve :: "string option \<Rightarrow> instant \<Rightarrow> (accessdb, resolved_principal) svc" where
  "resolve token now = with_token token (\<lambda>h. session_scope
     (tx_bind (live_session h now) (\<lambda>s.
      tx_bind (role_list_for_user (sn_user s)) (\<lambda>roles.
      tx_bind (membership_list_for_user (sn_user s)) (\<lambda>ms.
      tx_ret \<lparr>rp_subject = sn_user s, rp_roles = roles,
        rp_memberships = map (\<lambda>m. (mb_competition m, mb_role m, mb_team m)) ms\<rparr>)))))"

section \<open>System roles\<close>

definition grant_system_role :: "string \<Rightarrow> string \<Rightarrow> (accessdb, unit) svc" where
  "grant_system_role email role = session_scope
     (tx_bind (construct system_role_post_init \<lparr>sy_user = email, sy_role = role\<rparr>) role_grant)"

definition revoke_system_role :: "string \<Rightarrow> string \<Rightarrow> (accessdb, bool) svc" where
  "revoke_system_role email role = session_scope (role_revoke email role)"

definition bootstrap_admin :: "auth_service \<Rightarrow> string \<Rightarrow> string \<Rightarrow> string \<Rightarrow> nat list \<Rightarrow> instant \<Rightarrow> (accessdb, bool) svc" where
  "bootstrap_admin a email name password salt now = session_scope
     (tx_bind (user_get email) (\<lambda>known.
      tx_bind (if known = None
        then tx_bind (construct user_post_init \<lparr>us_email = email, us_name = name\<rparr>) user_add
        else tx_ret ()) (\<lambda>_.
      tx_bind (credential_get email) (\<lambda>existing.
      tx_bind (if existing = None
        then tx_bind (tx_sum (validate_password_strength password)) (\<lambda>_.
          tx_bind (tx_sum (ph_hash (av_hasher a) password salt)) (\<lambda>encoded.
          tx_bind (construct auth_credential_post_init
            \<lparr>ak_user = email, ak_hash = encoded, ak_created = now, ak_updated = now\<rparr>) credential_add))
        else tx_ret ()) (\<lambda>_.
      tx_bind (construct system_role_post_init \<lparr>sy_user = email, sy_role = ''admin''\<rparr>) (\<lambda>r.
      tx_bind (role_grant r) (\<lambda>_. tx_ret (existing = None))))))))"

section \<open>Federated login\<close>

record oidc_config =
  og_client :: string
  og_redirect :: string
  og_domains :: "string list"
  og_provision :: bool
  og_ttl :: int

definition domain_allowed :: "oidc_config \<Rightarrow> string \<Rightarrow> bool" where
  "domain_allowed c email \<longleftrightarrow> og_domains c = []
     \<or> lower_text (last (py_split (CHR ''@'') email)) \<in> set (og_domains c)"

record login_draw =
  gd_state :: string
  gd_nonce :: string
  gd_verifier :: string
  gd_binding :: string

definition build_authorization_url :: "oidc_config \<Rightarrow> login_draw \<Rightarrow> instant \<Rightarrow> (accessdb, string \<times> string) svc" where
  "build_authorization_url c d now =
     (let t = \<lparr>lt_state = sha256_hex (gd_state d), lt_nonce = gd_nonce d, lt_verifier = gd_verifier d,
        lt_binding = sha256_hex (gd_binding d), lt_redirect = og_redirect c, lt_created = now, lt_expires = now + og_ttl c\<rparr>
      in case login_transaction_post_init t of Inl e \<Rightarrow> svc_raise e
       | Inr _ \<Rightarrow> svc_bind (session_scope (tx_bind (login_prune_expired now) (\<lambda>_. login_add t)))
           (\<lambda>_. svc_ret (gd_state d, gd_binding d)))"

text \<open>
  The claims of an ID token whose signature, issuer, audience and times \<open>jwt.decode\<close> has accepted, as a
  JSON object. The provider, an argument, answers a code and a PKCE verifier with claims or an error.
\<close>

type_synonym claims = "(string \<times> json) list"
type_synonym provider = "string \<Rightarrow> string \<Rightarrow> exn + claims"

definition claim_value :: "string \<Rightarrow> claims \<Rightarrow> json option" where
  "claim_value key k = (case json_get key (JObj k) of Some JNull \<Rightarrow> None | v \<Rightarrow> v)"

definition check_claims :: "oidc_config \<Rightarrow> string \<Rightarrow> claims \<Rightarrow> exn + claims" where
  "check_claims c nonce k =
     (let several = (case claim_value ''aud'' k of Some (JList xs) \<Rightarrow> length xs > 1 | _ \<Rightarrow> False)
      in if (several \<or> claim_value ''azp'' k \<noteq> None) \<and> claim_value ''azp'' k \<noteq> Some (JStr (og_client c)) then Inl OidcAuthError
         else if nonce = [] \<or> claim_value ''nonce'' k \<noteq> Some (JStr nonce) then Inl OidcAuthError
         else Inr k)"

definition is_true :: "json option \<Rightarrow> bool" where
  "is_true v = (case v of Some (JBool b) \<Rightarrow> b | Some (JStr s) \<Rightarrow> lower_text (py_strip s) = ''true'' | _ \<Rightarrow> False)"

definition verified_email :: "oidc_config \<Rightarrow> claims \<Rightarrow> exn + string" where
  "verified_email c k = (case claim_value ''email'' k of
       Some (JStr e) \<Rightarrow> if CHR ''@'' \<notin> set e then Inl OidcAuthError
         else if \<not> is_true (claim_value ''email_verified'' k) then Inl OidcAuthError
         else if \<not> domain_allowed c e then Inl OidcAuthError else Inr e
     | _ \<Rightarrow> Inl OidcAuthError)"

text \<open>
  \<open>str(claims.get(key))\<close> where the value is truthy. A name that is a list or an object, which no provider
  sends, counts as absent.
\<close>

definition claim_text :: "string \<Rightarrow> claims \<Rightarrow> string option" where
  "claim_text key k = (case claim_value key k of
       Some (JStr s) \<Rightarrow> if s = [] then None else Some s
     | Some (JInt i) \<Rightarrow> if i = 0 then None else Some (py_str_int i)
     | Some (JBool b) \<Rightarrow> if b then Some ''True'' else None
     | _ \<Rightarrow> None)"

definition provisioned_user :: "string \<Rightarrow> claims \<Rightarrow> user" where
  "provisioned_user email k = \<lparr>us_email = email,
     us_name = (case claim_text ''name'' k of Some n \<Rightarrow> n
       | None \<Rightarrow> (case claim_text ''preferred_username'' k of Some n \<Rightarrow> n
           | None \<Rightarrow> takeWhile (\<lambda>x. x \<noteq> CHR ''@'') email))\<rparr>"

definition provision :: "user \<Rightarrow> (accessdb, unit) svc" where
  "provision u = svc_catch
     (svc_bind (case user_post_init u of Inl e \<Rightarrow> svc_raise e | Inr _ \<Rightarrow> identity_register u) (\<lambda>_. svc_ret ()))
     (\<lambda>e. case e of
        IntegrityError _ \<Rightarrow> svc_bind (identity_get (us_email u)) (\<lambda>found.
          if found = None then svc_raise OidcAuthError else svc_ret ())
      | ValueError \<Rightarrow> svc_raise OidcAuthError
      | _ \<Rightarrow> svc_raise e)"

definition provision_if_needed :: "oidc_config \<Rightarrow> string \<Rightarrow> claims \<Rightarrow> (accessdb, unit) svc" where
  "provision_if_needed c email k = svc_bind (identity_get email) (\<lambda>known.
     if known \<noteq> None then svc_ret ()
     else if \<not> og_provision c then svc_raise OidcAuthError
     else provision (provisioned_user email k))"

definition complete_login :: "oidc_config \<Rightarrow> auth_service \<Rightarrow> provider \<Rightarrow> string \<Rightarrow> login_transaction \<Rightarrow> session_draw \<Rightarrow> instant \<Rightarrow>
    (accessdb, issued_session) svc" where
  "complete_login c a ask code t d now =
     (case ask code (lt_verifier t) of Inl e \<Rightarrow> svc_raise e
      | Inr k \<Rightarrow> (case check_claims c (lt_nonce t) k of Inl e \<Rightarrow> svc_raise e
          | Inr k \<Rightarrow> (case verified_email c k of Inl e \<Rightarrow> svc_raise e
              | Inr email \<Rightarrow> svc_bind (provision_if_needed c email k) (\<lambda>_. issue_federated_session a email now d))))"

definition handle_callback :: "oidc_config \<Rightarrow> auth_service \<Rightarrow> provider \<Rightarrow> string option \<Rightarrow> string option \<Rightarrow> string option \<Rightarrow>
    session_draw \<Rightarrow> instant \<Rightarrow> (accessdb, issued_session) svc" where
  "handle_callback c a ask code state binding d now = (case (code, state) of
       (Some co, Some st) \<Rightarrow> if co = [] \<or> st = [] then svc_raise ValueError
         else svc_bind (session_scope (login_consume (sha256_hex st) now)) (\<lambda>found.
           case found of None \<Rightarrow> svc_raise OidcAuthError
           | Some t \<Rightarrow> (case binding of
               None \<Rightarrow> svc_raise OidcAuthError
             | Some b \<Rightarrow> if b = [] \<or> sha256_hex b \<noteq> lt_binding t then svc_raise OidcAuthError
                 else complete_login c a ask co t d now))
     | _ \<Rightarrow> svc_raise ValueError)"

end
