(* ===== verification/Worker_Access.thy ===== *)
theory Worker_Access
  imports Access_Store Corrective_Keys
begin

text \<open>
  Worker identities and their bearer credentials: \<open>worker_repository.py\<close> with the guards of migration
  0007, and \<open>application/worker_enrollment.py\<close>. The drawn credential id and secret are arguments.
\<close>

section \<open>The registry\<close>

definition fresh_worker :: "worker \<Rightarrow> bool" where
  "fresh_worker w \<longleftrightarrow> wk_trust w = TrustPending \<and> wk_revoked w = None \<and> wk_drain w = None
     \<and> wk_quarantined w = None \<and> wk_reason w = None \<and> wk_heartbeat w = None"

definition worker_to_orm :: "worker \<Rightarrow> registry_row option \<Rightarrow> exn + registry_row" where
  "worker_to_orm w existing = (case existing of
       None \<Rightarrow> if \<not> fresh_worker w then Inl ValueError
         else Inr \<lparr>wo_name = wk_name w, wo_runtime = wk_runtime w, wo_archs = wk_archs w, wo_caps = wk_caps w,
           wo_capacity = wk_capacity w, wo_version = wk_version w, wo_trust = TrustPending, wo_revoked = None,
           wo_drain = None, wo_quarantined = None, wo_reason = None, wo_heartbeat = None\<rparr>
     | Some r \<Rightarrow> Inr (r\<lparr>wo_runtime := wk_runtime w, wo_archs := wk_archs w, wo_caps := wk_caps w,
           wo_capacity := wk_capacity w, wo_version := wk_version w\<rparr>))"

definition worker_from_orm :: "registry_row \<Rightarrow> worker" where
  "worker_from_orm r = \<lparr>wk_name = wo_name r, wk_runtime = wo_runtime r, wk_archs = wo_archs r, wk_caps = wo_caps r,
     wk_capacity = wo_capacity r, wk_version = wo_version r, wk_trust = wo_trust r, wk_revoked = wo_revoked r,
     wk_drain = wo_drain r, wk_quarantined = wo_quarantined r, wk_reason = wo_reason r, wk_heartbeat = wo_heartbeat r\<rparr>"

definition worker_check :: "registry_row \<Rightarrow> string option" where
  "worker_check r = first_taken
     [(''ck_workers_architectures_non_empty'', wo_archs r = []),
      (''ck_workers_capabilities_non_empty'', wo_caps r = []),
      (''ck_workers_capacity_positive'', wo_capacity r < 1),
      (''ck_workers_name_non_empty'', \<not> nonempty (wo_name r)),
      (''ck_workers_quarantine_reason_consistent'', (wo_quarantined r = None) \<noteq> (wo_reason r = None)),
      (''ck_workers_revoked_state_consistent'', (wo_trust r = TrustRevoked) \<noteq> (wo_revoked r \<noteq> None)),
      (''ck_workers_runtime_type_valid'', wo_runtime r \<notin> set valid_runtime_types),
      (''ck_workers_version_non_empty'', \<not> nonempty (wo_version r))]"

text \<open>The trigger \<open>workers_revoked_terminal\<close>.\<close>

definition workers_revoked_terminal :: "registry_row \<Rightarrow> registry_row \<Rightarrow> bool" where
  "workers_revoked_terminal old new \<longleftrightarrow> \<not> (wo_trust old = TrustRevoked \<and> wo_trust new \<noteq> wo_trust old)"

definition worker_named :: "string \<Rightarrow> (accessdb, registry_row) tx" where
  "worker_named name = tx_bind (tx_get (\<lambda>db. find_row wo_name name (ac_workers db))) (tx_some LookupError)"

definition flush_worker :: "registry_row \<Rightarrow> registry_row \<Rightarrow> (accessdb, unit) tx" where
  "flush_worker old new = tx_bind (tx_guard (workers_revoked_terminal old new) ProgrammingError) (\<lambda>_.
     tx_bind (tx_guard (int_column (wo_capacity new)) DataError) (\<lambda>_.
     tx_bind (checked_row (worker_check new)) (\<lambda>_.
     tx_modify (\<lambda>db. db\<lparr>ac_workers := put_row wo_name new (ac_workers db)\<rparr>))))"

definition worker_add :: "worker \<Rightarrow> (accessdb, unit) tx" where
  "worker_add w = tx_bind (tx_sum (worker_to_orm w None)) (\<lambda>r.
     tx_bind (tx_guard (int_column (wo_capacity r)) DataError) (\<lambda>_.
     tx_bind (checked_row (worker_check r)) (\<lambda>_.
     tx_bind (tx_get ac_workers) (\<lambda>rows.
     tx_bind (unique_keys [(''uq_workers_name'', wo_name r \<in> wo_name ` set rows)]) (\<lambda>_.
     tx_modify (\<lambda>db. db\<lparr>ac_workers := ac_workers db @ [r]\<rparr>))))))"

definition worker_get :: "string \<Rightarrow> (accessdb, worker option) tx" where
  "worker_get name = tx_bind (tx_get (\<lambda>db. find_row wo_name name (ac_workers db))) (\<lambda>found.
     case found of None \<Rightarrow> tx_ret None
     | Some r \<Rightarrow> tx_bind (construct worker_post_init (worker_from_orm r)) (\<lambda>w. tx_ret (Some w)))"

definition worker_list :: "(accessdb, worker list) tx" where
  "worker_list = tx_bind (tx_get (\<lambda>db. sort_key wo_name (ac_workers db))) (\<lambda>rows.
     construct_all worker_post_init (map worker_from_orm rows))"

definition worker_update_profile :: "worker \<Rightarrow> (accessdb, unit) tx" where
  "worker_update_profile w = tx_bind (worker_named (wk_name w)) (\<lambda>r.
     tx_bind (tx_sum (worker_to_orm w (Some r))) (\<lambda>new. flush_worker r new))"

definition worker_heartbeat :: "string \<Rightarrow> instant \<Rightarrow> (accessdb, unit) tx" where
  "worker_heartbeat name t = tx_bind (worker_named name) (\<lambda>r. flush_worker r (r\<lparr>wo_heartbeat := Some t\<rparr>))"

definition worker_approve :: "string \<Rightarrow> (accessdb, unit) tx" where
  "worker_approve name = tx_bind (worker_named name) (\<lambda>r.
     tx_bind (tx_guard (wo_trust r = TrustPending) LookupError) (\<lambda>_. flush_worker r (r\<lparr>wo_trust := Trusted\<rparr>)))"

definition worker_revoke :: "string \<Rightarrow> instant \<Rightarrow> (accessdb, unit) tx" where
  "worker_revoke name t = tx_bind (worker_named name) (\<lambda>r.
     tx_bind (tx_guard (wo_trust r \<noteq> TrustRevoked) LookupError) (\<lambda>_.
     flush_worker r (r\<lparr>wo_trust := TrustRevoked, wo_revoked := Some t\<rparr>)))"

definition worker_quarantine :: "string \<Rightarrow> instant \<Rightarrow> string \<Rightarrow> (accessdb, unit) tx" where
  "worker_quarantine name t reason = tx_bind (tx_guard (nonempty reason) ValueError) (\<lambda>_.
     tx_bind (worker_named name) (\<lambda>r. flush_worker r (r\<lparr>wo_quarantined := Some t, wo_reason := Some reason\<rparr>)))"

definition worker_clear_quarantine :: "string \<Rightarrow> (accessdb, unit) tx" where
  "worker_clear_quarantine name = tx_bind (worker_named name) (\<lambda>r.
     tx_bind (tx_guard (wo_quarantined r \<noteq> None) LookupError) (\<lambda>_.
     flush_worker r (r\<lparr>wo_quarantined := None, wo_reason := None\<rparr>)))"

definition worker_drain :: "string \<Rightarrow> instant \<Rightarrow> (accessdb, unit) tx" where
  "worker_drain name t = tx_bind (worker_named name) (\<lambda>r. flush_worker r (r\<lparr>wo_drain := Some t\<rparr>))"

definition worker_resume :: "string \<Rightarrow> (accessdb, unit) tx" where
  "worker_resume name = tx_bind (worker_named name) (\<lambda>r.
     tx_bind (tx_guard (wo_drain r \<noteq> None) LookupError) (\<lambda>_. flush_worker r (r\<lparr>wo_drain := None\<rparr>)))"

section \<open>Credentials\<close>

definition worker_credential_to_orm :: "worker_credential \<Rightarrow> string \<Rightarrow> exn + worker_credential_row" where
  "worker_credential_to_orm k w = (case as_uuid (wt_id k) of None \<Rightarrow> Inl ValueError
     | Some n \<Rightarrow> Inr \<lparr>tc_id = n, tc_worker = w, tc_hash = wt_hash k, tc_scopes = sort (remdups (wt_scopes k)),
         tc_issued = wt_issued k, tc_expires = wt_expires k, tc_revoked = wt_revoked k\<rparr>)"

definition worker_credential_from_orm :: "worker_credential_row \<Rightarrow> worker_credential" where
  "worker_credential_from_orm r = \<lparr>wt_id = Uid (tc_id r), wt_worker = tc_worker r, wt_hash = tc_hash r,
     wt_scopes = tc_scopes r, wt_issued = tc_issued r, wt_expires = tc_expires r, wt_revoked = tc_revoked r\<rparr>"

definition worker_credential_check :: "worker_credential_row \<Rightarrow> string option" where
  "worker_credential_check r = first_taken
     [(''ck_worker_credentials_expiry_after_issue'', tc_expires r \<le> tc_issued r),
      (''ck_worker_credentials_scopes_non_empty'', tc_scopes r = []),
      (''ck_worker_credentials_token_hash_format'', \<not> hex64 (tc_hash r))]"

text \<open>The partial unique index lets a worker have one credential that is not revoked.\<close>

definition worker_credential_keys :: "worker_credential_row \<Rightarrow> worker_credential_row list \<Rightarrow> (string \<times> bool) list" where
  "worker_credential_keys r rows = [(''pk_worker_credentials'', tc_id r \<in> tc_id ` set rows),
     (''uq_worker_credentials_token_hash'', tc_hash r \<in> tc_hash ` set rows),
     (''uq_worker_credentials_worker_id_active'',
        tc_revoked r = None \<and> (\<exists>x \<in> set rows. tc_worker x = tc_worker r \<and> tc_revoked x = None))]"

definition worker_credential_add :: "worker_credential \<Rightarrow> (accessdb, unit) tx" where
  "worker_credential_add k = tx_bind (resolve_in (\<lambda>cat. worker_uuid cat (wt_worker k))) (\<lambda>w.
     tx_bind (tx_sum (worker_credential_to_orm k w)) (\<lambda>r.
     tx_bind (checked_row (worker_credential_check r)) (\<lambda>_.
     tx_bind (tx_get ac_worker_credentials) (\<lambda>rows.
     tx_bind (unique_keys (worker_credential_keys r rows)) (\<lambda>_.
     tx_modify (\<lambda>db. db\<lparr>ac_worker_credentials := ac_worker_credentials db @ [r]\<rparr>))))))"

definition read_worker_credential :: "worker_credential_row option \<Rightarrow> (accessdb, worker_credential option) tx" where
  "read_worker_credential found = (case found of None \<Rightarrow> tx_ret None
     | Some r \<Rightarrow> tx_bind (construct worker_credential_post_init (worker_credential_from_orm r)) (\<lambda>k. tx_ret (Some k)))"

definition worker_credential_get :: "ident \<Rightarrow> (accessdb, worker_credential option) tx" where
  "worker_credential_get i = (case as_uuid i of None \<Rightarrow> tx_ret None
     | Some n \<Rightarrow> tx_bind (tx_get (\<lambda>db. find_row tc_id n (ac_worker_credentials db))) read_worker_credential)"

definition active_for_worker :: "string \<Rightarrow> (accessdb, worker_credential option) tx" where
  "active_for_worker name = tx_bind (resolve_in (\<lambda>cat. worker_uuid cat name)) (\<lambda>w.
     tx_bind (tx_get (\<lambda>db. filter (\<lambda>r. tc_worker r = w \<and> tc_revoked r = None) (ac_worker_credentials db))) (\<lambda>rows.
     case rows of [] \<Rightarrow> tx_ret None | [r] \<Rightarrow> read_worker_credential (Some r) | _ \<Rightarrow> tx_raise MultipleResultsFound))"

definition worker_credential_list :: "string \<Rightarrow> (accessdb, worker_credential list) tx" where
  "worker_credential_list name = tx_bind (resolve_in (\<lambda>cat. worker_uuid cat name)) (\<lambda>w.
     tx_bind (tx_get (\<lambda>db. sort_key tc_issued (filter (\<lambda>r. tc_worker r = w) (ac_worker_credentials db)))) (\<lambda>rows.
     construct_all worker_credential_post_init (map worker_credential_from_orm rows)))"

definition worker_credentials_freeze :: "worker_credential_row \<Rightarrow> worker_credential_row \<Rightarrow> bool" where
  "worker_credentials_freeze old new \<longleftrightarrow> tc_revoked old = None \<and> tc_revoked new \<noteq> None
     \<and> new\<lparr>tc_revoked := None\<rparr> = old\<lparr>tc_revoked := None\<rparr>"

definition worker_credential_revoke :: "ident \<Rightarrow> instant \<Rightarrow> (accessdb, unit) tx" where
  "worker_credential_revoke i t = tx_bind (tx_some LookupError (as_uuid i)) (\<lambda>n.
     tx_bind (tx_get (\<lambda>db. find_row tc_id n (ac_worker_credentials db))) (\<lambda>found.
     tx_bind (tx_some LookupError found) (\<lambda>r.
     tx_bind (tx_guard (tc_revoked r = None) LookupError) (\<lambda>_. let new = r\<lparr>tc_revoked := Some t\<rparr> in
     tx_bind (tx_guard (worker_credentials_freeze r new) ProgrammingError) (\<lambda>_.
     tx_modify (\<lambda>db. db\<lparr>ac_worker_credentials := put_row tc_id new (ac_worker_credentials db)\<rparr>))))))"

section \<open>Tokens\<close>

text \<open>\<open>int(s, 16)\<close> and \<open>uuid.UUID(s)\<close>, with the spellings they accept.\<close>

definition py_hex_char :: "char \<Rightarrow> bool" where
  "py_hex_char c \<longleftrightarrow> c \<in> set ''0123456789abcdefABCDEF''"

definition unprefixed :: "string \<Rightarrow> string" where
  "unprefixed u = (if take 2 u = ''0x'' \<or> take 2 u = ''0X'' then
       (case drop 2 u of c # r \<Rightarrow> if c = CHR ''_'' then r else c # r | [] \<Rightarrow> []) else u)"

definition py_int16 :: "string \<Rightarrow> int option" where
  "py_int16 s = (let t = py_strip s;
       (neg, u) = (case t of [] \<Rightarrow> (False, t) | c # r \<Rightarrow> if c = CHR ''-'' then (True, r)
           else if c = CHR ''+'' then (False, r) else (False, t));
       groups = py_split (CHR ''_'') (unprefixed u)
     in if list_all (\<lambda>g. g \<noteq> [] \<and> list_all py_hex_char g) groups
        then Some ((if neg then -1 else 1) * int (unhexes 0 (map lower_ascii (concat groups)))) else None)"

function py_remove :: "string \<Rightarrow> string \<Rightarrow> string" where
  "py_remove w s = (if s = [] \<or> w = [] then s
     else if take (length w) s = w then py_remove w (drop (length w) s) else hd s # py_remove w (tl s))"
  by pat_completeness auto
termination
  by (relation "measure (length \<circ> snd)") auto

declare py_remove.simps [simp del]

definition strip_braces :: "string \<Rightarrow> string" where
  "strip_braces s = (let b = (\<lambda>c. c \<in> set ''{}'') in rev (dropWhile b (rev (dropWhile b s))))"

definition read_uuid :: "string \<Rightarrow> ident" where
  "read_uuid s = (let h = filter (\<lambda>c. c \<noteq> CHR ''-'') (strip_braces (py_remove ''uuid:'' (py_remove ''urn:'' s)))
     in if length h \<noteq> 32 then Malformed s
        else (case py_int16 h of None \<Rightarrow> Malformed s
          | Some v \<Rightarrow> if 0 \<le> v \<and> v < 2 ^ 128 then Uid (nat v) else Malformed s))"

text \<open>\<open>token.split(".", 2)\<close> keeps every dot after the second in the secret.\<close>

definition parse_token :: "string \<Rightarrow> (string \<times> string) option" where
  "parse_token token = (case py_partition (CHR ''.'') token of (prefix, sep1, rest) \<Rightarrow>
     (case py_partition (CHR ''.'') rest of (credential_id, sep2, secret) \<Rightarrow>
        if \<not> sep1 \<or> \<not> sep2 \<or> prefix \<noteq> credential_token_prefix then None
        else if credential_id = [] \<or> secret = [] then None
        else Some (credential_id, secret)))"

definition credential_token :: "issued_credential \<Rightarrow> string" where
  "credential_token k = credential_token_prefix @ ''.'' @ ident_text (ic_id k) @ ''.'' @ ic_secret k"

section \<open>The enrolment service\<close>

record authenticated_worker =
  aw_worker :: worker
  aw_credential :: ident
  aw_scopes :: "string list"
  aw_expires :: instant

definition require_scope :: "authenticated_worker \<Rightarrow> string \<Rightarrow> exn + unit" where
  "require_scope a scope = (if scope \<in> set (aw_scopes a) then Inr () else Inl ScopeError)"

definition trusted_worker :: "string \<Rightarrow> (accessdb, unit) tx" where
  "trusted_worker name = tx_bind (worker_get name) (\<lambda>found.
     case found of None \<Rightarrow> tx_raise LookupError
     | Some w \<Rightarrow> tx_guard (wk_trust w = Trusted) LookupError)"

definition issue_credential :: "string \<Rightarrow> instant \<Rightarrow> int \<Rightarrow> string list \<Rightarrow> nat \<Rightarrow> string \<Rightarrow> (accessdb, issued_credential) tx" where
  "issue_credential name now ttl scopes k secret =
     tx_bind (tx_guard (set scopes \<subseteq> set valid_credential_scopes) ValueError) (\<lambda>_.
     tx_bind (tx_guard (0 < ttl) ValueError) (\<lambda>_.
     tx_bind (trusted_worker name) (\<lambda>_.
     tx_bind (construct worker_credential_post_init \<lparr>wt_id = Uid k, wt_worker = name, wt_hash = sha256_hex secret,
         wt_scopes = scopes, wt_issued = now, wt_expires = now + ttl, wt_revoked = None\<rparr>) (\<lambda>c.
     tx_bind (worker_credential_add c) (\<lambda>_.
     construct issued_credential_post_init \<lparr>ic_id = Uid k, ic_worker = name, ic_scopes = scopes,
       ic_expires = wt_expires c, ic_secret = secret\<rparr>)))))"

definition register_worker :: "worker \<Rightarrow> (accessdb, worker) svc" where
  "register_worker w = svc_bind
     (session_scope (tx_bind (worker_add w) (\<lambda>_. worker_get (wk_name w))))
     (\<lambda>registered. case registered of None \<Rightarrow> svc_raise LookupError | Some r \<Rightarrow> svc_ret r)"

definition approve_worker :: "string \<Rightarrow> instant \<Rightarrow> int \<Rightarrow> string list \<Rightarrow> nat \<Rightarrow> string \<Rightarrow> (accessdb, issued_credential) svc" where
  "approve_worker name now ttl scopes k secret = session_scope
     (tx_bind (worker_approve name) (\<lambda>_. issue_credential name now ttl scopes k secret))"

definition revoke_active :: "string \<Rightarrow> instant \<Rightarrow> (accessdb, unit) tx" where
  "revoke_active name now = tx_bind (active_for_worker name) (\<lambda>active.
     case active of None \<Rightarrow> tx_ret () | Some c \<Rightarrow> worker_credential_revoke (wt_id c) now)"

definition rotate_credential :: "string \<Rightarrow> instant \<Rightarrow> int \<Rightarrow> string list \<Rightarrow> nat \<Rightarrow> string \<Rightarrow> (accessdb, issued_credential) svc" where
  "rotate_credential name now ttl scopes k secret = session_scope
     (tx_bind (trusted_worker name) (\<lambda>_.
      tx_bind (revoke_active name now) (\<lambda>_. issue_credential name now ttl scopes k secret)))"

definition revoke_worker :: "string \<Rightarrow> instant \<Rightarrow> (accessdb, unit) svc" where
  "revoke_worker name now = session_scope (tx_bind (worker_revoke name now) (\<lambda>_. revoke_active name now))"

text \<open>The unit of work only reads; every failure is the same \<open>None\<close>.\<close>

definition worker_authenticate :: "string \<Rightarrow> instant \<Rightarrow> (accessdb, authenticated_worker option) svc" where
  "worker_authenticate token now = (case parse_token token of None \<Rightarrow> svc_ret None
     | Some (credential_id, secret) \<Rightarrow> session_scope
         (tx_bind (worker_credential_get (read_uuid credential_id)) (\<lambda>found.
          case found of None \<Rightarrow> tx_ret None
          | Some c \<Rightarrow>
              if sha256_hex secret \<noteq> wt_hash c then tx_ret None
              else if wt_revoked c \<noteq> None then tx_ret None
              else if wt_expires c \<le> now then tx_ret None
              else tx_bind (worker_get (wt_worker c)) (\<lambda>w.
                case w of None \<Rightarrow> tx_ret None
                | Some w \<Rightarrow>
                    if wk_trust w \<noteq> Trusted \<or> wk_quarantined w \<noteq> None then tx_ret None
                    else tx_ret (Some \<lparr>aw_worker = w, aw_credential = wt_id c, aw_scopes = wt_scopes c,
                      aw_expires = wt_expires c\<rparr>)))))"

end
