(* ===== verification/Access_Inv.thy ===== *)
theory Access_Inv
  imports Access_Service Worker_Access Authoring_Inv
begin

text \<open>
  The invariant of the access tables, what each repository operation writes, and the proofs that the
  operations keep the invariant.
\<close>

section \<open>The invariant\<close>

definition users_ok :: "accessdb \<Rightarrow> bool" where
  "users_ok db \<longleftrightarrow> distinct (map user_key (ac_users db))
     \<and> (\<forall>r \<in> set (ac_users db). user_post_init (user_from_orm r) = Inr ())"

definition known_user :: "accessdb \<Rightarrow> string \<Rightarrow> bool" where
  "known_user db u \<longleftrightarrow> u \<in> ur_email ` set (ac_users db)"

definition memberships_ok :: "accessdb \<Rightarrow> bool" where
  "memberships_ok db \<longleftrightarrow> distinct (map membership_key (ac_memberships db))
     \<and> (\<forall>r \<in> set (ac_memberships db). known_user db (mr_user r) \<and> mr_competition r \<in> set (ac_competitions db)
          \<and> membership_post_init (membership_from_orm r) = Inr ())"

definition passwords_ok :: "accessdb \<Rightarrow> bool" where
  "passwords_ok db \<longleftrightarrow> distinct (map kr_user (ac_credentials db))
     \<and> (\<forall>r \<in> set (ac_credentials db). known_user db (kr_user r)
          \<and> auth_credential_post_init (auth_credential_from_orm r) = Inr ())"

definition sessions_ok :: "accessdb \<Rightarrow> bool" where
  "sessions_ok db \<longleftrightarrow> distinct (map nr_id (ac_sessions db)) \<and> distinct (map nr_hash (ac_sessions db))
     \<and> (\<forall>r \<in> set (ac_sessions db). known_user db (nr_user r)
          \<and> auth_session_post_init (auth_session_from_orm r) = Inr ())"

definition roles_ok :: "accessdb \<Rightarrow> bool" where
  "roles_ok db \<longleftrightarrow> distinct (ac_roles db)
     \<and> (\<forall>x \<in> set (ac_roles db). known_user db (fst x) \<and> snd x \<in> set valid_system_roles)"

definition logins_ok :: "accessdb \<Rightarrow> bool" where
  "logins_ok db \<longleftrightarrow> distinct (map gl_state (ac_logins db))
     \<and> (\<forall>r \<in> set (ac_logins db). login_transaction_post_init (oidc_login_transaction_from_orm r) = Inr ())"

definition registry_ok :: "accessdb \<Rightarrow> bool" where
  "registry_ok db \<longleftrightarrow> distinct (map wo_name (ac_workers db))
     \<and> (\<forall>r \<in> set (ac_workers db). worker_post_init (worker_from_orm r) = Inr ())"

text \<open>A credential that is not revoked belongs to a trusted worker, which has no second one.\<close>

definition trusted_name :: "accessdb \<Rightarrow> string \<Rightarrow> bool" where
  "trusted_name db name \<longleftrightarrow> (\<exists>w \<in> set (ac_workers db). wo_name w = name \<and> wo_trust w = Trusted)"

definition live_credentials :: "accessdb \<Rightarrow> worker_credential_row list" where
  "live_credentials db = filter (\<lambda>r. tc_revoked r = None) (ac_worker_credentials db)"

definition worker_credentials_ok :: "accessdb \<Rightarrow> bool" where
  "worker_credentials_ok db \<longleftrightarrow> distinct (map tc_id (ac_worker_credentials db))
     \<and> distinct (map tc_worker (live_credentials db))
     \<and> (\<forall>r \<in> set (ac_worker_credentials db). worker_credential_post_init (worker_credential_from_orm r) = Inr ()
          \<and> tc_worker r \<in> wo_name ` set (ac_workers db))
     \<and> (\<forall>r \<in> set (live_credentials db). trusted_name db (tc_worker r))"

definition access_ok :: "accessdb \<Rightarrow> bool" where
  "access_ok db \<longleftrightarrow> users_ok db \<and> memberships_ok db \<and> passwords_ok db \<and> sessions_ok db \<and> roles_ok db
     \<and> logins_ok db \<and> registry_ok db \<and> worker_credentials_ok db"

lemmas access_ok_defs = access_ok_def users_ok_def memberships_ok_def passwords_ok_def sessions_ok_def
  roles_ok_def logins_ok_def registry_ok_def worker_credentials_ok_def

section \<open>Resolving parents\<close>

lemma find_map: "List.find P (map f xs) = map_option f (List.find (\<lambda>x. P (f x)) xs)"
  by (induction xs) auto

lemma user_id_iff [tx_simps]:
  "user_id email db = Inr r \<longleftrightarrow> (\<exists>x. row_for_email email db = Some x \<and> r = (ur_email x, db))"
  unfolding user_id_def resolve_in_def user_uuid_def ac_catalog_def row_for_email_def find_row_def user_key_def
    lower_text_def
  by (auto simp: tx_simps find_map)

lemma resolve_in_iff [tx_simps]:
  "resolve_in (\<lambda>cat. competition_uuid cat c) db = Inr r \<longleftrightarrow> c \<in> set (ac_competitions db) \<and> r = (c, db)"
  "resolve_in (\<lambda>cat. team_uuid cat c t) db = Inr r \<longleftrightarrow> (c, t) \<in> set (ac_teams db) \<and> r = (t, db)"
  "resolve_in (\<lambda>cat. worker_uuid cat w) db = Inr r \<longleftrightarrow> w \<in> wo_name ` set (ac_workers db) \<and> r = (w, db)"
  by (auto simp: resolve_in_def tx_simps ac_catalog_def)

lemma row_for_email_Some: "row_for_email email db = Some x \<Longrightarrow> x \<in> set (ac_users db) \<and> user_key x = lower_text email"
  unfolding row_for_email_def by (auto dest: find_row_SomeD)

lemma row_for_email_known: "row_for_email email db = Some x \<Longrightarrow> known_user db (ur_email x)"
  by (auto simp: known_user_def dest: row_for_email_Some)

text \<open>A stored spelling resolves to itself, and two users never share one.\<close>

lemma row_of_known:
  assumes "users_ok db" and "known_user db u"
  shows "\<exists>x. row_for_email u db = Some x \<and> ur_email x = u"
proof -
  obtain x where x: "x \<in> set (ac_users db)" "ur_email x = u" using assms(2) by (auto simp: known_user_def)
  have "find_row user_key (user_key x) (ac_users db) = Some x"
    using assms(1) x(1) by (simp add: users_ok_def find_row_eq_Some_iff)
  then have "row_for_email u db = Some x" by (simp add: row_for_email_def x(2) [symmetric] user_key_def)
  with x(2) show ?thesis by blast
qed

lemma same_spelling:
  assumes "users_ok db" and "known_user db u" and "known_user db v" and "lower_text u = lower_text v"
  shows "u = v"
proof -
  obtain x where x: "row_for_email u db = Some x" "ur_email x = u" using row_of_known [OF assms(1,2)] by blast
  obtain y where y: "row_for_email v db = Some y" "ur_email y = v" using row_of_known [OF assms(1,3)] by blast
  have "row_for_email u db = row_for_email v db" by (simp add: row_for_email_def assms(4))
  with x y show ?thesis by simp
qed

lemma known_nonempty:
  assumes "users_ok db" and "known_user db u"
  shows "nonempty u"
  using assms by (auto simp: users_ok_def known_user_def user_post_init_def user_from_orm_def split: if_splits)

lemma placed_team_iff [tx_simps]:
  "placed_team c team db = Inr r \<longleftrightarrow> (\<forall>t. team = Some t \<longrightarrow> (c, t) \<in> set (ac_teams db)) \<and> r = (team, db)"
  by (cases team) (auto simp: placed_team_def tx_simps)

lemma or_missing_user [tx_simps]:
  "or_missing None (tx_bind (user_id email) (\<lambda>u. tx_ret (Some u))) db = Inr r
     \<longleftrightarrow> r = (map_option ur_email (row_for_email email db), db)"
proof (cases "row_for_email email db")
  case None
  have "user_id email db = Inl LookupError"
    using None unfolding user_id_def resolve_in_def user_uuid_def ac_catalog_def row_for_email_def find_row_def
      user_key_def lower_text_def
    by (simp add: tx_bind_get find_map tx_some_def tx_raise_def)
  then have "tx_bind (user_id email) (\<lambda>u. tx_ret (Some u)) db = Inl LookupError" by (rule tx_bind_fail)
  then show ?thesis using None by (auto simp: or_missing_def savepoint_def tx_ret_def)
next
  case (Some x)
  then have "user_id email db = Inr (ur_email x, db)" by (simp add: tx_simps)
  then have "tx_bind (user_id email) (\<lambda>u. tx_ret (Some u)) db = Inr (Some (ur_email x), db)"
    by (simp add: tx_bind_def tx_ret_def)
  then show ?thesis using Some by (auto simp: or_missing_def savepoint_def)
qed

section \<open>A write of one table\<close>

lemma known_user_update [simp]:
  "known_user (db\<lparr>ac_memberships := ms\<rparr>) u = known_user db u"
  "known_user (db\<lparr>ac_credentials := ks\<rparr>) u = known_user db u"
  "known_user (db\<lparr>ac_sessions := ns\<rparr>) u = known_user db u"
  "known_user (db\<lparr>ac_roles := rs\<rparr>) u = known_user db u"
  by (simp_all add: known_user_def)

lemma worker_update [simp]:
  "trusted_name (db\<lparr>ac_worker_credentials := cs\<rparr>) w = trusted_name db w"
  "live_credentials (db\<lparr>ac_workers := ws\<rparr>) = live_credentials db"
  by (simp_all add: trusted_name_def live_credentials_def)

lemma access_ok_write:
  "access_ok db \<Longrightarrow> memberships_ok (db\<lparr>ac_memberships := ms\<rparr>) \<Longrightarrow> access_ok (db\<lparr>ac_memberships := ms\<rparr>)"
  "access_ok db \<Longrightarrow> passwords_ok (db\<lparr>ac_credentials := ks\<rparr>) \<Longrightarrow> access_ok (db\<lparr>ac_credentials := ks\<rparr>)"
  "access_ok db \<Longrightarrow> sessions_ok (db\<lparr>ac_sessions := ns\<rparr>) \<Longrightarrow> access_ok (db\<lparr>ac_sessions := ns\<rparr>)"
  "access_ok db \<Longrightarrow> roles_ok (db\<lparr>ac_roles := rs\<rparr>) \<Longrightarrow> access_ok (db\<lparr>ac_roles := rs\<rparr>)"
  "access_ok db \<Longrightarrow> logins_ok (db\<lparr>ac_logins := ls\<rparr>) \<Longrightarrow> access_ok (db\<lparr>ac_logins := ls\<rparr>)"
  "access_ok db \<Longrightarrow> worker_credentials_ok (db\<lparr>ac_worker_credentials := cs\<rparr>) \<Longrightarrow>
     access_ok (db\<lparr>ac_worker_credentials := cs\<rparr>)"
  "access_ok db \<Longrightarrow> registry_ok (db\<lparr>ac_workers := ws\<rparr>) \<Longrightarrow> worker_credentials_ok (db\<lparr>ac_workers := ws\<rparr>) \<Longrightarrow>
     access_ok (db\<lparr>ac_workers := ws\<rparr>)"
  by (simp_all add: access_ok_defs known_user_def trusted_name_def live_credentials_def)

lemma access_ok_users:
  assumes "access_ok db" and "users_ok (db\<lparr>ac_users := us\<rparr>)" and "\<And>u. known_user db u \<Longrightarrow> known_user (db\<lparr>ac_users := us\<rparr>) u"
  shows "access_ok (db\<lparr>ac_users := us\<rparr>)"
proof -
  let ?new = "db\<lparr>ac_users := us\<rparr>"
  have "memberships_ok ?new" using assms(1,3) unfolding access_ok_def memberships_ok_def by simp
  moreover have "passwords_ok ?new" using assms(1,3) unfolding access_ok_def passwords_ok_def by simp
  moreover have "sessions_ok ?new" using assms(1,3) unfolding access_ok_def sessions_ok_def by simp
  moreover have "roles_ok ?new" using assms(1,3) unfolding access_ok_def roles_ok_def by simp
  moreover have "logins_ok ?new" "registry_ok ?new" "worker_credentials_ok ?new" using assms(1)
    by (simp_all add: access_ok_defs trusted_name_def live_credentials_def)
  ultimately show ?thesis using assms(2) by (simp add: access_ok_def)
qed

lemma access_okD:
  assumes "access_ok db"
  shows "users_ok db" "memberships_ok db" "passwords_ok db" "sessions_ok db" "roles_ok db" "logins_ok db"
    "registry_ok db" "worker_credentials_ok db"
  using assms by (simp_all add: access_ok_def)

section \<open>Users, memberships and passwords\<close>

lemma user_add_effect:
  "user_add u db = Inr (x, db') \<longleftrightarrow> user_check (user_to_orm u None) = None
     \<and> user_key (user_to_orm u None) \<notin> user_key ` set (ac_users db)
     \<and> db' = db\<lparr>ac_users := ac_users db @ [user_to_orm u None]\<rparr>"
  unfolding user_add_def Let_def by (auto simp: tx_simps)

lemma user_add_ok:
  assumes ok: "access_ok db" and init: "user_post_init u = Inr ()" and run: "user_add u db = Inr (x, db')"
  shows "access_ok db'"
proof -
  from run have new: "user_key (user_to_orm u None) \<notin> user_key ` set (ac_users db)"
    and db': "db' = db\<lparr>ac_users := ac_users db @ [user_to_orm u None]\<rparr>"
    by (simp_all add: user_add_effect)
  have same: "user_from_orm (user_to_orm u None) = u" by (simp add: user_from_orm_def user_to_orm_def)
  show ?thesis unfolding db'
  proof (rule access_ok_users [OF ok])
    show "users_ok (db\<lparr>ac_users := ac_users db @ [user_to_orm u None]\<rparr>)"
      using access_okD(1) [OF ok] new init same by (auto simp: users_ok_def)
  qed (auto simp: known_user_def)
qed

lemma membership_add_effect:
  "membership_add m db = Inr (x, db') \<longleftrightarrow> (\<exists>w r. row_for_email (mb_user m) db = Some w
     \<and> mb_competition m \<in> set (ac_competitions db)
     \<and> (\<forall>t. mb_team m = Some t \<longrightarrow> (mb_competition m, t) \<in> set (ac_teams db))
     \<and> r = membership_to_orm m (ur_email w) (mb_competition m) (mb_team m) None
     \<and> membership_check r = None \<and> membership_key r \<notin> membership_key ` set (ac_memberships db)
     \<and> db' = db\<lparr>ac_memberships := ac_memberships db @ [r]\<rparr>)"
  unfolding membership_add_def Let_def by (auto simp: tx_simps)

lemma membership_update_effect:
  "membership_update m db = Inr (x, db') \<longleftrightarrow> (\<exists>w old r. row_for_email (mb_user m) db = Some w
     \<and> mb_competition m \<in> set (ac_competitions db)
     \<and> find_row membership_key (ur_email w, mb_competition m) (ac_memberships db) = Some old
     \<and> (\<forall>t. mb_team m = Some t \<longrightarrow> (mb_competition m, t) \<in> set (ac_teams db))
     \<and> r = membership_to_orm m (ur_email w) (mb_competition m) (mb_team m) (Some old)
     \<and> membership_check r = None
     \<and> db' = db\<lparr>ac_memberships := put_row membership_key r (ac_memberships db)\<rparr>)"
  unfolding membership_update_def Let_def by (auto simp: tx_simps)

lemma membership_row_ok:
  assumes "users_ok db" and "known_user db u" and "membership_post_init m = Inr ()"
  shows "membership_post_init (m\<lparr>mb_user := u\<rparr>) = Inr ()"
  using assms(3) known_nonempty [OF assms(1,2)] by (simp add: membership_post_init_def split: if_splits)

lemma membership_add_ok:
  assumes ok: "access_ok db" and init: "membership_post_init m = Inr ()" and run: "membership_add m db = Inr (x, db')"
  shows "access_ok db'"
proof -
  from run obtain w r where w: "row_for_email (mb_user m) db = Some w" and c: "mb_competition m \<in> set (ac_competitions db)"
    and r: "r = membership_to_orm m (ur_email w) (mb_competition m) (mb_team m) None"
    and new: "membership_key r \<notin> membership_key ` set (ac_memberships db)"
    and db': "db' = db\<lparr>ac_memberships := ac_memberships db @ [r]\<rparr>" unfolding membership_add_effect by blast
  note u = row_for_email_known [OF w]
  have "membership_from_orm r = m\<lparr>mb_user := ur_email w\<rparr>" by (simp add: r membership_from_orm_def membership_to_orm_def)
  then have "membership_post_init (membership_from_orm r) = Inr ()"
    using membership_row_ok [OF access_okD(1) [OF ok] u init] by simp
  moreover have "mr_user r = ur_email w" "mr_competition r = mb_competition m" by (simp_all add: r membership_to_orm_def)
  ultimately have "memberships_ok (db\<lparr>ac_memberships := ac_memberships db @ [r]\<rparr>)"
    using access_okD(2) [OF ok] new u c by (auto simp: memberships_ok_def)
  then show ?thesis unfolding db' by (rule access_ok_write(1) [OF ok])
qed

lemma membership_update_ok:
  assumes ok: "access_ok db" and init: "membership_post_init m = Inr ()" and run: "membership_update m db = Inr (x, db')"
  shows "access_ok db'"
proof -
  from run obtain w old r where w: "row_for_email (mb_user m) db = Some w" and c: "mb_competition m \<in> set (ac_competitions db)"
    and old: "find_row membership_key (ur_email w, mb_competition m) (ac_memberships db) = Some old"
    and r: "r = membership_to_orm m (ur_email w) (mb_competition m) (mb_team m) (Some old)"
    and db': "db' = db\<lparr>ac_memberships := put_row membership_key r (ac_memberships db)\<rparr>"
    unfolding membership_update_effect by blast
  note u = row_for_email_known [OF w]
  have k: "mr_user r = ur_email w" "mr_competition r = mb_competition m"
    using find_row_SomeD [OF old] by (simp_all add: r membership_to_orm_def membership_key_def)
  then have "membership_from_orm r = m\<lparr>mb_user := ur_email w\<rparr>"
    by (simp add: r membership_from_orm_def membership_to_orm_def)
  then have "membership_post_init (membership_from_orm r) = Inr ()"
    using membership_row_ok [OF access_okD(1) [OF ok] u init] by simp
  then have "memberships_ok (db\<lparr>ac_memberships := put_row membership_key r (ac_memberships db)\<rparr>)"
    using access_okD(2) [OF ok] u c k unfolding memberships_ok_def by (auto dest: set_put_rowD)
  then show ?thesis unfolding db' by (rule access_ok_write(1) [OF ok])
qed

lemma credential_add_effect:
  "credential_add k db = Inr (x, db') \<longleftrightarrow> (\<exists>w r. row_for_email (ak_user k) db = Some w
     \<and> r = auth_credential_to_orm k (ur_email w) None \<and> credential_check r = None
     \<and> ur_email w \<notin> kr_user ` set (ac_credentials db)
     \<and> db' = db\<lparr>ac_credentials := ac_credentials db @ [r]\<rparr>)"
  unfolding credential_add_def Let_def by (auto simp: tx_simps)

lemma credential_update_effect:
  "credential_update k db = Inr (x, db') \<longleftrightarrow> (\<exists>w old r. row_for_email (ak_user k) db = Some w
     \<and> find_row kr_user (ur_email w) (ac_credentials db) = Some old
     \<and> r = auth_credential_to_orm k (ur_email w) (Some old) \<and> credential_check r = None
     \<and> db' = db\<lparr>ac_credentials := put_row kr_user r (ac_credentials db)\<rparr>)"
  unfolding credential_update_def Let_def by (auto simp: tx_simps)

lemma credential_check_dates: "credential_check r = None \<Longrightarrow> kr_created r \<le> kr_updated r"
  by (simp add: credential_check_def split: if_splits)

lemma credential_row_ok:
  assumes "users_ok db" and "known_user db (kr_user r)" and "auth_credential_post_init k = Inr ()"
    and "kr_hash r = ak_hash k" and "credential_check r = None"
  shows "auth_credential_post_init (auth_credential_from_orm r) = Inr ()"
  using assms(3,4) known_nonempty [OF assms(1,2)] credential_check_dates [OF assms(5)]
  by (simp add: auth_credential_post_init_def auth_credential_from_orm_def split: if_splits)

lemma credential_add_ok:
  assumes ok: "access_ok db" and init: "auth_credential_post_init k = Inr ()" and run: "credential_add k db = Inr (x, db')"
  shows "access_ok db'"
proof -
  from run obtain w r where w: "row_for_email (ak_user k) db = Some w"
    and r: "r = auth_credential_to_orm k (ur_email w) None" and check: "credential_check r = None"
    and new: "ur_email w \<notin> kr_user ` set (ac_credentials db)"
    and db': "db' = db\<lparr>ac_credentials := ac_credentials db @ [r]\<rparr>" unfolding credential_add_effect by blast
  have k: "kr_user r = ur_email w" "kr_hash r = ak_hash k" by (simp_all add: r auth_credential_to_orm_def)
  have u: "known_user db (kr_user r)" using row_for_email_known [OF w] k by simp
  have "passwords_ok (db\<lparr>ac_credentials := ac_credentials db @ [r]\<rparr>)"
    using access_okD(3) [OF ok] new k(1) u credential_row_ok [OF access_okD(1) [OF ok] u init k(2) check]
    by (auto simp: passwords_ok_def)
  then show ?thesis unfolding db' by (rule access_ok_write(2) [OF ok])
qed

lemma credential_update_ok:
  assumes ok: "access_ok db" and init: "auth_credential_post_init k = Inr ()" and run: "credential_update k db = Inr (x, db')"
  shows "access_ok db'"
proof -
  from run obtain w old r where w: "row_for_email (ak_user k) db = Some w"
    and old: "find_row kr_user (ur_email w) (ac_credentials db) = Some old"
    and r: "r = auth_credential_to_orm k (ur_email w) (Some old)" and check: "credential_check r = None"
    and db': "db' = db\<lparr>ac_credentials := put_row kr_user r (ac_credentials db)\<rparr>"
    unfolding credential_update_effect by blast
  have k: "kr_user r = ur_email w" "kr_hash r = ak_hash k"
    using find_row_SomeD [OF old] by (simp_all add: r auth_credential_to_orm_def)
  have u: "known_user db (kr_user r)" using row_for_email_known [OF w] k by simp
  have "passwords_ok (db\<lparr>ac_credentials := put_row kr_user r (ac_credentials db)\<rparr>)"
    using access_okD(3) [OF ok] u credential_row_ok [OF access_okD(1) [OF ok] u init k(2) check]
    unfolding passwords_ok_def by (auto dest: set_put_rowD)
  then show ?thesis unfolding db' by (rule access_ok_write(2) [OF ok])
qed

section \<open>Sessions, roles and login transactions\<close>

lemma session_to_orm_cols:
  assumes "auth_session_to_orm s u = Inr r"
  shows "nr_user r = u" "nr_hash r = sn_hash s" "nr_issued r = sn_issued s" "nr_expires r = sn_expires s"
    "nr_revoked r = sn_revoked s" "sn_id s = Uid (nr_id r)"
  using assms by (auto simp: auth_session_to_orm_def split: option.splits prod.splits elim!: as_uuid.elims)

lemma session_row_ok:
  assumes "auth_session_to_orm s u = Inr r" and "nonempty u" and "auth_session_post_init s = Inr ()"
  shows "auth_session_post_init (auth_session_from_orm r) = Inr ()"
  using assms(2,3) session_to_orm_cols [OF assms(1)]
  by (auto simp: auth_session_post_init_def auth_session_from_orm_def split: if_splits option.splits)

lemma session_add_effect:
  "session_add s db = Inr (x, db') \<longleftrightarrow> (\<exists>w r. row_for_email (sn_user s) db = Some w
     \<and> auth_session_to_orm s (ur_email w) = Inr r \<and> session_check r = None
     \<and> (\<forall>k \<in> set (session_keys r (ac_sessions db)). \<not> snd k)
     \<and> db' = db\<lparr>ac_sessions := ac_sessions db @ [r]\<rparr>)"
  unfolding session_add_def by (auto simp: tx_simps)

lemma session_add_ok:
  assumes ok: "access_ok db" and init: "auth_session_post_init s = Inr ()" and run: "session_add s db = Inr (x, db')"
  shows "access_ok db'"
proof -
  from run obtain w r where w: "row_for_email (sn_user s) db = Some w" and r: "auth_session_to_orm s (ur_email w) = Inr r"
    and new: "\<forall>k \<in> set (session_keys r (ac_sessions db)). \<not> snd k"
    and db': "db' = db\<lparr>ac_sessions := ac_sessions db @ [r]\<rparr>" unfolding session_add_effect by blast
  have u: "known_user db (nr_user r)" using row_for_email_known [OF w] session_to_orm_cols(1) [OF r] by simp
  have "auth_session_post_init (auth_session_from_orm r) = Inr ()"
    by (rule session_row_ok [OF r known_nonempty [OF access_okD(1) [OF ok] row_for_email_known [OF w]] init])
  then have "sessions_ok (db\<lparr>ac_sessions := ac_sessions db @ [r]\<rparr>)"
    using access_okD(4) [OF ok] u new by (auto simp: sessions_ok_def session_keys_def)
  then show ?thesis unfolding db' by (rule access_ok_write(3) [OF ok])
qed

lemma session_revoke_effect:
  "session_revoke i t db = Inr (x, db') \<longleftrightarrow> (\<exists>n r. i = Uid n \<and> find_row nr_id n (ac_sessions db) = Some r
     \<and> db' = (if nr_revoked r \<noteq> None then db
         else db\<lparr>ac_sessions := put_row nr_id (r\<lparr>nr_revoked := Some t\<rparr>) (ac_sessions db)\<rparr>))"
  unfolding session_revoke_def Let_def
  by (cases i) (auto simp: tx_simps auth_sessions_freeze_def split: if_splits)

lemma sessions_ok_stamp:
  assumes ok: "sessions_ok db" and r: "find_row nr_id n (ac_sessions db) = Some r"
  shows "sessions_ok (db\<lparr>ac_sessions := put_row nr_id (r\<lparr>nr_revoked := Some t\<rparr>) (ac_sessions db)\<rparr>)"
proof -
  note mem = find_row_SomeD [OF r]
  have "map nr_hash (put_row nr_id (r\<lparr>nr_revoked := Some t\<rparr>) (ac_sessions db)) = map nr_hash (ac_sessions db)"
    by (rule map_put_row_same [where old = r]) (use ok mem in \<open>simp_all add: sessions_ok_def\<close>)
  moreover have "auth_session_post_init (auth_session_from_orm (r\<lparr>nr_revoked := Some t\<rparr>)) =
      auth_session_post_init (auth_session_from_orm r)"
    by (simp add: auth_session_post_init_def auth_session_from_orm_def)
  ultimately show ?thesis using ok mem unfolding sessions_ok_def by (auto dest!: set_put_rowD)
qed

lemma session_revoke_ok:
  assumes ok: "access_ok db" and run: "session_revoke i t db = Inr (x, db')"
  shows "access_ok db'"
  using run ok access_ok_write(3) [OF ok sessions_ok_stamp [OF access_okD(4) [OF ok]]]
  unfolding session_revoke_effect by (auto split: if_splits)

lemma role_grant_effect:
  "role_grant a db = Inr (x, db') \<longleftrightarrow> (\<exists>w. row_for_email (sy_user a) db = Some w
     \<and> (if (ur_email w, sy_role a) \<in> set (ac_roles db) then db' = db
        else sy_role a \<in> set valid_system_roles \<and> db' = db\<lparr>ac_roles := ac_roles db @ [(ur_email w, sy_role a)]\<rparr>))"
  unfolding role_grant_def by (auto simp: tx_simps split: if_splits)

lemma role_grant_ok:
  assumes ok: "access_ok db" and run: "role_grant a db = Inr (x, db')"
  shows "access_ok db'"
proof -
  from run obtain w where w: "row_for_email (sy_user a) db = Some w"
    and db': "if (ur_email w, sy_role a) \<in> set (ac_roles db) then db' = db
        else sy_role a \<in> set valid_system_roles \<and> db' = db\<lparr>ac_roles := ac_roles db @ [(ur_email w, sy_role a)]\<rparr>"
    unfolding role_grant_effect by blast
  show ?thesis
  proof (cases "(ur_email w, sy_role a) \<in> set (ac_roles db)")
    case False
    then have "roles_ok (db\<lparr>ac_roles := ac_roles db @ [(ur_email w, sy_role a)]\<rparr>)"
      using access_okD(5) [OF ok] row_for_email_known [OF w] db' by (auto simp: roles_ok_def)
    then show ?thesis using access_ok_write(4) [OF ok] False db' by simp
  qed (use ok db' in simp)
qed

lemma role_revoke_effect:
  "role_revoke email role db = Inr (x, db') \<longleftrightarrow> (case row_for_email email db of
       None \<Rightarrow> x = False \<and> db' = db
     | Some w \<Rightarrow> x = ((ur_email w, role) \<in> set (ac_roles db))
         \<and> db' = db\<lparr>ac_roles := filter (\<lambda>y. y \<noteq> (ur_email w, role)) (ac_roles db)\<rparr>)"
  unfolding role_revoke_def by (auto simp: tx_simps split: option.splits)

lemma role_revoke_ok:
  assumes ok: "access_ok db" and run: "role_revoke email role db = Inr (x, db')"
  shows "access_ok db'"
proof -
  have "roles_ok (db\<lparr>ac_roles := filter P (ac_roles db)\<rparr>)" for P
    using access_okD(5) [OF ok] by (auto simp: roles_ok_def)
  then show ?thesis using run ok access_ok_write(4) [OF ok] unfolding role_revoke_effect by (auto split: option.splits)
qed

lemma login_add_effect:
  "login_add t db = Inr (x, db') \<longleftrightarrow> login_check (oidc_login_transaction_to_orm t) = None
     \<and> lt_state t \<notin> gl_state ` set (ac_logins db)
     \<and> db' = db\<lparr>ac_logins := ac_logins db @ [oidc_login_transaction_to_orm t]\<rparr>"
  unfolding login_add_def Let_def by (auto simp: tx_simps oidc_login_transaction_to_orm_def)

lemma login_row_roundtrip [simp]: "oidc_login_transaction_from_orm (oidc_login_transaction_to_orm t) = t"
  by (simp add: oidc_login_transaction_from_orm_def oidc_login_transaction_to_orm_def)

lemma login_add_ok:
  assumes ok: "access_ok db" and init: "login_transaction_post_init t = Inr ()" and run: "login_add t db = Inr (x, db')"
  shows "access_ok db'"
proof -
  have "gl_state (oidc_login_transaction_to_orm t) = lt_state t" by (simp add: oidc_login_transaction_to_orm_def)
  then have "logins_ok (db\<lparr>ac_logins := ac_logins db @ [oidc_login_transaction_to_orm t]\<rparr>)"
    using access_okD(6) [OF ok] init run unfolding login_add_effect by (auto simp: logins_ok_def)
  then show ?thesis using run access_ok_write(5) [OF ok] unfolding login_add_effect by simp
qed

lemma login_filter_ok: "access_ok db \<Longrightarrow> access_ok (db\<lparr>ac_logins := filter P (ac_logins db)\<rparr>)"
  by (rule access_ok_write(5)) (auto simp: access_ok_def logins_ok_def distinct_map_filter)

lemma login_consume_effect:
  "login_consume h now db = Inr (x, db') \<longleftrightarrow> (case find_row gl_state h (ac_logins db) of
       None \<Rightarrow> x = None \<and> db' = db
     | Some r \<Rightarrow> login_transaction_post_init (oidc_login_transaction_from_orm r) = Inr ()
         \<and> x = (if now < gl_expires r then Some (oidc_login_transaction_from_orm r) else None)
         \<and> db' = db\<lparr>ac_logins := filter (\<lambda>y. gl_state y \<noteq> h) (ac_logins db)\<rparr>)"
  unfolding login_consume_def
  by (auto simp: tx_simps login_is_live_def oidc_login_transaction_from_orm_def split: option.splits)

lemma login_moves_keep:
  "tx_keeps access_ok (login_consume h now)" "tx_keeps access_ok (login_prune_expired now)"
  by (auto simp: tx_keeps_def login_consume_effect login_prune_expired_def tx_simps login_filter_ok split: option.splits)

section \<open>Workers\<close>

lemma worker_named_iff [tx_simps]:
  "worker_named name db = Inr r \<longleftrightarrow> (\<exists>w. find_row wo_name name (ac_workers db) = Some w \<and> r = (w, db))"
  unfolding worker_named_def by (auto simp: tx_simps)

lemma flush_worker_effect:
  "flush_worker old new db = Inr (x, db') \<longleftrightarrow> workers_revoked_terminal old new \<and> int_column (wo_capacity new)
     \<and> worker_check new = None \<and> db' = db\<lparr>ac_workers := put_row wo_name new (ac_workers db)\<rparr>"
  unfolding flush_worker_def by (auto simp: tx_simps)

lemma worker_add_effect:
  "worker_add w db = Inr (x, db') \<longleftrightarrow> (\<exists>r. worker_to_orm w None = Inr r \<and> int_column (wo_capacity r)
     \<and> worker_check r = None \<and> wo_name r \<notin> wo_name ` set (ac_workers db)
     \<and> db' = db\<lparr>ac_workers := ac_workers db @ [r]\<rparr>)"
  unfolding worker_add_def by (auto simp: tx_simps)

lemma worker_add_ok:
  assumes ok: "access_ok db" and init: "worker_post_init w = Inr ()" and run: "worker_add w db = Inr (x, db')"
  shows "access_ok db'"
proof -
  from run obtain r where r: "worker_to_orm w None = Inr r" and new: "wo_name r \<notin> wo_name ` set (ac_workers db)"
    and db': "db' = db\<lparr>ac_workers := ac_workers db @ [r]\<rparr>" unfolding worker_add_effect by blast
  have "worker_from_orm r = w"
    using r by (auto simp: worker_to_orm_def worker_from_orm_def fresh_worker_def split: if_splits)
  then have "registry_ok (db\<lparr>ac_workers := ac_workers db @ [r]\<rparr>)"
    using access_okD(7) [OF ok] new init by (auto simp: registry_ok_def)
  moreover have "worker_credentials_ok (db\<lparr>ac_workers := ac_workers db @ [r]\<rparr>)"
    using access_okD(8) [OF ok] unfolding worker_credentials_ok_def trusted_name_def by auto
  ultimately show ?thesis unfolding db' by (rule access_ok_write(7) [OF ok])
qed

text \<open>An update of a worker's row that keeps its name and its trust, or makes it trusted.\<close>

lemma worker_row_ok:
  assumes ok: "access_ok db" and old: "find_row wo_name name (ac_workers db) = Some old"
    and k: "wo_name new = wo_name old" and trust: "wo_trust new = wo_trust old \<or> wo_trust new = Trusted"
    and init: "worker_post_init (worker_from_orm new) = Inr ()"
  shows "access_ok (db\<lparr>ac_workers := put_row wo_name new (ac_workers db)\<rparr>)"
proof (rule access_ok_write(7) [OF ok])
  let ?ws = "put_row wo_name new (ac_workers db)"
  note mem = find_row_SomeD [OF old]
  show "registry_ok (db\<lparr>ac_workers := ?ws\<rparr>)"
    using access_okD(7) [OF ok] init by (auto simp: registry_ok_def dest: set_put_rowD)
  have names: "wo_name ` set ?ws = wo_name ` set (ac_workers db)"
    by (metis list.set_map map_key_put_row)
  have "trusted_name (db\<lparr>ac_workers := ?ws\<rparr>) w" if "trusted_name db w" for w
  proof -
    obtain x where x: "x \<in> set (ac_workers db)" "wo_name x = w" "wo_trust x = Trusted"
      using \<open>trusted_name db w\<close> by (auto simp: trusted_name_def)
    let ?y = "if wo_name x = wo_name new then new else x"
    have "?y \<in> set ?ws" using x(1) by (auto simp: put_row_def)
    moreover have "wo_trust ?y = Trusted"
      using x trust k mem unique_row [OF _ x(1), of wo_name old] access_okD(7) [OF ok] by (auto simp: registry_ok_def)
    ultimately show ?thesis using x(2) by (auto simp: trusted_name_def split: if_splits)
  qed
  then show "worker_credentials_ok (db\<lparr>ac_workers := ?ws\<rparr>)"
    using access_okD(8) [OF ok] names unfolding worker_credentials_ok_def by simp
qed

section \<open>Worker credentials\<close>

lemma worker_credential_add_effect:
  "worker_credential_add k db = Inr (x, db') \<longleftrightarrow> (\<exists>n r. wt_id k = Uid n \<and> wt_worker k \<in> wo_name ` set (ac_workers db)
     \<and> worker_credential_to_orm k (wt_worker k) = Inr r \<and> worker_credential_check r = None
     \<and> (\<forall>b \<in> set (worker_credential_keys r (ac_worker_credentials db)). \<not> snd b)
     \<and> db' = db\<lparr>ac_worker_credentials := ac_worker_credentials db @ [r]\<rparr>)"
  unfolding worker_credential_add_def
  by (auto simp: tx_simps worker_credential_to_orm_def split: option.splits elim!: as_uuid.elims)

lemma worker_credential_cols:
  assumes "worker_credential_to_orm k w = Inr r"
  shows "wt_id k = Uid (tc_id r)" "tc_worker r = w" "tc_hash r = wt_hash k" "set (tc_scopes r) = set (wt_scopes k)"
    "tc_issued r = wt_issued k" "tc_expires r = wt_expires k" "tc_revoked r = wt_revoked k"
  using assms by (auto simp: worker_credential_to_orm_def split: option.splits elim!: as_uuid.elims)

lemma worker_credential_row_ok:
  assumes "worker_credential_to_orm k (wt_worker k) = Inr r" and "worker_credential_post_init k = Inr ()"
  shows "worker_credential_post_init (worker_credential_from_orm r) = Inr ()"
proof -
  note c = worker_credential_cols [OF assms(1)]
  have "wt_scopes k \<noteq> []" using assms(2) by (simp add: worker_credential_post_init_def split: if_splits)
  then have "tc_scopes r \<noteq> []" using c(4) by auto
  then show ?thesis
    using assms(2) c by (auto simp: worker_credential_post_init_def worker_credential_from_orm_def split: if_splits)
qed

lemma worker_credential_add_ok:
  assumes ok: "access_ok db" and init: "worker_credential_post_init k = Inr ()" and live: "wt_revoked k = None"
    and trusted: "trusted_name db (wt_worker k)" and run: "worker_credential_add k db = Inr (x, db')"
  shows "access_ok db'"
proof -
  from run obtain r where r: "worker_credential_to_orm k (wt_worker k) = Inr r"
    and w: "wt_worker k \<in> wo_name ` set (ac_workers db)"
    and new: "\<forall>b \<in> set (worker_credential_keys r (ac_worker_credentials db)). \<not> snd b"
    and db': "db' = db\<lparr>ac_worker_credentials := ac_worker_credentials db @ [r]\<rparr>"
    unfolding worker_credential_add_effect by blast
  note c = worker_credential_cols [OF r]
  have "tc_worker r \<notin> tc_worker ` set (live_credentials db)"
    using new live c(7) by (auto simp: worker_credential_keys_def live_credentials_def)
  then have "worker_credentials_ok db'"
    using access_okD(8) [OF ok] new w trusted c(2,7) live worker_credential_row_ok [OF r init] unfolding db'
    by (auto simp: worker_credentials_ok_def live_credentials_def worker_credential_keys_def)
  then show ?thesis unfolding db' by (rule access_ok_write(6) [OF ok])
qed

lemma worker_credential_revoke_effect:
  "worker_credential_revoke i t db = Inr (x, db') \<longleftrightarrow> (\<exists>n r. i = Uid n \<and> find_row tc_id n (ac_worker_credentials db) = Some r
     \<and> tc_revoked r = None
     \<and> db' = db\<lparr>ac_worker_credentials := put_row tc_id (r\<lparr>tc_revoked := Some t\<rparr>) (ac_worker_credentials db)\<rparr>)"
  unfolding worker_credential_revoke_def Let_def
  by (cases i) (auto simp: tx_simps worker_credentials_freeze_def)

text \<open>Once a worker's live credential is stamped, the worker has none.\<close>

lemma live_after_revoke:
  "filter (\<lambda>x. tc_revoked x = None) (put_row tc_id (r\<lparr>tc_revoked := Some t\<rparr>) rows) =
     filter (\<lambda>x. tc_revoked x = None \<and> tc_id x \<noteq> tc_id r) rows"
  by (induction rows) (simp_all add: put_row_def)

lemma worker_credential_revoke_ok:
  assumes ok: "worker_credentials_ok db" and r: "find_row tc_id n (ac_worker_credentials db) = Some r"
  shows "worker_credentials_ok
    (db\<lparr>ac_worker_credentials := put_row tc_id (r\<lparr>tc_revoked := Some t\<rparr>) (ac_worker_credentials db)\<rparr>)" (is "worker_credentials_ok ?new")
proof -
  note mem = find_row_SomeD [OF r]
  have "live_credentials ?new = filter (\<lambda>x. tc_id x \<noteq> n) (live_credentials db)"
    using live_after_revoke [where r = r and t = t] mem by (simp add: live_credentials_def conj_commute)
  moreover have "worker_credential_post_init (worker_credential_from_orm (r\<lparr>tc_revoked := Some t\<rparr>)) =
      worker_credential_post_init (worker_credential_from_orm r)"
    by (simp add: worker_credential_post_init_def worker_credential_from_orm_def)
  ultimately show ?thesis using ok mem unfolding worker_credentials_ok_def
    by (auto simp: distinct_map_filter dest!: set_put_rowD)
qed

lemma active_for_worker_iff:
  "active_for_worker name db = Inr (x, db') \<longleftrightarrow> name \<in> wo_name ` set (ac_workers db) \<and> db' = db
     \<and> (case filter (\<lambda>r. tc_worker r = name) (live_credentials db) of
          [] \<Rightarrow> x = None
        | [r] \<Rightarrow> worker_credential_post_init (worker_credential_from_orm r) = Inr ()
            \<and> x = Some (worker_credential_from_orm r)
        | _ \<Rightarrow> False)"
  unfolding active_for_worker_def live_credentials_def read_worker_credential_def
  by (auto simp: tx_simps conj_commute split: list.splits)

text \<open>What \<open>revoke_active\<close> leaves: the same credentials, the worker's own no longer live.\<close>

lemma revoke_active_effect:
  assumes d: "distinct (map tc_id (ac_worker_credentials db))" and run: "revoke_active name now db = Inr (x, db')"
  shows "\<exists>rows. db' = db\<lparr>ac_worker_credentials := rows\<rparr>
     \<and> filter (\<lambda>r. tc_revoked r = None) rows = filter (\<lambda>r. tc_worker r \<noteq> name) (live_credentials db)
     \<and> (rows = ac_worker_credentials db \<or> (\<exists>n r. find_row tc_id n (ac_worker_credentials db) = Some r
          \<and> rows = put_row tc_id (r\<lparr>tc_revoked := Some now\<rparr>) (ac_worker_credentials db)))"
proof -
  let ?live = "live_credentials db"
  from run obtain found where found: "active_for_worker name db = Inr (found, db)"
    and rest: "(case found of None \<Rightarrow> tx_ret () | Some c \<Rightarrow> worker_credential_revoke (wt_id c) now) db = Inr (x, db')"
    unfolding revoke_active_def by (auto simp: tx_bind_iff active_for_worker_iff)
  show ?thesis
  proof (cases found)
    case None
    then have "filter (\<lambda>r. tc_worker r = name) ?live = []"
      using found by (auto simp: active_for_worker_iff split: list.splits)
    then have "filter (\<lambda>r. tc_worker r \<noteq> name) ?live = ?live" by (simp add: filter_empty_conv)
    moreover have "db' = db" using rest None by (simp add: tx_simps)
    ultimately show ?thesis by (intro exI [of _ "ac_worker_credentials db"]) (simp add: live_credentials_def)
  next
    case (Some c)
    obtain r where one: "filter (\<lambda>r. tc_worker r = name) ?live = [r]" and c: "c = worker_credential_from_orm r"
      using found Some by (auto simp: active_for_worker_iff split: list.splits)
    have r: "r \<in> set ?live" "tc_worker r = name" using one [THEN arg_cong [where f = set]] by auto
    have find: "find_row tc_id (tc_id r) (ac_worker_credentials db) = Some r"
      using r(1) d by (simp add: find_row_eq_Some_iff live_credentials_def)
    then have db': "db' = db\<lparr>ac_worker_credentials := put_row tc_id (r\<lparr>tc_revoked := Some now\<rparr>) (ac_worker_credentials db)\<rparr>"
      using rest Some c by (simp add: worker_credential_revoke_effect worker_credential_from_orm_def)
    have "tc_worker x = name \<longleftrightarrow> tc_id x = tc_id r" if x: "x \<in> set ?live" for x
    proof
      assume "tc_worker x = name"
      then have "x \<in> set (filter (\<lambda>r. tc_worker r = name) ?live)" using x by simp
      then show "tc_id x = tc_id r" by (simp add: one)
    next
      assume "tc_id x = tc_id r"
      then have "x = r" using x r(1) unique_row [OF d, of x r] by (simp add: live_credentials_def)
      then show "tc_worker x = name" by (simp add: r(2))
    qed
    then have "filter (\<lambda>x. tc_id x \<noteq> tc_id r) ?live = filter (\<lambda>x. tc_worker x \<noteq> name) ?live"
      by (intro filter_cong) auto
    then have "filter (\<lambda>x. tc_revoked x = None) (put_row tc_id (r\<lparr>tc_revoked := Some now\<rparr>) (ac_worker_credentials db))
        = filter (\<lambda>x. tc_worker x \<noteq> name) ?live"
      using live_after_revoke [where r = r and t = now] by (simp add: live_credentials_def conj_commute)
    then show ?thesis using db' find by blast
  qed
qed

lemma revoke_active_ok:
  assumes ok: "access_ok db" and run: "revoke_active name now db = Inr (x, db')"
  shows "access_ok db'"
proof -
  have d: "distinct (map tc_id (ac_worker_credentials db))"
    using access_okD(8) [OF ok] by (simp add: worker_credentials_ok_def)
  from revoke_active_effect [OF d run] obtain rows where db': "db' = db\<lparr>ac_worker_credentials := rows\<rparr>"
    and rows: "rows = ac_worker_credentials db \<or> (\<exists>n r. find_row tc_id n (ac_worker_credentials db) = Some r
          \<and> rows = put_row tc_id (r\<lparr>tc_revoked := Some now\<rparr>) (ac_worker_credentials db))" by blast
  from rows have "worker_credentials_ok (db\<lparr>ac_worker_credentials := rows\<rparr>)"
    using worker_credential_revoke_ok [OF access_okD(8) [OF ok]] access_okD(8) [OF ok] by auto
  then show ?thesis unfolding db' by (rule access_ok_write(6) [OF ok])
qed

end
