(* ===== verification/Permissions.thy ===== *)
theory Permissions
  imports Access_Service "HOL-Library.AList"
begin

text \<open>
  The authorization policy of \<open>interfaces/api/deps.py\<close>, the bearer authenticators
  (\<open>db_authenticator.py\<close>, the stub of \<open>deps.py\<close>) and the one handler that writes roles,
  \<open>assign_member\<close> of \<open>routers/members.py\<close>. A frozenset is a set, given by its elements; a dict is an
  association list without repeated keys.
\<close>

section \<open>Permissions and roles\<close>

datatype permission =
    COMPETITION_READ | COMPETITION_WRITE | TEAM_READ | TEAM_WRITE
  | CHALLENGE_READ | CHALLENGE_WRITE | CHALLENGE_PUBLISH | USER_READ | USER_WRITE | MEMBERSHIP_WRITE
  | SUBMISSION_CREATE | SUBMISSION_READ | SCOREBOARD_READ | SCOREBOARD_LAG_READ
  | INSTANCE_READ | INSTANCE_OPERATE | BUILD_READ | BUILD_CREATE | EVAL_READ | EVAL_RUN
  | PUBLICATION_READ | PUBLICATION_WRITE | JOB_READ | JOB_OPERATE | AUDIT_READ | METRICS_READ

datatype permission_scope = SYSTEM | AUTHORING | COMPETITION

fun permission_scope_of :: "permission \<Rightarrow> permission_scope" where
  "permission_scope_of USER_READ = SYSTEM"
| "permission_scope_of USER_WRITE = SYSTEM"
| "permission_scope_of JOB_READ = SYSTEM"
| "permission_scope_of JOB_OPERATE = SYSTEM"
| "permission_scope_of AUDIT_READ = SYSTEM"
| "permission_scope_of METRICS_READ = SYSTEM"
| "permission_scope_of CHALLENGE_READ = AUTHORING"
| "permission_scope_of CHALLENGE_WRITE = AUTHORING"
| "permission_scope_of CHALLENGE_PUBLISH = AUTHORING"
| "permission_scope_of BUILD_READ = AUTHORING"
| "permission_scope_of BUILD_CREATE = AUTHORING"
| "permission_scope_of EVAL_READ = AUTHORING"
| "permission_scope_of EVAL_RUN = AUTHORING"
| "permission_scope_of COMPETITION_READ = COMPETITION"
| "permission_scope_of COMPETITION_WRITE = COMPETITION"
| "permission_scope_of TEAM_READ = COMPETITION"
| "permission_scope_of TEAM_WRITE = COMPETITION"
| "permission_scope_of MEMBERSHIP_WRITE = COMPETITION"
| "permission_scope_of SUBMISSION_CREATE = COMPETITION"
| "permission_scope_of SUBMISSION_READ = COMPETITION"
| "permission_scope_of SCOREBOARD_READ = COMPETITION"
| "permission_scope_of SCOREBOARD_LAG_READ = COMPETITION"
| "permission_scope_of PUBLICATION_READ = COMPETITION"
| "permission_scope_of PUBLICATION_WRITE = COMPETITION"
| "permission_scope_of INSTANCE_READ = COMPETITION"
| "permission_scope_of INSTANCE_OPERATE = COMPETITION"

definition catalog_read :: "permission set" where
  "catalog_read = {COMPETITION_READ, TEAM_READ, CHALLENGE_READ}"

definition contestant_permissions :: "permission set" where
  "contestant_permissions = catalog_read \<union> {SCOREBOARD_READ, SUBMISSION_CREATE, SUBMISSION_READ}"

definition organizer_permissions :: "permission set" where
  "organizer_permissions =
     {COMPETITION_READ, COMPETITION_WRITE, TEAM_READ, TEAM_WRITE, MEMBERSHIP_WRITE, CHALLENGE_READ,
      USER_READ, USER_WRITE, SUBMISSION_READ, SCOREBOARD_READ, SCOREBOARD_LAG_READ,
      INSTANCE_READ, INSTANCE_OPERATE, BUILD_READ, BUILD_CREATE, EVAL_READ, EVAL_RUN,
      PUBLICATION_READ, PUBLICATION_WRITE}"

definition author_permissions :: "permission set" where
  "author_permissions = {COMPETITION_READ, CHALLENGE_READ, CHALLENGE_WRITE, CHALLENGE_PUBLISH, SCOREBOARD_READ,
     BUILD_READ, BUILD_CREATE, EVAL_READ, EVAL_RUN}"

definition support_permissions :: "permission set" where
  "support_permissions = catalog_read \<union> {SCOREBOARD_READ, SCOREBOARD_LAG_READ, INSTANCE_READ, BUILD_READ,
     JOB_READ, JOB_OPERATE, AUDIT_READ, METRICS_READ}"

text \<open>\<open>ROLE_PERMISSIONS.get(role, frozenset())\<close>.\<close>

definition role_permissions :: "string \<Rightarrow> permission set" where
  "role_permissions role =
     (if role = ''admin'' then UNIV
      else if role = ''organizer'' then organizer_permissions
      else if role = ''author'' then author_permissions
      else if role = ''captain'' \<or> role = ''player'' then contestant_permissions
      else if role = ''judge'' then catalog_read \<union> {SUBMISSION_READ, SCOREBOARD_READ}
      else if role = ''observer'' then catalog_read \<union> {SCOREBOARD_READ}
      else if role = ''support'' then support_permissions
      else {})"

definition tenancy_unrestricted_roles :: "string set" where
  "tenancy_unrestricted_roles = {''admin'', ''organizer'', ''judge'', ''support'', ''observer'', ''author''}"

definition resolve_permissions :: "string list \<Rightarrow> permission set" where
  "resolve_permissions roles = (\<Union>role \<in> set roles. role_permissions role)"

section \<open>Principals\<close>

type_synonym membership_map = "(string \<times> (string \<times> string option)) list"

text \<open>\<open>org\<close> is not kept: no caller passes one.\<close>

record principal =
  pp_subject :: string
  pp_roles :: "string list"
  pp_permissions :: "permission set"
  pp_team :: "string option"
  pp_system_roles :: "string list"
  pp_memberships :: membership_map

definition has_permission :: "principal \<Rightarrow> permission \<Rightarrow> bool" where
  "has_permission p perm \<longleftrightarrow> perm \<in> pp_permissions p"

definition principal_for :: "string \<Rightarrow> string list \<Rightarrow> string option \<Rightarrow> string list \<Rightarrow> membership_map \<Rightarrow> principal" where
  "principal_for subject roles team system_roles memberships = \<lparr>pp_subject = subject, pp_roles = roles,
     pp_permissions = resolve_permissions roles, pp_team = team, pp_system_roles = system_roles,
     pp_memberships = memberships\<rparr>"

definition competition_effective_roles :: "principal \<Rightarrow> string \<Rightarrow> string list" where
  "competition_effective_roles p c = pp_system_roles p
     @ (case map_of (pp_memberships p) c of None \<Rightarrow> [] | Some (role, _) \<Rightarrow> [role])"

definition competition_permissions :: "principal \<Rightarrow> string \<Rightarrow> permission set" where
  "competition_permissions p c = resolve_permissions (competition_effective_roles p c)"

definition assert_competition_permission :: "principal \<Rightarrow> string option \<Rightarrow> permission \<Rightarrow> exn + unit" where
  "assert_competition_permission p competition perm = (case competition of
       None \<Rightarrow> Inl AuthorizationError
     | Some c \<Rightarrow> if c = [] then Inl AuthorizationError
         else if perm \<notin> competition_permissions p c then Inl AuthorizationError else Inr ())"

definition assert_competition_permission_or_404 :: "principal \<Rightarrow> string option \<Rightarrow> permission \<Rightarrow> exn + unit" where
  "assert_competition_permission_or_404 p competition perm = (case assert_competition_permission p competition perm of
       Inl e \<Rightarrow> if e = AuthorizationError then Inl LookupError else Inl e | Inr u \<Rightarrow> Inr u)"

text \<open>\<open>None\<close> stands for every competition.\<close>

definition authorized_competitions :: "principal \<Rightarrow> permission \<Rightarrow> string list option" where
  "authorized_competitions p perm = (if perm \<in> resolve_permissions (pp_system_roles p) then None
     else Some (map fst (filter (\<lambda>(c, role, team). perm \<in> role_permissions role) (pp_memberships p))))"

record submission_access =
  sa_unrestricted :: bool
  sa_team :: "string option"

definition submission_team_scope :: "principal \<Rightarrow> string \<Rightarrow> submission_access" where
  "submission_team_scope p c =
     (if \<exists>role \<in> set (competition_effective_roles p c). role \<in> tenancy_unrestricted_roles
      then \<lparr>sa_unrestricted = True, sa_team = None\<rparr>
      else \<lparr>sa_unrestricted = False,
        sa_team = (case map_of (pp_memberships p) c of None \<Rightarrow> None | Some (_, team) \<Rightarrow> team)\<rparr>)"

section \<open>Authentication of a request\<close>

text \<open>\<open>StubAuthenticator\<close> over its table of tokens.\<close>

definition stub_authenticate :: "(string \<times> principal) list \<Rightarrow> string option \<Rightarrow> exn + principal" where
  "stub_authenticate tokens token = (case token of None \<Rightarrow> Inl AuthenticationError
     | Some t \<Rightarrow> if t = [] then Inl AuthenticationError
         else (case map_of tokens t of None \<Rightarrow> Inl AuthenticationError | Some p \<Rightarrow> Inr p))"

definition bearer_token :: "string option \<Rightarrow> string option" where
  "bearer_token header = (case header of None \<Rightarrow> None
     | Some h \<Rightarrow> if h = [] then None
         else (case py_partition (CHR '' '') h of (scheme, _, val) \<Rightarrow>
           if lower_text scheme \<noteq> ''bearer'' \<or> py_strip val = [] then None else Some (py_strip val)))"

text \<open>\<open>{cid: (role, team) for ...}\<close>: a later entry of the same key overwrites an earlier one.\<close>

definition membership_dict :: "(string \<times> string \<times> string option) list \<Rightarrow> membership_map" where
  "membership_dict ms = fold (\<lambda>(c, role, team). AList.update c (role, team)) ms []"

text \<open>\<open>sorted(memberships)\<close>: a user has one membership per competition, so the competition decides.\<close>

definition best_effort_team :: "(string \<times> string \<times> string option) list \<Rightarrow> string option" where
  "best_effort_team ms = (case filter (\<lambda>(c, role, team). team \<noteq> None) (sort_key fst ms) of
       [] \<Rightarrow> None | (_, _, team) # _ \<Rightarrow> team)"

definition db_authenticate :: "string option \<Rightarrow> instant \<Rightarrow> (accessdb, principal) svc" where
  "db_authenticate token now = svc_bind
     (svc_catch (resolve token now)
        (\<lambda>e. if e = InvalidCredentialsError then svc_raise AuthenticationError else svc_raise e))
     (\<lambda>r. svc_ret (principal_for (rp_subject r)
        (remdups (rp_roles r @ map (\<lambda>(_, role, _). role) (rp_memberships r)))
        (best_effort_team (rp_memberships r)) (rp_roles r) (membership_dict (rp_memberships r))))"

section \<open>The dependencies of a route\<close>

text \<open>\<open>get_principal\<close> reads the header; the checks below are the bodies of the dependency factories.\<close>

definition get_principal :: "string option \<Rightarrow> instant \<Rightarrow> (accessdb, principal) svc" where
  "get_principal header now = db_authenticate (bearer_token header) now"

definition require_permission :: "permission \<Rightarrow> principal \<Rightarrow> exn + principal" where
  "require_permission perm p = (if has_permission p perm then Inr p else Inl AuthorizationError)"

definition require_competition_permission :: "permission \<Rightarrow> string option \<Rightarrow> principal \<Rightarrow> exn + principal" where
  "require_competition_permission perm competition p = (case assert_competition_permission p competition perm of
       Inl e \<Rightarrow> Inl e | Inr _ \<Rightarrow> Inr p)"

definition require_any_competition_permission :: "permission \<Rightarrow> principal \<Rightarrow> exn + principal" where
  "require_any_competition_permission perm p =
     (if authorized_competitions p perm = Some [] then Inl AuthorizationError else Inr p)"

datatype version_report_type = VALIDATION | BUILD | EVAL

fun version_report_permission :: "version_report_type \<Rightarrow> permission" where
  "version_report_permission VALIDATION = BUILD_READ"
| "version_report_permission BUILD = BUILD_READ"
| "version_report_permission EVAL = EVAL_READ"

definition require_version_report_permission :: "version_report_type \<Rightarrow> principal \<Rightarrow> exn + principal" where
  "require_version_report_permission t p =
     (if has_permission p (version_report_permission t) then Inr p else Inl AuthorizationError)"

text \<open>
  \<open>PUT /competitions/{competition_id}/members/{email}\<close> as far as the stored membership. The request
  schema bounds both texts below by one character.
\<close>

definition assign_member :: "string option \<Rightarrow> instant \<Rightarrow> string \<Rightarrow> string \<Rightarrow> string \<Rightarrow> string option \<Rightarrow>
    (accessdb, membership) svc" where
  "assign_member header now c email role team = svc_bind (get_principal header now) (\<lambda>p.
     case assert_competition_permission p (Some c) MEMBERSHIP_WRITE of Inl e \<Rightarrow> svc_raise e
     | Inr _ \<Rightarrow> assign_membership c email role team)"

end
