(* ===== verification/Access_Runs.thy ===== *)
theory Access_Runs
  imports Access_Inv Authoring_Runs Permissions
begin

text \<open>
  The calls of the identity, authentication, login and enrolment services as one transition system: every
  call, whether it returns or raises, keeps the invariant, and what it may not undo stays done (a revoked
  session, a revoked worker, a registered user).
\<close>

section \<open>What only grows\<close>

definition grown :: "accessdb \<Rightarrow> accessdb \<Rightarrow> bool" where
  "grown db db' \<longleftrightarrow> (\<forall>u. known_user db u \<longrightarrow> known_user db' u)
     \<and> (\<forall>r \<in> set (ac_sessions db). nr_revoked r \<noteq> None \<longrightarrow> r \<in> set (ac_sessions db'))
     \<and> (\<forall>w \<in> set (ac_workers db). wo_trust w = TrustRevoked \<longrightarrow>
          (\<exists>w' \<in> set (ac_workers db'). wo_name w' = wo_name w \<and> wo_trust w' = TrustRevoked))"

lemma grown_refl [simp]: "grown db db"
  by (auto simp: grown_def)

lemma grown_trans: "grown a b \<Longrightarrow> grown b c \<Longrightarrow> grown a c"
  unfolding grown_def by metis

lemma grown_updates [simp]:
  "grown db (db\<lparr>ac_memberships := ms\<rparr>)" "grown db (db\<lparr>ac_credentials := ks\<rparr>)" "grown db (db\<lparr>ac_roles := rs\<rparr>)"
  "grown db (db\<lparr>ac_logins := ls\<rparr>)" "grown db (db\<lparr>ac_worker_credentials := cs\<rparr>)"
  "grown db (db\<lparr>ac_users := ac_users db @ us\<rparr>)" "grown db (db\<lparr>ac_sessions := ac_sessions db @ ns\<rparr>)"
  "grown db (db\<lparr>ac_workers := ac_workers db @ ws\<rparr>)"
  by (auto simp: grown_def known_user_def)

lemma grown_stamp:
  assumes ok: "sessions_ok db" and r: "find_row nr_id n (ac_sessions db) = Some r" and fresh: "nr_revoked r = None"
  shows "grown db (db\<lparr>ac_sessions := put_row nr_id (r\<lparr>nr_revoked := Some t\<rparr>) (ac_sessions db)\<rparr>)"
proof -
  note mem = find_row_SomeD [OF r]
  have "x \<in> set (put_row nr_id (r\<lparr>nr_revoked := Some t\<rparr>) (ac_sessions db))"
    if x: "x \<in> set (ac_sessions db)" "nr_revoked x \<noteq> None" for x
  proof -
    have "nr_id x \<noteq> nr_id r" using unique_row [of nr_id "ac_sessions db" x r] ok x mem fresh by (auto simp: sessions_ok_def)
    then show ?thesis using x(1) by (force simp: put_row_def)
  qed
  then show ?thesis by (auto simp: grown_def known_user_def)
qed

lemma grown_worker:
  assumes ok: "registry_ok db" and old: "find_row wo_name name (ac_workers db) = Some old"
    and k: "wo_name new = wo_name old" and final: "workers_revoked_terminal old new"
  shows "grown db (db\<lparr>ac_workers := put_row wo_name new (ac_workers db)\<rparr>)"
proof -
  note mem = find_row_SomeD [OF old]
  have "\<exists>w' \<in> set (put_row wo_name new (ac_workers db)). wo_name w' = wo_name w \<and> wo_trust w' = TrustRevoked"
    if w: "w \<in> set (ac_workers db)" "wo_trust w = TrustRevoked" for w
  proof (cases "wo_name w = wo_name old")
    case True
    then have "w = old" using unique_row [of wo_name "ac_workers db" w old] ok w mem by (simp add: registry_ok_def)
    moreover have "new \<in> set (put_row wo_name new (ac_workers db))" using mem k by (force simp: put_row_def)
    ultimately show ?thesis using w(2) final k by (auto simp: workers_revoked_terminal_def)
  next
    case False
    then have "w \<in> set (put_row wo_name new (ac_workers db))" using w(1) k by (force simp: put_row_def)
    then show ?thesis using w(2) by blast
  qed
  then show ?thesis by (simp add: grown_def known_user_def)
qed

section \<open>Units of work that keep it\<close>

text \<open>The invariant, and nothing undone since \<open>old\<close>.\<close>

definition steady :: "accessdb \<Rightarrow> accessdb \<Rightarrow> bool" where
  "steady old db \<longleftrightarrow> access_ok db \<and> grown old db"

lemma steadyI:
  assumes "\<And>db x db'. access_ok db \<Longrightarrow> m db = Inr (x, db') \<Longrightarrow> access_ok db'"
    and "\<And>db x db'. access_ok db \<Longrightarrow> m db = Inr (x, db') \<Longrightarrow> grown db db'"
  shows "tx_keeps (steady old) m"
  unfolding steady_def using assms grown_trans by (fast intro: tx_keepsI)

lemma keeps_construct:
  assumes "post x = Inr () \<Longrightarrow> tx_keeps P (f x)"
  shows "tx_keeps P (tx_bind (construct post x) f)"
proof (rule tx_keepsI)
  fix s r s' assume "P s" "tx_bind (construct post x) f s = Inr (r, s')"
  then show "P s'" using tx_keepsD [OF assms] by (auto simp: tx_simps)
qed

lemma keeps_pick [keeps_intro]:
  "tx_keeps P m \<Longrightarrow> tx_keeps P n \<Longrightarrow> tx_keeps P (if b then m else n)"
  "tx_keeps P m \<Longrightarrow> (\<And>v. tx_keeps P (f v)) \<Longrightarrow> tx_keeps P (case x of None \<Rightarrow> m | Some v \<Rightarrow> f v)"
  "tx_keeps P (tx_sum y)"
  by (simp, cases x, simp_all add: tx_sum_def tx_keeps_pure split: sum.split)

lemma user_id_keeps [keeps_intro]: "tx_keeps P (user_id email)"
  by (auto simp: tx_keeps_def tx_simps)

lemma or_missing_keeps [keeps_intro]: "tx_keeps P m \<Longrightarrow> tx_keeps P (or_missing x m)"
  unfolding or_missing_def by (intro keeps_intro)

lemma read_row_keeps [keeps_intro]:
  "tx_keeps P (read_session s)" "tx_keeps P (read_worker_credential k)" "tx_keeps P (user_get email)"
  "tx_keeps P (membership_get email c)" "tx_keeps P (worker_get name)"
  unfolding read_session_def read_worker_credential_def user_get_def membership_get_def worker_get_def
  by (intro keeps_intro)+

lemma read_keeps [keeps_intro]:
  "tx_keeps P user_list" "tx_keeps P (membership_list_for_competition c)" "tx_keeps P (membership_list_for_user email)"
  "tx_keeps P (credential_get email)" "tx_keeps P (session_get_by_token_hash h)"
  "tx_keeps P (role_list_for_user email)" "tx_keeps P (trusted_worker name)" "tx_keeps P (worker_credential_get i)"
  unfolding user_list_def membership_list_for_competition_def
    membership_list_for_user_def credential_get_def session_get_by_token_hash_def role_list_for_user_def
    trusted_worker_def worker_credential_get_def
  by (intro keeps_intro)+

lemma live_session_keeps [keeps_intro]: "tx_keeps P (live_session h now)"
  unfolding live_session_def by (intro keeps_intro)

lemma user_add_steady: "user_post_init u = Inr () \<Longrightarrow> tx_keeps (steady old) (user_add u)"
  by (rule steadyI) (auto intro: user_add_ok simp: user_add_effect)

lemma membership_writes_steady:
  assumes "membership_post_init m = Inr ()"
  shows "tx_keeps (steady old) (membership_add m)" "tx_keeps (steady old) (membership_update m)"
proof -
  show "tx_keeps (steady old) (membership_add m)"
    by (rule steadyI, erule membership_add_ok [OF _ assms], assumption) (auto simp: membership_add_effect)
  show "tx_keeps (steady old) (membership_update m)"
    by (rule steadyI, erule membership_update_ok [OF _ assms], assumption) (auto simp: membership_update_effect)
qed

lemma credential_writes_steady:
  assumes "auth_credential_post_init k = Inr ()"
  shows "tx_keeps (steady old) (credential_add k)" "tx_keeps (steady old) (credential_update k)"
proof -
  show "tx_keeps (steady old) (credential_add k)"
    by (rule steadyI, erule credential_add_ok [OF _ assms], assumption) (auto simp: credential_add_effect)
  show "tx_keeps (steady old) (credential_update k)"
    by (rule steadyI, erule credential_update_ok [OF _ assms], assumption) (auto simp: credential_update_effect)
qed

lemma session_add_steady:
  assumes "auth_session_post_init s = Inr ()"
  shows "tx_keeps (steady old) (session_add s)"
  by (rule steadyI, erule session_add_ok [OF _ assms], assumption) (auto simp: session_add_effect)

lemma session_revoke_steady [keeps_intro]: "tx_keeps (steady old) (session_revoke i t)"
proof (rule steadyI)
  fix db x db' assume ok: "access_ok db" and run: "session_revoke i t db = Inr (x, db')"
  show "access_ok db'" by (rule session_revoke_ok [OF ok run])
  show "grown db db'" using run grown_stamp [OF access_okD(4) [OF ok]]
    unfolding session_revoke_effect by (auto split: if_splits)
qed

lemma role_writes_steady [keeps_intro]:
  "tx_keeps (steady old) (role_grant a)" "tx_keeps (steady old) (role_revoke email role)"
proof -
  show "tx_keeps (steady old) (role_grant a)"
    by (rule steadyI, erule role_grant_ok, assumption) (auto simp: role_grant_effect split: if_splits)
  show "tx_keeps (steady old) (role_revoke email role)"
    by (rule steadyI, erule role_revoke_ok, assumption) (auto simp: role_revoke_effect split: option.splits)
qed

lemma login_writes_steady [keeps_intro]:
  "tx_keeps (steady old) (login_consume h now)" "tx_keeps (steady old) (login_prune_expired now)"
proof -
  show "tx_keeps (steady old) (login_consume h now)"
    by (rule steadyI) (auto simp: login_consume_effect login_filter_ok split: option.splits)
  show "tx_keeps (steady old) (login_prune_expired now)"
    by (rule steadyI) (auto simp: login_prune_expired_def tx_simps login_filter_ok)
qed

lemma login_add_steady:
  assumes "login_transaction_post_init t = Inr ()"
  shows "tx_keeps (steady old) (login_add t)"
  by (rule steadyI, erule login_add_ok [OF _ assms], assumption) (auto simp: login_add_effect)

lemma worker_add_steady:
  assumes "worker_post_init w = Inr ()"
  shows "tx_keeps (steady old) (worker_add w)"
  by (rule steadyI, erule worker_add_ok [OF _ assms], assumption) (auto simp: worker_add_effect)

text \<open>An edit of a worker's row that leaves its trust alone, or takes it from pending to trusted.\<close>

lemma flush_worker_steady:
  assumes ok: "access_ok db" and old: "find_row wo_name name (ac_workers db) = Some r" and k: "wo_name new = wo_name r"
    and trust: "wo_trust new = wo_trust r \<or> wo_trust new = Trusted"
    and init: "worker_post_init (worker_from_orm r) = Inr () \<Longrightarrow> worker_post_init (worker_from_orm new) = Inr ()"
    and run: "flush_worker r new db = Inr (x, db')"
  shows "access_ok db' \<and> grown db db'"
proof -
  have "worker_post_init (worker_from_orm r) = Inr ()"
    using access_okD(7) [OF ok] find_row_SomeD [OF old] by (simp add: registry_ok_def)
  then show ?thesis
    using run worker_row_ok [OF ok old k trust init] grown_worker [OF access_okD(7) [OF ok] old k]
    by (simp add: flush_worker_effect)
qed

lemma worker_edit_steady:
  assumes edit: "\<And>db x db'. m db = Inr (x, db') \<Longrightarrow> \<exists>r. find_row wo_name name (ac_workers db) = Some r \<and> c r
       \<and> flush_worker r (f r) db = Inr (x, db')"
    and cols: "\<And>r. c r \<Longrightarrow> wo_name (f r) = wo_name r" "\<And>r. c r \<Longrightarrow> wo_trust (f r) = wo_trust r \<or> wo_trust (f r) = Trusted"
    and init: "\<And>r. c r \<Longrightarrow> worker_post_init (worker_from_orm r) = Inr () \<Longrightarrow> worker_post_init (worker_from_orm (f r)) = Inr ()"
  shows "tx_keeps (steady old) m"
proof (rule steadyI)
  fix db x db' assume ok: "access_ok db" and run: "m db = Inr (x, db')"
  from edit [OF run] obtain r where e: "find_row wo_name name (ac_workers db) = Some r" "c r"
    "flush_worker r (f r) db = Inr (x, db')" by blast
  note both = flush_worker_steady [OF ok e(1) cols(1) [OF e(2)] cols(2) [OF e(2)] init [OF e(2)] e(3)]
  show "access_ok db'" "grown db db'" using both by simp_all
qed

lemma worker_row_valid:
  "worker_post_init (worker_from_orm r) = Inr () \<longleftrightarrow> nonempty (wo_name r) \<and> wo_runtime r \<in> set valid_runtime_types
     \<and> wo_archs r \<noteq> [] \<and> list_all nonempty (wo_archs r) \<and> wo_caps r \<noteq> [] \<and> list_all nonempty (wo_caps r)
     \<and> 1 \<le> wo_capacity r \<and> nonempty (wo_version r) \<and> (wo_trust r = TrustRevoked) = (wo_revoked r \<noteq> None)
     \<and> (wo_quarantined r = None) = (wo_reason r = None) \<and> opt_nonempty (wo_reason r)"
proof -
  have raise: "(if b then Inl e else y) = Inr z \<longleftrightarrow> \<not> b \<and> y = Inr z" for b and e :: exn and y and z :: unit by simp
  show ?thesis unfolding worker_post_init_def raise by (simp add: worker_from_orm_def not_less)
qed

lemma worker_heartbeat_steady [keeps_intro]: "tx_keeps (steady old) (worker_heartbeat name t)"
  by (rule worker_edit_steady [where name = name and f = "\<lambda>r. r\<lparr>wo_heartbeat := Some t\<rparr>" and c = "\<lambda>_. True"])
    (auto simp: worker_heartbeat_def tx_simps worker_row_valid)

lemma worker_approve_steady [keeps_intro]: "tx_keeps (steady old) (worker_approve name)"
  by (rule worker_edit_steady [where name = name and f = "\<lambda>r. r\<lparr>wo_trust := Trusted\<rparr>" and c = "\<lambda>r. wo_trust r = TrustPending"])
    (auto simp: worker_approve_def tx_simps worker_row_valid)

lemma worker_quarantine_steady [keeps_intro]: "tx_keeps (steady old) (worker_quarantine name t reason)"
  by (rule worker_edit_steady [where name = name and f = "\<lambda>r. r\<lparr>wo_quarantined := Some t, wo_reason := Some reason\<rparr>"
        and c = "\<lambda>_. nonempty reason"])
    (auto simp: worker_quarantine_def tx_simps worker_row_valid opt_nonempty_def)

lemma worker_clear_quarantine_steady [keeps_intro]: "tx_keeps (steady old) (worker_clear_quarantine name)"
  by (rule worker_edit_steady [where name = name and f = "\<lambda>r. r\<lparr>wo_quarantined := None, wo_reason := None\<rparr>" and c = "\<lambda>_. True"])
    (auto simp: worker_clear_quarantine_def tx_simps worker_row_valid opt_nonempty_def)

lemma worker_drain_steady [keeps_intro]: "tx_keeps (steady old) (worker_drain name t)"
  by (rule worker_edit_steady [where name = name and f = "\<lambda>r. r\<lparr>wo_drain := Some t\<rparr>" and c = "\<lambda>_. True"])
    (auto simp: worker_drain_def tx_simps worker_row_valid)

lemma worker_resume_steady [keeps_intro]: "tx_keeps (steady old) (worker_resume name)"
  by (rule worker_edit_steady [where name = name and f = "\<lambda>r. r\<lparr>wo_drain := None\<rparr>" and c = "\<lambda>_. True"])
    (auto simp: worker_resume_def tx_simps worker_row_valid)

definition reprofiled :: "worker \<Rightarrow> registry_row \<Rightarrow> registry_row" where
  "reprofiled w r = r\<lparr>wo_runtime := wk_runtime w, wo_archs := wk_archs w, wo_caps := wk_caps w,
     wo_capacity := wk_capacity w, wo_version := wk_version w\<rparr>"

lemma worker_update_profile_steady:
  assumes "worker_post_init w = Inr ()"
  shows "tx_keeps (steady old) (worker_update_profile w)"
proof (rule worker_edit_steady [where name = "wk_name w" and f = "reprofiled w" and c = "\<lambda>_. True"])
  fix r assume "worker_post_init (worker_from_orm r) = Inr ()"
  moreover have "wk_runtime w \<in> set valid_runtime_types" "wk_archs w \<noteq> []" "list_all nonempty (wk_archs w)" "wk_caps w \<noteq> []"
    "list_all nonempty (wk_caps w)" "1 \<le> wk_capacity w" "nonempty (wk_version w)"
    using assms by (simp_all add: worker_post_init_def split: if_splits)
  ultimately show "worker_post_init (worker_from_orm (reprofiled w r)) = Inr ()"
    by (simp add: worker_row_valid reprofiled_def)
qed (auto simp: worker_update_profile_def tx_simps worker_to_orm_def reprofiled_def)

section \<open>Units of work over workers\<close>

lemma trusted_worker_iff:
  "access_ok db \<Longrightarrow> trusted_worker name db = Inr (x, db') \<Longrightarrow> db' = db \<and> trusted_name db name"
  by (auto simp: trusted_worker_def worker_get_def trusted_name_def worker_from_orm_def tx_simps dest!: find_row_SomeD
      split: option.splits)

lemma issue_credential_steady [keeps_intro]: "tx_keeps (steady old) (issue_credential name now ttl scopes k secret)"
proof (rule steadyI)
  fix db x db' assume ok: "access_ok db" and run: "issue_credential name now ttl scopes k secret db = Inr (x, db')"
  from run obtain a c v where a: "trusted_worker name db = Inr ((), a)"
    and c: "c = \<lparr>wt_id = Uid k, wt_worker = name, wt_hash = sha256_hex secret, wt_scopes = scopes,
      wt_issued = now, wt_expires = now + ttl, wt_revoked = None\<rparr>" "worker_credential_post_init c = Inr ()"
    and add: "worker_credential_add c a = Inr (v, db')"
    unfolding issue_credential_def by (auto simp: tx_simps)
  have same: "a = db" "trusted_name db name" using trusted_worker_iff [OF ok a] by simp_all
  show "access_ok db'"
    using worker_credential_add_ok [OF ok c(2), of v db'] add same by (simp add: c(1))
  show "grown db db'" using add same by (auto simp: worker_credential_add_effect)
qed

lemma revoke_active_steady [keeps_intro]: "tx_keeps (steady old) (revoke_active name now)"
proof (rule steadyI)
  fix db x db' assume ok: "access_ok db" and run: "revoke_active name now db = Inr (x, db')"
  show "access_ok db'" by (rule revoke_active_ok [OF ok run])
  have "distinct (map tc_id (ac_worker_credentials db))" using access_okD(8) [OF ok] by (simp add: worker_credentials_ok_def)
  from revoke_active_effect [OF this run] show "grown db db'" by auto
qed

text \<open>Revoking a worker ends its trust and its live credential in one unit of work.\<close>

lemma revoke_worker_rows:
  assumes ok: "access_ok db" and run: "tx_bind (worker_revoke name now) (\<lambda>_. revoke_active name now) db = Inr (x, db')"
  shows "\<exists>r. find_row wo_name name (ac_workers db) = Some r \<and> wo_trust r \<noteq> TrustRevoked
     \<and> ac_workers db' = put_row wo_name (r\<lparr>wo_trust := TrustRevoked, wo_revoked := Some now\<rparr>) (ac_workers db)
     \<and> access_ok db' \<and> grown db db'"
proof -
  from run obtain r mid where r: "find_row wo_name name (ac_workers db) = Some r" "wo_trust r \<noteq> TrustRevoked"
    and flush: "flush_worker r (r\<lparr>wo_trust := TrustRevoked, wo_revoked := Some now\<rparr>) db = Inr ((), mid)"
    and act: "revoke_active name now mid = Inr (x, db')" unfolding worker_revoke_def by (auto simp: tx_simps)
  let ?new = "r\<lparr>wo_trust := TrustRevoked, wo_revoked := Some now\<rparr>"
  let ?ws = "put_row wo_name ?new (ac_workers db)"
  note mem = find_row_SomeD [OF r(1)]
  have final: "workers_revoked_terminal r ?new" and mid: "mid = db\<lparr>ac_workers := ?ws\<rparr>"
    using flush by (simp_all add: flush_worker_effect)
  have creds: "distinct (map tc_id (ac_worker_credentials mid))" "live_credentials mid = live_credentials db"
    using access_okD(8) [OF ok] by (simp_all add: worker_credentials_ok_def mid)
  from revoke_active_effect [OF creds(1) act] obtain rows where db': "db' = mid\<lparr>ac_worker_credentials := rows\<rparr>"
    and live: "filter (\<lambda>r. tc_revoked r = None) rows = filter (\<lambda>r. tc_worker r \<noteq> name) (live_credentials db)"
    and rows: "rows = ac_worker_credentials db \<or> (\<exists>n c. find_row tc_id n (ac_worker_credentials db) = Some c
          \<and> rows = put_row tc_id (c\<lparr>tc_revoked := Some now\<rparr>) (ac_worker_credentials db))"
    using creds(2) by (auto simp: mid)
  have "worker_post_init (worker_from_orm r) = Inr ()" using access_okD(7) [OF ok] mem by (simp add: registry_ok_def)
  then have init: "worker_post_init (worker_from_orm ?new) = Inr ()"
    by (simp add: worker_row_valid)
  have reg: "registry_ok mid" using access_okD(7) [OF ok] init by (auto simp: registry_ok_def mid dest: set_put_rowD)
  have "worker_credentials_ok (db\<lparr>ac_worker_credentials := rows\<rparr>)"
    using rows worker_credential_revoke_ok [OF access_okD(8) [OF ok]] access_okD(8) [OF ok] by auto
  moreover have "trusted_name mid w" if "w \<noteq> name" "trusted_name db w" for w
    using that mem by (force simp: trusted_name_def mid put_row_def)
  moreover have "wo_name ` set ?ws = wo_name ` set (ac_workers db)" by (metis list.set_map map_key_put_row)
  ultimately have "worker_credentials_ok db'"
    using live by (simp add: worker_credentials_ok_def db' mid live_credentials_def trusted_name_def)
  moreover have "access_ok (db\<lparr>ac_worker_credentials := rows\<rparr>)"
    by (rule access_ok_write(6) [OF ok]) fact
  ultimately have "access_ok db'"
    using reg by (simp add: access_ok_defs db' mid known_user_def trusted_name_def live_credentials_def)
  moreover have "grown db mid" unfolding mid by (rule grown_worker [OF access_okD(7) [OF ok] r(1) _ final]) simp
  then have "grown db db'" unfolding db' by (rule grown_trans) simp
  ultimately show ?thesis using r by (auto simp: db' mid)
qed

section \<open>Calls\<close>

datatype access_call =
    RegisterUser user
  | AssignMembership string string string "string option"
  | AssignMember "string option" instant string string string "string option"
  | SetPassword auth_service string string "nat list" instant
  | Login auth_service string string "nat list" session_draw instant
  | FederatedSession auth_service string instant session_draw
  | Refresh auth_service "string option" session_draw instant
  | Logout "string option" instant
  | GrantRole string string
  | RevokeRole string string
  | BootstrapAdmin auth_service string string string "nat list" instant
  | AuthorizationUrl oidc_config login_draw instant
  | Callback oidc_config auth_service provider "string option" "string option" "string option" session_draw instant
  | RegisterWorker worker
  | ApproveWorker string instant int "string list" nat string
  | RotateCredential string instant int "string list" nat string
  | RevokeWorker string instant
  | WorkerProfile worker
  | WorkerHeartbeat string instant
  | QuarantineWorker string instant string
  | ClearQuarantine string
  | DrainWorker string instant
  | ResumeWorker string

text \<open>The tables after a call, whether it returns or raises.\<close>

fun run_access :: "access_call \<Rightarrow> accessdb \<Rightarrow> accessdb" where
  "run_access (RegisterUser u) = after (identity_register u)"
| "run_access (AssignMembership c email role team) = after (assign_membership c email role team)"
| "run_access (AssignMember header now c email role team) = after (assign_member header now c email role team)"
| "run_access (SetPassword a email p salt now) = after (set_password a email p salt now)"
| "run_access (Login a email p salt d now) = after (authenticate a email p salt d now)"
| "run_access (FederatedSession a email now d) = after (issue_federated_session a email now d)"
| "run_access (Refresh a token d now) = after (refresh a token d now)"
| "run_access (Logout token now) = after (logout token now)"
| "run_access (GrantRole email role) = after (grant_system_role email role)"
| "run_access (RevokeRole email role) = after (revoke_system_role email role)"
| "run_access (BootstrapAdmin a email name p salt now) = after (bootstrap_admin a email name p salt now)"
| "run_access (AuthorizationUrl c d now) = after (build_authorization_url c d now)"
| "run_access (Callback c a ask code state binding d now) = after (handle_callback c a ask code state binding d now)"
| "run_access (RegisterWorker w) = after (register_worker w)"
| "run_access (ApproveWorker name now ttl scopes k secret) = after (approve_worker name now ttl scopes k secret)"
| "run_access (RotateCredential name now ttl scopes k secret) = after (rotate_credential name now ttl scopes k secret)"
| "run_access (RevokeWorker name now) = after (revoke_worker name now)"
| "run_access (WorkerProfile w) = after (session_scope (worker_update_profile w))"
| "run_access (WorkerHeartbeat name t) = after (session_scope (worker_heartbeat name t))"
| "run_access (QuarantineWorker name t reason) = after (session_scope (worker_quarantine name t reason))"
| "run_access (ClearQuarantine name) = after (session_scope (worker_clear_quarantine name))"
| "run_access (DrainWorker name t) = after (session_scope (worker_drain name t))"
| "run_access (ResumeWorker name) = after (session_scope (worker_resume name))"

text \<open>The arguments are values their constructors accepted.\<close>

fun well_formed_access :: "access_call \<Rightarrow> bool" where
  "well_formed_access (RegisterUser u) = (user_post_init u = Inr ())"
| "well_formed_access (RegisterWorker w) = (worker_post_init w = Inr ())"
| "well_formed_access (WorkerProfile w) = (worker_post_init w = Inr ())"
| "well_formed_access _ = True"

definition run_accesses :: "access_call list \<Rightarrow> accessdb \<Rightarrow> accessdb" where
  "run_accesses calls db = foldl (\<lambda>s c. run_access c s) db calls"

text \<open>A deployment starts with competitions and their teams, and no account.\<close>

definition no_accounts :: "string list \<Rightarrow> (string \<times> string) list \<Rightarrow> accessdb" where
  "no_accounts cs ts = \<lparr>ac_users = [], ac_memberships = [], ac_credentials = [], ac_sessions = [], ac_roles = [],
     ac_logins = [], ac_workers = [], ac_worker_credentials = [], ac_competitions = cs, ac_teams = ts\<rparr>"

definition access_after :: "string list \<Rightarrow> (string \<times> string) list \<Rightarrow> access_call list \<Rightarrow> accessdb" where
  "access_after cs ts calls = run_accesses calls (no_accounts cs ts)"

section \<open>Every call keeps the invariant\<close>

lemma svc_keeps_cases [keeps_intro]:
  "(\<And>v. x = Inr v \<Longrightarrow> svc_keeps P (f v)) \<Longrightarrow> svc_keeps P (case x of Inl e \<Rightarrow> svc_raise e | Inr v \<Rightarrow> f v)"
  "svc_keeps P m \<Longrightarrow> (\<And>v. svc_keeps P (g v)) \<Longrightarrow> svc_keeps P (case y of None \<Rightarrow> m | Some v \<Rightarrow> g v)"
  "svc_keeps P m \<Longrightarrow> svc_keeps P n \<Longrightarrow> svc_keeps P (if b then m else n)"
  by (cases x; simp add: svc_keeps_pure) (cases y; simp; fail)+

lemma afterI:
  assumes "svc_keeps (steady db) m" and "access_ok db"
  shows "steady db (after m db)"
proof -
  have "steady db db" using assms(2) by (simp add: steady_def)
  then show ?thesis unfolding after_def by (rule svc_keepsD [OF assms(1)])
qed

lemma identity_register_keeps: "user_post_init u = Inr () \<Longrightarrow> svc_keeps (steady old) (identity_register u)"
  unfolding identity_register_def by (intro keeps_intro user_add_steady)

lemma assign_membership_keeps [keeps_intro]: "svc_keeps (steady old) (assign_membership c email role team)"
  unfolding assign_membership_def upsert_membership_def
  by (intro keeps_intro membership_writes_steady) simp_all

lemma store_password_keeps [keeps_intro]: "tx_keeps (steady old) (store_password email encoded now)"
  unfolding store_password_def by (intro keeps_intro keeps_construct credential_writes_steady)

lemma set_password_keeps [keeps_intro]: "svc_keeps (steady old) (set_password a email p salt now)"
  unfolding set_password_def by (intro keeps_intro)

lemma issue_session_keeps [keeps_intro]: "tx_keeps (steady old) (issue_session a email now rotated d)"
  unfolding issue_session_def
  by (intro keeps_construct tx_keeps_bind session_add_steady) (auto intro: keeps_intro construct_keeps)

lemma with_token_keeps [keeps_intro]: "(\<And>h. svc_keeps P (f h)) \<Longrightarrow> svc_keeps P (with_token token f)"
  unfolding with_token_def by (intro keeps_intro)

lemma authenticate_keeps [keeps_intro]: "svc_keeps (steady old) (authenticate a email p salt d now)"
  unfolding authenticate_def by (intro keeps_intro keeps_construct credential_writes_steady)

lemma token_calls_keep [keeps_intro]:
  "svc_keeps (steady old) (issue_federated_session a email now d)" "svc_keeps (steady old) (refresh a token d now)"
  "svc_keeps (steady old) (logout token now)" "svc_keeps (steady old) (resolve token now)"
  unfolding issue_federated_session_def refresh_def logout_def resolve_def by (intro keeps_intro)+

lemma role_calls_keep [keeps_intro]:
  "svc_keeps (steady old) (grant_system_role email role)" "svc_keeps (steady old) (revoke_system_role email role)"
  unfolding grant_system_role_def revoke_system_role_def by (intro keeps_intro construct_keeps)+

lemma bootstrap_admin_keeps [keeps_intro]: "svc_keeps (steady old) (bootstrap_admin a email name p salt now)"
  unfolding bootstrap_admin_def by (intro keeps_intro keeps_construct credential_writes_steady user_add_steady)

lemma assign_member_keeps [keeps_intro]: "svc_keeps (steady old) (assign_member header now c email role team)"
  unfolding assign_member_def get_principal_def db_authenticate_def by (intro keeps_intro)

lemma build_authorization_url_keeps [keeps_intro]: "svc_keeps (steady old) (build_authorization_url c d now)"
  unfolding build_authorization_url_def Let_def by (intro keeps_intro login_add_steady) simp_all

lemma provision_keeps [keeps_intro]: "svc_keeps (steady old) (provision u)"
proof -
  have "svc_keeps (steady old) (case e of
        IntegrityError _ \<Rightarrow> svc_bind (identity_get (us_email u)) (\<lambda>found.
          if found = None then svc_raise OidcAuthError else svc_ret ())
      | ValueError \<Rightarrow> svc_raise OidcAuthError
      | _ \<Rightarrow> svc_raise e)" for e
    by (cases e) (simp_all add: identity_get_def svc_keeps_bind svc_keeps_scope svc_keeps_pure read_row_keeps)
  then show ?thesis unfolding provision_def
    by (intro svc_keeps_catch) (intro keeps_intro identity_register_keeps; simp)+
qed

lemma handle_callback_keeps [keeps_intro]: "svc_keeps (steady old) (handle_callback c a ask code state binding d now)"
proof -
  have login: "svc_keeps (steady old) (complete_login c a ask co t d now)" for co t
    unfolding complete_login_def provision_if_needed_def identity_get_def by (intro keeps_intro)
  show ?thesis unfolding handle_callback_def
    by (cases code; cases state) (auto intro!: keeps_intro login)
qed

lemma worker_calls_keep [keeps_intro]:
  "svc_keeps (steady old) (approve_worker name now ttl scopes k secret)"
  "svc_keeps (steady old) (rotate_credential name now ttl scopes k secret)"
  unfolding approve_worker_def rotate_credential_def by (intro keeps_intro)+

lemma revoke_worker_keeps [keeps_intro]: "svc_keeps (steady old) (revoke_worker name now)"
  unfolding revoke_worker_def
  by (rule svc_keeps_scope, rule steadyI) (use revoke_worker_rows in blast)+

lemma run_access_steady:
  assumes "access_ok db" and "well_formed_access c"
  shows "steady db (run_access c db)"
  using assms
  by (cases c) (auto intro!: afterI keeps_intro identity_register_keeps worker_add_steady worker_update_profile_steady
      simp: register_worker_def)

lemma run_accesses_steady:
  assumes "access_ok db" and "\<forall>c \<in> set calls. well_formed_access c"
  shows "steady db (run_accesses calls db)"
  using assms
proof (induction calls arbitrary: db)
  case Nil
  then show ?case by (simp add: steady_def run_accesses_def)
next
  case (Cons c calls)
  have one: "steady db (run_access c db)" using Cons.prems by (intro run_access_steady) simp_all
  then have "steady (run_access c db) (run_accesses calls (run_access c db))"
    using Cons.IH [of "run_access c db"] Cons.prems by (simp add: steady_def)
  with one show ?case by (auto simp: steady_def run_accesses_def intro: grown_trans)
qed

lemma no_accounts_ok: "access_ok (no_accounts cs ts)"
  by (simp add: access_ok_defs no_accounts_def live_credentials_def)

lemma access_after_ok: "\<forall>c \<in> set calls. well_formed_access c \<Longrightarrow> access_ok (access_after cs ts calls)"
  using run_accesses_steady [OF no_accounts_ok] by (auto simp: access_after_def steady_def)

end
