(* ===== verification/Access_Sample.thy ===== *)
theory Access_Sample
  imports Access_Runs
begin

text \<open>
  A small deployment the properties are applied to: one organizer of one competition with a password, a
  session and a pending federated login, and one worker. The hasher marks a password instead of hashing it.
\<close>

section \<open>The calls\<close>

definition marking_hasher :: password_hasher where
  "marking_hasher = \<lparr>ph_hash = (\<lambda>p _. Inr (''mark$'' @ p)), ph_verify = (\<lambda>p h. h = ''mark$'' @ p),
     ph_needs_rehash = (\<lambda>_. False)\<rparr>"

definition sample_auth :: auth_service where
  "sample_auth = \<lparr>av_hasher = marking_hasher, av_ttl = 100\<rparr>"

definition sample_oidc :: oidc_config where
  "sample_oidc = \<lparr>og_client = ''ctf'', og_redirect = ''https://ctf/cb'', og_domains = [], og_provision = True, og_ttl = 60\<rparr>"

definition sample_verifier :: string where
  "sample_verifier = replicate 43 (CHR ''v'')"

definition sample_worker :: worker where
  "sample_worker = \<lparr>wk_name = ''w'', wk_runtime = ''docker-rootless'', wk_archs = [''amd64''], wk_caps = [''build''],
     wk_capacity = 2, wk_version = ''1'', wk_trust = TrustPending, wk_revoked = None, wk_drain = None,
     wk_quarantined = None, wk_reason = None, wk_heartbeat = None\<rparr>"

definition sample_calls :: "access_call list" where
  "sample_calls = [RegisterUser \<lparr>us_email = ''a@x.y'', us_name = ''A''\<rparr>,
     SetPassword sample_auth ''A@x.y'' ''password'' [] 0,
     AssignMembership ''cup'' ''a@x.y'' ''organizer'' None,
     FederatedSession sample_auth ''a@x.y'' 0 \<lparr>sd_id = 7, sd_token = ''tok''\<rparr>,
     AuthorizationUrl sample_oidc \<lparr>gd_state = ''st'', gd_nonce = ''n'', gd_verifier = sample_verifier, gd_binding = ''b''\<rparr> 0,
     RegisterWorker sample_worker]"

section \<open>The tables they leave\<close>

definition sample_user_row :: account_row where
  "sample_user_row = \<lparr>ur_email = ''a@x.y'', ur_name = ''A''\<rparr>"

definition sample_password_row :: password_row where
  "sample_password_row = \<lparr>kr_user = ''a@x.y'', kr_hash = ''mark$password'', kr_created = 0, kr_updated = 0\<rparr>"

definition sample_membership_row :: membership_row where
  "sample_membership_row = \<lparr>mr_user = ''a@x.y'', mr_competition = ''cup'', mr_team = None, mr_role = ''organizer''\<rparr>"

definition sample_session_row :: session_row where
  "sample_session_row = \<lparr>nr_id = 7, nr_user = ''a@x.y'', nr_hash = sha256_hex ''tok'', nr_issued = 0, nr_expires = 100,
     nr_rotated = None, nr_revoked = None\<rparr>"

definition sample_login_row :: login_row where
  "sample_login_row = \<lparr>gl_state = sha256_hex ''st'', gl_nonce = ''n'', gl_verifier = sample_verifier,
     gl_binding = sha256_hex ''b'', gl_redirect = ''https://ctf/cb'', gl_created = 0, gl_expires = 60\<rparr>"

definition sample_registry_row :: registry_row where
  "sample_registry_row = \<lparr>wo_name = ''w'', wo_runtime = ''docker-rootless'', wo_archs = [''amd64''], wo_caps = [''build''],
     wo_capacity = 2, wo_version = ''1'', wo_trust = TrustPending, wo_revoked = None, wo_drain = None,
     wo_quarantined = None, wo_reason = None, wo_heartbeat = None\<rparr>"

definition sample_db :: accessdb where
  "sample_db = \<lparr>ac_users = [sample_user_row], ac_memberships = [sample_membership_row], ac_credentials = [sample_password_row],
     ac_sessions = [sample_session_row], ac_roles = [], ac_logins = [sample_login_row], ac_workers = [sample_registry_row],
     ac_worker_credentials = [], ac_competitions = [''cup''], ac_teams = []\<rparr>"

lemma sample_texts:
  "nonempty ''a@x.y''" "nonempty ''a''" "nonempty ''A''" "nonempty ''cup''" "nonempty ''organizer''" "nonempty ''tok''" "nonempty ''n''"
  "nonempty ''https://ctf/cb''" "nonempty ''w''" "nonempty ''1''" "nonempty ''amd64''" "nonempty ''build''"
  "nonempty ''docker-rootless''" "nonempty ''sec''" "nonempty sample_verifier"
  by code_simp+

lemma sample_lower: "lower_text ''a@x.y'' = ''a@x.y''" "lower_text ''A@x.y'' = ''a@x.y''"
  by code_simp+

lemma sample_encoded: "is_encoded_password_hash ''mark$password''" "encoded_column ''mark$password''"
  by code_simp+

lemma sample_user_init: "user_post_init \<lparr>us_email = ''a@x.y'', us_name = ''A''\<rparr> = Inr ()"
  by (simp add: user_post_init_def sample_texts py_partition_def)

lemma sample_worker_init: "worker_post_init sample_worker = Inr ()"
  by (simp add: worker_post_init_def sample_worker_def sample_texts valid_runtime_types_def opt_nonempty_def)

lemma sample_well_formed: "\<forall>k \<in> set sample_calls. well_formed_access k"
  by (simp add: sample_calls_def sample_user_init sample_worker_init)

lemmas sample_rows = sample_user_row_def sample_password_row_def sample_membership_row_def sample_session_row_def
  sample_login_row_def sample_registry_row_def

lemmas sample_run = after_def session_scope_def tx_defs svc_bind_def svc_ret_def svc_raise_def checked_row_def unique_keys_def
  construct_def tx_sum_def find_row_def put_row_def

lemma sample_step1: "run_access (RegisterUser \<lparr>us_email = ''a@x.y'', us_name = ''A''\<rparr>) (no_accounts [''cup''] []) =
    (no_accounts [''cup''] [])\<lparr>ac_users := [sample_user_row]\<rparr>"
  by (simp add: identity_register_def user_add_def user_get_def sample_run user_check_def user_to_orm_def user_from_orm_def
      sample_texts sample_user_init row_for_email_def user_key_def sample_lower no_accounts_def sample_rows)

lemma sample_user_id:
  "ac_users db = [sample_user_row] \<Longrightarrow> row_for_email ''a@x.y'' db = Some sample_user_row"
  "ac_users db = [sample_user_row] \<Longrightarrow> row_for_email ''A@x.y'' db = Some sample_user_row"
  by (simp_all add: row_for_email_def find_row_def user_key_def sample_user_row_def sample_lower)

definition sample_db1 :: accessdb where
  "sample_db1 = (no_accounts [''cup''] [])\<lparr>ac_users := [sample_user_row]\<rparr>"

definition sample_db2 :: accessdb where
  "sample_db2 = sample_db1\<lparr>ac_credentials := [sample_password_row]\<rparr>"

definition sample_db3 :: accessdb where
  "sample_db3 = sample_db2\<lparr>ac_memberships := [sample_membership_row]\<rparr>"

definition sample_db4 :: accessdb where
  "sample_db4 = sample_db3\<lparr>ac_sessions := [sample_session_row]\<rparr>"

definition sample_db5 :: accessdb where
  "sample_db5 = sample_db4\<lparr>ac_logins := [sample_login_row]\<rparr>"

lemma sample_users:
  "ac_users sample_db1 = [sample_user_row]" "ac_users sample_db2 = [sample_user_row]" "ac_users sample_db3 = [sample_user_row]"
  "ac_users sample_db4 = [sample_user_row]" "ac_users sample_db5 = [sample_user_row]" "ac_users sample_db = [sample_user_row]"
  by (simp_all add: sample_db1_def sample_db2_def sample_db3_def sample_db4_def sample_db5_def sample_db_def)

lemmas sample_user_ids = sample_users [THEN sample_user_id(1)] sample_users [THEN sample_user_id(2)]

lemma sample_step2: "set_password sample_auth ''A@x.y'' ''password'' [] 0 sample_db1 = (Inr (), sample_db2)"
proof -
  have "credential_get ''A@x.y'' sample_db1 = Inr (None, sample_db1)"
    by (simp add: credential_get_def tx_simps sample_user_ids) (simp add: sample_db1_def no_accounts_def tx_ret_def)
  moreover have "auth_credential_post_init \<lparr>ak_user = ''A@x.y'', ak_hash = ''mark$password'', ak_created = 0, ak_updated = 0\<rparr> = Inr ()"
    using sample_texts(1) by (simp add: auth_credential_post_init_def sample_encoded nonempty_iff py_isspace_def)
  moreover have "credential_add \<lparr>ak_user = ''A@x.y'', ak_hash = ''mark$password'', ak_created = 0, ak_updated = 0\<rparr> sample_db1
      = Inr ((), sample_db2)"
    unfolding credential_add_effect
    by (simp add: sample_user_ids sample_db2_def auth_credential_to_orm_def credential_check_def sample_encoded sample_rows)
      (simp add: sample_db1_def no_accounts_def)
  ultimately show ?thesis
    by (simp add: set_password_def validate_password_strength_def min_password_length_def sample_auth_def marking_hasher_def
        session_scope_eq store_password_def tx_simps)
qed

lemma sample_step3: "assign_membership ''cup'' ''a@x.y'' ''organizer'' None sample_db2 =
    (Inr (membership_from_orm sample_membership_row), sample_db3)"
proof -
  let ?m = "\<lparr>mb_user = ''a@x.y'', mb_competition = ''cup'', mb_role = ''organizer'', mb_team = None\<rparr>"
  have init: "membership_post_init ?m = Inr ()"
    by (simp add: membership_post_init_def sample_texts valid_roles_def opt_nonempty_def)
  moreover have "membership_get ''a@x.y'' ''cup'' sample_db2 = Inr (None, sample_db2)"
    by (simp add: membership_get_def tx_simps) (simp add: sample_db2_def sample_db1_def no_accounts_def tx_ret_def)
  moreover have "membership_add ?m sample_db2 = Inr ((), sample_db3)"
    unfolding membership_add_effect
    by (simp add: sample_user_ids sample_db3_def membership_to_orm_def membership_check_def valid_roles_def sample_rows)
      (simp add: sample_db2_def sample_db1_def no_accounts_def)
  moreover have "membership_from_orm sample_membership_row = ?m" by (simp add: membership_from_orm_def sample_membership_row_def)
  then have "membership_get ''a@x.y'' ''cup'' sample_db3 = Inr (Some (membership_from_orm sample_membership_row), sample_db3)"
    using init by (simp add: membership_get_def tx_simps sample_db3_def find_row_def)
      (simp add: sample_membership_row_def)
  ultimately show ?thesis
    by (simp add: assign_membership_def upsert_membership_def session_scope_def tx_bind_def svc_bind_def svc_ret_def)
qed

lemma sample_step4: "issue_federated_session sample_auth ''a@x.y'' 0 \<lparr>sd_id = 7, sd_token = ''tok''\<rparr> sample_db3 =
    (Inr \<lparr>iz_id = Uid 7, iz_user = ''a@x.y'', iz_expires = 100, iz_token = ''tok''\<rparr>, sample_db4)"
proof -
  let ?s = "\<lparr>sn_id = Uid 7, sn_user = ''a@x.y'', sn_hash = sha256_hex ''tok'', sn_issued = 0, sn_expires = 100, sn_rotated = None,
    sn_revoked = None\<rparr>"
  have "auth_session_post_init ?s = Inr ()" by (simp add: auth_session_post_init_def sample_texts)
  moreover have "session_add ?s sample_db3 = Inr ((), sample_db4)"
    unfolding session_add_effect
    by (simp add: sample_user_ids sample_db4_def auth_session_to_orm_def session_check_def session_keys_def sample_rows)
      (simp add: sample_db3_def sample_db2_def sample_db1_def no_accounts_def)
  moreover have "issued_session_post_init \<lparr>iz_id = Uid 7, iz_user = ''a@x.y'', iz_expires = 100, iz_token = ''tok''\<rparr> = Inr ()"
    by (simp add: issued_session_post_init_def sample_texts)
  ultimately show ?thesis
    by (simp add: issue_federated_session_def issue_session_def session_scope_eq tx_simps hash_token_def sample_auth_def)
qed

lemma sample_step5: "build_authorization_url sample_oidc
    \<lparr>gd_state = ''st'', gd_nonce = ''n'', gd_verifier = sample_verifier, gd_binding = ''b''\<rparr> 0 sample_db4 =
    (Inr (''st'', ''b''), sample_db5)"
proof -
  let ?t = "\<lparr>lt_state = sha256_hex ''st'', lt_nonce = ''n'', lt_verifier = sample_verifier, lt_binding = sha256_hex ''b'',
     lt_redirect = ''https://ctf/cb'', lt_created = 0, lt_expires = 60\<rparr>"
  have "length sample_verifier = 43" by (simp add: sample_verifier_def)
  then have "login_transaction_post_init ?t = Inr ()" by (simp add: login_transaction_post_init_def sample_texts)
  moreover have "login_prune_expired 0 sample_db4 = Inr (0, sample_db4)"
    by (simp add: login_prune_expired_def tx_simps)
      (simp add: sample_db4_def sample_db3_def sample_db2_def sample_db1_def no_accounts_def)
  moreover have "login_add ?t sample_db4 = Inr ((), sample_db5)"
    unfolding login_add_effect
    by (simp add: sample_db5_def oidc_login_transaction_to_orm_def login_check_def sample_login_row_def)
      (simp add: sample_db4_def sample_db3_def sample_db2_def sample_db1_def no_accounts_def)
  ultimately show ?thesis
    by (simp add: build_authorization_url_def sample_oidc_def session_scope_def tx_bind_def svc_bind_def svc_ret_def)
qed

lemma sample_step6: "snd (register_worker sample_worker sample_db5) = sample_db"
proof -
  have "worker_add sample_worker sample_db5 = Inr ((), sample_db)"
    unfolding worker_add_effect
    by (simp add: sample_worker_def worker_to_orm_def fresh_worker_def worker_check_def sample_texts valid_runtime_types_def
        int_column_def)
      (simp add: sample_db_def sample_db5_def sample_db4_def sample_db3_def sample_db2_def sample_db1_def no_accounts_def
        sample_registry_row_def)
  moreover have "worker_get ''w'' sample_db = Inr (Some sample_worker, sample_db)"
    using sample_worker_init
    by (simp add: worker_get_def tx_simps sample_db_def find_row_def sample_registry_row_def worker_from_orm_def sample_worker_def)
  moreover have "wk_name sample_worker = ''w''" by (simp add: sample_worker_def)
  ultimately show ?thesis
    by (simp add: register_worker_def session_scope_def tx_bind_def svc_bind_def svc_ret_def)
qed

lemma sample_after: "access_after [''cup''] [] sample_calls = sample_db"
  unfolding access_after_def run_accesses_def sample_calls_def
  by (simp del: run_access.simps(1) add: sample_step1 sample_db1_def [symmetric])
    (simp add: after_def sample_step2 sample_step3 sample_step4 sample_step5 sample_step6)

lemma sample_ok: "access_ok sample_db"
  using access_after_ok [OF sample_well_formed, of "[''cup'']" "[]"] by (simp add: sample_after)

section \<open>Calls on them\<close>

lemma sample_session_found: "find_row nr_hash (sha256_hex ''tok'') (ac_sessions sample_db) = Some sample_session_row"
  by (simp add: sample_db_def find_row_def sample_session_row_def)

lemma sample_logout: "logout (Some ''tok'') 5 sample_db =
    (Inr (), sample_db\<lparr>ac_sessions := [sample_session_row\<lparr>nr_revoked := Some 5\<rparr>]\<rparr>)"
proof -
  have "auth_session_post_init (auth_session_from_orm sample_session_row) = Inr ()"
    by (simp add: auth_session_post_init_def auth_session_from_orm_def sample_session_row_def sample_texts)
  then have "live_session (sha256_hex ''tok'') 5 sample_db = Inr (auth_session_from_orm sample_session_row, sample_db)"
    by (simp add: live_session_def session_get_by_token_hash_def read_session_def tx_simps sample_session_found)
      (simp add: session_is_live_def auth_session_from_orm_def sample_session_row_def tx_ret_def)
  moreover have "session_revoke (sn_id (auth_session_from_orm sample_session_row)) 5 sample_db =
      Inr ((), sample_db\<lparr>ac_sessions := [sample_session_row\<lparr>nr_revoked := Some 5\<rparr>]\<rparr>)"
    unfolding session_revoke_effect
    by (simp add: auth_session_from_orm_def sample_session_row_def sample_db_def find_row_def put_row_def)
  ultimately show ?thesis
    by (simp add: logout_def with_token_def require_token_hash_def hash_token_def session_scope_def tx_bind_def)
qed

definition pending_calls :: "access_call list" where
  "pending_calls = [RegisterUser \<lparr>us_email = ''a@x.y'', us_name = ''A''\<rparr>,
     AuthorizationUrl sample_oidc \<lparr>gd_state = ''st'', gd_nonce = ''n'', gd_verifier = sample_verifier, gd_binding = ''b''\<rparr> 0]"

definition pending_db :: accessdb where
  "pending_db = sample_db1\<lparr>ac_logins := [sample_login_row]\<rparr>"

lemma pending_well_formed: "\<forall>k \<in> set pending_calls. well_formed_access k"
  by (simp add: pending_calls_def sample_user_init)

lemma pending_after: "access_after [''cup''] [] pending_calls = pending_db"
proof -
  let ?t = "\<lparr>lt_state = sha256_hex ''st'', lt_nonce = ''n'', lt_verifier = sample_verifier, lt_binding = sha256_hex ''b'',
     lt_redirect = ''https://ctf/cb'', lt_created = 0, lt_expires = 60\<rparr>"
  have "length sample_verifier = 43" by (simp add: sample_verifier_def)
  then have "login_transaction_post_init ?t = Inr ()" by (simp add: login_transaction_post_init_def sample_texts)
  moreover have "login_prune_expired 0 sample_db1 = Inr (0, sample_db1)"
    by (simp add: login_prune_expired_def tx_simps) (simp add: sample_db1_def no_accounts_def)
  moreover have "login_add ?t sample_db1 = Inr ((), pending_db)"
    unfolding login_add_effect
    by (simp add: pending_db_def oidc_login_transaction_to_orm_def login_check_def sample_login_row_def)
      (simp add: sample_db1_def no_accounts_def)
  ultimately have "build_authorization_url sample_oidc
      \<lparr>gd_state = ''st'', gd_nonce = ''n'', gd_verifier = sample_verifier, gd_binding = ''b''\<rparr> 0 sample_db1 = (Inr (''st'', ''b''), pending_db)"
    by (simp add: build_authorization_url_def sample_oidc_def session_scope_def tx_bind_def svc_bind_def svc_ret_def)
  then show ?thesis
    unfolding access_after_def run_accesses_def pending_calls_def
    by (simp del: run_access.simps(1) add: sample_step1 sample_db1_def [symmetric]) (simp add: after_def)
qed

text \<open>The provider vouches for the organizer's address and repeats the nonce.\<close>

definition sample_provider :: provider where
  "sample_provider code verifier = Inr [(''nonce'', JStr ''n''), (''email'', JStr ''a@x.y''), (''email_verified'', JBool True)]"

lemma sample_callback:
  "\<exists>db'. handle_callback sample_oidc sample_auth sample_provider (Some ''co'') (Some ''st'') (Some ''b'') \<lparr>sd_id = 7, sd_token = ''tok''\<rparr> 5 pending_db =
    (Inr \<lparr>iz_id = Uid 7, iz_user = ''a@x.y'', iz_expires = 105, iz_token = ''tok''\<rparr>, db')"
proof -
  let ?k = "[(''nonce'', JStr ''n''), (''email'', JStr ''a@x.y''), (''email_verified'', JBool True)]"
  let ?mid = "sample_db1"
  have "length sample_verifier = 43" by (simp add: sample_verifier_def)
  then have "login_transaction_post_init (oidc_login_transaction_from_orm sample_login_row) = Inr ()"
    by (simp add: login_transaction_post_init_def oidc_login_transaction_from_orm_def sample_login_row_def sample_texts)
  moreover have "ac_logins sample_db1 = []" by (simp add: sample_db1_def no_accounts_def)
  ultimately have consume: "login_consume (sha256_hex ''st'') 5 pending_db = Inr (Some (oidc_login_transaction_from_orm sample_login_row), ?mid)"
    unfolding login_consume_effect by (simp add: pending_db_def find_row_def) (simp add: sample_login_row_def)
  have claims: "check_claims sample_oidc ''n'' ?k = Inr ?k" "verified_email sample_oidc ?k = Inr ''a@x.y''"
    by (simp_all add: check_claims_def verified_email_def claim_value_def is_true_def domain_allowed_def sample_oidc_def)
  have known: "identity_get ''a@x.y'' ?mid = (Inr (Some \<lparr>us_email = ''a@x.y'', us_name = ''A''\<rparr>), ?mid)"
    using sample_user_init
    by (simp add: identity_get_def session_scope_eq user_get_def tx_simps sample_user_ids)
      (simp add: user_from_orm_def sample_user_row_def tx_ret_def)
  let ?s = "\<lparr>sn_id = Uid 7, sn_user = ''a@x.y'', sn_hash = sha256_hex ''tok'', sn_issued = 5, sn_expires = 105, sn_rotated = None,
    sn_revoked = None\<rparr>"
  have "auth_session_post_init ?s = Inr ()" by (simp add: auth_session_post_init_def sample_texts)
  moreover have "\<exists>db'. session_add ?s ?mid = Inr ((), db')"
    unfolding session_add_effect
    by (simp add: sample_user_ids auth_session_to_orm_def session_check_def session_keys_def sample_rows)
      (simp add: sample_db1_def no_accounts_def)
  moreover have "issued_session_post_init \<lparr>iz_id = Uid 7, iz_user = ''a@x.y'', iz_expires = 105, iz_token = ''tok''\<rparr> = Inr ()"
    by (simp add: issued_session_post_init_def sample_texts)
  ultimately have issue: "\<exists>db'. issue_federated_session sample_auth ''a@x.y'' 5 \<lparr>sd_id = 7, sd_token = ''tok''\<rparr> ?mid =
      (Inr \<lparr>iz_id = Uid 7, iz_user = ''a@x.y'', iz_expires = 105, iz_token = ''tok''\<rparr>, db')"
    by (simp add: issue_federated_session_def issue_session_def session_scope_eq tx_simps hash_token_def sample_auth_def)
  have row: "lt_verifier (oidc_login_transaction_from_orm sample_login_row) = sample_verifier"
    "lt_nonce (oidc_login_transaction_from_orm sample_login_row) = ''n''"
    "lt_binding (oidc_login_transaction_from_orm sample_login_row) = sha256_hex ''b''"
    by (simp_all add: oidc_login_transaction_from_orm_def sample_login_row_def)
  then have "handle_callback sample_oidc sample_auth sample_provider (Some ''co'') (Some ''st'') (Some ''b'')
      \<lparr>sd_id = 7, sd_token = ''tok''\<rparr> 5 pending_db =
      complete_login sample_oidc sample_auth sample_provider ''co'' (oidc_login_transaction_from_orm sample_login_row)
        \<lparr>sd_id = 7, sd_token = ''tok''\<rparr> 5 ?mid"
    using consume by (simp add: handle_callback_def svc_bind_def session_scope_def)
  also have "\<dots> = issue_federated_session sample_auth ''a@x.y'' 5 \<lparr>sd_id = 7, sd_token = ''tok''\<rparr> ?mid"
    using known by (simp add: complete_login_def sample_provider_def row claims provision_if_needed_def svc_bind_def svc_ret_def)
  finally show ?thesis using issue by simp
qed

definition password_calls :: "access_call list" where
  "password_calls = [RegisterUser \<lparr>us_email = ''a@x.y'', us_name = ''A''\<rparr>, SetPassword sample_auth ''A@x.y'' ''password'' [] 0]"

lemma password_well_formed: "\<forall>k \<in> set password_calls. well_formed_access k"
  by (simp add: password_calls_def sample_user_init)

lemma password_after: "access_after [''cup''] [] password_calls = sample_db2"
  unfolding access_after_def run_accesses_def password_calls_def
  by (simp del: run_access.simps(1) add: sample_step1 sample_db1_def [symmetric]) (simp add: after_def sample_step2)

lemma sample_login: "\<exists>db'. authenticate sample_auth ''a@X.y'' ''password'' [] \<lparr>sd_id = 7, sd_token = ''tok''\<rparr> 5 sample_db2 =
    (Inr \<lparr>iz_id = Uid 7, iz_user = ''a@x.y'', iz_expires = 105, iz_token = ''tok''\<rparr>, db')"
proof -
  let ?s = "\<lparr>sn_id = Uid 7, sn_user = ''a@x.y'', sn_hash = sha256_hex ''tok'', sn_issued = 5, sn_expires = 105, sn_rotated = None,
    sn_revoked = None\<rparr>"
  have "lower_text ''a@X.y'' = ''a@x.y''" by code_simp
  then have "row_for_email ''a@X.y'' sample_db2 = Some sample_user_row"
    using sample_user_ids(2) by (simp add: row_for_email_def sample_lower)
  moreover have "find_row kr_user ''a@x.y'' (ac_credentials sample_db2) = Some sample_password_row"
    by (simp add: sample_db2_def find_row_def sample_password_row_def)
  moreover have "auth_credential_post_init (auth_credential_from_orm sample_password_row) = Inr ()"
    by (simp add: auth_credential_post_init_def auth_credential_from_orm_def sample_password_row_def sample_texts sample_encoded)
  ultimately have get: "credential_get ''a@X.y'' sample_db2 = Inr (Some (auth_credential_from_orm sample_password_row), sample_db2)"
    by (simp add: credential_get_def tx_simps sample_user_row_def)
  have cred: "ak_hash (auth_credential_from_orm sample_password_row) = ''mark$password''"
    "ak_user (auth_credential_from_orm sample_password_row) = ''a@x.y''"
    by (simp_all add: auth_credential_from_orm_def sample_password_row_def)
  have "auth_session_post_init ?s = Inr ()" by (simp add: auth_session_post_init_def sample_texts)
  moreover have "\<exists>db'. session_add ?s sample_db2 = Inr ((), db')"
    unfolding session_add_effect
    by (simp add: sample_user_ids auth_session_to_orm_def session_check_def session_keys_def sample_rows)
      (simp add: sample_db2_def sample_db1_def no_accounts_def)
  moreover have "issued_session_post_init \<lparr>iz_id = Uid 7, iz_user = ''a@x.y'', iz_expires = 105, iz_token = ''tok''\<rparr> = Inr ()"
    by (simp add: issued_session_post_init_def sample_texts)
  ultimately show ?thesis using get cred
    by (simp add: authenticate_def issue_session_def session_scope_eq tx_simps hash_token_def sample_auth_def marking_hasher_def)
qed

lemma sample_revoke: "\<exists>db'. revoke_worker ''w'' 5 sample_db = (Inr (), db')"
  by (simp add: revoke_worker_def session_scope_eq worker_revoke_def revoke_active_def tx_simps flush_worker_effect
      active_for_worker_iff)
    (simp add: sample_db_def find_row_def sample_registry_row_def workers_revoked_terminal_def worker_check_def sample_texts
      valid_runtime_types_def int_column_def live_credentials_def put_row_def tx_ret_def)

lemma sample_approve: "\<exists>db'. approve_worker ''w'' 5 100 [''jobs:claim''] 9 ''sec'' sample_db =
    (Inr \<lparr>ic_id = Uid 9, ic_worker = ''w'', ic_scopes = [''jobs:claim''], ic_expires = 105, ic_secret = ''sec''\<rparr>, db')"
proof -
  let ?row = "sample_registry_row\<lparr>wo_trust := Trusted\<rparr>"
  let ?mid = "sample_db\<lparr>ac_workers := [?row]\<rparr>"
  let ?k = "\<lparr>wt_id = Uid 9, wt_worker = ''w'', wt_hash = sha256_hex ''sec'', wt_scopes = [''jobs:claim''],
      wt_issued = 5, wt_expires = 105, wt_revoked = None\<rparr>"
  have "worker_approve ''w'' sample_db = Inr ((), ?mid)"
    by (simp add: worker_approve_def tx_simps flush_worker_effect)
      (simp add: sample_db_def find_row_def put_row_def sample_registry_row_def workers_revoked_terminal_def worker_check_def
        sample_texts valid_runtime_types_def int_column_def)
  moreover have "worker_post_init (worker_from_orm ?row) = Inr ()"
    by (simp add: worker_row_valid sample_registry_row_def sample_texts valid_runtime_types_def opt_nonempty_def)
  then have "trusted_worker ''w'' ?mid = Inr ((), ?mid)"
    by (simp add: trusted_worker_def worker_get_def tx_simps find_row_def sample_registry_row_def worker_from_orm_def)
  moreover have "\<exists>db'. worker_credential_add ?k ?mid = Inr ((), db')"
    unfolding worker_credential_add_effect
    by (simp add: worker_credential_to_orm_def worker_credential_check_def worker_credential_keys_def sample_registry_row_def)
      (simp add: sample_db_def)
  moreover have "worker_credential_post_init ?k = Inr ()"
    by (simp add: worker_credential_post_init_def sample_texts valid_credential_scopes_def)
  moreover have "issued_credential_post_init \<lparr>ic_id = Uid 9, ic_worker = ''w'', ic_scopes = [''jobs:claim''], ic_expires = 105,
      ic_secret = ''sec''\<rparr> = Inr ()" by (simp add: issued_credential_post_init_def sample_texts)
  ultimately show ?thesis
    by (simp add: approve_worker_def issue_credential_def session_scope_eq tx_simps valid_credential_scopes_def)
qed

end
