(* ===== verification/Worker_Tokens.thy ===== *)
theory Worker_Tokens
  imports Worker_Access
begin

text \<open>
  The text of a worker's bearer token can be read back: \<open>_parse_token\<close> recovers the credential's id and the
  secret, and \<open>uuid.UUID\<close> reads its own rendering.
\<close>

section \<open>The digits of a uuid\<close>

lemma hex_digits_lower: "c \<in> set (hex_digits n) \<Longrightarrow> \<exists>d < 16. c = hex_digit d"
proof (induction n rule: hex_digits.induct)
  case (1 n)
  have "n mod 16 < 16" by simp
  with 1 show ?case by (cases "n < 16") (auto simp: hex_digits.simps [of n] simp del: mod_less_divisor)
qed

lemma uuid_hex_lower: "c \<in> set (uuid_hex n) \<Longrightarrow> \<exists>d < 16. c = hex_digit d"
proof -
  have "CHR ''0'' = hex_digit 0" by code_simp
  then show "c \<in> set (uuid_hex n) \<Longrightarrow> \<exists>d < 16. c = hex_digit d"
    using hex_digits_lower [of c n] by (auto simp: uuid_hex_def Let_def intro: exI [of _ "0 :: nat"])
qed

text \<open>What the parsers look for does not occur among lower-case digits.\<close>

definition plain_digit :: "char \<Rightarrow> bool" where
  "plain_digit c \<longleftrightarrow> py_hex_char c \<and> lower_ascii c = c \<and> \<not> py_isspace c \<and> c \<notin> set ''+-_:urn{}xX.''"

lemma uuid_hex_plain: "c \<in> set (uuid_hex n) \<Longrightarrow> plain_digit c"
proof -
  have "\<forall>d < 16. plain_digit (hex_digit d)" by code_simp
  then show "c \<in> set (uuid_hex n) \<Longrightarrow> plain_digit c" using uuid_hex_lower [of c n] by auto
qed

lemma hex_digits_length: "n < 16 ^ Suc k \<Longrightarrow> length (hex_digits n) \<le> Suc k"
proof (induction k arbitrary: n)
  case 0
  then show ?case by (simp add: hex_digits.simps [of n])
next
  case (Suc k)
  have "n div 16 < 16 ^ Suc k" using Suc.prems by (simp add: less_mult_imp_div_less)
  then show ?case using Suc.IH [of "n div 16"] by (simp add: hex_digits.simps [of n])
qed

lemma uuid_hex_32: "n < 2 ^ 128 \<Longrightarrow> length (uuid_hex n) = 32"
  using hex_digits_length [of n 31] by (simp add: uuid_hex_def Let_def)

lemma unhexes_uuid_hex: "unhexes 0 (uuid_hex n) = n"
  by (simp add: uuid_hex_def Let_def unhexes_zeros unhexes_hex_digits)

section \<open>Reading a uuid\<close>

lemma py_remove_absent: "c \<in> set w \<Longrightarrow> c \<notin> set s \<Longrightarrow> py_remove w s = s"
proof (induction s)
  case Nil
  show ?case by (simp add: py_remove.simps)
next
  case (Cons x s)
  have "take (length w) (x # s) \<noteq> w" using Cons.prems by (metis in_set_takeD)
  then show ?case using Cons by (auto simp: py_remove.simps [of w "x # s"])
qed

lemma dropWhile_none: "(\<And>x. x \<in> set xs \<Longrightarrow> \<not> P x) \<Longrightarrow> dropWhile P xs = xs"
  by (cases xs) auto

lemma strip_braces_absent: "(\<And>c. c \<in> set s \<Longrightarrow> c \<notin> set ''{}'') \<Longrightarrow> strip_braces s = s"
  unfolding strip_braces_def Let_def using dropWhile_none [of s] dropWhile_none [of "rev s"] by simp

lemma py_strip_visible: "(\<And>c. c \<in> set s \<Longrightarrow> \<not> py_isspace c) \<Longrightarrow> py_strip s = s"
  unfolding py_strip_def py_lstrip_def using dropWhile_none [of s] dropWhile_none [of "rev s"] by simp

lemma ungroup_filter: "filter (\<lambda>c. c \<noteq> CHR ''-'') (uuid_text n) = uuid_hex n"
proof -
  let ?h = "uuid_hex n"
  have part: "filter (\<lambda>c. c \<noteq> CHR ''-'') xs = xs" if "set xs \<subseteq> set ?h" for xs
    using that uuid_hex_plain by (auto simp: filter_id_conv plain_digit_def)
  have sub: "set (take k (drop m ?h)) \<subseteq> set ?h" "set (drop m ?h) \<subseteq> set ?h" "set (take k ?h) \<subseteq> set ?h" for k m
    by (auto dest: in_set_takeD in_set_dropD)
  have "filter (\<lambda>c. c \<noteq> CHR ''-'') (uuid_text n) =
      take 8 ?h @ take 4 (drop 8 ?h) @ take 4 (drop 12 ?h) @ take 4 (drop 16 ?h) @ drop 20 ?h"
    unfolding uuid_text_def Let_def filter_append by (simp only: part sub) simp
  also have "\<dots> = ?h"
    using regroup [of 4 16 ?h] regroup [of 4 12 ?h] regroup [of 4 8 ?h] by simp
  finally show ?thesis .
qed

lemma uuid_text_plain: "c \<in> set (uuid_text n) \<Longrightarrow> plain_digit c \<or> c = CHR ''-''"
  using uuid_hex_plain [of c n] ungroup_filter [of n, THEN arg_cong [where f = set]] by auto

lemma py_int16_digits:
  assumes "\<And>c. c \<in> set h \<Longrightarrow> plain_digit c" and "h \<noteq> []"
  shows "py_int16 h = Some (int (unhexes 0 h))"
proof -
  obtain x r where h: "h = x # r" using assms(2) by (cases h) auto
  have strip: "py_strip h = h" by (rule py_strip_visible) (use assms(1) in \<open>auto simp: plain_digit_def\<close>)
  have x: "x \<noteq> CHR ''-''" "x \<noteq> CHR ''+''" using assms(1) [of x] by (auto simp: h plain_digit_def)
  have "take 2 h \<noteq> ''0x''" "take 2 h \<noteq> ''0X''"
    using assms(1) [of "CHR ''x''"] assms(1) [of "CHR ''X''"] in_set_takeD [of "CHR ''x''" 2 h] in_set_takeD [of "CHR ''X''" 2 h]
    by (auto simp: plain_digit_def)
  then have "unprefixed h = h" by (simp add: unprefixed_def)
  moreover have "py_split (CHR ''_'') h = [h]" by (rule py_split_plain) (use assms(1) in \<open>auto simp: plain_digit_def\<close>)
  moreover have "map lower_ascii h = h" by (rule map_idI) (use assms(1) in \<open>auto simp: plain_digit_def\<close>)
  moreover have "list_all py_hex_char h" using assms(1) by (auto simp: list_all_iff plain_digit_def)
  ultimately show ?thesis using x unfolding py_int16_def strip by (simp add: h)
qed

lemma read_uuid_text: "n < 2 ^ 128 \<Longrightarrow> read_uuid (uuid_text n) = Uid n"
proof -
  assume n: "n < 2 ^ 128"
  have u: "CHR ''u'' \<notin> set (uuid_text n)" using uuid_text_plain [of "CHR ''u''" n] by (auto simp: plain_digit_def)
  have "strip_braces (uuid_text n) = uuid_text n"
    by (rule strip_braces_absent) (use uuid_text_plain in \<open>auto simp: plain_digit_def\<close>)
  moreover have "py_remove ''urn:'' (uuid_text n) = uuid_text n" "py_remove ''uuid:'' (uuid_text n) = uuid_text n"
    using u by (simp_all add: py_remove_absent [of "CHR ''u''"])
  moreover have "uuid_hex n \<noteq> []" using uuid_hex_32 [OF n] by auto
  then have "py_int16 (uuid_hex n) = Some (int n)"
    using py_int16_digits [of "uuid_hex n"] uuid_hex_plain by (simp add: unhexes_uuid_hex)
  ultimately show ?thesis
    using uuid_hex_32 [OF n] n unfolding read_uuid_def by (simp add: ungroup_filter)
qed

section \<open>Reading a token\<close>

lemma py_partition_at: "c \<notin> set p \<Longrightarrow> py_partition c (p @ c # rest) = (p, True, rest)"
  by (simp add: py_partition_def takeWhile_append dropWhile_append)

lemma parse_credential_token:
  assumes "ic_id k = Uid n" and "ic_secret k \<noteq> []"
  shows "parse_token (credential_token k) = Some (uuid_text n, ic_secret k)"
proof -
  have "CHR ''.'' \<notin> set (uuid_text n)" using uuid_text_plain [of "CHR ''.''" n] by (auto simp: plain_digit_def)
  moreover have "uuid_text n \<noteq> []" by (simp add: uuid_text_def Let_def)
  moreover have "CHR ''.'' \<notin> set credential_token_prefix" by (simp add: credential_token_prefix_def)
  ultimately show ?thesis
    using assms py_partition_at [of "CHR ''.''" credential_token_prefix "uuid_text n @ CHR ''.'' # ic_secret k"]
      py_partition_at [of "CHR ''.''" "uuid_text n" "ic_secret k"]
    by (simp add: parse_token_def credential_token_def)
qed

end
