(* ===== verification/Access_Theorems.thy ===== *)
theory Access_Theorems
  imports Access_Sample Worker_Tokens
begin

text \<open>
  What holds of accounts and access: consistent tables, sessions and workers that stay revoked, single-use
  login states, and decisions of the authorization policy read off the tables.
\<close>

section \<open>Reading the tables\<close>

lemma token_hash: "with_token (Some t) f = (if t = [] then svc_raise InvalidCredentialsError else f (hash_token t))"
  by (simp add: with_token_def require_token_hash_def)

text \<open>The session a token stands for.\<close>

definition session_of :: "accessdb \<Rightarrow> string \<Rightarrow> session_row option" where
  "session_of db t = find_row nr_hash (hash_token t) (ac_sessions db)"

definition row_is_live :: "session_row \<Rightarrow> instant \<Rightarrow> bool" where
  "row_is_live r now \<longleftrightarrow> nr_revoked r = None \<and> now < nr_expires r"

lemma session_get_by_token_hash_run:
  assumes "access_ok db"
  shows "session_get_by_token_hash h db = Inr (map_option auth_session_from_orm (find_row nr_hash h (ac_sessions db)), db)"
proof (cases "find_row nr_hash h (ac_sessions db)")
  case (Some r)
  then have "auth_session_post_init (auth_session_from_orm r) = Inr ()"
    using access_okD(4) [OF assms] find_row_SomeD [OF Some] by (simp add: sessions_ok_def)
  then show ?thesis using Some by (simp add: session_get_by_token_hash_def read_session_def tx_simps)
qed (simp add: session_get_by_token_hash_def read_session_def tx_simps)

lemma live_session_run:
  assumes "access_ok db"
  shows "live_session h now db = (case find_row nr_hash h (ac_sessions db) of
      None \<Rightarrow> Inl InvalidCredentialsError
    | Some r \<Rightarrow> if row_is_live r now then Inr (auth_session_from_orm r, db) else Inl InvalidCredentialsError)"
  unfolding live_session_def tx_bind_def session_get_by_token_hash_run [OF assms]
  by (auto simp: session_is_live_def row_is_live_def auth_session_from_orm_def tx_ret_def tx_raise_def split: option.splits)

definition roles_of :: "accessdb \<Rightarrow> string \<Rightarrow> string list" where
  "roles_of db u = map snd (filter (\<lambda>x. fst x = u) (ac_roles db))"

definition memberships_of :: "accessdb \<Rightarrow> string \<Rightarrow> membership_row list" where
  "memberships_of db u = filter (\<lambda>r. mr_user r = u) (ac_memberships db)"

lemma role_list_run:
  assumes "access_ok db" and "known_user db u"
  shows "role_list_for_user u db = Inr (roles_of db u, db)"
proof -
  obtain x where "row_for_email u db = Some x" "ur_email x = u" using row_of_known [OF access_okD(1) [OF assms(1)] assms(2)] by blast
  then show ?thesis by (simp add: role_list_for_user_def tx_simps roles_of_def)
qed

lemma membership_list_run:
  assumes "access_ok db" and "known_user db u"
  shows "membership_list_for_user u db = Inr (map membership_from_orm (memberships_of db u), db)"
proof -
  have mine: "lower_text (mr_user r) = lower_text u \<longleftrightarrow> mr_user r = u" if "r \<in> set (ac_memberships db)" for r
    using that access_okD(2) [OF assms(1)] same_spelling [OF access_okD(1) [OF assms(1)] _ assms(2)] by (auto simp: memberships_ok_def)
  then have "filter (\<lambda>r. lower_text (mr_user r) = lower_text u) (ac_memberships db) = memberships_of db u"
    unfolding memberships_of_def by (intro filter_cong) auto
  moreover have "\<forall>r \<in> set (memberships_of db u). membership_post_init (membership_from_orm r) = Inr ()"
    using access_okD(2) [OF assms(1)] by (auto simp: memberships_ok_def memberships_of_def)
  ultimately show ?thesis by (auto simp: membership_list_for_user_def tx_simps)
qed

definition placements :: "accessdb \<Rightarrow> string \<Rightarrow> (string \<times> string \<times> string option) list" where
  "placements db u = map (\<lambda>r. (mr_competition r, mr_role r, mr_team r)) (memberships_of db u)"

definition principal_of :: "accessdb \<Rightarrow> string \<Rightarrow> resolved_principal" where
  "principal_of db u = \<lparr>rp_subject = u, rp_roles = roles_of db u, rp_memberships = placements db u\<rparr>"

lemma resolve_run:
  assumes ok: "access_ok db"
  shows "resolve (Some t) now db = ((case (t, session_of db t) of
       (_ # _, Some r) \<Rightarrow> if row_is_live r now then Inr (principal_of db (nr_user r)) else Inl InvalidCredentialsError
     | _ \<Rightarrow> Inl InvalidCredentialsError), db)"
proof (cases "t = [] \<or> session_of db t = None")
  case True
  then show ?thesis
    by (auto simp: resolve_def token_hash svc_raise_def session_scope_def session_of_def tx_bind_def
        live_session_run [OF ok] split: list.splits)
next
  case False
  then obtain r where r: "session_of db t = Some r" by auto
  have u: "known_user db (nr_user r)"
    using access_okD(4) [OF ok] find_row_SomeD [OF r [unfolded session_of_def]] by (simp add: sessions_ok_def)
  have "placements db (nr_user r) = map (\<lambda>m. (mb_competition m, mb_role m, mb_team m)) (map membership_from_orm (memberships_of db (nr_user r)))"
    by (simp add: placements_def membership_from_orm_def)
  then show ?thesis
    using False r role_list_run [OF ok u] membership_list_run [OF ok u] live_session_run [OF ok, of "hash_token t" now]
    by (cases t)
      (auto simp: resolve_def token_hash session_of_def session_scope_def tx_bind_def tx_ret_def principal_of_def
        auth_session_from_orm_def)
qed

definition api_principal :: "resolved_principal \<Rightarrow> principal" where
  "api_principal r = principal_for (rp_subject r) (remdups (rp_roles r @ map (\<lambda>(_, role, _). role) (rp_memberships r)))
     (best_effort_team (rp_memberships r)) (rp_roles r) (membership_dict (rp_memberships r))"

lemma db_authenticate_run:
  assumes "access_ok db"
  shows "db_authenticate (Some t) now db = ((case (t, session_of db t) of
       (_ # _, Some r) \<Rightarrow> if row_is_live r now then Inr (api_principal (principal_of db (nr_user r))) else Inl AuthenticationError
     | _ \<Rightarrow> Inl AuthenticationError), db)"
  unfolding db_authenticate_def svc_bind_def svc_catch_def resolve_run [OF assms] api_principal_def svc_ret_def
  by (auto simp: svc_raise_def split: list.splits option.splits)

section \<open>Sessions that ended\<close>

definition ended :: "accessdb \<Rightarrow> string \<Rightarrow> bool" where
  "ended db t \<longleftrightarrow> (\<exists>r \<in> set (ac_sessions db). nr_hash r = hash_token t \<and> nr_revoked r \<noteq> None)"

lemma ended_refused:
  assumes "access_ok db" and "ended db t"
  shows "fst (db_authenticate (Some t) now db) = Inl AuthenticationError"
proof -
  obtain r where r: "r \<in> set (ac_sessions db)" "nr_hash r = hash_token t" "nr_revoked r \<noteq> None" using assms(2) by (auto simp: ended_def)
  then have "session_of db t = Some r"
    using access_okD(4) [OF assms(1)] by (simp add: session_of_def sessions_ok_def find_row_eq_Some_iff)
  then show ?thesis using r(3) by (auto simp: db_authenticate_run [OF assms(1)] row_is_live_def split: list.split)
qed

lemma ended_grows: "ended db t \<Longrightarrow> grown db db' \<Longrightarrow> ended db' t"
  unfolding ended_def grown_def by blast

lemma revoke_ends:
  assumes "session_revoke (Uid (nr_id r)) now db = Inr (x, db')" and "find_row nr_id (nr_id r) (ac_sessions db) = Some r"
    and "nr_hash r = hash_token t" and "nr_revoked r = None"
  shows "ended db' t"
proof -
  have "ac_sessions db' = put_row nr_id (r\<lparr>nr_revoked := Some now\<rparr>) (ac_sessions db)"
    using assms by (simp add: session_revoke_effect)
  moreover have "r\<lparr>nr_revoked := Some now\<rparr> \<in> set (put_row nr_id (r\<lparr>nr_revoked := Some now\<rparr>) (ac_sessions db))"
    using find_row_SomeD [OF assms(2)] by (force simp: put_row_def)
  ultimately show ?thesis using assms(3) unfolding ended_def by (intro bexI [of _ "r\<lparr>nr_revoked := Some now\<rparr>"]) simp_all
qed

lemma live_session_row:
  assumes "access_ok db" and "live_session (hash_token t) now db = Inr (s, mid)"
  shows "\<exists>r. session_of db t = Some r \<and> s = auth_session_from_orm r \<and> mid = db \<and> nr_revoked r = None
     \<and> nr_hash r = hash_token t \<and> find_row nr_id (nr_id r) (ac_sessions db) = Some r"
proof -
  obtain r where r: "find_row nr_hash (hash_token t) (ac_sessions db) = Some r" "row_is_live r now" "s = auth_session_from_orm r" "mid = db"
    using assms(2) by (auto simp: live_session_run [OF assms(1)] split: option.splits if_splits)
  then show ?thesis
    using find_row_SomeD [OF r(1)] access_okD(4) [OF assms(1)]
    by (auto simp: session_of_def row_is_live_def sessions_ok_def find_row_eq_Some_iff)
qed

lemma logout_ends:
  assumes ok: "access_ok db" and run: "logout (Some t) now db = (Inr u, db')"
  shows "ended db' t"
proof -
  from run obtain s mid where s: "live_session (hash_token t) now db = Inr (s, mid)" "session_revoke (sn_id s) now mid = Inr ((), db')"
    by (auto simp: logout_def token_hash svc_raise_def session_scope_eq tx_simps split: if_splits)
  from live_session_row [OF ok s(1)] s(2) show ?thesis by (auto simp: auth_session_from_orm_def intro: revoke_ends)
qed

text \<open>Issuing a session appends one row, and leaves every other row where it was.\<close>

lemma issue_session_effect:
  assumes "issue_session a email now rotated d db = Inr (iz, db')"
  shows "\<exists>r w. ac_sessions db' = ac_sessions db @ [r] \<and> db' = db\<lparr>ac_sessions := ac_sessions db @ [r]\<rparr>
     \<and> row_for_email email db = Some w \<and> nr_user r = ur_email w \<and> nr_hash r = hash_token (sd_token d) \<and> nr_revoked r = None
     \<and> nr_expires r = now + av_ttl a \<and> nr_id r = sd_id d \<and> nr_id r \<notin> nr_id ` set (ac_sessions db)
     \<and> nr_hash r \<notin> nr_hash ` set (ac_sessions db) \<and> sd_token d \<noteq> []
     \<and> iz = \<lparr>iz_id = Uid (sd_id d), iz_user = email, iz_expires = now + av_ttl a, iz_token = sd_token d\<rparr>"
proof -
  let ?s = "\<lparr>sn_id = Uid (sd_id d), sn_user = email, sn_hash = hash_token (sd_token d), sn_issued = now,
    sn_expires = now + av_ttl a, sn_rotated = rotated, sn_revoked = None\<rparr>"
  from assms obtain u where add: "session_add ?s db = Inr (u, db')"
    and iz: "iz = \<lparr>iz_id = Uid (sd_id d), iz_user = email, iz_expires = now + av_ttl a, iz_token = sd_token d\<rparr>"
    and init: "issued_session_post_init iz = Inr ()"
    unfolding issue_session_def by (auto simp: tx_simps)
  from add obtain w r where w: "row_for_email email db = Some w" and r: "auth_session_to_orm ?s (ur_email w) = Inr r"
    and keys: "\<forall>k \<in> set (session_keys r (ac_sessions db)). \<not> snd k" and db': "db' = db\<lparr>ac_sessions := ac_sessions db @ [r]\<rparr>"
    unfolding session_add_effect by auto
  have "sd_token d \<noteq> []" using init by (auto simp: iz issued_session_post_init_def nonempty_iff split: if_splits)
  then show ?thesis using w keys db' iz session_to_orm_cols [OF r] by (auto simp: session_keys_def)
qed

lemma refresh_ends:
  assumes ok: "access_ok db" and run: "refresh a (Some t) d now db = (Inr iz, db')"
  shows "ended db' t"
proof -
  from run obtain s mid m u where s: "live_session (hash_token t) now db = Inr (s, mid)"
    and iss: "issue_session a (sn_user s) now (Some (sn_id s)) d mid = Inr (iz, m)"
    and rev: "session_revoke (sn_id s) now m = Inr (u, db')"
    by (auto simp: refresh_def token_hash svc_raise_def session_scope_eq tx_simps split: if_splits)
  from live_session_row [OF ok s] obtain r where r: "s = auth_session_from_orm r" "mid = db" "nr_revoked r = None"
    "nr_hash r = hash_token t" "find_row nr_id (nr_id r) (ac_sessions db) = Some r" by blast
  from issue_session_effect [OF iss] obtain n where "ac_sessions m = ac_sessions db @ [n]" unfolding r(2) by blast
  then have "find_row nr_id (nr_id r) (ac_sessions m) = Some r" using r(5) by (simp add: find_row_append)
  with rev r show ?thesis by (auto simp: auth_session_from_orm_def intro: revoke_ends)
qed

lemma after_steady:
  assumes "\<forall>k \<in> set calls. well_formed_access k" and "well_formed_access c"
  shows "access_ok (run_access c (access_after cs ts calls))"
  using run_access_steady [OF access_after_ok [OF assms(1)] assms(2)] by (simp add: steady_def)

text \<open>
  C32. A session that ended stays ended. Once a token was logged out, or exchanged for a new one, no later
  sequence of calls makes the API accept it again: at any instant, \<open>DbAuthenticator\<close> answers with its one
  undifferentiated error. This does not rest on the digest having no collisions: a second session with the
  same digest is refused by the unique key.
\<close>
theorem ended_session_stays_ended:
  assumes calls: "\<forall>k \<in> set calls. well_formed_access k" and db: "db = access_after cs ts calls"
    and ended: "(\<exists>u. logout (Some t) now db = (Inr u, db')) \<or> (\<exists>a d iz. refresh a (Some t) d now db = (Inr iz, db'))"
    and wf: "\<forall>k \<in> set later. well_formed_access k"
  shows "fst (db_authenticate (Some t) moment (run_accesses later db')) = Inl AuthenticationError"
proof -
  have ok: "access_ok db" unfolding db by (rule access_after_ok [OF calls])
  have e: "ended db' t" using ended logout_ends [OF ok] refresh_ends [OF ok] by blast
  have "steady db db'" using ended
  proof (elim disjE exE)
    fix u assume "logout (Some t) now db = (Inr u, db')"
    then show ?thesis using run_access_steady [OF ok, of "Logout (Some t) now"] by (simp add: after_def)
  next
    fix a d iz assume "refresh a (Some t) d now db = (Inr iz, db')"
    then show ?thesis using run_access_steady [OF ok, of "Refresh a (Some t) d now"] by (simp add: after_def)
  qed
  then have "steady db' (run_accesses later db')" by (intro run_accesses_steady wf) (simp add: steady_def)
  then show ?thesis using e by (intro ended_refused ended_grows [OF e]) (simp_all add: steady_def)
qed

theorem ended_session_stays_ended_witness:
  "fst (db_authenticate (Some ''tok'') 9 (run_accesses [GrantRole ''a@x.y'' ''admin'']
     (snd (logout (Some ''tok'') 5 (access_after [''cup''] [] sample_calls))))) = Inl AuthenticationError"
  by (rule ended_session_stays_ended [OF sample_well_formed refl, where cs = "[''cup'']" and ts = "[]" and t = "''tok''" and now = 5])
    (simp_all add: sample_after sample_logout)

section \<open>Single-use login states\<close>

definition state_gone :: "string \<Rightarrow> accessdb \<Rightarrow> bool" where
  "state_gone h db \<longleftrightarrow> (\<forall>r \<in> set (ac_logins db). gl_state r \<noteq> h)"

lemma state_gone_add [keeps_intro]:
  "tx_keeps (state_gone h) (user_add u)" "tx_keeps (state_gone h) (session_add s)"
  by (auto simp: tx_keeps_def user_add_effect session_add_effect state_gone_def)

lemma complete_login_state_gone: "svc_keeps (state_gone h) (complete_login c a ask co t d now)"
proof -
  have reg: "svc_keeps (state_gone h) (identity_register u)" for u
    unfolding identity_register_def by (intro keeps_intro)
  have "svc_keeps (state_gone h) (case e of
        IntegrityError _ \<Rightarrow> svc_bind (identity_get (us_email u)) (\<lambda>found.
          if found = None then svc_raise OidcAuthError else svc_ret ())
      | ValueError \<Rightarrow> svc_raise OidcAuthError
      | _ \<Rightarrow> svc_raise e)" for e u
    by (cases e) (simp_all add: identity_get_def svc_keeps_bind svc_keeps_scope svc_keeps_pure read_row_keeps)
  then have "svc_keeps (state_gone h) (provision u)" for u
    unfolding provision_def by (intro svc_keeps_catch) (intro keeps_intro reg; simp)+
  moreover have "svc_keeps (state_gone h) (issue_federated_session a email now d)" for email
    unfolding issue_federated_session_def issue_session_def by (intro keeps_intro construct_keeps)
  ultimately show ?thesis unfolding complete_login_def provision_if_needed_def identity_get_def by (intro keeps_intro)
qed

lemma login_consume_run:
  assumes "access_ok db"
  shows "\<exists>x. session_scope (login_consume h now) db =
      (Inr x, db\<lparr>ac_logins := filter (\<lambda>y. gl_state y \<noteq> h) (ac_logins db)\<rparr>)
    \<and> (\<forall>t. x = Some t \<longrightarrow> (\<exists>r \<in> set (ac_logins db). gl_state r = h \<and> now < gl_expires r \<and> t = oidc_login_transaction_from_orm r))"
proof (cases "find_row gl_state h (ac_logins db)")
  case None
  then have "filter (\<lambda>y. gl_state y \<noteq> h) (ac_logins db) = ac_logins db" by (simp add: find_row_None_iff filter_id_conv)
  then show ?thesis using None
    by (intro exI [of _ None]) (simp add: session_scope_eq login_consume_effect)
next
  case (Some r)
  have "login_transaction_post_init (oidc_login_transaction_from_orm r) = Inr ()"
    using access_okD(6) [OF assms] find_row_SomeD [OF Some] by (simp add: logins_ok_def)
  then show ?thesis using Some find_row_SomeD [OF Some]
    by (intro exI [of _ "if now < gl_expires r then Some (oidc_login_transaction_from_orm r) else None"])
      (auto simp: session_scope_eq login_consume_effect)
qed

lemma callback_run:
  assumes "access_ok db" and "co \<noteq> []" and "st \<noteq> []"
  shows "\<exists>x mid. mid = db\<lparr>ac_logins := filter (\<lambda>y. gl_state y \<noteq> sha256_hex st) (ac_logins db)\<rparr>
    \<and> (\<forall>t. x = Some t \<longrightarrow> (\<exists>r \<in> set (ac_logins db). gl_state r = sha256_hex st \<and> now < gl_expires r \<and> t = oidc_login_transaction_from_orm r))
    \<and> handle_callback c a ask (Some co) (Some st) b d now db =
       (case x of None \<Rightarrow> (Inl OidcAuthError, mid)
        | Some t \<Rightarrow> if b = None \<or> b = Some [] \<or> map_option sha256_hex b \<noteq> Some (lt_binding t) then (Inl OidcAuthError, mid)
           else complete_login c a ask co t d now mid)"
proof -
  obtain x where x: "session_scope (login_consume (sha256_hex st) now) db =
      (Inr x, db\<lparr>ac_logins := filter (\<lambda>y. gl_state y \<noteq> sha256_hex st) (ac_logins db)\<rparr>)"
    "\<forall>t. x = Some t \<longrightarrow> (\<exists>r \<in> set (ac_logins db). gl_state r = sha256_hex st \<and> now < gl_expires r \<and> t = oidc_login_transaction_from_orm r)"
    using login_consume_run [OF assms(1)] by blast
  then show ?thesis using assms(2,3)
    by (intro exI [of _ x] exI [of _ "db\<lparr>ac_logins := filter (\<lambda>y. gl_state y \<noteq> sha256_hex st) (ac_logins db)\<rparr>"])
      (auto simp: handle_callback_def svc_bind_def svc_raise_def split: option.splits)
qed



text \<open>
  C36. A federated session is bound to its login. A callback answers with a session only for the browser
  that began the login (the cookie has the transaction's digest), before the transaction expires, from an
  ID token that the provider issued for the transaction's PKCE verifier and that repeats its nonce, and the
  session belongs to the email of that token, which the provider marked as verified and whose domain is
  allowed.
\<close>
theorem federated_session_is_bound:
  assumes calls: "\<forall>k \<in> set calls. well_formed_access k" and db: "db = access_after cs ts calls"
    and given: "co \<noteq> []" "st \<noteq> []"
    and run: "handle_callback c a ask (Some co) (Some st) b d now db = (Inr iz, db')"
  shows "\<exists>r cookie k email. r \<in> set (ac_logins db) \<and> gl_state r = sha256_hex st \<and> now < gl_expires r
     \<and> b = Some cookie \<and> gl_binding r = sha256_hex cookie \<and> ask co (gl_verifier r) = Inr k
     \<and> claim_value ''nonce'' k = Some (JStr (gl_nonce r)) \<and> claim_value ''email'' k = Some (JStr email)
     \<and> is_true (claim_value ''email_verified'' k) \<and> domain_allowed c email
     \<and> iz_user iz = email \<and> iz_token iz = sd_token d \<and> (\<exists>w. row_for_email email db' = Some w)"
proof -
  have ok: "access_ok db" unfolding db by (rule access_after_ok [OF calls])
  obtain x mid where x: "\<forall>t. x = Some t \<longrightarrow> (\<exists>r \<in> set (ac_logins db). gl_state r = sha256_hex st \<and> now < gl_expires r
        \<and> t = oidc_login_transaction_from_orm r)"
    and eq: "handle_callback c a ask (Some co) (Some st) b d now db =
       (case x of None \<Rightarrow> (Inl OidcAuthError, mid)
        | Some t \<Rightarrow> if b = None \<or> b = Some [] \<or> map_option sha256_hex b \<noteq> Some (lt_binding t) then (Inl OidcAuthError, mid)
           else complete_login c a ask co t d now mid)" using callback_run [OF ok given, of now c a ask b d] by - (elim exE conjE, rule that, assumption+)
  from run eq obtain t cookie where t: "x = Some t" "b = Some cookie" "sha256_hex cookie = lt_binding t"
    and login: "complete_login c a ask co t d now mid = (Inr iz, db')" by (auto split: option.splits if_splits)
  from x t(1) obtain r where r: "r \<in> set (ac_logins db)" "gl_state r = sha256_hex st" "now < gl_expires r"
    "t = oidc_login_transaction_from_orm r" by blast
  from login obtain k k' email m where k: "ask co (lt_verifier t) = Inr k" "check_claims c (lt_nonce t) k = Inr k'"
    "verified_email c k' = Inr email" and iss: "issue_federated_session a email now d m = (Inr iz, db')"
    unfolding complete_login_def svc_bind_def svc_raise_def by (auto split: sum.splits prod.splits)
  have k': "k' = k" "claim_value ''nonce'' k = Some (JStr (lt_nonce t))"
    using k(2) by (auto simp: check_claims_def Let_def split: if_splits)
  have mail: "claim_value ''email'' k = Some (JStr email)" "is_true (claim_value ''email_verified'' k)" "domain_allowed c email"
    using k(3) k'(1) by (auto simp: verified_email_def split: option.splits json.splits if_splits)
  have "issue_session a email now None d m = Inr (iz, db')"
    using iss by (simp add: issue_federated_session_def session_scope_eq)
  from issue_session_effect [OF this] obtain n w where "db' = m\<lparr>ac_sessions := ac_sessions m @ [n]\<rparr>" "row_for_email email m = Some w"
    "iz_user iz = email" "iz_token iz = sd_token d" by auto
  then show ?thesis
    using r t k k' mail by (auto simp: oidc_login_transaction_from_orm_def row_for_email_def)
qed

theorem federated_session_is_bound_witness:
  "\<exists>r cookie k email. r \<in> set (ac_logins pending_db) \<and> gl_state r = sha256_hex ''st'' \<and> 5 < gl_expires r
     \<and> Some ''b'' = Some cookie \<and> gl_binding r = sha256_hex cookie \<and> sample_provider ''co'' (gl_verifier r) = Inr k
     \<and> claim_value ''nonce'' k = Some (JStr (gl_nonce r)) \<and> claim_value ''email'' k = Some (JStr email)
     \<and> is_true (claim_value ''email_verified'' k) \<and> domain_allowed sample_oidc email \<and> email = ''a@x.y''"
proof -
  obtain db' where run: "handle_callback sample_oidc sample_auth sample_provider (Some ''co'') (Some ''st'') (Some ''b'')
      \<lparr>sd_id = 7, sd_token = ''tok''\<rparr> 5 pending_db =
    (Inr \<lparr>iz_id = Uid 7, iz_user = ''a@x.y'', iz_expires = 105, iz_token = ''tok''\<rparr>, db')" using sample_callback by blast
  show ?thesis
    using federated_session_is_bound [OF pending_well_formed pending_after [symmetric] _ _ run] by auto
qed

end
