(* ===== verification/Policy_Theorems.thy ===== *)
theory Policy_Theorems
  imports Access_Theorems
begin

text \<open>
  What the authorization policy decides for the principal of a stored session, what a login issues and
  what a worker's token admits.
\<close>

section \<open>The principal of a session\<close>

lemma map_of_updates:
  "map_of (fold (\<lambda>(c, role, team). AList.update c (role, team)) ms al) = map_of al ++ map_of (rev ms)"
proof (induction ms arbitrary: al)
  case Nil
  show ?case by simp
next
  case (Cons m ms)
  obtain c v w where m: "m = (c, v, w)" by (cases m)
  have "map_of (fold (\<lambda>(c, role, team). AList.update c (role, team)) (m # ms) al) = map_of (AList.update c (v, w) al) ++ map_of (rev ms)"
    using Cons.IH by (simp add: m)
  then show ?case by (simp add: m update_conv' map_add_assoc)
qed

lemma membership_dict_keys: "distinct (map fst (membership_dict ms))"
proof -
  have "distinct (map fst al) \<Longrightarrow> distinct (map fst (fold (\<lambda>(c, role, team). AList.update c (role, team)) ms al))" for al
    by (induction ms arbitrary: al) (auto simp: distinct_update)
  then show ?thesis by (simp add: membership_dict_def)
qed

lemma membership_dict_map:
  assumes "distinct (map fst ms)"
  shows "map_of (membership_dict ms) c = map_of ms c"
proof -
  have "map_of (rev ms) = map_of ms" by (rule map_of_inject_set [THEN iffD2]) (use assms in \<open>simp_all add: rev_map [symmetric]\<close>)
  then show ?thesis unfolding membership_dict_def map_of_updates by simp
qed

lemma placements_distinct:
  assumes "access_ok db"
  shows "distinct (map fst (placements db u))"
proof -
  have "distinct (map membership_key (memberships_of db u))"
    using access_okD(2) [OF assms] by (simp add: memberships_ok_def memberships_of_def distinct_map_filter)
  then have "inj_on membership_key (set (memberships_of db u))" "distinct (memberships_of db u)" by (simp_all add: distinct_map)
  moreover have "inj_on mr_competition (set (memberships_of db u))"
  proof (rule inj_onI)
    fix x y assume "x \<in> set (memberships_of db u)" "y \<in> set (memberships_of db u)" "mr_competition x = mr_competition y"
    then show "x = y" by (intro inj_onD [OF calculation(1)]) (simp_all add: membership_key_def memberships_of_def)
  qed
  ultimately show ?thesis by (simp add: placements_def comp_def distinct_map)
qed

lemma placement_lookup:
  assumes "access_ok db"
  shows "map_of (membership_dict (placements db u)) c = Some (role, team) \<longleftrightarrow>
     (\<exists>r \<in> set (ac_memberships db). mr_user r = u \<and> mr_competition r = c \<and> mr_role r = role \<and> mr_team r = team)"
  unfolding membership_dict_map [OF placements_distinct [OF assms]] map_of_eq_Some_iff [OF placements_distinct [OF assms]]
  by (auto simp: placements_def memberships_of_def image_iff)

lemma api_principal_simps:
  "pp_system_roles (api_principal r) = rp_roles r" "pp_memberships (api_principal r) = membership_dict (rp_memberships r)"
  "pp_permissions (api_principal r) = resolve_permissions (rp_roles r @ map (\<lambda>(_, role, _). role) (rp_memberships r))"
  "pp_subject (api_principal r) = rp_subject r"
  by (simp_all add: api_principal_def principal_for_def resolve_permissions_def)

lemma in_roles_of: "role \<in> set (roles_of db u) \<longleftrightarrow> (u, role) \<in> set (ac_roles db)"
  by (force simp: roles_of_def)

lemma in_effective_roles:
  "role \<in> set (competition_effective_roles p c) \<longleftrightarrow> role \<in> set (pp_system_roles p)
     \<or> (\<exists>team. map_of (pp_memberships p) c = Some (role, team))"
  by (cases "map_of (pp_memberships p) c") (auto simp: competition_effective_roles_def)

lemma gate_reads_rows:
  assumes ok: "access_ok db" and s: "t \<noteq> []" "session_of db t = Some s" "row_is_live s now" and c: "c \<noteq> []"
  shows "\<exists>p. db_authenticate (Some t) now db = (Inr p, db) \<and> pp_subject p = nr_user s
     \<and> (assert_competition_permission p (Some c) perm = Inr () \<longleftrightarrow>
          (\<exists>role. perm \<in> role_permissions role \<and> ((nr_user s, role) \<in> set (ac_roles db)
             \<or> (\<exists>r \<in> set (ac_memberships db). mr_user r = nr_user s \<and> mr_competition r = c \<and> mr_role r = role))))"
proof (intro exI conjI)
  let ?p = "api_principal (principal_of db (nr_user s))"
  show "db_authenticate (Some t) now db = (Inr ?p, db)" using s by (cases t) (simp_all add: db_authenticate_run [OF ok])
  show "pp_subject ?p = nr_user s" by (simp add: api_principal_simps principal_of_def)
  have "assert_competition_permission ?p (Some c) perm = Inr () \<longleftrightarrow>
      (\<exists>role \<in> set (competition_effective_roles ?p c). perm \<in> role_permissions role)"
    using c by (simp add: assert_competition_permission_def competition_permissions_def resolve_permissions_def)
  also have "\<dots> \<longleftrightarrow> (\<exists>role. perm \<in> role_permissions role \<and> ((nr_user s, role) \<in> set (ac_roles db)
             \<or> (\<exists>team. map_of (membership_dict (placements db (nr_user s))) c = Some (role, team))))"
    unfolding Bex_def in_effective_roles api_principal_simps principal_of_def by (auto simp: in_roles_of)
  finally show "assert_competition_permission ?p (Some c) perm = Inr () \<longleftrightarrow>
      (\<exists>role. perm \<in> role_permissions role \<and> ((nr_user s, role) \<in> set (ac_roles db)
             \<or> (\<exists>r \<in> set (ac_memberships db). mr_user r = nr_user s \<and> mr_competition r = c \<and> mr_role r = role)))"
    unfolding placement_lookup [OF ok] by blast
qed


lemma sample_session:
  "session_of (access_after [''cup''] [] sample_calls) ''tok'' = Some sample_session_row" "row_is_live sample_session_row 5"
  by (simp_all add: session_of_def hash_token_def sample_after sample_session_found row_is_live_def sample_session_row_def)


text \<open>
  The filter of the cross-competition lists agrees with the gate. For every principal whose memberships
  form a dict, \<open>authorized_competitions\<close> names exactly the competitions the gate admits (all of them when a
  system role grants the permission), and the coarse check before a list refuses exactly the callers who
  hold the permission in no competition.
\<close>
theorem authorized_competitions_is_the_gate:
  assumes "distinct (map fst (pp_memberships p))" and "[] \<notin> fst ` set (pp_memberships p)"
  shows "(case authorized_competitions p perm of None \<Rightarrow> \<forall>c. c \<noteq> [] \<longrightarrow> assert_competition_permission p (Some c) perm = Inr ()
      | Some cs \<Rightarrow> set cs = {c. assert_competition_permission p (Some c) perm = Inr ()})
    \<and> (require_any_competition_permission perm p = Inr p
        \<longleftrightarrow> (\<exists>c. assert_competition_permission p (Some c) perm = Inr ()))
    \<and> (require_any_competition_permission perm p \<noteq> Inr p \<longrightarrow>
         require_any_competition_permission perm p = Inl AuthorizationError)"
proof -
  have gate: "assert_competition_permission p (Some c) perm = Inr () \<longleftrightarrow> c \<noteq> [] \<and> (perm \<in> resolve_permissions (pp_system_roles p)
      \<or> (\<exists>role team. map_of (pp_memberships p) c = Some (role, team) \<and> perm \<in> role_permissions role))" for c
    using in_effective_roles [of _ p c]
    by (auto simp: assert_competition_permission_def competition_permissions_def resolve_permissions_def)
  show ?thesis
  proof (cases "perm \<in> resolve_permissions (pp_system_roles p)")
    case True
    then have "assert_competition_permission p (Some ''c'') perm = Inr ()" by (simp add: gate)
    then show ?thesis using True by (auto simp: authorized_competitions_def require_any_competition_permission_def gate)
  next
    case False
    let ?cs = "map fst (filter (\<lambda>(c, role, team). perm \<in> role_permissions role) (pp_memberships p))"
    have set: "set ?cs = {c. assert_competition_permission p (Some c) perm = Inr ()}"
      using False assms by (auto simp: gate map_of_eq_Some_iff image_iff; fastforce)
    have auth: "authorized_competitions p perm = Some ?cs" using False by (simp add: authorized_competitions_def)
    have "?cs = [] \<longleftrightarrow> \<not> (\<exists>c. assert_competition_permission p (Some c) perm = Inr ())"
      using set by (metis (mono_tags, lifting) Collect_empty_eq set_empty2)
    then show ?thesis using set unfolding auth require_any_competition_permission_def
      by (simp del: map_is_Nil_conv set_map)
  qed
qed

theorem authorized_competitions_is_the_gate_witness:
  "set (the (authorized_competitions (principal_for ''a'' [] None [] [(''cup'', ''organizer'', None), (''open'', ''player'', None)])
       INSTANCE_READ)) =
     {c. assert_competition_permission (principal_for ''a'' [] None [] [(''cup'', ''organizer'', None), (''open'', ''player'', None)])
       (Some c) INSTANCE_READ = Inr ()}"
proof -
  let ?p = "principal_for ''a'' [] None [] [(''cup'', ''organizer'', None), (''open'', ''player'', None)]"
  have "authorized_competitions ?p INSTANCE_READ \<noteq> None"
    by (simp add: authorized_competitions_def principal_for_def resolve_permissions_def)
  then show ?thesis
    using authorized_competitions_is_the_gate [of ?p INSTANCE_READ] by (auto simp: principal_for_def)
qed

section \<open>Roles that memberships hand out\<close>

lemma put_row_mem: "r \<in> set rows \<Longrightarrow> key new = key r \<Longrightarrow> new \<in> set (put_row key new rows)"
  unfolding put_row_def set_map by (rule image_eqI [of _ _ r]) simp_all

lemma in_placements: "r \<in> set (ac_memberships db) \<Longrightarrow> mr_user r = u \<Longrightarrow>
    (mr_competition r, mr_role r, mr_team r) \<in> set (placements db u)"
  unfolding placements_def memberships_of_def set_map by (rule image_eqI [of _ _ r]) simp_all

lemma membership_get_run:
  assumes ok: "access_ok db" and r: "r \<in> set (ac_memberships db)"
  shows "membership_get (mr_user r) (mr_competition r) db = Inr (Some (membership_from_orm r), db)"
proof -
  let ?key = "\<lambda>r. (lower_text (mr_user r), mr_competition r)"
  obtain x where x: "find_row ?key (?key r) (ac_memberships db) = Some x"
    using r by (metis (no_types, lifting) find_row_None_iff not_Some_eq)
  note mem = find_row_SomeD [OF x]
  have "mr_user x = mr_user r"
  proof (rule same_spelling [OF access_okD(1) [OF ok]])
    show "known_user db (mr_user x)" "known_user db (mr_user r)"
      using mem r access_okD(2) [OF ok] by (simp_all add: memberships_ok_def)
    show "lower_text (mr_user x) = lower_text (mr_user r)" using mem by simp
  qed
  then have "x = r"
    using unique_row [of membership_key "ac_memberships db" x r] mem r access_okD(2) [OF ok]
    by (simp add: memberships_ok_def membership_key_def)
  moreover have "membership_post_init (membership_from_orm r) = Inr ()" using r access_okD(2) [OF ok] by (simp add: memberships_ok_def)
  ultimately show ?thesis using x by (simp add: membership_get_def tx_simps)
qed

lemma assign_membership_run:
  assumes ok: "access_ok db" and r: "r \<in> set (ac_memberships db)" and role: "role \<in> set valid_roles"
  defines "new \<equiv> r\<lparr>mr_role := role, mr_team := None\<rparr>"
  defines "db' \<equiv> db\<lparr>ac_memberships := put_row membership_key new (ac_memberships db)\<rparr>"
  shows "assign_membership (mr_competition r) (mr_user r) role None db = (Inr (membership_from_orm new), db')"
    and "access_ok db'" and "new \<in> set (ac_memberships db')"
proof -
  let ?m = "\<lparr>mb_user = mr_user r, mb_competition = mr_competition r, mb_role = role, mb_team = None\<rparr>"
  have row: "known_user db (mr_user r)" "mr_competition r \<in> set (ac_competitions db)"
    "membership_post_init (membership_from_orm r) = Inr ()" "find_row membership_key (membership_key r) (ac_memberships db) = Some r"
    using r access_okD(2) [OF ok] by (simp_all add: memberships_ok_def find_row_eq_Some_iff)
  obtain w where w: "row_for_email (mr_user r) db = Some w" "ur_email w = mr_user r"
    using row_of_known [OF access_okD(1) [OF ok] row(1)] by blast
  have init: "membership_post_init ?m = Inr ()"
    using row(3) role by (simp add: membership_post_init_def membership_from_orm_def opt_nonempty_def split: if_splits)
  have upd: "membership_update ?m db = Inr ((), db')"
    using w row(2,4) role unfolding membership_update_effect
    by (simp add: db'_def new_def membership_to_orm_def membership_check_def membership_key_def)
  show ok': "access_ok db'" by (rule membership_update_ok [OF ok init upd])
  show mem: "new \<in> set (ac_memberships db')" 
    using put_row_mem [OF r, of membership_key new] by (simp add: db'_def new_def membership_key_def)
  have "membership_get (mr_user r) (mr_competition r) db' = Inr (Some (membership_from_orm new), db')"
    using membership_get_run [OF ok' mem] by (simp add: new_def)
  then show "assign_membership (mr_competition r) (mr_user r) role None db = (Inr (membership_from_orm new), db')"
    using membership_get_run [OF ok r] upd
    by (simp add: assign_membership_def init upsert_membership_def tx_bind_def session_scope_def svc_bind_def svc_ret_def)
qed

lemma bearer_token_nonempty: "bearer_token header = Some t \<Longrightarrow> t \<noteq> []"
  by (auto simp: bearer_token_def split: option.splits if_splits prod.splits)



end
