(* ===== verification/Password_Hashing.thy ===== *)
theory Password_Hashing
  imports Access_Service
begin

text \<open>
  \<open>application/auth/hashing.py\<close>: PBKDF2-HMAC-SHA256 over the SHA-256 of the library, its portable encoding
  \<open>pbkdf2_sha256$<iterations>$<salt>$<digest>\<close> in base64, and the parser that reads it back. Bytes are
  numbers below 256. The derived key has the size of one digest, so PBKDF2 computes a single block.
\<close>

unbundle bit_operations_syntax

section \<open>Base64\<close>

definition b64_char :: "nat \<Rightarrow> char" where
  "b64_char n = (if n < 26 then char_of (65 + n) else if n < 52 then char_of (71 + n)
     else if n < 62 then char_of (n - 4) else if n = 62 then CHR ''+'' else CHR ''/'')"

definition b64_value :: "char \<Rightarrow> nat option" where
  "b64_value c = (let n = of_char c :: nat in
     if 65 \<le> n \<and> n \<le> 90 then Some (n - 65) else if 97 \<le> n \<and> n \<le> 122 then Some (n - 71)
     else if 48 \<le> n \<and> n \<le> 57 then Some (n + 4) else if c = CHR ''+'' then Some 62
     else if c = CHR ''/'' then Some 63 else None)"

fun b64encode :: "nat list \<Rightarrow> string" where
  "b64encode [] = []"
| "b64encode [a] = [b64_char (a div 4), b64_char (a mod 4 * 16), CHR ''='', CHR ''='']"
| "b64encode [a, b] = [b64_char (a div 4), b64_char (a mod 4 * 16 + b div 16), b64_char (b mod 16 * 4), CHR ''='']"
| "b64encode (a # b # c # r) = b64_char (a div 4) # b64_char (a mod 4 * 16 + b div 16)
     # b64_char (b mod 16 * 4 + c div 64) # b64_char (c mod 64) # b64encode r"

text \<open>
  \<open>base64.b64decode(s, validate=True)\<close>: groups of four digits, the last one possibly padded; anything else
  raises. Unused low bits of a padded group are ignored.
\<close>

fun b64decode :: "string \<Rightarrow> nat list option" where
  "b64decode [] = Some []"
| "b64decode (w # x # y # z # r) = (case (b64_value w, b64_value x, b64_value y, b64_value z) of
       (Some a, Some b, Some c, Some d) \<Rightarrow>
         map_option (\<lambda>bs. (a * 4 + b div 16) # (b mod 16 * 16 + c div 4) # (c mod 4 * 64 + d) # bs) (b64decode r)
     | (Some a, Some b, Some c, None) \<Rightarrow>
         if z = CHR ''='' \<and> r = [] then Some [a * 4 + b div 16, b mod 16 * 16 + c div 4] else None
     | (Some a, Some b, None, None) \<Rightarrow>
         if y = CHR ''='' \<and> z = CHR ''='' \<and> r = [] then Some [a * 4 + b div 16] else None
     | _ \<Rightarrow> None)"
| "b64decode _ = None"

section \<open>Key derivation\<close>

definition sha256_bytes :: "nat list \<Rightarrow> nat list" where
  "sha256_bytes m = concat (map (\<lambda>w. be_bytes 4 (unat w)) (sha256 m))"

definition hmac_key :: "nat list \<Rightarrow> nat list" where
  "hmac_key k = (let b = (if length k > 64 then sha256_bytes k else k) in b @ replicate (64 - length b) 0)"

definition hmac_sha256 :: "nat list \<Rightarrow> nat list \<Rightarrow> nat list" where
  "hmac_sha256 key m = sha256_bytes (map (\<lambda>b. b XOR 92) (hmac_key key)
     @ sha256_bytes (map (\<lambda>b. b XOR 54) (hmac_key key) @ m))"

fun pbkdf2_rounds :: "nat \<Rightarrow> nat list \<Rightarrow> nat list \<Rightarrow> nat list \<Rightarrow> nat list" where
  "pbkdf2_rounds 0 key u acc = acc"
| "pbkdf2_rounds (Suc n) key u acc = (let v = hmac_sha256 key u in pbkdf2_rounds n key v (map2 (XOR) acc v))"

definition derive :: "string \<Rightarrow> nat list \<Rightarrow> nat \<Rightarrow> nat list" where
  "derive password salt iterations = (let u = hmac_sha256 (utf8 password) (salt @ [0, 0, 0, 1])
     in pbkdf2_rounds (iterations - 1) (utf8 password) u u)"

section \<open>The encoded hash\<close>

definition algorithm_name :: string where
  "algorithm_name = ''pbkdf2_sha256''"

definition default_pbkdf2_iterations :: nat where
  "default_pbkdf2_iterations = 600000"

text \<open>\<open>int(s)\<close> for decimal text.\<close>

definition py_digit :: "char \<Rightarrow> bool" where
  "py_digit c \<longleftrightarrow> 48 \<le> (of_char c :: nat) \<and> of_char c < (58 :: nat)"

definition py_int10 :: "string \<Rightarrow> int option" where
  "py_int10 s = (let t = py_strip s;
       (neg, u) = (case t of [] \<Rightarrow> (False, t) | c # r \<Rightarrow> if c = CHR ''-'' then (True, r)
           else if c = CHR ''+'' then (False, r) else (False, t));
       groups = py_split (CHR ''_'') u
     in if list_all (\<lambda>g. g \<noteq> [] \<and> list_all py_digit g) groups
        then Some ((if neg then -1 else 1) * int (undigits10 0 (concat groups))) else None)"

definition parse_encoded :: "string \<Rightarrow> (string \<times> int \<times> nat list \<times> nat list) option" where
  "parse_encoded encoded = (case py_split (CHR ''$'') encoded of
       [algorithm, iterations, salt, dk] \<Rightarrow> (case py_int10 iterations of None \<Rightarrow> None
         | Some n \<Rightarrow> if n < 1 then None
             else (case (b64decode salt, b64decode dk) of
                 (Some s, Some d) \<Rightarrow> if s = [] \<or> d = [] then None else Some (algorithm, n, s, d)
               | _ \<Rightarrow> None))
     | _ \<Rightarrow> None)"

definition hasher_init :: "int \<Rightarrow> exn + int" where
  "hasher_init iterations = (if iterations < 1 then Inl ValueError else Inr iterations)"

definition encode_hash :: "nat \<Rightarrow> string \<Rightarrow> nat list \<Rightarrow> string" where
  "encode_hash iterations password salt = algorithm_name @ ''$'' @ py_str_int (int iterations) @ ''$''
     @ b64encode salt @ ''$'' @ b64encode (derive password salt iterations)"

definition hash_password :: "nat \<Rightarrow> string \<Rightarrow> nat list \<Rightarrow> exn + string" where
  "hash_password iterations password salt =
     (if password = [] then Inl ValueError else Inr (encode_hash iterations password salt))"

definition verify_password :: "string \<Rightarrow> string \<Rightarrow> bool" where
  "verify_password password encoded = (case parse_encoded encoded of None \<Rightarrow> False
     | Some (algorithm, n, salt, dk) \<Rightarrow> algorithm = algorithm_name \<and> derive password salt (nat n) = dk)"

definition hash_needs_rehash :: "nat \<Rightarrow> string \<Rightarrow> bool" where
  "hash_needs_rehash iterations encoded = (case parse_encoded encoded of None \<Rightarrow> True
     | Some (algorithm, n, salt, dk) \<Rightarrow> algorithm \<noteq> algorithm_name \<or> n < int iterations)"

definition pbkdf2_hasher :: "nat \<Rightarrow> password_hasher" where
  "pbkdf2_hasher iterations = \<lparr>ph_hash = hash_password iterations, ph_verify = verify_password,
     ph_needs_rehash = hash_needs_rehash iterations\<rparr>"

definition default_password_hasher :: password_hasher where
  "default_password_hasher = pbkdf2_hasher default_pbkdf2_iterations"

section \<open>Reading it back\<close>

lemma b64_char_code: "n < 64 \<Longrightarrow> (of_char (b64_char n) :: nat) =
    (if n < 26 then 65 + n else if n < 52 then 71 + n else if n < 62 then n - 4 else if n = 62 then 43 else 47)"
  by (simp add: b64_char_def of_char_of)

lemma b64_value_char: "n < 64 \<Longrightarrow> b64_value (b64_char n) = Some n"
proof -
  assume n: "n < 64"
  have ends: "b64_char 62 = CHR ''+''" "b64_char 63 = CHR ''/''" by (simp_all add: b64_char_def)
  from n consider "n < 26" | "26 \<le> n" "n < 52" | "52 \<le> n" "n < 62" | "n = 62" | "n = 63" by linarith
  then show ?thesis unfolding b64_value_def Let_def b64_char_code [OF n] by cases (simp_all add: ends le_diff_conv le_diff_conv2)
qed

text \<open>Bytes cut into digits of six bits and joined again.\<close>

lemma join_digits:
  fixes x y :: nat
  shows "y < 16 \<Longrightarrow> (x * 16 + y) div 16 = x" "y < 16 \<Longrightarrow> (x * 16 + y) mod 16 = y"
    "y < 4 \<Longrightarrow> (x * 4 + y) div 4 = x" "y < 4 \<Longrightarrow> (x * 4 + y) mod 4 = y"
  by simp_all

lemma digit_sizes:
  fixes a b c :: nat
  assumes "a < 256" "b < 256" "c < 256"
  shows "a div 4 < 64" "a mod 4 * 16 + b div 16 < 64" "b mod 16 * 4 + c div 64 < 64" "c mod 64 < 64" "b div 16 < 16" "c div 64 < 4"
proof -
  show small: "b div 16 < 16" "c div 64 < 4" "a div 4 < 64" using assms by (simp_all add: div_less_iff_less_mult)
  have "a mod 4 < 4" "b mod 16 < 16" by simp_all
  then show "a mod 4 * 16 + b div 16 < 64" "b mod 16 * 4 + c div 64 < 64" using small by linarith+
qed simp

lemma b64_group:
  assumes "a < 256" "b < 256" "c < 256"
  shows "b64decode (b64_char (a div 4) # b64_char (a mod 4 * 16 + b div 16) # b64_char (b mod 16 * 4 + c div 64)
     # b64_char (c mod 64) # r) = map_option (\<lambda>bs. a # b # c # bs) (b64decode r)"
proof -
  note sz = digit_sizes [OF assms]
  have "a div 4 * 4 + a mod 4 = a" "b div 16 * 16 + b mod 16 = b" "c div 64 * 64 + c mod 64 = c"
    by (rule div_mult_mod_eq)+
  then show ?thesis
    by (simp only: b64decode.simps b64_value_char sz option.case prod.case join_digits)
qed

lemma b64_roundtrip: "\<forall>b \<in> set bs. b < 256 \<Longrightarrow> b64decode (b64encode bs) = Some bs"
proof (induction bs rule: b64encode.induct)
  case (2 a)
  have pad: "b64_value (CHR ''='') = None" by code_simp
  have "a < 256" using 2 by simp
  note sz = digit_sizes(1,2) [OF this, of 0 0]
  have "a div 4 * 4 + a mod 4 = a" by (rule div_mult_mod_eq)
  moreover have "a mod 4 * 16 div 16 = a mod 4" by simp
  moreover have "a mod 4 * 16 < 64" using sz(2) by simp
  ultimately show ?case
    by (simp only: b64encode.simps b64decode.simps b64_value_char sz(1) pad option.case prod.case if_True simp_thms)
next
  case (3 a b)
  have pad: "b64_value (CHR ''='') = None" by code_simp
  have ab: "a < 256" "b < 256" using 3 by simp_all
  note sz = digit_sizes [OF ab, of 0]
  have eq: "a div 4 * 4 + a mod 4 = a" "b div 16 * 16 + b mod 16 = b" by (rule div_mult_mod_eq)+
  moreover have "b mod 16 * 4 div 4 = b mod 16" by simp
  moreover have "b mod 16 * 4 < 64" using sz(3) by simp
  ultimately show ?case using sz
    by (simp only: b64encode.simps b64decode.simps b64_value_char sz pad option.case prod.case join_digits if_True simp_thms)
next
  case (4 a b c r)
  then have "b64decode (b64encode r) = Some r" "a < 256" "b < 256" "c < 256" by simp_all
  then show ?case by (simp only: b64encode.simps b64_group option.map)
qed simp

text \<open>No field of an encoded hash contains the separator, white space or a sign.\<close>

definition field_char :: "char \<Rightarrow> bool" where
  "field_char c \<longleftrightarrow> c \<noteq> CHR ''$'' \<and> \<not> py_isspace c"

lemma code_field: "43 \<le> (of_char c :: nat) \<Longrightarrow> of_char c < (128 :: nat) \<Longrightarrow> field_char c"
  by (auto simp: field_char_def py_isspace_def)

lemma b64_char_field: "field_char (b64_char n)"
proof (cases "n < 64")
  case True
  then have "43 \<le> (of_char (b64_char n) :: nat) \<and> of_char (b64_char n) < (128 :: nat)"
    unfolding b64_char_code [OF True] by (simp split: if_split) linarith
  then show ?thesis by (simp add: code_field)
next
  case False
  have "field_char (CHR ''/'')" by code_simp
  then show ?thesis using False by (simp add: b64_char_def)
qed

lemma b64encode_field: "c \<in> set (b64encode bs) \<Longrightarrow> field_char c"
proof -
  have "field_char (CHR ''='')" by code_simp
  then show "c \<in> set (b64encode bs) \<Longrightarrow> field_char c"
    by (induction bs rule: b64encode.induct) (auto simp: b64_char_field)
qed

lemma b64encode_Nil: "b64encode bs = [] \<longleftrightarrow> bs = []"
  by (cases bs rule: b64encode.cases) simp_all

lemma digits10_field: "c \<in> set (digits10 n) \<Longrightarrow> py_digit c \<and> field_char c \<and> c \<notin> set ''+-_''"
  using digits10_chars [of c n] by (auto simp: py_digit_def field_char_def py_isspace_def)

lemma digits10_Nil: "digits10 n \<noteq> []"
  by (subst digits10.simps) simp

lemma py_int10_digits: "py_int10 (digits10 n) = Some (int n)"
proof -
  let ?h = "digits10 n"
  obtain x r where h: "?h = x # r" using digits10_Nil [of n] by (cases ?h) auto
  have plain: "py_digit c" "\<not> py_isspace c" "c \<noteq> CHR ''+''" "c \<noteq> CHR ''-''" "c \<noteq> CHR ''_''" if "c \<in> set ?h" for c
    using digits10_field [OF that] by (auto simp: field_char_def)
  have "dropWhile py_isspace xs = xs" if "set xs \<subseteq> set ?h" for xs
    using that plain(2) by (cases xs) auto
  then have strip: "py_strip ?h = ?h" by (simp add: py_strip_def py_lstrip_def)
  have "py_split (CHR ''_'') ?h = [?h]" by (rule py_split_plain) (use plain(5) in blast)
  moreover have "list_all py_digit ?h" using plain(1) by (auto simp: list_all_iff)
  moreover have "x \<noteq> CHR ''-''" "x \<noteq> CHR ''+''" using plain [of x] by (auto simp: h)
  ultimately show ?thesis
    using undigits10_digits10 [of n] unfolding py_int10_def strip by (simp add: h)
qed

lemma sha256_bytes_small: "b \<in> set (sha256_bytes m) \<Longrightarrow> b < 256"
  by (auto simp: sha256_bytes_def be_bytes_def)

lemma length_sha256_bytes: "length (sha256_bytes m) = 32"
proof -
  have "length (sha256 m) = 8" by (simp add: sha256_def Let_def length_sha_blocks sha_h0_def sha_primes_def)
  then show ?thesis by (simp add: sha256_bytes_def length_concat comp_def be_bytes_def sum_list_triv)
qed

lemma xor_small:
  assumes "a < 256" and "b < (256 :: nat)"
  shows "a XOR b < 256"
proof -
  have "take_bit 8 a = a" "take_bit 8 b = b" using assms by (simp_all add: take_bit_nat_eq_self)
  then have "a XOR b = take_bit 8 (a XOR b)" by simp
  also have "\<dots> < 2 ^ 8" by (rule take_bit_nat_less_exp)
  finally show ?thesis by simp
qed

lemma pbkdf2_rounds_bytes:
  assumes "length acc = 32" and "\<forall>b \<in> set acc. b < 256"
  shows "length (pbkdf2_rounds n key u acc) = 32 \<and> (\<forall>b \<in> set (pbkdf2_rounds n key u acc). b < 256)"
  using assms
proof (induction n arbitrary: u acc)
  case (Suc n)
  let ?v = "hmac_sha256 key u"
  have "length (map2 (XOR) acc ?v) = 32" using Suc.prems by (simp add: hmac_sha256_def length_sha256_bytes)
  moreover have "\<forall>b \<in> set (map2 (XOR) acc ?v). b < 256"
    using Suc.prems(2) sha256_bytes_small by (auto simp: hmac_sha256_def elim!: in_set_zipE intro!: xor_small)
  ultimately show ?case unfolding pbkdf2_rounds.simps Let_def by (rule Suc.IH)
qed simp

lemma derive_bytes: "length (derive p salt n) = 32" "\<forall>b \<in> set (derive p salt n). b < 256"
proof -
  let ?u = "hmac_sha256 (utf8 p) (salt @ [0, 0, 0, 1])"
  have "length ?u = 32" "\<forall>b \<in> set ?u. b < 256"
    using sha256_bytes_small by (auto simp: hmac_sha256_def length_sha256_bytes)
  then show "length (derive p salt n) = 32" "\<forall>b \<in> set (derive p salt n). b < 256"
    using pbkdf2_rounds_bytes [of ?u "n - 1" "utf8 p" ?u] by (simp_all add: derive_def Let_def)
qed

lemma encode_hash_parts: "py_split (CHR ''$'') (encode_hash n p salt) =
    [algorithm_name, digits10 n, b64encode salt, b64encode (derive p salt n)]"
proof -
  have "CHR ''$'' \<notin> set algorithm_name" by (simp add: algorithm_name_def)
  moreover have "CHR ''$'' \<notin> set (digits10 k)" for k using digits10_field [of _ k] by (auto simp: field_char_def)
  moreover have "CHR ''$'' \<notin> set (b64encode bs)" for bs using b64encode_field [of _ bs] by (auto simp: field_char_def)
  ultimately show ?thesis
    by (simp add: encode_hash_def py_str_int_def py_split_cons py_split_plain)
qed

lemma parse_encode_hash:
  assumes "1 \<le> n" and "salt \<noteq> []" and "\<forall>b \<in> set salt. b < 256"
  shows "parse_encoded (encode_hash n p salt) = Some (algorithm_name, int n, salt, derive p salt n)"
proof -
  have "derive p salt n \<noteq> []" using derive_bytes(1) [of p salt n] by auto
  then show ?thesis
    using assms by (simp add: parse_encoded_def encode_hash_parts py_int10_digits b64_roundtrip derive_bytes(2))
qed

lemma encode_hash_visible: "c \<in> set (encode_hash n p salt) \<Longrightarrow> \<not> py_isspace c"
proof -
  have "\<forall>c \<in> set algorithm_name. \<not> py_isspace c" "\<not> py_isspace (CHR ''$'')" by code_simp+
  then show "c \<in> set (encode_hash n p salt) \<Longrightarrow> \<not> py_isspace c"
    using digits10_field b64encode_field by (auto simp: encode_hash_def py_str_int_def field_char_def)
qed

lemma encode_hash_encoded:
  assumes "salt \<noteq> []"
  shows "is_encoded_password_hash (encode_hash n p salt)" and "encoded_column (encode_hash n p salt)"
proof -
  have vis: "list_all (\<lambda>c. \<not> py_isspace c) (encode_hash n p salt)" using encode_hash_visible by (auto simp: list_all_iff)
  have parts: "b64encode salt \<noteq> []" "b64encode (derive p salt n) \<noteq> []" "algorithm_name \<noteq> []"
    using assms derive_bytes(1) [of p salt n] by (auto simp: b64encode_Nil algorithm_name_def)
  have split: "encode_hash n p salt = CHR ''p'' # ''bkdf2_sha256'' @ ''$'' @ digits10 n @ ''$'' @ b64encode salt @ ''$''
     @ b64encode (derive p salt n)" by (simp add: encode_hash_def algorithm_name_def py_str_int_def)
  show "is_encoded_password_hash (encode_hash n p salt)"
    using vis parts digits10_Nil [of n] unfolding is_encoded_password_hash_def encode_hash_parts
    by (simp add: encode_hash_def)
  have "butlast (drop 1 (encode_hash n p salt)) = ''bkdf2_sha256'' @ ''$'' @ butlast (digits10 n @ ''$'' @ b64encode salt @ ''$''
     @ b64encode (derive p salt n))" unfolding split by (simp add: butlast_append)
  then show "encoded_column (encode_hash n p salt)" using vis by (simp add: encoded_column_def)
qed

end
