(* ===== verification/Login_Theorems.thy ===== *)
theory Login_Theorems
  imports Policy_Theorems Password_Hashing
begin

text \<open>
  What a login answers, what a worker's token admits and for how long, and the consistency of the tables
  over every run.
\<close>

section \<open>Logins\<close>

text \<open>The stored password of an email, in whatever spelling.\<close>

definition password_of :: "accessdb \<Rightarrow> string \<Rightarrow> password_row option" where
  "password_of db email = (case row_for_email email db of None \<Rightarrow> None
     | Some w \<Rightarrow> find_row kr_user (ur_email w) (ac_credentials db))"

lemma credential_get_run:
  assumes "access_ok db"
  shows "credential_get email db = Inr (map_option auth_credential_from_orm (password_of db email), db)"
proof (cases "row_for_email email db")
  case None
  then show ?thesis by (simp add: credential_get_def tx_simps password_of_def)
next
  case (Some w)
  have "auth_credential_post_init (auth_credential_from_orm r) = Inr ()"
    if "find_row kr_user (ur_email w) (ac_credentials db) = Some r" for r
    using access_okD(3) [OF assms] find_row_SomeD [OF that] by (simp add: passwords_ok_def)
  then show ?thesis using Some
    by (cases "find_row kr_user (ur_email w) (ac_credentials db)") (simp_all add: credential_get_def tx_simps password_of_def)
qed

lemma password_of_iff:
  assumes ok: "access_ok db"
  shows "password_of db email = Some k \<longleftrightarrow> k \<in> set (ac_credentials db) \<and> lower_text (kr_user k) = lower_text email"
proof
  assume k: "password_of db email = Some k"
  then obtain w where w: "row_for_email email db = Some w" "find_row kr_user (ur_email w) (ac_credentials db) = Some k"
    by (auto simp: password_of_def split: option.splits)
  then show "k \<in> set (ac_credentials db) \<and> lower_text (kr_user k) = lower_text email"
    using row_for_email_Some [OF w(1)] find_row_SomeD [OF w(2)] by (simp add: user_key_def)
next
  assume k: "k \<in> set (ac_credentials db) \<and> lower_text (kr_user k) = lower_text email"
  then have "known_user db (kr_user k)" using access_okD(3) [OF ok] by (simp add: passwords_ok_def)
  then obtain w where w: "row_for_email (kr_user k) db = Some w" "ur_email w = kr_user k"
    using row_of_known [OF access_okD(1) [OF ok]] by blast
  then have "row_for_email email db = Some w" using k by (simp add: row_for_email_def)
  then show "password_of db email = Some k"
    using k w(2) access_okD(3) [OF ok] by (simp add: password_of_def passwords_ok_def find_row_eq_Some_iff)
qed

lemma authenticate_effect:
  assumes ok: "access_ok db" and run: "authenticate a email password salt d now db = (Inr iz, db')"
  shows "\<exists>k mid. password_of db email = Some k \<and> ph_verify (av_hasher a) password (kr_hash k)
     \<and> ac_roles mid = ac_roles db \<and> ac_memberships mid = ac_memberships db \<and> ac_users mid = ac_users db
     \<and> issue_session a (kr_user k) now None d mid = Inr (iz, db')"
proof -
  have cols: "ak_user (auth_credential_from_orm k) = kr_user k" "ak_hash (auth_credential_from_orm k) = kr_hash k" for k
    by (simp_all add: auth_credential_from_orm_def)
  from run obtain k where k: "password_of db email = Some k" and ver: "ph_verify (av_hasher a) password (kr_hash k)"
    and rest: "tx_bind (if ph_needs_rehash (av_hasher a) (kr_hash k)
        then tx_bind (tx_sum (ph_hash (av_hasher a) password salt)) (\<lambda>encoded.
          tx_bind (construct auth_credential_post_init ((auth_credential_from_orm k)\<lparr>ak_hash := encoded, ak_updated := now\<rparr>)) credential_update)
        else tx_ret ()) (\<lambda>_. issue_session a (kr_user k) now None d) db = Inr (iz, db')"
    unfolding authenticate_def session_scope_eq tx_bind_iff [of "credential_get email"] credential_get_run [OF ok]
    by (auto simp: tx_simps cols)
  from tx_bindE [OF rest] obtain x mid where
    m: "(if ph_needs_rehash (av_hasher a) (kr_hash k)
        then tx_bind (tx_sum (ph_hash (av_hasher a) password salt)) (\<lambda>encoded.
          tx_bind (construct auth_credential_post_init ((auth_credential_from_orm k)\<lparr>ak_hash := encoded, ak_updated := now\<rparr>)) credential_update)
        else tx_ret ()) db = Inr (x, mid)" and iss: "issue_session a (kr_user k) now None d mid = Inr (iz, db')" by blast
  have "ac_roles mid = ac_roles db" "ac_memberships mid = ac_memberships db" "ac_users mid = ac_users db"
    using m by (auto simp: tx_simps credential_update_effect split: if_splits)
  then show ?thesis using k ver iss by blast
qed

text \<open>
  C33. A login that succeeds proved a password, and its token works until it expires. The issued session
  belongs to the user whose stored hash the hasher verified; at every instant before the expiry the token
  resolves to exactly that user's system roles and memberships, and at every instant from the expiry on it is
  refused. A rehash on the way changes none of it.
\<close>
theorem login_issues_a_working_session:
  assumes calls: "\<forall>k \<in> set calls. well_formed_access k" and db: "db = access_after cs ts calls"
    and run: "authenticate a email password salt d now db = (Inr iz, db')"
  shows "\<exists>k \<in> set (ac_credentials db). lower_text (kr_user k) = lower_text email
     \<and> ph_verify (av_hasher a) password (kr_hash k) \<and> iz_user iz = kr_user k \<and> iz_expires iz = now + av_ttl a
     \<and> (\<forall>moment. resolve (Some (iz_token iz)) moment db' =
          (if moment < now + av_ttl a then Inr (principal_of db (kr_user k)) else Inl InvalidCredentialsError, db'))"
proof -
  have ok: "access_ok db" unfolding db by (rule access_after_ok [OF calls])
  have ok': "access_ok db'"
    using run_access_steady [OF ok, of "Login a email password salt d now"] run by (simp add: after_def steady_def)
  from authenticate_effect [OF ok run] obtain k mid where k: "password_of db email = Some k"
    and ver: "ph_verify (av_hasher a) password (kr_hash k)"
    and mid: "ac_roles mid = ac_roles db" "ac_memberships mid = ac_memberships db" "ac_users mid = ac_users db"
    and iss: "issue_session a (kr_user k) now None d mid = Inr (iz, db')" by blast
  note k' = k [unfolded password_of_iff [OF ok]]
  from issue_session_effect [OF iss] obtain r w where db': "db' = mid\<lparr>ac_sessions := ac_sessions mid @ [r]\<rparr>"
    and w: "row_for_email (kr_user k) mid = Some w" and r: "nr_user r = ur_email w" "nr_hash r = hash_token (sd_token d)"
      "nr_revoked r = None" "nr_expires r = now + av_ttl a" "nr_hash r \<notin> nr_hash ` set (ac_sessions mid)" "sd_token d \<noteq> []"
    and iz: "iz = \<lparr>iz_id = Uid (sd_id d), iz_user = kr_user k, iz_expires = now + av_ttl a, iz_token = sd_token d\<rparr>"
    by blast
  have "known_user db (kr_user k)" using k' access_okD(3) [OF ok] by (simp add: passwords_ok_def)
  then have "nr_user r = kr_user k"
    using row_of_known [OF access_okD(1) [OF ok]] w r(1) mid(3) by (fastforce simp: row_for_email_def)
  moreover have "session_of db' (sd_token d) = Some r"
    using r(2,5) by (simp add: session_of_def db' find_row_append find_row_None_key [THEN iffD2] find_row_Cons)
  moreover have "principal_of db' (kr_user k) = principal_of db (kr_user k)"
    by (simp add: principal_of_def roles_of_def placements_def memberships_of_def db' mid)
  ultimately have "resolve (Some (iz_token iz)) moment db' =
          (if moment < now + av_ttl a then Inr (principal_of db (kr_user k)) else Inl InvalidCredentialsError, db')" for moment
    using r(3,4,6) by (auto simp: resolve_run [OF ok'] iz row_is_live_def neq_Nil_conv)
  then show ?thesis using k' ver by (intro bexI [of _ k]) (simp_all add: iz)
qed

theorem login_issues_a_working_session_witness:
  "\<exists>iz db'. authenticate sample_auth ''a@X.y'' ''password'' [] \<lparr>sd_id = 7, sd_token = ''tok''\<rparr> 5 sample_db2 = (Inr iz, db')
     \<and> fst (resolve (Some (iz_token iz)) 9 db') = Inr (principal_of sample_db2 ''a@x.y'')
     \<and> fst (resolve (Some (iz_token iz)) 105 db') = Inl InvalidCredentialsError"
proof -
  obtain db' where run: "authenticate sample_auth ''a@X.y'' ''password'' [] \<lparr>sd_id = 7, sd_token = ''tok''\<rparr> 5 sample_db2 =
    (Inr \<lparr>iz_id = Uid 7, iz_user = ''a@x.y'', iz_expires = 105, iz_token = ''tok''\<rparr>, db')" using sample_login by blast
  have "av_ttl sample_auth = 100" by (simp add: sample_auth_def)
  then show ?thesis
    using login_issues_a_working_session [OF password_well_formed password_after [symmetric] run] run by auto
qed

text \<open>
  Failed logins look alike. When no stored password of the email accepts the presented one, because there
  is no such user, because the user has no password, or because it is wrong, the answer is the same error
  and the tables are untouched; and a presented token that is absent, empty, unknown, expired or revoked is
  answered with one error too.
\<close>
theorem login_failures_look_alike:
  assumes calls: "\<forall>k \<in> set calls. well_formed_access k" and db: "db = access_after cs ts calls"
  shows "(\<not> (\<exists>k \<in> set (ac_credentials db). lower_text (kr_user k) = lower_text email \<and> ph_verify (av_hasher a) password (kr_hash k))
       \<longrightarrow> authenticate a email password salt d now db = (Inl InvalidCredentialsError, db))
    \<and> (\<not> (\<exists>t r. token = Some t \<and> t \<noteq> [] \<and> session_of db t = Some r \<and> row_is_live r now)
       \<longrightarrow> db_authenticate token now db = (Inl AuthenticationError, db))"
proof (intro conjI impI)
  have ok: "access_ok db" unfolding db by (rule access_after_ok [OF calls])
  {
    assume none: "\<not> (\<exists>k \<in> set (ac_credentials db). lower_text (kr_user k) = lower_text email \<and> ph_verify (av_hasher a) password (kr_hash k))"
    show "authenticate a email password salt d now db = (Inl InvalidCredentialsError, db)"
    proof (cases "password_of db email")
      case None
      then show ?thesis
        by (simp add: authenticate_def session_scope_eq tx_raises credential_get_run [OF ok])
    next
      case (Some k)
      then have "\<not> ph_verify (av_hasher a) password (kr_hash k)" using none by (auto simp: password_of_iff [OF ok])
      then show ?thesis using Some
        by (simp add: authenticate_def session_scope_eq tx_raises tx_simps credential_get_run [OF ok] auth_credential_from_orm_def)
    qed
  }
  assume dead: "\<not> (\<exists>t r. token = Some t \<and> t \<noteq> [] \<and> session_of db t = Some r \<and> row_is_live r now)"
  show "db_authenticate token now db = (Inl AuthenticationError, db)"
  proof (cases token)
    case None
    then show ?thesis
      by (simp add: db_authenticate_def resolve_def with_token_def require_token_hash_def svc_bind_def svc_catch_def svc_raise_def)
  next
    case (Some t)
    then show ?thesis using dead by (auto simp: db_authenticate_run [OF ok] split: list.split option.split)
  qed
qed

theorem login_failures_look_alike_witness:
  "authenticate sample_auth ''b@x.y'' ''password'' [] \<lparr>sd_id = 8, sd_token = ''two''\<rparr> 5 sample_db = (Inl InvalidCredentialsError, sample_db)
    \<and> authenticate sample_auth ''a@x.y'' ''passw0rd'' [] \<lparr>sd_id = 8, sd_token = ''two''\<rparr> 5 sample_db = (Inl InvalidCredentialsError, sample_db)
    \<and> db_authenticate None 5 sample_db = (Inl AuthenticationError, sample_db)"
proof -
  have "lower_text ''b@x.y'' = ''b@x.y''" by code_simp
  then have "lower_text (kr_user sample_password_row) \<noteq> lower_text ''b@x.y''"
    by (simp add: sample_password_row_def sample_lower)
  moreover have "\<not> ph_verify (av_hasher sample_auth) ''passw0rd'' (kr_hash sample_password_row)"
    by (simp add: sample_auth_def marking_hasher_def sample_password_row_def)
  moreover have "ac_credentials sample_db = [sample_password_row]" by (simp add: sample_db_def)
  ultimately show ?thesis
    using login_failures_look_alike [OF sample_well_formed sample_after [symmetric], of "''b@x.y''" sample_auth "''password''" "[]" "\<lparr>sd_id = 8, sd_token = ''two''\<rparr>" 5 None]
      login_failures_look_alike [OF sample_well_formed sample_after [symmetric], of "''a@x.y''" sample_auth "''passw0rd''" "[]" "\<lparr>sd_id = 8, sd_token = ''two''\<rparr>" 5 None]
    by simp
qed

section \<open>Passwords with the production hasher\<close>

text \<open>
  The encoding of a password hash is read back as it was written. What the PBKDF2 hasher stores passes
  the checks of the domain and of the column, parses into the algorithm, the iteration count, the salt and
  the derived key, verifies exactly the passwords that derive the same key, and asks for a rehash exactly
  when the configured iteration count has grown.
\<close>
theorem password_hash_roundtrip:
  assumes n: "1 \<le> n" and salt: "salt \<noteq> []" "\<forall>b \<in> set salt. b < 256"
    and hash: "hash_password n password salt = Inr encoded"
  shows "is_encoded_password_hash encoded \<and> encoded_column encoded
    \<and> parse_encoded encoded = Some (algorithm_name, int n, salt, derive password salt n)
    \<and> (\<forall>q. verify_password q encoded \<longleftrightarrow> derive q salt n = derive password salt n)
    \<and> (\<forall>m. hash_needs_rehash m encoded \<longleftrightarrow> n < m)"
proof -
  have e: "encoded = encode_hash n password salt" using hash by (simp add: hash_password_def split: if_splits)
  show ?thesis using encode_hash_encoded [OF salt(1)] parse_encode_hash [OF n salt]
    by (simp add: e verify_password_def hash_needs_rehash_def)
qed

theorem password_hash_roundtrip_witness:
  "\<exists>encoded. hash_password 600000 ''password'' [1, 2, 255] = Inr encoded \<and> verify_password ''password'' encoded
     \<and> \<not> hash_needs_rehash 600000 encoded"
proof -
  obtain encoded where e: "hash_password 600000 ''password'' [1, 2, 255] = Inr encoded" by (simp add: hash_password_def)
  have "verify_password ''password'' encoded \<and> \<not> hash_needs_rehash 600000 encoded"
    using password_hash_roundtrip [OF _ _ _ e] by simp
  then show ?thesis using e by blast
qed

lemma stored_password:
  assumes ok: "access_ok db" and set: "set_password a email password salt now db = (Inr u, db')"
  shows "access_ok db' \<and> ac_sessions db' = ac_sessions db
    \<and> (\<exists>k encoded. ph_hash (av_hasher a) password salt = Inr encoded \<and> password_of db' email = Some k \<and> kr_hash k = encoded)"
proof -
  have ok': "access_ok db'"
    using run_access_steady [OF ok, of "SetPassword a email password salt now"] set by (simp add: after_def steady_def)
  from set obtain encoded where e: "ph_hash (av_hasher a) password salt = Inr encoded"
    and store: "store_password email encoded now db = Inr (u, db')"
    by (auto simp: set_password_def svc_raise_def session_scope_eq split: sum.splits)
  have "\<exists>k \<in> set (ac_credentials db'). lower_text (kr_user k) = lower_text email \<and> kr_hash k = encoded"
    and same: "ac_sessions db' = ac_sessions db"
  proof (atomize (full), cases "password_of db email")
    case None
    then have "credential_add \<lparr>ak_user = email, ak_hash = encoded, ak_created = now, ak_updated = now\<rparr> db = Inr (u, db')"
      using store by (auto simp: store_password_def tx_simps credential_get_run [OF ok])
    then show "(\<exists>k \<in> set (ac_credentials db'). lower_text (kr_user k) = lower_text email \<and> kr_hash k = encoded)
        \<and> ac_sessions db' = ac_sessions db"
      unfolding credential_add_effect
      by (auto simp: auth_credential_to_orm_def user_key_def dest!: row_for_email_Some)
  next
    case (Some k)
    then have upd: "credential_update ((auth_credential_from_orm k)\<lparr>ak_hash := encoded, ak_updated := now\<rparr>) db = Inr (u, db')"
      using store by (auto simp: store_password_def tx_simps credential_get_run [OF ok])
    then obtain w old where old: "find_row kr_user (ur_email w) (ac_credentials db) = Some old"
      and w: "row_for_email (kr_user k) db = Some w"
      and db': "db' = db\<lparr>ac_credentials := put_row kr_user (old\<lparr>kr_hash := encoded, kr_updated := now\<rparr>) (ac_credentials db)\<rparr>"
      unfolding credential_update_effect by (auto simp: auth_credential_to_orm_def auth_credential_from_orm_def)
    note mem = find_row_SomeD [OF old]
    have "old\<lparr>kr_hash := encoded, kr_updated := now\<rparr> \<in> set (ac_credentials db')"
      unfolding db' by simp (rule put_row_mem [of old], simp_all add: mem)
    moreover have "lower_text (kr_user old) = lower_text email"
      using mem row_for_email_Some [OF w] Some [unfolded password_of_iff [OF ok]] by (simp add: user_key_def)
    ultimately show "(\<exists>k \<in> set (ac_credentials db'). lower_text (kr_user k) = lower_text email \<and> kr_hash k = encoded)
        \<and> ac_sessions db' = ac_sessions db"
      by (intro conjI bexI [of _ "old\<lparr>kr_hash := encoded, kr_updated := now\<rparr>"]) (simp_all add: db')
  qed
  then show ?thesis using ok' e same password_of_iff [OF ok'] by blast
qed

lemma issue_session_runs:
  assumes ok: "access_ok db" and u: "known_user db u" and ttl: "0 < av_ttl a" and token: "nonempty (sd_token d)"
    and fresh: "sd_id d \<notin> nr_id ` set (ac_sessions db)" "hash_token (sd_token d) \<notin> nr_hash ` set (ac_sessions db)"
  shows "\<exists>iz db'. issue_session a u now None d db = Inr (iz, db')"
proof -
  let ?s = "\<lparr>sn_id = Uid (sd_id d), sn_user = u, sn_hash = hash_token (sd_token d), sn_issued = now,
    sn_expires = now + av_ttl a, sn_rotated = None, sn_revoked = None\<rparr>"
  have n: "nonempty u" by (rule known_nonempty [OF access_okD(1) [OF ok] u])
  obtain w where "row_for_email u db = Some w" using row_of_known [OF access_okD(1) [OF ok] u] by blast
  then have "\<exists>db'. session_add ?s db = Inr ((), db')"
    using ttl fresh by (simp add: session_add_effect auth_session_to_orm_def session_check_def session_keys_def hash_token_def)
  then show ?thesis using n ttl token
    by (auto simp: issue_session_def tx_simps auth_session_post_init_def issued_session_post_init_def hash_token_def)
qed

text \<open>
  C34. A password that was set logs in, and no other key does. After \<open>set_password\<close> with the production hasher
  the same password is accepted for every spelling of the email, given a token that is new, and every
  password that derives another key is refused without a trace.
\<close>
theorem set_password_logs_in:
  assumes calls: "\<forall>k \<in> set calls. well_formed_access k" and db: "db = access_after cs ts calls"
    and hasher: "av_hasher a = pbkdf2_hasher n" "1 \<le> n" "0 < av_ttl a" and salt: "salt \<noteq> []" "\<forall>b \<in> set salt. b < 256"
    and stored: "set_password a email password salt now db = (Inr u, db')"
    and spelled: "lower_text email' = lower_text email"
    and fresh: "sd_id d \<notin> nr_id ` set (ac_sessions db)" "hash_token (sd_token d) \<notin> nr_hash ` set (ac_sessions db)"
      "nonempty (sd_token d)"
  shows "(\<exists>iz db''. authenticate a email' password salt' d later db' = (Inr iz, db''))
    \<and> (\<forall>q. derive q salt n \<noteq> derive password salt n \<longrightarrow>
         authenticate a email' q salt' d later db' = (Inl InvalidCredentialsError, db'))"
proof -
  have ok: "access_ok db" unfolding db by (rule access_after_ok [OF calls])
  from stored_password [OF ok stored] obtain k encoded where ok': "access_ok db'" and same: "ac_sessions db' = ac_sessions db"
    and e: "hash_password n password salt = Inr encoded" and k: "password_of db' email = Some k" "kr_hash k = encoded"
    by (auto simp: hasher(1) pbkdf2_hasher_def)
  have enc: "encoded = encode_hash n password salt" using e by (simp add: hash_password_def split: if_splits)
  have ver: "verify_password q encoded \<longleftrightarrow> derive q salt n = derive password salt n" for q
    using parse_encode_hash [OF hasher(2) salt] by (simp add: enc verify_password_def)
  have keep: "\<not> hash_needs_rehash n encoded"
    using parse_encode_hash [OF hasher(2) salt] by (simp add: enc hash_needs_rehash_def)
  have k': "password_of db' email' = Some k"
    using k(1) spelled by (simp add: password_of_iff [OF ok'])
  have cols: "ak_user (auth_credential_from_orm k) = kr_user k" "ak_hash (auth_credential_from_orm k) = encoded"
    using k(2) by (simp_all add: auth_credential_from_orm_def)
  have "known_user db' (kr_user k)" using k(1) [unfolded password_of_iff [OF ok']] access_okD(3) [OF ok'] by (simp add: passwords_ok_def)
  then obtain iz db'' where iss: "issue_session a (kr_user k) later None d db' = Inr (iz, db'')"
    using issue_session_runs [OF ok' _ hasher(3) fresh(3)] fresh(1,2) same by (metis (no_types))
  have get: "credential_get email' db' = Inr (Some (auth_credential_from_orm k), db')"
    by (simp add: credential_get_run [OF ok'] k')
  have "authenticate a email' password salt' d later db' = (Inr iz, db'')"
    using get ver [of password] keep iss
    by (simp add: authenticate_def session_scope_eq tx_simps cols hasher(1) pbkdf2_hasher_def)
  moreover have "authenticate a email' q salt' d later db' = (Inl InvalidCredentialsError, db')"
    if "derive q salt n \<noteq> derive password salt n" for q
    using get ver [of q] that
    by (simp add: authenticate_def session_scope_eq tx_raises tx_simps cols hasher(1) pbkdf2_hasher_def)
  ultimately show ?thesis by blast
qed

theorem set_password_logs_in_witness:
  "\<exists>db'. set_password \<lparr>av_hasher = default_password_hasher, av_ttl = 100\<rparr> ''a@x.y'' ''password'' [9, 2, 255] 0 sample_db1 = (Inr (), db')
     \<and> (\<exists>iz db''. authenticate \<lparr>av_hasher = default_password_hasher, av_ttl = 100\<rparr> ''A@x.y'' ''password'' [] \<lparr>sd_id = 7, sd_token = ''tok''\<rparr> 5 db'
          = (Inr iz, db''))"
proof -
  let ?a = "\<lparr>av_hasher = default_password_hasher, av_ttl = 100\<rparr>" and ?e = "encode_hash 600000 ''password'' [9, 2, 255]"
  let ?k = "\<lparr>ak_user = ''a@x.y'', ak_hash = ?e, ak_created = 0, ak_updated = 0\<rparr>"
  let ?calls = "[RegisterUser \<lparr>us_email = ''a@x.y'', us_name = ''A''\<rparr>]"
  have wf: "\<forall>k \<in> set ?calls. well_formed_access k" by (simp add: sample_user_init)
  have db: "sample_db1 = access_after [''cup''] [] ?calls"
    unfolding access_after_def run_accesses_def by (simp del: run_access.simps add: sample_step1 sample_db1_def)
  have encoded: "is_encoded_password_hash ?e" "encoded_column ?e" by (rule encode_hash_encoded; simp)+
  have "credential_get ''a@x.y'' sample_db1 = Inr (None, sample_db1)"
    by (simp add: credential_get_def tx_simps sample_user_ids) (simp add: sample_db1_def no_accounts_def tx_ret_def)
  moreover have "auth_credential_post_init ?k = Inr ()"
    by (simp add: auth_credential_post_init_def encoded sample_texts)
  moreover have "\<exists>db'. credential_add ?k sample_db1 = Inr ((), db')"
    unfolding credential_add_effect
    by (simp add: sample_user_ids auth_credential_to_orm_def credential_check_def encoded)
      (simp add: sample_db1_def no_accounts_def)
  ultimately obtain db' where set: "set_password ?a ''a@x.y'' ''password'' [9, 2, 255] 0 sample_db1 = (Inr (), db')"
    by (auto simp: set_password_def validate_password_strength_def min_password_length_def default_password_hasher_def
        default_pbkdf2_iterations_def pbkdf2_hasher_def hash_password_def session_scope_eq store_password_def tx_simps)
  have empty: "ac_sessions sample_db1 = []" by (simp add: sample_db1_def no_accounts_def)
  have "lower_text ''A@x.y'' = lower_text ''a@x.y''" by (simp add: sample_lower)
  then have "\<exists>iz db''. authenticate ?a ''A@x.y'' ''password'' [] \<lparr>sd_id = 7, sd_token = ''tok''\<rparr> 5 db' = (Inr iz, db'')"
    by (intro set_password_logs_in [OF wf db, where n = 600000 and a = ?a, OF _ _ _ _ _ set, THEN conjunct1])
      (simp_all add: empty sample_texts default_password_hasher_def default_pbkdf2_iterations_def)
  then show ?thesis using set by blast
qed

section \<open>Worker tokens\<close>

definition admitted :: "accessdb \<Rightarrow> ident \<Rightarrow> string \<Rightarrow> instant \<Rightarrow> authenticated_worker option" where
  "admitted db i secret now = (case as_uuid i of None \<Rightarrow> None
     | Some n \<Rightarrow> (case find_row tc_id n (ac_worker_credentials db) of None \<Rightarrow> None
       | Some r \<Rightarrow> if sha256_hex secret \<noteq> tc_hash r \<or> tc_revoked r \<noteq> None \<or> tc_expires r \<le> now then None
           else (case find_row wo_name (tc_worker r) (ac_workers db) of None \<Rightarrow> None
             | Some w \<Rightarrow> if wo_trust w \<noteq> Trusted \<or> wo_quarantined w \<noteq> None then None
                 else Some \<lparr>aw_worker = worker_from_orm w, aw_credential = Uid (tc_id r), aw_scopes = tc_scopes r,
                   aw_expires = tc_expires r\<rparr>)))"

lemma worker_get_run:
  assumes "access_ok db"
  shows "worker_get name db = Inr (map_option worker_from_orm (find_row wo_name name (ac_workers db)), db)"
proof (cases "find_row wo_name name (ac_workers db)")
  case (Some w)
  then have "worker_post_init (worker_from_orm w) = Inr ()"
    using access_okD(7) [OF assms] find_row_SomeD [OF Some] by (simp add: registry_ok_def)
  then show ?thesis using Some by (simp add: worker_get_def tx_simps)
qed (simp add: worker_get_def tx_simps)

lemma worker_credential_get_run:
  assumes "access_ok db"
  shows "worker_credential_get i db = Inr (case as_uuid i of None \<Rightarrow> None
     | Some n \<Rightarrow> map_option worker_credential_from_orm (find_row tc_id n (ac_worker_credentials db)), db)"
proof (cases "as_uuid i")
  case (Some n)
  have "worker_credential_post_init (worker_credential_from_orm r) = Inr ()"
    if "find_row tc_id n (ac_worker_credentials db) = Some r" for r
    using access_okD(8) [OF assms] find_row_SomeD [OF that] by (simp add: worker_credentials_ok_def)
  then show ?thesis using Some
    by (cases "find_row tc_id n (ac_worker_credentials db)")
      (simp_all add: worker_credential_get_def read_worker_credential_def tx_simps)
qed (simp add: worker_credential_get_def tx_simps)

lemma worker_authenticate_run:
  assumes ok: "access_ok db"
  shows "worker_authenticate token now db = (Inr (case parse_token token of None \<Rightarrow> None
     | Some (i, secret) \<Rightarrow> admitted db (read_uuid i) secret now), db)"
proof (cases "parse_token token")
  case (Some p)
  obtain i secret where p: "p = (i, secret)" by (cases p)
  show ?thesis
  proof (cases "as_uuid (read_uuid i)")
    case None
    then show ?thesis using Some
      by (simp add: p worker_authenticate_def session_scope_def tx_bind_def worker_credential_get_run [OF ok] admitted_def tx_ret_def)
  next
    case n: (Some n)
    show ?thesis
      using Some n worker_get_run [OF ok]
      by (cases "find_row tc_id n (ac_worker_credentials db)")
        (auto simp: p worker_authenticate_def session_scope_def tx_bind_def worker_credential_get_run [OF ok] admitted_def
          tx_ret_def worker_credential_from_orm_def worker_from_orm_def split: option.split)
  qed
qed (simp add: worker_authenticate_def svc_ret_def)

text \<open>
  C39. A revoked worker is out for good. After an administrator revoked a worker, no token authenticates as
  that worker again, whatever calls follow (rotations, approvals, new registrations, profile updates), at
  whatever instant; and authentication never raises.
\<close>
theorem revoked_worker_is_out:
  assumes calls: "\<forall>k \<in> set calls. well_formed_access k" and db: "db = access_after cs ts calls"
    and revoked: "revoke_worker name now db = (Inr u, db')" and wf: "\<forall>k \<in> set later. well_formed_access k"
  shows "\<exists>answer. fst (worker_authenticate token moment (run_accesses later db')) = Inr answer
     \<and> (\<forall>a. answer = Some a \<longrightarrow> wk_name (aw_worker a) \<noteq> name)"
proof -
  have ok: "access_ok db" unfolding db by (rule access_after_ok [OF calls])
  from revoked obtain x where "tx_bind (worker_revoke name now) (\<lambda>_. revoke_active name now) db = Inr (x, db')"
    by (auto simp: revoke_worker_def session_scope_eq)
  from revoke_worker_rows [OF ok this] obtain r where r: "find_row wo_name name (ac_workers db) = Some r"
    and ws: "ac_workers db' = put_row wo_name (r\<lparr>wo_trust := TrustRevoked, wo_revoked := Some now\<rparr>) (ac_workers db)"
    and ok': "access_ok db'" by blast
  note mem = find_row_SomeD [OF r]
  have "r\<lparr>wo_trust := TrustRevoked, wo_revoked := Some now\<rparr> \<in> set (ac_workers db')"
    unfolding ws by (rule put_row_mem [of r]) (simp_all add: mem)
  moreover have later: "steady db' (run_accesses later db')" by (rule run_accesses_steady [OF ok' wf])
  ultimately obtain g where g: "g \<in> set (ac_workers (run_accesses later db'))" "wo_name g = name" "wo_trust g = TrustRevoked"
    using mem unfolding steady_def grown_def by fastforce
  let ?db = "run_accesses later db'"
  have ok2: "access_ok ?db" using later by (simp add: steady_def)
  have "wk_name (aw_worker a) \<noteq> name" if "admitted ?db i secret moment = Some a" for i secret a
  proof
    assume n: "wk_name (aw_worker a) = name"
    from that obtain w where w: "w \<in> set (ac_workers ?db)" "wo_trust w = Trusted" "aw_worker a = worker_from_orm w"
      by (auto simp: admitted_def dest: find_row_SomeD split: option.splits if_splits)
    have "w = g" using unique_row [of wo_name "ac_workers ?db" w g] w g n access_okD(7) [OF ok2]
      by (simp add: registry_ok_def worker_from_orm_def)
    then show False using w(2) g(3) by simp
  qed
  then show ?thesis by (auto simp: worker_authenticate_run [OF ok2] split: option.split)
qed

theorem revoked_worker_is_out_witness:
  "\<exists>answer. fst (worker_authenticate ''ctfw1.x.y'' 9 (run_accesses [DrainWorker ''w'' 8]
       (snd (revoke_worker ''w'' 5 (access_after [''cup''] [] sample_calls))))) = Inr answer
     \<and> (\<forall>a. answer = Some a \<longrightarrow> wk_name (aw_worker a) \<noteq> ''w'')"
proof -
  obtain db' where run: "revoke_worker ''w'' 5 (access_after [''cup''] [] sample_calls) = (Inr (), db')"
    using sample_revoke by (auto simp: sample_after)
  show ?thesis using revoked_worker_is_out [OF sample_well_formed refl run, of "[DrainWorker ''w'' 8]" "''ctfw1.x.y''" 9]
    by (simp add: run)
qed

text \<open>
  C40. The token handed out on approval authenticates its worker. The token's text is parsed back to the
  credential id and the secret it was made of; presented at any instant before the expiry it admits the
  approved worker with the granted scopes, and from the expiry on it admits nobody.
\<close>
theorem approval_token_roundtrip:
  assumes calls: "\<forall>k \<in> set calls. well_formed_access k" and db: "db = access_after cs ts calls"
    and run: "approve_worker name now ttl scopes k secret db = (Inr ic, db')" and k: "k < 2 ^ 128"
    and free: "\<exists>w \<in> set (ac_workers db). wo_name w = name \<and> wo_quarantined w = None"
  shows "parse_token (credential_token ic) = Some (ident_text (Uid k), secret) \<and> read_uuid (ident_text (Uid k)) = Uid k
    \<and> (\<exists>a. wk_name (aw_worker a) = name \<and> aw_credential a = Uid k \<and> set (aw_scopes a) = set scopes
         \<and> (\<forall>moment. worker_authenticate (credential_token ic) moment db' =
              (Inr (if moment < now + ttl then Some a else None), db')))"
proof -
  have ok: "access_ok db" unfolding db by (rule access_after_ok [OF calls])
  have ok': "access_ok db'"
    using run_access_steady [OF ok, of "ApproveWorker name now ttl scopes k secret"] run by (simp add: after_def steady_def)
  from run obtain mid x y where app: "worker_approve name db = Inr (x, mid)"
    and iss: "issue_credential name now ttl scopes k secret mid = Inr (ic, y)" "y = db'"
    by (auto simp: approve_worker_def session_scope_eq tx_simps)
  from app obtain w where w: "find_row wo_name name (ac_workers db) = Some w"
    and mid: "mid = db\<lparr>ac_workers := put_row wo_name (w\<lparr>wo_trust := Trusted\<rparr>) (ac_workers db)\<rparr>"
    by (auto simp: worker_approve_def tx_simps flush_worker_effect)
  note mem = find_row_SomeD [OF w]
  let ?k = "\<lparr>wt_id = Uid k, wt_worker = name, wt_hash = sha256_hex secret, wt_scopes = scopes,
      wt_issued = now, wt_expires = now + ttl, wt_revoked = None\<rparr>"
  from iss obtain m v where ic: "ic = \<lparr>ic_id = Uid k, ic_worker = name, ic_scopes = scopes, ic_expires = now + ttl, ic_secret = secret\<rparr>"
      "issued_credential_post_init ic = Inr ()"
    and tr: "trusted_worker name mid = Inr ((), m)" and add: "worker_credential_add ?k m = Inr (v, db')"
    unfolding issue_credential_def by (auto simp: tx_simps)
  have m: "m = mid" using tr by (auto simp: trusted_worker_def worker_get_def tx_simps split: option.splits)
  from add obtain r where r: "worker_credential_to_orm ?k name = Inr r"
    and keys: "\<forall>b \<in> set (worker_credential_keys r (ac_worker_credentials mid)). \<not> snd b"
    and db': "db' = mid\<lparr>ac_worker_credentials := ac_worker_credentials mid @ [r]\<rparr>"
    unfolding worker_credential_add_effect m by auto
  note cols = worker_credential_cols [OF r, simplified]
  have sec: "secret \<noteq> []" using ic by (auto simp: issued_credential_post_init_def nonempty_iff split: if_splits)
  have parse: "parse_token (credential_token ic) = Some (uuid_text k, secret)"
    using parse_credential_token [of ic k] sec by (simp add: ic(1))
  have find: "find_row tc_id k (ac_worker_credentials db') = Some r"
    using keys cols(1) by (simp add: db' find_row_append find_row_None_key [THEN iffD2] find_row_Cons worker_credential_keys_def)
  have "wo_quarantined w = None"
    using free mem unique_row [of wo_name "ac_workers db" _ w] access_okD(7) [OF ok] by (auto simp: registry_ok_def)
  moreover have "find_row wo_name name (ac_workers db') = Some (w\<lparr>wo_trust := Trusted\<rparr>)"
    using mem by (auto simp: db' mid find_row_put_row)
  ultimately have adm: "admitted db' (Uid k) secret moment = (if moment < now + ttl
       then Some \<lparr>aw_worker = worker_from_orm (w\<lparr>wo_trust := Trusted\<rparr>), aw_credential = Uid k, aw_scopes = tc_scopes r,
          aw_expires = now + ttl\<rparr> else None)" for moment
    using cols find by (auto simp: admitted_def)
  show ?thesis
    using parse read_uuid_text [OF k] adm cols mem
    by (intro conjI exI [of _ "\<lparr>aw_worker = worker_from_orm (w\<lparr>wo_trust := Trusted\<rparr>), aw_credential = Uid k,
        aw_scopes = tc_scopes r, aw_expires = now + ttl\<rparr>"])
      (auto simp: worker_authenticate_run [OF ok'] worker_from_orm_def)
qed

theorem approval_token_roundtrip_witness:
  "\<exists>ic db' a. approve_worker ''w'' 5 100 [''jobs:claim''] 9 ''sec'' sample_db = (Inr ic, db') \<and> wk_name (aw_worker a) = ''w''
     \<and> worker_authenticate (credential_token ic) 50 db' = (Inr (Some a), db')
     \<and> worker_authenticate (credential_token ic) 105 db' = (Inr None, db')"
proof -
  obtain ic db' where run: "approve_worker ''w'' 5 100 [''jobs:claim''] 9 ''sec'' sample_db = (Inr ic, db')"
    using sample_approve by blast
  have "\<exists>w \<in> set (ac_workers sample_db). wo_name w = ''w'' \<and> wo_quarantined w = None"
    by (simp add: sample_db_def sample_registry_row_def)
  note row = this
  have "(9 :: nat) < 2 ^ 128" by simp
  note out = approval_token_roundtrip [OF sample_well_formed sample_after [symmetric] run this row]
  obtain a where a: "wk_name (aw_worker a) = ''w''" "\<forall>moment. worker_authenticate (credential_token ic) moment db' =
      (Inr (if moment < 5 + 100 then Some a else None), db')" using out by (elim conjE exE) (rule that)
  show ?thesis using run a(1) a(2) [THEN spec, of 50] a(2) [THEN spec, of 105]
    by (intro exI [of _ ic] exI [of _ db'] exI [of _ a]) simp
qed

section \<open>Consistency\<close>

text \<open>
  C31. The tables of accounts stay consistent over every run of well-typed calls, failing calls included: all
  rows construct their values, refer to rows that exist and are unique where the schema says so. In
  particular no two users' emails differ in case only, a user has one membership per competition, and a
  worker credential that is not revoked belongs to a trusted worker, which has no other.
\<close>
theorem access_tables_stay_consistent:
  assumes calls: "\<forall>k \<in> set calls. well_formed_access k" and db: "db = access_after cs ts calls"
  shows "access_ok db
    \<and> (\<forall>x \<in> set (ac_users db). \<forall>y \<in> set (ac_users db). lower_text (ur_email x) = lower_text (ur_email y) \<longrightarrow> x = y)
    \<and> (\<forall>x \<in> set (ac_memberships db). \<forall>y \<in> set (ac_memberships db).
         lower_text (mr_user x) = lower_text (mr_user y) \<and> mr_competition x = mr_competition y \<longrightarrow> x = y)
    \<and> (\<forall>x \<in> set (ac_worker_credentials db). tc_revoked x = None \<longrightarrow> trusted_name db (tc_worker x)
         \<and> (\<forall>y \<in> set (ac_worker_credentials db). tc_revoked y = None \<and> tc_worker y = tc_worker x \<longrightarrow> y = x))"
proof (intro conjI ballI impI)
  show ok: "access_ok db" unfolding db by (rule access_after_ok [OF calls])
  note o = access_okD [OF ok]
  fix x y assume "x \<in> set (ac_users db)" "y \<in> set (ac_users db)" "lower_text (ur_email x) = lower_text (ur_email y)"
  then show "x = y" using unique_row [of user_key "ac_users db" x y] o(1) by (simp add: users_ok_def user_key_def)
next
  have ok: "access_ok db" unfolding db by (rule access_after_ok [OF calls])
  fix x y assume xy: "x \<in> set (ac_memberships db)" "y \<in> set (ac_memberships db)"
    "lower_text (mr_user x) = lower_text (mr_user y) \<and> mr_competition x = mr_competition y"
  then have "mr_user x = mr_user y"
    using access_okD(2) [OF ok] same_spelling [OF access_okD(1) [OF ok]] by (simp add: memberships_ok_def)
  then show "x = y" using unique_row [of membership_key "ac_memberships db" x y] xy access_okD(2) [OF ok]
    by (simp add: memberships_ok_def membership_key_def)
next
  have ok: "worker_credentials_ok db" unfolding db by (rule access_okD [OF access_after_ok [OF calls]])
  fix x assume x: "x \<in> set (ac_worker_credentials db)" "tc_revoked x = None"
  then show "trusted_name db (tc_worker x)" using ok by (simp add: worker_credentials_ok_def live_credentials_def)
  fix y assume "y \<in> set (ac_worker_credentials db)" "tc_revoked y = None \<and> tc_worker y = tc_worker x"
  then show "y = x" using x ok unique_row [of tc_worker "live_credentials db" y x]
    by (simp add: worker_credentials_ok_def live_credentials_def)
qed

theorem access_tables_stay_consistent_witness:
  "access_ok (access_after [''cup''] [] sample_calls) \<and> ac_users (access_after [''cup''] [] sample_calls) = [sample_user_row]"
proof
  show "access_ok (access_after [''cup''] [] sample_calls)"
    by (rule access_tables_stay_consistent [OF sample_well_formed refl, THEN conjunct1])
qed (simp add: sample_after sample_db_def)

end
