(* ===== verification/Spec2Isabelle.thy ===== *)
theory Spec2Isabelle
  imports Job_Theorems Quota_Theorems Platform_Theorems Scoreboard_Theorems Authoring_Theorems Ledger_Theorems
    Drain_Theorems Detach_Theorems Access_Theorems Login_Theorems
begin

text \<open>
  Verification library for the durable core of the CTF platform under \<open>src/src/ctf_generator\<close>.

  The program. The platform keeps everything that must survive a crash in PostgreSQL: a queue of jobs
  that workers claim under leases, a ledger of capacity quotas, the challenge instances with their
  runtime facts, and the competition ledger. Application services string together units of work
  (\<open>with database.session_scope()\<close>) over repositories; triggers, CHECKs and unique keys of the
  migrations guard the tables. A reconciler compares desired with reported states, drives instances
  through their state machine and enqueues corrective jobs under idempotency keys.

  How it is modelled. A table is a list of rows, in insertion order; a repository method is a
  transaction \<open>('s, 'a) tx = 's \<Rightarrow> exn + 'a \<times> 's\<close>, whose exception leaves no state; a service method is a
  sequence of units of work \<open>('s, 'a) svc = 's \<Rightarrow> (exn + 'a) \<times> 's\<close>, whose exception keeps what earlier
  units committed (Prelude). Guards of the database run where a row is flushed and raise as values.
  Instants are integers of microseconds, identifiers are \<open>Uid n\<close> or a malformed text, surrogate uuids
  are the business keys they stand for, and the draws a program makes (uuid4, lease tokens, database
  clock) are arguments or numbered draws. \<open>FOR UPDATE SKIP LOCKED\<close> is an argument naming the rows that
  rivals hold. Numbers that PostgreSQL and Python keep unbounded here are \<open>int\<close>; SHA-256 runs on
  \<open>32 word\<close>.

  The parts, with the sources they translate.
  \<^item> Prelude, Py_Json, Catalog: the transaction algebra, JSON text and SHA-256, the name resolvers of
    \<open>infrastructure/database/_resolve.py\<close>.
  \<^item> Jobs: Work_Models (\<open>domain/work/models.py\<close>), Job_Queue (\<open>job_queue_repository.py\<close>, migration 0006),
    Job_Service (\<open>application/jobs/service.py\<close>). Job_Queue_Inv, _Safe, _Steps and Job_Effects give the
    invariant and each method's effect, Job_Protocol the abstract lease protocol and the simulation,
    Job_Theorems the properties.
  \<^item> Quotas: Scheduling_Models (\<open>domain/scheduling/models.py\<close>), Quota_Ledger (\<open>quota_repository.py\<close>,
    migration 0009), Scheduling_Service (\<open>scheduler_repository.py\<close>, \<open>application/scheduling/service.py\<close>).
    Quota_Inv, _Methods, _Release and _Reconcile show that counters are the sums of held items.
  \<^item> Instances: Instance_Models, Instance_Store (\<open>instance_repository.py\<close>, migration 0010), Build_Images
    (both image registries), Instance_Service (\<open>application/instances/service.py\<close> and
    \<open>corrective.py\<close>), Reconciler (\<open>application/instances/reconciler.py\<close>). Instance_Inv, _Steps, _Calls,
    _Moves, _Runs and _Outcomes, Lifecycle_Runs, Reconciler_Runs and Platform_Passes prove what each
    operation does; Platform_Protocol composes jobs, quotas, images and instances into one platform
    with its reachable states; Platform_Sample evaluates concrete platforms for the witnesses;
    Platform_Theorems holds the properties.
  \<^item> Scoring: Doubles is binary64 arithmetic on rationals (53 significant bits, ties to even, exponent
    unbounded, so neither overflow to infinity nor subnormals appear); Scoring_Engine the engines and the
    validator of \<open>domain/scoring/scoring_engine.py\<close>; Scoreboard the loops of \<open>scoreboard.py\<close>.
    Scoreboard_Facts states a reference board over the set of solves, Scoreboard_Theorems proves the loops
    equal to it.
  \<^item> Catalogue: Authoring_Models (\<open>domain/authoring/models.py\<close>, teams of \<open>domain/identity/models.py\<close>),
    Authoring_Store (the repositories of competitions, teams, definitions, versions, builds and
    publications, migrations 0002 to 0004), Authoring_Service (\<open>application/catalog\<close>). Authoring_Inv,
    _Runs and _Theorems give the invariant of all six tables and what no sequence of calls changes.
  \<^item> Competition ledger: Ledger_Models (\<open>domain/ledger\<close>), Ledger_Store (the repositories of submissions,
    solves, score events, outbox and scoreboard cache, migrations 0005 and 0008), Submission_Service
    (\<open>application/submissions\<close>, \<open>locks.py\<close>, \<open>resolvers.py\<close>), Score_Projector
    (\<open>application/scoring/projector.py\<close>, \<open>scoreboard_service.py\<close>). One contest state holds catalogue,
    instances and ledger. Ledger_Inv, Submission_Runs, Projection_Runs and Contest_Runs prove what
    submissions and projector passes do to it and give its reachable states; Ledger_Theorems,
    Drain_Theorems and Detach_Theorems hold the properties, Contest_Sample the states of their witnesses.
    A unit of work runs under READ COMMITTED: what rivals commit between its statements is an argument,
    any function that appends to the ledger as a submission or a pass does (\<open>peer\<close>). An advisory lock
    writes nothing; it resolves its competition, and keeps rival refolds out (\<open>locked_out\<close>). The drain
    loop runs on fuel, and one more unit than there are pending rows is enough, since a pass that
    completes nothing ends it. The flag verifier is an argument, as it is injected in the code; the
    sanitized error text of a failed task is kept as the exception it renders.

  \<^item> Accounts and access: Access_Models (\<open>domain/identity\<close>, \<open>domain/auth\<close>, the workers of
    \<open>domain/execution/models.py\<close>), Access_Store (users, memberships, credentials, sessions, system roles
    and login transactions with their repositories, migrations 0003, 0011, 0012), Access_Service
    (\<open>application/identity\<close>, \<open>application/auth\<close> and its \<open>oidc\<close>), Worker_Access (\<open>worker_repository.py\<close>,
    migration 0007, \<open>worker_enrollment.py\<close>), Permissions (\<open>interfaces/api/deps.py\<close>,
    \<open>db_authenticator.py\<close>, the membership endpoint), Password_Hashing (\<open>application/auth/hashing.py\<close> with
    PBKDF2, HMAC and base64 over the SHA-256 of Py_Json). One \<open>accessdb\<close> holds the tables; competitions
    and teams are given. Access_Inv and Access_Runs prove the consistency of the tables under every
    sequence of calls (\<open>run_accesses\<close>), Worker_Tokens that tokens parse back; Access_Sample is the concrete
    store of the witnesses; Access_Theorems, Policy_Theorems and Login_Theorems hold the properties.
    Arguments of the model are the password hasher (a record of its three methods, as the code
    injects it; the PBKDF2 hasher is one instance of it), the random draws of a session or login, and
    the answer of the identity provider (claims after discovery, token exchange and signature check).
    A claim value that is a list or an object counts as absent.

  Interfaces are locales: a component seen through a larger state (\<open>component_view\<close>), the
  reconciler's observation source (\<open>observation_source\<close>), a write that keeps the catalogue's order
  (\<open>catalogue_writes\<close>), an intake that answers a repeated request from what it stored
  (\<open>idempotent_intake\<close>), interpreted on the repositories and services.

  Not modelled: HTTP, web and command-line interfaces beyond the authorization policy, the Docker
  backend and the worker's threads, challenge generation, the network and signature side of OIDC.
  What a worker does reaches the model as calls of queue and lifecycle service.
\<close>

end
